(* ===== verification/Michi_Prelude.thy ===== *)
theory Michi_Prelude
  imports Main "HOL-Library.AList"
begin

text \<open>
  The shared base of the development: JavaScript strings as lists of UTF-16 code units with the
  string operations the sources call, JavaScript's \<open>Map\<close> as an association list in insertion
  order, optional fields, and the three contracts that several components satisfy: a list merged
  by key (\<open>keyed_merge\<close>), a state folded over a log of numbered events (\<open>watermarked_log\<close>) and a
  machine with an invariant (\<open>invariant_machine\<close>).
\<close>

section \<open>Named collections\<close>

named_theorems js_eval \<open>definitions unfolded to evaluate a closed term\<close>
named_theorems keys \<open>how an operation changes the keys of a keyed list\<close>

section \<open>Strings\<close>

text \<open>
  A JavaScript string is a sequence of UTF-16 code units; \<open>length\<close> counts them. A literal of the
  source is written \<open>js ''...''\<close>; the few units above 127 that the sources name are written as
  numbers.
\<close>

type_synonym jstr = "nat list"

definition js :: "string \<Rightarrow> jstr" where
  "js s = map of_char s"

declare js_def [js_eval]

text \<open>The units matched by \<open>\s\<close> and removed by \<open>trim\<close>: white space and line terminators.\<close>

definition is_ws :: "nat \<Rightarrow> bool" where
  "is_ws c \<longleftrightarrow> 9 \<le> c \<and> c \<le> 13 \<or> c = 32 \<or> c = 160 \<or> c = 5760 \<or> 8192 \<le> c \<and> c \<le> 8202
     \<or> c = 8232 \<or> c = 8233 \<or> c = 8239 \<or> c = 8287 \<or> c = 12288 \<or> c = 65279"

definition js_trim :: "jstr \<Rightarrow> jstr" where
  "js_trim s = rev (dropWhile is_ws (rev (dropWhile is_ws s)))"

definition starts_with :: "jstr \<Rightarrow> jstr \<Rightarrow> bool" where
  "starts_with s p \<longleftrightarrow> take (length p) s = p"

text \<open>
  \<open>String.prototype.slice\<close> with two non-negative bounds, and \<open>split\<close> at one code unit.
\<close>

definition js_slice :: "jstr \<Rightarrow> nat \<Rightarrow> nat \<Rightarrow> jstr" where
  "js_slice s a b = drop a (take b s)"

fun split_on :: "nat \<Rightarrow> jstr \<Rightarrow> jstr list" where
  "split_on d [] = [[]]"
| "split_on d (c # cs) =
     (if c = d then [] # split_on d cs
      else (case split_on d cs of [] \<Rightarrow> [[c]] | w # ws \<Rightarrow> (c # w) # ws))"

lemma split_on_not_Nil: "split_on d s \<noteq> []"
  by (induction d s rule: split_on.induct) (auto split: list.splits)

text \<open>
  Case mapping. The sources compare the result with ASCII literals only, so the mapping is written
  out for every unit whose image contains an ASCII unit and leaves the others as they are: a
  comparison with an ASCII literal cannot tell the difference.
\<close>

definition upper_unit :: "nat \<Rightarrow> jstr" where
  "upper_unit c =
     (if 97 \<le> c \<and> c \<le> 122 then [c - 32]
      else if c < 128 then [c]
      else if c = 223 then [83, 83] else if c = 305 then [73] else if c = 329 then [700, 78]
      else if c = 383 then [83] else if c = 496 then [74, 780]
      else if c = 7830 then [72, 817] else if c = 7831 then [84, 776]
      else if c = 7832 then [87, 778] else if c = 7833 then [89, 778]
      else if c = 7834 then [65, 702]
      else if c = 64256 then [70, 70] else if c = 64257 then [70, 73]
      else if c = 64258 then [70, 76] else if c = 64259 then [70, 70, 73]
      else if c = 64260 then [70, 70, 76] else if c = 64261 then [83, 84]
      else if c = 64262 then [83, 84] else [c])"

definition lower_unit :: "nat \<Rightarrow> jstr" where
  "lower_unit c =
     (if 65 \<le> c \<and> c \<le> 90 then [c + 32]
      else if c = 304 then [105, 775] else if c = 8490 then [107] else [c])"

definition to_upper :: "jstr \<Rightarrow> jstr" where
  "to_upper s = concat (map upper_unit s)"

definition to_lower :: "jstr \<Rightarrow> jstr" where
  "to_lower s = concat (map lower_unit s)"

text \<open>A number in a template literal: the decimal digits of a natural number.\<close>

fun decimal :: "nat \<Rightarrow> jstr" where
  "decimal n = (if n < 10 then [48 + n] else decimal (n div 10) @ [48 + n mod 10])"

declare decimal.simps [simp del]

definition decimal_int :: "int \<Rightarrow> jstr" where
  "decimal_int i = (if i < 0 then 45 # decimal (nat (- i)) else decimal (nat i))"

section \<open>Optional fields\<close>

text \<open>
  An absent property, or one that is \<open>undefined\<close>, is \<open>None\<close>. \<open>a ?? b\<close> is \<open>nullish a b\<close>; a string is
  truthy when it is present and not empty.
\<close>

definition nullish :: "'a option \<Rightarrow> 'a option \<Rightarrow> 'a option" where
  "nullish a b = (case a of None \<Rightarrow> b | Some x \<Rightarrow> Some x)"

definition default_to :: "'a option \<Rightarrow> 'a \<Rightarrow> 'a" where
  "default_to a d = (case a of None \<Rightarrow> d | Some x \<Rightarrow> x)"

definition truthy_str :: "jstr option \<Rightarrow> bool" where
  "truthy_str s = (case s of None \<Rightarrow> False | Some x \<Rightarrow> x \<noteq> [])"

definition truthy_num :: "int option \<Rightarrow> bool" where
  "truthy_num n = (case n of None \<Rightarrow> False | Some x \<Rightarrow> x \<noteq> 0)"

text \<open>A computation that may throw, the error on the left.\<close>

definition bind_sum :: "'e + 'a \<Rightarrow> ('a \<Rightarrow> 'e + 'b) \<Rightarrow> 'e + 'b" where
  "bind_sum m f = (case m of Inl e \<Rightarrow> Inl e | Inr x \<Rightarrow> f x)"

section \<open>Arrays\<close>

fun find_index :: "('a \<Rightarrow> bool) \<Rightarrow> 'a list \<Rightarrow> nat option" where
  "find_index P [] = None"
| "find_index P (x # xs) = (if P x then Some 0 else map_option Suc (find_index P xs))"

text \<open>
  The loop shared by the fold functions of the sources: find the element with the key of the
  update; merge the update onto it in place, or push a new element made from it.
\<close>

definition upsert ::
  "('a \<Rightarrow> 'k) \<Rightarrow> ('p \<Rightarrow> 'k) \<Rightarrow> ('a option \<Rightarrow> 'p \<Rightarrow> 'a) \<Rightarrow> 'a list \<Rightarrow> 'p \<Rightarrow> 'a list" where
  "upsert key pkey merge xs p =
     (case find_index (\<lambda>x. key x = pkey p) xs of
        Some i \<Rightarrow> xs[i := merge (Some (xs ! i)) p]
      | None \<Rightarrow> xs @ [merge None p])"

text \<open>The keys of a list after a sequence of such updates: new keys are appended as first seen.\<close>

fun first_seen :: "'k list \<Rightarrow> 'k list \<Rightarrow> 'k list" where
  "first_seen ks [] = ks"
| "first_seen ks (p # ps) = first_seen (if p \<in> set ks then ks else ks @ [p]) ps"

section \<open>Lemmas on strings\<close>

lemma dropWhile_ws_Nil_iff: "dropWhile is_ws s = [] \<longleftrightarrow> list_all is_ws s"
  by (simp add: dropWhile_eq_Nil_conv list_all_iff)

lemma length_js_trim: "length (js_trim s) \<le> length s"
  unfolding js_trim_def
  by (metis length_dropWhile_le length_rev order_trans)

lemma set_js_trim: "set (js_trim s) \<subseteq> set s"
  unfolding js_trim_def by (auto dest!: set_dropWhileD)

lemma decimal_not_Nil [simp]: "decimal n \<noteq> []"
  by (subst decimal.simps) simp

lemma decimal_digits: "c \<in> set (decimal n) \<Longrightarrow> 48 \<le> c \<and> c \<le> 57"
proof (induction n rule: decimal.induct)
  case (1 n)
  show ?case
  proof (cases "n < 10")
    case True
    with "1.prems" show ?thesis by (simp add: decimal.simps [of n])
  next
    case False
    with "1.prems" have "c \<in> set (decimal (n div 10)) \<or> c = 48 + n mod 10"
      by (auto simp: decimal.simps [of n])
    then show ?thesis using "1.IH" [OF False] by auto
  qed
qed

text \<open>Reading the digits back gives the number, so two numbers with the same digits are equal.\<close>

lemma decimal_value: "foldl (\<lambda>v c. 10 * v + (c - 48)) 0 (decimal n) = n"
proof (induction n rule: decimal.induct)
  case (1 n)
  then show ?case by (cases "n < 10") (simp_all add: decimal.simps [of n])
qed

lemma decimal_inj [simp]: "decimal m = decimal n \<longleftrightarrow> m = n"
  by (metis decimal_value)

lemma js_inj [simp]: "js a = js b \<longleftrightarrow> a = b"
  unfolding js_def by (rule inj_map_eq_map) (auto intro: injI)

lemma js_Nil_iff [simp]: "js a = [] \<longleftrightarrow> a = []" "[] = js a \<longleftrightarrow> a = []"
  by (auto simp: js_def)

lemma starts_with_append [simp]: "starts_with (p @ s) p"
  by (simp add: starts_with_def)

lemma starts_with_iff: "starts_with s p \<longleftrightarrow> (\<exists>t. s = p @ t)"
  unfolding starts_with_def by (metis append_eq_conv_conj append_take_drop_id)

section \<open>Lemmas on optional fields and arrays\<close>

lemma nullish_simps [simp]:
  "nullish None b = b" "nullish (Some x) b = Some x" "nullish a None = a"
  by (simp_all add: nullish_def split: option.split)

lemma nullish_twice [simp]:
  "nullish (nullish a b) b = nullish a b" "nullish a (nullish a b) = nullish a b" "nullish a a = a"
  "nullish a (nullish b (nullish a (nullish b c))) = nullish a (nullish b c)"
  by (simp_all add: nullish_def split: option.split)

lemma nullish_None: "nullish a b = None \<longleftrightarrow> a = None \<and> b = None"
  by (cases a) simp_all

lemma default_to_simps [simp]: "default_to None d = d" "default_to (Some x) d = x"
  by (simp_all add: default_to_def)

lemma truthy_simps [simp]:
  "\<not> truthy_str None" "truthy_str (Some s) \<longleftrightarrow> s \<noteq> []"
  "\<not> truthy_num None" "truthy_num (Some n) \<longleftrightarrow> n \<noteq> 0"
  by (simp_all add: truthy_str_def truthy_num_def)

lemma bind_sum_simps [simp]: "bind_sum (Inl e) f = Inl e" "bind_sum (Inr x) f = f x"
  by (simp_all add: bind_sum_def)

lemma bind_sum_Inr: "bind_sum m f = Inr y \<longleftrightarrow> (\<exists>x. m = Inr x \<and> f x = Inr y)"
  by (cases m) simp_all

lemma truthy_strE: "truthy_str s \<Longrightarrow> (\<And>x. s = Some x \<Longrightarrow> x \<noteq> [] \<Longrightarrow> R) \<Longrightarrow> R"
  by (cases s) auto

lemma find_index_None: "find_index P xs = None \<longleftrightarrow> (\<forall>x \<in> set xs. \<not> P x)"
  by (induction xs) auto

lemma find_index_Some:
  "find_index P xs = Some i \<Longrightarrow> i < length xs \<and> P (xs ! i) \<and> (\<forall>j < i. \<not> P (xs ! j))"
proof (induction xs arbitrary: i)
  case Nil
  then show ?case by simp
next
  case (Cons x xs)
  show ?case
  proof (cases "P x")
    case True
    with Cons.prems show ?thesis by simp
  next
    case False
    with Cons.prems obtain k where k: "find_index P xs = Some k" "i = Suc k" by auto
    from Cons.IH [OF k(1)] k(2) False show ?thesis
      by (auto simp: nth_Cons split: nat.split)
  qed
qed

lemma find_index_cong:
  "length xs = length ys \<Longrightarrow> (\<And>i. i < length xs \<Longrightarrow> P (xs ! i) = Q (ys ! i))
   \<Longrightarrow> find_index P xs = find_index Q ys"
proof (induction xs ys rule: list_induct2)
  case Nil
  then show ?case by simp
next
  case (Cons x xs y ys)
  have "P x = Q y" using Cons.prems [of 0] by simp
  moreover have "find_index P xs = find_index Q ys"
    using Cons.prems [of "Suc _"] by (intro Cons.IH) auto
  ultimately show ?case by simp
qed

lemma set_first_seen: "set (first_seen ks ps) = set ks \<union> set ps"
  by (induction ps arbitrary: ks) auto

lemma distinct_first_seen: "distinct ks \<Longrightarrow> distinct (first_seen ks ps)"
  by (induction ps arbitrary: ks) auto

lemma first_seen_prefix: "\<exists>ns. first_seen ks ps = ks @ ns"
proof (induction ps arbitrary: ks)
  case Nil
  then show ?case by simp
next
  case (Cons p ps)
  from Cons.IH [of "if p \<in> set ks then ks else ks @ [p]"] show ?case
    by (auto split: if_splits)
qed

lemma upsert_simps [simp]:
  "upsert key pkey merge [] p = [merge None p]"
  "upsert key pkey merge (x # xs) p =
     (if key x = pkey p then merge (Some x) p # xs else x # upsert key pkey merge xs p)"
  by (simp_all add: upsert_def split: option.split)

lemma find_map_key:
  "(\<And>x. key (f x) = key x) \<Longrightarrow>
   find (\<lambda>x. key x = k) (map f xs) = map_option f (find (\<lambda>x. key x = k) xs)"
  by (induction xs) auto

lemma find_Some_key: "find (\<lambda>x. key x = k) xs = Some x \<Longrightarrow> key x = k \<and> x \<in> set xs"
  by (induction xs) (auto split: if_splits)

text \<open>Replacing the first element with a key by one with the same key.\<close>

lemma find_update_first:
  assumes "find_index (\<lambda>x. key x = k) xs = Some i" and "key y = k"
  shows "find (\<lambda>x. key x = k') (xs[i := y]) =
    (if k' = k then Some y else find (\<lambda>x. key x = k') xs)"
  using assms
proof (induction xs arbitrary: i)
  case Nil
  then show ?case by simp
next
  case (Cons x xs)
  then show ?case by (cases "key x = k") auto
qed

lemma set_update_subset: "set (AList.update k v xs) \<subseteq> insert (k, v) (set xs)"
  by (induction xs) auto

section \<open>Contract: a list merged by key\<close>

locale keyed_merge =
  fixes key :: "'a \<Rightarrow> 'k" and pkey :: "'p \<Rightarrow> 'k" and merge :: "'a option \<Rightarrow> 'p \<Rightarrow> 'a"
  assumes key_new: "key (merge None p) = pkey p"
    and key_old: "key x = pkey p \<Longrightarrow> key (merge (Some x) p) = pkey p"
begin

lemma keys_upsert:
  "map key (upsert key pkey merge xs p) =
     (if pkey p \<in> set (map key xs) then map key xs else map key xs @ [pkey p])"
  by (induction xs) (auto simp: key_new key_old)

lemma keys_upserts:
  "map key (foldl (upsert key pkey merge) xs ps) = first_seen (map key xs) (map pkey ps)"
  by (induction ps arbitrary: xs) (simp_all add: keys_upsert)

lemma find_upsert:
  "find (\<lambda>x. key x = k) (upsert key pkey merge xs p) =
     (if k = pkey p then Some (merge (find (\<lambda>x. key x = k) xs) p)
      else find (\<lambda>x. key x = k) xs)"
  by (induction xs) (auto simp: key_new key_old)

text \<open>What merging keeps of the element with a key, a sequence of updates keeps.\<close>

lemma find_upserts_keep:
  assumes "find (\<lambda>x. key x = k) xs = Some x" and "Q x"
    and "\<And>x p. p \<in> set ps \<Longrightarrow> pkey p = k \<Longrightarrow> key x = k \<Longrightarrow> Q x \<Longrightarrow> Q (merge (Some x) p)"
  shows "\<exists>y. find (\<lambda>x. key x = k) (foldl (upsert key pkey merge) xs ps) = Some y \<and> Q y"
  using assms
proof (induction ps arbitrary: xs x)
  case Nil
  then show ?case by simp
next
  case (Cons p ps)
  let ?y = "if k = pkey p then merge (Some x) p else x"
  have "find (\<lambda>x. key x = k) (upsert key pkey merge xs p) = Some ?y"
    using Cons.prems(1) by (auto simp: find_upsert)
  moreover have "Q ?y" using Cons.prems by (auto dest: find_Some_key)
  ultimately show ?case using Cons.IH [of "upsert key pkey merge xs p" ?y] Cons.prems(3) by simp
qed

lemma distinct_upserts:
  "distinct (map key xs) \<Longrightarrow> distinct (map key (foldl (upsert key pkey merge) xs ps))"
  by (simp add: keys_upserts distinct_first_seen)

text \<open>A property that merging keeps, and that every new element has, holds of the whole list.\<close>

lemma upsert_all:
  "Q (merge None p) \<Longrightarrow> (\<And>x. Q x \<Longrightarrow> key x = pkey p \<Longrightarrow> Q (merge (Some x) p))
   \<Longrightarrow> \<forall>x \<in> set xs. Q x \<Longrightarrow> \<forall>x \<in> set (upsert key pkey merge xs p). Q x"
  by (induction xs) auto

lemma upserts_all:
  assumes "\<And>p. p \<in> set ps \<Longrightarrow> Q (merge None p)"
    and "\<And>x p. p \<in> set ps \<Longrightarrow> Q x \<Longrightarrow> key x = pkey p \<Longrightarrow> Q (merge (Some x) p)"
    and "\<forall>x \<in> set xs. Q x"
  shows "\<forall>x \<in> set (foldl (upsert key pkey merge) xs ps). Q x"
  using assms
proof (induction ps arbitrary: xs)
  case Nil
  then show ?case by simp
next
  case (Cons p ps)
  then have "\<forall>x \<in> set (upsert key pkey merge xs p). Q x" by (intro upsert_all) auto
  with Cons show ?case by simp
qed

end

section \<open>Contract: a state folded over a log of numbered events\<close>

text \<open>
  A consumer keeps the highest sequence number it has applied and ignores an event that is not
  above it; an event without a number is always applied.
\<close>

locale watermarked_log =
  fixes step :: "'s \<Rightarrow> 'e \<Rightarrow> 's" and seq :: "'e \<Rightarrow> int option" and mark :: "'s \<Rightarrow> int"
  assumes stale: "seq e = Some n \<Longrightarrow> n \<le> mark s \<Longrightarrow> step s e = s"
    and advance: "seq e = Some n \<Longrightarrow> mark s < n \<Longrightarrow> mark (step s e) = n"
    and unnumbered: "seq e = None \<Longrightarrow> mark (step s e) = mark s"
begin

lemma mark_step: "mark s \<le> mark (step s e)"
proof (cases "seq e")
  case None
  then show ?thesis by (simp add: unnumbered)
next
  case (Some n)
  then show ?thesis using stale [OF Some, of s] advance [OF Some, of s]
    by (cases "n \<le> mark s") auto
qed

lemma mark_run: "mark s \<le> mark (foldl step s es)"
proof (induction es arbitrary: s)
  case Nil
  then show ?case by simp
next
  case (Cons e es)
  from mark_step [of s e] Cons.IH [of "step s e"] show ?case by simp
qed

lemma mark_reaches: "e \<in> set es \<Longrightarrow> seq e = Some n \<Longrightarrow> n \<le> mark (foldl step s es)"
proof (induction es arbitrary: s)
  case Nil
  then show ?case by simp
next
  case (Cons d es)
  show ?case
  proof (cases "e = d")
    case True
    have "n \<le> mark (step s e)"
      using Cons.prems(2) stale [of e n s] advance [of e n s] by (cases "n \<le> mark s") auto
    also have "\<dots> \<le> mark (foldl step (step s e) es)" by (rule mark_run)
    finally show ?thesis using True by simp
  next
    case False
    with Cons.prems have "e \<in> set es" by simp
    with Cons.IH Cons.prems(2) show ?thesis by simp
  qed
qed

lemma stale_run:
  "(\<And>e. e \<in> set es \<Longrightarrow> \<exists>n. seq e = Some n \<and> n \<le> mark s) \<Longrightarrow> foldl step s es = s"
proof (induction es)
  case Nil
  then show ?case by simp
next
  case (Cons e es)
  from Cons.prems [of e] obtain n where "seq e = Some n" "n \<le> mark s" by auto
  then have "step s e = s" by (rule stale)
  with Cons show ?case by simp
qed

text \<open>Redelivering events that are already in the log changes nothing.\<close>

lemma redelivery:
  assumes "\<And>e. e \<in> set dup \<Longrightarrow> seq e \<noteq> None \<and> seq e \<in> seq ` set es"
  shows "foldl step s (es @ dup) = foldl step s es"
proof -
  have "foldl step (foldl step s es) dup = foldl step s es"
  proof (rule stale_run)
    fix e
    assume "e \<in> set dup"
    with assms obtain n d where "seq e = Some n" "d \<in> set es" "seq d = Some n" by fastforce
    then show "\<exists>n. seq e = Some n \<and> n \<le> mark (foldl step s es)" using mark_reaches by blast
  qed
  then show ?thesis by simp
qed

end

section \<open>Contract: a machine with an invariant\<close>

locale invariant_machine =
  fixes step :: "'s \<Rightarrow> 'e \<Rightarrow> 's" and ok :: "'e \<Rightarrow> bool" and inv :: "'s \<Rightarrow> bool"
  assumes inv_step: "inv s \<Longrightarrow> ok e \<Longrightarrow> inv (step s e)"
begin

lemma inv_run: "inv s \<Longrightarrow> list_all ok es \<Longrightarrow> inv (foldl step s es)"
  by (induction es arbitrary: s) (auto intro: inv_step)

end

end
