(* ===== verification/Js_Value.thy ===== *)
theory Js_Value
  imports Michi_Prelude
begin

text \<open>
  Untrusted values (\<open>unknown\<close> in the sources) as the validators inspect them: the type tests
  \<open>typeof\<close>, \<open>Array.isArray\<close> and \<open>Number.isFinite\<close>, and reading a property. A property that is not
  there reads as \<open>undefined\<close>; reading a property of \<open>null\<close> or \<open>undefined\<close> throws. Finite numbers are
  integers here: the sources that read them only copy and compare them.
\<close>

datatype not_finite = NaN | PosInfinity | NegInfinity

datatype jsval =
    JUndefined
  | JNull
  | JBool bool
  | JNum int
  | JNotFinite not_finite
  | JStr jstr
  | JArr "jsval list"
  | JObj "(jstr \<times> jsval) list"

definition js_prop :: "jsval \<Rightarrow> jstr \<Rightarrow> jsval" where
  "js_prop v k = (case v of JObj kvs \<Rightarrow> (case map_of kvs k of None \<Rightarrow> JUndefined | Some x \<Rightarrow> x) | _ \<Rightarrow> JUndefined)"

text \<open>\<open>!!value && typeof value === 'object' && !Array.isArray(value)\<close>, and the same without the array test.\<close>

fun is_record :: "jsval \<Rightarrow> bool" where
  "is_record (JObj kvs) = True"
| "is_record v = False"

fun is_object :: "jsval \<Rightarrow> bool" where
  "is_object (JObj kvs) = True"
| "is_object (JArr vs) = True"
| "is_object v = False"

text \<open>
  \<open>String(value)\<close>, with \<open>None\<close> for the \<open>TypeError\<close> it throws: a plain object is converted by its
  \<open>toString\<close>, and an own member of that name hides the inherited method and is no function. An array
  joins its elements with commas, \<open>null\<close> and \<open>undefined\<close> as empty strings.
\<close>

fun join_with :: "jstr \<Rightarrow> jstr list \<Rightarrow> jstr" where
  "join_with sep [] = []"
| "join_with sep [s] = s"
| "join_with sep (s # t # ts) = s @ sep @ join_with sep (t # ts)"

fun js_string :: "jsval \<Rightarrow> jstr option" where
  "js_string JUndefined = Some (js ''undefined'')"
| "js_string JNull = Some (js ''null'')"
| "js_string (JBool b) = Some (if b then js ''true'' else js ''false'')"
| "js_string (JNum n) = Some (decimal_int n)"
| "js_string (JNotFinite NaN) = Some (js ''NaN'')"
| "js_string (JNotFinite PosInfinity) = Some (js ''Infinity'')"
| "js_string (JNotFinite NegInfinity) = Some (js ''-Infinity'')"
| "js_string (JStr s) = Some s"
| "js_string (JArr vs) = map_option (join_with (js '',''))
     (those (map (\<lambda>v. if v = JNull \<or> v = JUndefined then Some [] else js_string v) vs))"
| "js_string (JObj kvs) = (if js ''toString'' \<in> fst ` set kvs then None else Some (js ''[object Object]''))"

text \<open>The readers of a validator, and a property read that throws on \<open>null\<close> and \<open>undefined\<close>.\<close>

fun str_of :: "jsval \<Rightarrow> jstr option" where
  "str_of (JStr s) = Some s"
| "str_of v = None"

fun num_of :: "jsval \<Rightarrow> int option" where
  "num_of (JNum n) = Some n"
| "num_of v = None"

fun bool_of :: "jsval \<Rightarrow> bool option" where
  "bool_of (JBool b) = Some b"
| "bool_of v = None"

abbreviation field :: "jsval \<Rightarrow> string \<Rightarrow> jsval" where
  "field v k \<equiv> js_prop v (js k)"

definition has_no_members :: "jsval \<Rightarrow> bool" where
  "has_no_members v \<longleftrightarrow> v = JNull \<or> v = JUndefined"

fun items_of :: "jsval \<Rightarrow> jsval list" where
  \<comment> \<open>\<open>Array.isArray(v) ? v : []\<close>\<close>
  "items_of (JArr vs) = vs"
| "items_of v = []"

fun js_truthy :: "jsval \<Rightarrow> bool" where
  "js_truthy JUndefined = False"
| "js_truthy JNull = False"
| "js_truthy (JBool b) = b"
| "js_truthy (JNum n) = (n \<noteq> 0)"
| "js_truthy (JNotFinite k) = (k \<noteq> NaN)"
| "js_truthy (JStr s) = (s \<noteq> [])"
| "js_truthy v = True"

lemma js_prop_JObj [simp]:
  "js_prop (JObj []) k = JUndefined"
  "js_prop (JObj ((k', v) # kvs)) k = (if k = k' then v else js_prop (JObj kvs) k)"
  by (simp_all add: js_prop_def)

text \<open>The members of an object literal with optional members, in order.\<close>

definition opt_member :: "jstr \<Rightarrow> jsval option \<Rightarrow> (jstr \<times> jsval) list" where
  "opt_member k v = (case v of None \<Rightarrow> [] | Some x \<Rightarrow> [(k, x)])"

lemma opt_member_simps [simp]: "opt_member k None = []" "opt_member k (Some x) = [(k, x)]"
  by (simp_all add: opt_member_def)

lemma js_prop_opt_member:
  "js_prop (JObj (opt_member k' v @ kvs)) k =
     (if k = k' \<and> v \<noteq> None then default_to v JUndefined else js_prop (JObj kvs) k)"
  by (cases v) auto

end
