(* ===== verification/Subagent_Wire.thy ===== *)
theory Subagent_Wire
  imports Subagents Js_Value
begin

text \<open>
  The validation of untrusted roster records (\<open>Wire parsing\<close> in \<^verbatim>\<open>shared/src/subagents.ts\<close>):
  patches, stored entries, recorded ends and activity payloads. \<open>JSON_parse\<close> stands for
  \<open>JSON.parse\<close>, with \<open>None\<close> for a thrown error. The theorems bound every text a validated record
  holds and show that a stored record is read back as it was.
\<close>

section \<open>Readers\<close>

definition truthy_of :: "jstr option \<Rightarrow> jstr option" where
  "truthy_of s = (if truthy_str s then s else None)"

definition parse_outcome :: "jsval \<Rightarrow> SubagentOutcome option" where
  "parse_outcome v = (if v = JStr (js ''completed'') then Some OutCompleted
     else if v = JStr (js ''failed'') then Some OutFailed
     else if v = JStr (js ''cancelled'') then Some OutCancelled else None)"

definition parse_source :: "jsval \<Rightarrow> SubagentSource option" where
  "parse_source v = (if v = JStr (js ''claude'') then Some SrcClaude
     else if v = JStr (js ''kiro'') then Some SrcKiro
     else if v = JStr (js ''codex'') then Some SrcCodex
     else if v = JStr (js ''crew'') then Some SrcCrew
     else if v = JStr (js ''pi'') then Some SrcPi else None)"

definition parse_status :: "jsval \<Rightarrow> SubagentStatus option" where
  "parse_status v = (if v = JStr (js ''working'') then Some Working
     else if v = JStr (js ''terminated'') then Some Terminated else None)"

definition parseUsage :: "jsval \<Rightarrow> SubagentUsage option" where
  "parseUsage v = (if \<not> is_record v then None
     else let usage = \<lparr>u_totalTokens = num_of (field v ''totalTokens''),
                       u_toolUses = num_of (field v ''toolUses''),
                       u_durationMs = num_of (field v ''durationMs'')\<rparr>
          in if usage = no_usage then None else Some usage)"

definition parseActivityItem :: "jsval \<Rightarrow> SubagentActivity option" where
  "parseActivityItem item = (if \<not> is_object item then None
     else case truthy_of (str_of (field item ''id'')) of None \<Rightarrow> None
       | Some eid \<Rightarrow> Some \<lparr>a_id = eid,
           a_kind = (if field item ''kind'' = JStr (js ''message'') then ActMessage else ActTool),
           a_title = default_to (clampSubagentText (str_of (field item ''title'')) (l_title SUBAGENT_LIMITS)) [],
           a_status = truthy_of (str_of (field item ''status'')),
           a_toolKind = truthy_of (str_of (field item ''toolKind'')),
           a_detail = clampSubagentText (truthy_of (str_of (field item ''detail''))) (l_detail SUBAGENT_LIMITS),
           a_output = clampSubagentText (truthy_of (str_of (field item ''output''))) (l_output SUBAGENT_LIMITS),
           a_startedAt = num_of (field item ''startedAt''),
           a_endedAt = num_of (field item ''endedAt'')\<rparr>)"

definition last_n :: "nat \<Rightarrow> 'a list \<Rightarrow> 'a list" where
  \<comment> \<open>\<open>xs.slice(-n)\<close>\<close>
  "last_n n xs = drop (length xs - n) xs"

definition parseActivity :: "jsval \<Rightarrow> SubagentActivity list option" where
  "parseActivity v = (case v of
     JArr items \<Rightarrow> (let list = List.map_filter parseActivityItem items
       in if list \<noteq> [] then Some (last_n (l_activity SUBAGENT_LIMITS) list) else None)
   | _ \<Rightarrow> None)"

definition parse_string_list :: "jsval \<Rightarrow> jstr list option" where
  "parse_string_list v = (case v of JArr items \<Rightarrow> Some (List.map_filter str_of items) | _ \<Rightarrow> None)"

definition clamped :: "jsval \<Rightarrow> nat \<Rightarrow> jstr option" where
  "clamped v m = truthy_of (clampSubagentText (str_of v) m)"

definition parseSubagentPatch :: "jsval \<Rightarrow> SubagentPatch option" where
  "parseSubagentPatch v = (if \<not> is_record v then None
     else case truthy_of (str_of (field v ''sessionId'')) of None \<Rightarrow> None
       | Some sid \<Rightarrow> Some \<lparr>p_sessionId = sid,
           p_sessionName = str_of (field v ''sessionName''),
           p_agentName = str_of (field v ''agentName''),
           p_initialQuery = str_of (field v ''initialQuery''),
           p_status = parse_status (field v ''status''),
           p_statusMessage = clamped (field v ''statusMessage'') (l_statusMessage SUBAGENT_LIMITS),
           p_group = str_of (field v ''group''),
           p_dependsOn = parse_string_list (field v ''dependsOn''),
           p_parentToolCallId = truthy_of (str_of (field v ''parentToolCallId'')),
           p_prompt = clamped (field v ''prompt'') (l_prompt SUBAGENT_LIMITS),
           p_description = clamped (field v ''description'') (l_title SUBAGENT_LIMITS),
           p_model = truthy_of (str_of (field v ''model'')),
           p_outcome = parse_outcome (field v ''outcome''),
           p_error = clamped (field v ''error'') (l_error SUBAGENT_LIMITS),
           p_result = clamped (field v ''result'') (l_result SUBAGENT_LIMITS),
           p_startedAt = num_of (field v ''startedAt''),
           p_endedAt = num_of (field v ''endedAt''),
           p_usage = parseUsage (field v ''usage''),
           p_currentTool = truthy_of (str_of (field v ''currentTool'')),
           p_activity = parseActivity (field v ''activity''),
           p_activityDropped = (if truthy_num (num_of (field v ''activityDropped''))
                                then num_of (field v ''activityDropped'') else None),
           p_source = parse_source (field v ''source''),
           p_background = (if field v ''background'' = JBool True then Some True else None)\<rparr>)"

definition parseSubagentInfo :: "jsval \<Rightarrow> SubagentInfo option" where
  "parseSubagentInfo v = (case parseSubagentPatch v of None \<Rightarrow> None
     | Some patch \<Rightarrow> Some ((spread_patch patch)\<lparr>s_status := default_to (p_status patch) Terminated\<rparr>))"

definition parseList :: "(jstr \<Rightarrow> jsval option) \<Rightarrow> jsval \<Rightarrow> (jsval \<Rightarrow> 'a option) \<Rightarrow> 'a list" where
  "parseList JSON_parse v parse =
     (let raw = (case v of JStr s \<Rightarrow> if js_trim s \<noteq> [] then JSON_parse s else Some v | _ \<Rightarrow> Some v)
      in case raw of Some (JArr items) \<Rightarrow> List.map_filter parse items | _ \<Rightarrow> [])"

definition parseSubagentEnd :: "jsval \<Rightarrow> SubagentEnd option" where
  "parseSubagentEnd v = (if \<not> is_record v then None
     else case truthy_of (str_of (field v ''sessionId'')) of None \<Rightarrow> None
       | Some sid \<Rightarrow> if length sid > snd SUBAGENT_END_LIMITS then None
           else (case parse_outcome (field v ''outcome'') of None \<Rightarrow> None
             | Some oc \<Rightarrow> Some \<lparr>e_sessionId = sid, e_outcome = oc,
                 e_endedAt = num_of (field v ''endedAt''),
                 e_error = clamped (field v ''error'') (l_error SUBAGENT_LIMITS),
                 e_result = clamped (field v ''result'') (l_result SUBAGENT_LIMITS),
                 e_usage = parseUsage (field v ''usage'')\<rparr>))"

definition parseSubagentEnds :: "(jstr \<Rightarrow> jsval option) \<Rightarrow> jsval \<Rightarrow> SubagentEnd list" where
  "parseSubagentEnds JSON_parse v = take (fst SUBAGENT_END_LIMITS) (parseList JSON_parse v parseSubagentEnd)"

definition parseSubagentRoster :: "(jstr \<Rightarrow> jsval option) \<Rightarrow> jsval \<Rightarrow> SubagentInfo list" where
  "parseSubagentRoster JSON_parse v = parseList JSON_parse v parseSubagentInfo"

definition parseSubagentPatches :: "(jstr \<Rightarrow> jsval option) \<Rightarrow> jsval \<Rightarrow> SubagentPatch list" where
  "parseSubagentPatches JSON_parse v = parseList JSON_parse v parseSubagentPatch"

definition parseSubagentActivityPayload :: "jsval \<Rightarrow> SubagentActivityPayload" where
  "parseSubagentActivityPayload v = \<lparr>
     y_subagentSessionId = default_to (str_of (field v ''subagentSessionId'')) [],
     y_title = default_to (str_of (field v ''title'')) [],
     y_status = default_to (str_of (field v ''status'')) [],
     y_toolCallId = truthy_of (str_of (field v ''toolCallId'')),
     y_toolKind = truthy_of (str_of (field v ''toolKind'')),
     y_detail = clampSubagentText (truthy_of (str_of (field v ''detail''))) (l_detail SUBAGENT_LIMITS),
     y_output = clampSubagentText (truthy_of (str_of (field v ''output''))) (l_output SUBAGENT_LIMITS),
     y_activityKind = (if field v ''activityKind'' = JStr (js ''message'') then Some ActMessage else None),
     y_at = num_of (field v ''at'')\<rparr>"

definition knownSubagentEnd :: "jsval \<Rightarrow> SubagentEnd option" where
  "knownSubagentEnd v = (if \<not> is_record v then None
     else case truthy_of (str_of (field v ''sessionId'')) of None \<Rightarrow> None
       | Some sid \<Rightarrow> if field v ''status'' \<noteq> JStr (js ''terminated'') then None
           else (case parse_outcome (field v ''outcome'') of None \<Rightarrow> None
             | Some oc \<Rightarrow> Some (subagentEndOf sid (Some oc) (Some Terminated)
                 (num_of (field v ''endedAt'')) (truthy_of (str_of (field v ''error'')))
                 (truthy_of (str_of (field v ''result''))) (parseUsage (field v ''usage'')) [] None)))"

section \<open>Records as they are stored\<close>

definition enc_status :: "SubagentStatus \<Rightarrow> jsval" where
  "enc_status st = JStr (case st of Working \<Rightarrow> js ''working'' | Terminated \<Rightarrow> js ''terminated'')"

definition enc_outcome :: "SubagentOutcome \<Rightarrow> jsval" where
  "enc_outcome oc = JStr (case oc of OutCompleted \<Rightarrow> js ''completed'' | OutFailed \<Rightarrow> js ''failed''
     | OutCancelled \<Rightarrow> js ''cancelled'')"

definition enc_source :: "SubagentSource \<Rightarrow> jsval" where
  "enc_source sr = JStr (case sr of SrcClaude \<Rightarrow> js ''claude'' | SrcKiro \<Rightarrow> js ''kiro''
     | SrcCodex \<Rightarrow> js ''codex'' | SrcCrew \<Rightarrow> js ''crew'' | SrcPi \<Rightarrow> js ''pi'')"

definition enc_usage :: "SubagentUsage \<Rightarrow> jsval" where
  "enc_usage u = JObj (opt_member (js ''totalTokens'') (map_option JNum (u_totalTokens u)) @
     opt_member (js ''toolUses'') (map_option JNum (u_toolUses u)) @
     opt_member (js ''durationMs'') (map_option JNum (u_durationMs u)))"

definition enc_activity :: "SubagentActivity \<Rightarrow> jsval" where
  "enc_activity a = JObj ((js ''id'', JStr (a_id a)) #
     (js ''kind'', JStr (case a_kind a of ActTool \<Rightarrow> js ''tool'' | ActMessage \<Rightarrow> js ''message'')) #
     (js ''title'', JStr (a_title a)) #
     opt_member (js ''status'') (map_option JStr (a_status a)) @
     opt_member (js ''toolKind'') (map_option JStr (a_toolKind a)) @
     opt_member (js ''detail'') (map_option JStr (a_detail a)) @
     opt_member (js ''output'') (map_option JStr (a_output a)) @
     opt_member (js ''startedAt'') (map_option JNum (a_startedAt a)) @
     opt_member (js ''endedAt'') (map_option JNum (a_endedAt a)))"

definition enc_info :: "SubagentInfo \<Rightarrow> jsval" where
  "enc_info i = JObj ((js ''sessionId'', JStr (s_sessionId i)) #
     (js ''sessionName'', JStr (s_sessionName i)) # (js ''agentName'', JStr (s_agentName i)) #
     (js ''initialQuery'', JStr (s_initialQuery i)) # (js ''status'', enc_status (s_status i)) #
     (js ''group'', JStr (s_group i)) # (js ''dependsOn'', JArr (map JStr (s_dependsOn i))) #
     opt_member (js ''statusMessage'') (map_option JStr (s_statusMessage i)) @
     opt_member (js ''parentToolCallId'') (map_option JStr (s_parentToolCallId i)) @
     opt_member (js ''prompt'') (map_option JStr (s_prompt i)) @
     opt_member (js ''description'') (map_option JStr (s_description i)) @
     opt_member (js ''model'') (map_option JStr (s_model i)) @
     opt_member (js ''outcome'') (map_option enc_outcome (s_outcome i)) @
     opt_member (js ''error'') (map_option JStr (s_error i)) @
     opt_member (js ''result'') (map_option JStr (s_result i)) @
     opt_member (js ''startedAt'') (map_option JNum (s_startedAt i)) @
     opt_member (js ''endedAt'') (map_option JNum (s_endedAt i)) @
     opt_member (js ''usage'') (map_option enc_usage (s_usage i)) @
     opt_member (js ''currentTool'') (map_option JStr (s_currentTool i)) @
     opt_member (js ''activity'') (map_option (\<lambda>xs. JArr (map enc_activity xs)) (s_activity i)) @
     opt_member (js ''activityDropped'') (map_option JNum (s_activityDropped i)) @
     opt_member (js ''source'') (map_option enc_source (s_source i)) @
     opt_member (js ''background'') (map_option JBool (s_background i)))"

text \<open>
  The records the fold itself stores: optional texts present only when not empty, bounded texts
  within their limit, counters present only when they count something.
\<close>

definition short :: "nat \<Rightarrow> jstr option \<Rightarrow> bool" where
  "short m s \<longleftrightarrow> (case s of None \<Rightarrow> True | Some x \<Rightarrow> x \<noteq> [] \<and> length x \<le> m)"

definition filled :: "jstr option \<Rightarrow> bool" where
  "filled s \<longleftrightarrow> s \<noteq> Some []"

definition storable_activity :: "SubagentActivity \<Rightarrow> bool" where
  "storable_activity a \<longleftrightarrow> a_id a \<noteq> [] \<and> length (a_title a) \<le> l_title SUBAGENT_LIMITS
     \<and> filled (a_status a) \<and> filled (a_toolKind a)
     \<and> short (l_detail SUBAGENT_LIMITS) (a_detail a) \<and> short (l_output SUBAGENT_LIMITS) (a_output a)"

definition storable :: "SubagentInfo \<Rightarrow> bool" where
  "storable i \<longleftrightarrow> s_sessionId i \<noteq> [] \<and> short (l_statusMessage SUBAGENT_LIMITS) (s_statusMessage i)
     \<and> filled (s_parentToolCallId i) \<and> short (l_prompt SUBAGENT_LIMITS) (s_prompt i)
     \<and> short (l_title SUBAGENT_LIMITS) (s_description i) \<and> filled (s_model i)
     \<and> short (l_error SUBAGENT_LIMITS) (s_error i) \<and> short (l_result SUBAGENT_LIMITS) (s_result i)
     \<and> s_usage i \<noteq> Some no_usage \<and> filled (s_currentTool i)
     \<and> (case s_activity i of None \<Rightarrow> True
          | Some xs \<Rightarrow> xs \<noteq> [] \<and> list_all storable_activity xs \<and> length xs \<le> l_activity SUBAGENT_LIMITS)
     \<and> s_activityDropped i \<noteq> Some 0 \<and> s_background i \<noteq> Some False"

section \<open>Lemmas\<close>

lemma str_of_opt: "str_of (default_to (map_option JStr s) JUndefined) = s"
  by (cases s) simp_all

lemma num_of_opt: "num_of (default_to (map_option JNum n) JUndefined) = n"
  by (cases n) simp_all

lemma str_of_member: "str_of (if s \<noteq> None then default_to (map_option JStr s) JUndefined else JUndefined) = s"
  by (cases s) simp_all

lemma num_of_member: "num_of (if n \<noteq> None then default_to (map_option JNum n) JUndefined else JUndefined) = n"
  by (cases n) simp_all

lemma truthy_of_filled: "filled s \<Longrightarrow> truthy_of s = s"
  by (cases s) (simp_all add: filled_def truthy_of_def)

lemma clamp_short: "short m s \<Longrightarrow> clampSubagentText s m = s"
  by (simp add: short_def clampSubagentText_def split: option.splits)

lemma short_filled: "short m s \<Longrightarrow> filled s"
  by (auto simp: short_def filled_def)

lemma truthy_of_Some: "x \<noteq> [] \<Longrightarrow> truthy_of (Some x) = Some x"
  by (simp add: truthy_of_def)

lemma clamp_truthy: "short m s \<Longrightarrow> clampSubagentText (truthy_of s) m = s"
  by (simp add: clamp_short short_filled truthy_of_filled)

lemma truthy_clamp: "short m s \<Longrightarrow> truthy_of (clampSubagentText s m) = s"
  by (simp add: clamp_short short_filled truthy_of_filled)

lemma parse_enc_status: "parse_status (enc_status st) = Some st"
  by (cases st) (simp_all add: parse_status_def enc_status_def)

lemma parse_enc_outcome:
  "parse_outcome (default_to (map_option enc_outcome oc) JUndefined) = oc"
proof (cases oc)
  case (Some x)
  then show ?thesis by (cases x) (simp_all add: parse_outcome_def enc_outcome_def)
qed (simp add: parse_outcome_def)

lemma parse_enc_source:
  "parse_source (default_to (map_option enc_source sr) JUndefined) = sr"
proof (cases sr)
  case (Some x)
  then show ?thesis by (cases x) (simp_all add: parse_source_def enc_source_def)
qed (simp add: parse_source_def)

lemma js_prop_member:
  "js_prop (JObj kvs) k = JUndefined \<Longrightarrow> js_prop (JObj (opt_member k v @ kvs)) k = default_to v JUndefined"
  by (cases v) simp_all

lemma js_prop_skip:
  "k \<noteq> k' \<Longrightarrow> js_prop (JObj (opt_member k' v @ kvs)) k = js_prop (JObj kvs) k"
  by (cases v) simp_all

lemma js_prop_only:
  "js_prop (JObj (opt_member k' v)) k = (if k = k' then default_to v JUndefined else JUndefined)"
  by (cases v) simp_all

lemmas read_back = js_prop_member js_prop_skip js_prop_only str_of_opt num_of_opt truthy_of_filled clamp_short
  clamp_truthy truthy_clamp truthy_of_Some

lemma parse_enc_usage: "u \<noteq> no_usage \<Longrightarrow> parseUsage (enc_usage u) = Some u"
  by (cases u) (simp add: parseUsage_def enc_usage_def read_back Let_def)

lemma parse_enc_activity:
  assumes "storable_activity a"
  shows "parseActivityItem (enc_activity a) = Some a"
proof -
  have "clampSubagentText (Some (a_title a)) (l_title SUBAGENT_LIMITS) = Some (a_title a)"
    using assms by (simp add: clampSubagentText_def storable_activity_def)
  moreover have "(if JStr (case a_kind a of ActTool \<Rightarrow> js ''tool'' | ActMessage \<Rightarrow> js ''message'')
      = JStr (js ''message'') then ActMessage else ActTool) = a_kind a"
    by (cases "a_kind a") simp_all
  ultimately show ?thesis using assms
    by (simp add: parseActivityItem_def enc_activity_def storable_activity_def read_back)
qed

lemma map_filter_back: "(\<And>x. x \<in> set xs \<Longrightarrow> f (g x) = Some x) \<Longrightarrow> List.map_filter f (map g xs) = xs"
  by (induction xs) (simp_all add: List.map_filter_simps)

lemma parse_enc_activities:
  assumes "xs \<noteq> []" and "list_all storable_activity xs" and "length xs \<le> l_activity SUBAGENT_LIMITS"
  shows "parseActivity (JArr (map enc_activity xs)) = Some xs"
proof -
  have "List.map_filter parseActivityItem (map enc_activity xs) = xs"
    by (rule map_filter_back) (use assms in \<open>auto simp: list_all_iff parse_enc_activity\<close>)
  with assms show ?thesis by (simp add: parseActivity_def last_n_def)
qed

lemma parse_opt_usage:
  "u \<noteq> Some no_usage \<Longrightarrow> parseUsage (default_to (map_option enc_usage u) JUndefined) = u"
  by (cases u) (simp_all add: parse_enc_usage, simp add: parseUsage_def)

lemma parse_opt_activities:
  "(case a of None \<Rightarrow> True | Some xs \<Rightarrow> xs \<noteq> [] \<and> list_all storable_activity xs
      \<and> length xs \<le> l_activity SUBAGENT_LIMITS) \<Longrightarrow>
   parseActivity (default_to (map_option (\<lambda>xs. JArr (map enc_activity xs)) a) JUndefined) = a"
  by (cases a) (simp_all add: parse_enc_activities, simp add: parseActivity_def)

lemma parse_dependsOn: "parse_string_list (JArr (map JStr ds)) = Some ds"
  by (simp add: parse_string_list_def map_filter_back)

lemma clamped_opt: "short m s \<Longrightarrow> clamped (default_to (map_option JStr s) JUndefined) m = s"
  by (simp add: clamped_def str_of_opt clamp_short short_filled truthy_of_filled)

lemma parse_opt_background:
  "b \<noteq> Some False \<Longrightarrow>
   (if default_to (map_option JBool b) JUndefined = JBool True then Some True else None) = b"
  by (cases b) auto

lemma parse_enc_info:
  assumes "storable i"
  shows "parseSubagentInfo (enc_info i) = Some i"
  using assms
  by (cases i; cases "s_activityDropped i") (simp_all add: parseSubagentInfo_def parseSubagentPatch_def enc_info_def spread_patch_def storable_def
      read_back parse_enc_status parse_enc_outcome parse_enc_source
      parse_opt_usage parse_opt_activities parse_dependsOn clamped_opt
      parse_opt_background)

lemma clamp_length: "clampSubagentText s m = Some x \<Longrightarrow> 0 < m \<Longrightarrow> length x \<le> m"
  by (auto simp: clampSubagentText_def split: option.splits if_splits)

definition within :: "nat \<Rightarrow> jstr option \<Rightarrow> bool" where
  "within m s \<longleftrightarrow> length (default_to s []) \<le> m"

lemma within_clamp: "0 < m \<Longrightarrow> within m (clampSubagentText s m)"
  by (cases "clampSubagentText s m") (auto simp: within_def dest: clamp_length)

lemma within_clamped: "0 < m \<Longrightarrow> within m (clamped v m)"
  using within_clamp [of m "str_of v"] by (simp add: clamped_def truthy_of_def within_def)

lemma length_parseActivity: "length (default_to (parseActivity v) []) \<le> 60"
  by (cases v) (auto simp: parseActivity_def last_n_def SUBAGENT_LIMITS_def Let_def)

lemma parseSubagentEnd_id:
  "parseSubagentEnd v = Some e \<Longrightarrow> e_sessionId e \<noteq> [] \<and> length (e_sessionId e) \<le> 200"
  by (auto simp: parseSubagentEnd_def SUBAGENT_END_LIMITS_def truthy_of_def
      split: if_splits option.splits)

lemma parseList_mem: "x \<in> set (parseList JSON_parse v f) \<Longrightarrow> \<exists>w. f w = Some x"
  by (fastforce simp: parseList_def Let_def List.map_filter_def split: option.splits jsval.splits if_splits)

section \<open>Properties\<close>

text \<open>C37: a roster that was stored, as an array or as its JSON text, is read back unchanged.\<close>

theorem parseSubagentRoster_roundtrip:
  assumes "list_all storable r" and "JSON_parse t = Some (JArr (map enc_info r))" and "js_trim t \<noteq> []"
  shows "parseSubagentRoster JSON_parse (JArr (map enc_info r)) = r \<and>
    parseSubagentRoster JSON_parse (JStr t) = r"
proof -
  have "List.map_filter parseSubagentInfo (map enc_info r) = r"
    by (rule map_filter_back) (use assms(1) in \<open>auto simp: list_all_iff parse_enc_info\<close>)
  with assms(2,3) show ?thesis by (simp add: parseSubagentRoster_def parseList_def)
qed

theorem parseSubagentRoster_roundtrip_witness:
  "parseSubagentRoster (\<lambda>t. Some (JArr (map enc_info [sample_entry]))) (JStr (js ''[x]'')) = [sample_entry]"
proof -
  have "list_all storable [sample_entry]"
    by (simp add: storable_def short_def filled_def sample_defs)
  moreover have "js_trim (js ''[x]'') \<noteq> []" by (simp add: js_trim_def js_def is_ws_def)
  ultimately show ?thesis
    using parseSubagentRoster_roundtrip [of "[sample_entry]" "\<lambda>t. Some (JArr (map enc_info [sample_entry]))"]
    by simp
qed

text \<open>Every patch that passes validation has a session id, texts within their limits and at most
  60 activity entries.\<close>

theorem parseSubagentPatch_bounds:
  assumes "parseSubagentPatch v = Some n"
  shows "p_sessionId n \<noteq> [] \<and> within 400 (p_statusMessage n) \<and> within 8000 (p_prompt n) \<and>
    within 400 (p_description n) \<and> within 2000 (p_error n) \<and> within 8000 (p_result n) \<and>
    length (default_to (p_activity n) []) \<le> 60"
proof -
  obtain sid where v: "is_record v" "truthy_of (str_of (field v ''sessionId'')) = Some sid"
    using assms by (auto simp: parseSubagentPatch_def split: if_split_asm option.split_asm)
  then have "sid \<noteq> []" by (auto simp: truthy_of_def split: if_splits)
  moreover have "n = the (parseSubagentPatch v)" by (simp add: assms)
  ultimately show ?thesis using v length_parseActivity
    by (simp add: parseSubagentPatch_def within_clamped SUBAGENT_LIMITS_def)
qed

theorem parseSubagentPatch_bounds_witness:
  "p_sessionId (the (parseSubagentPatch (JObj [(js ''sessionId'', JStr (js ''a''))]))) \<noteq> []"
proof -
  have "parseSubagentPatch (JObj [(js ''sessionId'', JStr (js ''a''))]) \<noteq> None"
    by (simp add: parseSubagentPatch_def truthy_of_def)
  then show ?thesis using parseSubagentPatch_bounds by fastforce
qed

text \<open>A list of ends read from an untrusted value holds at most 100 ends, each with an id of 1 to
  200 code units.\<close>

theorem parseSubagentEnds_bounds:
  "length (parseSubagentEnds JSON_parse v) \<le> 100 \<and>
   list_all (\<lambda>e. e_sessionId e \<noteq> [] \<and> length (e_sessionId e) \<le> 200) (parseSubagentEnds JSON_parse v)"
proof -
  have "e_sessionId e \<noteq> [] \<and> length (e_sessionId e) \<le> 200"
    if "e \<in> set (parseSubagentEnds JSON_parse v)" for e
  proof -
    from that obtain w where "parseSubagentEnd w = Some e"
      unfolding parseSubagentEnds_def by (blast dest: in_set_takeD parseList_mem)
    then show ?thesis by (rule parseSubagentEnd_id)
  qed
  then show ?thesis by (simp add: parseSubagentEnds_def SUBAGENT_END_LIMITS_def list_all_iff)
qed

end
