(* ===== verification/Js_Regex.thy ===== *)
theory Js_Regex
  imports Michi_Prelude
begin

text \<open>
  The part of JavaScript's regular expressions that the sources use, with the backtracking
  semantics of the language: alternatives in order, greedy and lazy repetition, lookahead of both kinds, capture
  groups. A match is the list of all ways to match at a position, most preferred first; the engine
  takes the first. A state is a position and the captures made so far, latest first. No pattern of
  the sources has a capture group inside a repetition, so captures are never reset.
\<close>

type_synonym mstate = "nat \<times> (nat \<times> nat \<times> nat) list"

datatype regex =
    REmpty
  | RSet "nat \<Rightarrow> bool"
  | RSeq regex regex
  | RAlt regex regex
  | RRep nat "nat option" bool regex  \<comment> \<open>least count, greatest count, greedy\<close>
  | RGroup nat regex
  | RLook regex
  | RNot regex  \<comment> \<open>negative lookahead\<close>
  | RBegin bool  \<comment> \<open>\<open>^\<close>, with the m flag\<close>
  | REnd bool

text \<open>A line terminator; the dot matches every other unit.\<close>

definition is_lt :: "nat \<Rightarrow> bool" where
  "is_lt c \<longleftrightarrow> c = 10 \<or> c = 13 \<or> c = 8232 \<or> c = 8233"

text \<open>
  One repetition: an iteration beyond the least count must consume something, so the distance to
  the end of the input decreases; up to the least count, the count decreases.
\<close>

function rep :: "nat \<Rightarrow> (mstate \<Rightarrow> mstate list) \<Rightarrow> nat \<Rightarrow> nat option \<Rightarrow> bool \<Rightarrow> mstate \<Rightarrow> mstate list" where
  "rep n m lo hi greedy st =
     (if hi = Some 0 then [st]
      else let more = concat (map (\<lambda>st'.
                 if lo = 0 \<and> \<not> (fst st < fst st' \<and> fst st' \<le> n) then []
                 else rep n m (lo - 1) (map_option (\<lambda>k. k - 1) hi) greedy st') (m st))
           in if 0 < lo then more else if greedy then more @ [st] else st # more)"
  by pat_completeness auto
termination
  by (relation "measures [\<lambda>(n, m, lo, hi, greedy, st). lo, \<lambda>(n, m, lo, hi, greedy, st). n - fst st]") auto

declare rep.simps [simp del]

fun rmatch :: "jstr \<Rightarrow> regex \<Rightarrow> mstate \<Rightarrow> mstate list" where
  "rmatch s REmpty st = [st]"
| "rmatch s (RSet P) (i, c) = (if i < length s \<and> P (s ! i) then [(Suc i, c)] else [])"
| "rmatch s (RSeq a b) st = concat (map (rmatch s b) (rmatch s a st))"
| "rmatch s (RAlt a b) st = rmatch s a st @ rmatch s b st"
| "rmatch s (RRep lo hi greedy r) st = rep (length s) (rmatch s r) lo hi greedy st"
| "rmatch s (RGroup k r) (i, c) = map (\<lambda>(j, c'). (j, (k, i, j) # c')) (rmatch s r (i, c))"
| "rmatch s (RLook r) (i, c) = (case rmatch s r (i, c) of [] \<Rightarrow> [] | (_, c') # _ \<Rightarrow> [(i, c')])"
| "rmatch s (RNot r) (i, c) = (if rmatch s r (i, c) = [] then [(i, c)] else [])"
| "rmatch s (RBegin multi) (i, c) =
     (if i = 0 \<or> multi \<and> i \<le> length s \<and> is_lt (s ! (i - 1)) then [(i, c)] else [])"
| "rmatch s (REnd multi) (i, c) =
     (if i = length s \<or> multi \<and> i < length s \<and> is_lt (s ! i) then [(i, c)] else [])"

text \<open>A successful match: start, end and captures.\<close>

record rresult =
  m_start :: nat
  m_end :: nat
  m_caps :: "(nat \<times> nat \<times> nat) list"

function exec_from :: "regex \<Rightarrow> jstr \<Rightarrow> nat \<Rightarrow> rresult option" where
  "exec_from r s i =
     (if length s < i then None
      else case rmatch s r (i, []) of
             (j, c) # _ \<Rightarrow> Some \<lparr>m_start = i, m_end = j, m_caps = c\<rparr>
           | [] \<Rightarrow> exec_from r s (Suc i))"
  by pat_completeness auto
termination
  by (relation "measure (\<lambda>(r, s, i). Suc (length s) - i)") auto

declare exec_from.simps [simp del]

definition js_match :: "regex \<Rightarrow> jstr \<Rightarrow> rresult option" where
  "js_match r s = exec_from r s 0"

definition js_test :: "regex \<Rightarrow> jstr \<Rightarrow> bool" where
  "js_test r s \<longleftrightarrow> js_match r s \<noteq> None"

text \<open>\<open>matchAll\<close>: an empty match moves the next start on by one.\<close>

definition next_index :: "rresult \<Rightarrow> nat" where
  "next_index m = (if m_end m \<le> m_start m then Suc (m_start m) else m_end m)"

fun match_all_fuel :: "nat \<Rightarrow> regex \<Rightarrow> jstr \<Rightarrow> nat \<Rightarrow> rresult list" where
  "match_all_fuel 0 r s i = []"
| "match_all_fuel (Suc f) r s i =
     (case exec_from r s i of None \<Rightarrow> [] | Some m \<Rightarrow> m # match_all_fuel f r s (next_index m))"

text \<open>Every round moves the start forward by at least one, so there are at most \<open>length s + 1\<close> matches.\<close>

definition match_all :: "regex \<Rightarrow> jstr \<Rightarrow> rresult list" where
  "match_all r s = match_all_fuel (length s + 2) r s 0"

definition capture :: "jstr \<Rightarrow> rresult \<Rightarrow> nat \<Rightarrow> jstr" where
  \<comment> \<open>The text of a group that took part in the match.\<close>
  "capture s m k = (case map_of (m_caps m) k of None \<Rightarrow> [] | Some (a, b) \<Rightarrow> js_slice s a b)"

text \<open>\<open>replace\<close> without and with the g flag, with a literal replacement.\<close>

definition replace_first :: "regex \<Rightarrow> jstr \<Rightarrow> jstr \<Rightarrow> jstr" where
  "replace_first r w s = (case js_match r s of None \<Rightarrow> s
     | Some m \<Rightarrow> take (m_start m) s @ w @ drop (m_end m) s)"

fun splice_matches :: "jstr \<Rightarrow> jstr \<Rightarrow> nat \<Rightarrow> rresult list \<Rightarrow> jstr" where
  "splice_matches w s i [] = drop i s"
| "splice_matches w s i (m # ms) = js_slice s i (m_start m) @ w @ splice_matches w s (m_end m) ms"

definition replace_all :: "regex \<Rightarrow> jstr \<Rightarrow> jstr \<Rightarrow> jstr" where
  "replace_all r w s = splice_matches w s 0 (match_all r s)"

section \<open>Building patterns\<close>

definition rseq :: "regex list \<Rightarrow> regex" where
  "rseq rs = foldr RSeq rs REmpty"

definition ralts :: "regex list \<Rightarrow> regex" where
  "ralts rs = foldr RAlt (butlast rs) (last rs)"

definition runit :: "nat \<Rightarrow> regex" where
  "runit k = RSet (\<lambda>c. c = k)"

definition rlit :: "string \<Rightarrow> regex" where
  "rlit w = rseq (map runit (js w))"

text \<open>
  A literal under the i flag. Canonicalisation maps no unit above 127 to an ASCII unit, so an ASCII
  letter of a pattern matches its two ASCII cases only.
\<close>

definition same_letter :: "nat \<Rightarrow> nat \<Rightarrow> bool" where
  "same_letter k c \<longleftrightarrow> c = k \<or> 97 \<le> c \<and> c \<le> 122 \<and> k = c - 32 \<or> 65 \<le> c \<and> c \<le> 90 \<and> k = c + 32"

definition rlit_i :: "string \<Rightarrow> regex" where
  "rlit_i w = rseq (map (\<lambda>k. RSet (same_letter k)) (js w))"

definition rany_of :: "string \<Rightarrow> regex" where
  "rany_of w = RSet (\<lambda>c. c \<in> set (js w))"

definition rws :: regex where
  "rws = RSet is_ws"

abbreviation rstar :: "regex \<Rightarrow> regex" where "rstar r \<equiv> RRep 0 None True r"
abbreviation rplus :: "regex \<Rightarrow> regex" where "rplus r \<equiv> RRep 1 None True r"
abbreviation ropt :: "regex \<Rightarrow> regex" where "ropt r \<equiv> RRep 0 (Some 1) True r"

section \<open>Lemmas\<close>

text \<open>Matching never moves backwards and never leaves the input.\<close>

lemma rep_bounds:
  assumes "\<And>st st'. st' \<in> set (m st) \<Longrightarrow> fst st \<le> n \<Longrightarrow> fst st \<le> fst st' \<and> fst st' \<le> n"
  shows "st' \<in> set (rep n m lo hi g st) \<Longrightarrow> fst st \<le> n \<Longrightarrow> fst st \<le> fst st' \<and> fst st' \<le> n"
  using assms
proof (induction n m lo hi g st arbitrary: st' rule: rep.induct)
  case (1 n m lo hi g st)
  show ?case
  proof (cases "hi = Some 0")
    case True
    with "1.prems" show ?thesis by (simp add: rep.simps [of n m lo "Some 0" g st])
  next
    case False
    have "st' = st \<or> (\<exists>u \<in> set (m st). \<not> (lo = 0 \<and> \<not> (fst st < fst u \<and> fst u \<le> n)) \<and>
        st' \<in> set (rep n m (lo - 1) (map_option (\<lambda>k. k - 1) hi) g u))"
      using "1.prems"(1) False
      by (auto simp: rep.simps [of n m lo hi g st] Let_def split: if_splits)
    then show ?thesis
    proof
      assume "st' = st"
      then show ?thesis using "1.prems"(2) by simp
    next
      assume "\<exists>u \<in> set (m st). \<not> (lo = 0 \<and> \<not> (fst st < fst u \<and> fst u \<le> n)) \<and>
        st' \<in> set (rep n m (lo - 1) (map_option (\<lambda>k. k - 1) hi) g u)"
      then obtain u where u: "u \<in> set (m st)" "\<not> (lo = 0 \<and> \<not> (fst st < fst u \<and> fst u \<le> n))"
        "st' \<in> set (rep n m (lo - 1) (map_option (\<lambda>k. k - 1) hi) g u)" by blast
      have bu: "fst st \<le> fst u \<and> fst u \<le> n" using "1.prems"(3) [OF u(1) "1.prems"(2)] .
      have "fst u \<le> fst st' \<and> fst st' \<le> n"
        using "1.IH" [OF False u(1,2,3)] bu "1.prems"(3) by blast
      with bu show ?thesis by simp
    qed
  qed
qed

lemma rmatch_bounds:
  "st' \<in> set (rmatch s r st) \<Longrightarrow> fst st \<le> length s \<Longrightarrow> fst st \<le> fst st' \<and> fst st' \<le> length s"
proof (induction r arbitrary: st st')
  case (RSeq a b)
  then obtain u where u: "u \<in> set (rmatch s a st)" "st' \<in> set (rmatch s b u)" by auto
  from RSeq.IH(1) [OF u(1) RSeq.prems(2)] RSeq.IH(2) [OF u(2)] show ?case by auto
next
  case (RAlt a b)
  from RAlt.prems(1) have "st' \<in> set (rmatch s a st) \<or> st' \<in> set (rmatch s b st)" by auto
  with RAlt.IH RAlt.prems(2) show ?case by blast
next
  case (RRep lo hi g r)
  from RRep.prems(1) have "st' \<in> set (rep (length s) (rmatch s r) lo hi g st)" by simp
  then show ?case by (rule rep_bounds [rotated]) (use RRep.IH RRep.prems(2) in blast)+
next
  case (RGroup k r)
  obtain i c where st: "st = (i, c)" by (cases st)
  with RGroup.prems obtain u where "u \<in> set (rmatch s r (i, c))" "fst st' = fst u" by auto
  with RGroup.IH [of u "(i, c)"] RGroup.prems(2) st show ?case by simp
next
  case (RLook r)
  then show ?case by (cases st) (auto split: list.splits)
qed (cases st; auto split: if_splits)+

lemma exec_from_bounds:
  "exec_from r s i = Some m \<Longrightarrow> i \<le> m_start m \<and> m_start m \<le> m_end m \<and> m_end m \<le> length s"
proof (induction r s i rule: exec_from.induct)
  case (1 r s i)
  show ?case
  proof (cases "length s < i")
    case True
    with "1.prems" show ?thesis by (simp add: exec_from.simps [of r s i])
  next
    case False
    show ?thesis
    proof (cases "rmatch s r (i, [])")
      case Nil
      with False "1.IH" [OF False Nil] "1.prems" show ?thesis by (simp add: exec_from.simps [of r s i])
    next
      case (Cons u us)
      then have "fst (i, [] :: (nat \<times> nat \<times> nat) list) \<le> fst u \<and> fst u \<le> length s"
        using False by (intro rmatch_bounds [of u s r]) auto
      with Cons False "1.prems" show ?thesis
        by (cases u) (auto simp: exec_from.simps [of r s i])
    qed
  qed
qed

lemma next_index_less: "exec_from r s i = Some m \<Longrightarrow> i < next_index m"
  by (auto simp: next_index_def dest: exec_from_bounds)

text \<open>The fuel of \<open>match_all\<close> is enough: any larger amount gives the same matches.\<close>

lemma match_all_fuel_more:
  "length s + 2 - i \<le> f \<Longrightarrow> match_all_fuel f r s i = match_all_fuel (f + k) r s i"
proof (induction f arbitrary: i)
  case 0
  then have "exec_from r s i = None" by (simp add: exec_from.simps [of r s i])
  then show ?case by (cases k) simp_all
next
  case (Suc f)
  show ?case
  proof (cases "exec_from r s i")
    case None
    then show ?thesis by simp
  next
    case (Some m)
    then have "length s + 2 - next_index m \<le> f" using Suc.prems next_index_less [OF Some] by linarith
    with Some Suc.IH [of "next_index m"] show ?thesis by simp
  qed
qed

lemma length_js_slice: "length (js_slice s a b) \<le> length s"
  by (simp add: js_slice_def)

end
