(* ===== verification/Kiro_Steering.thy ===== *)
theory Kiro_Steering
  imports Js_Regex Js_Value
begin

text \<open>
  The incremental scanner of \<^verbatim>\<open>shared/src/kiroSteering.ts\<close> that takes steering reports out of an
  assistant's answer, the reading of stored reports and their merge. The parser's fields are a
  record; \<open>push\<close> is a fold of one step per character, where a character is a code point of the
  string (\<open>for ... of\<close> keeps surrogate pairs together). The theorems say that the way the text is
  cut into chunks does not matter, that text without a report passes unchanged, that what the
  scanner holds back is bounded, and that a complete report is never replaced by an incomplete one.
\<close>

section \<open>Data\<close>

record SteeringReport =
  sr_messageId :: jstr
  sr_text :: jstr
  sr_complete :: bool

datatype SteeringSegment = SegText jstr | SegReport SteeringReport

definition STEERING_PREFIX :: jstr where
  "STEERING_PREFIX = js ''[STEERING steer-''"

definition hex_unit :: "nat \<Rightarrow> bool" where
  "hex_unit c \<longleftrightarrow> 48 \<le> c \<and> c \<le> 57 \<or> 97 \<le> c \<and> c \<le> 102 \<or> 65 \<le> c \<and> c \<le> 70"

definition NATIVE_ID :: regex where
  "NATIVE_ID = rseq [RBegin False, rlit_i ''steer-'',
     RAlt (RRep 32 (Some 32) True (RSet hex_unit))
       (rseq [RRep 8 (Some 8) True (RSet hex_unit),
              RRep 3 (Some 3) True (rseq [runit 45, RRep 4 (Some 4) True (RSet hex_unit)]),
              runit 45, RRep 12 (Some 12) True (RSet hex_unit)]),
     REnd False]"

definition MAX_STEERING_REPORT_LENGTH :: nat where
  "MAX_STEERING_REPORT_LENGTH = 8192"

datatype LinePhase = PhIndent | PhFence | PhText

record KiroSteeringParser =
  k_header :: jstr
  k_messageId :: jstr
  k_body :: "jstr list"
  k_depth :: int
  k_escaped :: bool
  k_newline :: bool
  k_indent :: nat
  k_linePhase :: LinePhase
  k_fenceChar :: jstr
  k_fenceCount :: nat
  k_fenceTailWhitespace :: bool
  k_fence :: "(jstr \<times> nat) option"

definition new_parser :: KiroSteeringParser where
  "new_parser = \<lparr>k_header = [], k_messageId = [], k_body = [], k_depth = 0, k_escaped = False,
     k_newline = False, k_indent = 0, k_linePhase = PhIndent, k_fenceChar = [], k_fenceCount = 0,
     k_fenceTailWhitespace = True, k_fence = None\<rparr>"

text \<open>The code points of a string, as \<open>for (const ch of chunk)\<close> visits them.\<close>

fun code_points :: "jstr \<Rightarrow> jstr list" where
  "code_points [] = []"
| "code_points [c] = [[c]]"
| "code_points (c # d # cs) =
     (if 55296 \<le> c \<and> c \<le> 56319 \<and> 56320 \<le> d \<and> d \<le> 57343 then [c, d] # code_points cs
      else [c] # code_points (d # cs))"

definition any_ws :: "jstr \<Rightarrow> bool" where
  "any_ws ch \<longleftrightarrow> list_ex is_ws ch"

section \<open>The scanner\<close>

definition advanceMarkdown :: "KiroSteeringParser \<Rightarrow> jstr \<Rightarrow> KiroSteeringParser" where
  "advanceMarkdown p ch =
     (if ch = [10] then
        (let fence' = (if 3 \<le> k_fenceCount p
               then (case k_fence p of
                       None \<Rightarrow> Some (k_fenceChar p, k_fenceCount p)
                     | Some (c, n) \<Rightarrow> if c = k_fenceChar p \<and> n \<le> k_fenceCount p \<and> k_fenceTailWhitespace p
                                     then None else Some (c, n))
               else k_fence p)
         in p\<lparr>k_fence := fence', k_indent := 0, k_linePhase := PhIndent, k_fenceChar := [],
              k_fenceCount := 0, k_fenceTailWhitespace := True\<rparr>)
      else if k_linePhase p = PhIndent then
        (if ch = [32] \<and> k_indent p < 3 then p\<lparr>k_indent := k_indent p + 1\<rparr>
         else if ch = [96] \<or> ch = [126]
         then p\<lparr>k_linePhase := PhFence, k_fenceChar := ch, k_fenceCount := 1\<rparr>
         else p\<lparr>k_linePhase := PhText\<rparr>)
      else if k_linePhase p = PhFence \<and> ch = k_fenceChar p
      then p\<lparr>k_fenceCount := k_fenceCount p + 1\<rparr>
      else p\<lparr>k_linePhase := PhText,
             k_fenceTailWhitespace := (k_fenceTailWhitespace p \<and> any_ws ch)\<rparr>)"

definition report_of :: "KiroSteeringParser \<Rightarrow> bool \<Rightarrow> SteeringReport" where
  "report_of p complete = \<lparr>sr_messageId = k_messageId p, sr_text = js_trim (concat (k_body p)),
     sr_complete = complete\<rparr>"

definition clear_report :: "KiroSteeringParser \<Rightarrow> KiroSteeringParser" where
  "clear_report p = p\<lparr>k_messageId := [], k_body := [], k_depth := 0, k_escaped := False, k_newline := False\<rparr>"

type_synonym scan_state = "KiroSteeringParser \<times> SteeringSegment list \<times> jstr list"

definition flush_visible :: "jstr list \<Rightarrow> SteeringSegment list" where
  "flush_visible vis = (if vis \<noteq> [] then [SegText (concat vis)] else [])"

definition emitReport :: "bool \<Rightarrow> scan_state \<Rightarrow> scan_state" where
  "emitReport complete st = (case st of (p, res, vis) \<Rightarrow>
     (clear_report p, res @ flush_visible vis @ [SegReport (report_of p complete)], []))"

definition push_body :: "KiroSteeringParser \<Rightarrow> jstr \<Rightarrow> KiroSteeringParser" where
  "push_body p ch = p\<lparr>
     k_depth := k_depth p + (if \<not> k_escaped p \<and> ch = [91] then 1 else 0)
                          - (if \<not> k_escaped p \<and> ch = [93] then 1 else 0),
     k_body := k_body p @ [ch],
     k_escaped := (ch = [92] \<and> \<not> k_escaped p),
     k_newline := (if ch = [10] then True else if \<not> any_ws ch then False else k_newline p)\<rparr>"

definition scan_body :: "scan_state \<Rightarrow> jstr \<Rightarrow> scan_state" where
  "scan_body st ch = (case st of (p, res, vis) \<Rightarrow>
     if MAX_STEERING_REPORT_LENGTH \<le> length (k_body p) \<or> ch = [10] \<and> k_newline p
     then (case emitReport False st of (p', res', vis') \<Rightarrow> (advanceMarkdown p' ch, res', vis' @ [ch]))
     else (case (if ch = [93] \<and> \<not> k_escaped p \<and> k_depth p = 0 then emitReport True st
                 else (push_body p ch, res, vis)) of
             (p', res', vis') \<Rightarrow>
               ((if ch = [10] then advanceMarkdown p' ch else p'\<lparr>k_linePhase := PhText\<rparr>), res', vis')))"

text \<open>The header branch: the new header or message id, and the text it gives back, if any.\<close>

definition header_step :: "KiroSteeringParser \<Rightarrow> jstr \<Rightarrow> KiroSteeringParser \<times> jstr list" where
  "header_step p ch =
     (let header = k_header p @ ch;
          candidate = js_slice header 10 (length header - 1)
      in if length header \<le> length STEERING_PREFIX then
           (if \<not> starts_with STEERING_PREFIX header
            then (p\<lparr>k_header := []\<rparr>, [header]) else (p\<lparr>k_header := header\<rparr>, []))
         else if ch = [58] \<and> js_test NATIVE_ID candidate
         then (p\<lparr>k_header := [], k_messageId := candidate\<rparr>, [])
         else if \<not> list_ex (\<lambda>c. hex_unit c \<or> c = 45) ch \<or> 52 < length header
         then (p\<lparr>k_header := []\<rparr>, [header])
         else (p\<lparr>k_header := header\<rparr>, []))"

definition scan_header :: "scan_state \<Rightarrow> jstr \<Rightarrow> scan_state" where
  "scan_header st ch = (case st of (p, res, vis) \<Rightarrow>
     case header_step p ch of (p', out) \<Rightarrow> (advanceMarkdown p' ch, res, vis @ out))"

definition scan_char :: "scan_state \<Rightarrow> jstr \<Rightarrow> scan_state" where
  "scan_char st ch = (case st of (p, res, vis) \<Rightarrow>
     if k_messageId p \<noteq> [] then scan_body st ch
     else if k_header p \<noteq> [] then scan_header st ch
     else if ch = [91] \<and> k_linePhase p = PhIndent \<and> k_fence p = None
     then (advanceMarkdown (p\<lparr>k_header := ch\<rparr>) ch, res, vis)
     else (advanceMarkdown p ch, res, vis @ [ch]))"

text \<open>The body of \<open>push\<close> on a list of characters, and \<open>push\<close> itself.\<close>

definition push_chars :: "KiroSteeringParser \<Rightarrow> jstr list \<Rightarrow> KiroSteeringParser \<times> SteeringSegment list" where
  "push_chars p chs = (case foldl scan_char (p, [], []) chs of
     (p', res, vis) \<Rightarrow> (p', res @ flush_visible vis))"

definition push :: "KiroSteeringParser \<Rightarrow> jstr \<Rightarrow> KiroSteeringParser \<times> SteeringSegment list" where
  "push p chunk = push_chars p (code_points chunk)"

definition finish :: "KiroSteeringParser \<Rightarrow> SteeringSegment list" where
  "finish p = (if k_messageId p \<noteq> [] then [SegReport (report_of p False)]
     else if k_header p \<noteq> [] then [SegText (k_header p)] else [])"

fun seg_text :: "SteeringSegment \<Rightarrow> jstr" where
  "seg_text (SegText t) = t"
| "seg_text (SegReport r) = []"

fun seg_reports :: "SteeringSegment \<Rightarrow> SteeringReport list" where
  "seg_reports (SegText t) = []"
| "seg_reports (SegReport r) = [r]"

definition extractKiroSteering :: "jstr \<Rightarrow> jstr \<times> SteeringReport list" where
  "extractKiroSteering raw = (case push new_parser raw of (p, segs) \<Rightarrow>
     (concat (map seg_text (segs @ finish p)), concat (map seg_reports (segs @ finish p))))"

section \<open>Stored reports\<close>

definition parseSteeringReport :: "jsval \<Rightarrow> SteeringReport option" where
  "parseSteeringReport item = (if \<not> is_object item then None
     else case (js_prop item (js ''messageId''), js_prop item (js ''text'')) of
       (JStr mid, JStr text) \<Rightarrow>
         if js_test NATIVE_ID mid
         then Some \<lparr>sr_messageId = mid, sr_text = take MAX_STEERING_REPORT_LENGTH text,
                    sr_complete = (js_prop item (js ''complete'') = JBool True)\<rparr>
         else None
     | _ \<Rightarrow> None)"

definition parseSteeringReports :: "jsval \<Rightarrow> SteeringReport list" where
  "parseSteeringReports v = (case v of JArr items \<Rightarrow> List.map_filter parseSteeringReport items | _ \<Rightarrow> [])"

definition store_report :: "(jstr \<times> SteeringReport) list \<Rightarrow> SteeringReport \<Rightarrow> (jstr \<times> SteeringReport) list" where
  "store_report m r = AList.update (sr_messageId r) r m"

definition offer_report :: "(jstr \<times> SteeringReport) list \<Rightarrow> SteeringReport \<Rightarrow> (jstr \<times> SteeringReport) list" where
  "offer_report m r = (case map_of m (sr_messageId r) of
     None \<Rightarrow> store_report m r
   | Some old \<Rightarrow> if \<not> sr_complete old \<or> sr_complete r then store_report m r else m)"

definition mergeSteeringReports :: "SteeringReport list option \<Rightarrow> SteeringReport list \<Rightarrow> SteeringReport list" where
  "mergeSteeringReports previous incoming =
     map snd (foldl offer_report (foldl store_report [] (default_to previous [])) incoming)"

section \<open>Lemmas: the scanner\<close>

lemma advanceMarkdown_frame [simp]:
  "k_header (advanceMarkdown p ch) = k_header p"
  "k_messageId (advanceMarkdown p ch) = k_messageId p"
  "k_body (advanceMarkdown p ch) = k_body p"
  by (simp_all add: advanceMarkdown_def Let_def split: option.split)

lemmas scan_defs = scan_body_def scan_header_def emitReport_def push_body_def clear_report_def

lemma header_step_result:
  assumes "header_step p ch = (p', out)"
  shows "k_body p' = k_body p"
    and "k_messageId p = [] \<Longrightarrow> k_messageId p' = [] \<Longrightarrow> concat out @ k_header p' = k_header p @ ch"
    and "length (k_header p') \<le> 52"
  using assms by (auto simp: header_step_def Let_def STEERING_PREFIX_def js_def js_slice_def split: if_splits)

text \<open>What a scan has shown so far, character by character, reports in their place.\<close>

fun seg_flat :: "SteeringSegment \<Rightarrow> (nat + SteeringReport) list" where
  "seg_flat (SegText t) = map Inl t"
| "seg_flat (SegReport r) = [Inr r]"

definition flat_items :: "SteeringSegment list \<Rightarrow> (nat + SteeringReport) list" where
  "flat_items segs = concat (map seg_flat segs)"

definition shown_items :: "scan_state \<Rightarrow> (nat + SteeringReport) list" where
  "shown_items st = (case st of (p, res, vis) \<Rightarrow> flat_items (res @ flush_visible vis))"

lemma items_simps [simp]:
  "flat_items [] = []" "flat_items (a @ b) = flat_items a @ flat_items b" "flat_items (x # xs) = seg_flat x @ flat_items xs"
  by (simp_all add: flat_items_def)

lemma items_flush [simp]: "flat_items (flush_visible vis) = map Inl (concat vis)"
  by (simp add: flush_visible_def)

lemma scan_body_frame:
  "fst (scan_body (p, res, vis) ch) = fst (scan_body (p, [], []) ch)"
  "shown_items (scan_body (p, res, vis) ch) = shown_items (p, res, vis) @ shown_items (scan_body (p, [], []) ch)"
  by (simp_all add: scan_body_def emitReport_def shown_items_def)

lemma scan_char_frame:
  "fst (scan_char (p, res, vis) ch) = fst (scan_char (p, [], []) ch) \<and>
   shown_items (scan_char (p, res, vis) ch) = shown_items (p, res, vis) @ shown_items (scan_char (p, [], []) ch)"
  using scan_body_frame [of p res vis ch]
  by (cases "header_step p ch") (simp add: scan_char_def scan_header_def, simp add: shown_items_def)

lemma scan_frame:
  "fst (foldl scan_char (p, res, vis) chs) = fst (foldl scan_char (p, [], []) chs) \<and>
   shown_items (foldl scan_char (p, res, vis) chs) = shown_items (p, res, vis) @ shown_items (foldl scan_char (p, [], []) chs)"
proof (induction chs arbitrary: p res vis)
  case Nil
  then show ?case by (simp add: shown_items_def)
next
  case (Cons ch chs)
  obtain q r v where q: "scan_char (p, res, vis) ch = (q, r, v)" by (cases "scan_char (p, res, vis) ch")
  obtain q' r' v' where q': "scan_char (p, [], []) ch = (q', r', v')" by (cases "scan_char (p, [], []) ch")
  from scan_char_frame [of p res vis ch] q q' have "q' = q"
    and "shown_items (q, r, v) = shown_items (p, res, vis) @ shown_items (q, r', v')" by auto
  with Cons.IH [of q r v] Cons.IH [of q r' v'] q q' show ?case by simp
qed

lemma push_chars_shown:
  "fst (push_chars p chs) = fst (foldl scan_char (p, [], []) chs)"
  "flat_items (snd (push_chars p chs)) = shown_items (foldl scan_char (p, [], []) chs)"
  by (simp_all add: push_chars_def shown_items_def split: prod.split)

lemma code_points_append:
  "\<not> (a \<noteq> [] \<and> b \<noteq> [] \<and> 55296 \<le> last a \<and> last a \<le> 56319 \<and> 56320 \<le> hd b \<and> hd b \<le> 57343)
   \<Longrightarrow> code_points (a @ b) = code_points a @ code_points b"
proof (induction a rule: code_points.induct)
  case (2 c)
  then show ?case by (cases b) auto
next
  case (3 c d cs)
  show ?case
  proof (cases "55296 \<le> c \<and> c \<le> 56319 \<and> 56320 \<le> d \<and> d \<le> 57343")
    case True
    have "code_points (cs @ b) = code_points cs @ code_points b"
      using "3.prems" by (cases "cs = []") (auto intro!: "3.IH"(1) [OF True])
    with True show ?thesis by simp
  next
    case False
    have "code_points ((d # cs) @ b) = code_points (d # cs) @ code_points b"
      using "3.prems" by (intro "3.IH"(2) [OF False]) auto
    with False show ?thesis by auto
  qed
qed simp

lemma concat_code_points [simp]: "concat (code_points s) = s"
  by (induction s rule: code_points.induct) auto

text \<open>A scan is quiet while it has found no report and is not inside one.\<close>

definition no_report :: "scan_state \<Rightarrow> bool" where
  "no_report st = (case st of (p, res, vis) \<Rightarrow> concat (map seg_reports res) = [] \<and> k_messageId p = [])"

definition seen_units :: "scan_state \<Rightarrow> jstr" where
  "seen_units st = (case st of (p, res, vis) \<Rightarrow> concat (map seg_text res) @ concat vis @ k_header p)"

lemma scan_char_quiet:
  "no_report (scan_char st ch) \<Longrightarrow> no_report st \<and> seen_units (scan_char st ch) = seen_units st @ ch"
proof (cases st)
  case (fields p res vis)
  assume q: "no_report (scan_char st ch)"
  show ?thesis
  proof (cases "k_messageId p = []")
    case False
    with q fields have False
      by (auto simp: scan_char_def scan_defs no_report_def flush_visible_def split: if_splits)
    then show ?thesis ..
  next
    case True
    obtain p' out where h: "header_step p ch = (p', out)" by (cases "header_step p ch")
    with header_step_result(2) [OF h True] q True fields show ?thesis
      by (auto simp: scan_char_def scan_header_def no_report_def seen_units_def split: if_splits)
  qed
qed

lemma scan_quiet:
  "no_report (foldl scan_char st chs) \<Longrightarrow> no_report st \<and> seen_units (foldl scan_char st chs) = seen_units st @ concat chs"
proof (induction chs arbitrary: st)
  case Nil
  then show ?case by simp
next
  case (Cons ch chs)
  then have "no_report (scan_char st ch)"
    and "seen_units (foldl scan_char (scan_char st ch) chs) = seen_units (scan_char st ch) @ concat chs" by auto
  with scan_char_quiet [of st ch] show ?case by simp
qed

lemma scan_char_bounded:
  assumes "length (k_header (fst st)) \<le> 52 \<and> length (k_body (fst st)) \<le> MAX_STEERING_REPORT_LENGTH"
  shows "length (k_header (fst (scan_char st ch))) \<le> 52 \<and>
    length (k_body (fst (scan_char st ch))) \<le> MAX_STEERING_REPORT_LENGTH"
proof (cases st)
  case (fields p res vis)
  obtain p' out where h: "header_step p ch = (p', out)" by (cases "header_step p ch")
  have "length (k_body (fst (scan_body st ch))) \<le> MAX_STEERING_REPORT_LENGTH"
    and "length (k_header (fst (scan_body st ch))) \<le> 52"
    using assms fields by (auto simp: scan_defs)
  then show ?thesis
    using assms fields h header_step_result(1,3) [OF h] by (auto simp: scan_char_def scan_header_def)
qed

section \<open>Lemmas: merging reports\<close>

definition keyed_reports :: "(jstr \<times> SteeringReport) list \<Rightarrow> bool" where
  "keyed_reports m \<longleftrightarrow> distinct (map fst m) \<and> map sr_messageId (map snd m) = map fst m"

lemma store_report_keyed: "keyed_reports m \<Longrightarrow> keyed_reports (store_report m r)"
proof -
  have "map sr_messageId (map snd m) = map fst m \<Longrightarrow>
      map sr_messageId (map snd (store_report m r)) = map fst (store_report m r)"
    unfolding store_report_def by (induction m) auto
  then show "keyed_reports m \<Longrightarrow> keyed_reports (store_report m r)"
    by (simp add: keyed_reports_def store_report_def distinct_update)
qed

lemma offer_report_keyed: "keyed_reports m \<Longrightarrow> keyed_reports (offer_report m r)"
  by (simp add: offer_report_def store_report_keyed split: option.split)

lemma keys_store: "map fst (store_report m r) = (if sr_messageId r \<in> set (map fst m) then map fst m
   else map fst m @ [sr_messageId r])"
  by (simp add: store_report_def update_keys)

lemma keys_offer: "map fst (offer_report m r) = (if sr_messageId r \<in> set (map fst m) then map fst m
   else map fst m @ [sr_messageId r])"
  by (auto simp: offer_report_def keys_store map_of_eq_None_iff split: option.split)
     (metis fst_conv image_eqI map_of_SomeD)+

lemma keys_stores: "map fst (foldl store_report m rs) = first_seen (map fst m) (map sr_messageId rs)"
  by (induction rs arbitrary: m) (simp_all add: keys_store)

lemma keys_offers: "map fst (foldl offer_report m rs) = first_seen (map fst m) (map sr_messageId rs)"
  by (induction rs arbitrary: m) (simp_all add: keys_offer)

lemma offer_keeps_complete:
  "\<exists>r. map_of m k = Some r \<and> sr_complete r \<Longrightarrow> \<exists>r. map_of (offer_report m r') k = Some r \<and> sr_complete r"
  by (auto simp: offer_report_def store_report_def update_conv' split: option.split)


lemma stores_keyed: "keyed_reports m \<Longrightarrow> keyed_reports (foldl store_report m rs)"
  by (induction rs arbitrary: m) (simp_all add: store_report_keyed)

lemma offers_keyed: "keyed_reports m \<Longrightarrow> keyed_reports (foldl offer_report m rs)"
  by (induction rs arbitrary: m) (simp_all add: offer_report_keyed)

lemma offers_keep_complete:
  "\<exists>r. map_of m k = Some r \<and> sr_complete r \<Longrightarrow>
   \<exists>r. map_of (foldl offer_report m rs) k = Some r \<and> sr_complete r"
  by (induction rs arbitrary: m) (simp_all add: offer_keeps_complete)

lemma first_seen_distinct: "distinct (ks @ ps) \<Longrightarrow> first_seen ks ps = ks @ ps"
  by (induction ps arbitrary: ks) auto

lemma stores_distinct:
  "distinct (map fst m @ map sr_messageId rs) \<Longrightarrow>
   foldl store_report m rs = m @ map (\<lambda>r. (sr_messageId r, r)) rs"
proof (induction rs arbitrary: m)
  case Nil
  then show ?case by simp
next
  case (Cons r rs)
  then have "store_report m r = m @ [(sr_messageId r, r)]"
    by (induction m) (auto simp: store_report_def)
  with Cons show ?case by simp
qed

lemma keyed_Nil: "keyed_reports []"
  by (simp add: keyed_reports_def)

lemma merge_keyed:
  "keyed_reports (foldl offer_report (foldl store_report [] prev) inc)"
  by (intro offers_keyed stores_keyed keyed_Nil)

lemma merge_ids:
  assumes "distinct (map sr_messageId prev)"
  shows "map sr_messageId (mergeSteeringReports (Some prev) inc) =
    first_seen (map sr_messageId prev) (map sr_messageId inc)"
  using merge_keyed [of prev inc] assms
  by (simp add: mergeSteeringReports_def keyed_reports_def keys_offers keys_stores first_seen_distinct
      del: map_map)

lemma merge_complete:
  assumes "distinct (map sr_messageId prev)" and "r \<in> set prev" and "sr_complete r"
  shows "\<exists>r'. r' \<in> set (mergeSteeringReports (Some prev) inc) \<and> sr_messageId r' = sr_messageId r \<and> sr_complete r'"
proof -
  have "map_of (map (\<lambda>r. (sr_messageId r, r)) prev) (sr_messageId r) = Some r"
    using assms(1,2) by (auto intro!: map_of_is_SomeI simp: comp_def)
  with assms(3) have "\<exists>r'. map_of (foldl store_report [] prev) (sr_messageId r) = Some r' \<and> sr_complete r'"
    using stores_distinct [of "[]" prev] assms(1) by simp
  from offers_keep_complete [OF this] obtain r' where
    r': "map_of (foldl offer_report (foldl store_report [] prev) inc) (sr_messageId r) = Some r'"
    and c: "sr_complete r'" by blast
  let ?m = "foldl offer_report (foldl store_report [] prev) inc"
  from r' have in_m: "(sr_messageId r, r') \<in> set ?m" by (rule map_of_SomeD)
  have "map (sr_messageId \<circ> snd) ?m = map fst ?m"
    using merge_keyed [of prev inc] by (simp add: keyed_reports_def)
  with in_m have "sr_messageId r' = sr_messageId r" by (auto simp: map_eq_conv)
  with in_m c show ?thesis by (force simp: mergeSteeringReports_def)
qed

section \<open>Properties\<close>

interpretation scan_bounded: invariant_machine scan_char "\<lambda>_. True"
  "\<lambda>st. length (k_header (fst st)) \<le> 52 \<and> length (k_body (fst st)) \<le> MAX_STEERING_REPORT_LENGTH"
  by unfold_locales (rule scan_char_bounded)

text \<open>C17: the scanner is incremental: however an answer is cut into two chunks (not inside a
  surrogate pair), the parser ends in the same state and shows the same text and reports, in the
  same order, as on the whole answer.\<close>

theorem push_chunks:
  assumes "\<not> (a \<noteq> [] \<and> b \<noteq> [] \<and> 55296 \<le> last a \<and> last a \<le> 56319 \<and> 56320 \<le> hd b \<and> hd b \<le> 57343)"
  shows "fst (push p (a @ b)) = fst (push (fst (push p a)) b) \<and>
    flat_items (snd (push p (a @ b))) = flat_items (snd (push p a)) @ flat_items (snd (push (fst (push p a)) b))"
proof -
  obtain q r v where q: "foldl scan_char (p, [], []) (code_points a) = (q, r, v)"
    by (cases "foldl scan_char (p, [], []) (code_points a)")
  with scan_frame [of q r v "code_points b"] show ?thesis
    by (simp add: push_def code_points_append [OF assms] push_chars_shown)
qed

theorem push_chunks_witness:
  "fst (push new_parser (js ''[ST'' @ js ''OP'')) = fst (push (fst (push new_parser (js ''[ST''))) (js ''OP''))"
  using push_chunks [of "js ''[ST''" "js ''OP''" new_parser] by (simp add: js_def)

text \<open>An answer in which no report is found is shown unchanged: nothing is dropped while the
  scanner holds back a possible marker.\<close>

theorem extractKiroSteering_lossless:
  assumes "snd (extractKiroSteering raw) = []"
  shows "fst (extractKiroSteering raw) = raw"
proof -
  obtain q r v where q: "foldl scan_char (new_parser, [], []) (code_points raw) = (q, r, v)"
    by (cases "foldl scan_char (new_parser, [], []) (code_points raw)")
  with assms have "no_report (q, r, v)"
    by (auto simp: extractKiroSteering_def push_def push_chars_def finish_def no_report_def split: if_splits)
  then have "seen_units (q, r, v) = raw" and "k_messageId q = []"
    using scan_quiet [of "(new_parser, [], [])" "code_points raw"] q
    by (auto simp: seen_units_def no_report_def new_parser_def)
  with q show ?thesis
    by (auto simp: extractKiroSteering_def push_def push_chars_def finish_def seen_units_def flush_visible_def)
qed

theorem extractKiroSteering_lossless_witness:
  "fst (extractKiroSteering (js ''a [b]'')) = js ''a [b]''"
proof (rule extractKiroSteering_lossless)
  show "snd (extractKiroSteering (js ''a [b]'')) = []"
    by (simp add: extractKiroSteering_def push_def push_chars_def js_def scan_char_def
        advanceMarkdown_def new_parser_def flush_visible_def finish_def any_ws_def is_ws_def)
qed

text \<open>What the scanner holds back is bounded: at any time at most 52 units of a possible marker
  and 8192 characters of a report.\<close>

theorem push_holds_back_bounded:
  "length (k_header (fst (push new_parser raw))) \<le> 52 \<and> length (k_body (fst (push new_parser raw))) \<le> 8192"
  using scan_bounded.inv_run [of "(new_parser, [], [])" "code_points raw"]
  by (simp add: push_def push_chars_shown new_parser_def MAX_STEERING_REPORT_LENGTH_def list_all_iff)

text \<open>Merging reports keeps one report per message in first-seen order, and a complete report
  stays complete: an incomplete one never replaces it.\<close>

theorem mergeSteeringReports_keeps:
  assumes "distinct (map sr_messageId prev)"
  shows "map sr_messageId (mergeSteeringReports (Some prev) inc) =
      first_seen (map sr_messageId prev) (map sr_messageId inc) \<and>
    (\<forall>r. r \<in> set prev \<and> sr_complete r \<longrightarrow>
      (\<exists>r'. r' \<in> set (mergeSteeringReports (Some prev) inc) \<and> sr_messageId r' = sr_messageId r \<and> sr_complete r'))"
  by (simp add: merge_ids [OF assms] merge_complete [OF assms])

theorem mergeSteeringReports_keeps_witness:
  "map sr_messageId (mergeSteeringReports (Some [\<lparr>sr_messageId = js ''m'', sr_text = [], sr_complete = True\<rparr>])
     [\<lparr>sr_messageId = js ''m'', sr_text = [], sr_complete = False\<rparr>, \<lparr>sr_messageId = js ''n'', sr_text = [], sr_complete = False\<rparr>])
   = first_seen [js ''m''] [js ''m'', js ''n'']"
  using mergeSteeringReports_keeps [of "[\<lparr>sr_messageId = js ''m'', sr_text = [], sr_complete = True\<rparr>]"
     "[\<lparr>sr_messageId = js ''m'', sr_text = [], sr_complete = False\<rparr>, \<lparr>sr_messageId = js ''n'', sr_text = [], sr_complete = False\<rparr>]"]
  by simp

end
