(* ===== verification/Chat_Events.thy ===== *)
theory Chat_Events
  imports Subagent_Wire Kiro_Steering
begin

text \<open>
  The chat stream events of \<^verbatim>\<open>shared/src/chatStreamEvents.ts\<close>: the payload of every event, the
  envelope that the hub stamps on each frame, and the parser of a frame. The session state of
  \<^verbatim>\<open>shared/src/sessionState.ts\<close> and the reasoning levels of \<^verbatim>\<open>shared/src/reasoning.ts\<close> are payload data
  and are here too. \<open>JSON_parse\<close> stands for \<open>JSON.parse\<close>, with \<open>None\<close> for a thrown error.
\<close>

section \<open>Payloads\<close>

datatype PlanPriority = High | Medium | Low
datatype PlanStatus = PlanPending | PlanInProgress | PlanCompleted

record PlanEntry =
  pe_content :: jstr
  pe_priority :: PlanPriority
  pe_status :: PlanStatus

record ToolCallStreamPayload =
  tc_toolCallId :: jstr
  tc_title :: jstr
  tc_status :: jstr
  tc_kind :: "jstr option"
  tc_detail :: "jstr option"
  tc_inputJson :: "jstr option"
  tc_output :: "jstr option"

record SpawnBranchTopic =
  sb_title :: jstr
  sb_prompt :: jstr
  sb_chatId :: jstr
  sb_nodeId :: "jstr option"

record PermissionOption =
  po_optionId :: jstr
  po_name :: jstr
  po_kind :: jstr
  po_disabled :: "bool option"

record PermissionRequest =
  pr_requestId :: int
  pr_toolCallId :: "jstr option"
  pr_title :: jstr
  pr_detail :: "jstr option"
  pr_options :: "PermissionOption list"
  pr_source :: "jstr option"

record UserInputOption =
  uo_label :: jstr
  uo_description :: "jstr option"

record UserInputQuestion =
  uq_id :: "jstr option"
  uq_question :: jstr
  uq_header :: "jstr option"
  uq_options :: "UserInputOption list"
  uq_multiSelect :: bool

record UserInputRequestPayload =
  ur_requestId :: int
  ur_interactionId :: "jstr option"
  ur_questions :: "UserInputQuestion list"

record UserInputAnswer =
  ua_id :: "jstr option"
  ua_question :: jstr
  ua_answer :: jstr

datatype InputOutcome = OutcomeAnswered | OutcomeSkipped

record UserInputResolved =
  us_requestId :: int
  us_interactionId :: "jstr option"
  us_answers :: "UserInputAnswer list"
  us_outcome :: "InputOutcome option"

datatype ChargeUnit = USD | Credits
datatype Provenance = ProviderReported | SdkEstimate | CatalogEstimate | NativeMetering | UnknownProvenance

record UsageCharge =
  uc_amount :: int
  uc_unit :: ChargeUnit
  uc_provenance :: Provenance

record UsageSummary =
  us_contextUsagePercentage :: "int option"
  us_totalCredits :: "int option"
  us_charge :: "UsageCharge option"
  us_turnDurationMs :: "int option"
  us_source :: "jstr option"
  us_totalTokens :: "int option"
  us_inputTokens :: "int option"
  us_cachedInputTokens :: "int option"
  us_outputTokens :: "int option"
  us_reasoningOutputTokens :: "int option"

datatype WarningCategory = WarnProvider | WarnRuntime | WarnSetup | WarnConfiguration

record RuntimeWarning =
  rw_source :: jstr
  rw_category :: WarningCategory
  rw_message :: jstr
  rw_code :: "jstr option"
  rw_serverName :: "jstr option"

datatype RuntimeReasoning = RMinimal | RLow | RMedium | RHigh | RXhigh | RMax

record AgentCommand =
  ac_name :: jstr
  ac_description :: "jstr option"
  ac_input :: "jstr option"  \<comment> \<open>the \<open>type\<close> of the input\<close>

record SessionMode =
  sm_id :: jstr
  sm_name :: jstr
  sm_description :: "jstr option"

record SessionModel =
  sl_id :: jstr
  sl_label :: "jstr option"
  sl_description :: "jstr option"
  sl_supportsReasoning :: "bool option"
  sl_supportedReasoningLevels :: "RuntimeReasoning list option"
  sl_defaultReasoning :: "RuntimeReasoning option"

text \<open>A member that may be absent, \<open>null\<close> or a value is an option of an option.\<close>

record AgentSessionState =
  ss_runtimeId :: jstr
  ss_nativeEngine :: "jstr option"
  ss_version :: "int option"
  ss_currentModeId :: "jstr option option"
  ss_modelId :: "jstr option option"
  ss_reasoning :: "RuntimeReasoning option option"
  ss_availableModes :: "SessionMode list option"
  ss_availableModels :: "SessionModel list option"
  ss_commands :: "AgentCommand list option"
  ss_mcpErrors :: "(jstr \<times> jstr) list option"

record ArtifactPayload =
  ar_contextId :: "jstr option"
  ar_name :: jstr
  ar_filePath :: jstr
  ar_size :: "int option"

datatype FollowUpsStatus = FollowInProgress | FollowCompleted | FollowFailed
datatype CancelPhase = CancelRequested | CancelAcknowledged | CancelSettled
datatype HarnessLevel = LevelRun | LevelTurn | LevelItem
datatype HarnessPhase = PhaseStart | PhaseDelta | PhaseCompleted | PhaseFailed | PhaseCancelled

text \<open>
  \<open>userMetadata\<close> is cast, not validated: it is kept as the members of the object that arrived.
\<close>

record SteerAccepted =
  sa_text :: jstr
  sa_pending :: "bool option"
  sa_messageId :: "jstr option"
  sa_createdAt :: "int option"
  sa_userMetadata :: "(jstr \<times> jsval) list option"
  sa_queueId :: "jstr option"

record TurnStart =
  ts_turnId :: jstr
  ts_assistantId :: jstr
  ts_nodeId :: jstr
  ts_userText :: jstr
  ts_selfInitiated :: "bool option"
  ts_startedAt :: "int option"
  ts_userMetadata :: "(jstr \<times> jsval) list option"

record ImagePayload =
  im_path :: jstr
  im_caption :: "jstr option"
  im_mimeType :: jstr
  im_size :: int

record DonePayload =
  do_stopReason :: "jstr option"
  do_persisted :: "bool option"
  do_completedAt :: "int option"

record ErrorPayload =
  er_message :: jstr
  er_code :: "jstr option"
  er_recoverable :: "bool option"
  er_completedAt :: "int option"

datatype ChatStreamPayload =
    Chunk jstr | Thought jstr | Plan "PlanEntry list"
  | ToolCall ToolCallStreamPayload | ToolCallUpdate ToolCallStreamPayload
  | Heartbeat int | SpawnBranches "SpawnBranchTopic list" | Title jstr | BranchOverview jstr
  | FollowUps "jstr list" | FollowUpsStatusEvent FollowUpsStatus | Commands "AgentCommand list"
  | SessionState AgentSessionState | ArtifactSaved ArtifactPayload | ArtifactUpdated ArtifactPayload
  | PermissionRequested PermissionRequest | PermissionResolved int
  | UserInputRequest UserInputRequestPayload | UserInputResolvedEvent UserInputResolved
  | SubagentListUpdate "SubagentPatch list" | SubagentToolActivity SubagentActivityPayload
  | ContextUsage int | UsageSummaryEvent UsageSummary | McpServerError jstr jstr
  | Warning RuntimeWarning | Done DonePayload | Error ErrorPayload | TurnStarted TurnStart
  | Image ImagePayload | CancelPhaseEvent CancelPhase | QueueUpdate "jstr list" "jstr list"
  | SteerAcceptedEvent SteerAccepted | SteeringReportEvent "SteeringReport list"
  | CompactionStart "jstr option" | CompactionEnd "jstr option"
  | RetryStart "jstr option" | RetryEnd "jstr option"
  | HarnessLifecycle HarnessLevel HarnessPhase "jstr option"

text \<open>
  A frame: the payload and the members the hub stamps. The source keeps both in one object; the names
  they share (\<open>nodeId\<close>, \<open>turnId\<close>, \<open>assistantId\<close>, \<open>source\<close>) are read from the same raw member.
\<close>

record ChatStreamEvent =
  v_data :: ChatStreamPayload
  v_observedAt :: "int option"
  v_chatId :: "jstr option"
  v_nodeId :: "jstr option"
  v_turnId :: "jstr option"
  v_seq :: "int option"
  v_assistantId :: "jstr option"
  v_source :: "jstr option"
  v_confidence :: "jstr option"
  v_nativeMethod :: "jstr option"

section \<open>Readers\<close>

definition objectOrEmpty :: "jsval \<Rightarrow> jsval" where
  "objectOrEmpty v = (if is_object v then v else JObj [])"

definition stringOrEmpty :: "jsval \<Rightarrow> jstr" where
  "stringOrEmpty v = default_to (str_of v) []"

abbreviation optionalString :: "jsval \<Rightarrow> jstr option" where
  "optionalString \<equiv> str_of"

abbreviation optionalFiniteNumber :: "jsval \<Rightarrow> int option" where
  "optionalFiniteNumber \<equiv> num_of"

definition is_lit :: "jsval \<Rightarrow> string \<Rightarrow> bool" where
  "is_lit v s \<longleftrightarrow> v = JStr (js s)"

definition parseUsageCharge :: "jsval \<Rightarrow> UsageCharge option" where
  "parseUsageCharge v =
     (let raw = objectOrEmpty v;
          provenance = (let p = field raw ''provenance''
            in if is_lit p ''provider_reported'' then ProviderReported
               else if is_lit p ''sdk_estimate'' then SdkEstimate
               else if is_lit p ''catalog_estimate'' then CatalogEstimate
               else if is_lit p ''native_metering'' then NativeMetering else UnknownProvenance)
      in case optionalFiniteNumber (field raw ''amount'') of None \<Rightarrow> None
         | Some amount \<Rightarrow>
             if amount < 0 then None
             else if is_lit (field raw ''unit'') ''USD''
             then Some \<lparr>uc_amount = amount, uc_unit = USD, uc_provenance = provenance\<rparr>
             else if is_lit (field raw ''unit'') ''credits''
             then Some \<lparr>uc_amount = amount, uc_unit = Credits, uc_provenance = provenance\<rparr>
             else None)"

definition string_or :: "jsval \<Rightarrow> string \<Rightarrow> jstr option" where
  \<comment> \<open>\<open>String(v ?? d)\<close>; \<open>None\<close> when the conversion throws.\<close>
  "string_or v d = (if has_no_members v then Some (js d) else js_string v)"

definition parsePlanEntry :: "jsval \<Rightarrow> PlanEntry option" where
  "parsePlanEntry entry =
     (let raw = objectOrEmpty entry; p = field raw ''priority''; st = field raw ''status''
      in map_option (\<lambda>content. \<lparr>pe_content = content,
           pe_priority = (if is_lit p ''high'' then High else if is_lit p ''low'' then Low else Medium),
           pe_status = (if is_lit st ''in_progress'' then PlanInProgress
                        else if is_lit st ''completed'' then PlanCompleted else PlanPending)\<rparr>)
           (string_or (field raw ''content'') ''''))"

definition parsePlanEntries :: "jsval \<Rightarrow> PlanEntry list option" where
  "parsePlanEntries v = those (map parsePlanEntry (items_of v))"

definition parseToolCall :: "jsval \<Rightarrow> ToolCallStreamPayload" where
  "parseToolCall v = \<lparr>tc_toolCallId = stringOrEmpty (field v ''toolCallId''),
     tc_title = stringOrEmpty (field v ''title''), tc_status = stringOrEmpty (field v ''status''),
     tc_kind = truthy_of (optionalString (field v ''kind'')),
     tc_detail = truthy_of (optionalString (field v ''detail'')),
     tc_inputJson = truthy_of (optionalString (field v ''inputJson'')),
     tc_output = truthy_of (optionalString (field v ''output''))\<rparr>"

definition parseSpawnTopic :: "jsval \<Rightarrow> SpawnBranchTopic" where
  "parseSpawnTopic topic = (let raw = objectOrEmpty topic
     in \<lparr>sb_title = stringOrEmpty (field raw ''title''), sb_prompt = stringOrEmpty (field raw ''prompt''),
         sb_chatId = stringOrEmpty (field raw ''chatId''), sb_nodeId = optionalString (field raw ''nodeId'')\<rparr>)"

definition parseSpawnTopics :: "jsval \<Rightarrow> SpawnBranchTopic list" where
  "parseSpawnTopics v = filter (\<lambda>t. sb_title t \<noteq> [] \<or> sb_prompt t \<noteq> [] \<or> sb_chatId t \<noteq> [])
     (map parseSpawnTopic (items_of v))"

definition parseStringList :: "jsval \<Rightarrow> jstr list" where
  "parseStringList v = List.map_filter str_of (items_of v)"

definition parseCommand :: "jsval \<Rightarrow> AgentCommand option" where
  "parseCommand command =
     (let raw = objectOrEmpty command; input = objectOrEmpty (field raw ''input'');
          mk = (\<lambda>i. \<lparr>ac_name = stringOrEmpty (field raw ''name''),
                    ac_description = optionalString (field raw ''description''), ac_input = i\<rparr>)
      in if is_object (field raw ''input'')
         then map_option (\<lambda>t. mk (Some t)) (string_or (field input ''type'') ''unstructured'')
         else Some (mk None))"

definition parseCommands :: "jsval \<Rightarrow> AgentCommand list option" where
  "parseCommands v = map_option (filter (\<lambda>c. 0 < length (ac_name c))) (those (map parseCommand (items_of v)))"

definition parseArtifact :: "jsval \<Rightarrow> ArtifactPayload" where
  "parseArtifact d = \<lparr>ar_contextId = optionalString (field d ''contextId''),
     ar_name = stringOrEmpty (field d ''name''), ar_filePath = stringOrEmpty (field d ''filePath''),
     ar_size = optionalFiniteNumber (field d ''size'')\<rparr>"

text \<open>
  The lists of options, questions and answers are read element by element without a test for \<open>null\<close>:
  \<open>None\<close> is the \<open>TypeError\<close>.
\<close>

definition each :: "(jsval \<Rightarrow> 'a option) \<Rightarrow> jsval \<Rightarrow> 'a list option" where
  "each parse v = those (map (\<lambda>x. if has_no_members x then None else parse x) (items_of v))"

definition parsePermissionOption :: "jsval \<Rightarrow> PermissionOption" where
  "parsePermissionOption v = \<lparr>po_optionId = stringOrEmpty (field v ''optionId''),
     po_name = stringOrEmpty (field v ''name''), po_kind = stringOrEmpty (field v ''kind''),
     po_disabled = (if field v ''disabled'' = JBool True then Some True else None)\<rparr>"

definition parsePermissionRequest :: "jsval \<Rightarrow> PermissionRequest option" where
  "parsePermissionRequest d = map_option (\<lambda>options. \<lparr>
     pr_requestId = default_to (optionalFiniteNumber (field d ''requestId'')) 0,
     pr_toolCallId = optionalString (field d ''toolCallId''), pr_title = stringOrEmpty (field d ''title''),
     pr_detail = optionalString (field d ''detail''), pr_options = options,
     pr_source = optionalString (field d ''source'')\<rparr>)
     (each (\<lambda>v. Some (parsePermissionOption v)) (field d ''options''))"

definition parseUserInputOption :: "jsval \<Rightarrow> UserInputOption" where
  "parseUserInputOption v = \<lparr>uo_label = stringOrEmpty (field v ''label''),
     uo_description = optionalString (field v ''description'')\<rparr>"

definition parseUserInputQuestion :: "jsval \<Rightarrow> UserInputQuestion option" where
  "parseUserInputQuestion q = map_option (\<lambda>options. \<lparr>uq_id = str_of (field q ''id''),
     uq_question = stringOrEmpty (field q ''question''), uq_header = optionalString (field q ''header''),
     uq_options = options, uq_multiSelect = (field q ''multiSelect'' = JBool True)\<rparr>)
     (each (\<lambda>v. Some (parseUserInputOption v)) (field q ''options''))"

definition parseUserInputRequest :: "jsval \<Rightarrow> UserInputRequestPayload option" where
  "parseUserInputRequest d = map_option (\<lambda>questions. \<lparr>
     ur_requestId = default_to (optionalFiniteNumber (field d ''requestId'')) 0,
     ur_interactionId = optionalString (field d ''interactionId''), ur_questions = questions\<rparr>)
     (each parseUserInputQuestion (field d ''questions''))"

definition parseUserInputAnswer :: "jsval \<Rightarrow> UserInputAnswer" where
  "parseUserInputAnswer v = \<lparr>ua_id = str_of (field v ''id''),
     ua_question = stringOrEmpty (field v ''question''), ua_answer = stringOrEmpty (field v ''answer'')\<rparr>"

definition parseUserInputResolved :: "jsval \<Rightarrow> UserInputResolved option" where
  "parseUserInputResolved d = map_option (\<lambda>answers. \<lparr>
     us_requestId = default_to (optionalFiniteNumber (field d ''requestId'')) 0,
     us_interactionId = optionalString (field d ''interactionId''), us_answers = answers,
     us_outcome = (if is_lit (field d ''outcome'') ''answered'' then Some OutcomeAnswered
                   else if is_lit (field d ''outcome'') ''skipped'' then Some OutcomeSkipped else None)\<rparr>)
     (each (\<lambda>v. Some (parseUserInputAnswer v)) (field d ''answers''))"

definition parseUsageSummary :: "jsval \<Rightarrow> UsageSummary" where
  "parseUsageSummary d = \<lparr>
     us_contextUsagePercentage = optionalFiniteNumber (field d ''contextUsagePercentage''),
     us_totalCredits = optionalFiniteNumber (field d ''totalCredits''),
     us_charge = parseUsageCharge (field d ''charge''),
     us_turnDurationMs = optionalFiniteNumber (field d ''turnDurationMs''),
     us_source = optionalString (field d ''source''),
     us_totalTokens = optionalFiniteNumber (field d ''totalTokens''),
     us_inputTokens = optionalFiniteNumber (field d ''inputTokens''),
     us_cachedInputTokens = optionalFiniteNumber (field d ''cachedInputTokens''),
     us_outputTokens = optionalFiniteNumber (field d ''outputTokens''),
     us_reasoningOutputTokens = optionalFiniteNumber (field d ''reasoningOutputTokens'')\<rparr>"

definition parseWarning :: "jsval \<Rightarrow> RuntimeWarning" where
  "parseWarning d = \<lparr>rw_source = stringOrEmpty (field d ''source''),
     rw_category = (let c = field d ''category''
       in if is_lit c ''provider'' then WarnProvider else if is_lit c ''setup'' then WarnSetup
          else if is_lit c ''configuration'' then WarnConfiguration else WarnRuntime),
     rw_message = stringOrEmpty (field d ''message''), rw_code = optionalString (field d ''code''),
     rw_serverName = optionalString (field d ''serverName'')\<rparr>"

section \<open>Session state\<close>

definition REASONING_LEVELS :: "(jstr \<times> RuntimeReasoning) list" where
  "REASONING_LEVELS = [(js ''minimal'', RMinimal), (js ''low'', RLow), (js ''medium'', RMedium),
     (js ''high'', RHigh), (js ''xhigh'', RXhigh), (js ''max'', RMax)]"

definition isReasoningLevel :: "jsval \<Rightarrow> RuntimeReasoning option" where
  \<comment> \<open>The level a value is, when the test succeeds.\<close>
  "isReasoningLevel v = (case v of JStr s \<Rightarrow> map_of REASONING_LEVELS s | _ \<Rightarrow> None)"

definition sanitizeReasoningLevels :: "jsval \<Rightarrow> RuntimeReasoning list option" where
  "sanitizeReasoningLevels v = (case v of
     JArr items \<Rightarrow> Some (first_seen [] (List.map_filter isReasoningLevel items)) | _ \<Rightarrow> None)"

definition string_or_null :: "jsval \<Rightarrow> jstr option option" where
  "string_or_null v = (case v of JStr s \<Rightarrow> Some (Some s) | JNull \<Rightarrow> Some None | _ \<Rightarrow> None)"

definition array_of :: "(jsval \<Rightarrow> 'a option) \<Rightarrow> jsval \<Rightarrow> 'a list option" where
  \<comment> \<open>\<open>if (Array.isArray(v)) ... v.flatMap(...)\<close>\<close>
  "array_of parse v = (case v of JArr items \<Rightarrow> Some (List.map_filter parse items) | _ \<Rightarrow> None)"

definition parseMode :: "jsval \<Rightarrow> SessionMode option" where
  "parseMode v = map_option (\<lambda>i. \<lparr>sm_id = i, sm_name = default_to (str_of (field v ''name'')) i,
     sm_description = str_of (field v ''description'')\<rparr>) (str_of (field v ''id''))"

definition parseModel :: "jsval \<Rightarrow> SessionModel option" where
  "parseModel v = map_option (\<lambda>i. \<lparr>sl_id = i, sl_label = str_of (field v ''label''),
     sl_description = str_of (field v ''description''),
     sl_supportsReasoning = bool_of (field v ''supportsReasoning''),
     sl_supportedReasoningLevels = sanitizeReasoningLevels (field v ''supportedReasoningLevels''),
     sl_defaultReasoning = isReasoningLevel (field v ''defaultReasoning'')\<rparr>) (str_of (field v ''id''))"

definition parseSessionCommand :: "jsval \<Rightarrow> AgentCommand option" where
  "parseSessionCommand v = map_option (\<lambda>n. \<lparr>ac_name = n, ac_description = str_of (field v ''description''),
     ac_input = str_of (field (field v ''input'') ''type'')\<rparr>) (str_of (field v ''name''))"

definition parseMcpError :: "jsval \<Rightarrow> (jstr \<times> jstr) option" where
  "parseMcpError v = (case (field v ''serverName'', field v ''error'') of
     (JStr s, JStr e) \<Rightarrow> Some (s, e) | _ \<Rightarrow> None)"

definition parseSessionState :: "jsval \<Rightarrow> AgentSessionState" where
  "parseSessionState d = \<lparr>ss_runtimeId = stringOrEmpty (field d ''runtimeId''),
     ss_nativeEngine = str_of (field d ''nativeEngine''), ss_version = num_of (field d ''version''),
     ss_currentModeId = string_or_null (field d ''currentModeId''),
     ss_modelId = string_or_null (field d ''modelId''),
     ss_reasoning = (if field d ''reasoning'' = JNull then Some None
                     else map_option Some (isReasoningLevel (field d ''reasoning''))),
     ss_availableModes = array_of parseMode (field d ''availableModes''),
     ss_availableModels = array_of parseModel (field d ''availableModels''),
     ss_commands = array_of parseSessionCommand (field d ''commands''),
     ss_mcpErrors = array_of parseMcpError (field d ''mcpErrors'')\<rparr>"

section \<open>The parser of a frame\<close>

definition user_metadata :: "jsval \<Rightarrow> (jstr \<times> jsval) list option" where
  "user_metadata v = (case v of JObj kvs \<Rightarrow> Some kvs | _ \<Rightarrow> None)"

definition parseSteerAccepted :: "jsval \<Rightarrow> SteerAccepted" where
  "parseSteerAccepted d = \<lparr>sa_text = stringOrEmpty (field d ''text''),
     sa_pending = (if field d ''pending'' = JBool True then Some True else None),
     sa_messageId = optionalString (field d ''messageId''),
     sa_createdAt = optionalFiniteNumber (field d ''createdAt''),
     sa_userMetadata = user_metadata (field d ''userMetadata''),
     sa_queueId = optionalString (field d ''queueId'')\<rparr>"

definition parseTurnStart :: "jsval \<Rightarrow> TurnStart" where
  "parseTurnStart d = \<lparr>ts_turnId = stringOrEmpty (field d ''turnId''),
     ts_assistantId = stringOrEmpty (field d ''assistantId''),
     ts_nodeId = stringOrEmpty (field d ''nodeId''), ts_userText = stringOrEmpty (field d ''userText''),
     ts_selfInitiated = (if js_truthy (field d ''selfInitiated'') then Some True else None),
     ts_startedAt = optionalFiniteNumber (field d ''startedAt''),
     ts_userMetadata = user_metadata (field d ''userMetadata'')\<rparr>"

definition parseImage :: "jsval \<Rightarrow> ImagePayload" where
  "parseImage d = \<lparr>im_path = stringOrEmpty (field d ''path''), im_caption = optionalString (field d ''caption''),
     im_mimeType = stringOrEmpty (field d ''mimeType''),
     im_size = default_to (optionalFiniteNumber (field d ''size'')) 0\<rparr>"

definition parseDone :: "jsval \<Rightarrow> DonePayload" where
  "parseDone d = \<lparr>do_stopReason = optionalString (field d ''stopReason''),
     do_persisted = bool_of (field d ''persisted''),
     do_completedAt = optionalFiniteNumber (field d ''completedAt'')\<rparr>"

definition parseError :: "jsval \<Rightarrow> ErrorPayload" where
  "parseError d = \<lparr>er_message = stringOrEmpty (field d ''message''), er_code = optionalString (field d ''code''),
     er_recoverable = bool_of (field d ''recoverable''),
     er_completedAt = optionalFiniteNumber (field d ''completedAt'')\<rparr>"

definition parseFollowUpsStatus :: "jsval \<Rightarrow> FollowUpsStatus" where
  "parseFollowUpsStatus v = (if is_lit v ''completed'' then FollowCompleted
     else if is_lit v ''failed'' then FollowFailed else FollowInProgress)"

definition parseCancelPhase :: "jsval \<Rightarrow> CancelPhase" where
  "parseCancelPhase v = (if is_lit v ''acknowledged'' then CancelAcknowledged
     else if is_lit v ''settled'' then CancelSettled else CancelRequested)"

definition parseHarnessLevel :: "jsval \<Rightarrow> HarnessLevel" where
  "parseHarnessLevel v = (if is_lit v ''run'' then LevelRun else if is_lit v ''item'' then LevelItem else LevelTurn)"

definition parseHarnessPhase :: "jsval \<Rightarrow> HarnessPhase" where
  "parseHarnessPhase v = (if is_lit v ''delta'' then PhaseDelta else if is_lit v ''completed'' then PhaseCompleted
     else if is_lit v ''failed'' then PhaseFailed else if is_lit v ''cancelled'' then PhaseCancelled
     else PhaseStart)"

text \<open>
  The table \<open>parsers\<close>, one row per event; a row gives \<open>None\<close> when the parser throws. Rows whose parser
  cannot throw are wrapped in \<open>Some\<close>.
\<close>

definition parsers :: "(jstr \<Rightarrow> jsval option) \<Rightarrow> (jstr \<times> (jsval \<Rightarrow> ChatStreamPayload option)) list" where
  "parsers JSON_parse = [
    (js ''chunk'', \<lambda>d. Some (Chunk (stringOrEmpty (field d ''text'')))),
    (js ''thought'', \<lambda>d. Some (Thought (stringOrEmpty (field d ''text'')))),
    (js ''plan'', \<lambda>d. map_option Plan (parsePlanEntries (field d ''entries''))),
    (js ''tool_call'', \<lambda>d. Some (ToolCall (parseToolCall d))),
    (js ''tool_call_update'', \<lambda>d. Some (ToolCallUpdate (parseToolCall d))),
    (js ''heartbeat'', \<lambda>d. Some (Heartbeat (default_to (optionalFiniteNumber (field d ''idleMs'')) 0))),
    (js ''spawn_branches'', \<lambda>d. Some (SpawnBranches (parseSpawnTopics (field d ''topics'')))),
    (js ''title'', \<lambda>d. Some (Title (stringOrEmpty (field d ''title'')))),
    (js ''branch_overview'', \<lambda>d. Some (BranchOverview (stringOrEmpty (field d ''overview'')))),
    (js ''follow_ups'', \<lambda>d. Some (FollowUps (parseStringList (field d ''followUps'')))),
    (js ''follow_ups_status'', \<lambda>d. Some (FollowUpsStatusEvent (parseFollowUpsStatus (field d ''status'')))),
    (js ''session_state'', \<lambda>d. Some (SessionState (parseSessionState d))),
    (js ''commands'', \<lambda>d. map_option Commands (parseCommands (field d ''commands''))),
    (js ''artifact_saved'', \<lambda>d. Some (ArtifactSaved (parseArtifact d))),
    (js ''artifact_updated'', \<lambda>d. Some (ArtifactUpdated (parseArtifact d))),
    (js ''permission_resolved'', \<lambda>d. Some (PermissionResolved (default_to (optionalFiniteNumber (field d ''requestId'')) 0))),
    (js ''permission_request'', \<lambda>d. map_option PermissionRequested (parsePermissionRequest d)),
    (js ''user_input_request'', \<lambda>d. map_option UserInputRequest (parseUserInputRequest d)),
    (js ''user_input_resolved'', \<lambda>d. map_option UserInputResolvedEvent (parseUserInputResolved d)),
    (js ''subagent_list_update'', \<lambda>d. Some (SubagentListUpdate (parseSubagentPatches JSON_parse (field d ''subagents'')))),
    (js ''subagent_tool_activity'', \<lambda>d. Some (SubagentToolActivity (parseSubagentActivityPayload d))),
    (js ''context_usage'', \<lambda>d. Some (ContextUsage (default_to (optionalFiniteNumber (field d ''contextUsagePercentage'')) 0))),
    (js ''usage_summary'', \<lambda>d. Some (UsageSummaryEvent (parseUsageSummary d))),
    (js ''warning'', \<lambda>d. Some (Warning (parseWarning d))),
    (js ''mcp_server_error'', \<lambda>d. Some (McpServerError (stringOrEmpty (field d ''serverName'')) (stringOrEmpty (field d ''error'')))),
    (js ''done'', \<lambda>d. Some (Done (parseDone d))),
    (js ''error'', \<lambda>d. Some (Error (parseError d))),
    (js ''turn_start'', \<lambda>d. Some (TurnStarted (parseTurnStart d))),
    (js ''image'', \<lambda>d. Some (Image (parseImage d))),
    (js ''cancel_phase'', \<lambda>d. Some (CancelPhaseEvent (parseCancelPhase (field d ''phase'')))),
    (js ''queue_update'', \<lambda>d. Some (QueueUpdate (parseStringList (field d ''steering'')) (parseStringList (field d ''followUp'')))),
    (js ''steer_accepted'', \<lambda>d. Some (SteerAcceptedEvent (parseSteerAccepted d))),
    (js ''steering_report'', \<lambda>d. Some (SteeringReportEvent (parseSteeringReports (field d ''reports'')))),
    (js ''compaction_start'', \<lambda>d. Some (CompactionStart (optionalString (field d ''detail'')))),
    (js ''compaction_end'', \<lambda>d. Some (CompactionEnd (optionalString (field d ''detail'')))),
    (js ''retry_start'', \<lambda>d. Some (RetryStart (optionalString (field d ''detail'')))),
    (js ''retry_end'', \<lambda>d. Some (RetryEnd (optionalString (field d ''detail'')))),
    (js ''harness_lifecycle'', \<lambda>d. Some (HarnessLifecycle (parseHarnessLevel (field d ''level''))
       (parseHarnessPhase (field d ''phase'')) (optionalString (field d ''nativeType''))))]"

definition CHAT_STREAM_EVENT_NAMES :: "jstr list" where
  "CHAT_STREAM_EVENT_NAMES = map js [''chunk'', ''thought'', ''plan'', ''tool_call'', ''tool_call_update'',
     ''heartbeat'', ''spawn_branches'', ''title'', ''branch_overview'', ''follow_ups'',
     ''follow_ups_status'', ''commands'', ''session_state'', ''artifact_saved'', ''artifact_updated'',
     ''permission_request'', ''permission_resolved'', ''user_input_request'', ''user_input_resolved'',
     ''subagent_list_update'', ''subagent_tool_activity'', ''context_usage'', ''usage_summary'',
     ''mcp_server_error'', ''warning'', ''done'', ''error'', ''turn_start'', ''image'', ''cancel_phase'',
     ''queue_update'', ''steer_accepted'', ''steering_report'', ''compaction_start'', ''compaction_end'',
     ''retry_start'', ''retry_end'', ''harness_lifecycle'']"

definition isChatStreamEventName :: "jstr \<Rightarrow> bool" where
  "isChatStreamEventName event \<longleftrightarrow> event \<in> set CHAT_STREAM_EVENT_NAMES"

definition stamp :: "jsval \<Rightarrow> ChatStreamPayload \<Rightarrow> ChatStreamEvent" where
  \<comment> \<open>The members of the envelope, copied from the raw frame.\<close>
  "stamp raw d = \<lparr>v_data = d, v_observedAt = num_of (field raw ''observedAt''),
     v_chatId = str_of (field raw ''chatId''), v_nodeId = str_of (field raw ''nodeId''),
     v_turnId = str_of (field raw ''turnId''), v_seq = num_of (field raw ''seq''),
     v_assistantId = str_of (field raw ''assistantId''), v_source = str_of (field raw ''source''),
     v_confidence = str_of (field raw ''confidence''), v_nativeMethod = str_of (field raw ''nativeMethod'')\<rparr>"

datatype parse_result = Parsed ChatStreamEvent | Rejected | Throws

definition parseChatStreamEvent :: "(jstr \<Rightarrow> jsval option) \<Rightarrow> jstr \<Rightarrow> jstr \<Rightarrow> parse_result" where
  "parseChatStreamEvent JSON_parse event rawData =
     (if \<not> isChatStreamEventName event then Rejected
      else case JSON_parse rawData of None \<Rightarrow> Rejected
        | Some parsed \<Rightarrow>
            let raw = objectOrEmpty parsed
            in case map_of (parsers JSON_parse) event of None \<Rightarrow> Throws
               | Some parser \<Rightarrow> (case parser raw of None \<Rightarrow> Throws | Some d \<Rightarrow> Parsed (stamp raw d)))"

fun event_name :: "ChatStreamPayload \<Rightarrow> string" where
  "event_name (Chunk _) = ''chunk''"
| "event_name (Thought _) = ''thought''"
| "event_name (Plan _) = ''plan''"
| "event_name (ToolCall _) = ''tool_call''"
| "event_name (ToolCallUpdate _) = ''tool_call_update''"
| "event_name (Heartbeat _) = ''heartbeat''"
| "event_name (SpawnBranches _) = ''spawn_branches''"
| "event_name (Title _) = ''title''"
| "event_name (BranchOverview _) = ''branch_overview''"
| "event_name (FollowUps _) = ''follow_ups''"
| "event_name (FollowUpsStatusEvent _) = ''follow_ups_status''"
| "event_name (Commands _) = ''commands''"
| "event_name (SessionState _) = ''session_state''"
| "event_name (ArtifactSaved _) = ''artifact_saved''"
| "event_name (ArtifactUpdated _) = ''artifact_updated''"
| "event_name (PermissionRequested _) = ''permission_request''"
| "event_name (PermissionResolved _) = ''permission_resolved''"
| "event_name (UserInputRequest _) = ''user_input_request''"
| "event_name (UserInputResolvedEvent _) = ''user_input_resolved''"
| "event_name (SubagentListUpdate _) = ''subagent_list_update''"
| "event_name (SubagentToolActivity _) = ''subagent_tool_activity''"
| "event_name (ContextUsage _) = ''context_usage''"
| "event_name (UsageSummaryEvent _) = ''usage_summary''"
| "event_name (McpServerError _ _) = ''mcp_server_error''"
| "event_name (Warning _) = ''warning''"
| "event_name (Done _) = ''done''"
| "event_name (Error _) = ''error''"
| "event_name (TurnStarted _) = ''turn_start''"
| "event_name (Image _) = ''image''"
| "event_name (CancelPhaseEvent _) = ''cancel_phase''"
| "event_name (QueueUpdate _ _) = ''queue_update''"
| "event_name (SteerAcceptedEvent _) = ''steer_accepted''"
| "event_name (SteeringReportEvent _) = ''steering_report''"
| "event_name (CompactionStart _) = ''compaction_start''"
| "event_name (CompactionEnd _) = ''compaction_end''"
| "event_name (RetryStart _) = ''retry_start''"
| "event_name (RetryEnd _) = ''retry_end''"
| "event_name (HarnessLifecycle _ _ _) = ''harness_lifecycle''"

definition encodeChatStreamEvent :: "(ChatStreamEvent \<Rightarrow> jstr) \<Rightarrow> ChatStreamEvent \<Rightarrow> jstr" where
  \<comment> \<open>\<open>stringify\<close> stands for \<open>JSON.stringify\<close> on the data of the frame.\<close>
  "encodeChatStreamEvent stringify e =
     js ''event: '' @ js (event_name (v_data e)) @ [10] @ js ''data: '' @ stringify e @ [10, 10]"

section \<open>Properties\<close>

text \<open>Every name of the table has a parser, and the parser of a name gives the payload of that name.\<close>

lemma parsers_names: "set (map fst (parsers jp)) = set CHAT_STREAM_EVENT_NAMES"
  by (simp add: parsers_def CHAT_STREAM_EVENT_NAMES_def insert_commute del: js_inj)

lemma parsers_rows: "(n, p) \<in> set (parsers jp) \<Longrightarrow> p raw = Some d \<Longrightarrow> js (event_name d) = n"
  by (auto simp: parsers_def)

lemma parsers_throwing:
  "(n, p) \<in> set (parsers jp) \<Longrightarrow> p raw = None \<Longrightarrow> n \<in> js ` {''plan'', ''commands'',
     ''permission_request'', ''user_input_request'', ''user_input_resolved''}"
  by (auto simp: parsers_def)

text \<open>A frame is rejected only when its name is unknown or its data is not JSON; a parsed frame
  carries the payload of its event and the sequence number of the frame; and only the parsers of five
  events can throw.\<close>

theorem parseChatStreamEvent_cases:
  "case parseChatStreamEvent JSON_parse event rawData of
     Rejected \<Rightarrow> isChatStreamEventName event = False \<or> JSON_parse rawData = None
   | Parsed e \<Rightarrow> isChatStreamEventName event \<and> js (event_name (v_data e)) = event \<and>
       v_seq e = num_of (field (objectOrEmpty (the (JSON_parse rawData))) ''seq'')
   | Throws \<Rightarrow> isChatStreamEventName event \<and> event \<in> js ` {''plan'', ''commands'', ''permission_request'',
       ''user_input_request'', ''user_input_resolved''}"
proof (cases "parseChatStreamEvent JSON_parse event rawData")
  case (Parsed e)
  then obtain parsed p d where n: "isChatStreamEventName event" and j: "JSON_parse rawData = Some parsed"
    and p: "map_of (parsers JSON_parse) event = Some p" and d: "p (objectOrEmpty parsed) = Some d"
    and e: "e = stamp (objectOrEmpty parsed) d"
    by (auto simp: parseChatStreamEvent_def Let_def split: if_splits option.splits)
  from parsers_rows [OF map_of_SomeD [OF p] d] n j e Parsed show ?thesis by (simp add: stamp_def)
next
  case Rejected
  then show ?thesis by (auto simp: parseChatStreamEvent_def Let_def split: if_splits option.splits)
next
  case Throws
  then obtain raw where n: "isChatStreamEventName event"
    and o: "map_of (parsers JSON_parse) event = None \<or>
      (\<exists>p. map_of (parsers JSON_parse) event = Some p \<and> p raw = None)"
    by (auto simp: parseChatStreamEvent_def Let_def split: if_splits option.splits)
  have "map_of (parsers JSON_parse) event \<noteq> None"
    using n parsers_names [of JSON_parse] by (auto simp: map_of_eq_None_iff isChatStreamEventName_def)
  with o obtain p where "(event, p) \<in> set (parsers JSON_parse)" "p raw = None" by (blast dest: map_of_SomeD)
  from parsers_throwing [OF this] n Throws show ?thesis by simp
qed

text \<open>A frame that asks for permission and lists a \<open>null\<close> option makes the parser throw instead of
  being rejected.\<close>

theorem parseChatStreamEvent_null_option:
  assumes "JSON_parse rawData = Some (JObj [(js ''options'', JArr [JNull])])"
  shows "parseChatStreamEvent JSON_parse (js ''permission_request'') rawData = Throws"
proof -
  have "isChatStreamEventName (js ''permission_request'')"
    by (simp add: isChatStreamEventName_def CHAT_STREAM_EVENT_NAMES_def)
  moreover have "map_of (parsers JSON_parse) (js ''permission_request'') =
      Some (\<lambda>d. map_option PermissionRequested (parsePermissionRequest d))"
    by (simp add: parsers_def)
  moreover have "parsePermissionRequest (JObj [(js ''options'', JArr [JNull])]) = None"
    by (simp add: parsePermissionRequest_def each_def has_no_members_def)
  ultimately show ?thesis using assms by (simp add: parseChatStreamEvent_def objectOrEmpty_def)
qed

theorem parseChatStreamEvent_null_option_witness:
  "parseChatStreamEvent (\<lambda>s. Some (JObj [(js ''options'', JArr [JNull])])) (js ''permission_request'')
     (js ''{\"options\":[null]}'') = Throws"
  by (rule parseChatStreamEvent_null_option) (rule refl)

end
