(* ===== verification/Turn_Text.thy ===== *)
theory Turn_Text
  imports Kiro_Steering Js_Regex
begin

text \<open>
  The metadata sentinels that an agent may write into its answer, as
  \<^verbatim>\<open>shared/src/turnProjection.ts\<close> reads and removes them: the patterns, the extraction of title,
  follow-ups and branch overview, the removal of complete and partial sentinels from visible text,
  and the final content of a turn.
\<close>

section \<open>Patterns\<close>

definition SENTINEL_PREFIXES :: "jstr list" where
  "SENTINEL_PREFIXES = [js ''[TITLE:'', js ''[BRANCH-OVERVIEW:'', js ''[FOLLOW-UP'']"

definition colon :: regex where
  \<comment> \<open>The class of the ASCII and the full-width colon.\<close>
  "colon = RSet (\<lambda>c. c = 58 \<or> c = 65306)"

definition INLINE_TITLE_RE :: regex where
  "INLINE_TITLE_RE = rseq [rlit_i ''[TITLE:'', rstar rws, RGroup 1 (rplus (RSet (\<lambda>c. c \<noteq> 93))), runit 93]"

definition PROSE_TITLE_RE :: regex where
  "PROSE_TITLE_RE = rseq [RBegin True, rstar rws, ropt (rseq [rplus (runit 35), rstar rws]),
     rstar (runit 42), rstar rws, rlit_i ''title'', rstar rws, colon, rstar rws,
     rstar (runit 42), rstar rws, RGroup 1 (RRep 1 None False (RSet (\<lambda>c. \<not> is_lt c))),
     rstar rws, rstar (runit 42), rstar rws, REnd True]"

definition INLINE_BRANCH_OVERVIEW_RE :: regex where
  "INLINE_BRANCH_OVERVIEW_RE = rseq [rlit_i ''[BRANCH-OVERVIEW:'', rstar rws,
     RGroup 1 (rplus (RSet (\<lambda>c. c \<notin> {93, 10, 13}))), runit 93]"

definition INLINE_BRANCH_OVERVIEW_RE_G :: regex where
  "INLINE_BRANCH_OVERVIEW_RE_G = rseq [rlit_i ''[BRANCH-OVERVIEW:'', rstar rws,
     rplus (RSet (\<lambda>c. c \<notin> {93, 10, 13})), runit 93]"

definition one_to_three :: regex where
  "one_to_three = RSet (\<lambda>c. 49 \<le> c \<and> c \<le> 51)"

definition INLINE_FOLLOW_UP_RE :: regex where
  "INLINE_FOLLOW_UP_RE = rseq [rlit_i ''[FOLLOW-UP'', rplus rws, RGroup 1 one_to_three, rstar rws,
     ropt (rseq [runit 47, rstar rws, runit 51]), rstar rws, runit 58, rstar rws,
     RGroup 2 (RRep 0 None False (RSet (\<lambda>c. c \<notin> {93, 10, 13}))),
     ralts [runit 93,
            RLook (rseq [rstar rws, rlit_i ''[FOLLOW-UP'', rplus rws, one_to_three]),
            RLook (RSet (\<lambda>c. c \<in> {10, 13})),
            REnd False]]"

definition INLINE_FOLLOW_UPS_RE :: regex where
  "INLINE_FOLLOW_UPS_RE = rseq [rlit_i ''[FOLLOW-UPS:'', rstar rws,
     RGroup 1 (rplus (RSet (\<lambda>c. c \<noteq> 93))), runit 93]"

definition PROSE_FOLLOW_UP_RE :: regex where
  "PROSE_FOLLOW_UP_RE = rseq [ralts [RBegin False, runit 10],
     rstar (RSet (\<lambda>c. is_ws c \<or> c \<in> set (js ''#*>_`-''))),
     rlit_i ''follow'', ropt (RSet (\<lambda>c. c = 45 \<or> is_ws c)), rlit_i ''up'', rplus rws,
     rlit_i ''question'', ropt (rlit_i ''s''), rstar rws, colon,
     rstar (RSet (\<lambda>c. is_ws c \<or> c \<in> set (js ''*_`'')))]"

text \<open>The three patterns that clean a line of a prose list, and the pattern of blank lines.\<close>

definition BULLET_RE :: regex where
  "BULLET_RE = rseq [RBegin False, rstar rws,
     ralts [RSet (\<lambda>c. c = 45 \<or> c = 42 \<or> c = 8226),
            rseq [rplus (RSet (\<lambda>c. 48 \<le> c \<and> c \<le> 57)), RSet (\<lambda>c. c = 46 \<or> c = 41)]],
     rstar rws]"

definition LEADING_MARKS_RE :: regex where
  "LEADING_MARKS_RE = rseq [RBegin False, rplus (RSet (\<lambda>c. is_ws c \<or> c \<in> set (js ''>*_`#'')))]"

definition TRAILING_MARKS_RE :: regex where
  "TRAILING_MARKS_RE = rseq [rplus (RSet (\<lambda>c. is_ws c \<or> c \<in> set (js ''*_`''))), REnd False]"

definition BLANK_LINES_RE :: regex where
  "BLANK_LINES_RE = rseq [runit 10, rstar (RSet (\<lambda>c. c = 32 \<or> c = 9)), runit 10,
     rstar (RSet (\<lambda>c. c = 32 \<or> c = 9)), rplus (runit 10)]"

section \<open>Extraction\<close>

definition titleMatch :: "jstr \<Rightarrow> (nat \<times> nat \<times> jstr) option" where
  \<comment> \<open>Start, end and trimmed title.\<close>
  "titleMatch raw =
     (case js_match INLINE_TITLE_RE raw of
        Some m \<Rightarrow> Some (m_start m, m_end m, js_trim (capture raw m 1))
      | None \<Rightarrow> (case js_match PROSE_TITLE_RE raw of
            Some m \<Rightarrow> Some (m_start m, m_end m, js_trim (capture raw m 1))
          | None \<Rightarrow> None))"

record follow_item =
  fi_index :: nat
  fi_followUp :: jstr
  fi_start :: nat
  fi_end :: nat

text \<open>One match of the numbered pattern; group 1 is one digit, read by \<open>Number\<close>.\<close>

definition follow_item_of :: "jstr \<Rightarrow> rresult \<Rightarrow> follow_item list" where
  "follow_item_of raw m =
     (case capture raw m 1 of
        [d] \<Rightarrow>
          let followUp = js_trim (capture raw m 2)
          in if d < 49 \<or> 51 < d \<or> followUp = [] then []
             else [\<lparr>fi_index = d - 49, fi_followUp = followUp, fi_start = m_start m, fi_end = m_end m\<rparr>]
      | _ \<Rightarrow> [])"

text \<open>
  The last run of items that only white space separates; the second argument lists the earlier
  items, nearest first.
\<close>

fun extend_tail :: "jstr \<Rightarrow> follow_item list \<Rightarrow> follow_item list \<Rightarrow> follow_item list" where
  "extend_tail raw tail [] = tail"
| "extend_tail raw tail (previous # earlier) =
     (if list_all is_ws (js_slice raw (fi_end previous) (fi_start (hd tail)))
      then extend_tail raw (previous # tail) earlier else tail)"

definition fill_slots :: "follow_item list \<Rightarrow> jstr option list" where
  "fill_slots tail = foldl (\<lambda>slots item. slots[fi_index item := Some (fi_followUp item)]) [None, None, None] tail"

definition present :: "jstr option list \<Rightarrow> jstr list" where
  \<comment> \<open>\<open>filter(Boolean)\<close>: holes and empty strings are left out.\<close>
  "present slots = filter (\<lambda>s. s \<noteq> []) (concat (map (\<lambda>s. case s of None \<Rightarrow> [] | Some v \<Rightarrow> [v]) slots))"

definition numberedFollowUps :: "jstr \<Rightarrow> (jstr list \<times> nat) option" where
  "numberedFollowUps raw =
     (let items = concat (map (follow_item_of raw) (match_all INLINE_FOLLOW_UP_RE raw))
      in if items = [] then None
         else let tail = extend_tail raw [last items] (rev (butlast items));
                  followUps = take 3 (present (fill_slots tail))
              in if followUps \<noteq> [] then Some (followUps, fi_start (hd tail)) else None)"

definition listedFollowUps :: "jstr \<Rightarrow> (jstr list \<times> nat) option" where
  "listedFollowUps raw =
     (let blocks = match_all INLINE_FOLLOW_UPS_RE raw
      in if blocks = [] then None
         else let block = last blocks;
                  followUps = take 3 (filter (\<lambda>v. v \<noteq> []) (map js_trim (split_on 124 (capture raw block 1))))
              in if followUps \<noteq> [] then Some (followUps, m_start block) else None)"

definition prose_line :: "jstr \<Rightarrow> jstr" where
  "prose_line line = js_trim (replace_first TRAILING_MARKS_RE []
     (replace_first LEADING_MARKS_RE [] (replace_first BULLET_RE [] line)))"

definition proseFollowUps :: "jstr \<Rightarrow> (jstr list \<times> nat) option" where
  "proseFollowUps raw =
     (case js_match PROSE_FOLLOW_UP_RE raw of None \<Rightarrow> None
      | Some m \<Rightarrow> Some (take 3 (filter (\<lambda>line. 0 < length line \<and> list_ex (\<lambda>c. c = 63 \<or> c = 65311) line)
            (map prose_line (split_on 10 (drop (m_end m) raw)))), m_start m))"

definition followUpsMatch :: "jstr \<Rightarrow> (jstr list \<times> nat) option" where
  \<comment> \<open>The follow-ups and the position where they start.\<close>
  "followUpsMatch raw =
     (case numberedFollowUps raw of Some r \<Rightarrow> Some r
      | None \<Rightarrow> (case listedFollowUps raw of Some r \<Rightarrow> Some r | None \<Rightarrow> proseFollowUps raw))"

record ExtractedTurnMetadata =
  t_title :: "jstr option"
  t_followUps :: "jstr list option"
  t_branchOverview :: "jstr option"

definition extractTurnMetadata :: "jstr \<Rightarrow> ExtractedTurnMetadata" where
  "extractTurnMetadata raw =
     (let title = map_option (\<lambda>(_, _, t). t) (titleMatch raw);
          overview = map_option (\<lambda>m. js_trim (capture raw m 1)) (js_match INLINE_BRANCH_OVERVIEW_RE raw);
          followUps = map_option fst (followUpsMatch raw)
      in \<lparr>t_title = (if truthy_str title then title else None),
          t_followUps = (case followUps of Some (f # fs) \<Rightarrow> Some (f # fs) | _ \<Rightarrow> None),
          t_branchOverview = (if truthy_str overview then overview else None)\<rparr>)"

section \<open>Visible text\<close>

definition couldStillBeSentinel :: "jstr \<Rightarrow> bool" where
  "couldStillBeSentinel value =
     (let upper = to_upper value
      in list_ex (\<lambda>prefix. if length upper \<le> length prefix then starts_with prefix upper
           else starts_with upper prefix) SENTINEL_PREFIXES)"

definition is_sentinel :: "jstr \<Rightarrow> bool" where
  "is_sentinel candidate \<longleftrightarrow> list_ex (starts_with (to_upper candidate)) SENTINEL_PREFIXES"

definition skip_ws :: "jstr \<Rightarrow> nat \<Rightarrow> nat" where
  \<comment> \<open>The loop that moves \<open>end\<close> over white space.\<close>
  "skip_ws raw i = i + length (takeWhile is_ws (drop i raw))"

function scan_cuts :: "jstr \<Rightarrow> nat \<Rightarrow> nat option \<Rightarrow> (nat \<times> nat) list" where
  \<comment> \<open>The cuts that the loop pushes from \<open>cursor\<close> on, the one after the loop included.\<close>
  "scan_cuts raw cursor hold =
     (if length raw \<le> cursor
      then (case hold of None \<Rightarrow> [] | Some h \<Rightarrow> [(h, length raw)])
      else let ch = raw ! cursor
           in case hold of
                None \<Rightarrow> if ch \<noteq> 91 then scan_cuts raw (Suc cursor) None
                        else scan_cuts raw (Suc cursor) (Some cursor)
              | Some h \<Rightarrow>
                  let candidate = js_slice raw h (Suc cursor)
                  in if ch = 93
                     then if is_sentinel candidate
                          then let end = skip_ws raw (Suc cursor) in (h, end) # scan_cuts raw end None
                          else scan_cuts raw (Suc cursor) None
                     else scan_cuts raw (Suc cursor)
                            (if couldStillBeSentinel candidate then Some h else None))"
  by pat_completeness auto
termination
  by (relation "measure (\<lambda>(raw, cursor, hold). length raw - cursor)") (auto simp: skip_ws_def)

declare scan_cuts.simps [simp del]

fun keep_outside :: "jstr \<Rightarrow> nat \<Rightarrow> (nat \<times> nat) list \<Rightarrow> jstr" where
  \<comment> \<open>The loop over the cuts that builds \<open>visible\<close>.\<close>
  "keep_outside raw cursor [] = (if cursor < length raw then drop cursor raw else [])"
| "keep_outside raw cursor ((a, b) # cuts) =
     (if cursor < a then js_slice raw cursor a else []) @ keep_outside raw b cuts"

definition stripTurnMetadataSentinels :: "jstr \<Rightarrow> jstr" where
  "stripTurnMetadataSentinels raw = keep_outside raw 0 (scan_cuts raw 0 None)"

definition skip_newlines :: "jstr \<Rightarrow> nat \<Rightarrow> nat" where
  "skip_newlines raw i = i + length (takeWhile (\<lambda>c. c = 10) (drop i raw))"

definition without_title :: "jstr \<Rightarrow> jstr" where
  "without_title raw = (case titleMatch raw of None \<Rightarrow> raw
     | Some (a, b, _) \<Rightarrow> take a raw @ drop (skip_newlines raw b) raw)"

definition finalizeTurnContent :: "jstr \<Rightarrow> jstr" where
  "finalizeTurnContent full =
     (let raw = fst (extractKiroSteering full);
          withoutTitle = without_title raw;
          answer = (case followUpsMatch withoutTitle of None \<Rightarrow> withoutTitle
                      | Some (_, cutStart) \<Rightarrow> take cutStart withoutTitle)
      in js_trim (replace_all BLANK_LINES_RE [10, 10]
           (replace_all INLINE_BRANCH_OVERVIEW_RE_G [] (stripTurnMetadataSentinels answer))))"

section \<open>Lemmas: cuts\<close>

text \<open>A cut: a complete sentinel with the white space after it, or an unfinished one at the end.\<close>

definition sentinel_cut :: "jstr \<Rightarrow> nat \<times> nat \<Rightarrow> bool" where
  "sentinel_cut raw ab = (case ab of (a, b) \<Rightarrow> a < b \<and> b \<le> length raw \<and>
     ((\<exists>e. a < e \<and> e \<le> b \<and> raw ! (e - 1) = 93 \<and> is_sentinel (js_slice raw a e)
          \<and> list_all is_ws (js_slice raw e b))
      \<or> b = length raw \<and> couldStillBeSentinel (drop a raw)))"

fun cuts_from :: "nat \<Rightarrow> (nat \<times> nat) list \<Rightarrow> bool" where
  \<comment> \<open>The cuts are in order, do not overlap and start at \<open>n\<close> or later.\<close>
  "cuts_from n [] = True"
| "cuts_from n ((a, b) # cuts) = (n \<le> a \<and> a \<le> b \<and> cuts_from b cuts)"


lemma cuts_from_mono: "cuts_from n cuts \<Longrightarrow> m \<le> n \<Longrightarrow> cuts_from m cuts"
  by (cases cuts) auto

lemma skip_ws_bounds: "i \<le> length raw \<Longrightarrow> i \<le> skip_ws raw i \<and> skip_ws raw i \<le> length raw"
  using length_takeWhile_le [of is_ws "drop i raw"] by (simp add: skip_ws_def)

lemma skip_ws_blank: "list_all is_ws (js_slice raw i (skip_ws raw i))"
  unfolding list_all_iff
proof
  fix x
  assume x: "x \<in> set (js_slice raw i (skip_ws raw i))"
  have eq: "js_slice raw i (skip_ws raw i) = take (length (takeWhile is_ws (drop i raw))) (drop i raw)"
    by (simp add: js_slice_def skip_ws_def take_drop add.commute)
  have "js_slice raw i (skip_ws raw i) = takeWhile is_ws (drop i raw)"
    unfolding eq by (metis takeWhile_eq_take)
  with x show "is_ws x" by (auto dest: set_takeWhileD)
qed

lemma couldStill_bracket: "couldStillBeSentinel [91]"
  by (simp add: couldStillBeSentinel_def SENTINEL_PREFIXES_def js_def to_upper_def upper_unit_def
    starts_with_def)

text \<open>What holds of the held candidate between two rounds of the loop.\<close>

definition hold_ok :: "jstr \<Rightarrow> nat \<Rightarrow> nat option \<Rightarrow> bool" where
  "hold_ok raw cursor hold = (case hold of None \<Rightarrow> True
     | Some h \<Rightarrow> h < cursor \<and> cursor \<le> length raw \<and> couldStillBeSentinel (js_slice raw h cursor))"

lemma hold_ok_open: "cursor < length raw \<Longrightarrow> raw ! cursor = 91 \<Longrightarrow> hold_ok raw (Suc cursor) (Some cursor)"
  using couldStill_bracket by (simp add: hold_ok_def js_slice_def take_Suc_conv_app_nth)

text \<open>The branches of the loop.\<close>

lemma scan_done:
  assumes "length raw \<le> c"
  shows "scan_cuts raw c None = []" and "scan_cuts raw c (Some h) = [(h, length raw)]"
  using assms by (simp_all add: scan_cuts.simps [of raw c None] scan_cuts.simps [of raw c "Some h"])

lemma scan_free:
  assumes "c < length raw"
  shows "raw ! c \<noteq> 91 \<Longrightarrow> scan_cuts raw c None = scan_cuts raw (Suc c) None"
    and "raw ! c = 91 \<Longrightarrow> scan_cuts raw c None = scan_cuts raw (Suc c) (Some c)"
  using assms by (simp_all add: scan_cuts.simps [of raw c None])

lemma scan_held:
  assumes "c < length raw"
  shows "raw ! c = 93 \<Longrightarrow> is_sentinel (js_slice raw h (Suc c)) \<Longrightarrow> scan_cuts raw c (Some h) =
      (h, skip_ws raw (Suc c)) # scan_cuts raw (skip_ws raw (Suc c)) None"
    and "raw ! c = 93 \<Longrightarrow> \<not> is_sentinel (js_slice raw h (Suc c)) \<Longrightarrow>
      scan_cuts raw c (Some h) = scan_cuts raw (Suc c) None"
    and "raw ! c \<noteq> 93 \<Longrightarrow> scan_cuts raw c (Some h) = scan_cuts raw (Suc c)
      (if couldStillBeSentinel (js_slice raw h (Suc c)) then Some h else None)"
  using assms by (simp_all add: scan_cuts.simps [of raw c "Some h"] Let_def)

text \<open>
  Induction over the rounds of the loop, one case per branch; \<open>ok\<close> is kept by every round.
\<close>

lemma scan_cuts_induct [consumes 1, case_names at_end at_end_held skip opened closed reject held]:
  assumes "hold_ok raw cursor hold"
    and "\<And>c. length raw \<le> c \<Longrightarrow> P c None"
    and "\<And>c h. hold_ok raw c (Some h) \<Longrightarrow> length raw = c \<Longrightarrow> P c (Some h)"
    and "\<And>c. c < length raw \<Longrightarrow> raw ! c \<noteq> 91 \<Longrightarrow> P (Suc c) None \<Longrightarrow> P c None"
    and "\<And>c. c < length raw \<Longrightarrow> raw ! c = 91 \<Longrightarrow> P (Suc c) (Some c) \<Longrightarrow> P c None"
    and "\<And>c h. c < length raw \<Longrightarrow> hold_ok raw c (Some h) \<Longrightarrow> raw ! c = 93 \<Longrightarrow>
      is_sentinel (js_slice raw h (Suc c)) \<Longrightarrow> P (skip_ws raw (Suc c)) None \<Longrightarrow> P c (Some h)"
    and "\<And>c h. c < length raw \<Longrightarrow> hold_ok raw c (Some h) \<Longrightarrow> raw ! c = 93 \<Longrightarrow>
      \<not> is_sentinel (js_slice raw h (Suc c)) \<Longrightarrow> P (Suc c) None \<Longrightarrow> P c (Some h)"
    and "\<And>c h. c < length raw \<Longrightarrow> hold_ok raw c (Some h) \<Longrightarrow> raw ! c \<noteq> 93 \<Longrightarrow>
      P (Suc c) (if couldStillBeSentinel (js_slice raw h (Suc c)) then Some h else None) \<Longrightarrow> P c (Some h)"
  shows "P cursor hold"
  using assms(1)
proof (induction "length raw - cursor" arbitrary: cursor hold rule: less_induct)
  case less
  show ?case
  proof (cases "cursor < length raw")
    case False
    with less.prems assms(2,3) show ?thesis by (cases hold) (auto simp: hold_ok_def)
  next
    case True
    have later: "P c' hold'" if "cursor < c'" "hold_ok raw c' hold'" for c' hold'
      using that True by (intro less.hyps) auto
    show ?thesis
    proof (cases hold)
      case None
      with True later assms(4,5) hold_ok_open [of cursor raw] show ?thesis
        by (cases "raw ! cursor = 91") (auto simp: hold_ok_def)
    next
      case (Some h)
      let ?hold = "if couldStillBeSentinel (js_slice raw h (Suc cursor)) then Some h else None"
      have "hold_ok raw (Suc cursor) ?hold" using less.prems True Some by (auto simp: hold_ok_def)
      moreover have "cursor < skip_ws raw (Suc cursor)" by (simp add: skip_ws_def)
      moreover have "hold_ok raw c None" for c by (simp add: hold_ok_def)
      ultimately show ?thesis using True Some less.prems later assms(6,7,8) by (metis lessI)
    qed
  qed
qed

lemma scan_cuts_ok:
  assumes "hold_ok raw cursor hold"
  shows "list_all (sentinel_cut raw) (scan_cuts raw cursor hold) \<and>
    cuts_from (case hold of None \<Rightarrow> cursor | Some h \<Rightarrow> h) (scan_cuts raw cursor hold)"
  using assms
proof (induction rule: scan_cuts_induct)
  case (at_end c)
  then show ?case by (simp add: scan_done)
next
  case (at_end_held c h)
  then show ?case by (simp add: scan_done sentinel_cut_def hold_ok_def js_slice_def)
next
  case (skip c)
  then show ?case by (auto simp: scan_free elim: cuts_from_mono)
next
  case (opened c)
  then show ?case by (auto simp: scan_free elim: cuts_from_mono)
next
  case (closed c h)
  let ?e = "skip_ws raw (Suc c)"
  have b: "Suc c \<le> ?e" "?e \<le> length raw" using skip_ws_bounds [of "Suc c" raw] closed(1) by auto
  have h: "h < c" using closed(2) by (simp add: hold_ok_def)
  have "sentinel_cut raw (h, ?e)" unfolding sentinel_cut_def
    using h b closed(3,4) skip_ws_blank by (auto intro!: exI [of _ "Suc c"])
  then show ?case using closed h b by (simp add: scan_held)
next
  case (reject c h)
  then show ?case by (auto simp: scan_held hold_ok_def elim: cuts_from_mono)
next
  case (held c h)
  then show ?case by (auto simp: scan_held hold_ok_def split: if_splits elim: cuts_from_mono)
qed






text \<open>Text before every cut is kept.\<close>

lemma js_slice_split: "a \<le> m \<Longrightarrow> m \<le> b \<Longrightarrow> js_slice s a b = js_slice s a m @ js_slice s m b"
proof -
  assume "a \<le> m" "m \<le> b"
  then have "take b s = take m s @ drop m (take b s)" by (metis append_take_drop_id min.absorb1 take_take)
  then have "js_slice s a b = drop a (take m s @ drop m (take b s))" by (simp add: js_slice_def)
  with \<open>a \<le> m\<close> show ?thesis by (cases "m \<le> length s") (auto simp: js_slice_def)
qed

lemma keep_outside_starts:
  assumes "cuts_from n cuts" and "c \<le> n" and "n \<le> length raw"
  shows "starts_with (keep_outside raw c cuts) (js_slice raw c n)"
proof (cases cuts)
  case Nil
  have "drop c raw = js_slice raw c n @ drop n raw"
    using js_slice_split [of c n "length raw" raw] assms by (simp add: js_slice_def)
  then show ?thesis using Nil by (auto simp: starts_with_iff js_slice_def)
next
  case (Cons ab cuts')
  obtain a b where ab: "ab = (a, b)" by (cases ab)
  with Cons assms have "n \<le> a" by simp
  with js_slice_split [of c n a raw] assms(2) Cons ab show ?thesis
    by (cases "c < a") (auto simp: starts_with_iff js_slice_def)
qed

section \<open>Properties\<close>


lemma js_slice_append: "b \<le> length x \<Longrightarrow> js_slice (x @ y) a b = js_slice x a b"
  by (simp add: js_slice_def)

lemma skip_ws_append:
  "i \<le> length x \<Longrightarrow>
   skip_ws (x @ y) i = skip_ws x i \<or> skip_ws x i = length x \<and> length x \<le> skip_ws (x @ y) i"
proof (cases "\<forall>c \<in> set (drop i x). is_ws c")
  case True
  assume "i \<le> length x"
  moreover have "length (takeWhile is_ws (drop i x)) = length x - i"
    using True by (metis length_drop takeWhile_eq_all_conv)
  ultimately show ?thesis using True by (auto simp: skip_ws_def takeWhile_append2)
qed (auto simp: skip_ws_def intro: takeWhile_append1)

lemma keep_outside_append:
  assumes "hold_ok x cursor hold" and "cursor \<le> length x"
    and "c \<le> (case hold of None \<Rightarrow> cursor | Some h \<Rightarrow> h)"
  shows "starts_with (keep_outside (x @ y) c (scan_cuts (x @ y) cursor hold))
    (keep_outside x c (scan_cuts x cursor hold))"
  using assms
proof (induction arbitrary: c rule: scan_cuts_induct)
  case (at_end k)
  have "cuts_from k (scan_cuts (x @ y) k None)" using scan_cuts_ok [of "x @ y" k None] by (simp add: hold_ok_def)
  from keep_outside_starts [OF this, of c] at_end show ?case
    by (auto simp: scan_done js_slice_def starts_with_def)
next
  case (at_end_held k h)
  then have "hold_ok (x @ y) k (Some h)" by (simp add: hold_ok_def js_slice_append)
  from scan_cuts_ok [OF this] have "cuts_from h (scan_cuts (x @ y) k (Some h))" by simp
  from keep_outside_starts [OF this, of c] at_end_held show ?case
    by (auto simp: scan_done js_slice_def hold_ok_def starts_with_def)
next
  case (skip k)
  then show ?case by (simp add: scan_free nth_append)
next
  case (opened k)
  then show ?case by (simp add: scan_free nth_append)
next
  case (closed k h)
  let ?e = "skip_ws x (Suc k)" and ?e' = "skip_ws (x @ y) (Suc k)"
  have l: "scan_cuts x k (Some h) = (h, ?e) # scan_cuts x ?e None" using closed by (simp add: scan_held)
  have r: "scan_cuts (x @ y) k (Some h) = (h, ?e') # scan_cuts (x @ y) ?e' None"
    using closed by (simp add: scan_held nth_append js_slice_append)
  have h: "h \<le> length x" using closed(2) by (simp add: hold_ok_def)
  consider "?e' = ?e" | "?e = length x" "length x \<le> ?e'"
    using skip_ws_append [of "Suc k" x y] closed(1) by auto
  then show ?case
  proof cases
    case 1
    have "?e \<le> length x" using skip_ws_bounds [of "Suc k" x] closed(1) by simp
    from closed.IH [OF this, of ?e] 1 h closed.prems(2) show ?thesis
      by (auto simp: l r js_slice_append starts_with_iff)
  next
    case 2
    with h closed.prems(2) show ?thesis by (auto simp: l r scan_done js_slice_append starts_with_iff)
  qed
next
  case (reject k h)
  then show ?case by (simp add: scan_held nth_append js_slice_append hold_ok_def)
next
  case (held k h)
  then have "c \<le> (case if couldStillBeSentinel (js_slice x h (Suc k)) then Some h else None
      of None \<Rightarrow> Suc k | Some h \<Rightarrow> h)"
    by (simp add: hold_ok_def)
  with held.IH [of c] held show ?case by (simp add: scan_held nth_append js_slice_append)
qed

text \<open>Visible text is never taken back: as an answer grows, what was shown stays at the front of
  what is shown.\<close>

theorem strip_grows: "starts_with (stripTurnMetadataSentinels (x @ y)) (stripTurnMetadataSentinels x)"
  using keep_outside_append [of x 0 None 0 y] by (simp add: stripTurnMetadataSentinels_def hold_ok_def)


lemma to_upper_append: "to_upper (a @ b) = to_upper a @ to_upper b"
  by (simp add: to_upper_def)

text \<open>A prefix of a possible sentinel is a possible sentinel.\<close>

lemma couldStill_prefix: "couldStillBeSentinel (a @ b) \<Longrightarrow> couldStillBeSentinel a"
proof -
  assume "couldStillBeSentinel (a @ b)"
  then obtain p where p: "p \<in> set SENTINEL_PREFIXES"
    "if length (to_upper (a @ b)) \<le> length p then starts_with p (to_upper (a @ b))
     else starts_with (to_upper (a @ b)) p"
    by (auto simp: couldStillBeSentinel_def list_ex_iff Let_def)
  then have "(\<exists>t. p = to_upper a @ t) \<or> (\<exists>t. to_upper a = p @ t)"
    by (auto simp: starts_with_iff to_upper_append append_eq_append_conv2 split: if_splits)
  then have "if length (to_upper a) \<le> length p then starts_with p (to_upper a)
     else starts_with (to_upper a) p"
    by (auto simp: starts_with_iff)
  with p(1) show ?thesis unfolding couldStillBeSentinel_def list_ex_iff Let_def by blast
qed

text \<open>Text without an opening bracket is scanned without holding anything.\<close>

lemma scan_plain:
  assumes "91 \<notin> set t"
  shows "scan_cuts (pre @ t @ rest) (length pre) None = scan_cuts (pre @ t @ rest) (length (pre @ t)) None"
  using assms
proof (induction t arbitrary: pre)
  case Nil
  then show ?case by simp
next
  case (Cons a t)
  have "scan_cuts (pre @ (a # t) @ rest) (length pre) None =
      scan_cuts ((pre @ [a]) @ t @ rest) (length (pre @ [a])) None"
    using Cons.prems by (simp add: scan_free nth_append)
  also have "\<dots> = scan_cuts ((pre @ [a]) @ t @ rest) (length ((pre @ [a]) @ t)) None"
    using Cons.prems by (intro Cons.IH) simp
  finally show ?case by simp
qed

lemma scan_candidate:
  assumes "couldStillBeSentinel (p @ q)" and "93 \<notin> set q"
  shows "scan_cuts (pre @ p @ q @ rest) (length (pre @ p)) (Some (length pre)) =
    scan_cuts (pre @ p @ q @ rest) (length (pre @ p @ q)) (Some (length pre))"
  using assms
proof (induction q arbitrary: p)
  case Nil
  then show ?case by simp
next
  case (Cons a q)
  have "couldStillBeSentinel ((p @ [a]) @ q)" using Cons.prems(1) by simp
  then have "couldStillBeSentinel (p @ [a])" by (rule couldStill_prefix)
  then have "scan_cuts (pre @ p @ (a # q) @ rest) (length (pre @ p)) (Some (length pre)) =
      scan_cuts (pre @ (p @ [a]) @ q @ rest) (length (pre @ p @ [a])) (Some (length pre))"
    using Cons.prems by (simp add: scan_held nth_append js_slice_def)
  also have "\<dots> = scan_cuts (pre @ (p @ [a]) @ q @ rest) (length (pre @ (p @ [a]) @ q)) (Some (length pre))"
    using Cons.prems by (intro Cons.IH) simp_all
  finally show ?case by simp
qed

lemma scan_opened:
  assumes "91 \<notin> set t" and "couldStillBeSentinel (91 # q)" and "93 \<notin> set q"
  shows "scan_cuts (t @ (91 # q) @ rest) 0 None =
    scan_cuts (t @ (91 # q) @ rest) (length (t @ 91 # q)) (Some (length t))"
proof -
  have "scan_cuts (t @ (91 # q) @ rest) 0 None = scan_cuts (t @ [91] @ q @ rest) (length t) None"
    using scan_plain [OF assms(1), of "[]"] by simp
  also have "\<dots> = scan_cuts (t @ [91] @ q @ rest) (length (t @ [91])) (Some (length t))"
    by (simp add: scan_free nth_append)
  also have "\<dots> = scan_cuts (t @ [91] @ q @ rest) (length (t @ [91] @ q)) (Some (length t))"
    using assms by (intro scan_candidate) simp_all
  finally show ?thesis by simp
qed

text \<open>While a sentinel is still arriving none of it is shown, whatever part of it has arrived.\<close>

theorem strip_hides_partial:
  assumes "91 \<notin> set t" and "couldStillBeSentinel (91 # q)" and "93 \<notin> set q"
  shows "stripTurnMetadataSentinels (t @ 91 # q) = t"
  using scan_opened [OF assms, of "[]"]
  by (simp add: stripTurnMetadataSentinels_def scan_done js_slice_def)

theorem strip_hides_partial_witness:
  "stripTurnMetadataSentinels (js ''Done. '' @ js ''[Title: Par'') = js ''Done. ''"
  using strip_hides_partial [of "js ''Done. ''" "js ''Title: Par''"]
  by (simp add: js_def couldStillBeSentinel_def SENTINEL_PREFIXES_def to_upper_def upper_unit_def
    starts_with_def)

text \<open>The two texts of a title sentinel right after another bracket stay visible: the bracket that
  ends the first candidate is not considered as the start of the next one.\<close>

theorem strip_misses_nested:
  "stripTurnMetadataSentinels (js ''a[[TITLE: x]'') = js ''a[[TITLE: x]''"
  by (simp add: stripTurnMetadataSentinels_def scan_cuts.simps js_def js_slice_def is_sentinel_def
    couldStillBeSentinel_def SENTINEL_PREFIXES_def to_upper_def upper_unit_def starts_with_def)


lemma followUpsMatch_bounds:
  assumes "followUpsMatch raw = Some (fs, cutAt)"
  shows "length fs \<le> 3" and "[] \<notin> set fs" and "cutAt \<le> length raw"
proof -
  have starts: "m_start m \<le> length raw" if "m \<in> set (match_all r raw)" for m r
  proof -
    have "m \<in> set (match_all_fuel f r raw i) \<Longrightarrow> m_start m \<le> length raw" for f i
      by (induction f arbitrary: i) (auto split: option.splits dest: exec_from_bounds [OF sym])
    from this [OF that [unfolded match_all_def]] show ?thesis .
  qed
  have tail: "hd (extend_tail raw t es) \<in> set t \<union> set es" if "t \<noteq> []" for t es
    using that
  proof (induction es arbitrary: t)
    case (Cons e es)
    from Cons.IH [of "e # t"] Cons.prems show ?case by auto
  qed simp
  have item: "fi_start it \<le> length raw" if "it \<in> set (concat (map (follow_item_of raw) (match_all r raw)))" for it r
    using that starts by (auto simp: follow_item_of_def Let_def split: list.splits if_splits)
  have numbered: "length fs \<le> 3 \<and> [] \<notin> set fs \<and> cutAt \<le> length raw" if n: "numberedFollowUps raw = Some (fs, cutAt)"
  proof -
    let ?items = "concat (map (follow_item_of raw) (match_all INLINE_FOLLOW_UP_RE raw))"
    have ne: "?items \<noteq> []" and fs: "fs = take 3 (present (fill_slots (extend_tail raw [last ?items] (rev (butlast ?items)))))"
      and cut: "cutAt = fi_start (hd (extend_tail raw [last ?items] (rev (butlast ?items))))"
      using n by (auto simp: numberedFollowUps_def Let_def split: if_splits)
    have "hd (extend_tail raw [last ?items] (rev (butlast ?items))) \<in> set ?items"
      using tail [of "[last ?items]" "rev (butlast ?items)"] ne
      by (metis Un_iff empty_iff in_set_butlastD last_in_set list.distinct(1) list.set(1) set_ConsD set_rev)
    with item cut fs show ?thesis by (auto simp: present_def dest!: in_set_takeD)
  qed
  have listed: "length fs \<le> 3 \<and> [] \<notin> set fs \<and> cutAt \<le> length raw" if "listedFollowUps raw = Some (fs, cutAt)"
    using that starts [OF last_in_set, of INLINE_FOLLOW_UPS_RE]
    by (auto simp: listedFollowUps_def Let_def split: if_splits dest!: in_set_takeD)
  have "length fs \<le> 3 \<and> [] \<notin> set fs \<and> cutAt \<le> length raw" if "proseFollowUps raw = Some (fs, cutAt)"
    using that exec_from_bounds [of PROSE_FOLLOW_UP_RE raw 0]
    by (auto simp: proseFollowUps_def js_match_def split: option.splits dest!: in_set_takeD)
  with numbered listed assms have "length fs \<le> 3 \<and> [] \<notin> set fs \<and> cutAt \<le> length raw"
    by (auto simp: followUpsMatch_def split: option.splits)
  then show "length fs \<le> 3" "[] \<notin> set fs" "cutAt \<le> length raw" by simp_all
qed

text \<open>Metadata read from an answer is never blank: a title or an overview that is reported is not
  empty, and there are between one and three follow-ups, none empty.\<close>

theorem extractTurnMetadata_bounds:
  "t_title (extractTurnMetadata raw) \<noteq> Some [] \<and> t_branchOverview (extractTurnMetadata raw) \<noteq> Some [] \<and>
   (case t_followUps (extractTurnMetadata raw) of None \<Rightarrow> True
    | Some fs \<Rightarrow> 1 \<le> length fs \<and> length fs \<le> 3 \<and> [] \<notin> set fs)"
proof -
  have "case t_followUps (extractTurnMetadata raw) of None \<Rightarrow> True
    | Some fs \<Rightarrow> 1 \<le> length fs \<and> length fs \<le> 3 \<and> [] \<notin> set fs"
    using followUpsMatch_bounds [of raw]
    by (auto simp: extractTurnMetadata_def Let_def split: option.splits list.splits)
  moreover have "t_title (extractTurnMetadata raw) \<noteq> Some []" "t_branchOverview (extractTurnMetadata raw) \<noteq> Some []"
    by (auto simp: extractTurnMetadata_def Let_def split: if_splits)
  ultimately show ?thesis by simp
qed

end
