(* ===== verification/Turn_Projection.thy ===== *)
theory Turn_Projection
  imports Chat_Events Turn_Text
begin

text \<open>
  The durable projection of a turn (\<^verbatim>\<open>shared/src/turnProjection.ts\<close>): the snapshot that backend, journal
  replay and clients all fold from the numbered frames of a turn. \<open>now\<close> stands for the \<open>Date.now()\<close>
  default of the roster folds. The theorems say that redelivered frames change nothing, that block ids
  are positions and tool blocks match tool calls one to one, that at most the last block is still
  streaming, that the stored answer is the text that arrived, and that the end of a turn leaves
  nothing open.
\<close>

section \<open>Data\<close>

record DurableToolCall =
  d_id :: jstr
  d_title :: jstr
  d_status :: jstr
  d_kind :: "jstr option"
  d_detail :: "jstr option"
  d_inputJson :: "jstr option"
  d_output :: "jstr option"
  d_textOffset :: "nat option"
  d_startedAt :: "int option"
  d_endedAt :: "int option"

datatype InteractionStatus = InPending | InAnswered | InSkipped | InInterrupted

record DurableUserInput =
  ui_interactionId :: jstr
  ui_requestId :: int
  ui_questions :: "UserInputQuestion list"
  ui_answers :: "UserInputAnswer list"
  ui_status :: InteractionStatus

datatype section_kind = AnswerSection | ThinkingSection

record text_block =
  x_rawText :: jstr
  x_streaming :: "bool option"
  x_startedAt :: "int option"
  x_endedAt :: "int option"

record image_block =
  g_workspaceId :: jstr
  g_path :: jstr
  g_caption :: "jstr option"
  g_mimeType :: jstr
  g_size :: int

text \<open>The members of a block beside its id; \<open>answer\<close> and \<open>thinking\<close> blocks have the same members.\<close>

datatype block_body =
    TextBlock section_kind text_block
  | ToolBlock jstr section_kind nat
  | UserInputBlock int "DurableUserInput option" nat
  | ImageBlock image_block

type_synonym DurableAssistantBlock = "jstr \<times> block_body"

text \<open>
  Metadata of a message: the members a client sent with a user message, and the members the
  projection itself writes. \<open>usageSummary\<close> and \<open>warnings\<close> keep the data of the whole frame.
\<close>

record DurableMessageMetadata =
  dm_members :: "(jstr \<times> jsval) list"
  dm_steered :: "bool option"
  dm_usageSummary :: "ChatStreamEvent option"
  dm_warnings :: "ChatStreamEvent list option"
  dm_steeringReports :: "SteeringReport list option"

datatype role = UserRole | AssistantRole

record DurableMessage =
  m_id :: jstr
  m_role :: role
  m_content :: jstr
  m_blocks :: "DurableAssistantBlock list"
  m_toolCalls :: "DurableToolCall list"
  m_plan :: "PlanEntry list option"
  m_subagents :: "SubagentInfo list option"
  m_metadata :: "DurableMessageMetadata option"
  m_createdAt :: int

datatype turn_status = TurnActive | TurnCompleted | TurnCancelled | TurnError

record DurableTurnSnapshot =
  n_turnId :: jstr
  n_nodeId :: jstr
  n_workspaceId :: jstr
  n_assistantId :: jstr
  n_userMessage :: "DurableMessage option"
  n_steeredMessages :: "DurableMessage list option"
  n_assistantMessage :: DurableMessage
  n_nodeMetadata :: ExtractedTurnMetadata
  n_status :: turn_status
  n_stopReason :: "jstr option"
  n_error :: "jstr option"
  n_lastAppliedSeq :: int
  n_startedAt :: int
  n_completedAt :: "int option"

record CreateDurableTurnInput =
  c_turnId :: jstr
  c_assistantId :: jstr
  c_nodeId :: jstr
  c_workspaceId :: jstr
  c_displayUserText :: jstr
  c_userMetadata :: "(jstr \<times> jsval) list option"
  c_selfInitiated :: bool
  c_keepUserMessage :: bool
  c_startedAt :: int

section \<open>Questions, answers and steered messages\<close>

definition userInputInteractionId :: "jstr \<Rightarrow> int \<Rightarrow> jstr" where
  "userInputInteractionId turnId requestId = turnId @ js '':input:'' @ decimal_int requestId"

definition normalizeUserInputQuestions :: "jstr \<Rightarrow> UserInputQuestion list \<Rightarrow> UserInputQuestion list" where
  "normalizeUserInputQuestions interactionId questions =
     map (\<lambda>(index, q). q\<lparr>uq_id := Some (default_to (uq_id q) (interactionId @ js '':q:'' @ decimal index))\<rparr>)
       (enumerate 0 questions)"

definition answer_id :: "UserInputQuestion list \<Rightarrow> nat \<Rightarrow> UserInputAnswer \<Rightarrow> jstr option" where
  "answer_id questions index a =
     nullish (ua_id a)
       (if index < length questions \<and> uq_question (questions ! index) = ua_question a
        then uq_id (questions ! index)
        else Option.bind (find (\<lambda>q. uq_question q = ua_question a) questions) uq_id)"

definition normalizeUserInputAnswers ::
  "UserInputQuestion list \<Rightarrow> UserInputAnswer list \<Rightarrow> UserInputAnswer list" where
  "normalizeUserInputAnswers questions answers =
     map (\<lambda>(index, a). a\<lparr>ua_id := answer_id questions index a\<rparr>) (enumerate 0 answers)"

definition client_metadata :: "(jstr \<times> jsval) list \<Rightarrow> DurableMessageMetadata" where
  "client_metadata kvs = \<lparr>dm_members = kvs, dm_steered = None, dm_usageSummary = None,
     dm_warnings = None, dm_steeringReports = None\<rparr>"

definition no_metadata :: DurableMessageMetadata where
  "no_metadata = client_metadata []"

definition steeredUserMessage :: "SteerAccepted \<Rightarrow> jstr option \<Rightarrow> int option \<Rightarrow> DurableMessage option" where
  \<comment> \<open>The payload, and \<open>assistantId\<close> and \<open>seq\<close> of its frame.\<close>
  "steeredUserMessage d assistantId seq =
     (let mid = nullish (sa_messageId d)
            (case (assistantId, seq) of
               (Some aid, Some n) \<Rightarrow> if aid \<noteq> [] then Some (js ''u-steer-'' @ aid @ js ''-'' @ decimal_int n) else None
             | _ \<Rightarrow> None)
      in if \<not> truthy_str mid then None
         else Some \<lparr>m_id = default_to mid [], m_role = UserRole, m_content = sa_text d, m_blocks = [],
              m_toolCalls = [], m_plan = None, m_subagents = None,
              m_metadata = Some ((client_metadata (filter (\<lambda>kv. fst kv \<noteq> js ''steered'') (default_to (sa_userMetadata d) [])))
                \<lparr>dm_steered := Some True\<rparr>),
              m_createdAt = default_to (sa_createdAt d) 0\<rparr>)"

section \<open>A new turn\<close>

definition blank_node_metadata :: ExtractedTurnMetadata where
  "blank_node_metadata = \<lparr>t_title = None, t_followUps = None, t_branchOverview = None\<rparr>"

definition createDurableTurn :: "CreateDurableTurnInput \<Rightarrow> DurableTurnSnapshot" where
  "createDurableTurn input = \<lparr>
     n_turnId = c_turnId input, n_nodeId = c_nodeId input, n_workspaceId = c_workspaceId input,
     n_assistantId = c_assistantId input,
     n_userMessage = (if c_selfInitiated input \<and> \<not> c_keepUserMessage input then None
       else Some \<lparr>m_id = js ''u-'' @ c_assistantId input, m_role = UserRole,
              m_content = c_displayUserText input, m_blocks = [], m_toolCalls = [], m_plan = None,
              m_subagents = None, m_metadata = map_option client_metadata (c_userMetadata input),
              m_createdAt = c_startedAt input\<rparr>),
     n_steeredMessages = None,
     n_assistantMessage = \<lparr>m_id = c_assistantId input, m_role = AssistantRole, m_content = [],
       m_blocks = [], m_toolCalls = [], m_plan = None, m_subagents = None, m_metadata = None,
       m_createdAt = c_startedAt input\<rparr>,
     n_nodeMetadata = blank_node_metadata, n_status = TurnActive, n_stopReason = None, n_error = None,
     n_lastAppliedSeq = -1, n_startedAt = c_startedAt input, n_completedAt = None\<rparr>"

section \<open>Blocks\<close>

definition block_id :: "jstr \<Rightarrow> nat \<Rightarrow> jstr" where
  "block_id assistantId n = assistantId @ js ''-b-'' @ decimal n"

definition nextBlockId :: "DurableTurnSnapshot \<Rightarrow> DurableAssistantBlock list \<Rightarrow> jstr" where
  "nextBlockId snapshot blocks = block_id (n_assistantId snapshot) (length blocks)"

fun section_of :: "block_body \<Rightarrow> section_kind option" where
  "section_of (TextBlock k _) = Some k"
| "section_of (ToolBlock _ k _) = Some k"
| "section_of (UserInputBlock _ _ _) = Some AnswerSection"
| "section_of (ImageBlock _) = None"

text \<open>The loops below walk the blocks from the last one; they are written over the reversed list.\<close>

fun section_back :: "DurableAssistantBlock list \<Rightarrow> section_kind" where
  "section_back [] = AnswerSection"
| "section_back (b # bs) = (case section_of (snd b) of Some k \<Rightarrow> k | None \<Rightarrow> section_back bs)"

definition currentSection :: "DurableAssistantBlock list \<Rightarrow> section_kind" where
  "currentSection blocks = section_back (rev blocks)"

fun run_length_back :: "section_kind \<Rightarrow> DurableAssistantBlock list \<Rightarrow> nat" where
  "run_length_back k [] = 0"
| "run_length_back k (b # bs) = (case snd b of
     TextBlock k' x \<Rightarrow> if k' = k then length (x_rawText x) + run_length_back k bs else 0
   | _ \<Rightarrow> run_length_back k bs)"

definition currentRunLength :: "DurableAssistantBlock list \<Rightarrow> section_kind \<Rightarrow> nat" where
  "currentRunLength blocks k = run_length_back k (rev blocks)"

definition close_text :: "int option \<Rightarrow> text_block \<Rightarrow> text_block" where
  "close_text at x = (if x_streaming x \<noteq> Some False
     then x\<lparr>x_streaming := Some False, x_endedAt := nullish (x_endedAt x) at\<rparr> else x)"

definition closeTrailingTextBlock :: "DurableAssistantBlock list \<Rightarrow> int option \<Rightarrow> DurableAssistantBlock list" where
  "closeTrailingTextBlock blocks observedAt =
     (if blocks = [] then []
      else case last blocks of
             (i, TextBlock k x) \<Rightarrow> butlast blocks @ [(i, TextBlock k (close_text observedAt x))]
           | _ \<Rightarrow> blocks)"

definition appendText ::
  "DurableTurnSnapshot \<Rightarrow> section_kind \<Rightarrow> jstr \<Rightarrow> int option \<Rightarrow> DurableAssistantBlock list" where
  "appendText snapshot kind text observedAt =
     (let blocks = m_blocks (n_assistantMessage snapshot);
          fresh = (let closed = closeTrailingTextBlock blocks observedAt
            in closed @ [(nextBlockId snapshot closed, TextBlock kind
                 \<lparr>x_rawText = text, x_streaming = Some True, x_startedAt = observedAt, x_endedAt = None\<rparr>)])
      in if blocks = [] then fresh
         else case last blocks of
                (i, TextBlock k x) \<Rightarrow>
                  if k = kind
                  then butlast blocks @ [(i, TextBlock k (x\<lparr>x_rawText := x_rawText x @ text, x_streaming := Some True\<rparr>))]
                  else fresh
              | _ \<Rightarrow> fresh)"

section \<open>Tool calls\<close>

definition isActiveToolStatus :: "jstr \<Rightarrow> bool" where
  "isActiveToolStatus status \<longleftrightarrow>
     status = [] \<or> status \<in> {js ''running'', js ''pending'', js ''in_progress''}"

definition mergeTool :: "DurableToolCall option \<Rightarrow> ToolCallStreamPayload \<Rightarrow> int option \<Rightarrow> DurableToolCall" where
  "mergeTool previous update observedAt =
     (let base = (case previous of Some p \<Rightarrow> p
            | None \<Rightarrow> \<lparr>d_id = tc_toolCallId update, d_title = [], d_status = [], d_kind = None,
                d_detail = None, d_inputJson = None, d_output = None, d_textOffset = None,
                d_startedAt = observedAt, d_endedAt = None\<rparr>);
          merged = base\<lparr>d_title := (if tc_title update \<noteq> [] then tc_title update else d_title base),
            d_status := (if tc_status update \<noteq> [] then tc_status update else d_status base),
            d_kind := override_str (tc_kind update) (d_kind base),
            d_detail := override_str (tc_detail update) (d_detail base),
            d_inputJson := override_str (tc_inputJson update) (d_inputJson base)\<rparr>;
          done = (if truthy_str (tc_output update)
            then merged\<lparr>d_output := tc_output update,
                   d_status := (if isActiveToolStatus (d_status merged) then js ''completed'' else d_status merged)\<rparr>
            else merged)
      in if d_endedAt done = None \<and> \<not> isActiveToolStatus (d_status done)
         then done\<lparr>d_endedAt := observedAt\<rparr> else done)"

definition applyTool :: "DurableTurnSnapshot \<Rightarrow> ToolCallStreamPayload \<Rightarrow> int option \<Rightarrow> DurableMessage" where
  "applyTool snapshot update observedAt =
     (let message = n_assistantMessage snapshot;
          blocks = m_blocks message
      in case find_index (\<lambda>tool. d_id tool = tc_toolCallId update) (m_toolCalls message) of
           Some i \<Rightarrow> message\<lparr>m_toolCalls :=
             (m_toolCalls message)[i := mergeTool (Some (m_toolCalls message ! i)) update observedAt]\<rparr>
         | None \<Rightarrow>
             let sec = currentSection blocks;
                 offset = currentRunLength blocks sec;
                 merged = (mergeTool None update observedAt)\<lparr>d_textOffset := Some offset\<rparr>;
                 closed = closeTrailingTextBlock blocks observedAt
             in message\<lparr>m_toolCalls := m_toolCalls message @ [merged],
                  m_blocks := closed @ [(nextBlockId snapshot closed, ToolBlock (d_id merged) sec offset)]\<rparr>)"

section \<open>The end of a turn\<close>

definition finalize_body :: "int option \<Rightarrow> block_body \<Rightarrow> block_body" where
  "finalize_body completedAt b = (case b of
     TextBlock k x \<Rightarrow> TextBlock k (x\<lparr>x_streaming := Some False,
       x_endedAt := (if x_streaming x \<noteq> Some False then nullish (x_endedAt x) completedAt else x_endedAt x)\<rparr>)
   | UserInputBlock r (Some ui) off \<Rightarrow>
       if ui_status ui = InPending then UserInputBlock r (Some (ui\<lparr>ui_status := InInterrupted\<rparr>)) off else b
   | _ \<Rightarrow> b)"

definition finalize_tool :: "jstr \<Rightarrow> int option \<Rightarrow> DurableToolCall \<Rightarrow> DurableToolCall" where
  "finalize_tool finalStatus completedAt tool =
     (if isActiveToolStatus (d_status tool)
      then tool\<lparr>d_status := finalStatus, d_endedAt := nullish (d_endedAt tool) completedAt\<rparr> else tool)"

definition finalizeMessage :: "int \<Rightarrow> DurableMessage \<Rightarrow> bool \<Rightarrow> int option \<Rightarrow> DurableMessage" where
  "finalizeMessage now message interrupted completedAt =
     message\<lparr>m_blocks := map (\<lambda>(i, b). (i, finalize_body completedAt b)) (m_blocks message),
       m_toolCalls := map (finalize_tool (if interrupted then js ''interrupted'' else js ''completed'') completedAt)
         (m_toolCalls message),
       m_subagents := finalizeSubagentRoster (m_subagents message) interrupted now\<rparr>"

definition rawAnswerContent :: "DurableAssistantBlock list \<Rightarrow> jstr" where
  "rawAnswerContent blocks =
     concat (map (\<lambda>b. case snd b of TextBlock AnswerSection x \<Rightarrow> x_rawText x | _ \<Rightarrow> []) blocks)"

definition answerContent :: "DurableAssistantBlock list \<Rightarrow> jstr" where
  "answerContent blocks = stripTurnMetadataSentinels (rawAnswerContent blocks)"

definition checkpointTurnContent :: "DurableTurnSnapshot \<Rightarrow> jstr" where
  "checkpointTurnContent snapshot =
     (if n_status snapshot = TurnActive then answerContent (m_blocks (n_assistantMessage snapshot))
      else m_content (n_assistantMessage snapshot))"

section \<open>The fold\<close>

definition set_blocks :: "DurableAssistantBlock list \<Rightarrow> DurableTurnSnapshot \<Rightarrow> DurableTurnSnapshot" where
  "set_blocks blocks s = s\<lparr>n_assistantMessage := (n_assistantMessage s)\<lparr>m_blocks := blocks\<rparr>\<rparr>"

definition set_metadata :: "(DurableMessageMetadata \<Rightarrow> DurableMessageMetadata) \<Rightarrow> DurableTurnSnapshot \<Rightarrow> DurableTurnSnapshot" where
  "set_metadata f s = s\<lparr>n_assistantMessage := (n_assistantMessage s)
     \<lparr>m_metadata := Some (f (default_to (m_metadata (n_assistantMessage s)) no_metadata))\<rparr>\<rparr>"

definition push_block :: "block_body \<Rightarrow> int option \<Rightarrow> DurableTurnSnapshot \<Rightarrow> DurableTurnSnapshot" where
  \<comment> \<open>Close the trailing text block and push a block after it.\<close>
  "push_block b observedAt s =
     (let closed = closeTrailingTextBlock (m_blocks (n_assistantMessage s)) observedAt
      in set_blocks (closed @ [(nextBlockId s closed, b)]) s)"

definition interaction_is :: "jstr \<Rightarrow> DurableAssistantBlock \<Rightarrow> bool" where
  "interaction_is iid b = (case snd b of UserInputBlock _ (Some ui) _ \<Rightarrow> ui_interactionId ui = iid | _ \<Rightarrow> False)"

definition applyUserInputRequest ::
  "DurableTurnSnapshot \<Rightarrow> UserInputRequestPayload \<Rightarrow> int option \<Rightarrow> DurableTurnSnapshot" where
  "applyUserInputRequest s d observedAt =
     (let iid = default_to (ur_interactionId d) (userInputInteractionId (n_turnId s) (ur_requestId d));
          blocks = m_blocks (n_assistantMessage s)
      in if list_ex (interaction_is iid) blocks then s
         else push_block (UserInputBlock (ur_requestId d)
                (Some \<lparr>ui_interactionId = iid, ui_requestId = ur_requestId d,
                  ui_questions = normalizeUserInputQuestions iid (ur_questions d), ui_answers = [],
                  ui_status = InPending\<rparr>)
                (currentRunLength blocks AnswerSection)) observedAt s)"

definition resolve_input :: "UserInputResolved \<Rightarrow> DurableUserInput \<Rightarrow> DurableUserInput" where
  "resolve_input d ui =
     (if ui_status ui = InAnswered \<and> us_answers d = [] then ui
      else ui\<lparr>ui_answers := normalizeUserInputAnswers (ui_questions ui) (us_answers d),
              ui_status := (case us_outcome d of
                Some OutcomeAnswered \<Rightarrow> InAnswered | Some OutcomeSkipped \<Rightarrow> InSkipped
              | None \<Rightarrow> if us_answers d \<noteq> [] then InAnswered else InSkipped)\<rparr>)"

definition applyUserInputResolved :: "DurableTurnSnapshot \<Rightarrow> UserInputResolved \<Rightarrow> DurableTurnSnapshot" where
  "applyUserInputResolved s d =
     (let iid = default_to (us_interactionId d) (userInputInteractionId (n_turnId s) (us_requestId d))
      in set_blocks (map (\<lambda>b. case b of
             (i, UserInputBlock r (Some ui) off) \<Rightarrow>
               if ui_interactionId ui = iid then (i, UserInputBlock r (Some (resolve_input d ui)) off) else b
           | _ \<Rightarrow> b) (m_blocks (n_assistantMessage s))) s)"

definition spread_node_metadata :: "ExtractedTurnMetadata \<Rightarrow> ExtractedTurnMetadata \<Rightarrow> ExtractedTurnMetadata" where
  \<comment> \<open>\<open>{ ...a, ...b }\<close>\<close>
  "spread_node_metadata a b = \<lparr>t_title = nullish (t_title b) (t_title a),
     t_followUps = nullish (t_followUps b) (t_followUps a),
     t_branchOverview = nullish (t_branchOverview b) (t_branchOverview a)\<rparr>"

definition end_turn ::
  "int \<Rightarrow> DurableTurnSnapshot \<Rightarrow> bool \<Rightarrow> int option \<Rightarrow> int option \<Rightarrow> DurableTurnSnapshot" where
  \<comment> \<open>What the branches \<open>done\<close> and \<open>error\<close> share.\<close>
  "end_turn now s interrupted completedAt observedAt =
     (let assistantMessage = finalizeMessage now (n_assistantMessage s) interrupted (nullish completedAt observedAt);
          rawAnswer = rawAnswerContent (m_blocks assistantMessage)
      in s\<lparr>n_completedAt := completedAt,
           n_nodeMetadata := spread_node_metadata (extractTurnMetadata rawAnswer) (n_nodeMetadata s),
           n_assistantMessage := assistantMessage\<lparr>m_content := finalizeTurnContent rawAnswer\<rparr>\<rparr>)"

definition done_status :: "jstr option \<Rightarrow> turn_status" where
  "done_status stopReason =
     (if stopReason = Some (js ''cancel'') \<or> stopReason = Some (js ''cancelled'') then TurnCancelled
      else if stopReason = Some (js ''error'') then TurnError else TurnCompleted)"

definition applySteer :: "DurableTurnSnapshot \<Rightarrow> SteerAccepted \<Rightarrow> int option \<Rightarrow> DurableTurnSnapshot" where
  "applySteer s d seq = (case steeredUserMessage d (Some (n_assistantId s)) seq of
     None \<Rightarrow> s
   | Some message \<Rightarrow>
       if m_id message \<in> m_id ` set (default_to (n_steeredMessages s) []) then s
       else s\<lparr>n_steeredMessages := Some (default_to (n_steeredMessages s) [] @ [message])\<rparr>)"

definition set_roster :: "SubagentInfo list option \<Rightarrow> DurableTurnSnapshot \<Rightarrow> DurableTurnSnapshot" where
  "set_roster r s = s\<lparr>n_assistantMessage := (n_assistantMessage s)\<lparr>m_subagents := r\<rparr>\<rparr>"

definition set_node_metadata :: "(ExtractedTurnMetadata \<Rightarrow> ExtractedTurnMetadata) \<Rightarrow> DurableTurnSnapshot \<Rightarrow> DurableTurnSnapshot" where
  "set_node_metadata f s = s\<lparr>n_nodeMetadata := f (n_nodeMetadata s)\<rparr>"

definition applyPayload :: "int \<Rightarrow> DurableTurnSnapshot \<Rightarrow> ChatStreamEvent \<Rightarrow> DurableTurnSnapshot" where
  \<comment> \<open>The switch of \<open>applyTurnEvent\<close>.\<close>
  "applyPayload now s e = (case v_data e of
     SteerAcceptedEvent d \<Rightarrow> applySteer s d (v_seq e)
   | Chunk text \<Rightarrow> set_blocks (appendText s AnswerSection text (v_observedAt e)) s
   | Thought text \<Rightarrow> set_blocks (appendText s ThinkingSection text (v_observedAt e)) s
   | SteeringReportEvent reports \<Rightarrow> set_metadata (\<lambda>m. m\<lparr>dm_steeringReports :=
       Some (mergeSteeringReports (dm_steeringReports m) reports)\<rparr>) s
   | Plan entries \<Rightarrow> s\<lparr>n_assistantMessage := (n_assistantMessage s)\<lparr>m_plan := Some entries\<rparr>\<rparr>
   | ToolCall d \<Rightarrow> s\<lparr>n_assistantMessage := applyTool s d (v_observedAt e)\<rparr>
   | ToolCallUpdate d \<Rightarrow> s\<lparr>n_assistantMessage := applyTool s d (v_observedAt e)\<rparr>
   | UserInputRequest d \<Rightarrow> applyUserInputRequest s d (v_observedAt e)
   | UserInputResolvedEvent d \<Rightarrow> applyUserInputResolved s d
   | UsageSummaryEvent _ \<Rightarrow> set_metadata (\<lambda>m. m\<lparr>dm_usageSummary := Some e\<rparr>) s
   | Warning _ \<Rightarrow> set_metadata (\<lambda>m. m\<lparr>dm_warnings := Some (default_to (dm_warnings m) [] @ [e])\<rparr>) s
   | SubagentListUpdate patches \<Rightarrow>
       if patches = [] then s
       else set_roster (Some (mergeSubagentRoster (m_subagents (n_assistantMessage s)) patches now)) s
   | SubagentToolActivity d \<Rightarrow>
       set_roster (applySubagentActivity (m_subagents (n_assistantMessage s)) d now) s
   | Image d \<Rightarrow> push_block (ImageBlock \<lparr>g_workspaceId = n_workspaceId s, g_path = im_path d,
       g_caption = im_caption d, g_mimeType = im_mimeType d, g_size = im_size d\<rparr>) (v_observedAt e) s
   | Title t \<Rightarrow> if js_trim t \<noteq> [] then set_node_metadata (\<lambda>m. m\<lparr>t_title := Some (js_trim t)\<rparr>) s else s
   | FollowUps fs \<Rightarrow> set_node_metadata (\<lambda>m. m\<lparr>t_followUps :=
       Some (take 3 (filter (\<lambda>v. v \<noteq> []) (map js_trim fs)))\<rparr>) s
   | BranchOverview t \<Rightarrow>
       if js_trim t \<noteq> [] then set_node_metadata (\<lambda>m. m\<lparr>t_branchOverview := Some (js_trim t)\<rparr>) s else s
   | Done d \<Rightarrow>
       (let status = done_status (do_stopReason d)
        in (end_turn now s (status \<noteq> TurnCompleted) (do_completedAt d) (v_observedAt e))
             \<lparr>n_status := status, n_stopReason := do_stopReason d\<rparr>)
   | Error d \<Rightarrow> (end_turn now s True (er_completedAt d) (v_observedAt e))
       \<lparr>n_status := TurnError, n_error := Some (er_message d)\<rparr>
   | _ \<Rightarrow> s)"

definition applyTurnEvent :: "int \<Rightarrow> DurableTurnSnapshot \<Rightarrow> ChatStreamEvent \<Rightarrow> DurableTurnSnapshot" where
  "applyTurnEvent now snapshot e = (case v_seq e of
     None \<Rightarrow> applyPayload now snapshot e
   | Some seq \<Rightarrow> if seq \<le> n_lastAppliedSeq snapshot then snapshot
       else applyPayload now (snapshot\<lparr>n_lastAppliedSeq := seq\<rparr>) e)"

section \<open>Lemmas: the watermark\<close>

lemmas setter_defs = set_blocks_def set_metadata_def set_roster_def set_node_metadata_def

lemma set_blocks_frame [simp]:
  "n_assistantId (set_blocks bs s) = n_assistantId s"
  "m_blocks (n_assistantMessage (set_blocks bs s)) = bs"
  "m_toolCalls (n_assistantMessage (set_blocks bs s)) = m_toolCalls (n_assistantMessage s)"
  "n_lastAppliedSeq (set_blocks bs s) = n_lastAppliedSeq s"
  "n_steeredMessages (set_blocks bs s) = n_steeredMessages s"
  by (simp_all add: set_blocks_def)

lemma end_turn_frame [simp]:
  "n_assistantId (end_turn now s i c at) = n_assistantId s"
  "n_lastAppliedSeq (end_turn now s i c at) = n_lastAppliedSeq s"
  "n_steeredMessages (end_turn now s i c at) = n_steeredMessages s"
  by (simp_all add: end_turn_def Let_def)

lemma applyPayload_frame [simp]:
  "n_lastAppliedSeq (applyPayload now s e) = n_lastAppliedSeq s"
  "n_assistantId (applyPayload now s e) = n_assistantId s"
  by (cases "v_data e";
      simp add: applyPayload_def setter_defs push_block_def applySteer_def applyUserInputRequest_def
        applyUserInputResolved_def Let_def split: option.split)+

lemma applyTurnEvent_frame: "n_assistantId (applyTurnEvent now s e) = n_assistantId s"
  by (simp add: applyTurnEvent_def split: option.split)

text \<open>A delivery is a frame with the time at which it is folded.\<close>

definition deliver :: "DurableTurnSnapshot \<Rightarrow> int \<times> ChatStreamEvent \<Rightarrow> DurableTurnSnapshot" where
  "deliver s te = applyTurnEvent (fst te) s (snd te)"

interpretation turn_log: watermarked_log deliver "\<lambda>te. v_seq (snd te)" n_lastAppliedSeq
  by unfold_locales (simp_all add: deliver_def applyTurnEvent_def)

section \<open>Lemmas: blocks\<close>

definition closed_block :: "DurableAssistantBlock \<Rightarrow> bool" where
  "closed_block b = (case snd b of TextBlock _ x \<Rightarrow> x_streaming x = Some False | _ \<Rightarrow> True)"

definition tool_refs :: "DurableAssistantBlock list \<Rightarrow> (jstr \<times> nat option) list" where
  "tool_refs bs = concat (map (\<lambda>b. case snd b of ToolBlock i _ off \<Rightarrow> [(i, Some off)] | _ \<Rightarrow> []) bs)"

definition interaction_ids :: "DurableAssistantBlock list \<Rightarrow> jstr list" where
  "interaction_ids bs = concat (map (\<lambda>b. case snd b of UserInputBlock _ (Some ui) _ \<Rightarrow> [ui_interactionId ui] | _ \<Rightarrow> []) bs)"

definition section_text :: "section_kind \<Rightarrow> DurableAssistantBlock list \<Rightarrow> jstr" where
  "section_text k bs = concat (map (\<lambda>b. case snd b of TextBlock k' x \<Rightarrow> if k' = k then x_rawText x else [] | _ \<Rightarrow> []) bs)"

lemma rawAnswer_section: "rawAnswerContent bs = section_text AnswerSection bs"
  unfolding rawAnswerContent_def section_text_def
  by (rule arg_cong [where f = concat], rule map_cong [OF refl]) (simp split: block_body.split section_kind.split)

lemmas block_views = tool_refs_def interaction_ids_def section_text_def

lemma block_views_append [simp]:
  "tool_refs (a @ b) = tool_refs a @ tool_refs b"
  "interaction_ids (a @ b) = interaction_ids a @ interaction_ids b"
  "section_text k (a @ b) = section_text k a @ section_text k b"
  by (simp_all add: block_views)

lemma block_views_one [simp]:
  "tool_refs [(i, TextBlock k x)] = []" "tool_refs [(i, ToolBlock t k off)] = [(t, Some off)]"
  "tool_refs [(i, UserInputBlock r u off)] = []" "tool_refs [(i, ImageBlock g)] = []"
  "interaction_ids [(i, TextBlock k x)] = []" "interaction_ids [(i, ToolBlock t k off)] = []"
  "interaction_ids [(i, UserInputBlock r (Some ui) off)] = [ui_interactionId ui]"
  "interaction_ids [(i, ImageBlock g)] = []"
  "section_text k' [(i, TextBlock k x)] = (if k = k' then x_rawText x else [])"
  "section_text k' [(i, ToolBlock t k off)] = []"
  "section_text k' [(i, UserInputBlock r u off)] = []" "section_text k' [(i, ImageBlock g)] = []"
  by (simp_all add: block_views)

text \<open>A change of one block that keeps its id and what the views read.\<close>

definition same_block :: "DurableAssistantBlock \<Rightarrow> DurableAssistantBlock \<Rightarrow> bool" where
  "same_block b c \<longleftrightarrow> fst b = fst c \<and> tool_refs [b] = tool_refs [c] \<and> interaction_ids [b] = interaction_ids [c]
     \<and> section_text AnswerSection [b] = section_text AnswerSection [c]
     \<and> section_text ThinkingSection [b] = section_text ThinkingSection [c]"

lemma same_block_refl [simp]: "same_block b b"
  by (simp add: same_block_def)

lemma view_Cons:
  "tool_refs (b # bs) = tool_refs [b] @ tool_refs bs"
  "interaction_ids (b # bs) = interaction_ids [b] @ interaction_ids bs"
  "section_text k (b # bs) = section_text k [b] @ section_text k bs"
  by (simp_all add: block_views)

lemma same_blocks_views:
  assumes "list_all2 same_block bs cs"
  shows "map fst bs = map fst cs" and "tool_refs bs = tool_refs cs"
    and "interaction_ids bs = interaction_ids cs" and "section_text k bs = section_text k cs"
proof -
  have "map fst bs = map fst cs \<and> tool_refs bs = tool_refs cs \<and> interaction_ids bs = interaction_ids cs
      \<and> section_text k bs = section_text k cs"
    using assms
  proof induction
    case (Cons b bs c cs)
    then show ?case
      using view_Cons(1,2) [of b bs] view_Cons(1,2) [of c cs] view_Cons(3) [of k b bs] view_Cons(3) [of k c cs]
      by (cases k) (simp_all add: same_block_def)
  qed simp
  then show "map fst bs = map fst cs" "tool_refs bs = tool_refs cs" "interaction_ids bs = interaction_ids cs"
    "section_text k bs = section_text k cs" by simp_all
qed

lemma closeTrailing_same: "list_all2 same_block bs (closeTrailingTextBlock bs at)"
proof (cases bs rule: rev_cases)
  case (snoc ys b)
  have "list_all2 same_block (ys @ [b]) (ys @ [(i, TextBlock k (close_text at x))])" if "b = (i, TextBlock k x)" for i k x
    using that by (auto simp: list_all2_append list_all2_refl same_block_def close_text_def)
  then show ?thesis using snoc
    by (auto simp: closeTrailingTextBlock_def list_all2_refl split: prod.split block_body.split)
qed (simp add: closeTrailingTextBlock_def)

lemmas closeTrailing_views = same_blocks_views [OF closeTrailing_same, symmetric]

lemma length_closeTrailing [simp]: "length (closeTrailingTextBlock bs at) = length bs"
  using list_all2_lengthD [OF closeTrailing_same] by simp

lemma closeTrailing_closes:
  assumes "list_all closed_block (butlast bs)"
  shows "list_all closed_block (closeTrailingTextBlock bs at)"
proof (cases bs rule: rev_cases)
  case (snoc ys b)
  with assms show ?thesis
    by (cases b; cases "snd b") (auto simp: closeTrailingTextBlock_def closed_block_def close_text_def)
qed (simp add: closeTrailingTextBlock_def)

section \<open>The invariant of a snapshot\<close>

definition blocks_ok :: "jstr \<Rightarrow> DurableAssistantBlock list \<Rightarrow> bool" where
  "blocks_ok aid bs \<longleftrightarrow> map fst bs = map (block_id aid) [0..<length bs]
     \<and> list_all closed_block (butlast bs) \<and> distinct (interaction_ids bs)"

definition tools_ok :: "DurableAssistantBlock list \<Rightarrow> DurableToolCall list \<Rightarrow> bool" where
  "tools_ok bs tools \<longleftrightarrow> tool_refs bs = map (\<lambda>t. (d_id t, d_textOffset t)) tools \<and> distinct (map d_id tools)"

definition snapshot_ok :: "DurableTurnSnapshot \<Rightarrow> bool" where
  "snapshot_ok s \<longleftrightarrow> blocks_ok (n_assistantId s) (m_blocks (n_assistantMessage s))
     \<and> tools_ok (m_blocks (n_assistantMessage s)) (m_toolCalls (n_assistantMessage s))
     \<and> distinct (map m_id (default_to (n_steeredMessages s) []))"

lemma blocks_ok_snoc:
  assumes "blocks_ok aid bs" and "distinct (interaction_ids bs @ interaction_ids [(block_id aid (length bs), b)])"
  shows "blocks_ok aid (closeTrailingTextBlock bs at @ [(block_id aid (length bs), b)])"
  using assms closeTrailing_closes [of bs at] by (simp add: blocks_ok_def closeTrailing_views)

lemma blocks_ok_same:
  assumes "list_all2 same_block bs cs" and "list_all closed_block (butlast cs)" and "blocks_ok aid bs"
  shows "blocks_ok aid cs"
  using assms same_blocks_views [OF assms(1)] list_all2_lengthD [OF assms(1)]
  by (simp add: blocks_ok_def)

lemma tools_ok_same: "list_all2 same_block bs cs \<Longrightarrow> tools_ok bs tools \<Longrightarrow> tools_ok cs tools"
  using same_blocks_views by (simp add: tools_ok_def)

lemma last_text_split:
  "bs \<noteq> [] \<Longrightarrow> last bs = b \<Longrightarrow> bs = butlast bs @ [b]"
  by (metis append_butlast_last_id)

lemma appendText_cases:
  obtains (fresh) bs where "bs = closeTrailingTextBlock (m_blocks (n_assistantMessage s)) at"
      "appendText s k t at = bs @ [(block_id (n_assistantId s) (length (m_blocks (n_assistantMessage s))),
         TextBlock k \<lparr>x_rawText = t, x_streaming = Some True, x_startedAt = at, x_endedAt = None\<rparr>)]"
  | (grow) ys i x where "m_blocks (n_assistantMessage s) = ys @ [(i, TextBlock k x)]"
      "appendText s k t at = ys @ [(i, TextBlock k (x\<lparr>x_rawText := x_rawText x @ t, x_streaming := Some True\<rparr>))]"
proof (cases "\<exists>i x. m_blocks (n_assistantMessage s) \<noteq> [] \<and> last (m_blocks (n_assistantMessage s)) = (i, TextBlock k x)")
  case True
  then obtain i x where l: "m_blocks (n_assistantMessage s) \<noteq> []" "last (m_blocks (n_assistantMessage s)) = (i, TextBlock k x)"
    by blast
  with last_text_split [OF l] show ?thesis by (intro grow) (auto simp: appendText_def Let_def)
next
  case False
  then show ?thesis
    by (intro fresh [OF refl]) (auto simp: appendText_def Let_def nextBlockId_def split: prod.split block_body.split)
qed

lemma appendText_section:
  "section_text k' (appendText s k t at) = section_text k' (m_blocks (n_assistantMessage s)) @ (if k = k' then t else [])"
  by (rule appendText_cases [of s at k t]) (auto simp: closeTrailing_views)

lemma appendText_ok:
  assumes "snapshot_ok s"
  shows "snapshot_ok (set_blocks (appendText s k t at) s)"
proof (rule appendText_cases [of s at k t])
  fix bs
  assume "bs = closeTrailingTextBlock (m_blocks (n_assistantMessage s)) at"
    and eq: "appendText s k t at = bs @ [(block_id (n_assistantId s) (length (m_blocks (n_assistantMessage s))),
         TextBlock k \<lparr>x_rawText = t, x_streaming = Some True, x_startedAt = at, x_endedAt = None\<rparr>)]"
  then show ?thesis using assms blocks_ok_snoc [of "n_assistantId s" "m_blocks (n_assistantMessage s)"]
    by (auto simp: snapshot_ok_def tools_ok_def closeTrailing_views blocks_ok_def [of _ "m_blocks _"])
next
  fix ys i x
  assume "m_blocks (n_assistantMessage s) = ys @ [(i, TextBlock k x)]"
    and "appendText s k t at = ys @ [(i, TextBlock k (x\<lparr>x_rawText := x_rawText x @ t, x_streaming := Some True\<rparr>))]"
  then show ?thesis using assms by (simp add: snapshot_ok_def tools_ok_def blocks_ok_def)
qed

lemma push_block_ok:
  assumes "snapshot_ok s"
    and "\<And>i. tool_refs [(i, b)] = []"
    and "\<And>i. distinct (interaction_ids (m_blocks (n_assistantMessage s)) @ interaction_ids [(i, b)])"
  shows "snapshot_ok (push_block b at s)"
proof -
  have "blocks_ok (n_assistantId s) (m_blocks (n_assistantMessage s))" using assms(1) by (simp add: snapshot_ok_def)
  from blocks_ok_snoc [OF this assms(3), of at] assms(1,2) show ?thesis
    by (simp add: snapshot_ok_def tools_ok_def push_block_def Let_def nextBlockId_def closeTrailing_views)
qed

lemma mergeTool_frame [simp]:
  "d_id (mergeTool (Some p) u at) = d_id p" "d_textOffset (mergeTool (Some p) u at) = d_textOffset p"
  "d_id (mergeTool None u at) = tc_toolCallId u"
  by (simp_all add: mergeTool_def Let_def)

lemma applyTool_ok:
  assumes "snapshot_ok s"
  shows "snapshot_ok (s\<lparr>n_assistantMessage := applyTool s u at\<rparr>)"
proof (cases "find_index (\<lambda>tool. d_id tool = tc_toolCallId u) (m_toolCalls (n_assistantMessage s))")
  case None
  then have "tc_toolCallId u \<notin> set (map d_id (m_toolCalls (n_assistantMessage s)))"
    by (auto simp: find_index_None)
  then show ?thesis using None assms blocks_ok_snoc [of "n_assistantId s" "m_blocks (n_assistantMessage s)"]
    by (simp add: snapshot_ok_def tools_ok_def applyTool_def Let_def nextBlockId_def closeTrailing_views
        blocks_ok_def [of _ "m_blocks _"])
next
  case (Some i)
  let ?ts = "m_toolCalls (n_assistantMessage s)"
  have i: "i < length ?ts" using find_index_Some [OF Some] by simp
  have "map (\<lambda>t. (d_id t, d_textOffset t)) (?ts[i := mergeTool (Some (?ts ! i)) u at]) = map (\<lambda>t. (d_id t, d_textOffset t)) ?ts"
    and "map d_id (?ts[i := mergeTool (Some (?ts ! i)) u at]) = map d_id ?ts"
    using i by (simp_all add: map_update list_update_same_conv)
  then show ?thesis using Some assms by (simp add: snapshot_ok_def tools_ok_def applyTool_def Let_def)
qed

lemma applyUserInputRequest_ok:
  assumes "snapshot_ok s"
  shows "snapshot_ok (applyUserInputRequest s d at)"
proof -
  let ?iid = "default_to (ur_interactionId d) (userInputInteractionId (n_turnId s) (ur_requestId d))"
  let ?bs = "m_blocks (n_assistantMessage s)"
  have ids: "list_ex (interaction_is iid) bs \<longleftrightarrow> iid \<in> set (interaction_ids bs)" for iid bs
    by (induction bs) (auto simp: interaction_is_def interaction_ids_def split: block_body.split option.split)
  have d: "distinct (interaction_ids ?bs)" using assms by (simp add: snapshot_ok_def blocks_ok_def)
  show ?thesis
  proof (cases "list_ex (interaction_is ?iid) ?bs")
    case True
    with assms show ?thesis by (simp add: applyUserInputRequest_def)
  next
    case False
    with ids [of ?iid ?bs] d have "distinct (interaction_ids ?bs @ [?iid])" by simp
    then have "snapshot_ok (push_block (UserInputBlock (ur_requestId d)
                (Some \<lparr>ui_interactionId = ?iid, ui_requestId = ur_requestId d,
                  ui_questions = normalizeUserInputQuestions ?iid (ur_questions d), ui_answers = [],
                  ui_status = InPending\<rparr>) (currentRunLength ?bs AnswerSection)) at s)"
      by (intro push_block_ok [OF assms]) simp_all
    with False show ?thesis by (simp add: applyUserInputRequest_def Let_def)
  qed
qed

text \<open>Maps over the blocks that keep the id and the views of each block.\<close>

lemma map_blocks_ok:
  assumes "snapshot_ok s" and "\<And>b. same_block b (f b)" and "\<And>b. closed_block b \<Longrightarrow> closed_block (f b)"
  shows "snapshot_ok (set_blocks (map f (m_blocks (n_assistantMessage s))) s)"
proof -
  let ?bs = "m_blocks (n_assistantMessage s)"
  have same: "list_all2 same_block ?bs (map f ?bs)" using assms(2) by (simp add: list_all2_conv_all_nth)
  have "list_all closed_block (butlast (map f ?bs))"
    using assms(1,3) by (auto simp: snapshot_ok_def blocks_ok_def list_all_iff map_butlast [symmetric])
  with same assms(1) blocks_ok_same [OF same] tools_ok_same [OF same] show ?thesis
    by (simp add: snapshot_ok_def)
qed

lemma resolve_input_id [simp]: "ui_interactionId (resolve_input d ui) = ui_interactionId ui"
  by (simp add: resolve_input_def)

lemma applyUserInputResolved_ok: "snapshot_ok s \<Longrightarrow> snapshot_ok (applyUserInputResolved s d)"
  unfolding applyUserInputResolved_def Let_def
  by (rule map_blocks_ok)
    (auto simp: same_block_def closed_block_def split: prod.splits block_body.splits option.splits)

lemma finalize_body_same: "same_block (i, b) (i, finalize_body at b)"
  by (auto simp: same_block_def finalize_body_def split: block_body.split option.split)

lemma finalize_body_closed: "closed_block (i, finalize_body at b)"
  by (auto simp: closed_block_def finalize_body_def split: block_body.split option.split)

lemma finalize_tool_frame [simp]:
  "d_id (finalize_tool st at t) = d_id t" "d_textOffset (finalize_tool st at t) = d_textOffset t"
  by (simp_all add: finalize_tool_def)

lemma finalizeMessage_blocks:
  "list_all2 same_block (m_blocks m) (m_blocks (finalizeMessage now m i at))"
  "list_all closed_block (m_blocks (finalizeMessage now m i at))"
  by (auto simp: finalizeMessage_def list_all2_conv_all_nth finalize_body_same finalize_body_closed
      list_all_length split: prod.split)

lemma end_turn_ok:
  assumes "snapshot_ok s"
  shows "snapshot_ok (end_turn now s i c at)"
proof -
  let ?m = "n_assistantMessage s" and ?at = "nullish c at"
  note same = finalizeMessage_blocks(1) [of ?m now i ?at]
  have "list_all closed_block (butlast (m_blocks (finalizeMessage now ?m i ?at)))"
    using finalizeMessage_blocks(2) [of now ?m i ?at] by (auto simp: list_all_iff dest: in_set_butlastD)
  with blocks_ok_same [OF same] tools_ok_same [OF same] assms
  have "blocks_ok (n_assistantId s) (m_blocks (finalizeMessage now ?m i ?at))"
    "tools_ok (m_blocks (finalizeMessage now ?m i ?at)) (m_toolCalls ?m)" by (simp_all add: snapshot_ok_def)
  moreover have "map (\<lambda>t. (d_id t, d_textOffset t)) (m_toolCalls (finalizeMessage now ?m i ?at)) =
      map (\<lambda>t. (d_id t, d_textOffset t)) (m_toolCalls ?m)"
    "map d_id (m_toolCalls (finalizeMessage now ?m i ?at)) = map d_id (m_toolCalls ?m)"
    by (simp_all add: finalizeMessage_def)
  ultimately show ?thesis using assms by (simp add: snapshot_ok_def tools_ok_def end_turn_def Let_def)
qed

lemma applySteer_ok: "snapshot_ok s \<Longrightarrow> snapshot_ok (applySteer s d seq)"
  by (auto simp: snapshot_ok_def applySteer_def split: option.split)

lemma snapshot_ok_cong:
  "n_assistantId s = n_assistantId t \<Longrightarrow> m_blocks (n_assistantMessage s) = m_blocks (n_assistantMessage t) \<Longrightarrow>
   m_toolCalls (n_assistantMessage s) = m_toolCalls (n_assistantMessage t) \<Longrightarrow>
   n_steeredMessages s = n_steeredMessages t \<Longrightarrow> snapshot_ok s = snapshot_ok t"
  by (simp add: snapshot_ok_def)

text \<open>Updates of the fields that the invariant does not read.\<close>

lemma snapshot_ok_other [simp]:
  "snapshot_ok (set_metadata f s) = snapshot_ok s" "snapshot_ok (set_roster r s) = snapshot_ok s"
  "snapshot_ok (set_node_metadata g s) = snapshot_ok s"
  "snapshot_ok (s\<lparr>n_assistantMessage := (n_assistantMessage s)\<lparr>m_plan := p\<rparr>\<rparr>) = snapshot_ok s"
  "snapshot_ok (s\<lparr>n_lastAppliedSeq := n\<rparr>) = snapshot_ok s"
  "snapshot_ok (s\<lparr>n_status := st, n_stopReason := sr\<rparr>) = snapshot_ok s"
  "snapshot_ok (s\<lparr>n_status := st, n_error := er\<rparr>) = snapshot_ok s"
  by (rule snapshot_ok_cong; simp add: setter_defs)+

lemma applyPayload_ok: "snapshot_ok s \<Longrightarrow> snapshot_ok (applyPayload now s e)"
  by (cases "v_data e")
    (simp_all add: applyPayload_def appendText_ok applyTool_ok applyUserInputRequest_ok
      applyUserInputResolved_ok applySteer_ok end_turn_ok Let_def
      push_block_ok snapshot_ok_def [of s] blocks_ok_def [of "n_assistantId s"])

lemma deliver_ok: "snapshot_ok s \<Longrightarrow> snapshot_ok (deliver s te)"
  by (simp add: deliver_def applyTurnEvent_def applyPayload_ok split: option.split)

interpretation turn_machine: invariant_machine deliver "\<lambda>_. True" snapshot_ok
  by unfold_locales (rule deliver_ok)

lemma createDurableTurn_ok: "snapshot_ok (createDurableTurn input)"
  by (simp add: createDurableTurn_def snapshot_ok_def blocks_ok_def tools_ok_def block_views)

section \<open>The text of a turn\<close>

text \<open>The specification: the frames that count, and the text of a section in them.\<close>

fun accepted :: "int \<Rightarrow> ChatStreamEvent list \<Rightarrow> ChatStreamEvent list" where
  "accepted mark [] = []"
| "accepted mark (e # es) = (case v_seq e of
     None \<Rightarrow> e # accepted mark es
   | Some n \<Rightarrow> if n \<le> mark then accepted mark es else e # accepted n es)"

definition event_text :: "section_kind \<Rightarrow> ChatStreamEvent \<Rightarrow> jstr" where
  "event_text k e = (case v_data e of Chunk t \<Rightarrow> if k = AnswerSection then t else []
     | Thought t \<Rightarrow> if k = ThinkingSection then t else [] | _ \<Rightarrow> [])"

definition turn_text :: "section_kind \<Rightarrow> DurableTurnSnapshot \<Rightarrow> jstr" where
  "turn_text k s = section_text k (m_blocks (n_assistantMessage s))"

lemma push_block_text: "(\<And>i. section_text k [(i, b)] = []) \<Longrightarrow> turn_text k (push_block b at s) = turn_text k s"
  by (simp add: turn_text_def push_block_def Let_def closeTrailing_views)

lemma applyTool_text: "section_text k (m_blocks (applyTool s u at)) = section_text k (m_blocks (n_assistantMessage s))"
  by (simp add: applyTool_def Let_def closeTrailing_views split: option.split)

lemma end_turn_text: "turn_text k (end_turn now s i c at) = turn_text k s"
  using same_blocks_views(4) [OF finalizeMessage_blocks(1)] by (simp add: turn_text_def end_turn_def Let_def)

lemma resolved_text: "turn_text k (applyUserInputResolved s d) = turn_text k s"
  unfolding turn_text_def applyUserInputResolved_def Let_def set_blocks_frame
  by (rule same_blocks_views(4) [symmetric])
    (auto simp: list_all2_conv_all_nth same_block_def split: prod.splits block_body.splits option.splits)

lemma setters_text [simp]:
  "turn_text k (set_blocks bs s) = section_text k bs" "turn_text k (set_metadata f s) = turn_text k s"
  "turn_text k (set_roster r s) = turn_text k s" "turn_text k (set_node_metadata g s) = turn_text k s"
  "turn_text k (s\<lparr>n_assistantMessage := m\<rparr>) = section_text k (m_blocks m)"
  "turn_text k (s\<lparr>n_status := st, n_stopReason := sr\<rparr>) = turn_text k s"
  "turn_text k (s\<lparr>n_status := st, n_error := er\<rparr>) = turn_text k s"
  "turn_text k (s\<lparr>n_lastAppliedSeq := n\<rparr>) = turn_text k s"
  "turn_text k (applySteer s d q) = turn_text k s"
  by (simp_all add: turn_text_def setter_defs applySteer_def split: option.split)

lemma applyPayload_text: "turn_text k (applyPayload now s e) = turn_text k s @ event_text k e"
proof (cases "v_data e")
  case (UserInputRequest d)
  then show ?thesis by (simp add: applyPayload_def event_text_def applyUserInputRequest_def Let_def push_block_text)
qed (simp_all add: applyPayload_def event_text_def appendText_section applyTool_text end_turn_text
    resolved_text push_block_text Let_def turn_text_def [symmetric])

lemma run_text:
  "turn_text k (foldl deliver s tes) = turn_text k s @ concat (map (event_text k) (accepted (n_lastAppliedSeq s) (map snd tes)))"
proof (induction tes arbitrary: s)
  case (Cons te tes)
  show ?case
  proof (cases "v_seq (snd te)")
    case None
    then show ?thesis by (simp add: Cons.IH) (simp add: deliver_def applyTurnEvent_def applyPayload_text)
  next
    case (Some n)
    then show ?thesis by (simp add: Cons.IH) (simp add: deliver_def applyTurnEvent_def applyPayload_text)
  qed
qed simp

text \<open>C5: redelivered frames change nothing: whatever frames arrived, delivering again frames whose
  sequence numbers were already delivered, at any time, leaves the snapshot as it is.\<close>

theorem redelivery_ignored:
  assumes "\<forall>te \<in> set dup. v_seq (snd te) \<noteq> None \<and> v_seq (snd te) \<in> (v_seq \<circ> snd) ` set tes"
  shows "foldl deliver s (tes @ dup) = foldl deliver s tes"
  by (rule turn_log.redelivery) (use assms in \<open>auto simp: image_def\<close>)

definition sample_turn :: DurableTurnSnapshot where
  "sample_turn = createDurableTurn \<lparr>c_turnId = js ''t1'', c_assistantId = js ''a1'', c_nodeId = js ''n1'',
     c_workspaceId = js ''w1'', c_displayUserText = js ''hi'', c_userMetadata = None,
     c_selfInitiated = False, c_keepUserMessage = False, c_startedAt = 5\<rparr>"

definition sample_frame :: "int \<Rightarrow> ChatStreamPayload \<Rightarrow> ChatStreamEvent" where
  "sample_frame n d = \<lparr>v_data = d, v_observedAt = Some (10 + n), v_chatId = None, v_nodeId = None, v_turnId = None,
     v_seq = Some n, v_assistantId = None, v_source = None, v_confidence = None, v_nativeMethod = None\<rparr>"

theorem redelivery_ignored_witness:
  "foldl deliver sample_turn ([(20, sample_frame 0 (Chunk (js ''a''))), (21, sample_frame 1 (Chunk (js ''b'')))] @
     [(22, sample_frame 0 (Chunk (js ''a'')))]) =
   foldl deliver sample_turn [(20, sample_frame 0 (Chunk (js ''a''))), (21, sample_frame 1 (Chunk (js ''b'')))]"
  by (rule redelivery_ignored) (simp add: sample_frame_def)

text \<open>Whatever frames arrive, in whatever order, a turn keeps its shape: block ids are the assistant id
  and the position, only the last block can still be streaming, the tool blocks are the tool calls in
  order with the same offset, and no tool call, question or steered message appears twice.\<close>

theorem turn_shape_kept: "snapshot_ok (foldl deliver (createDurableTurn input) tes)"
  by (rule turn_machine.inv_run) (simp_all add: createDurableTurn_ok list_all_iff)

text \<open>C8: the stored answer is the text that arrived: the answer blocks of a turn hold exactly the
  chunks of the frames above the watermark, in order, and the thinking blocks hold the thoughts.\<close>

theorem turn_text_is_arrived_text:
  "section_text k (m_blocks (n_assistantMessage (foldl deliver (createDurableTurn input) tes))) =
     concat (map (event_text k) (accepted (-1) (map snd tes)))"
  using run_text [of k "createDurableTurn input" tes]
  by (simp add: turn_text_def createDurableTurn_def block_views)

section \<open>Ends and answers\<close>

definition open_input :: "DurableAssistantBlock \<Rightarrow> bool" where
  "open_input b = (case snd b of UserInputBlock _ (Some ui) _ \<Rightarrow> ui_status ui = InPending | _ \<Rightarrow> False)"

definition message_settled :: "DurableMessage \<Rightarrow> bool" where
  \<comment> \<open>No text is streaming, no question is pending, no tool is active and no subagent is working.\<close>
  "message_settled m \<longleftrightarrow> list_all closed_block (m_blocks m) \<and> \<not> list_ex open_input (m_blocks m)
     \<and> list_all (\<lambda>t. \<not> isActiveToolStatus (d_status t)) (m_toolCalls m)
     \<and> list_all (\<lambda>i. s_status i = Terminated) (default_to (m_subagents m) [])"

lemma finalizeMessage_settled: "message_settled (finalizeMessage now m i at)"
proof -
  have "\<not> open_input (j, finalize_body at b)" for j b
    by (auto simp: open_input_def finalize_body_def split: block_body.splits option.splits)
  then have "\<not> list_ex open_input (m_blocks (finalizeMessage now m i at))"
    by (auto simp: finalizeMessage_def list_ex_iff)
  moreover have "\<not> isActiveToolStatus (d_status (finalize_tool (if i then js ''interrupted'' else js ''completed'') at t))" for t
    by (auto simp: finalize_tool_def isActiveToolStatus_def)
  moreover have "list_all (\<lambda>i. s_status i = Terminated) (default_to (m_subagents (finalizeMessage now m i at)) [])"
    by (cases "m_subagents m") (simp_all add: finalizeMessage_def finalizeSubagentRoster_def list_all_iff finalizeEntry_closed)
  ultimately show ?thesis using finalizeMessage_blocks(2) [of now m i at]
    by (simp add: message_settled_def) (simp add: finalizeMessage_def list_all_iff)
qed

definition ends_turn :: "ChatStreamEvent \<Rightarrow> bool" where
  "ends_turn e = (case v_data e of Done _ \<Rightarrow> True | Error _ \<Rightarrow> True | _ \<Rightarrow> False)"

definition above_mark :: "DurableTurnSnapshot \<Rightarrow> ChatStreamEvent \<Rightarrow> bool" where
  "above_mark s e = (case v_seq e of None \<Rightarrow> True | Some n \<Rightarrow> n_lastAppliedSeq s < n)"

lemma applyTurnEvent_above:
  "above_mark s e \<Longrightarrow> applyTurnEvent now s e =
     applyPayload now (s\<lparr>n_lastAppliedSeq := default_to (v_seq e) (n_lastAppliedSeq s)\<rparr>) e"
  by (auto simp: above_mark_def applyTurnEvent_def split: option.splits)

text \<open>The end of a turn leaves nothing open: after \<open>done\<close> or \<open>error\<close> the turn is not active, no text
  is streaming, no question is pending, no tool is active and no subagent is working, and the content
  shown is the final content of the answer that arrived.\<close>

theorem turn_end_settles:
  assumes "ends_turn e" and "above_mark s e"
  shows "n_status (applyTurnEvent now s e) \<noteq> TurnActive \<and>
    message_settled (n_assistantMessage (applyTurnEvent now s e)) \<and>
    checkpointTurnContent (applyTurnEvent now s e) =
      finalizeTurnContent (rawAnswerContent (m_blocks (n_assistantMessage s)))"
proof -
  let ?s = "s\<lparr>n_lastAppliedSeq := default_to (v_seq e) (n_lastAppliedSeq s)\<rparr>"
  have raw: "rawAnswerContent (m_blocks (finalizeMessage now m i at)) = rawAnswerContent (m_blocks m)" for m i at
    using same_blocks_views(4) [OF finalizeMessage_blocks(1)] by (simp add: rawAnswer_section)
  have settled: "message_settled (m\<lparr>m_content := c\<rparr>) = message_settled m" for m c
    by (simp add: message_settled_def)
  have ds: "done_status r \<noteq> TurnActive" for r by (simp add: done_status_def)
  from assms(1) consider d where "v_data e = Done d" | d where "v_data e = Error d"
    by (auto simp: ends_turn_def split: ChatStreamPayload.splits)
  then show ?thesis
    by cases (simp_all add: applyTurnEvent_above [OF assms(2)] applyPayload_def end_turn_def Let_def ds raw
        checkpointTurnContent_def settled finalizeMessage_settled)
qed

theorem turn_end_settles_witness:
  "n_status (applyTurnEvent 9 sample_turn (sample_frame 0 (Done \<lparr>do_stopReason = None, do_persisted = None, do_completedAt = None\<rparr>))) \<noteq> TurnActive"
  using turn_end_settles [of "sample_frame 0 (Done \<lparr>do_stopReason = None, do_persisted = None, do_completedAt = None\<rparr>)" sample_turn 9]
  by (simp add: ends_turn_def above_mark_def sample_frame_def sample_turn_def createDurableTurn_def)

text \<open>A block that is not text survives every frame; a question is changed only by its resolution or
  by the end of the turn.\<close>

lemma closeTrailing_keeps:
  assumes "(i, b) \<in> set bs" and "\<And>k x. b \<noteq> TextBlock k x"
  shows "(i, b) \<in> set (closeTrailingTextBlock bs at)"
proof (cases bs rule: rev_cases)
  case (snoc ys c)
  with assms show ?thesis
    by (cases c; cases "snd c") (auto simp: closeTrailingTextBlock_def)
qed (use assms in simp)

lemma appendText_keeps:
  assumes "(i, b) \<in> set (m_blocks (n_assistantMessage s))" and "\<And>k x. b \<noteq> TextBlock k x"
  shows "(i, b) \<in> set (appendText s k t at)"
  by (rule appendText_cases [of s at k t]) (use assms closeTrailing_keeps in auto)

definition answers_of :: "ChatStreamEvent \<Rightarrow> UserInputAnswer list" where
  "answers_of e = (case v_data e of UserInputResolvedEvent d \<Rightarrow> us_answers d | _ \<Rightarrow> [])"

lemma applyPayload_answered:
  assumes "(i, UserInputBlock r (Some ui) off) \<in> set (m_blocks (n_assistantMessage s))"
    and "ui_status ui = InAnswered" and "answers_of e = []"
  shows "(i, UserInputBlock r (Some ui) off) \<in> set (m_blocks (n_assistantMessage (applyPayload now s e)))"
proof -
  note kept = assms(1) closeTrailing_keeps [OF assms(1)] appendText_keeps [OF assms(1)]
  have "finalize_body at (UserInputBlock r (Some ui) off) = UserInputBlock r (Some ui) off" for at
    using assms(2) by (simp add: finalize_body_def)
  then have fin: "(i, UserInputBlock r (Some ui) off) \<in> set (m_blocks (finalizeMessage now (n_assistantMessage s) b at))" for b at
    using imageI [OF assms(1), of "\<lambda>(i, b). (i, finalize_body at b)"] by (simp add: finalizeMessage_def)
  show ?thesis
  proof (cases "v_data e")
    case (UserInputResolvedEvent d)
    have "resolve_input d ui = ui" using assms UserInputResolvedEvent by (simp add: resolve_input_def answers_of_def)
    then show ?thesis using assms(1) UserInputResolvedEvent
      by (force simp: applyPayload_def applyUserInputResolved_def Let_def)
  next
    case (Done d)
    then show ?thesis by (simp add: applyPayload_def end_turn_def Let_def fin)
  next
    case (Error d)
    then show ?thesis by (simp add: applyPayload_def end_turn_def Let_def fin)
  qed (use kept in \<open>auto simp: applyPayload_def setter_defs push_block_def applyTool_def applySteer_def
        applyUserInputRequest_def Let_def split: option.split\<close>)
qed

text \<open>A submitted answer is not erased: an answered question keeps its answers through every frame
  that does not itself carry answers, the end of the turn included.\<close>

theorem answered_input_kept:
  assumes "(i, UserInputBlock r (Some ui) off) \<in> set (m_blocks (n_assistantMessage s))"
    and "ui_status ui = InAnswered" and "list_all (\<lambda>te. answers_of (snd te) = []) tes"
  shows "(i, UserInputBlock r (Some ui) off) \<in> set (m_blocks (n_assistantMessage (foldl deliver s tes)))"
  using assms(1,3)
proof (induction tes arbitrary: s)
  case (Cons te tes)
  have "(i, UserInputBlock r (Some ui) off) \<in> set (m_blocks (n_assistantMessage (deliver s te)))"
    using Cons.prems assms(2) applyPayload_answered
    by (auto simp: deliver_def applyTurnEvent_def split: option.split)
  with Cons show ?case by simp
qed simp

definition sample_answered :: DurableUserInput where
  "sample_answered = \<lparr>ui_interactionId = js ''q'', ui_requestId = 1, ui_questions = [],
     ui_answers = [\<lparr>ua_id = None, ua_question = js ''q'', ua_answer = js ''yes''\<rparr>], ui_status = InAnswered\<rparr>"

theorem answered_input_kept_witness:
  "(js ''a1-b-0'', UserInputBlock 1 (Some sample_answered) 0) \<in> set (m_blocks (n_assistantMessage
     (foldl deliver (set_blocks [(js ''a1-b-0'', UserInputBlock 1 (Some sample_answered) 0)] sample_turn)
       [(9, sample_frame 0 (UserInputResolvedEvent \<lparr>us_requestId = 1, us_interactionId = Some (js ''q''),
          us_answers = [], us_outcome = None\<rparr>))])))"
  by (rule answered_input_kept) (simp_all add: sample_answered_def answers_of_def sample_frame_def)

end
