(* ===== verification/Js_Date.thy ===== *)
theory Js_Date
  imports Michi_Prelude
begin

text \<open>
  The part of JavaScript's \<open>Date\<close> that the sources use: \<open>Date.UTC\<close> and the UTC getters, on the
  proleptic Gregorian calendar with the day and year numbers of the language definition. Times are
  integer milliseconds; the limit of the time range, where \<open>Date\<close> gives NaN, is not modelled.
\<close>

definition ms_per_day :: int where
  "ms_per_day = 86400000"

definition day_from_year :: "int \<Rightarrow> int" where
  "day_from_year y = 365 * (y - 1970) + (y - 1969) div 4 - (y - 1901) div 100 + (y - 1601) div 400"

definition leap :: "int \<Rightarrow> bool" where
  "leap y \<longleftrightarrow> y mod 4 = 0 \<and> y mod 100 \<noteq> 0 \<or> y mod 400 = 0"

text \<open>The first day of month \<open>m\<close> (0 to 11) within its year.\<close>

definition month_start :: "bool \<Rightarrow> nat \<Rightarrow> int" where
  "month_start lp m = [0, 31, 59, 90, 120, 151, 181, 212, 243, 273, 304, 334, 365] ! m + (if lp \<and> 2 \<le> m then 1 else 0)"

definition make_day :: "int \<Rightarrow> int \<Rightarrow> int \<Rightarrow> int" where
  \<comment> \<open>\<open>MakeDay(year, month, date)\<close>: the month is counted from 0 and may overflow, as may the date.\<close>
  "make_day year month date =
     (let ym = year + month div 12 in day_from_year ym + month_start (leap ym) (nat (month mod 12)) + date - 1)"

definition full_year :: "int \<Rightarrow> int" where
  \<comment> \<open>\<open>MakeFullYear\<close>: \<open>Date.UTC\<close> reads the years 0 to 99 as 1900 to 1999.\<close>
  "full_year y = (if 0 \<le> y \<and> y \<le> 99 then 1900 + y else y)"

definition Date_UTC :: "int \<Rightarrow> int \<Rightarrow> int \<Rightarrow> int \<Rightarrow> int \<Rightarrow> int \<Rightarrow> int" where
  "Date_UTC year month date hour minute second =
     make_day (full_year year) month date * ms_per_day + hour * 3600000 + minute * 60000 + second * 1000"

text \<open>The year of a day: the quotient by the mean length of a year is off by at most one.\<close>

definition year_from_day :: "int \<Rightarrow> int" where
  "year_from_day n =
     (let y = 1970 + (400 * n) div 146097
      in if n < day_from_year y then y - 1 else if day_from_year (y + 1) \<le> n then y + 1 else y)"

definition month_from_day :: "int \<Rightarrow> nat" where
  "month_from_day n =
     (let y = year_from_day n
      in length (filter (\<lambda>m. month_start (leap y) m \<le> n - day_from_year y) [1..<12]))"

text \<open>Year, month (from 1) and date of a day number, and the weekday (0 is Sunday).\<close>

definition civil :: "int \<Rightarrow> int \<times> int \<times> int" where
  "civil n = (let y = year_from_day n; m = month_from_day n
     in (y, int m + 1, n - day_from_year y - month_start (leap y) m + 1))"

definition weekday :: "int \<Rightarrow> int" where
  "weekday n = (n + 4) mod 7"

definition month_length :: "bool \<Rightarrow> nat \<Rightarrow> int" where
  "month_length lp m = month_start lp (Suc m) - month_start lp m"

section \<open>Lemmas: years\<close>

lemma div_succ:
  assumes "0 < (k :: int)"
  shows "(x + 1) div k = x div k + (if (x + 1) mod k = 0 then 1 else 0)"
proof (cases "(x + 1) mod k = 0")
  case True
  then obtain q where q: "x + 1 = k * q" by (metis mod_0_imp_dvd dvdE)
  then have "x = k * (q - 1) + (k - 1)" by (simp add: algebra_simps)
  then have "x div k = q - 1" using assms by simp
  moreover have "(x + 1) div k = q" using q assms by simp
  ultimately show ?thesis using True by simp
next
  case False
  let ?r = "(x + 1) mod k" and ?q = "(x + 1) div k"
  have "x = k * ?q + (?r - 1)" by (metis add_diff_eq mult_div_mod_eq add_diff_cancel_right')
  moreover have "0 \<le> ?r - 1" "?r - 1 < k" using False assms pos_mod_bound [of k "x + 1"] pos_mod_sign [of k "x + 1"] by linarith+
  ultimately have "x div k = ?q" by (metis div_mult_self4 add.commute div_pos_pos_trivial add_0 assms less_irrefl)
  with False show ?thesis by simp
qed

lemma day_from_year_Suc: "day_from_year (y + 1) = day_from_year y + 365 + (if leap y then 1 else 0)"
proof -
  have step: "(y + 1 - c) div k = (y - c) div k + (if y mod k = 0 then 1 else 0)"
    if "0 < k" "(c - 1) mod k = 0" for c k
  proof -
    have "(y - (c - 1)) mod k = y mod k" using that(2) by (metis diff_zero mod_diff_right_eq)
    moreover have "y - c + 1 = y - (c - 1)" "y + 1 - c = y - c + 1" by simp_all
    ultimately show ?thesis using div_succ [OF that(1), of "y - c"] by metis
  qed
  have "y mod 400 = 0 \<Longrightarrow> y mod 100 = 0" "y mod 100 = 0 \<Longrightarrow> y mod 4 = 0"
    using dvd_trans [of 100 400 y] dvd_trans [of 4 100 y] by (simp_all add: dvd_eq_mod_eq_0)
  then have l: "(if leap y then 1 else 0) = (if y mod 4 = 0 then 1 else 0) - (if y mod 100 = 0 then 1 else 0) + (if y mod 400 = 0 then 1 else (0 :: int))"
    by (auto simp: leap_def)
  have "(y + 1 - 1969) div 4 = (y - 1969) div 4 + (if y mod 4 = 0 then 1 else 0)" by (rule step) simp_all
  moreover have "(y + 1 - 1901) div 100 = (y - 1901) div 100 + (if y mod 100 = 0 then 1 else 0)" by (rule step) simp_all
  moreover have "(y + 1 - 1601) div 400 = (y - 1601) div 400 + (if y mod 400 = 0 then 1 else 0)" by (rule step) simp_all
  moreover have "365 * (y + 1 - 1970) + (q4 + i4) - (q100 + i100) + (q400 + i400) =
      365 * (y - 1970) + q4 - q100 + q400 + 365 + (i4 - i100 + i400)" for q4 q100 q400 i4 i100 i400 :: int by simp
  ultimately show ?thesis unfolding l day_from_year_def by metis
qed

lemma year_from_day_bounds: "day_from_year (year_from_day n) \<le> n \<and> n < day_from_year (year_from_day n + 1)"
proof -
  define y where "y = 1970 + (400 * n) div 146097"
  have y1: "146097 * (y - 1970) \<le> 400 * n" "400 * n < 146097 * (y - 1970) + 146097"
    unfolding y_def using mult_div_mod_eq [of 146097 "400 * n"] pos_mod_bound [of 146097 "400 * n"] pos_mod_sign [of 146097 "400 * n"] by simp_all
  have fl: "k * ((x :: int) div k) \<le> x \<and> x < k * (x div k) + k" if "0 < k" for x k
    using that mult_div_mod_eq [of k x] pos_mod_bound [of k x] pos_mod_sign [of k x] by linarith
  have dev: "146097 * (z - 1970) - 600 \<le> 400 * day_from_year z" "400 * day_from_year z \<le> 146097 * (z - 1970) + 600" for z
    using fl [of 4 "z - 1969"] fl [of 100 "z - 1901"] fl [of 400 "z - 1601"]
    unfolding day_from_year_def by simp_all
  have "day_from_year (y - 1) \<le> n" using y1 dev [of "y - 1"] by (simp add: right_diff_distrib)
  moreover have "n < day_from_year (y + 2)" using y1 dev [of "y + 2"] by (simp add: algebra_simps)
  ultimately show ?thesis by (auto simp: year_from_day_def y_def [symmetric] Let_def add.commute)
qed

lemma day_from_year_mono: "y < z \<Longrightarrow> day_from_year (y + 1) \<le> day_from_year z"
proof -
  have "day_from_year y \<le> day_from_year (y + int k)" for y k
  proof (induction k)
    case (Suc k)
    with day_from_year_Suc [of "y + int k"] show ?case by (simp add: algebra_simps split: if_splits)
  qed simp
  from this [of "y + 1" "nat (z - (y + 1))"] show "y < z \<Longrightarrow> day_from_year (y + 1) \<le> day_from_year z" by simp
qed

lemma year_from_day_eq: "day_from_year y \<le> n \<Longrightarrow> n < day_from_year (y + 1) \<Longrightarrow> year_from_day n = y"
  using year_from_day_bounds [of n] day_from_year_mono [of y "year_from_day n"] day_from_year_mono [of "year_from_day n" y]
  by (cases "year_from_day n = y") (auto simp: neq_iff)

section \<open>Lemmas: months and dates\<close>

lemma less_12_cases: "m < (12 :: nat) \<Longrightarrow> m \<in> {0, 1, 2, 3, 4, 5, 6, 7, 8, 9, 10, 11}"
  by simp arith

lemma month_start_Suc: "m < 12 \<Longrightarrow> month_start lp m + 28 \<le> month_start lp (Suc m)"
  by (drule less_12_cases) (auto simp: month_start_def)

lemma month_start_ends [simp]: "month_start lp 0 = 0" "month_start lp 12 = (if lp then 366 else 365)"
  by (simp_all add: month_start_def)

lemma month_start_mono: "i \<le> j \<Longrightarrow> j \<le> 12 \<Longrightarrow> month_start lp i \<le> month_start lp j"
proof (induction j)
  case (Suc j)
  then show ?case using month_start_Suc [of j lp] by (cases "i = Suc j") auto
qed simp

lemma step_between: "f 0 \<le> (x :: int) \<Longrightarrow> x < f n \<Longrightarrow> \<exists>j < n. f j \<le> x \<and> x < f (Suc j)"
proof (induction n)
  case (Suc n)
  then show ?case by (cases "x < f n") (auto intro: less_SucI)
qed simp

lemma month_count:
  assumes "j < 12" and "month_start lp j \<le> x" and "x < month_start lp (Suc j)"
  shows "length (filter (\<lambda>m. month_start lp m \<le> x) [1..<12]) = j"
proof -
  have "filter (\<lambda>m. month_start lp m \<le> x) [1..<12] =
      filter (\<lambda>m. month_start lp m \<le> x) [1..<Suc j] @ filter (\<lambda>m. month_start lp m \<le> x) [Suc j..<12]"
    using upt_add_eq_append [of 1 "Suc j" "11 - j"] assms(1) by (simp flip: filter_append)
  moreover have "filter (\<lambda>m. month_start lp m \<le> x) [1..<Suc j] = [1..<Suc j]"
  proof (rule filter_True, rule ballI)
    fix m
    assume "m \<in> set [1..<Suc j]"
    then have "month_start lp m \<le> month_start lp j" using assms(1) by (intro month_start_mono) auto
    with assms(2) show "month_start lp m \<le> x" by simp
  qed
  moreover have "filter (\<lambda>m. month_start lp m \<le> x) [Suc j..<12] = []"
    using assms less_le_trans [OF _ month_start_mono [of "Suc j" _ lp]] by (simp add: filter_empty_conv not_le)
  ultimately show ?thesis by simp
qed

lemma month_from_day_bounds:
  fixes n
  defines "y \<equiv> year_from_day n"
  shows "month_from_day n < 12"
    and "month_start (leap y) (month_from_day n) \<le> n - day_from_year y"
    and "n - day_from_year y < month_start (leap y) (Suc (month_from_day n))"
proof -
  let ?x = "n - day_from_year y"
  have "month_start (leap y) 0 \<le> ?x" "?x < month_start (leap y) 12"
    using year_from_day_bounds [of n] day_from_year_Suc [of y] by (auto simp: y_def)
  then obtain j where j: "j < 12" "month_start (leap y) j \<le> ?x" "?x < month_start (leap y) (Suc j)"
    using step_between [of "month_start (leap y)" ?x 12] by blast
  then have "month_from_day n = j" using month_count [OF j] by (simp add: month_from_day_def y_def)
  with j show "month_from_day n < 12" "month_start (leap y) (month_from_day n) \<le> ?x"
    "?x < month_start (leap y) (Suc (month_from_day n))" by simp_all
qed

text \<open>A date of the calendar: month 1 to 12 and a day of that month.\<close>

definition valid_date :: "int \<Rightarrow> int \<Rightarrow> int \<Rightarrow> bool" where
  "valid_date y m d \<longleftrightarrow> 1 \<le> m \<and> m \<le> 12 \<and> 1 \<le> d \<and> d \<le> month_length (leap y) (nat (m - 1))"

lemma make_day_civil: "civil n = (y, m, d) \<Longrightarrow> make_day y (m - 1) d = n"
  using month_from_day_bounds [of n] by (auto simp: civil_def make_day_def Let_def)

lemma civil_valid: "civil n = (y, m, d) \<Longrightarrow> valid_date y m d"
  using month_from_day_bounds [of n] by (auto simp: civil_def valid_date_def month_length_def Let_def)

lemma civil_make_day:
  assumes "valid_date y m d"
  shows "civil (make_day y (m - 1) d) = (y, m, d)"
proof -
  let ?j = "nat (m - 1)" and ?n = "make_day y (m - 1) d"
  have j: "?j < 12" "int ?j = m - 1" and mod: "(m - 1) div 12 = 0" "(m - 1) mod 12 = m - 1"
    using assms by (auto simp: valid_date_def)
  have n: "?n = day_from_year y + month_start (leap y) ?j + d - 1" using mod by (simp add: make_day_def)
  have d: "1 \<le> d" "d \<le> month_start (leap y) (Suc ?j) - month_start (leap y) ?j"
    using assms by (simp_all add: valid_date_def month_length_def)
  have "0 \<le> month_start (leap y) ?j" "month_start (leap y) (Suc ?j) \<le> month_start (leap y) 12"
    using month_start_mono [of 0 ?j "leap y"] month_start_mono [of "Suc ?j" 12 "leap y"] j by simp_all
  then have y: "year_from_day ?n = y"
    using n d day_from_year_Suc [of y] by (intro year_from_day_eq) (auto split: if_splits)
  have "month_from_day ?n = ?j"
    unfolding month_from_day_def Let_def y using n d j by (intro month_count) auto
  then show ?thesis using y n j by (simp add: civil_def)
qed

lemma make_day_add: "make_day y m (d + k) = make_day y m d + k"
  by (simp add: make_day_def Let_def)

text \<open>Day 0 of the next month is the last day of the month.\<close>

lemma last_of_month:
  assumes "1 \<le> m" and "m \<le> 12"
  shows "civil (make_day y m 0) = (y, m, month_length (leap y) (nat (m - 1)))"
proof -
  let ?l = "month_length (leap y) (nat (m - 1))"
  have "nat (m - 1) < 12" using assms by linarith
  then have "28 \<le> ?l" using month_start_Suc [of "nat (m - 1)" "leap y"] by (simp add: month_length_def)
  then have "valid_date y m ?l" using assms by (simp add: valid_date_def)
  moreover have "make_day y m 0 = make_day y (m - 1) ?l"
  proof (cases "m = 12")
    case True
    then show ?thesis using day_from_year_Suc [of y]
      by (simp add: make_day_def month_length_def Let_def)
  next
    case False
    then have "m div 12 = 0" "m mod 12 = m" "(m - 1) div 12 = 0" "(m - 1) mod 12 = m - 1" "nat m = Suc (nat (m - 1))"
      using assms by auto
    then show ?thesis by (simp add: make_day_def month_length_def Let_def)
  qed
  ultimately show ?thesis using civil_make_day by simp
qed

lemma full_year_late: "100 \<le> y \<Longrightarrow> full_year y = y"
  by (simp add: full_year_def)

end
