(* ===== verification/Cron.thy ===== *)
theory Cron
  imports Js_Date
begin

text \<open>
  The cron evaluator of the scheduled jobs
  (\<^verbatim>\<open>backend/src/services/scheduledJobs/cron.ts\<close>): the parser of expressions with its errors, and the
  search for the next run. A time zone is the function \<open>zone\<close> from an instant to the wall-clock
  fields that \<open>Intl.DateTimeFormat\<close> prints for it; the data behind it is not part of the sources. The
  theorems bound every parsed schedule, say that a run is strictly later than the given time and on a
  matching day, hour and minute, and that in a zone without transitions it is the earliest such time.
\<close>

section \<open>Expressions\<close>

record CronSpec =
  cs_minutes :: "nat list"
  cs_hours :: "nat list"
  cs_daysOfMonth :: "nat list"
  cs_months :: "nat list"
  cs_daysOfWeek :: "nat list"
  cs_domRestricted :: bool
  cs_dowRestricted :: bool
  cs_repeatsInOverlap :: bool

text \<open>The reasons of a \<open>CronParseError\<close>, and the \<open>TypeError\<close> of a method that is not there.\<close>

datatype cron_error =
    InvalidValue | OutsideRange | MissingField | EmptyItem | InvalidStep | InvalidRange | RangeOrder
  | EmptyExpression | UnknownMacro | FieldCount | NotAString

type_synonym 'a cron_result = "cron_error + 'a"

definition bind_err :: "'a cron_result \<Rightarrow> ('a \<Rightarrow> 'b cron_result) \<Rightarrow> 'b cron_result" where
  "bind_err r f = (case r of Inl e \<Rightarrow> Inl e | Inr x \<Rightarrow> f x)"

definition MACROS :: "(jstr \<times> jstr) list" where
  "MACROS = [(js ''@yearly'', js ''0 0 1 1 *''), (js ''@annually'', js ''0 0 1 1 *''),
     (js ''@monthly'', js ''0 0 1 * *''), (js ''@weekly'', js ''0 0 * * 0''),
     (js ''@daily'', js ''0 0 * * *''), (js ''@midnight'', js ''0 0 * * *''),
     (js ''@hourly'', js ''0 * * * *'')]"

definition MONTH_NAMES :: "jstr list" where
  "MONTH_NAMES = map js [''JAN'', ''FEB'', ''MAR'', ''APR'', ''MAY'', ''JUN'', ''JUL'', ''AUG'', ''SEP'', ''OCT'', ''NOV'', ''DEC'']"

definition DOW_NAMES :: "jstr list" where
  "DOW_NAMES = map js [''SUN'', ''MON'', ''TUE'', ''WED'', ''THU'', ''FRI'', ''SAT'']"

record FieldDef =
  fd_min :: nat
  fd_max :: nat
  fd_names :: "jstr list"  \<comment> \<open>empty when the field has no names\<close>

definition FIELDS :: "FieldDef list" where
  "FIELDS = [\<lparr>fd_min = 0, fd_max = 59, fd_names = []\<rparr>, \<lparr>fd_min = 0, fd_max = 23, fd_names = []\<rparr>,
     \<lparr>fd_min = 1, fd_max = 31, fd_names = []\<rparr>, \<lparr>fd_min = 1, fd_max = 12, fd_names = MONTH_NAMES\<rparr>,
     \<lparr>fd_min = 0, fd_max = 7, fd_names = DOW_NAMES\<rparr>]"

definition is_digit :: "nat \<Rightarrow> bool" where
  "is_digit c \<longleftrightarrow> 48 \<le> c \<and> c \<le> 57"

definition digits :: "nat \<Rightarrow> jstr \<Rightarrow> bool" where
  \<comment> \<open>\<open>/^\d{1,n}$/\<close>\<close>
  "digits n s \<longleftrightarrow> 1 \<le> length s \<and> length s \<le> n \<and> list_all is_digit s"

definition number_of :: "jstr \<Rightarrow> nat" where
  "number_of s = foldl (\<lambda>v c. 10 * v + (c - 48)) 0 s"

definition parseValue :: "jstr \<Rightarrow> FieldDef \<Rightarrow> nat cron_result" where
  "parseValue token def =
     (case find_index (\<lambda>n. n = to_upper token) (fd_names def) of
        Some i \<Rightarrow> Inr (fd_min def + i)
      | None \<Rightarrow>
          if \<not> digits 2 token then Inl InvalidValue
          else let value = number_of token
               in if value < fd_min def \<or> fd_max def < value then Inl OutsideRange else Inr value)"

text \<open>The loop that adds the values of a range; the step of a part is at least 1.\<close>

function step_values :: "nat \<Rightarrow> nat \<Rightarrow> nat \<Rightarrow> nat list" where
  "step_values value stop step =
     (if stop < value \<or> step = 0 then [] else value # step_values (value + step) stop step)"
  by pat_completeness auto
termination
  by (relation "measure (\<lambda>(value, stop, step). Suc stop - value)") auto

declare step_values.simps [simp del]

definition parseStep :: "jstr option \<Rightarrow> nat cron_result" where
  "parseStep stepText = (case stepText of None \<Rightarrow> Inr 1
     | Some t \<Rightarrow> if \<not> digits 3 t \<or> number_of t < 1 then Inl InvalidStep else Inr (number_of t))"

definition parseRange :: "jstr \<Rightarrow> bool \<Rightarrow> FieldDef \<Rightarrow> (nat \<times> nat) cron_result" where
  \<comment> \<open>\<open>start\<close> and \<open>end\<close> of a part; the flag says that the part has a step.\<close>
  "parseRange rangeText hasStep def =
     (if rangeText = js ''*'' \<or> rangeText = js ''?'' then Inr (fd_min def, fd_max def)
      else if 45 \<in> set rangeText
      then (case split_on 45 rangeText of
              [a, b] \<Rightarrow> bind_err (parseValue a def) (\<lambda>start. bind_err (parseValue b def) (\<lambda>stop.
                if stop < start then Inl RangeOrder else Inr (start, stop)))
            | _ \<Rightarrow> Inl InvalidRange)
      else bind_err (parseValue rangeText def) (\<lambda>start. Inr (start, if hasStep then fd_max def else start)))"

definition parsePart :: "jstr \<Rightarrow> FieldDef \<Rightarrow> nat list cron_result" where
  "parsePart part def =
     (if part = [] then Inl EmptyItem
      else case split_on 47 part of
             [r] \<Rightarrow> bind_err (parseRange r False def) (\<lambda>(a, b). Inr (step_values a b 1))
           | [r, s] \<Rightarrow> bind_err (parseStep (Some s)) (\<lambda>step.
               bind_err (parseRange r True def) (\<lambda>(a, b). Inr (step_values a b step)))
           | _ \<Rightarrow> Inl InvalidStep)"

fun parseParts :: "nat list \<Rightarrow> jstr list \<Rightarrow> FieldDef \<Rightarrow> nat list cron_result" where
  "parseParts values [] def = Inr values"
| "parseParts values (part # parts) def =
     bind_err (parsePart part def) (\<lambda>vs. parseParts (first_seen values vs) parts def)"

definition parseField :: "jstr \<Rightarrow> FieldDef \<Rightarrow> nat list cron_result" where
  "parseField text def = (if text = [] then Inl MissingField else parseParts [] (split_on 44 text) def)"

text \<open>\<open>split\<close> at runs of white space.\<close>

function split_ws :: "jstr \<Rightarrow> jstr list" where
  "split_ws s =
     (let w = takeWhile (\<lambda>c. \<not> is_ws c) s; rest = dropWhile (\<lambda>c. \<not> is_ws c) s
      in if rest = [] then [w] else w # split_ws (dropWhile is_ws rest))"
  by pat_completeness auto
termination
proof (relation "measure length", goal_cases)
  case (2 s w rest)
  have "length rest \<le> length s" using "2"(2) length_dropWhile_le by auto
  moreover obtain c cs where c: "rest = c # cs" using "2"(3) by (cases rest) auto
  have "is_ws c" using "2"(2) c by (metis hd_dropWhile list.sel(1) list.discI)
  then have "length (dropWhile is_ws rest) \<le> length cs" using c length_dropWhile_le [of is_ws cs] by simp
  ultimately show ?case using c by simp
qed simp

declare split_ws.simps [simp del]

definition restricted :: "jstr \<Rightarrow> bool" where
  "restricted field \<longleftrightarrow> \<not> starts_with field (js ''*'') \<and> \<not> starts_with field (js ''?'')"

text \<open>
  The macro lookup \<open>MACROS[key]\<close> finds the inherited members of an object literal too. Two of them have
  names without upper-case letters; their values are no strings, so the call of \<open>startsWith\<close> throws.
\<close>

definition expand_macro :: "jstr \<Rightarrow> jstr cron_result" where
  "expand_macro trimmed =
     (let key = to_lower trimmed
      in case map_of MACROS key of Some m \<Rightarrow> Inr m
         | None \<Rightarrow> if key = js ''constructor'' \<or> key = js ''__proto__'' then Inl NotAString else Inr trimmed)"

definition parseCron :: "jstr \<Rightarrow> CronSpec cron_result" where
  "parseCron expression =
     (let trimmed = js_trim expression
      in if trimmed = [] then Inl EmptyExpression
         else bind_err (expand_macro trimmed) (\<lambda>expanded.
           if starts_with expanded (js ''@'') then Inl UnknownMacro
           else case split_ws expanded of
                  [f0, f1, f2, f3, f4] \<Rightarrow>
                    bind_err (parseField f0 (FIELDS ! 0)) (\<lambda>minuteSet.
                    bind_err (parseField f1 (FIELDS ! 1)) (\<lambda>hourSet.
                    bind_err (parseField f2 (FIELDS ! 2)) (\<lambda>domSet.
                    bind_err (parseField f3 (FIELDS ! 3)) (\<lambda>monthSet.
                    bind_err (parseField f4 (FIELDS ! 4)) (\<lambda>dowRaw.
                      Inr \<lparr>cs_minutes = sort minuteSet, cs_hours = sort hourSet,
                           cs_daysOfMonth = domSet, cs_months = monthSet,
                           cs_daysOfWeek = first_seen [] (map (\<lambda>v. if v = 7 then 0 else v) dowRaw),
                           cs_domRestricted = restricted f2, cs_dowRestricted = restricted f4,
                           cs_repeatsInOverlap = (\<not> restricted f0 \<or> \<not> restricted f1)\<rparr>)))))
                | _ \<Rightarrow> Inl FieldCount))"

section \<open>Wall clocks\<close>

record WallClock =
  w_year :: int
  w_month :: int
  w_day :: int
  w_hour :: int
  w_minute :: int
  w_second :: int

type_synonym zone = "int \<Rightarrow> WallClock"

definition wallClockAt :: "zone \<Rightarrow> int \<Rightarrow> WallClock" where
  "wallClockAt zone instant =
     (let wall = zone instant in if w_hour wall = 24 then wall\<lparr>w_hour := 0\<rparr> else wall)"

definition offsetAt :: "zone \<Rightarrow> int \<Rightarrow> int" where
  "offsetAt zone instant =
     (let wall = wallClockAt zone instant
      in Date_UTC (w_year wall) (w_month wall - 1) (w_day wall) (w_hour wall) (w_minute wall) (w_second wall)
           - (instant div 1000) * 1000)"

definition wallClockInstants :: "zone \<Rightarrow> int \<Rightarrow> int \<Rightarrow> int \<Rightarrow> int \<Rightarrow> int \<Rightarrow> int list" where
  "wallClockInstants zone year month day hour minute =
     (let asUtc = Date_UTC year (month - 1) day hour minute 0;
          offsets = first_seen [] [offsetAt zone (asUtc - 12 * 3600000), offsetAt zone asUtc,
                                   offsetAt zone (asUtc + 12 * 3600000)];
          candidates = first_seen [] (map (\<lambda>offset. asUtc - offset) offsets);
          exact = filter (\<lambda>candidate. let wall = wallClockAt zone candidate
                    in w_year wall = year \<and> w_month wall = month \<and> w_day wall = day
                       \<and> w_hour wall = hour \<and> w_minute wall = minute) candidates
      in if exact \<noteq> [] then sort exact else [Max (set candidates)])"

definition wallClockToInstant :: "zone \<Rightarrow> int \<Rightarrow> int \<Rightarrow> int \<Rightarrow> int \<Rightarrow> int \<Rightarrow> int" where
  "wallClockToInstant zone year month day hour minute = hd (wallClockInstants zone year month day hour minute)"

definition daysInMonth :: "int \<Rightarrow> int \<Rightarrow> int" where
  "daysInMonth year month = snd (snd (civil (Date_UTC year month 0 0 0 0 div ms_per_day)))"

definition dayMatches :: "CronSpec \<Rightarrow> int \<Rightarrow> int \<Rightarrow> int \<Rightarrow> bool" where
  "dayMatches spec year month day =
     (let domMatch = day \<in> int ` set (cs_daysOfMonth spec);
          dowMatch = weekday (Date_UTC year (month - 1) day 0 0 0 div ms_per_day) \<in> int ` set (cs_daysOfWeek spec)
      in if month \<notin> int ` set (cs_months spec) then False
         else if cs_domRestricted spec \<and> cs_dowRestricted spec then domMatch \<or> dowMatch
         else if cs_domRestricted spec then domMatch
         else if cs_dowRestricted spec then dowMatch
         else True)"

definition MAX_SEARCH_DAYS :: nat where
  "MAX_SEARCH_DAYS = 366 * 9"

definition DST_SLACK_HOURS :: int where
  "DST_SLACK_HOURS = 3"

definition addDays :: "int \<times> int \<times> int \<Rightarrow> int \<Rightarrow> int \<times> int \<times> int" where
  "addDays date delta = (case date of (year, month, day) \<Rightarrow>
     civil (Date_UTC year (month - 1) (day + delta) 0 0 0 div ms_per_day))"

section \<open>The next run\<close>

text \<open>The best instant so far and the hour it came from.\<close>

type_synonym best = "(int \<times> int) option"

definition offer_instant :: "int \<Rightarrow> int \<Rightarrow> best \<Rightarrow> int \<Rightarrow> best" where
  "offer_instant afterMs hour best instant =
     (if afterMs < instant \<and> (case best of None \<Rightarrow> True | Some (b, _) \<Rightarrow> instant < b)
      then Some (instant, hour) else best)"

definition offer_minute :: "zone \<Rightarrow> CronSpec \<Rightarrow> int \<Rightarrow> int \<times> int \<times> int \<Rightarrow> int \<Rightarrow> best \<Rightarrow> nat \<Rightarrow> best" where
  "offer_minute zone spec afterMs date hour best minute = (case date of (year, month, day) \<Rightarrow>
     let instants = wallClockInstants zone year month day hour (int minute)
     in foldl (offer_instant afterMs hour) best
          (if cs_repeatsInOverlap spec then instants else take 1 instants))"

fun hour_loop ::
  "zone \<Rightarrow> CronSpec \<Rightarrow> int \<Rightarrow> int \<Rightarrow> nat \<Rightarrow> int \<times> int \<times> int \<Rightarrow> nat list \<Rightarrow> best \<Rightarrow> best" where
  "hour_loop zone spec afterMs startHour offset date [] best = best"
| "hour_loop zone spec afterMs startHour offset date (hour # hours) best =
     (if (case best of None \<Rightarrow> False | Some (_, bestHour) \<Rightarrow> bestHour + DST_SLACK_HOURS < int hour) then best
      else if offset = 0 \<and> int hour < 24 - DST_SLACK_HOURS
              \<or> offset = 1 \<and> int hour < startHour - DST_SLACK_HOURS
      then hour_loop zone spec afterMs startHour offset date hours best
      else hour_loop zone spec afterMs startHour offset date hours
             (foldl (offer_minute zone spec afterMs date (int hour)) best (cs_minutes spec)))"

definition day_run :: "zone \<Rightarrow> CronSpec \<Rightarrow> int \<Rightarrow> int \<Rightarrow> nat \<Rightarrow> int \<times> int \<times> int \<Rightarrow> int option" where
  "day_run zone spec afterMs startHour offset date = (case date of (year, month, day) \<Rightarrow>
     if day \<le> daysInMonth year month \<and> dayMatches spec year month day
     then map_option fst (hour_loop zone spec afterMs startHour offset date (cs_hours spec) None)
     else None)"

text \<open>The loop over the days: \<open>rounds\<close> rounds are left, the current one has the given offset.\<close>

fun day_loop ::
  "nat \<Rightarrow> zone \<Rightarrow> CronSpec \<Rightarrow> int \<Rightarrow> int \<Rightarrow> nat \<Rightarrow> int \<times> int \<times> int \<Rightarrow> int option" where
  "day_loop 0 zone spec afterMs startHour offset date = None"
| "day_loop (Suc rounds) zone spec afterMs startHour offset date =
     (case day_run zone spec afterMs startHour offset date of
        Some instant \<Rightarrow> Some instant
      | None \<Rightarrow> day_loop rounds zone spec afterMs startHour (Suc offset) (addDays date 1))"

definition nextCronRun :: "zone \<Rightarrow> CronSpec \<Rightarrow> int \<Rightarrow> int option" where
  "nextCronRun zone spec afterMs =
     (let start = wallClockAt zone afterMs
      in day_loop (Suc MAX_SEARCH_DAYS) zone spec afterMs (w_hour start) 0
           (addDays (w_year start, w_month start, w_day start) (-1)))"

section \<open>Lemmas: parsing\<close>

lemma bind_err_Inr: "bind_err r f = Inr y \<longleftrightarrow> (\<exists>x. r = Inr x \<and> f x = Inr y)"
  by (simp add: bind_err_def split: sum.split)

definition def_ok :: "FieldDef \<Rightarrow> bool" where
  "def_ok def \<longleftrightarrow> fd_min def \<le> fd_max def \<and> fd_min def + length (fd_names def) \<le> Suc (fd_max def)"

definition within_def :: "FieldDef \<Rightarrow> nat list \<Rightarrow> bool" where
  "within_def def vs \<longleftrightarrow> vs \<noteq> [] \<and> distinct vs \<and> list_all (\<lambda>v. fd_min def \<le> v \<and> v \<le> fd_max def) vs"

lemma parseValue_within:
  "parseValue t def = Inr v \<Longrightarrow> def_ok def \<Longrightarrow> fd_min def \<le> v \<and> v \<le> fd_max def"
  by (auto simp: parseValue_def def_ok_def Let_def split: option.splits if_splits dest!: find_index_Some)

lemma set_step_values: "v \<in> set (step_values a b s) \<Longrightarrow> a \<le> v \<and> v \<le> b"
proof (induction a b s rule: step_values.induct)
  case (1 a b s)
  then show ?case by (subst (asm) step_values.simps) (auto split: if_splits)
qed

lemma step_values_not_Nil: "a \<le> b \<Longrightarrow> 0 < s \<Longrightarrow> step_values a b s \<noteq> []"
  by (subst step_values.simps) simp

lemma parseRange_within:
  assumes "parseRange r f def = Inr (a, b)" and "def_ok def"
  shows "fd_min def \<le> a \<and> a \<le> b \<and> b \<le> fd_max def"
  using assms parseValue_within [OF _ assms(2)]
  by (fastforce simp: parseRange_def def_ok_def bind_err_Inr split: if_splits list.splits)

lemma parsePart_within:
  assumes "parsePart p def = Inr vs" and "def_ok def"
  shows "vs \<noteq> [] \<and> (\<forall>v \<in> set vs. fd_min def \<le> v \<and> v \<le> fd_max def)"
proof -
  from assms(1) have "\<exists>r f a b s. parseRange r f def = Inr (a, b) \<and> 0 < s \<and> vs = step_values a b s"
    by (simp add: parsePart_def bind_err_Inr parseStep_def split: if_splits list.splits)
      (metis zero_less_Suc not_less_eq not_less_zero not_gr_zero)+
  then obtain r f a b s where r: "parseRange r f def = Inr (a, b)" and s: "0 < s"
    and vs: "vs = step_values a b s" by blast
  from parseRange_within [OF r assms(2)] s show ?thesis
    by (auto simp: vs step_values_not_Nil dest!: set_step_values)
qed

lemma first_seen_not_Nil: "ks \<noteq> [] \<or> ps \<noteq> [] \<Longrightarrow> first_seen ks ps \<noteq> []"
  using set_first_seen [of ks ps] by fastforce

lemma parseParts_within:
  assumes "parseParts acc ps def = Inr vs" and "def_ok def"
    and "distinct acc" and "list_all (\<lambda>v. fd_min def \<le> v \<and> v \<le> fd_max def) acc" and "acc \<noteq> [] \<or> ps \<noteq> []"
  shows "within_def def vs"
  using assms
proof (induction ps arbitrary: acc)
  case Nil
  then show ?case by (simp add: within_def_def)
next
  case (Cons p ps)
  from Cons.prems(1) obtain ws where ws: "parsePart p def = Inr ws"
    and rest: "parseParts (first_seen acc ws) ps def = Inr vs" by (auto simp: bind_err_Inr)
  from parsePart_within [OF ws assms(2)] have w: "ws \<noteq> []" "\<forall>v \<in> set ws. fd_min def \<le> v \<and> v \<le> fd_max def" by auto
  show ?case
    by (rule Cons.IH [OF rest assms(2)])
      (use Cons.prems w in \<open>auto simp: list_all_iff set_first_seen distinct_first_seen first_seen_not_Nil\<close>)
qed

lemma parseField_within: "parseField t def = Inr vs \<Longrightarrow> def_ok def \<Longrightarrow> within_def def vs"
  by (rule parseParts_within [of "[]" "split_on 44 t"])
    (auto simp: parseField_def split_on_not_Nil split: if_splits)

lemma FIELDS_ok: "i < 5 \<Longrightarrow> def_ok (FIELDS ! i)"
  by (auto simp: FIELDS_def def_ok_def MONTH_NAMES_def DOW_NAMES_def less_Suc_eq numeral_eq_Suc)

lemma sort_Nil_iff: "sort (xs :: nat list) = [] \<longleftrightarrow> xs = []"
  by (metis set_empty set_sort)

text \<open>What the evaluator may rely on: ordered hours and minutes, and every field in its range.\<close>

definition spec_ok :: "CronSpec \<Rightarrow> bool" where
  "spec_ok spec \<longleftrightarrow>
     cs_minutes spec \<noteq> [] \<and> sorted (cs_minutes spec) \<and> list_all (\<lambda>v. v \<le> 59) (cs_minutes spec)
   \<and> cs_hours spec \<noteq> [] \<and> sorted (cs_hours spec) \<and> list_all (\<lambda>v. v \<le> 23) (cs_hours spec)
   \<and> cs_daysOfMonth spec \<noteq> [] \<and> list_all (\<lambda>v. 1 \<le> v \<and> v \<le> 31) (cs_daysOfMonth spec)
   \<and> cs_months spec \<noteq> [] \<and> list_all (\<lambda>v. 1 \<le> v \<and> v \<le> 12) (cs_months spec)
   \<and> cs_daysOfWeek spec \<noteq> [] \<and> list_all (\<lambda>v. v \<le> 6) (cs_daysOfWeek spec)
   \<and> distinct (cs_minutes spec) \<and> distinct (cs_hours spec) \<and> distinct (cs_daysOfMonth spec)
   \<and> distinct (cs_months spec) \<and> distinct (cs_daysOfWeek spec)"

lemma parseCron_Inr:
  assumes "parseCron e = Inr spec"
  obtains f0 f1 f2 f3 f4 mi ho dm mo dw where
    "parseField f0 (FIELDS ! 0) = Inr mi" "parseField f1 (FIELDS ! 1) = Inr ho"
    "parseField f2 (FIELDS ! 2) = Inr dm" "parseField f3 (FIELDS ! 3) = Inr mo"
    "parseField f4 (FIELDS ! 4) = Inr dw"
    "spec = \<lparr>cs_minutes = sort mi, cs_hours = sort ho, cs_daysOfMonth = dm, cs_months = mo,
       cs_daysOfWeek = first_seen [] (map (\<lambda>v. if v = 7 then 0 else v) dw),
       cs_domRestricted = restricted f2, cs_dowRestricted = restricted f4,
       cs_repeatsInOverlap = (\<not> restricted f0 \<or> \<not> restricted f1)\<rparr>"
  using assms by (auto simp: parseCron_def bind_err_Inr Let_def split: if_splits list.splits)

text \<open>Every schedule that parses is well formed: each field has at least one value, no value twice
  and all within its range (weekday 7 read as 0), with minutes and hours in order.\<close>

theorem parseCron_well_formed:
  assumes "parseCron expression = Inr spec"
  shows "spec_ok spec"
  using assms
proof (rule parseCron_Inr)
  fix f0 f1 f2 f3 f4 mi ho dm mo dw
  assume f: "parseField f0 (FIELDS ! 0) = Inr mi" "parseField f1 (FIELDS ! 1) = Inr ho"
    "parseField f2 (FIELDS ! 2) = Inr dm" "parseField f3 (FIELDS ! 3) = Inr mo"
    "parseField f4 (FIELDS ! 4) = Inr dw"
    and eq: "spec = \<lparr>cs_minutes = sort mi, cs_hours = sort ho, cs_daysOfMonth = dm, cs_months = mo,
       cs_daysOfWeek = first_seen [] (map (\<lambda>v. if v = 7 then 0 else v) dw),
       cs_domRestricted = restricted f2, cs_dowRestricted = restricted f4,
       cs_repeatsInOverlap = (\<not> restricted f0 \<or> \<not> restricted f1)\<rparr>"
  have "within_def (FIELDS ! 0) mi" "within_def (FIELDS ! 1) ho" "within_def (FIELDS ! 2) dm"
    "within_def (FIELDS ! 3) mo" "within_def (FIELDS ! 4) dw"
    using f parseField_within FIELDS_ok by simp_all
  then have w: "mi \<noteq> [] \<and> distinct mi \<and> list_all (\<lambda>v. v \<le> 59) mi" "ho \<noteq> [] \<and> distinct ho \<and> list_all (\<lambda>v. v \<le> 23) ho"
    "dm \<noteq> [] \<and> distinct dm \<and> list_all (\<lambda>v. 1 \<le> v \<and> v \<le> 31) dm" "mo \<noteq> [] \<and> distinct mo \<and> list_all (\<lambda>v. 1 \<le> v \<and> v \<le> 12) mo"
    "dw \<noteq> [] \<and> list_all (\<lambda>v. v \<le> 7) dw"
    by (simp_all add: within_def_def FIELDS_def)
  let ?dw = "first_seen [] (map (\<lambda>v. if v = 7 then 0 else v) dw)"
  have "?dw \<noteq> []" "distinct ?dw" using w(5) by (simp_all add: first_seen_not_Nil distinct_first_seen)
  moreover have "list_all (\<lambda>v. v \<le> 6) ?dw" using w(5) by (fastforce simp: list_all_iff set_first_seen)
  ultimately show ?thesis using w(1-4) by (simp add: eq spec_ok_def list_all_iff sort_Nil_iff)
qed

theorem parseCron_well_formed_witness:
  "\<exists>spec. parseCron (js ''0 9 * * 7'') = Inr spec \<and> spec_ok spec"
proof -
  have "\<exists>spec. parseCron (js ''0 9 * * 7'') = Inr spec"
    by (simp add: parseCron_def js_def js_trim_def is_ws_def expand_macro_def to_lower_def lower_unit_def
      MACROS_def split_ws.simps bind_err_def parseField_def FIELDS_def parsePart_def parseRange_def
      parseValue_def to_upper_def upper_unit_def digits_def is_digit_def number_of_def starts_with_def
      Let_def DOW_NAMES_def)
  then show ?thesis using parseCron_well_formed by blast
qed

text \<open>The expression \<open>constructor\<close> is looked up among the macros and found in the prototype: the
  parser fails with a \<open>TypeError\<close>, not with the \<open>CronParseError\<close> that reports a bad expression.\<close>

theorem parseCron_prototype_key: "parseCron (js ''constructor'') = Inl NotAString"
  by (simp add: parseCron_def js_def js_trim_def is_ws_def expand_macro_def to_lower_def lower_unit_def
      MACROS_def bind_err_def Let_def)

section \<open>Lemmas: the search\<close>

text \<open>The instants that a day offers.\<close>

definition day_offers :: "zone \<Rightarrow> CronSpec \<Rightarrow> int \<times> int \<times> int \<Rightarrow> int \<Rightarrow> bool" where
  "day_offers zone spec date t = (case date of (year, month, day) \<Rightarrow>
     day \<le> daysInMonth year month \<and> dayMatches spec year month day \<and>
     (\<exists>hour \<in> set (cs_hours spec). \<exists>minute \<in> set (cs_minutes spec).
        t \<in> set (wallClockInstants zone year month day (int hour) (int minute))))"

lemma offer_instants_sound:
  "foldl (offer_instant after h) best ts = Some (t, h') \<Longrightarrow> best = Some (t, h') \<or> after < t \<and> t \<in> set ts"
  by (induction ts arbitrary: best) (fastforce simp: offer_instant_def split: if_splits)+

lemma offer_minutes_sound:
  assumes "foldl (offer_minute zone spec after (y, m, d) h) best ms = Some (t, h')"
  shows "best = Some (t, h') \<or> after < t \<and> (\<exists>minute \<in> set ms. t \<in> set (wallClockInstants zone y m d h (int minute)))"
  using assms
proof (induction ms arbitrary: best)
  case (Cons mi ms)
  then consider "offer_minute zone spec after (y, m, d) h best mi = Some (t, h')"
    | "after < t" "\<exists>minute \<in> set ms. t \<in> set (wallClockInstants zone y m d h (int minute))" by fastforce
  then show ?case
  proof cases
    case 1
    then show ?thesis
      by (auto simp: offer_minute_def Let_def dest!: offer_instants_sound in_set_takeD split: if_splits)
  qed auto
qed simp

lemma hour_loop_sound:
  assumes "hour_loop zone spec after sh k (y, m, d) hours best = Some (t, h')"
  shows "best = Some (t, h') \<or> after < t \<and> (\<exists>hour \<in> set hours. \<exists>minute \<in> set (cs_minutes spec).
    t \<in> set (wallClockInstants zone y m d (int hour) (int minute)))"
  using assms
  by (induction hours arbitrary: best) (fastforce split: if_splits dest!: offer_minutes_sound)+

lemma day_run_sound: "day_run zone spec after sh k date = Some t \<Longrightarrow> after < t \<and> day_offers zone spec date t"
  by (cases date) (auto simp: day_run_def day_offers_def dest!: hour_loop_sound split: if_splits)

lemma day_loop_sound: "day_loop r zone spec after sh k date = Some t \<Longrightarrow> after < t \<and> (\<exists>date. day_offers zone spec date t)"
proof (induction r arbitrary: k date)
  case (Suc r)
  then show ?case using day_run_sound [of zone spec after sh k date] by (cases "day_run zone spec after sh k date"; cases date) auto
qed simp

section \<open>Zones without transitions\<close>

definition utc_clock :: "int \<Rightarrow> WallClock" where
  "utc_clock t = (case civil (t div ms_per_day) of (y, m, d) \<Rightarrow>
     let r = t mod ms_per_day
     in \<lparr>w_year = y, w_month = m, w_day = d, w_hour = r div 3600000, w_minute = r div 60000 mod 60,
         w_second = r div 1000 mod 60\<rparr>)"

definition fixed_zone :: "int \<Rightarrow> zone" where
  "fixed_zone off t = utc_clock (t + off)"

text \<open>The instant of a minute of a day.\<close>

definition at_minute :: "int \<Rightarrow> int \<Rightarrow> int \<Rightarrow> int \<Rightarrow> int" where
  "at_minute off n h mi = n * ms_per_day + h * 3600000 + mi * 60000 - off"

lemma civil_year_late: "civil n = (y, m, d) \<Longrightarrow> -1000 \<le> n \<Longrightarrow> full_year y = y"
proof -
  assume "civil n = (y, m, d)" "-1000 \<le> n"
  then have y: "y = year_from_day n" by (auto simp: civil_def Let_def)
  have "\<not> y < 1966"
  proof
    assume "y < 1966"
    then have "day_from_year (y + 1) \<le> day_from_year 1966" by (rule day_from_year_mono)
    also have "day_from_year 1966 = - 1461" by (simp add: day_from_year_def)
    finally show False using year_from_day_bounds [of n] \<open>-1000 \<le> n\<close> y by simp
  qed
  then show ?thesis by (simp add: full_year_def)
qed

lemma Date_UTC_civil:
  assumes "civil n = (y, m, d)" and "-1000 \<le> n"
  shows "Date_UTC y (m - 1) (d + k) h mi s = (n + k) * ms_per_day + h * 3600000 + mi * 60000 + s * 1000"
  using make_day_civil [OF assms(1)] civil_year_late [OF assms] by (simp add: Date_UTC_def make_day_add)

lemma split_clock: "(r :: int) div 3600000 * 3600000 + (r div 60000 mod 60) * 60000 + (r div 1000 mod 60) * 1000 = r div 1000 * 1000"
proof -
  have 1: "r div 60000 = r div 1000 div 60" "r div 3600000 = r div 60000 div 60"
    by (simp_all add: zdiv_zmult2_eq [symmetric])
  have "r div 60000 = r div 3600000 * 60 + r div 60000 mod 60"
    unfolding 1(2) by (rule div_mult_mod_eq [symmetric])
  moreover have "r div 1000 = r div 60000 * 60 + r div 1000 mod 60"
    unfolding 1(1) by (rule div_mult_mod_eq [symmetric])
  ultimately show ?thesis by linarith
qed

lemma clock_hour: "0 \<le> (t :: int) mod ms_per_day div 3600000" "t mod ms_per_day div 3600000 < 24"
proof -
  have r: "0 \<le> t mod ms_per_day" "t mod ms_per_day \<le> 86399999"
    using pos_mod_bound [of ms_per_day t] pos_mod_sign [of ms_per_day t] by (simp_all add: ms_per_day_def)
  from r(1) show "0 \<le> t mod ms_per_day div 3600000" by (simp add: pos_imp_zdiv_nonneg_iff)
  from zdiv_mono1 [OF r(2), of 3600000] show "t mod ms_per_day div 3600000 < 24" by simp
qed

lemma wallClockAt_fixed: "wallClockAt (fixed_zone off) t = utc_clock (t + off)"
proof -
  obtain y m d where "civil ((t + off) div ms_per_day) = (y, m, d)" by (cases "civil ((t + off) div ms_per_day)")
  then have "w_hour (utc_clock (t + off)) = (t + off) mod ms_per_day div 3600000" by (simp add: utc_clock_def Let_def)
  with clock_hour(2) [of "t + off"] show ?thesis by (simp add: wallClockAt_def fixed_zone_def)
qed

lemma offsetAt_fixed:
  assumes "off mod 1000 = 0" and "-1000 * ms_per_day \<le> t + off"
  shows "offsetAt (fixed_zone off) t = off"
proof -
  let ?l = "t + off" and ?n = "(t + off) div ms_per_day"
  obtain y m d where c: "civil ?n = (y, m, d)" by (cases "civil ?n")
  have n: "-1000 \<le> ?n" using assms(2) zdiv_mono1 [of "-1000 * ms_per_day" ?l ms_per_day] by (simp add: ms_per_day_def)
  have "Date_UTC y (m - 1) d (?l mod ms_per_day div 3600000) (?l mod ms_per_day div 60000 mod 60) (?l mod ms_per_day div 1000 mod 60)
      = ?n * ms_per_day + ?l mod ms_per_day div 1000 * 1000"
    using Date_UTC_civil [OF c n, of 0] split_clock [of "?l mod ms_per_day"] by (simp only: add_0_right add.assoc)
  also have "\<dots> = ?l div 1000 * 1000"
  proof -
    have "?l mod ms_per_day mod 1000 = ?l mod 1000" by (rule mod_mod_cancel) (simp add: ms_per_day_def)
    moreover have "?n * ms_per_day + ?l mod ms_per_day = ?l" by (rule div_mult_mod_eq)
    ultimately show ?thesis by (simp flip: minus_mod_eq_div_mult)
  qed
  also have "\<dots> = t div 1000 * 1000 + off"
  proof -
    obtain c where "off = 1000 * c" using assms(1) by (metis mod_0_imp_dvd dvdE)
    then show ?thesis by simp
  qed
  finally show ?thesis
    by (simp only: offsetAt_def wallClockAt_fixed utc_clock_def Let_def c prod.case WallClock.select_convs
        add_diff_cancel_left')
qed

lemma wallClockInstants_fixed:
  assumes "civil n = (y, m, d)" and "-900 \<le> n" and "off mod 1000 = 0" and "\<bar>off\<bar> \<le> ms_per_day"
    and "0 \<le> h" and "h < 24" and "0 \<le> mi" and "mi < 60"
  shows "wallClockInstants (fixed_zone off) y m d h mi = [at_minute off n h mi]"
proof -
  let ?u = "n * ms_per_day + h * 3600000 + mi * 60000"
  have u: "Date_UTC y (m - 1) d h mi 0 = ?u" using Date_UTC_civil [OF assms(1), of 0 h mi 0] assms(2) by simp
  have "offsetAt (fixed_zone off) t = off" if "?u - 12 * 3600000 \<le> t" for t
  proof (rule offsetAt_fixed [OF assms(3)])
    have "- 900 * ms_per_day \<le> n * ms_per_day" using assms(2) by (simp add: ms_per_day_def)
    then show "-1000 * ms_per_day \<le> t + off" using that assms(4-8) by (simp add: ms_per_day_def)
  qed
  then have "first_seen [] [offsetAt (fixed_zone off) (?u - 12 * 3600000), offsetAt (fixed_zone off) ?u,
      offsetAt (fixed_zone off) (?u + 12 * 3600000)] = [off]" by simp
  then show ?thesis by (simp add: wallClockInstants_def u Let_def at_minute_def)
qed

lemma addDays_civil: "-900 \<le> n \<Longrightarrow> addDays (civil n) k = civil (n + k)"
proof -
  assume n: "-900 \<le> n"
  obtain y m d where c: "civil n = (y, m, d)" by (cases "civil n")
  have "Date_UTC y (m - 1) (d + k) 0 0 0 = (n + k) * ms_per_day" using Date_UTC_civil [OF c] n by simp
  then show ?thesis by (simp add: addDays_def c ms_per_day_def)
qed

lemma daysInMonth_civil:
  assumes "civil n = (y, m, d)" and "-900 \<le> n"
  shows "d \<le> daysInMonth y m"
proof -
  from civil_valid [OF assms(1)] have v: "1 \<le> m" "m \<le> 12" "d \<le> month_length (leap y) (nat (m - 1))"
    by (simp_all add: valid_date_def)
  have "full_year y = y" using civil_year_late [OF assms(1)] assms(2) by simp
  then have "Date_UTC y m 0 0 0 0 div ms_per_day = make_day y m 0" by (simp add: Date_UTC_def ms_per_day_def)
  then show ?thesis using last_of_month [OF v(1,2)] v(3) by (simp add: daysInMonth_def)
qed

section \<open>The earliest run\<close>

text \<open>
  The specification: the times of a schedule in a zone with a fixed offset, read off the local clock.
\<close>

definition cron_time :: "int \<Rightarrow> CronSpec \<Rightarrow> int \<Rightarrow> bool" where
  "cron_time off spec t = (let l = t + off
     in l mod 60000 = 0 \<and> (case civil (l div ms_per_day) of (y, m, d) \<Rightarrow> dayMatches spec y m d)
        \<and> l mod ms_per_day div 3600000 \<in> int ` set (cs_hours spec)
        \<and> l mod ms_per_day div 60000 mod 60 \<in> int ` set (cs_minutes spec))"

text \<open>The times of one day, hour by hour.\<close>

definition hour_times :: "int \<Rightarrow> CronSpec \<Rightarrow> int \<Rightarrow> nat \<Rightarrow> int set" where
  "hour_times off spec n h = (\<lambda>mi. at_minute off n (int h) (int mi)) ` set (cs_minutes spec)"

text \<open>
  What the search knows after some times of a day: \<open>best\<close> is the earliest of them after \<open>after\<close>, with
  its hour.
\<close>

definition best_of :: "int \<Rightarrow> int \<Rightarrow> int \<Rightarrow> int set \<Rightarrow> best \<Rightarrow> bool" where
  "best_of off n after S best = (case best of
     None \<Rightarrow> (\<forall>t \<in> S. t \<le> after)
   | Some (b, h) \<Rightarrow> b \<in> S \<and> after < b \<and> (\<forall>t \<in> S. after < t \<longrightarrow> b \<le> t) \<and> b < at_minute off n (h + 1) 0)"

lemma at_minute_bounds:
  "0 \<le> mi \<Longrightarrow> mi < 60 \<Longrightarrow> at_minute off n h 0 \<le> at_minute off n h mi \<and> at_minute off n h mi < at_minute off n (h + 1) 0"
  by (simp add: at_minute_def)

lemma best_of_offer:
  assumes "best_of off n after S best" and "at_minute off n h mi = t" and "0 \<le> mi" and "mi < 60"
  shows "best_of off n after (insert t S) (offer_instant after h best t)"
  using assms at_minute_bounds [OF assms(3,4), of off n h]
  by (auto simp: best_of_def offer_instant_def split: option.splits)

lemma best_of_old: "best_of off n after S best \<Longrightarrow> (\<And>t. t \<in> T \<Longrightarrow> t \<le> after) \<Longrightarrow> best_of off n after (S \<union> T) best"
  by (fastforce simp: best_of_def split: option.splits)

lemma best_of_later:
  "best_of off n after S (Some (b, h)) \<Longrightarrow> (\<And>t. t \<in> T \<Longrightarrow> b \<le> t) \<Longrightarrow> best_of off n after (S \<union> T) (Some (b, h))"
  by (auto simp: best_of_def)

lemma minutes_best:
  assumes "civil n = (y, m, d)" and "-900 \<le> n" and "off mod 1000 = 0" and "\<bar>off\<bar> \<le> ms_per_day"
    and "h < 24" and "list_all (\<lambda>v. v \<le> 59) ms" and "best_of off n after S best"
  shows "best_of off n after (S \<union> (\<lambda>mi. at_minute off n (int h) (int mi)) ` set ms)
    (foldl (offer_minute (fixed_zone off) spec after (y, m, d) (int h)) best ms)"
  using assms(6,7)
proof (induction ms arbitrary: S best)
  case (Cons mi ms)
  have "wallClockInstants (fixed_zone off) y m d (int h) (int mi) = [at_minute off n (int h) (int mi)]"
    using assms(1-5) Cons.prems by (intro wallClockInstants_fixed) simp_all
  then have "offer_minute (fixed_zone off) spec after (y, m, d) (int h) best mi
      = offer_instant after (int h) best (at_minute off n (int h) (int mi))"
    by (simp add: offer_minute_def Let_def)
  moreover have "best_of off n after (insert (at_minute off n (int h) (int mi)) S)
      (offer_instant after (int h) best (at_minute off n (int h) (int mi)))"
    using Cons.prems by (intro best_of_offer [OF _ refl]) simp_all
  ultimately show ?case
    using Cons.IH [of "insert (at_minute off n (int h) (int mi)) S"
        "offer_instant after (int h) best (at_minute off n (int h) (int mi))"] Cons.prems by simp
qed simp

lemma hours_best:
  assumes "civil n = (y, m, d)" and "-900 \<le> n" and "off mod 1000 = 0" and "\<bar>off\<bar> \<le> ms_per_day"
    and "list_all (\<lambda>v. v \<le> 59) (cs_minutes spec)"
    and skip: "\<And>h t. offset = 0 \<and> int h < 24 - DST_SLACK_HOURS \<or> offset = 1 \<and> int h < startHour - DST_SLACK_HOURS \<Longrightarrow>
      t \<in> hour_times off spec n h \<Longrightarrow> t \<le> after"
    and "sorted hs" and "list_all (\<lambda>v. v \<le> 23) hs" and "best_of off n after S best"
  shows "best_of off n after (S \<union> \<Union> (hour_times off spec n ` set hs))
    (hour_loop (fixed_zone off) spec after startHour offset (y, m, d) hs best)"
  using assms(7-9)
proof (induction hs arbitrary: S best)
  case (Cons h hs)
  let ?T = "\<Union> (hour_times off spec n ` set (h # hs))"
  show ?case
  proof (cases "\<exists>b bh. best = Some (b, bh) \<and> bh + DST_SLACK_HOURS < int h")
    case True
    then obtain b bh where b: "best = Some (b, bh)" "bh + DST_SLACK_HOURS < int h" by blast
    have "b \<le> t" if "t \<in> ?T" for t
    proof -
      from that obtain h' mi where t: "h' \<in> set (h # hs)" "t = at_minute off n (int h') (int mi)"
        by (auto simp: hour_times_def)
      have "h \<le> h'" using Cons.prems(1) t(1) by auto
      moreover have "b < at_minute off n (bh + 1) 0" using Cons.prems(3) b(1) by (simp add: best_of_def)
      ultimately show ?thesis using b(2) t(2) by (simp add: at_minute_def DST_SLACK_HOURS_def)
    qed
    then have "best_of off n after (S \<union> ?T) best" using Cons.prems(3) b(1) by (auto intro: best_of_later)
    then show ?thesis using b by simp
  next
    case go: False
    then have brk: "\<not> (case best of None \<Rightarrow> False | Some (_, bestHour) \<Rightarrow> bestHour + DST_SLACK_HOURS < int h)"
      by (auto split: option.splits)
    have ok: "sorted hs" "list_all (\<lambda>v. v \<le> 23) hs" "h < 24" using Cons.prems by auto
    show ?thesis
    proof (cases "offset = 0 \<and> int h < 24 - DST_SLACK_HOURS \<or> offset = 1 \<and> int h < startHour - DST_SLACK_HOURS")
      case True
      then have "best_of off n after (S \<union> hour_times off spec n h) best"
        using Cons.prems(3) skip [of h] by (auto intro: best_of_old)
      from Cons.IH [OF ok(1,2) this] brk True show ?thesis by (simp add: Un_assoc)
    next
      case False
      have "best_of off n after (S \<union> hour_times off spec n h)
          (foldl (offer_minute (fixed_zone off) spec after (y, m, d) (int h)) best (cs_minutes spec))"
        unfolding hour_times_def using assms(1-5) ok(3) Cons.prems(3) by (intro minutes_best)
      from Cons.IH [OF ok(1,2) this] brk False show ?thesis by (auto simp: Un_assoc)
    qed
  qed
qed simp


definition day_times :: "int \<Rightarrow> CronSpec \<Rightarrow> int \<Rightarrow> int set" where
  "day_times off spec n = (case civil n of (y, m, d) \<Rightarrow>
     if dayMatches spec y m d then \<Union> (hour_times off spec n ` set (cs_hours spec)) else {})"

text \<open>The local clock of a minute of a day.\<close>

lemma minute_clock:
  assumes "0 \<le> h" and "h < 24" and "0 \<le> mi" and "mi < 60"
  shows "(at_minute off n h mi + off) div ms_per_day = n"
    and "(at_minute off n h mi + off) mod ms_per_day = h * 3600000 + mi * 60000"
proof -
  have l: "at_minute off n h mi + off = (h * 3600000 + mi * 60000) + n * ms_per_day" by (simp add: at_minute_def)
  have r: "0 \<le> h * 3600000 + mi * 60000" "h * 3600000 + mi * 60000 < ms_per_day"
    using assms by (simp_all add: ms_per_day_def)
  show "(at_minute off n h mi + off) div ms_per_day = n" unfolding l using r by simp
  show "(at_minute off n h mi + off) mod ms_per_day = h * 3600000 + mi * 60000" unfolding l using r by simp
qed

lemma day_times_cron:
  assumes "spec_ok spec"
  shows "t \<in> day_times off spec n \<longleftrightarrow> cron_time off spec t \<and> (t + off) div ms_per_day = n"
proof
  assume "t \<in> day_times off spec n"
  then obtain y m d h mi where c: "civil n = (y, m, d)" "dayMatches spec y m d" and
    h: "h \<in> set (cs_hours spec)" "mi \<in> set (cs_minutes spec)" and t: "t = at_minute off n (int h) (int mi)"
    by (auto simp: day_times_def hour_times_def split: prod.splits if_splits)
  have b: "h \<le> 23" "mi \<le> 59" using assms h by (auto simp: spec_ok_def list_all_iff)
  note clk = minute_clock [of "int h" "int mi" off n]
  have "(t + off) mod 60000 = 0"
    unfolding t at_minute_def ms_per_day_def by (simp add: mod_eq_0_iff_dvd)
  moreover have "(int h * 3600000 + int mi * 60000) div 3600000 = int h"
    "(int h * 3600000 + int mi * 60000) div 60000 mod 60 = int mi"
    using b by simp_all
  ultimately show "cron_time off spec t \<and> (t + off) div ms_per_day = n"
    using clk b c h by (simp add: cron_time_def t Let_def)
next
  assume a: "cron_time off spec t \<and> (t + off) div ms_per_day = n"
  let ?r = "(t + off) mod ms_per_day"
  obtain y m d where c: "civil n = (y, m, d)" by (cases "civil n")
  with a have dm: "dayMatches spec y m d" by (auto simp: cron_time_def Let_def)
  from a obtain h mi where h: "h \<in> set (cs_hours spec)" "?r div 3600000 = int h"
    and mi: "mi \<in> set (cs_minutes spec)" "?r div 60000 mod 60 = int mi"
    by (auto simp: cron_time_def Let_def)
  have "?r mod 60000 = (t + off) mod 60000" by (rule mod_mod_cancel) (simp add: ms_per_day_def)
  then have "?r mod 60000 = 0" using a by (simp add: cron_time_def Let_def)
  then have "?r = ?r div 60000 * 60000" by (metis add_0_right div_mult_mod_eq)
  also have "?r div 60000 = ?r div 3600000 * 60 + ?r div 60000 mod 60"
    using div_mult_mod_eq [of "?r div 60000" 60] by (simp add: zdiv_zmult2_eq [symmetric])
  finally have "?r = int h * 3600000 + int mi * 60000" using h(2) mi(2) by simp
  then have "t = at_minute off n (int h) (int mi)"
    using a div_mult_mod_eq [of "t + off" ms_per_day] by (simp add: at_minute_def)
  with c dm h mi show "t \<in> day_times off spec n" by (auto simp: day_times_def hour_times_def)
qed

text \<open>The first time after \<open>after\<close> among some times, if there is one.\<close>

definition earliest :: "int \<Rightarrow> int set \<Rightarrow> int option \<Rightarrow> bool" where
  "earliest after S r = (case r of None \<Rightarrow> (\<forall>t \<in> S. t \<le> after)
     | Some b \<Rightarrow> b \<in> S \<and> after < b \<and> (\<forall>t \<in> S. after < t \<longrightarrow> b \<le> t))"

lemma best_of_earliest: "best_of off n after S best \<Longrightarrow> earliest after S (map_option fst best)"
  by (auto simp: best_of_def earliest_def split: option.splits)

lemma day_run_earliest:
  assumes "-900 \<le> n" and "off mod 1000 = 0" and "\<bar>off\<bar> \<le> ms_per_day" and "spec_ok spec"
    and "offset = 0 \<Longrightarrow> n < (after + off) div ms_per_day"
    and "offset = 1 \<Longrightarrow> n = (after + off) div ms_per_day"
  shows "earliest after (day_times off spec n)
    (day_run (fixed_zone off) spec after ((after + off) mod ms_per_day div 3600000) offset (civil n))"
proof -
  let ?l = "after + off"
  obtain y m d where c: "civil n = (y, m, d)" by (cases "civil n")
  show ?thesis
  proof (cases "dayMatches spec y m d")
    case False
    then show ?thesis by (simp add: day_run_def day_times_def c earliest_def)
  next
    case True
    have ok: "sorted (cs_hours spec)" "list_all (\<lambda>v. v \<le> 23) (cs_hours spec)" "list_all (\<lambda>v. v \<le> 59) (cs_minutes spec)"
      using assms(4) by (simp_all add: spec_ok_def)
    have split: "?l = ?l div ms_per_day * ms_per_day + ?l mod ms_per_day" by (rule div_mult_mod_eq [symmetric])
    have hr: "?l mod ms_per_day div 3600000 * 3600000 \<le> ?l mod ms_per_day"
      using div_mult_mod_eq [of "?l mod ms_per_day" 3600000] pos_mod_sign [of 3600000 "?l mod ms_per_day"] by linarith
    have old: "t \<le> after" if sk: "offset = 0 \<and> int h < 24 - DST_SLACK_HOURS \<or>
        offset = 1 \<and> int h < ?l mod ms_per_day div 3600000 - DST_SLACK_HOURS"
      and t: "t \<in> hour_times off spec n h" for h t
    proof -
      from t obtain mi where mi: "mi \<in> set (cs_minutes spec)" "t = at_minute off n (int h) (int mi)"
        by (auto simp: hour_times_def)
      have "mi \<le> 59" using ok(3) mi(1) by (simp add: list_all_iff)
      from sk show ?thesis
      proof
        assume a: "offset = 0 \<and> int h < 24 - DST_SLACK_HOURS"
        then have "(n + 1) * ms_per_day \<le> ?l div ms_per_day * ms_per_day"
          using assms(5) by (intro mult_right_mono) (simp_all add: ms_per_day_def)
        then have "(n + 1) * ms_per_day \<le> ?l"
          using split pos_mod_sign [of ms_per_day ?l] by (simp add: ms_per_day_def)
        moreover have "t + off < (n + 1) * ms_per_day" using a \<open>mi \<le> 59\<close>
          by (simp add: mi(2) at_minute_def DST_SLACK_HOURS_def ms_per_day_def)
        ultimately show ?thesis by simp
      next
        assume a: "offset = 1 \<and> int h < ?l mod ms_per_day div 3600000 - DST_SLACK_HOURS"
        then have n: "n = ?l div ms_per_day" using assms(6) by simp
        have "t + off \<le> n * ms_per_day + ?l mod ms_per_day div 3600000 * 3600000"
          using a \<open>mi \<le> 59\<close> by (simp add: mi(2) at_minute_def DST_SLACK_HOURS_def)
        moreover have "?l = n * ms_per_day + ?l mod ms_per_day" using split n by simp
        ultimately show ?thesis using hr by linarith
      qed
    qed
    have "best_of off n after ({} \<union> \<Union> (hour_times off spec n ` set (cs_hours spec)))
        (hour_loop (fixed_zone off) spec after (?l mod ms_per_day div 3600000) offset (y, m, d) (cs_hours spec) None)"
      by (rule hours_best [OF c assms(1-3) ok(3) old ok(1,2)]) (simp_all only: best_of_def option.case ball_empty)
    from best_of_earliest [OF this] True daysInMonth_civil [OF c assms(1)] show ?thesis
      by (simp add: day_run_def day_times_def c)
  qed
qed

lemma earliest_none: "earliest after S None \<Longrightarrow> earliest after T r \<Longrightarrow> earliest after (S \<union> T) r"
  by (auto simp: earliest_def split: option.splits)

lemma earliest_some: "earliest after S (Some b) \<Longrightarrow> (\<And>t. t \<in> T \<Longrightarrow> b \<le> t) \<Longrightarrow> earliest after (S \<union> T) (Some b)"
  by (auto simp: earliest_def)

lemma day_loop_earliest:
  assumes "off mod 1000 = 0" and "\<bar>off\<bar> \<le> ms_per_day" and "spec_ok spec"
    and "n = (after + off) div ms_per_day - 1 + int offset" and "-900 \<le> n"
  shows "case day_loop rounds (fixed_zone off) spec after ((after + off) mod ms_per_day div 3600000) offset (civil n) of
      None \<Rightarrow> (\<forall>k. n \<le> k \<and> k < n + int rounds \<longrightarrow> earliest after (day_times off spec k) None)
    | Some b \<Rightarrow> after < b \<and> (\<exists>k \<ge> n. b \<in> day_times off spec k) \<and> (\<forall>k \<ge> n. \<forall>t \<in> day_times off spec k. after < t \<longrightarrow> b \<le> t)"
  using assms(4,5)
proof (induction rounds arbitrary: n offset)
  case (Suc rounds)
  have e: "earliest after (day_times off spec n)
    (day_run (fixed_zone off) spec after ((after + off) mod ms_per_day div 3600000) offset (civil n))"
    using Suc.prems assms(1-3) by (intro day_run_earliest) auto
  show ?case
  proof (cases "day_run (fixed_zone off) spec after ((after + off) mod ms_per_day div 3600000) offset (civil n)")
    case None
    let ?rest = "day_loop rounds (fixed_zone off) spec after ((after + off) mod ms_per_day div 3600000) (Suc offset) (civil (n + 1))"
    have day: "\<forall>t \<in> day_times off spec n. t \<le> after" using e None by (simp add: earliest_def)
    have "day_loop (Suc rounds) (fixed_zone off) spec after ((after + off) mod ms_per_day div 3600000) offset (civil n) = ?rest"
      using None Suc.prems by (simp add: addDays_civil)
    moreover have IH: "case ?rest of
        None \<Rightarrow> (\<forall>k. n + 1 \<le> k \<and> k < n + 1 + int rounds \<longrightarrow> earliest after (day_times off spec k) None)
      | Some b \<Rightarrow> after < b \<and> (\<exists>k \<ge> n + 1. b \<in> day_times off spec k)
          \<and> (\<forall>k \<ge> n + 1. \<forall>t \<in> day_times off spec k. after < t \<longrightarrow> b \<le> t)"
      using Suc.prems by (intro Suc.IH) simp_all
    moreover have "n \<le> k \<longleftrightarrow> k = n \<or> n + 1 \<le> k" for k by auto
    ultimately show ?thesis using day by (cases ?rest) (fastforce simp: earliest_def)+
  next
    case (Some b)
    with e have b: "b \<in> day_times off spec n" "after < b" "\<forall>t \<in> day_times off spec n. after < t \<longrightarrow> b \<le> t"
      by (simp_all add: earliest_def)
    have "b \<le> t" if "n < k" "t \<in> day_times off spec k" for k t
    proof -
      have "(b + off) div ms_per_day = n" "(t + off) div ms_per_day = k"
        using b(1) that(2) day_times_cron [OF assms(3)] by blast+
      with that(1) have "(b + off) div ms_per_day < (t + off) div ms_per_day" by simp
      then show ?thesis using zdiv_mono1 [of "t + off" "b + off" ms_per_day] by (cases "b \<le> t") (simp_all add: ms_per_day_def)
    qed
    with b have "\<forall>k \<ge> n. \<forall>t \<in> day_times off spec k. after < t \<longrightarrow> b \<le> t" by (metis order_le_less)
    with b Some show ?thesis by auto
  qed
qed auto


lemma nextCronRun_fixed:
  assumes "-800 * ms_per_day \<le> after + off"
  shows "nextCronRun (fixed_zone off) spec after = day_loop (Suc MAX_SEARCH_DAYS) (fixed_zone off) spec after
    ((after + off) mod ms_per_day div 3600000) 0 (civil ((after + off) div ms_per_day - 1))"
proof -
  let ?n = "(after + off) div ms_per_day"
  have "-800 \<le> ?n" using zdiv_mono1 [OF assms, of ms_per_day] by (simp add: ms_per_day_def)
  then have "addDays (civil ?n) (-1) = civil (?n - 1)" by (simp add: addDays_civil)
  moreover obtain y m d where "civil ?n = (y, m, d)" by (cases "civil ?n")
  ultimately show ?thesis by (simp add: nextCronRun_def wallClockAt_fixed utc_clock_def Let_def del: day_loop.simps)
qed

text \<open>In every time zone, a run that is found is strictly later than the given time and is one of the
  instants at which an hour and a minute of the schedule occur on a day that exists and matches.\<close>

theorem nextCronRun_sound:
  "case nextCronRun zone spec afterMs of None \<Rightarrow> True
   | Some t \<Rightarrow> afterMs < t \<and> (\<exists>date. day_offers zone spec date t)"
proof (cases "nextCronRun zone spec afterMs")
  case (Some t)
  from day_loop_sound [OF Some [unfolded nextCronRun_def Let_def]] have "afterMs < t \<and> (\<exists>date. day_offers zone spec date t)" .
  with Some show ?thesis by (simp del: split_paired_Ex)
qed simp

text \<open>C12: in a time zone with a fixed offset the search is exact: the run found is the earliest time of
  the schedule strictly after the given one, for every well-formed schedule; and when none is found
  there is none in the next 3294 days.\<close>

theorem nextCronRun_earliest:
  assumes "spec_ok spec" and "off mod 1000 = 0" and "\<bar>off\<bar> \<le> ms_per_day" and "0 \<le> afterMs"
  shows "case nextCronRun (fixed_zone off) spec afterMs of
      Some t \<Rightarrow> cron_time off spec t \<and> afterMs < t \<and> (\<forall>u. cron_time off spec u \<and> afterMs < u \<longrightarrow> t \<le> u)
    | None \<Rightarrow> (\<forall>u. cron_time off spec u \<and> afterMs < u \<longrightarrow>
        (afterMs + off) div ms_per_day + int MAX_SEARCH_DAYS \<le> (u + off) div ms_per_day)"
proof -
  let ?n0 = "(afterMs + off) div ms_per_day"
  let ?run = "day_loop (Suc MAX_SEARCH_DAYS) (fixed_zone off) spec afterMs
    ((afterMs + off) mod ms_per_day div 3600000) 0 (civil (?n0 - 1))"
  have low: "- 1 * ms_per_day \<le> afterMs + off" using assms(3,4) by simp
  then have "-1 \<le> ?n0" using zdiv_mono1 [OF low, of ms_per_day] by (simp add: ms_per_day_def)
  then have dl: "case ?run of
      None \<Rightarrow> (\<forall>k. ?n0 - 1 \<le> k \<and> k < ?n0 - 1 + int (Suc MAX_SEARCH_DAYS) \<longrightarrow> earliest afterMs (day_times off spec k) None)
    | Some b \<Rightarrow> afterMs < b \<and> (\<exists>k \<ge> ?n0 - 1. b \<in> day_times off spec k)
        \<and> (\<forall>k \<ge> ?n0 - 1. \<forall>t \<in> day_times off spec k. afterMs < t \<longrightarrow> b \<le> t)"
    using assms(1-3) by (intro day_loop_earliest) simp_all
  have mem: "u \<in> day_times off spec ((u + off) div ms_per_day)" if "cron_time off spec u" for u
    using day_times_cron [OF assms(1)] that by blast
  have late: "?n0 - 1 \<le> (u + off) div ms_per_day" if "afterMs < u" for u
    using zdiv_mono1 [of "afterMs + off" "u + off" ms_per_day] that by (simp add: ms_per_day_def)
  have run: "nextCronRun (fixed_zone off) spec afterMs = ?run"
    using low by (intro nextCronRun_fixed) (simp add: ms_per_day_def)
  show ?thesis
  proof (cases ?run)
    case None
    have "?n0 + int MAX_SEARCH_DAYS \<le> (u + off) div ms_per_day" if "cron_time off spec u" "afterMs < u" for u
    proof (rule ccontr)
      assume "\<not> ?n0 + int MAX_SEARCH_DAYS \<le> (u + off) div ms_per_day"
      then have "earliest afterMs (day_times off spec ((u + off) div ms_per_day)) None"
        using dl None late [OF that(2)] by simp
      with mem [OF that(1)] that(2) show False by (auto simp: earliest_def)
    qed
    with run None show ?thesis by simp
  next
    case (Some b)
    with dl obtain k where "b \<in> day_times off spec k" "afterMs < b"
      and least: "\<forall>k \<ge> ?n0 - 1. \<forall>t \<in> day_times off spec k. afterMs < t \<longrightarrow> b \<le> t" by auto
    moreover from this day_times_cron [OF assms(1)] have "cron_time off spec b" by blast
    moreover have "b \<le> u" if "cron_time off spec u" "afterMs < u" for u
      using least late [OF that(2)] mem [OF that(1)] that(2) by blast
    ultimately show ?thesis using run Some by simp
  qed
qed

definition sample_schedule :: CronSpec where
  "sample_schedule = \<lparr>cs_minutes = [0, 30], cs_hours = [9], cs_daysOfMonth = [1], cs_months = [1, 7],
     cs_daysOfWeek = [0], cs_domRestricted = True, cs_dowRestricted = False, cs_repeatsInOverlap = False\<rparr>"

theorem nextCronRun_earliest_witness:
  "case nextCronRun (fixed_zone 19800000) sample_schedule 1700000000000 of
      Some t \<Rightarrow> cron_time 19800000 sample_schedule t \<and> 1700000000000 < t \<and>
        (\<forall>u. cron_time 19800000 sample_schedule u \<and> 1700000000000 < u \<longrightarrow> t \<le> u)
    | None \<Rightarrow> (\<forall>u. cron_time 19800000 sample_schedule u \<and> 1700000000000 < u \<longrightarrow>
        (1700000000000 + 19800000) div ms_per_day + int MAX_SEARCH_DAYS \<le> (u + 19800000) div ms_per_day)"
  by (rule nextCronRun_earliest) (simp_all add: spec_ok_def sample_schedule_def ms_per_day_def)

end
