(* ===== verification/Pane_Ring.thy ===== *)
theory Pane_Ring
  imports Js_Value
begin

text \<open>
  The observation ring and cursor store of the pane inspection API
  (\<^verbatim>\<open>backend/src/services/paneInspectionRing.ts\<close>): the class \<open>PaneInspectionRing\<close> as a state and one
  function per method. A JavaScript \<open>Map\<close> is an association list in insertion order, a \<open>Set\<close> a list.
  The injected clock is the argument \<open>now\<close> of a method (the readings within one call are taken to be
  equal), the token source is the sequence \<open>createToken\<close>, of which the state counts the tokens used. A
  content snapshot is represented by its JSON text, which is all the class compares. The theorems say
  that the stores stay consistent and bounded, that a replay has no gap, that a cursor works only for
  the scope it was minted for, that a watched pane is never evicted, and that sampling never advances
  a revision.
\<close>

section \<open>Data\<close>

record AuthorizationScope =
  z_ownerUserId :: jstr
  z_workspaceId :: jstr
  z_runOwnerId :: "jstr option"  \<comment> \<open>absent and \<open>null\<close> are compared as equal\<close>

definition scopesEqual :: "AuthorizationScope \<Rightarrow> AuthorizationScope \<Rightarrow> bool" where
  "scopesEqual a b \<longleftrightarrow> z_ownerUserId a = z_ownerUserId b \<and> z_workspaceId a = z_workspaceId b
     \<and> z_runOwnerId a = z_runOwnerId b"

datatype RingEventKind = Changed | OutputChanged | ExecutionSettled | Removed | AccessRevoked

record RingEvent =
  ev_kind :: RingEventKind
  ev_payload :: jsval
  ev_sizeBytes :: int

record RetainedEvent =
  rt_event :: RingEvent
  rt_revision :: nat
  rt_emittedAt :: int
  rt_cursor :: jstr

datatype ResyncReason = AgedOut | Evicted | NotReplayable | EpochMismatch | UnknownCursor

record resolved_cursor =
  q_paneId :: jstr
  q_revision :: nat
  q_cursorRevision :: nat
  q_replay :: "RetainedEvent list"

type_synonym CursorResolution = "ResyncReason + resolved_cursor"

record ObjectRing =
  o_paneId :: jstr
  o_scope :: AuthorizationScope
  o_revision :: nat
  o_lastContent :: "jstr option"
  o_events :: "RetainedEvent list"
  o_bytes :: int
  o_createdAt :: int
  o_lastTouchedAt :: int
  o_subscriberCount :: nat

record StoredCursor =
  k_token :: jstr
  k_paneId :: jstr
  k_scope :: AuthorizationScope
  k_epoch :: jstr
  k_revision :: nat
  k_mintedAt :: int
  k_expiresAt :: int

record RingOptions =
  f_createToken :: "nat \<Rightarrow> jstr"
  f_cursorTtlMs :: int
  f_ringMaxAgeMs :: int
  f_ringMaxEvents :: nat
  f_ringMaxBytes :: int
  f_workspaceRingBudgetBytes :: int

record PaneRing =
  g_epoch :: jstr
  g_objects :: "(jstr \<times> ObjectRing) list"
  g_cursors :: "(jstr \<times> StoredCursor) list"
  g_workspaceIndex :: "(jstr \<times> jstr list) list"
  g_tokens :: nat

definition new_ring :: "jstr \<Rightarrow> PaneRing" where
  "new_ring epoch = \<lparr>g_epoch = epoch, g_objects = [], g_cursors = [], g_workspaceIndex = [], g_tokens = 0\<rparr>"

definition resetEpoch :: "jstr \<Rightarrow> PaneRing \<Rightarrow> PaneRing" where
  "resetEpoch newEpoch st = st\<lparr>g_epoch := newEpoch\<rparr>"

definition get_object :: "PaneRing \<Rightarrow> jstr \<Rightarrow> ObjectRing option" where
  "get_object st p = map_of (g_objects st) p"

definition put_object :: "ObjectRing \<Rightarrow> PaneRing \<Rightarrow> PaneRing" where
  \<comment> \<open>A mutation of the object stored under its pane id.\<close>
  "put_object r st = st\<lparr>g_objects := AList.update (o_paneId r) r (g_objects st)\<rparr>"

section \<open>Object lifecycle\<close>

definition bucket_of :: "PaneRing \<Rightarrow> jstr \<Rightarrow> jstr list" where
  "bucket_of st w = default_to (map_of (g_workspaceIndex st) w) []"

definition getOrCreate :: "int \<Rightarrow> jstr \<Rightarrow> AuthorizationScope \<Rightarrow> PaneRing \<Rightarrow> ObjectRing \<times> PaneRing" where
  "getOrCreate now paneId scope st = (case get_object st paneId of
     Some r \<Rightarrow> (r, st)
   | None \<Rightarrow>
       let r = \<lparr>o_paneId = paneId, o_scope = scope, o_revision = 0, o_lastContent = None, o_events = [],
                o_bytes = 0, o_createdAt = now, o_lastTouchedAt = now, o_subscriberCount = 0\<rparr>;
           w = z_workspaceId scope;
           bucket = bucket_of st w
       in (r, (put_object r st)\<lparr>g_workspaceIndex :=
            AList.update w (if paneId \<in> set bucket then bucket else bucket @ [paneId]) (g_workspaceIndex st)\<rparr>))"

definition removeObject :: "jstr \<Rightarrow> PaneRing \<Rightarrow> PaneRing" where
  "removeObject paneId st = (case get_object st paneId of None \<Rightarrow> st
     | Some r \<Rightarrow>
         let w = z_workspaceId (o_scope r)
         in st\<lparr>g_objects := AList.delete paneId (g_objects st),
               g_workspaceIndex := AList.map_entry w (removeAll paneId) (g_workspaceIndex st),
               g_cursors := filter (\<lambda>tc. k_paneId (snd tc) \<noteq> paneId) (g_cursors st)\<rparr>)"

definition registerSubscriber :: "int \<Rightarrow> jstr \<Rightarrow> AuthorizationScope \<Rightarrow> PaneRing \<Rightarrow> PaneRing" where
  "registerSubscriber now paneId scope st = (case getOrCreate now paneId scope st of (r, st') \<Rightarrow>
     put_object (r\<lparr>o_subscriberCount := o_subscriberCount r + 1, o_lastTouchedAt := now\<rparr>) st')"

definition releaseSubscriber :: "jstr \<Rightarrow> PaneRing \<Rightarrow> PaneRing" where
  "releaseSubscriber paneId st = (case get_object st paneId of None \<Rightarrow> st
     | Some r \<Rightarrow> if o_subscriberCount r = 0 then st
         else put_object (r\<lparr>o_subscriberCount := o_subscriberCount r - 1\<rparr>) st)"

definition hasActiveSubscriber :: "PaneRing \<Rightarrow> jstr \<Rightarrow> bool" where
  "hasActiveSubscriber st paneId = (case get_object st paneId of None \<Rightarrow> False | Some r \<Rightarrow> 0 < o_subscriberCount r)"

section \<open>Trimming and events\<close>

fun trim_events :: "RingOptions \<Rightarrow> int \<Rightarrow> RetainedEvent list \<Rightarrow> int \<Rightarrow> RetainedEvent list \<times> int" where
  "trim_events opts now [] bytes = ([], bytes)"
| "trim_events opts now (oldest # events) bytes =
     (if f_ringMaxAgeMs opts < now - rt_emittedAt oldest
         \<or> f_ringMaxEvents opts < length (oldest # events) \<or> f_ringMaxBytes opts < bytes
      then trim_events opts now events (bytes - ev_sizeBytes (rt_event oldest))
      else (oldest # events, bytes))"

definition trimRing :: "RingOptions \<Rightarrow> int \<Rightarrow> ObjectRing \<Rightarrow> ObjectRing" where
  "trimRing opts now r = (case trim_events opts now (o_events r) (o_bytes r) of
     (events, bytes) \<Rightarrow> r\<lparr>o_events := events, o_bytes := bytes\<rparr>)"

definition spread_members :: "jsval \<Rightarrow> (jstr \<times> jsval) list" where
  \<comment> \<open>The members that \<open>{ ...v }\<close> copies.\<close>
  "spread_members v = (case v of JObj kvs \<Rightarrow> kvs
     | JArr vs \<Rightarrow> map (\<lambda>(i, x). (decimal i, x)) (enumerate 0 vs)
     | JStr s \<Rightarrow> map (\<lambda>(i, c). (decimal i, JStr [c])) (enumerate 0 s)
     | _ \<Rightarrow> [])"

definition withCursor :: "RingEvent \<Rightarrow> jstr \<Rightarrow> RingEvent" where
  "withCursor event cursor =
     (if \<not> is_object (ev_payload event) then event
      else let payload = spread_members (ev_payload event);
               payload = (if js ''cursor'' \<in> fst ` set payload
                          then AList.update (js ''cursor'') (JStr cursor) payload else payload);
               descriptor = js_prop (JObj payload) (js ''descriptor'');
               observation = js_prop descriptor (js ''observation'');
               payload = (if js_truthy observation
                 then AList.update (js ''descriptor'') (JObj (AList.update (js ''observation'')
                        (JObj (AList.update (js ''cursor'') (JStr cursor) (spread_members observation)))
                        (spread_members descriptor))) payload
                 else payload)
           in event\<lparr>ev_payload := JObj payload\<rparr>)"

definition appendEvent :: "RingOptions \<Rightarrow> int \<Rightarrow> RingEvent \<Rightarrow> jstr \<Rightarrow> ObjectRing \<Rightarrow> ObjectRing" where
  "appendEvent opts now event cursor r =
     (let e = withCursor event cursor
      in trimRing opts now (r\<lparr>o_events := o_events r @ [\<lparr>rt_event = e, rt_revision = o_revision r,
           rt_emittedAt = now, rt_cursor = cursor\<rparr>], o_bytes := o_bytes r + ev_sizeBytes e\<rparr>))"

section \<open>Workspace budget\<close>

definition totalBytes :: "PaneRing \<Rightarrow> jstr list \<Rightarrow> int" where
  "totalBytes st ids = sum_list (map (\<lambda>p. case get_object st p of None \<Rightarrow> 0 | Some r \<Rightarrow> o_bytes r) ids)"

fun pick_victim :: "PaneRing \<Rightarrow> ObjectRing option \<Rightarrow> jstr list \<Rightarrow> ObjectRing option" where
  "pick_victim st victim [] = victim"
| "pick_victim st victim (p # ps) = (case get_object st p of
     None \<Rightarrow> pick_victim st victim ps
   | Some r \<Rightarrow>
       if 0 < o_subscriberCount r then pick_victim st victim ps
       else pick_victim st (case victim of None \<Rightarrow> Some r
              | Some v \<Rightarrow> if o_lastTouchedAt r < o_lastTouchedAt v then Some r else Some v) ps)"

text \<open>
  The eviction loop. A victim is stored under its own pane id, so every round removes one object and
  \<open>length (g_objects st)\<close> rounds are enough.
\<close>

fun evict_rounds :: "nat \<Rightarrow> RingOptions \<Rightarrow> jstr \<Rightarrow> PaneRing \<Rightarrow> PaneRing" where
  "evict_rounds 0 opts w st = st"
| "evict_rounds (Suc rounds) opts w st =
     (if totalBytes st (bucket_of st w) \<le> f_workspaceRingBudgetBytes opts then st
      else case pick_victim st None (bucket_of st w) of
             None \<Rightarrow> st
           | Some victim \<Rightarrow> evict_rounds rounds opts w (removeObject (o_paneId victim) st))"

definition enforceWorkspaceBudget :: "RingOptions \<Rightarrow> jstr \<Rightarrow> PaneRing \<Rightarrow> PaneRing" where
  "enforceWorkspaceBudget opts w st =
     (case map_of (g_workspaceIndex st) w of None \<Rightarrow> st
      | Some _ \<Rightarrow> evict_rounds (Suc (length (g_objects st))) opts w st)"

section \<open>Cursors\<close>

definition CURSOR_CAP :: nat where
  "CURSOR_CAP = 10000"

definition mintCursorForRing ::
  "RingOptions \<Rightarrow> int \<Rightarrow> ObjectRing \<Rightarrow> AuthorizationScope \<Rightarrow> PaneRing \<Rightarrow> jstr \<times> PaneRing" where
  "mintCursorForRing opts now r scope st =
     (let live = dropWhile (\<lambda>tc. k_expiresAt (snd tc) < now) (g_cursors st);
          room = drop (Suc (length live) - CURSOR_CAP) live;
          token = f_createToken opts (g_tokens st)
      in (token, st\<lparr>g_tokens := Suc (g_tokens st),
            g_cursors := AList.update token \<lparr>k_token = token, k_paneId = o_paneId r, k_scope = scope,
              k_epoch = g_epoch st, k_revision = o_revision r, k_mintedAt = now,
              k_expiresAt = now + f_cursorTtlMs opts\<rparr> room\<rparr>))"

section \<open>Recording\<close>

definition recordContentChange ::
  "RingOptions \<Rightarrow> int \<Rightarrow> jstr \<Rightarrow> AuthorizationScope \<Rightarrow> jstr \<Rightarrow> RingEvent \<Rightarrow> PaneRing \<Rightarrow> jstr \<times> PaneRing" where
  "recordContentChange opts now paneId scope content event st =
     (case getOrCreate now paneId scope st of (r, st1) \<Rightarrow>
        let changed = (o_lastContent r = None \<or> o_lastContent r \<noteq> Some content);
            r1 = r\<lparr>o_lastTouchedAt := now, o_lastContent := Some content\<rparr>;
            w = z_workspaceId (o_scope r)
        in if \<not> changed
           then (case mintCursorForRing opts now r1 scope (put_object r1 st1) of (cursor, st2) \<Rightarrow>
                   (cursor, enforceWorkspaceBudget opts w st2))
           else let r2 = r1\<lparr>o_revision := o_revision r1 + 1\<rparr>
                in case mintCursorForRing opts now r2 scope (put_object r2 st1) of (cursor, st2) \<Rightarrow>
                     (cursor, enforceWorkspaceBudget opts w (put_object (appendEvent opts now event cursor r2) st2)))"

definition recordSnapshot ::
  "RingOptions \<Rightarrow> int \<Rightarrow> jstr \<Rightarrow> AuthorizationScope \<Rightarrow> jstr \<Rightarrow> RingEvent option \<Rightarrow> PaneRing \<Rightarrow> jstr \<times> PaneRing" where
  "recordSnapshot opts now paneId scope content event st =
     (case getOrCreate now paneId scope st of (r, st1) \<Rightarrow>
        let changed = (o_lastContent r \<noteq> None \<and> o_lastContent r \<noteq> Some content);
            r1 = r\<lparr>o_lastTouchedAt := now, o_lastContent := Some content,
                   o_revision := (if changed then o_revision r + 1 else o_revision r)\<rparr>;
            w = z_workspaceId (o_scope r)
        in case mintCursorForRing opts now r1 scope (put_object r1 st1) of (cursor, st2) \<Rightarrow>
             (cursor, enforceWorkspaceBudget opts w
                (case event of Some e \<Rightarrow> if changed then put_object (appendEvent opts now e cursor r1) st2 else st2
                 | None \<Rightarrow> st2)))"

definition mintInspectionCursor ::
  "RingOptions \<Rightarrow> int \<Rightarrow> jstr \<Rightarrow> AuthorizationScope \<Rightarrow> jstr \<Rightarrow> RingEvent option \<Rightarrow> PaneRing \<Rightarrow> jstr \<times> PaneRing" where
  "mintInspectionCursor = recordSnapshot"

definition recordObservedAtRefresh ::
  "RingOptions \<Rightarrow> int \<Rightarrow> jstr \<Rightarrow> AuthorizationScope \<Rightarrow> PaneRing \<Rightarrow> jstr \<times> PaneRing" where
  "recordObservedAtRefresh opts now paneId scope st = (case getOrCreate now paneId scope st of (r, st1) \<Rightarrow>
     let r1 = r\<lparr>o_lastTouchedAt := now\<rparr> in mintCursorForRing opts now r1 scope (put_object r1 st1))"

definition touch :: "int \<Rightarrow> jstr \<Rightarrow> PaneRing \<Rightarrow> PaneRing" where
  "touch now paneId st = (case get_object st paneId of None \<Rightarrow> st
     | Some r \<Rightarrow> put_object (r\<lparr>o_lastTouchedAt := now\<rparr>) st)"

definition recordPresenceKeepalive :: "int \<Rightarrow> jstr \<Rightarrow> PaneRing \<Rightarrow> PaneRing" where
  "recordPresenceKeepalive now paneId st = touch now paneId st"

definition recordHeartbeat :: "int \<Rightarrow> jstr \<Rightarrow> PaneRing \<Rightarrow> PaneRing" where
  "recordHeartbeat now paneId st = touch now paneId st"

definition enforceWorkspaceBudgetFor :: "RingOptions \<Rightarrow> jstr \<Rightarrow> PaneRing \<Rightarrow> PaneRing" where
  "enforceWorkspaceBudgetFor opts w st = enforceWorkspaceBudget opts w st"

section \<open>Resolving a cursor\<close>

text \<open>Give each replayed entry a cursor of the requester's scope.\<close>

definition scope_entry ::
  "RingOptions \<Rightarrow> int \<Rightarrow> ObjectRing \<Rightarrow> AuthorizationScope \<Rightarrow> PaneRing \<Rightarrow> RetainedEvent \<Rightarrow> RetainedEvent \<times> PaneRing" where
  "scope_entry opts now r scope st entry =
     (if (case map_of (g_cursors st) (rt_cursor entry) of None \<Rightarrow> False
          | Some c \<Rightarrow> scopesEqual (k_scope c) scope)
      then (entry, st)
      else case mintCursorForRing opts now r scope st of (cursor, st') \<Rightarrow>
             (entry\<lparr>rt_cursor := cursor, rt_event := withCursor (rt_event entry) cursor\<rparr>,
              st'\<lparr>g_cursors := AList.map_entry cursor (\<lambda>c. c\<lparr>k_revision := rt_revision entry\<rparr>) (g_cursors st')\<rparr>))"

fun scope_entries ::
  "RingOptions \<Rightarrow> int \<Rightarrow> ObjectRing \<Rightarrow> AuthorizationScope \<Rightarrow> PaneRing \<Rightarrow> RetainedEvent list \<Rightarrow> RetainedEvent list \<times> PaneRing" where
  "scope_entries opts now r scope st [] = ([], st)"
| "scope_entries opts now r scope st (e # es) =
     (case scope_entry opts now r scope st e of (e', st1) \<Rightarrow>
        case scope_entries opts now r scope st1 es of (es', st2) \<Rightarrow> (e' # es', st2))"

definition replayable :: "nat \<Rightarrow> ObjectRing \<Rightarrow> RetainedEvent list \<Rightarrow> bool" where
  "replayable n r replay \<longleftrightarrow>
     \<not> (o_events r \<noteq> [] \<and> n + 1 < rt_revision (hd (o_events r)) \<and> n < o_revision r)
     \<and> \<not> (n < o_revision r \<and> length replay \<noteq> o_revision r - n)"

definition drop_cursor :: "jstr \<Rightarrow> PaneRing \<Rightarrow> PaneRing" where
  "drop_cursor token st = st\<lparr>g_cursors := AList.delete token (g_cursors st)\<rparr>"

definition resolveCursor ::
  "RingOptions \<Rightarrow> int \<Rightarrow> jstr \<Rightarrow> AuthorizationScope \<Rightarrow> PaneRing \<Rightarrow> CursorResolution \<times> PaneRing" where
  "resolveCursor opts now token requesterScope st = (case map_of (g_cursors st) token of
     None \<Rightarrow> (Inl UnknownCursor, st)
   | Some stored \<Rightarrow>
       if k_epoch stored \<noteq> g_epoch st then (Inl EpochMismatch, drop_cursor token st)
       else if k_expiresAt stored < now then (Inl AgedOut, drop_cursor token st)
       else if \<not> scopesEqual (k_scope stored) requesterScope then (Inl UnknownCursor, st)
       else case get_object st (k_paneId stored) of
              None \<Rightarrow> (Inl Evicted, st)
            | Some r0 \<Rightarrow>
                if o_revision r0 < k_revision stored then (Inl NotReplayable, st)
                else let r = trimRing opts now r0;
                         st1 = put_object r st;
                         replay = filter (\<lambda>e. k_revision stored < rt_revision e) (o_events r)
                     in if \<not> replayable (k_revision stored) r replay then (Inl NotReplayable, st1)
                        else case scope_entries opts now r requesterScope st1 replay of (scoped, st2) \<Rightarrow>
                          (Inr \<lparr>q_paneId = k_paneId stored, q_revision = o_revision r,
                                q_cursorRevision = k_revision stored, q_replay = scoped\<rparr>, st2))"

section \<open>Diagnostics\<close>

definition getRevision :: "PaneRing \<Rightarrow> jstr \<Rightarrow> nat option" where
  "getRevision st p = map_option o_revision (get_object st p)"

definition hasRing :: "PaneRing \<Rightarrow> jstr \<Rightarrow> bool" where
  "hasRing st p \<longleftrightarrow> get_object st p \<noteq> None"

definition getEventCount :: "PaneRing \<Rightarrow> jstr \<Rightarrow> nat" where
  "getEventCount st p = (case get_object st p of None \<Rightarrow> 0 | Some r \<Rightarrow> length (o_events r))"

definition getRingBytes :: "PaneRing \<Rightarrow> jstr \<Rightarrow> int" where
  "getRingBytes st p = (case get_object st p of None \<Rightarrow> 0 | Some r \<Rightarrow> o_bytes r)"

section \<open>The invariant\<close>

definition event_bytes :: "RetainedEvent list \<Rightarrow> int" where
  "event_bytes es = sum_list (map (\<lambda>e. ev_sizeBytes (rt_event e)) es)"

definition object_ok :: "RingOptions \<Rightarrow> jstr \<Rightarrow> ObjectRing \<Rightarrow> bool" where
  "object_ok opts p r \<longleftrightarrow> o_paneId r = p \<and> o_bytes r = event_bytes (o_events r)
     \<and> sorted_wrt (<) (map rt_revision (o_events r))
     \<and> list_all (\<lambda>e. rt_revision e \<le> o_revision r) (o_events r)
     \<and> length (o_events r) \<le> f_ringMaxEvents opts \<and> o_bytes r \<le> f_ringMaxBytes opts"

definition cursor_ok :: "PaneRing \<Rightarrow> StoredCursor \<Rightarrow> bool" where
  "cursor_ok st c \<longleftrightarrow> (case get_object st (k_paneId c) of None \<Rightarrow> False | Some r \<Rightarrow> k_revision c \<le> o_revision r)"

definition index_ok :: "PaneRing \<Rightarrow> bool" where
  "index_ok st \<longleftrightarrow> (\<forall>w p. p \<in> set (bucket_of st w) \<longleftrightarrow>
     (\<exists>r. get_object st p = Some r \<and> z_workspaceId (o_scope r) = w))"

definition ring_ok :: "RingOptions \<Rightarrow> PaneRing \<Rightarrow> bool" where
  "ring_ok opts st \<longleftrightarrow> distinct (map fst (g_objects st)) \<and> distinct (map fst (g_cursors st))
     \<and> (\<forall>p r. get_object st p = Some r \<longrightarrow> object_ok opts p r)
     \<and> list_all (\<lambda>tc. cursor_ok st (snd tc)) (g_cursors st)
     \<and> length (g_cursors st) \<le> CURSOR_CAP \<and> index_ok st"

lemma get_put [simp]: "get_object (put_object r st) p = (if p = o_paneId r then Some r else get_object st p)"
  by (simp add: get_object_def put_object_def update_conv')

lemma put_frame [simp]:
  "g_cursors (put_object r st) = g_cursors st" "g_workspaceIndex (put_object r st) = g_workspaceIndex st"
  "g_epoch (put_object r st) = g_epoch st" "bucket_of (put_object r st) w = bucket_of st w"
  by (simp_all add: put_object_def bucket_of_def)

lemma distinct_put: "distinct (map fst (g_objects st)) \<Longrightarrow> distinct (map fst (g_objects (put_object r st)))"
  by (simp add: put_object_def distinct_update)

text \<open>Replacing a stored object by one that keeps its id and scope and does not lower the revision.\<close>

definition succeeds :: "ObjectRing \<Rightarrow> ObjectRing \<Rightarrow> bool" where
  "succeeds r r' \<longleftrightarrow> o_paneId r' = o_paneId r \<and> o_scope r' = o_scope r \<and> o_revision r \<le> o_revision r'"

lemma put_ok:
  assumes "ring_ok opts st" and "get_object st (o_paneId r) = Some r" and "succeeds r r'" and "object_ok opts (o_paneId r) r'"
  shows "ring_ok opts (put_object r' st)"
proof -
  have "cursor_ok (put_object r' st) c" if "cursor_ok st c" for c
    using that assms(2,3) by (auto simp: cursor_ok_def succeeds_def split: option.splits)
  then have "list_all (\<lambda>tc. cursor_ok (put_object r' st) (snd tc)) (g_cursors st)"
    using assms(1) by (auto simp: ring_ok_def list_all_iff)
  moreover have "index_ok (put_object r' st)"
    using assms(1-3) by (auto simp: ring_ok_def index_ok_def succeeds_def)
  moreover have "\<forall>p s. get_object (put_object r' st) p = Some s \<longrightarrow> object_ok opts p s"
    using assms by (auto simp: ring_ok_def succeeds_def)
  ultimately show ?thesis using assms(1) distinct_put by (simp add: ring_ok_def)
qed

subsection \<open>Trimming\<close>

lemma trim_events_drop:
  assumes "trim_events opts now es b = (es', b')" and "b = event_bytes es"
  shows "(\<exists>k. es' = drop k es) \<and> b' = event_bytes es' \<and>
    (es' \<noteq> [] \<longrightarrow> length es' \<le> f_ringMaxEvents opts \<and> b' \<le> f_ringMaxBytes opts)"
  using assms
proof (induction opts now es b rule: trim_events.induct)
  case (2 opts now e es b)
  show ?case
  proof (cases "f_ringMaxAgeMs opts < now - rt_emittedAt e \<or> f_ringMaxEvents opts < length (e # es) \<or> f_ringMaxBytes opts < b")
    case True
    have bytes: "b - ev_sizeBytes (rt_event e) = event_bytes es" using "2.prems"(2) by (simp add: event_bytes_def)
    have "trim_events opts now es (b - ev_sizeBytes (rt_event e)) = (es', b')" using "2.prems"(1) True by simp
    from "2.IH" [OF True this bytes]
    show ?thesis by (metis drop_Suc_Cons)
  next
    case False
    then have "es' = e # es" "b' = b" using "2.prems"(1) by auto
    with False "2.prems"(2) show ?thesis by (metis drop0 not_le)
  qed
qed (auto simp: event_bytes_def)

lemma trimRing_frame [simp]:
  "o_paneId (trimRing opts now r) = o_paneId r" "o_scope (trimRing opts now r) = o_scope r"
  "o_revision (trimRing opts now r) = o_revision r" "o_lastContent (trimRing opts now r) = o_lastContent r"
  "o_subscriberCount (trimRing opts now r) = o_subscriberCount r"
  by (simp_all add: trimRing_def split: prod.split)

lemma trimRing_ok:
  assumes "o_paneId r = p" and "o_bytes r = event_bytes (o_events r)"
    and "sorted_wrt (<) (map rt_revision (o_events r))"
    and "list_all (\<lambda>e. rt_revision e \<le> o_revision r) (o_events r)" and "0 \<le> f_ringMaxBytes opts"
  shows "object_ok opts p (trimRing opts now r)"
proof -
  obtain es b where t: "trim_events opts now (o_events r) (o_bytes r) = (es, b)"
    by (cases "trim_events opts now (o_events r) (o_bytes r)")
  from trim_events_drop [OF t assms(2)] obtain k where k: "es = drop k (o_events r)" "b = event_bytes es"
    and lim: "es \<noteq> [] \<longrightarrow> length es \<le> f_ringMaxEvents opts \<and> b \<le> f_ringMaxBytes opts" by blast
  have "sorted_wrt (<) (map rt_revision es)" using assms(3) k(1) by (simp add: drop_map [symmetric] sorted_wrt_drop)
  moreover have "list_all (\<lambda>e. rt_revision e \<le> o_revision r) es"
    using assms(4) k(1) by (auto simp: list_all_iff dest: in_set_dropD)
  moreover have "length es \<le> f_ringMaxEvents opts \<and> b \<le> f_ringMaxBytes opts"
    using lim k(2) assms(5) by (cases "es = []") (auto simp: event_bytes_def)
  ultimately show ?thesis using assms(1) k(2) by (simp add: object_ok_def trimRing_def t)
qed

lemma trimRing_object_ok: "object_ok opts p r \<Longrightarrow> 0 \<le> f_ringMaxBytes opts \<Longrightarrow> object_ok opts p (trimRing opts now r)"
  by (rule trimRing_ok) (simp_all add: object_ok_def)

lemma withCursor_size [simp]: "ev_sizeBytes (withCursor e c) = ev_sizeBytes e"
  by (simp add: withCursor_def Let_def)

lemma appendEvent_ok:
  assumes "object_ok opts p r" and "o_revision r' = Suc (o_revision r)" and "o_events r' = o_events r"
    and "o_bytes r' = o_bytes r" and "o_paneId r' = o_paneId r" and "0 \<le> f_ringMaxBytes opts"
  shows "object_ok opts p (appendEvent opts now e cur r')"
proof -
  have "rt_revision x < o_revision r'" if "x \<in> set (o_events r')" for x
    using that assms by (auto simp: object_ok_def list_all_iff)
  then show ?thesis unfolding appendEvent_def Let_def using assms
    by (intro trimRing_ok) (auto simp: object_ok_def event_bytes_def sorted_wrt_append list_all_iff)
qed

lemma appendEvent_frame [simp]:
  "o_paneId (appendEvent opts now e c r) = o_paneId r" "o_scope (appendEvent opts now e c r) = o_scope r"
  "o_revision (appendEvent opts now e c r) = o_revision r" "o_lastContent (appendEvent opts now e c r) = o_lastContent r"
  "o_subscriberCount (appendEvent opts now e c r) = o_subscriberCount r"
  by (simp_all add: appendEvent_def Let_def)

subsection \<open>Creating, minting and removing\<close>

lemma bucket_update: "bucket_of (st\<lparr>g_workspaceIndex := AList.update w b (g_workspaceIndex st)\<rparr>) w' = (if w' = w then b else bucket_of st w')"
  by (simp add: bucket_of_def update_conv')

lemma getOrCreate_ok:
  assumes "ring_ok opts st" and "0 \<le> f_ringMaxBytes opts" and "getOrCreate now p scope st = (r, st')"
  shows "ring_ok opts st'" and "get_object st' p = Some r" and "o_paneId r = p"
    and "g_cursors st' = g_cursors st" and "g_epoch st' = g_epoch st"
    and "get_object st p = None \<Longrightarrow> o_subscriberCount r = 0" and "get_object st p = Some q \<Longrightarrow> q = r"
    and "p' \<noteq> p \<Longrightarrow> get_object st' p' = get_object st p'"
proof -
  have "ring_ok opts st' \<and> get_object st' p = Some r \<and> o_paneId r = p \<and> g_cursors st' = g_cursors st \<and> g_epoch st' = g_epoch st
    \<and> (get_object st p = None \<longrightarrow> o_subscriberCount r = 0) \<and> (get_object st p = Some q \<longrightarrow> q = r)
    \<and> (p' \<noteq> p \<longrightarrow> get_object st' p' = get_object st p')"
  proof (cases "get_object st p")
    case (Some r0)
    moreover from this have "object_ok opts p r0" using assms(1) by (simp add: ring_ok_def)
    ultimately show ?thesis using assms by (auto simp: getOrCreate_def object_ok_def)
  next
    case None
    let ?w = "z_workspaceId scope"
    have r: "r = \<lparr>o_paneId = p, o_scope = scope, o_revision = 0, o_lastContent = None, o_events = [],
        o_bytes = 0, o_createdAt = now, o_lastTouchedAt = now, o_subscriberCount = 0\<rparr>"
      and st': "st' = (put_object r st)\<lparr>g_workspaceIndex :=
        AList.update ?w (if p \<in> set (bucket_of st ?w) then bucket_of st ?w else bucket_of st ?w @ [p]) (g_workspaceIndex st)\<rparr>"
      using assms(3) None by (auto simp: getOrCreate_def Let_def)
    have get: "get_object st' q = (if q = p then Some r else get_object st q)" for q
      using r by (simp add: st' get_object_def put_object_def update_conv')
    have bk: "set (bucket_of st' w) = (if w = ?w then insert p (set (bucket_of st w)) else set (bucket_of st w))" for w
      by (auto simp: st' bucket_of_def update_conv' put_object_def)
    have "index_ok st'" using assms(1) None
      by (auto simp: index_ok_def ring_ok_def get bk r split: if_splits)
    moreover have "list_all (\<lambda>tc. cursor_ok st' (snd tc)) (g_cursors st)"
      using assms(1) None by (auto simp: ring_ok_def list_all_iff cursor_ok_def get split: option.splits)
    moreover have "object_ok opts p r" using assms(2) by (simp add: r object_ok_def event_bytes_def)
    moreover have "distinct (map fst (g_objects st'))" "g_cursors st' = g_cursors st" "g_epoch st' = g_epoch st"
      using assms(1) by (simp_all add: st' ring_ok_def put_object_def distinct_update)
    ultimately show ?thesis using assms(1) None r get by (auto simp: ring_ok_def)
  qed
  then show "ring_ok opts st'" and "get_object st' p = Some r" and "o_paneId r = p"
    and "g_cursors st' = g_cursors st" and "g_epoch st' = g_epoch st"
    and "get_object st p = None \<Longrightarrow> o_subscriberCount r = 0" and "get_object st p = Some q \<Longrightarrow> q = r"
    and "p' \<noteq> p \<Longrightarrow> get_object st' p' = get_object st p'" by simp_all
qed

lemma get_object_cong: "g_objects st = g_objects st' \<Longrightarrow> get_object st = get_object st'"
  by (simp add: get_object_def fun_eq_iff)

lemma length_update_le: "length (AList.update k v xs) \<le> Suc (length xs)"
  by (induction xs) auto

lemma distinct_map_dropWhile: "distinct (map f xs) \<Longrightarrow> distinct (map f (dropWhile P xs))"
  by (induction xs) auto

lemma mint_frame:
  assumes "mintCursorForRing opts now r scope st = (t, st')"
  shows "g_objects st' = g_objects st" and "g_epoch st' = g_epoch st" and "g_workspaceIndex st' = g_workspaceIndex st"
    and "get_object st' p = get_object st p"
  using assms by (auto simp: mintCursorForRing_def Let_def get_object_def)

lemma mint_ok:
  assumes "ring_ok opts st" and "get_object st (o_paneId r) = Some r0" and "o_revision r \<le> o_revision r0"
    and "mintCursorForRing opts now r scope st = (t, st')"
  shows "ring_ok opts st'"
proof -
  let ?live = "dropWhile (\<lambda>tc. k_expiresAt (snd tc) < now) (g_cursors st)"
  let ?room = "drop (Suc (length ?live) - CURSOR_CAP) ?live"
  let ?new = "\<lparr>k_token = t, k_paneId = o_paneId r, k_scope = scope, k_epoch = g_epoch st,
    k_revision = o_revision r, k_mintedAt = now, k_expiresAt = now + f_cursorTtlMs opts\<rparr>"
  have sub: "set ?room \<subseteq> set (g_cursors st)" by (meson set_dropWhileD in_set_dropD subsetI)
  have "distinct (map fst (g_cursors st))" using assms(1) by (simp add: ring_ok_def)
  then have "distinct (map fst ?room)"
    by (simp add: drop_map [symmetric] distinct_map_dropWhile)
  moreover have g: "g_cursors st' = AList.update t ?new ?room"
    using assms(4) by (auto simp: mintCursorForRing_def Let_def)
  ultimately have d: "distinct (map fst (g_cursors st'))" by (simp only: distinct_update)
  have "length ?room < CURSOR_CAP" by (simp add: CURSOR_CAP_def)
  with length_update_le [of t ?new ?room] have len: "length (g_cursors st') \<le> CURSOR_CAP" unfolding g by linarith
  have new: "set (g_cursors st') \<subseteq> insert (t, ?new) (set ?room)" unfolding g by (rule set_update_subset)
  note fr = mint_frame [OF assms(4)]
  have "cursor_ok st' (snd tc)" if "tc \<in> set (g_cursors st')" for tc
  proof -
    from that new sub consider "tc = (t, ?new)" | "tc \<in> set (g_cursors st)" by blast
    then show ?thesis
    proof cases
      case 1
      then show ?thesis using assms(2,3) by (simp add: cursor_ok_def fr)
    next
      case 2
      with assms(1) have "cursor_ok st (snd tc)" by (simp add: ring_ok_def list_all_iff)
      then show ?thesis by (simp add: cursor_ok_def fr)
    qed
  qed
  moreover have "index_ok st'" using assms(1) by (simp add: ring_ok_def index_ok_def fr bucket_of_def)
  ultimately show ?thesis using assms(1) d len by (simp add: ring_ok_def fr list_all_iff)
qed


lemma get_remove:
  assumes "distinct (map fst (g_objects st))"
  shows "get_object (removeObject p st) q = (if q = p then None else get_object st q)"
  by (cases "get_object st p") (auto simp: removeObject_def Let_def get_object_def delete_conv')

lemma bucket_remove:
  "get_object st p = Some r \<Longrightarrow>
   bucket_of (removeObject p st) w = (if w = z_workspaceId (o_scope r) then removeAll p (bucket_of st w) else bucket_of st w)"
  by (auto simp: removeObject_def Let_def bucket_of_def map_of_map_entry default_to_def split: option.splits)

lemma remove_ok:
  assumes "ring_ok opts st"
  shows "ring_ok opts (removeObject p st)"
proof (cases "get_object st p")
  case None
  with assms show ?thesis by (simp add: removeObject_def)
next
  case (Some r)
  let ?st = "removeObject p st"
  have d: "distinct (map fst (g_objects st))" using assms by (simp add: ring_ok_def)
  note get = get_remove [OF d, of p]
  have cur: "g_cursors ?st = filter (\<lambda>tc. k_paneId (snd tc) \<noteq> p) (g_cursors st)"
    and obj: "g_objects ?st = AList.delete p (g_objects st)" using Some by (simp_all add: removeObject_def Let_def)
  have "index_ok ?st" using assms Some by (auto simp: index_ok_def ring_ok_def get bucket_remove [OF Some])
  moreover have "list_all (\<lambda>tc. cursor_ok ?st (snd tc)) (g_cursors ?st)"
    using assms by (auto simp: ring_ok_def cur list_all_iff cursor_ok_def get split: option.splits)
  moreover have "distinct (map fst (g_cursors ?st))" "length (g_cursors ?st) \<le> CURSOR_CAP"
    using assms by (auto simp: ring_ok_def cur distinct_map_filter intro: order_trans [OF length_filter_le])
  moreover have "distinct (map fst (g_objects ?st))" unfolding obj using d by (rule distinct_delete)
  ultimately show ?thesis using assms by (simp add: ring_ok_def get)
qed

subsection \<open>Eviction\<close>

lemma pick_victim_cases:
  "pick_victim st v ps = Some x \<Longrightarrow> v = Some x \<or> (\<exists>p \<in> set ps. get_object st p = Some x \<and> o_subscriberCount x = 0)"
  by (induction st v ps rule: pick_victim.induct) (fastforce split: option.splits if_splits)+

lemma pick_victim_None:
  "pick_victim st v ps = None \<Longrightarrow> v = None \<and> (\<forall>p \<in> set ps. case get_object st p of None \<Rightarrow> True | Some r \<Rightarrow> 0 < o_subscriberCount r)"
  by (induction st v ps rule: pick_victim.induct) (auto split: option.splits if_splits)

lemma evict_ok: "ring_ok opts st \<Longrightarrow> ring_ok opts (evict_rounds n opts w st)"
  by (induction n opts w st rule: evict_rounds.induct) (auto split: option.split intro: remove_ok)

text \<open>Eviction removes only objects without subscribers and changes no other object.\<close>

lemma evict_get:
  assumes "ring_ok opts st"
  shows "get_object (evict_rounds n opts w st) p = get_object st p \<or>
    get_object (evict_rounds n opts w st) p = None \<and> (\<exists>r. get_object st p = Some r \<and> o_subscriberCount r = 0)"
  using assms
proof (induction n opts w st rule: evict_rounds.induct)
  case (2 n opts w st)
  show ?case
  proof (cases "totalBytes st (bucket_of st w) \<le> f_workspaceRingBudgetBytes opts \<or> pick_victim st None (bucket_of st w) = None")
    case True
    then show ?thesis by auto
  next
    case False
    then obtain v where v: "pick_victim st None (bucket_of st w) = Some v" and b: "\<not> totalBytes st (bucket_of st w) \<le> f_workspaceRingBudgetBytes opts" by auto
    then obtain q where q: "get_object st q = Some v" "o_subscriberCount v = 0" using pick_victim_cases by blast
    with "2.prems" have qv: "o_paneId v = q" by (auto simp: ring_ok_def object_ok_def)
    have d: "distinct (map fst (g_objects st))" using "2.prems" by (simp add: ring_ok_def)
    from "2.IH" [OF b v remove_ok [OF "2.prems"]] v b q qv show ?thesis
      by (auto simp: get_remove [OF d] split: if_splits)
  qed
qed simp

lemma length_remove: "get_object st p = Some r \<Longrightarrow> length (g_objects (removeObject p st)) < length (g_objects st)"
proof -
  assume a: "get_object st p = Some r"
  then have "p \<in> fst ` set (g_objects st)" by (auto simp: get_object_def dest!: map_of_SomeD intro: image_eqI [of _ _ "(p, r)"])
  then have "length (AList.delete p (g_objects st)) < length (g_objects st)" by (auto simp: AList.delete_eq intro!: length_filter_less)
  with a show ?thesis by (simp add: removeObject_def Let_def)
qed


definition within_budget :: "RingOptions \<Rightarrow> jstr \<Rightarrow> PaneRing \<Rightarrow> bool" where
  "within_budget opts w st \<longleftrightarrow> totalBytes st (bucket_of st w) \<le> f_workspaceRingBudgetBytes opts
     \<or> list_all (hasActiveSubscriber st) (bucket_of st w)"

lemma victim_None_watched:
  "ring_ok opts st \<Longrightarrow> pick_victim st None (bucket_of st w) = None \<Longrightarrow> list_all (hasActiveSubscriber st) (bucket_of st w)"
  by (fastforce dest!: pick_victim_None simp: list_all_iff hasActiveSubscriber_def ring_ok_def index_ok_def split: option.splits)

lemma evict_budget:
  assumes "ring_ok opts st" and "length (g_objects st) < n"
  shows "within_budget opts w (evict_rounds n opts w st)"
  using assms
proof (induction n opts w st rule: evict_rounds.induct)
  case (2 n opts w st)
  show ?case
  proof (cases "totalBytes st (bucket_of st w) \<le> f_workspaceRingBudgetBytes opts \<or> pick_victim st None (bucket_of st w) = None")
    case True
    with "2.prems"(1) victim_None_watched show ?thesis by (auto simp: within_budget_def)
  next
    case False
    then obtain v where v: "pick_victim st None (bucket_of st w) = Some v" and b: "\<not> totalBytes st (bucket_of st w) \<le> f_workspaceRingBudgetBytes opts" by auto
    then obtain q where q: "get_object st q = Some v" using pick_victim_cases by blast
    with "2.prems" have "o_paneId v = q" by (auto simp: ring_ok_def object_ok_def)
    with length_remove [OF q] "2.prems"(2) "2.IH" [OF b v remove_ok [OF "2.prems"(1)]] v b show ?thesis by simp
  qed
qed simp

lemmas enforce_ok = evict_ok [of opts st "Suc (length (g_objects st))" w for opts st w]

lemma enforceWorkspaceBudget_ok: "ring_ok opts st \<Longrightarrow> ring_ok opts (enforceWorkspaceBudget opts w st)"
  by (simp add: enforceWorkspaceBudget_def enforce_ok del: evict_rounds.simps split: option.split)

lemma enforceWorkspaceBudget_get:
  "ring_ok opts st \<Longrightarrow> get_object (enforceWorkspaceBudget opts w st) p = get_object st p \<or>
    get_object (enforceWorkspaceBudget opts w st) p = None \<and> (\<exists>r. get_object st p = Some r \<and> o_subscriberCount r = 0)"
  using evict_get [of opts st "Suc (length (g_objects st))" w p]
  by (auto simp add: enforceWorkspaceBudget_def simp del: evict_rounds.simps split: option.split)

lemma enforceWorkspaceBudget_budget: "ring_ok opts st \<Longrightarrow> within_budget opts w (enforceWorkspaceBudget opts w st)"
  using evict_budget [of opts st "Suc (length (g_objects st))" w]
  by (auto simp add: enforceWorkspaceBudget_def within_budget_def bucket_of_def simp del: evict_rounds.simps split: option.split)

section \<open>The ring as a machine\<close>

datatype ring_op =
    Register int jstr AuthorizationScope
  | Release jstr
  | ContentChange int jstr AuthorizationScope jstr RingEvent
  | Snapshot int jstr AuthorizationScope jstr "RingEvent option"
  | Refresh int jstr AuthorizationScope
  | Keepalive int jstr
  | Heartbeat int jstr
  | Enforce jstr
  | Resolve int jstr AuthorizationScope
  | ResetEpoch jstr

fun ring_step :: "RingOptions \<Rightarrow> PaneRing \<Rightarrow> ring_op \<Rightarrow> PaneRing" where
  "ring_step opts st (Register now p scope) = registerSubscriber now p scope st"
| "ring_step opts st (Release p) = releaseSubscriber p st"
| "ring_step opts st (ContentChange now p scope content event) = snd (recordContentChange opts now p scope content event st)"
| "ring_step opts st (Snapshot now p scope content event) = snd (recordSnapshot opts now p scope content event st)"
| "ring_step opts st (Refresh now p scope) = snd (recordObservedAtRefresh opts now p scope st)"
| "ring_step opts st (Keepalive now p) = recordPresenceKeepalive now p st"
| "ring_step opts st (Heartbeat now p) = recordHeartbeat now p st"
| "ring_step opts st (Enforce w) = enforceWorkspaceBudgetFor opts w st"
| "ring_step opts st (Resolve now token scope) = snd (resolveCursor opts now token scope st)"
| "ring_step opts st (ResetEpoch e) = resetEpoch e st"

text \<open>
  What one operation does to the object of a pane: keep it or evict it without subscribers, or put a
  successor.
\<close>

definition object_step :: "ObjectRing option \<Rightarrow> ObjectRing option \<Rightarrow> bool" where
  "object_step a b = (case (a, b) of
     (Some r, Some r') \<Rightarrow> succeeds r r' \<and> o_subscriberCount r \<le> o_subscriberCount r'
   | (Some r, None) \<Rightarrow> o_subscriberCount r = 0
   | (None, _) \<Rightarrow> True)"

lemma object_step_refl [simp]: "object_step a a"
  by (cases a) (simp_all add: object_step_def succeeds_def)

lemma object_step_trans: "object_step a b \<Longrightarrow> object_step b c \<Longrightarrow> (b = None \<Longrightarrow> c = None) \<Longrightarrow> object_step a c"
  by (cases a; cases b; cases c) (auto simp: object_step_def succeeds_def)

text \<open>The shape shared by the recording methods.\<close>

lemma record_ok:
  assumes "ring_ok opts st" and "0 \<le> f_ringMaxBytes opts" and "getOrCreate now p scope st = (r, st1)"
    and "succeeds r r1" and "object_ok opts p r1" and "o_subscriberCount r \<le> o_subscriberCount r1"
  shows "ring_ok opts (put_object r1 st1)" and "object_step (get_object st q) (get_object (put_object r1 st1) q)"
proof -
  note g = getOrCreate_ok [OF assms(1-3)]
  show "ring_ok opts (put_object r1 st1)"
    using put_ok [of opts st1 r r1] g(1-3) assms(4,5) by simp
  show "object_step (get_object st q) (get_object (put_object r1 st1) q)"
  proof (cases "q = p")
    case True
    then show ?thesis using g(3,7) assms(4,6)
      by (cases "get_object st p") (auto simp: object_step_def succeeds_def)
  next
    case False
    then show ?thesis using g(3,8) assms(4) by (simp add: succeeds_def)
  qed
qed

lemma enforce_step:
  "ring_ok opts st \<Longrightarrow> object_step (get_object st q) (get_object (enforceWorkspaceBudget opts w st) q)"
  using enforceWorkspaceBudget_get [of opts st w q] by (auto simp: object_step_def succeeds_def split: option.splits)

lemma enforce_None: "ring_ok opts st \<Longrightarrow> get_object st q = None \<Longrightarrow> get_object (enforceWorkspaceBudget opts w st) q = None"
  using enforceWorkspaceBudget_get [of opts st w q] by auto

lemma object_okD: "ring_ok opts st \<Longrightarrow> get_object st p = Some r \<Longrightarrow> object_ok opts p r"
  by (simp add: ring_ok_def)

lemma recordContentChange_ok:
  assumes "ring_ok opts st" and "0 \<le> f_ringMaxBytes opts"
    and "recordContentChange opts now p scope content event st = (cur, st')"
  shows "ring_ok opts st' \<and> object_step (get_object st q) (get_object st' q)"
proof -
  obtain r st1 where gc: "getOrCreate now p scope st = (r, st1)" by (cases "getOrCreate now p scope st")
  note g = getOrCreate_ok [OF assms(1,2) gc]
  have r: "object_ok opts p r" by (rule object_okD [OF g(1,2)])
  let ?r1 = "r\<lparr>o_lastTouchedAt := now, o_lastContent := Some content\<rparr>"
  let ?r2 = "r\<lparr>o_lastTouchedAt := now, o_lastContent := Some content, o_revision := Suc (o_revision r)\<rparr>"
  let ?w = "z_workspaceId (o_scope r)"
  show ?thesis
  proof (cases "o_lastContent r = None \<or> o_lastContent r \<noteq> Some content")
    case False
    obtain t st2 where m: "mintCursorForRing opts now ?r1 scope (put_object ?r1 st1) = (t, st2)"
      by (cases "mintCursorForRing opts now ?r1 scope (put_object ?r1 st1)")
    have st': "st' = enforceWorkspaceBudget opts ?w st2"
      using assms(3) False by (simp add: recordContentChange_def gc m Let_def)
    have ok1: "ring_ok opts (put_object ?r1 st1)" "object_step (get_object st q) (get_object (put_object ?r1 st1) q)"
      using record_ok [OF assms(1,2) gc, of ?r1] r by (simp_all add: succeeds_def object_ok_def)
    have ok2: "ring_ok opts st2" by (rule mint_ok [OF ok1(1) _ _ m, of ?r1]) simp_all
    show ?thesis unfolding st'
      using enforceWorkspaceBudget_ok [OF ok2] enforce_step [OF ok2] enforce_None [OF ok2] ok1(2) mint_frame(4) [OF m]
      by (auto intro: object_step_trans)
  next
    case True
    obtain t st2 where m: "mintCursorForRing opts now ?r2 scope (put_object ?r2 st1) = (t, st2)"
      by (cases "mintCursorForRing opts now ?r2 scope (put_object ?r2 st1)")
    let ?r3 = "appendEvent opts now event t ?r2"
    have st': "st' = enforceWorkspaceBudget opts ?w (put_object ?r3 st2)"
      using assms(3) True by (auto simp: recordContentChange_def gc m Let_def)
    have r2: "object_ok opts p ?r2" using r by (auto simp: object_ok_def list_all_iff)
    have ok1: "ring_ok opts (put_object ?r2 st1)" "object_step (get_object st q) (get_object (put_object ?r2 st1) q)"
      using record_ok [OF assms(1,2) gc, of ?r2] r2 by (simp_all add: succeeds_def)
    have ok2: "ring_ok opts st2" by (rule mint_ok [OF ok1(1) _ _ m, of ?r2]) simp_all
    have r3: "object_ok opts p ?r3" using appendEvent_ok [OF r, of ?r2] assms(2) by simp
    have "get_object st2 p = Some ?r2" using mint_frame(4) [OF m] g(3) by simp
    then have ok3: "ring_ok opts (put_object ?r3 st2)"
      using put_ok [OF ok2, of ?r2 ?r3] r3 g(3) by (simp add: succeeds_def)
    have "object_step (get_object st q) (get_object (put_object ?r3 st2) q)"
      using ok1(2) mint_frame(4) [OF m] by (auto simp: object_step_def succeeds_def split: option.splits if_splits)
    then show ?thesis unfolding st'
      using enforceWorkspaceBudget_ok [OF ok3] enforce_step [OF ok3] enforce_None [OF ok3]
      by (auto intro: object_step_trans)
  qed
qed


lemma recordSnapshot_ok:
  assumes "ring_ok opts st" and "0 \<le> f_ringMaxBytes opts"
    and "recordSnapshot opts now p scope content event st = (cur, st')"
  shows "ring_ok opts st' \<and> object_step (get_object st q) (get_object st' q)"
proof -
  obtain r st1 where gc: "getOrCreate now p scope st = (r, st1)" by (cases "getOrCreate now p scope st")
  note g = getOrCreate_ok [OF assms(1,2) gc]
  have r: "object_ok opts p r" by (rule object_okD [OF g(1,2)])
  define ch where "ch \<longleftrightarrow> o_lastContent r \<noteq> None \<and> o_lastContent r \<noteq> Some content"
  define r1 where "r1 = r\<lparr>o_lastTouchedAt := now, o_lastContent := Some content,
    o_revision := (if ch then o_revision r + 1 else o_revision r)\<rparr>"
  let ?w = "z_workspaceId (o_scope r)"
  obtain t st2 where m: "mintCursorForRing opts now r1 scope (put_object r1 st1) = (t, st2)"
    by (cases "mintCursorForRing opts now r1 scope (put_object r1 st1)")
  let ?st3 = "case event of Some e \<Rightarrow> if ch then put_object (appendEvent opts now e t r1) st2 else st2 | None \<Rightarrow> st2"
  have st': "st' = enforceWorkspaceBudget opts ?w ?st3"
    using assms(3) unfolding recordSnapshot_def gc prod.case Let_def ch_def [symmetric] r1_def [symmetric] m by simp
  have ok1: "ring_ok opts (put_object r1 st1)" "object_step (get_object st q) (get_object (put_object r1 st1) q)"
    by (rule record_ok [OF assms(1,2) gc]; use r in \<open>auto simp: succeeds_def object_ok_def r1_def list_all_iff\<close>)+
  have pid: "o_paneId r1 = p" using g(3) by (simp add: r1_def)
  have ok2: "ring_ok opts st2" by (rule mint_ok [OF ok1(1) _ _ m, of r1]) simp_all
  have get2: "get_object st2 p = Some r1" using mint_frame(4) [OF m] pid by simp
  have ok3: "ring_ok opts (put_object (appendEvent opts now e t r1) st2)" if ch for e
  proof -
    have "object_ok opts p (appendEvent opts now e t r1)"
      using appendEvent_ok [OF r, of r1] assms(2) that by (simp add: r1_def)
    then show ?thesis using put_ok [OF ok2, of r1] get2 pid by (simp add: succeeds_def)
  qed
  have "object_step (get_object st q) (get_object ?st3 q)"
    using ok1(2) mint_frame(4) [OF m] pid by (auto simp: object_step_def succeeds_def split: option.splits if_splits)
  moreover have "ring_ok opts ?st3" using ok2 ok3 by (auto split: option.split)
  ultimately show ?thesis unfolding st'
    using enforceWorkspaceBudget_ok enforce_step enforce_None by (blast intro: object_step_trans)
qed

lemma touch_ok:
  assumes "ring_ok opts st"
  shows "ring_ok opts (touch now p st) \<and> object_step (get_object st q) (get_object (touch now p st) q)"
proof (cases "get_object st p")
  case (Some r)
  from object_okD [OF assms Some] have ok: "object_ok opts p r" and pid: "o_paneId r = p" by (simp_all add: object_ok_def)
  then have "ring_ok opts (put_object (r\<lparr>o_lastTouchedAt := now\<rparr>) st)"
    using Some by (intro put_ok [OF assms, of r]) (simp_all add: succeeds_def object_ok_def)
  then show ?thesis using Some pid by (cases "q = p") (simp_all add: touch_def object_step_def [of "Some r"] succeeds_def)
qed (simp add: touch_def assms)

lemma register_ok:
  assumes "ring_ok opts st" and "0 \<le> f_ringMaxBytes opts"
  shows "ring_ok opts (registerSubscriber now p scope st) \<and>
    object_step (get_object st q) (get_object (registerSubscriber now p scope st) q)"
proof -
  obtain r st1 where gc: "getOrCreate now p scope st = (r, st1)" by (cases "getOrCreate now p scope st")
  have r: "object_ok opts p r" by (rule object_okD [OF getOrCreate_ok(1,2) [OF assms gc]])
  then show ?thesis
    using record_ok [OF assms gc, of "r\<lparr>o_subscriberCount := o_subscriberCount r + 1, o_lastTouchedAt := now\<rparr>"]
    by (simp add: registerSubscriber_def gc succeeds_def object_ok_def)
qed

lemma refresh_ok:
  assumes "ring_ok opts st" and "0 \<le> f_ringMaxBytes opts" and "recordObservedAtRefresh opts now p scope st = (t, st')"
  shows "ring_ok opts st' \<and> object_step (get_object st q) (get_object st' q)"
proof -
  obtain r st1 where gc: "getOrCreate now p scope st = (r, st1)" by (cases "getOrCreate now p scope st")
  let ?r = "r\<lparr>o_lastTouchedAt := now\<rparr>"
  have r: "object_ok opts p r" by (rule object_okD [OF getOrCreate_ok(1,2) [OF assms(1,2) gc]])
  then have ok: "ring_ok opts (put_object ?r st1)" "object_step (get_object st q) (get_object (put_object ?r st1) q)"
    using record_ok [OF assms(1,2) gc, of ?r] by (simp_all add: succeeds_def object_ok_def)
  have m: "mintCursorForRing opts now ?r scope (put_object ?r st1) = (t, st')"
    using assms(3) by (simp add: recordObservedAtRefresh_def gc Let_def)
  from mint_ok [OF ok(1) _ _ m, of ?r] ok(2) mint_frame(4) [OF m] show ?thesis by simp
qed

lemma release_ok:
  assumes "ring_ok opts st"
  shows "ring_ok opts (releaseSubscriber p st)"
proof (cases "get_object st p")
  case (Some r)
  from object_okD [OF assms Some] have "object_ok opts p r" "o_paneId r = p" by (simp_all add: object_ok_def)
  then show ?thesis using Some assms put_ok [OF assms, of r "r\<lparr>o_subscriberCount := o_subscriberCount r - 1\<rparr>"]
    by (auto simp: releaseSubscriber_def succeeds_def object_ok_def)
qed (simp add: releaseSubscriber_def assms)

subsection \<open>Resolving\<close>

lemma map_entry_mem:
  "(k', v) \<in> set (AList.map_entry k f xs) \<Longrightarrow> (k', v) \<in> set xs \<or> k' = k \<and> (\<exists>u. (k, u) \<in> set xs \<and> v = f u)"
  by (induction xs) (auto split: if_splits)

lemma length_map_entry: "length (AList.map_entry k f xs) = length xs"
  by (induction xs) auto

lemma set_revision_ok:
  assumes "ring_ok opts st" and "\<And>c. map_of (g_cursors st) t = Some c \<Longrightarrow> cursor_ok st (c\<lparr>k_revision := n\<rparr>)"
  shows "ring_ok opts (st\<lparr>g_cursors := AList.map_entry t (\<lambda>c. c\<lparr>k_revision := n\<rparr>) (g_cursors st)\<rparr>)"
proof -
  let ?st = "st\<lparr>g_cursors := AList.map_entry t (\<lambda>c. c\<lparr>k_revision := n\<rparr>) (g_cursors st)\<rparr>"
  have get: "get_object ?st = get_object st" by (simp add: get_object_def fun_eq_iff)
  have mem: "cursor_ok st c" if "(u, c) \<in> set (g_cursors ?st)" for u c
  proof -
    from that have "(u, c) \<in> set (g_cursors st) \<or> u = t \<and> (\<exists>d. (t, d) \<in> set (g_cursors st) \<and> c = d\<lparr>k_revision := n\<rparr>)"
      by (auto dest: map_entry_mem)
    then show ?thesis using assms by (auto simp: ring_ok_def list_all_iff)
  qed
  have "list_all (\<lambda>tc. cursor_ok ?st (snd tc)) (g_cursors ?st)"
  proof -
    have "cursor_ok ?st = cursor_ok st" by (simp add: cursor_ok_def get fun_eq_iff)
    then show ?thesis using mem
      unfolding list_all_iff by (metis prod.collapse)
  qed
  moreover have "index_ok ?st" using assms(1) by (simp add: ring_ok_def index_ok_def bucket_of_def get)
  ultimately show ?thesis using assms(1) by (simp add: ring_ok_def get distinct_map_entry length_map_entry)
qed

lemma mint_token:
  "mintCursorForRing opts now r scope st = (t, st') \<Longrightarrow>
   map_of (g_cursors st') t = Some \<lparr>k_token = t, k_paneId = o_paneId r, k_scope = scope, k_epoch = g_epoch st,
     k_revision = o_revision r, k_mintedAt = now, k_expiresAt = now + f_cursorTtlMs opts\<rparr>"
  by (auto simp: mintCursorForRing_def Let_def update_conv')

lemma scope_entry_ok:
  assumes "ring_ok opts st" and "get_object st (o_paneId r) = Some r" and "rt_revision e \<le> o_revision r"
    and "scope_entry opts now r scope st e = (e', st')"
  shows "ring_ok opts st'" and "g_objects st' = g_objects st" and "rt_revision e' = rt_revision e"
proof -
  have "ring_ok opts st' \<and> g_objects st' = g_objects st \<and> rt_revision e' = rt_revision e"
  proof (cases "e' = e \<and> st' = st")
    case True
    with assms(1) show ?thesis by simp
  next
    case False
    obtain t st1 where m: "mintCursorForRing opts now r scope st = (t, st1)"
      by (cases "mintCursorForRing opts now r scope st")
    have e': "e' = e\<lparr>rt_cursor := t, rt_event := withCursor (rt_event e) t\<rparr>"
      and st': "st' = st1\<lparr>g_cursors := AList.map_entry t (\<lambda>c. c\<lparr>k_revision := rt_revision e\<rparr>) (g_cursors st1)\<rparr>"
      using assms(4) False by (auto simp: scope_entry_def m split: if_splits)
    have ok: "ring_ok opts st1" by (rule mint_ok [OF assms(1,2) _ m]) simp
    have "ring_ok opts st'" unfolding st'
    proof (rule set_revision_ok [OF ok])
      fix c
      assume "map_of (g_cursors st1) t = Some c"
      with mint_token [OF m] have "k_paneId c = o_paneId r" by auto
      then show "cursor_ok st1 (c\<lparr>k_revision := rt_revision e\<rparr>)"
        using assms(2,3) mint_frame(4) [OF m] by (simp add: cursor_ok_def)
    qed
    then show ?thesis using mint_frame(1) [OF m] by (simp add: st' e')
  qed
  then show "ring_ok opts st'" and "g_objects st' = g_objects st" and "rt_revision e' = rt_revision e" by simp_all
qed

lemma scope_entries_ok:
  assumes "ring_ok opts st" and "get_object st (o_paneId r) = Some r" and "list_all (\<lambda>e. rt_revision e \<le> o_revision r) es"
    and "scope_entries opts now r scope st es = (es', st')"
  shows "ring_ok opts st' \<and> g_objects st' = g_objects st \<and> map rt_revision es' = map rt_revision es"
  using assms
proof (induction es arbitrary: st es' st')
  case (Cons e es)
  obtain e1 st1 where 1: "scope_entry opts now r scope st e = (e1, st1)" by (cases "scope_entry opts now r scope st e")
  obtain es2 st2 where 2: "scope_entries opts now r scope st1 es = (es2, st2)" by (cases "scope_entries opts now r scope st1 es")
  have le: "rt_revision e \<le> o_revision r" "list_all (\<lambda>e. rt_revision e \<le> o_revision r) es" using Cons.prems(3) by simp_all
  note s1 = scope_entry_ok [OF Cons.prems(1,2) le(1) 1]
  have "get_object st1 (o_paneId r) = Some r" using Cons.prems(2) s1(2) by (simp add: get_object_def)
  from Cons.IH [OF s1(1) this le(2) 2] s1 Cons.prems(4) show ?case by (auto simp: 1 2)
qed simp

lemma drop_cursor_ok: "ring_ok opts st \<Longrightarrow> ring_ok opts (drop_cursor t st)"
proof -
  assume a: "ring_ok opts st"
  have get: "get_object (drop_cursor t st) = get_object st" by (simp add: drop_cursor_def get_object_def fun_eq_iff)
  have sub: "set (g_cursors (drop_cursor t st)) \<subseteq> set (g_cursors st)" by (auto simp: drop_cursor_def AList.delete_eq)
  have "index_ok (drop_cursor t st)" using a by (simp add: ring_ok_def index_ok_def get) (simp add: drop_cursor_def bucket_of_def)
  moreover have "list_all (\<lambda>tc. cursor_ok (drop_cursor t st) (snd tc)) (g_cursors (drop_cursor t st))"
    using a sub by (auto simp: ring_ok_def list_all_iff cursor_ok_def get)
  moreover have "distinct (map fst (g_cursors (drop_cursor t st)))" "length (g_cursors (drop_cursor t st)) \<le> CURSOR_CAP"
    using a length_delete_le [of t "g_cursors st"] by (auto simp: ring_ok_def drop_cursor_def distinct_delete)
  moreover have "distinct (map fst (g_objects (drop_cursor t st)))" using a by (simp add: drop_cursor_def ring_ok_def)
  ultimately show ?thesis using a by (simp add: ring_ok_def get)
qed

text \<open>The object a successful resolution reads, and its replay before the cursors are exchanged.\<close>

lemma resolve_Inr:
  assumes "resolveCursor opts now token scope st = (Inr q, st')"
  obtains stored r0 r replay where
    "map_of (g_cursors st) token = Some stored" "k_epoch stored = g_epoch st" "now \<le> k_expiresAt stored"
    "scopesEqual (k_scope stored) scope" "get_object st (k_paneId stored) = Some r0"
    "k_revision stored \<le> o_revision r0" "r = trimRing opts now r0"
    "replay = filter (\<lambda>e. k_revision stored < rt_revision e) (o_events r)"
    "replayable (k_revision stored) r replay"
    "scope_entries opts now r scope (put_object r st) replay = (q_replay q, st')"
    "q_paneId q = k_paneId stored" "q_revision q = o_revision r" "q_cursorRevision q = k_revision stored"
  using assms
  by (auto simp: resolveCursor_def Let_def split: option.splits if_splits prod.splits)

lemma resolve_ok:
  assumes "ring_ok opts st" and "0 \<le> f_ringMaxBytes opts" and "resolveCursor opts now token scope st = (res, st')"
  shows "ring_ok opts st' \<and> object_step (get_object st q) (get_object st' q)"
proof (cases "map_of (g_cursors st) token")
  case None
  with assms show ?thesis by (simp add: resolveCursor_def)
next
  case (Some stored)
  have dc: "get_object (drop_cursor token st) = get_object st" by (simp add: drop_cursor_def get_object_def fun_eq_iff)
  show ?thesis
  proof (cases "get_object st (k_paneId stored)")
    case None
    with Some assms drop_cursor_ok [OF assms(1)] dc show ?thesis
      by (auto simp: resolveCursor_def split: if_splits)
  next
    case r0: (Some r0)
    let ?r = "trimRing opts now r0"
    let ?replay = "filter (\<lambda>e. k_revision stored < rt_revision e) (o_events ?r)"
    have ok0: "object_ok opts (k_paneId stored) r0" by (rule object_okD [OF assms(1) r0])
    then have pid: "o_paneId r0 = k_paneId stored" by (simp add: object_ok_def)
    have okr: "object_ok opts (k_paneId stored) ?r" by (rule trimRing_object_ok [OF ok0 assms(2)])
    have ok1: "ring_ok opts (put_object ?r st)"
      using put_ok [OF assms(1), of r0 ?r] r0 pid okr by (simp add: succeeds_def)
    have step1: "object_step (get_object st q) (get_object (put_object ?r st) q)"
      using r0 pid by (cases "q = k_paneId stored") (simp_all add: object_step_def [of "Some r0"] succeeds_def)
    obtain es st2 where se: "scope_entries opts now ?r scope (put_object ?r st) ?replay = (es, st2)"
      by (cases "scope_entries opts now ?r scope (put_object ?r st) ?replay")
    have "list_all (\<lambda>e. rt_revision e \<le> o_revision ?r) ?replay" using okr by (simp add: object_ok_def list_all_iff)
    then have "ring_ok opts st2 \<and> g_objects st2 = g_objects (put_object ?r st)"
      using scope_entries_ok [OF ok1 _ _ se] pid by simp
    then have "ring_ok opts st2" "object_step (get_object st q) (get_object st2 q)"
      using step1 get_object_cong [of st2 "put_object ?r st"] by simp_all
    with Some r0 assms(1,3) drop_cursor_ok [OF assms(1)] dc ok1 step1 se show ?thesis
      by (auto simp: resolveCursor_def Let_def split: if_splits)
  qed
qed

section \<open>Every operation keeps the ring well formed\<close>

lemma ring_step_ok:
  assumes "ring_ok opts st" and "0 \<le> f_ringMaxBytes opts"
  shows "ring_ok opts (ring_step opts st op)"
proof (cases op)
  case (ContentChange now p scope content event)
  then show ?thesis using recordContentChange_ok [OF assms] by (auto simp: prod.expand) (metis prod.collapse)
next
  case (Snapshot now p scope content event)
  then show ?thesis using recordSnapshot_ok [OF assms] by auto (metis prod.collapse)
next
  case (Refresh now p scope)
  then show ?thesis using refresh_ok [OF assms] by auto (metis prod.collapse)
next
  case (Resolve now t scope)
  then show ?thesis using resolve_ok [OF assms] by auto (metis prod.collapse)
next
  case (ResetEpoch e)
  then show ?thesis using assms
    by (simp add: resetEpoch_def ring_ok_def index_ok_def cursor_ok_def get_object_def bucket_of_def)
qed (use assms in \<open>simp_all add: register_ok release_ok touch_ok recordPresenceKeepalive_def recordHeartbeat_def
  enforceWorkspaceBudgetFor_def enforceWorkspaceBudget_ok\<close>)

lemma ring_step_object:
  assumes "ring_ok opts st" and "0 \<le> f_ringMaxBytes opts" and "op \<noteq> Release p"
  shows "object_step (get_object st p) (get_object (ring_step opts st op) p)"
proof (cases op)
  case (Release q)
  then have "get_object (ring_step opts st op) p = get_object st p"
    using assms(3) object_okD [OF assms(1), of q]
    by (cases "get_object st q") (simp_all add: releaseSubscriber_def object_ok_def)
  then show ?thesis by simp
next
  case (ContentChange now q scope content event)
  then show ?thesis using recordContentChange_ok [OF assms(1,2)] by auto (metis prod.collapse)
next
  case (Snapshot now q scope content event)
  then show ?thesis using recordSnapshot_ok [OF assms(1,2)] by auto (metis prod.collapse)
next
  case (Refresh now q scope)
  then show ?thesis using refresh_ok [OF assms(1,2)] by auto (metis prod.collapse)
next
  case (Resolve now t scope)
  then show ?thesis using resolve_ok [OF assms(1,2)] by auto (metis prod.collapse)
next
  case (ResetEpoch e)
  then show ?thesis by (simp add: resetEpoch_def get_object_def)
qed (use assms in \<open>simp_all add: register_ok touch_ok recordPresenceKeepalive_def recordHeartbeat_def
  enforceWorkspaceBudgetFor_def enforce_step\<close>)

lemma new_ring_ok: "ring_ok opts (new_ring epoch)"
  by (simp add: ring_ok_def new_ring_def get_object_def index_ok_def bucket_of_def default_to_def)

interpretation ring_machine: invariant_machine "ring_step opts" "\<lambda>_. 0 \<le> f_ringMaxBytes opts" "ring_ok opts" for opts
  by unfold_locales (rule ring_step_ok)

lemma reachable_ok: "0 \<le> f_ringMaxBytes opts \<Longrightarrow> ring_ok opts (foldl (ring_step opts) (new_ring epoch) ops)"
  using ring_machine.inv_run [OF new_ring_ok, of opts ops] by (simp add: list_all_iff)

lemma watched_step:
  assumes "ring_ok opts st" and "0 \<le> f_ringMaxBytes opts" and "hasActiveSubscriber st p" and "op \<noteq> Release p"
  shows "hasActiveSubscriber (ring_step opts st op) p \<and>
    (\<forall>n. (\<exists>r. get_object st p = Some r \<and> n \<le> o_revision r) \<longrightarrow> (\<exists>r. get_object (ring_step opts st op) p = Some r \<and> n \<le> o_revision r))"
  using ring_step_object [OF assms(1,2,4)] assms(3)
  by (auto simp: hasActiveSubscriber_def object_step_def succeeds_def split: option.splits)

interpretation watched_pane: invariant_machine "ring_step opts" "\<lambda>op. op \<noteq> Release p \<and> 0 \<le> f_ringMaxBytes opts"
  "\<lambda>st. ring_ok opts st \<and> hasActiveSubscriber st p \<and> (\<exists>r. get_object st p = Some r \<and> n \<le> o_revision r)" for opts p n
  by unfold_locales (use watched_step ring_step_ok in blast)

subsection \<open>A concrete ring\<close>

text \<open>Evaluation compares the number of cursors with the cap as integers.\<close>

lemma mint_code [code]: "mintCursorForRing opts now r scope st =
     (let live = dropWhile (\<lambda>tc. k_expiresAt (snd tc) < now) (g_cursors st);
          n = length live;
          room = (if int n < 10000 then live else drop (Suc n - CURSOR_CAP) live);
          token = f_createToken opts (g_tokens st)
      in (token, st\<lparr>g_tokens := Suc (g_tokens st),
            g_cursors := AList.update token \<lparr>k_token = token, k_paneId = o_paneId r, k_scope = scope,
              k_epoch = g_epoch st, k_revision = o_revision r, k_mintedAt = now,
              k_expiresAt = now + f_cursorTtlMs opts\<rparr> room\<rparr>))"
  by (simp add: mintCursorForRing_def CURSOR_CAP_def Let_def)

definition demo_options :: RingOptions where
  "demo_options = \<lparr>f_createToken = \<lambda>n. js ''t'' @ decimal n, f_cursorTtlMs = 1000, f_ringMaxAgeMs = 1000,
     f_ringMaxEvents = 8, f_ringMaxBytes = 100, f_workspaceRingBudgetBytes = 50\<rparr>"

definition demo_scope :: AuthorizationScope where
  "demo_scope = \<lparr>z_ownerUserId = js ''u'', z_workspaceId = js ''w'', z_runOwnerId = None\<rparr>"

definition demo_change :: "int \<Rightarrow> string \<Rightarrow> string \<Rightarrow> ring_op" where
  "demo_change now p content = ContentChange now (js p) demo_scope (js content)
     \<lparr>ev_kind = Changed, ev_payload = JNull, ev_sizeBytes = 30\<rparr>"

lemmas demo_defs = demo_options_def demo_scope_def demo_change_def

text \<open>C29: whatever sequence of operations is applied to a new ring, the stores stay consistent: object ids
  and tokens are unique, each object is within its event and byte bounds with the byte count equal to
  the sum of its events, revisions of retained events are strictly increasing and at most the object's
  revision, every stored cursor points at a live object and not past its revision, at most 10000
  cursors are kept, and the workspace index lists exactly the live objects.\<close>
theorem ring_well_formed:
  assumes "0 \<le> f_ringMaxBytes opts"
  shows "ring_ok opts (foldl (ring_step opts) (new_ring epoch) ops)"
  by (rule reachable_ok [OF assms])

theorem ring_well_formed_witness:
  "ring_ok demo_options (foldl (ring_step demo_options) (new_ring (js ''e''))
     [Register 1 (js ''p'') demo_scope, demo_change 2 ''p'' ''a'', demo_change 3 ''q'' ''b'', Resolve 4 (js ''t0'') demo_scope])"
  by (rule ring_well_formed) (simp add: demo_options_def)

text \<open>C26: a watched pane is never evicted: as long as no operation releases a subscriber of the pane, the
  pane keeps its ring and an active subscriber, and its revision never goes back, whatever the other
  operations (budget enforcement, recordings and resolutions for any pane) do.\<close>
theorem watched_pane_kept:
  assumes "ring_ok opts st" and "0 \<le> f_ringMaxBytes opts" and "hasActiveSubscriber st p"
    and "getRevision st p = Some n" and "list_all (\<lambda>op. op \<noteq> Release p) ops"
  shows "hasActiveSubscriber (foldl (ring_step opts) st ops) p \<and>
    (case getRevision (foldl (ring_step opts) st ops) p of None \<Rightarrow> False | Some m \<Rightarrow> n \<le> m)"
  using watched_pane.inv_run [of opts st p n ops] assms by (auto simp: getRevision_def list_all_iff)

theorem watched_pane_kept_witness:
  "hasActiveSubscriber (foldl (ring_step demo_options) (registerSubscriber 1 (js ''p'') demo_scope (new_ring (js ''e'')))
     [demo_change 2 ''p'' ''a'', demo_change 3 ''p'' ''b'', demo_change 4 ''q'' ''c'', Enforce (js ''w'')]) (js ''p'')"
proof -
  let ?st = "registerSubscriber 1 (js ''p'') demo_scope (new_ring (js ''e''))"
  have "ring_ok demo_options ?st" by (simp add: register_ok new_ring_ok demo_options_def)
  moreover have "hasActiveSubscriber ?st (js ''p'')" "getRevision ?st (js ''p'') = Some 0" by code_simp+
  ultimately show ?thesis
    by (intro watched_pane_kept [of demo_options ?st "js ''p''" 0, THEN conjunct1]) (simp_all add: demo_defs)
qed

section \<open>Replay\<close>

lemma strict_run:
  assumes "sorted_wrt (<) xs" and "list_all (\<lambda>x. n < x \<and> x \<le> m) xs" and "length xs = m - (n :: nat)"
  shows "xs = [Suc n..<Suc m]"
proof (rule sorted_distinct_set_unique)
  have "set xs \<subseteq> {Suc n..<Suc m}" using assms(2) by (auto simp: list_all_iff)
  moreover have d: "distinct xs" using assms(1) strict_sorted_iff by blast
  ultimately show "set xs = set [Suc n..<Suc m]"
    using assms(3) by (simp add: card_subset_eq distinct_card del: upt_Suc)
  show "sorted xs" "distinct xs" using assms(1) strict_sorted_iff by blast+
qed (simp_all del: upt_Suc)

lemma replay_revisions:
  assumes "object_ok opts p r" and "n \<le> o_revision r"
    and "replayable n r (filter (\<lambda>e. n < rt_revision e) (o_events r))"
  shows "map rt_revision (filter (\<lambda>e. n < rt_revision e) (o_events r)) = [Suc n..<Suc (o_revision r)]"
proof (rule strict_run)
  let ?es = "filter (\<lambda>e. n < rt_revision e) (o_events r)"
  have "sorted_wrt (<) (filter (\<lambda>x. n < x) (map rt_revision (o_events r)))"
    using assms(1) by (intro sorted_wrt_filter) (simp add: object_ok_def)
  then show "sorted_wrt (<) (map rt_revision ?es)" by (simp add: filter_map o_def)
  show le: "list_all (\<lambda>x. n < x \<and> x \<le> o_revision r) (map rt_revision ?es)"
    using assms(1) by (auto simp: object_ok_def list_all_iff)
  show "length (map rt_revision ?es) = o_revision r - n"
  proof (cases "n < o_revision r")
    case True
    with assms(3) show ?thesis by (auto simp: replayable_def)
  next
    case False
    with assms(2) have "?es = []" using assms(1) by (auto simp: object_ok_def list_all_iff filter_empty_conv)
    with False show ?thesis by simp
  qed
qed

lemma resolve_trim:
  assumes "ring_ok opts st" and "0 \<le> f_ringMaxBytes opts" and "get_object st p = Some r"
  shows "object_ok opts p (trimRing opts now r)" and "o_paneId r = p" and "ring_ok opts (put_object (trimRing opts now r) st)"
proof -
  have ok: "object_ok opts p r" by (rule object_okD [OF assms(1,3)])
  then show pid: "o_paneId r = p" by (simp add: object_ok_def)
  show okr: "object_ok opts p (trimRing opts now r)" by (rule trimRing_object_ok [OF ok assms(2)])
  show "ring_ok opts (put_object (trimRing opts now r) st)"
    using put_ok [OF assms(1), of r "trimRing opts now r"] assms(3) pid okr by (simp add: succeeds_def)
qed

lemma resolve_replay:
  assumes "ring_ok opts st" and "0 \<le> f_ringMaxBytes opts"
    and "resolveCursor opts now token scope st = (Inr q, st')"
  shows "map rt_revision (q_replay q) = [Suc (q_cursorRevision q)..<Suc (q_revision q)] \<and>
    getRevision st' (q_paneId q) = Some (q_revision q)"
proof -
  from assms(3) obtain stored r0 r replay where R:
    "map_of (g_cursors st) token = Some stored" "get_object st (k_paneId stored) = Some r0"
    "k_revision stored \<le> o_revision r0" "r = trimRing opts now r0"
    "replay = filter (\<lambda>e. k_revision stored < rt_revision e) (o_events r)"
    "replayable (k_revision stored) r replay"
    "scope_entries opts now r scope (put_object r st) replay = (q_replay q, st')"
    "q_paneId q = k_paneId stored" "q_revision q = o_revision r" "q_cursorRevision q = k_revision stored"
    by (rule resolve_Inr)
  have t: "object_ok opts (k_paneId stored) r" "o_paneId r0 = k_paneId stored" "ring_ok opts (put_object r st)"
    unfolding R(4) by (rule resolve_trim [OF assms(1,2) R(2)])+
  have "list_all (\<lambda>e. rt_revision e \<le> o_revision r) replay" using t(1) R(5) by (simp add: object_ok_def list_all_iff)
  from scope_entries_ok [OF t(3) _ this R(7)]
  have s: "g_objects st' = g_objects (put_object r st)" "map rt_revision (q_replay q) = map rt_revision replay" by simp_all
  have "map rt_revision (q_replay q) = [Suc (q_cursorRevision q)..<Suc (q_revision q)]"
    using s(2) replay_revisions [OF t(1), of "k_revision stored"] R(3-6,9,10) by simp
  moreover have "getRevision st' (q_paneId q) = Some (q_revision q)"
    using get_object_cong [OF s(1)] R(4,8,9) t(2) by (simp add: getRevision_def)
  ultimately show ?thesis ..
qed

text \<open>C1: a replay has no gap: when a cursor resolves on a ring built by any operations, the replayed
  entries carry exactly the revisions after the cursor's revision up to the object's current revision,
  each once and in order.\<close>
theorem replay_gapless:
  assumes "0 \<le> f_ringMaxBytes opts" and "st = foldl (ring_step opts) (new_ring epoch) ops"
    and "resolveCursor opts now token scope st = (Inr q, st')"
  shows "map rt_revision (q_replay q) = [Suc (q_cursorRevision q)..<Suc (q_revision q)] \<and>
    getRevision st' (q_paneId q) = Some (q_revision q)"
  using resolve_replay [OF _ assms(1,3)] reachable_ok [OF assms(1)] assms(2) by simp

definition demo_ops :: "ring_op list" where
  "demo_ops = [Register 1 (js ''p'') demo_scope, demo_change 2 ''p'' ''a'', demo_change 3 ''p'' ''b'', demo_change 4 ''p'' ''c'']"

definition demo_ring :: PaneRing where
  "demo_ring = foldl (ring_step demo_options) (new_ring (js ''e'')) demo_ops"

theorem replay_gapless_witness:
  "case resolveCursor demo_options 5 (js ''t0'') demo_scope demo_ring of
     (Inl reason, st') \<Rightarrow> False
   | (Inr q, st') \<Rightarrow> map rt_revision (q_replay q) = [Suc 1..<Suc 3]"
proof -
  have "case fst (resolveCursor demo_options 5 (js ''t0'') demo_scope demo_ring) of Inl e \<Rightarrow> False
    | Inr q \<Rightarrow> q_cursorRevision q = 1 \<and> q_revision q = 3" by code_simp
  then obtain q st' where q: "resolveCursor demo_options 5 (js ''t0'') demo_scope demo_ring = (Inr q, st')"
    "q_cursorRevision q = 1" "q_revision q = 3"
    by (cases "resolveCursor demo_options 5 (js ''t0'') demo_scope demo_ring") (auto split: sum.splits)
  with replay_gapless [OF _ demo_ring_def q(1)] show ?thesis by (simp add: demo_options_def)
qed

section \<open>Scopes\<close>

lemma map_of_drop: "distinct (map fst xs) \<Longrightarrow> map_of (drop n xs) t = Some c \<Longrightarrow> map_of xs t = Some c"
  by (metis drop_map distinct_drop in_set_dropD map_of_SomeD map_of_is_SomeI)

lemma map_of_dropWhile: "distinct (map fst xs) \<Longrightarrow> map_of (dropWhile P xs) t = Some c \<Longrightarrow> map_of xs t = Some c"
  by (simp add: dropWhile_eq_drop map_of_drop)

lemma scopesEqual_eq: "scopesEqual a b \<longleftrightarrow> a = b"
  by (cases a; cases b) (simp add: scopesEqual_def)

text \<open>No cursor of another scope is stored under the token.\<close>

definition scoped :: "AuthorizationScope \<Rightarrow> PaneRing \<Rightarrow> jstr \<Rightarrow> bool" where
  "scoped scope st t = (case map_of (g_cursors st) t of None \<Rightarrow> True | Some c \<Rightarrow> k_scope c = scope)"

lemma mint_scoped:
  assumes "distinct (map fst (g_cursors st))" and "mintCursorForRing opts now r scope st = (t, st')"
  shows "scoped scope st' t" and "scoped scope st u \<Longrightarrow> scoped scope st' u"
proof -
  let ?live = "dropWhile (\<lambda>tc. k_expiresAt (snd tc) < now) (g_cursors st)"
  show t: "scoped scope st' t" using mint_token [OF assms(2)] by (simp add: scoped_def)
  assume u: "scoped scope st u"
  show "scoped scope st' u"
  proof (cases "u = t")
    case False
    have d: "distinct (map fst ?live)" by (rule distinct_map_dropWhile [OF assms(1)])
    have "map_of (g_cursors st') u = map_of (drop (Suc (length ?live) - CURSOR_CAP) ?live) u"
      using assms(2) False by (auto simp: mintCursorForRing_def Let_def update_conv')
    then have "map_of (g_cursors st) u = Some c" if "map_of (g_cursors st') u = Some c" for c
      using that map_of_dropWhile [OF assms(1) map_of_drop [OF d]] by metis
    then show ?thesis using u by (auto simp: scoped_def split: option.splits)
  qed (use t in simp)
qed

lemma scope_entry_scoped:
  assumes "distinct (map fst (g_cursors st))" and "scope_entry opts now r scope st e = (e', st')"
  shows "scoped scope st' (rt_cursor e')" and "scoped scope st u \<Longrightarrow> scoped scope st' u"
proof -
  obtain t st1 where m: "mintCursorForRing opts now r scope st = (t, st1)"
    by (cases "mintCursorForRing opts now r scope st")
  have frame: "scoped scope (st1\<lparr>g_cursors := AList.map_entry t (\<lambda>c. c\<lparr>k_revision := n\<rparr>) (g_cursors st1)\<rparr>) v
    \<longleftrightarrow> scoped scope st1 v" for n v
    by (auto simp: scoped_def map_of_map_entry split: option.splits)
  show "scoped scope st' (rt_cursor e')" and "scoped scope st u \<Longrightarrow> scoped scope st' u"
    using assms(2) mint_scoped [OF assms(1) m]
    by (auto simp: scope_entry_def m frame scopesEqual_eq split: if_splits option.splits) (auto simp: scoped_def)
qed

lemma scope_entries_scoped:
  assumes "ring_ok opts st" and "get_object st (o_paneId r) = Some r" and "list_all (\<lambda>e. rt_revision e \<le> o_revision r) es"
    and "scope_entries opts now r scope st es = (es', st')"
  shows "list_all (\<lambda>e. scoped scope st' (rt_cursor e)) es' \<and> (scoped scope st u \<longrightarrow> scoped scope st' u)"
  using assms
proof (induction es arbitrary: st es' st' u)
  case (Cons e es)
  obtain e1 st1 where 1: "scope_entry opts now r scope st e = (e1, st1)" by (cases "scope_entry opts now r scope st e")
  obtain es2 st2 where 2: "scope_entries opts now r scope st1 es = (es2, st2)" by (cases "scope_entries opts now r scope st1 es")
  have le: "rt_revision e \<le> o_revision r" "list_all (\<lambda>e. rt_revision e \<le> o_revision r) es" using Cons.prems(3) by simp_all
  note s1 = scope_entry_ok [OF Cons.prems(1,2) le(1) 1]
  have "get_object st1 (o_paneId r) = Some r" using Cons.prems(2) s1(2) by (simp add: get_object_def)
  note ih = Cons.IH [OF s1(1) this le(2) 2]
  have d: "distinct (map fst (g_cursors st))" using Cons.prems(1) by (simp add: ring_ok_def)
  from ih scope_entry_scoped [OF d 1] Cons.prems(4) show ?case by (auto simp: 1 2)
qed simp

lemma resolve_scoped:
  assumes "ring_ok opts st" and "0 \<le> f_ringMaxBytes opts"
    and "resolveCursor opts now token scope st = (Inr q, st')"
  shows "(case map_of (g_cursors st) token of None \<Rightarrow> False
      | Some c \<Rightarrow> k_scope c = scope \<and> k_epoch c = g_epoch st \<and> now \<le> k_expiresAt c \<and> k_paneId c = q_paneId q)
    \<and> list_all (\<lambda>e. scoped scope st' (rt_cursor e)) (q_replay q)"
proof -
  from assms(3) obtain stored r0 r replay where R:
    "map_of (g_cursors st) token = Some stored" "k_epoch stored = g_epoch st" "now \<le> k_expiresAt stored"
    "scopesEqual (k_scope stored) scope" "get_object st (k_paneId stored) = Some r0"
    "r = trimRing opts now r0" "replay = filter (\<lambda>e. k_revision stored < rt_revision e) (o_events r)"
    "scope_entries opts now r scope (put_object r st) replay = (q_replay q, st')"
    "q_paneId q = k_paneId stored"
    by (rule resolve_Inr)
  have t: "object_ok opts (k_paneId stored) r" "o_paneId r0 = k_paneId stored" "ring_ok opts (put_object r st)"
    unfolding R(6) by (rule resolve_trim [OF assms(1,2) R(5)])+
  have "list_all (\<lambda>e. rt_revision e \<le> o_revision r) replay" using t(1) R(7) by (simp add: object_ok_def list_all_iff)
  from scope_entries_scoped [OF t(3) _ this R(8)] R(1-4,9) show ?thesis by (simp add: scopesEqual_eq)
qed

text \<open>C30: cursors are bound to the scope they were minted for: a cursor resolves only for the very scope
  it was minted under, in the same epoch and before it expires, for the pane it was minted for; and
  no entry of the replay carries a cursor of another scope, also where another subscriber published
  the retained event.\<close>
theorem resolve_needs_scope:
  assumes "0 \<le> f_ringMaxBytes opts" and "st = foldl (ring_step opts) (new_ring epoch) ops"
    and "resolveCursor opts now token scope st = (Inr q, st')"
  shows "(case map_of (g_cursors st) token of None \<Rightarrow> False
      | Some c \<Rightarrow> k_scope c = scope \<and> k_epoch c = g_epoch st \<and> now \<le> k_expiresAt c \<and> k_paneId c = q_paneId q)
    \<and> list_all (\<lambda>e. scoped scope st' (rt_cursor e)) (q_replay q)"
  using reachable_ok [OF assms(1)] resolve_scoped assms by blast

theorem resolve_needs_scope_witness:
  "map_option k_scope (map_of (g_cursors demo_ring) (js ''t0'')) = Some demo_scope"
proof -
  have "case fst (resolveCursor demo_options 5 (js ''t0'') demo_scope demo_ring) of Inl e \<Rightarrow> False | Inr q \<Rightarrow> True"
    by code_simp
  then obtain q st' where q: "resolveCursor demo_options 5 (js ''t0'') demo_scope demo_ring = (Inr q, st')"
    by (cases "resolveCursor demo_options 5 (js ''t0'') demo_scope demo_ring") (auto split: sum.splits)
  from resolve_needs_scope [OF _ demo_ring_def q] show ?thesis by (auto simp: demo_options_def split: option.splits)
qed

section \<open>Sampling, budget and fresh cursors\<close>

fun is_sampling :: "ring_op \<Rightarrow> bool" where
  "is_sampling (Refresh now p scope) = True"
| "is_sampling (Keepalive now p) = True"
| "is_sampling (Heartbeat now p) = True"
| "is_sampling _ = False"

lemma touch_content:
  "ring_ok opts st \<Longrightarrow> getRevision (touch now q st) p = getRevision st p \<and> getEventCount (touch now q st) p = getEventCount st p"
  using object_okD [of opts st q] by (cases "get_object st q") (auto simp: touch_def getRevision_def getEventCount_def object_ok_def)

lemma refresh_content:
  assumes "get_object st p = Some r" and "ring_ok opts st" and "0 \<le> f_ringMaxBytes opts"
  shows "\<exists>r'. get_object (snd (recordObservedAtRefresh opts now q scope st)) p = Some r' \<and>
    o_revision r' = o_revision r \<and> o_events r' = o_events r"
proof -
  obtain rq st1 where gc: "getOrCreate now q scope st = (rq, st1)" by (cases "getOrCreate now q scope st")
  let ?r = "rq\<lparr>o_lastTouchedAt := now\<rparr>"
  obtain t st2 where m: "mintCursorForRing opts now ?r scope (put_object ?r st1) = (t, st2)"
    by (cases "mintCursorForRing opts now ?r scope (put_object ?r st1)")
  note g = getOrCreate_ok [OF assms(2,3) gc]
  show ?thesis using g(3) g(7) [of r] g(8) [of p] assms(1) mint_frame(4) [OF m]
    by (cases "p = q") (auto simp: recordObservedAtRefresh_def gc m)
qed

text \<open>Sampling never looks like a change: a refresh of the observation time, a presence keepalive and
  a heartbeat, for any pane, leave the revision and the retained events of every existing object as
  they are.\<close>
theorem sampling_keeps_revision:
  assumes "0 \<le> f_ringMaxBytes opts" and "st = foldl (ring_step opts) (new_ring epoch) ops"
    and "is_sampling op" and "hasRing st p"
  shows "getRevision (ring_step opts st op) p = getRevision st p \<and> getEventCount (ring_step opts st op) p = getEventCount st p"
proof -
  have ok: "ring_ok opts st" using reachable_ok [OF assms(1)] assms(2) by simp
  from assms(4) obtain r where r: "get_object st p = Some r" by (auto simp: hasRing_def)
  from assms(3) show ?thesis
  proof (cases op)
    case (Refresh now q scope)
    with refresh_content [OF r ok assms(1), of now q scope] r show ?thesis by (auto simp: getRevision_def getEventCount_def)
  qed (simp_all add: touch_content [OF ok] recordPresenceKeepalive_def recordHeartbeat_def)
qed

theorem sampling_keeps_revision_witness:
  "getRevision (ring_step demo_options demo_ring (Refresh 9 (js ''p'') demo_scope)) (js ''p'') = Some 3"
proof -
  have "hasRing demo_ring (js ''p'')" and r: "getRevision demo_ring (js ''p'') = Some 3" by code_simp+
  from sampling_keeps_revision [OF _ demo_ring_def _ this(1), of "Refresh 9 (js ''p'') demo_scope"] r
  show ?thesis by (simp add: demo_options_def del: ring_step.simps)
qed

text \<open>Eviction settles: enforcing the budget of a workspace always ends, with the retained bytes of the
  workspace within the budget or with every remaining object of it watched by a subscriber; a pane
  that was watched keeps its ring unchanged.\<close>
theorem budget_enforced:
  assumes "0 \<le> f_ringMaxBytes opts" and "st = foldl (ring_step opts) (new_ring epoch) ops"
  shows "within_budget opts w (enforceWorkspaceBudgetFor opts w st) \<and>
    (if hasActiveSubscriber st p then get_object (enforceWorkspaceBudgetFor opts w st) p = get_object st p else True)"
proof -
  have ok: "ring_ok opts st" using reachable_ok [OF assms(1)] assms(2) by simp
  show ?thesis using enforceWorkspaceBudget_budget [OF ok] enforceWorkspaceBudget_get [OF ok, of w p]
    by (auto simp: enforceWorkspaceBudgetFor_def hasActiveSubscriber_def)
qed

theorem budget_enforced_witness:
  "within_budget demo_options (js ''w'') (enforceWorkspaceBudgetFor demo_options (js ''w'') demo_ring)"
  using budget_enforced [OF _ demo_ring_def] by (simp add: demo_options_def)

lemma fresh_cursor_resolves_aux:
  assumes "ring_ok opts st" and "0 \<le> f_ringMaxBytes opts" and "map_of (g_cursors st) t = Some c"
    and "k_epoch c = g_epoch st" and "now \<le> k_expiresAt c" and "get_object st (k_paneId c) = Some r"
    and "k_revision c = o_revision r"
  shows "fst (resolveCursor opts now t (k_scope c) st) = Inr \<lparr>q_paneId = k_paneId c, q_revision = k_revision c,
    q_cursorRevision = k_revision c, q_replay = []\<rparr>"
proof -
  have "object_ok opts (k_paneId c) (trimRing opts now r)" by (rule resolve_trim(1) [OF assms(1,2,6)])
  then have "filter (\<lambda>e. o_revision r < rt_revision e) (o_events (trimRing opts now r)) = []"
    by (auto simp: object_ok_def list_all_iff filter_empty_conv)
  then show ?thesis using assms(3-7)
    by (simp add: resolveCursor_def scopesEqual_eq replayable_def Let_def)
qed

lemma map_of_filter_value: "map_of xs t = Some c \<Longrightarrow> P (t, c) \<Longrightarrow> map_of (filter P xs) t = Some c"
  by (induction xs) (auto split: if_splits)

lemma evict_keeps_cursor:
  assumes "ring_ok opts st" and "hasActiveSubscriber st (k_paneId c)" and "map_of (g_cursors st) t = Some c"
  shows "map_of (g_cursors (evict_rounds n opts w st)) t = Some c"
  using assms
proof (induction n opts w st rule: evict_rounds.induct)
  case (2 n opts w st)
  show ?case
  proof (cases "totalBytes st (bucket_of st w) \<le> f_workspaceRingBudgetBytes opts \<or> pick_victim st None (bucket_of st w) = None")
    case False
    then obtain v where v: "pick_victim st None (bucket_of st w) = Some v" and b: "\<not> totalBytes st (bucket_of st w) \<le> f_workspaceRingBudgetBytes opts" by auto
    then obtain q where q: "get_object st q = Some v" "o_subscriberCount v = 0" using pick_victim_cases by blast
    with "2.prems"(1) have qv: "o_paneId v = q" by (auto simp: ring_ok_def object_ok_def)
    have d: "distinct (map fst (g_objects st))" using "2.prems"(1) by (simp add: ring_ok_def)
    have neq: "k_paneId c \<noteq> q" using "2.prems"(2) q by (auto simp: hasActiveSubscriber_def)
    have "hasActiveSubscriber (removeObject q st) (k_paneId c)"
      using "2.prems"(2) neq by (simp add: hasActiveSubscriber_def get_remove [OF d])
    moreover have "map_of (g_cursors (removeObject q st)) t = Some c"
      using q(1) "2.prems"(3) neq by (simp add: removeObject_def Let_def map_of_filter_value)
    ultimately show ?thesis using "2.IH" [OF b v remove_ok [OF "2.prems"(1)]] v b qv by simp
  qed (use "2.prems" in auto)
qed simp

lemma enforce_keeps_cursor:
  "ring_ok opts st \<Longrightarrow> hasActiveSubscriber st (k_paneId c) \<Longrightarrow> map_of (g_cursors st) t = Some c \<Longrightarrow>
   map_of (g_cursors (enforceWorkspaceBudget opts w st)) t = Some c"
  by (simp add: enforceWorkspaceBudget_def evict_keeps_cursor del: evict_rounds.simps split: option.split)

lemma evict_epoch: "g_epoch (evict_rounds n opts w st) = g_epoch st"
  by (induction n opts w st rule: evict_rounds.induct) (auto simp: removeObject_def Let_def split: option.split)

lemma enforce_epoch [simp]: "g_epoch (enforceWorkspaceBudget opts w st) = g_epoch st"
  by (simp add: enforceWorkspaceBudget_def evict_epoch del: evict_rounds.simps split: option.split)

text \<open>After a cursor was minted for a watched object and the budget enforced, it resolves.\<close>

lemma minted_cursor_resolves:
  assumes ok: "ring_ok opts st1" and bytes: "0 \<le> f_ringMaxBytes opts" and ttl: "0 \<le> f_cursorTtlMs opts"
    and cur: "map_of (g_cursors st1) t = Some \<lparr>k_token = t, k_paneId = p, k_scope = scope, k_epoch = g_epoch st1,
      k_revision = n, k_mintedAt = now, k_expiresAt = now + f_cursorTtlMs opts\<rparr>"
    and obj: "get_object st1 p = Some r" "o_revision r = n" "0 < o_subscriberCount r"
  shows "fst (resolveCursor opts now t scope (enforceWorkspaceBudget opts w st1)) =
    Inr \<lparr>q_paneId = p, q_revision = n, q_cursorRevision = n, q_replay = []\<rparr>"
proof -
  let ?c = "\<lparr>k_token = t, k_paneId = p, k_scope = scope, k_epoch = g_epoch st1, k_revision = n, k_mintedAt = now,
    k_expiresAt = now + f_cursorTtlMs opts\<rparr>"
  let ?st = "enforceWorkspaceBudget opts w st1"
  have "get_object ?st p = Some r" using enforceWorkspaceBudget_get [OF ok, of w p] obj by auto
  moreover have "map_of (g_cursors ?st) t = Some ?c"
    using obj by (intro enforce_keeps_cursor [OF ok]) (simp_all add: cur hasActiveSubscriber_def)
  ultimately show ?thesis
    using fresh_cursor_resolves_aux [OF enforceWorkspaceBudget_ok [OF ok] bytes, of w t ?c now r] ttl obj by simp
qed

lemma contentChange_resolves:
  assumes "ring_ok opts st" and "0 \<le> f_ringMaxBytes opts" and "0 \<le> f_cursorTtlMs opts"
    and "get_object st p = Some r" and "0 < o_subscriberCount r"
    and "recordContentChange opts now p scope content event st = (t, st')"
  defines "n \<equiv> (if o_lastContent r = Some content then o_revision r else Suc (o_revision r))"
  shows "fst (resolveCursor opts now t scope st') =
    Inr \<lparr>q_paneId = p, q_revision = n, q_cursorRevision = n, q_replay = []\<rparr>"
proof -
  have gc: "getOrCreate now p scope st = (r, st)" using assms(4) by (simp add: getOrCreate_def)
  have r: "object_ok opts p r" by (rule object_okD [OF assms(1,4)])
  then have pid: "o_paneId r = p" by (simp add: object_ok_def)
  define r1 where "r1 = r\<lparr>o_lastTouchedAt := now, o_lastContent := Some content, o_revision := n\<rparr>"
  obtain u st2 where m: "mintCursorForRing opts now r1 scope (put_object r1 st) = (u, st2)"
    by (cases "mintCursorForRing opts now r1 scope (put_object r1 st)")
  have r1: "object_ok opts p r1" "succeeds r r1" "o_paneId r1 = p" "o_subscriberCount r1 = o_subscriberCount r" "o_revision r1 = n"
    using r by (auto simp: r1_def object_ok_def succeeds_def n_def list_all_iff)
  have ok2: "ring_ok opts st2"
    by (rule mint_ok [OF _ _ _ m, of r1]) (use record_ok(1) [OF assms(1,2) gc] r1 in simp_all)
  have get2: "get_object st2 p = Some r1" using mint_frame(4) [OF m] r1(3) by simp
  have cur: "map_of (g_cursors st2) u = Some \<lparr>k_token = u, k_paneId = p, k_scope = scope, k_epoch = g_epoch st2,
    k_revision = n, k_mintedAt = now, k_expiresAt = now + f_cursorTtlMs opts\<rparr>"
    using mint_token [OF m] mint_frame(2) [OF m] r1(3,5) by simp
  show ?thesis
  proof (cases "o_lastContent r = Some content")
    case True
    then have "r1 = r\<lparr>o_lastTouchedAt := now, o_lastContent := Some content\<rparr>" by (simp add: r1_def n_def)
    then have "t = u \<and> st' = enforceWorkspaceBudget opts (z_workspaceId (o_scope r)) st2"
      using assms(6) True m by (simp add: recordContentChange_def gc Let_def)
    then show ?thesis using minted_cursor_resolves [OF ok2 assms(2,3) cur get2] r1 assms(5) by simp
  next
    case False
    let ?r3 = "appendEvent opts now event u r1"
    have r1': "r1 = r\<lparr>o_lastTouchedAt := now, o_lastContent := Some content, o_revision := Suc (o_revision r)\<rparr>"
      using False by (simp add: r1_def n_def)
    then have st': "t = u \<and> st' = enforceWorkspaceBudget opts (z_workspaceId (o_scope r)) (put_object ?r3 st2)"
      using assms(6) False m by (auto simp: recordContentChange_def gc Let_def)
    have r3: "object_ok opts p ?r3" using appendEvent_ok [OF r, of r1] assms(2) by (simp add: r1')
    then have ok3: "ring_ok opts (put_object ?r3 st2)"
      using put_ok [OF ok2, of r1 ?r3] get2 r1(3) by (simp add: succeeds_def)
    have sub: "o_subscriberCount ?r3 = o_subscriberCount r"
      using r1(4) by (simp add: appendEvent_def Let_def)
    have "map_of (g_cursors (put_object ?r3 st2)) u = Some \<lparr>k_token = u, k_paneId = p, k_scope = scope,
      k_epoch = g_epoch (put_object ?r3 st2), k_revision = n, k_mintedAt = now, k_expiresAt = now + f_cursorTtlMs opts\<rparr>"
      using cur by simp
    from minted_cursor_resolves [OF ok3 assms(2,3) this, of ?r3] r1 sub assms(5) st' show ?thesis by simp
  qed
qed

text \<open>A recorded cursor works: for a watched pane, the cursor returned by recording a content change
  resolves for the same scope, at the revision of the object, with nothing to replay; and that
  revision is one more than before exactly when the content differs from the last one.\<close>
theorem recorded_cursor_resolves:
  assumes "0 \<le> f_ringMaxBytes opts" and "0 \<le> f_cursorTtlMs opts" and "st = foldl (ring_step opts) (new_ring epoch) ops"
    and "get_object st p = Some r" and "0 < o_subscriberCount r"
  shows "(case recordContentChange opts now p scope content event st of (t, st') \<Rightarrow>
    map_sum id (\<lambda>q. (q_paneId q, q_revision q, q_replay q)) (fst (resolveCursor opts now t scope st')) =
    Inr (p, if o_lastContent r = Some content then o_revision r else Suc (o_revision r), []))"
  using contentChange_resolves [OF _ assms(1,2,4,5)] reachable_ok [OF assms(1)] assms(3)
  by (cases "recordContentChange opts now p scope content event st") simp

theorem recorded_cursor_resolves_witness:
  "case recordContentChange demo_options 6 (js ''p'') demo_scope (js ''d'')
     \<lparr>ev_kind = Changed, ev_payload = JNull, ev_sizeBytes = 30\<rparr> demo_ring of (t, st') \<Rightarrow>
   map_sum id (\<lambda>q. (q_paneId q, q_revision q, q_replay q)) (fst (resolveCursor demo_options 6 t demo_scope st')) =
   Inr (js ''p'', 4, [])"
proof -
  have "case get_object demo_ring (js ''p'') of None \<Rightarrow> False
    | Some r \<Rightarrow> 0 < o_subscriberCount r \<and> o_revision r = 3 \<and> o_lastContent r = Some (js ''c'')" by code_simp
  then obtain r where r: "get_object demo_ring (js ''p'') = Some r" "0 < o_subscriberCount r" "o_revision r = 3"
    "o_lastContent r = Some (js ''c'')" by (auto split: option.splits)
  have "js ''c'' \<noteq> js ''d''" by code_simp
  moreover have "0 \<le> f_ringMaxBytes demo_options" "0 \<le> f_cursorTtlMs demo_options" by (simp_all add: demo_options_def)
  note recorded_cursor_resolves [OF this demo_ring_def r(1,2), of 6 demo_scope "js ''d''"
      "\<lparr>ev_kind = Changed, ev_payload = JNull, ev_sizeBytes = 30\<rparr>"]
  ultimately show ?thesis using r(3,4) by simp
qed

end
