(* ===== verification/Uri_Component.thy ===== *)
theory Uri_Component
  imports Michi_Prelude
begin

text \<open>
  \<open>encodeURIComponent\<close> and \<open>decodeURIComponent\<close> on UTF-16 strings: percent-encoded UTF-8, \<open>None\<close> for the
  \<open>URIError\<close> on a lone surrogate or on a malformed escape. The theorems say that decoding inverts
  encoding and that an encoded text has no reserved unit and no white space.
\<close>

section \<open>Encoding\<close>

definition unescaped :: "nat \<Rightarrow> bool" where
  "unescaped c \<longleftrightarrow> 48 \<le> c \<and> c \<le> 57 \<or> 65 \<le> c \<and> c \<le> 90 \<or> 97 \<le> c \<and> c \<le> 122
     \<or> c \<in> set (js ''-_.!~*'' @ [39, 40, 41])"

definition utf8 :: "nat \<Rightarrow> nat list" where
  "utf8 n =
     (if n < 128 then [n]
      else if n < 2048 then [192 + n div 64, 128 + n mod 64]
      else if n < 65536 then [224 + n div 4096, 128 + n div 64 mod 64, 128 + n mod 64]
      else [240 + n div 262144, 128 + n div 4096 mod 64, 128 + n div 64 mod 64, 128 + n mod 64])"

definition hex_digit :: "nat \<Rightarrow> nat" where
  "hex_digit d = (if d < 10 then 48 + d else 55 + d)"

definition escape_byte :: "nat \<Rightarrow> jstr" where
  "escape_byte b = [37, hex_digit (b div 16), hex_digit (b mod 16)]"

definition escape :: "nat \<Rightarrow> jstr" where
  "escape n = concat (map escape_byte (utf8 n))"

definition high_surrogate :: "nat \<Rightarrow> bool" where
  "high_surrogate c \<longleftrightarrow> 55296 \<le> c \<and> c \<le> 56319"

definition low_surrogate :: "nat \<Rightarrow> bool" where
  "low_surrogate c \<longleftrightarrow> 56320 \<le> c \<and> c \<le> 57343"

definition pair_value :: "nat \<Rightarrow> nat \<Rightarrow> nat" where
  "pair_value c d = (c - 55296) * 1024 + (d - 56320) + 65536"

definition prepend :: "jstr \<Rightarrow> jstr option \<Rightarrow> jstr option" where
  "prepend s r = map_option ((@) s) r"

fun encodeURIComponent :: "jstr \<Rightarrow> jstr option" where
  "encodeURIComponent [] = Some []"
| "encodeURIComponent (c # cs) =
     (if unescaped c then prepend [c] (encodeURIComponent cs)
      else if low_surrogate c then None
      else if \<not> high_surrogate c then prepend (escape c) (encodeURIComponent cs)
      else (case cs of
              d # ds \<Rightarrow> if low_surrogate d then prepend (escape (pair_value c d)) (encodeURIComponent ds) else None
            | [] \<Rightarrow> None))"

section \<open>Decoding\<close>

definition hex_value :: "nat \<Rightarrow> nat option" where
  "hex_value c = (if 48 \<le> c \<and> c \<le> 57 then Some (c - 48) else if 65 \<le> c \<and> c \<le> 70 then Some (c - 55)
     else if 97 \<le> c \<and> c \<le> 102 then Some (c - 87) else None)"

fun read_byte :: "jstr \<Rightarrow> (nat \<times> jstr) option" where
  "read_byte (p # h # l # rest) = (if p \<noteq> 37 then None
     else case (hex_value h, hex_value l) of (Some a, Some b) \<Rightarrow> Some (16 * a + b, rest) | _ \<Rightarrow> None)"
| "read_byte _ = None"

text \<open>The further bytes of a sequence, accumulated onto the bits of its first byte.\<close>

fun read_tail :: "nat \<Rightarrow> nat \<Rightarrow> jstr \<Rightarrow> (nat \<times> jstr) option" where
  "read_tail 0 v s = Some (v, s)"
| "read_tail (Suc k) v s = (case read_byte s of None \<Rightarrow> None
     | Some (b, rest) \<Rightarrow> if b div 64 = 2 then read_tail k (64 * v + b mod 64) rest else None)"

text \<open>One escaped code point, with the checks of UTF-8: the shortest form, no surrogate, at most 10FFFF.\<close>

definition read_point :: "jstr \<Rightarrow> (nat \<times> jstr) option" where
  "read_point s = (case read_byte s of None \<Rightarrow> None
     | Some (b, rest) \<Rightarrow>
         (case (if b < 128 then Some (b, rest)
                else if b < 192 then None
                else if b < 224 then read_tail 1 (b - 192) rest
                else if b < 240 then read_tail 2 (b - 224) rest
                else if b < 248 then read_tail 3 (b - 240) rest
                else None) of
            None \<Rightarrow> None
          | Some (v, rest') \<Rightarrow>
              if utf8 v \<noteq> [] \<and> length (utf8 v) = (if b < 128 then 1 else if b < 224 then 2 else if b < 240 then 3 else 4)
                 \<and> \<not> (55296 \<le> v \<and> v \<le> 57343) \<and> v \<le> 1114111
              then Some (v, rest') else None))"

definition utf16 :: "nat \<Rightarrow> jstr" where
  "utf16 n = (if n < 65536 then [n] else [55296 + (n - 65536) div 1024, 56320 + (n - 65536) mod 1024])"

lemma read_byte_length: "read_byte s = Some (b, r) \<Longrightarrow> length r < length s"
  by (induction s rule: read_byte.induct) (auto split: option.splits if_splits)

lemma read_tail_length: "read_tail k v s = Some (w, r) \<Longrightarrow> length r \<le> length s"
proof (induction k v s rule: read_tail.induct)
  case (2 k v s)
  then show ?case by (fastforce dest: read_byte_length split: option.splits if_splits)
qed simp

lemma read_point_length: "read_point s = Some (v, r) \<Longrightarrow> length r < length s"
  unfolding read_point_def
  by (fastforce dest!: read_byte_length dest: read_tail_length split: option.splits if_splits)

function decodeURIComponent :: "jstr \<Rightarrow> jstr option" where
  "decodeURIComponent s = (case s of [] \<Rightarrow> Some []
     | c # cs \<Rightarrow> if c \<noteq> 37 then prepend [c] (decodeURIComponent cs)
                 else (case read_point s of None \<Rightarrow> None
                       | Some (n, rest) \<Rightarrow> prepend (utf16 n) (decodeURIComponent rest)))"
  by auto
termination by (relation "measure length") (auto dest: read_point_length)

declare decodeURIComponent.simps [simp del]

section \<open>Lemmas\<close>

lemma prepend_simps [simp]: "prepend s None = None" "prepend s (Some t) = Some (s @ t)"
  by (simp_all add: prepend_def)

lemma prepend_Some: "prepend s r = Some t \<longleftrightarrow> (\<exists>u. r = Some u \<and> t = s @ u)"
  by (cases r) auto

lemma hex_value_digit: "d < 16 \<Longrightarrow> hex_value (hex_digit d) = Some d"
  by (auto simp: hex_value_def hex_digit_def)

lemma read_escape: "b < 256 \<Longrightarrow> read_byte (escape_byte b @ s) = Some (b, s)"
  by (simp add: escape_byte_def hex_value_digit)

lemma utf8_bytes: "n \<le> 1114111 \<Longrightarrow> list_all (\<lambda>b. b < 256) (utf8 n)"
  by (auto simp: utf8_def)

lemma tail_byte: "(128 + n mod 64) div 64 = 2" "(128 + n mod 64) mod 64 = n mod (64 :: nat)" "128 + n mod 64 < 256"
proof -
  have "n mod 64 < 64" by simp
  then show "(128 + n mod 64) div 64 = 2" "128 + n mod 64 < 256" by linarith+
  show "(128 + n mod 64) mod 64 = n mod (64 :: nat)" by (simp add: mod_add_left_eq [symmetric, of 128])
qed

lemma base64_3: "64 * (64 * (n div 4096) + n div 64 mod 64) + n mod 64 = (n :: nat)"
proof -
  have "n div 4096 = n div 64 div 64" by (simp add: div_mult2_eq [symmetric])
  then show ?thesis by simp
qed

lemma base64_4: "64 * (64 * (64 * (n div 262144) + n div 4096 mod 64) + n div 64 mod 64) + n mod 64 = (n :: nat)"
proof -
  have "n div 262144 = n div 64 div 4096" "n div 4096 = n div 64 div 64" by (simp_all add: div_mult2_eq [symmetric])
  then show ?thesis using base64_3 [of "n div 64"] by simp
qed

lemma read_point_escape:
  assumes "n \<le> 1114111" and "\<not> (55296 \<le> n \<and> n \<le> 57343)"
  shows "read_point (escape n @ s) = Some (n, s)"
proof -
  consider "n < 128" | "128 \<le> n" "n < 2048" | "2048 \<le> n" "n < 65536" | "65536 \<le> n" by linarith
  then show ?thesis
  proof cases
    case 1
    then show ?thesis using assms by (simp add: escape_def utf8_def read_point_def read_escape)
  next
    case 2
    have u: "utf8 n = [192 + n div 64, 128 + n mod 64]" using 2 by (simp add: utf8_def)
    have v: "64 * (n div 64) + n mod 64 = n" by simp
    note m = tail_byte [of n]
    have "n div 64 < 32" using 2 by simp
    then show ?thesis using assms 2 v by (simp add: escape_def read_point_def read_escape u numeral_2_eq_2 m)
  next
    case 3
    let ?a = "n div 4096" and ?b = "n div 64 mod 64" and ?c = "n mod 64"
    have u: "utf8 n = [224 + ?a, 128 + ?b, 128 + ?c]" using 3 by (simp add: utf8_def)
    have v: "64 * (64 * ?a + ?b) + ?c = n" by (rule base64_3)
    note m = tail_byte [of "n div 64"] tail_byte [of n]
    have "?a < 16" using 3 by simp
    then show ?thesis using assms 3 v by (simp add: escape_def read_point_def read_escape u numeral_2_eq_2 m)
  next
    case 4
    let ?a = "n div 262144" and ?b = "n div 4096 mod 64" and ?c = "n div 64 mod 64" and ?d = "n mod 64"
    have u: "utf8 n = [240 + ?a, 128 + ?b, 128 + ?c, 128 + ?d]" using 4 by (simp add: utf8_def)
    have v: "64 * (64 * (64 * ?a + ?b) + ?c) + ?d = n" by (rule base64_4)
    note m = tail_byte [of "n div 4096"] tail_byte [of "n div 64"] tail_byte [of n]
    have "?a < 8" using assms(1) by simp
    then show ?thesis using assms 4 v by (simp add: escape_def read_point_def read_escape u numeral_3_eq_3 m)
  qed
qed

lemma decode_Nil [simp]: "decodeURIComponent [] = Some []"
  by (simp add: decodeURIComponent.simps)

lemma decode_plain: "c \<noteq> 37 \<Longrightarrow> decodeURIComponent (c # cs) = prepend [c] (decodeURIComponent cs)"
  by (simp add: decodeURIComponent.simps [of "c # cs"])

lemma escape_Cons: "\<exists>t. escape n = 37 # t"
  by (simp add: escape_def utf8_def escape_byte_def)

lemma decode_escape:
  assumes "n \<le> 1114111" and "\<not> (55296 \<le> n \<and> n \<le> 57343)"
  shows "decodeURIComponent (escape n @ s) = prepend (utf16 n) (decodeURIComponent s)"
proof -
  obtain t where t: "escape n = 37 # t" using escape_Cons by blast
  from read_point_escape [OF assms, of s] show ?thesis
    by (subst decodeURIComponent.simps) (simp add: t)
qed

lemma pair_value_bounds:
  assumes "high_surrogate c" and "low_surrogate d"
  shows "65536 \<le> pair_value c d" and "pair_value c d \<le> 1114111" and "utf16 (pair_value c d) = [c, d]"
proof -
  obtain i where i: "c = 55296 + i" "i < 1024" using assms(1) by (auto simp: high_surrogate_def dest!: le_Suc_ex)
  obtain j where j: "d = 56320 + j" "j < 1024" using assms(2) by (auto simp: low_surrogate_def dest!: le_Suc_ex)
  show "65536 \<le> pair_value c d" by (simp add: pair_value_def)
  show "pair_value c d \<le> 1114111" using i j by (simp add: pair_value_def)
  show "utf16 (pair_value c d) = [c, d]" using i j by (simp add: pair_value_def utf16_def)
qed

text \<open>The units of a string are below 65536.\<close>

abbreviation units :: "jstr \<Rightarrow> bool" where
  "units s \<equiv> list_all (\<lambda>c. c < 65536) s"

lemma decode_encode:
  "units s \<Longrightarrow> encodeURIComponent s = Some e \<Longrightarrow> decodeURIComponent e = Some s"
proof (induction s arbitrary: e rule: encodeURIComponent.induct)
  case (2 c cs)
  consider "unescaped c" | "\<not> unescaped c" "\<not> low_surrogate c" "\<not> high_surrogate c"
    | d ds where "\<not> unescaped c" "\<not> low_surrogate c" "high_surrogate c" "cs = d # ds" "low_surrogate d"
    using "2.prems"(2) by (auto split: if_splits list.splits)
  then show ?case
  proof cases
    case 1
    then obtain u where u: "encodeURIComponent cs = Some u" "e = c # u" using "2.prems"(2) by (auto simp: prepend_Some)
    have "c \<noteq> 37" using 1 by (auto simp: unescaped_def js_def)
    with "2.IH"(1) [OF 1 _ u(1)] "2.prems"(1) u(2) show ?thesis by (simp add: decode_plain)
  next
    case 2
    then obtain u where u: "encodeURIComponent cs = Some u" "e = escape c @ u" using "2.prems"(2) by (auto simp: prepend_Some)
    have "c \<le> 1114111" "\<not> (55296 \<le> c \<and> c \<le> 57343)" "utf16 c = [c]"
      using "2.prems"(1) 2 by (auto simp: low_surrogate_def high_surrogate_def utf16_def)
    with "2.IH"(2) [OF 2(1,2) _ _ u(1)] 2(3) "2.prems"(1) u(2) show ?thesis by (simp add: decode_escape)
  next
    case 3
    then obtain u where u: "encodeURIComponent ds = Some u" "e = escape (pair_value c d) @ u"
      using "2.prems"(2) by (auto simp: prepend_Some)
    note b = pair_value_bounds [OF 3(3,5)]
    have "decodeURIComponent u = Some ds" using "2.IH"(3) [OF 3(1,2) _ 3(4,5) _ u(1)] 3 "2.prems"(1) by simp
    with b u(2) 3(4) show ?thesis by (simp add: decode_escape)
  qed
qed simp

text \<open>The encoded text consists of unescaped units, percent signs and hexadecimal digits.\<close>

lemma escape_units: "n \<le> 1114111 \<Longrightarrow> c \<in> set (escape n) \<Longrightarrow> c = 37 \<or> unescaped c"
proof -
  assume n: "n \<le> 1114111" and c: "c \<in> set (escape n)"
  then obtain b where b: "b \<in> set (utf8 n)" "c \<in> set (escape_byte b)" by (auto simp: escape_def)
  with utf8_bytes [OF n] have "b < 256" by (auto simp: list_all_iff)
  then have d: "b div 16 < 16" "b mod 16 < 16" by simp_all
  have hex: "unescaped (hex_digit d)" if "d < 16" for d
    using that by (auto simp: unescaped_def hex_digit_def)
  from b(2) hex [OF d(1)] hex [OF d(2)] show ?thesis by (auto simp: escape_byte_def)
qed

lemma encoded_units:
  "units s \<Longrightarrow> encodeURIComponent s = Some e \<Longrightarrow> c \<in> set e \<Longrightarrow> c = 37 \<or> unescaped c"
proof (induction s arbitrary: e rule: encodeURIComponent.induct)
  case (2 a as)
  have bmp: "a \<le> 1114111" using "2.prems"(1) by simp
  from 2 show ?case
    by (auto simp: prepend_Some split: if_splits list.splits)
      (metis escape_units bmp, metis escape_units pair_value_bounds(2))
qed simp

lemma encoded_Nil: "encodeURIComponent s = Some [] \<longleftrightarrow> s = []"
proof (cases s)
  case (Cons c cs)
  have "escape n \<noteq> []" for n using escape_Cons [of n] by auto
  then show ?thesis by (auto simp: Cons prepend_Some split: list.splits)
qed simp

end
