(* ===== verification/Pane_Id.thy ===== *)
theory Pane_Id
  imports Js_Value Uri_Component
begin

text \<open>
  The public contract of the pane inspection API (\<^verbatim>\<open>shared/src/paneInspection.ts\<close>): the pane id codec
  and the parsers of untrusted requests. A thrown \<open>PaneInspectionError\<close> is a value with its code and
  path; the message texts are left out. \<open>Number(text)\<close>, which the integer parser applies to a string, is
  the argument \<open>toNumber\<close>. The theorems say when decoding inverts encoding, and what an accepted
  request is known to satisfy.
\<close>

section \<open>Data\<close>

datatype PaneKind = Chat | AgentRunPane | Digest | Artifact | Launcher | Files | Review | File | Diff | Terminal | Browser

datatype PaneTarget = NodeTarget jstr | RunTarget jstr | SurfaceTarget jstr

datatype ExecutionRef = ChatTurn jstr jstr | AgentRunRef jstr

datatype PaneInspectionErrorCode = INVALID_ARGUMENT | NOT_FOUND | NAVIGATION_DISABLED | UNSUPPORTED
  | OUTPUT_CHANGED | OUTPUT_UNAVAILABLE | SOURCE_UNAVAILABLE | RATE_LIMITED

record PaneInspectionError =
  pe_code :: PaneInspectionErrorCode
  pe_path :: jstr

type_synonym 'a parsed = "PaneInspectionError + 'a"

definition fail :: "PaneInspectionErrorCode \<Rightarrow> jstr \<Rightarrow> 'a parsed" where
  "fail code path = Inl \<lparr>pe_code = code, pe_path = path\<rparr>"

record PaneInspectionLimits =
  lim_readOutputDefaultBytes :: int
  lim_readOutputMaxBytes :: int
  lim_listLimitDefault :: int
  lim_listLimitMax :: int
  lim_subscribeMaxPanes :: nat
  lim_waitTimeoutDefaultMs :: int
  lim_waitTimeoutMaxMs :: int
  lim_ringRetentionSeconds :: int
  lim_ringMaxEvents :: nat
  lim_ringMaxBytes :: int
  lim_workspaceRingBudgetBytes :: int
  lim_presenceKeepaliveSeconds :: int
  lim_presenceTtlSeconds :: int

definition PANE_INSPECTION_LIMITS :: PaneInspectionLimits where
  \<comment> \<open>the limits that the modelled components read\<close>
  "PANE_INSPECTION_LIMITS = \<lparr>lim_readOutputDefaultBytes = 16384, lim_readOutputMaxBytes = 65536,
     lim_listLimitDefault = 20, lim_listLimitMax = 100, lim_subscribeMaxPanes = 32,
     lim_waitTimeoutDefaultMs = 20000, lim_waitTimeoutMaxMs = 30000, lim_ringRetentionSeconds = 60,
     lim_ringMaxEvents = 256, lim_ringMaxBytes = 262144, lim_workspaceRingBudgetBytes = 4 * 1024 * 1024,
     lim_presenceKeepaliveSeconds = 20, lim_presenceTtlSeconds = 60\<rparr>"

section \<open>The id codec\<close>

definition encodePaneId :: "PaneTarget \<Rightarrow> jstr option" where
  \<comment> \<open>\<open>None\<close>: \<open>encodeURIComponent\<close> throws on a lone surrogate\<close>
  "encodePaneId target = (case target of
     NodeTarget nodeId \<Rightarrow> Some (js ''node:'' @ nodeId)
   | RunTarget runId \<Rightarrow> map_option ((@) (js ''run:'')) (encodeURIComponent runId)
   | SurfaceTarget registrationId \<Rightarrow> Some (js ''surface:'' @ registrationId))"

definition one_segment :: "jstr \<Rightarrow> 'a \<Rightarrow> 'a parsed" where
  "one_segment rest target = (if rest = [] then fail INVALID_ARGUMENT (js ''paneId'')
     else if 58 \<in> set rest then fail INVALID_ARGUMENT (js ''paneId'') else Inr target)"

definition decodePaneId :: "jsval \<Rightarrow> PaneTarget parsed" where
  "decodePaneId v = (case v of
     JStr paneId \<Rightarrow>
       if js_trim paneId \<noteq> paneId then fail INVALID_ARGUMENT (js ''paneId'')
       else if paneId = [] then fail INVALID_ARGUMENT (js ''paneId'')
       else (case find_index (\<lambda>c. c = 58) paneId of
           None \<Rightarrow> fail INVALID_ARGUMENT (js ''paneId'')
         | Some sepIndex \<Rightarrow>
             let prefix = take (sepIndex + 1) paneId; rest = drop (sepIndex + 1) paneId
             in if prefix = js ''node:'' then one_segment rest (NodeTarget rest)
                else if prefix = js ''run:'' then
                  bind_sum (one_segment rest rest) (\<lambda>_. case decodeURIComponent rest of
                      None \<Rightarrow> fail INVALID_ARGUMENT (js ''paneId'')
                    | Some runId \<Rightarrow> if runId = [] then fail INVALID_ARGUMENT (js ''paneId'') else Inr (RunTarget runId))
                else if prefix = js ''surface:'' then one_segment rest (SurfaceTarget rest)
                else fail INVALID_ARGUMENT (js ''paneId''))
   | _ \<Rightarrow> fail INVALID_ARGUMENT (js ''paneId''))"

section \<open>Readers of untrusted input\<close>

definition dot :: "jstr \<Rightarrow> string \<Rightarrow> jstr" where
  "dot path key = path @ js ''.'' @ js key"

definition obj :: "jsval \<Rightarrow> jstr \<Rightarrow> jsval parsed" where
  "obj value path = (if is_record value then Inr value else fail INVALID_ARGUMENT path)"

definition parse_str :: "jsval \<Rightarrow> jstr \<Rightarrow> jstr parsed" where
  \<comment> \<open>\<open>str\<close> with its defaults \<open>max = 4096\<close> and \<open>empty = false\<close>, as every caller uses it\<close>
  "parse_str value path = (case value of
     JStr s \<Rightarrow> let out = js_trim s
       in if out = [] then fail INVALID_ARGUMENT path
          else if 4096 < length out then fail INVALID_ARGUMENT path else Inr out
   | _ \<Rightarrow> fail INVALID_ARGUMENT path)"

definition choice :: "jsval \<Rightarrow> (jstr \<times> 'a) list \<Rightarrow> jstr \<Rightarrow> 'a parsed" where
  "choice value values path = (case value of
     JStr s \<Rightarrow> (case map_of values s of None \<Rightarrow> fail INVALID_ARGUMENT path | Some x \<Rightarrow> Inr x)
   | _ \<Rightarrow> fail INVALID_ARGUMENT path)"

definition clampInt :: "(jstr \<Rightarrow> jsval) \<Rightarrow> jsval \<Rightarrow> jstr \<Rightarrow> int \<Rightarrow> int \<Rightarrow> int \<Rightarrow> int parsed" where
  "clampInt toNumber value path fallback maximum minimum =
     (if value = JUndefined \<or> value = JNull then Inr fallback
      else case (case value of JStr s \<Rightarrow> toNumber s | v \<Rightarrow> v) of
             JNum n \<Rightarrow> if n < minimum then fail INVALID_ARGUMENT path else Inr (min n maximum)
           | _ \<Rightarrow> fail INVALID_ARGUMENT path)"

definition parseClampedInt :: "(jstr \<Rightarrow> jsval) \<Rightarrow> jsval \<Rightarrow> jstr \<Rightarrow> int \<Rightarrow> int \<Rightarrow> int \<Rightarrow> int parsed" where
  "parseClampedInt = clampInt"

datatype PaneLocator = ByPane jstr | ByNode jstr | ByRun jstr

definition provided :: "jsval \<Rightarrow> (string \<times> (jstr \<Rightarrow> PaneLocator)) list" where
  "provided raw = filter (\<lambda>kc. \<not> has_no_members (field raw (fst kc)))
     [(''paneId'', ByPane), (''nodeId'', ByNode), (''runId'', ByRun)]"

definition parsePaneLocator :: "jsval \<Rightarrow> jstr \<Rightarrow> PaneLocator parsed" where
  "parsePaneLocator value path = bind_sum (obj value path) (\<lambda>raw.
     case provided raw of
       [(key, mk)] \<Rightarrow> bind_sum (parse_str (field raw key) (dot path key)) (\<lambda>s. Inr (mk s))
     | _ \<Rightarrow> fail INVALID_ARGUMENT path)"

definition parseExecutionRef :: "jsval \<Rightarrow> jstr \<Rightarrow> ExecutionRef parsed" where
  "parseExecutionRef value path = bind_sum (obj value path) (\<lambda>raw.
     bind_sum (choice (field raw ''kind'') [(js ''chat_turn'', True), (js ''agent_run'', False)] (dot path ''kind'')) (\<lambda>chat.
       if chat then bind_sum (parse_str (field raw ''nodeId'') (dot path ''nodeId'')) (\<lambda>n.
           bind_sum (parse_str (field raw ''turnId'') (dot path ''turnId'')) (\<lambda>t. Inr (ChatTurn n t)))
       else bind_sum (parse_str (field raw ''runId'') (dot path ''runId'')) (\<lambda>r. Inr (AgentRunRef r))))"

record target_ids =
  ti_nodeId :: "jstr option"
  ti_runId :: "jstr option"

definition locatorTargetIds :: "PaneLocator \<Rightarrow> target_ids" where
  "locatorTargetIds locator = (case locator of
     ByNode n \<Rightarrow> \<lparr>ti_nodeId = Some n, ti_runId = None\<rparr>
   | ByRun r \<Rightarrow> \<lparr>ti_nodeId = None, ti_runId = Some r\<rparr>
   | ByPane p \<Rightarrow> (case decodePaneId (JStr p) of
         Inr (NodeTarget n) \<Rightarrow> \<lparr>ti_nodeId = Some n, ti_runId = None\<rparr>
       | Inr (RunTarget r) \<Rightarrow> \<lparr>ti_nodeId = None, ti_runId = Some r\<rparr>
       | _ \<Rightarrow> \<lparr>ti_nodeId = None, ti_runId = None\<rparr>))"

definition executionRefWithLocatorIds :: "jsval \<Rightarrow> PaneLocator option \<Rightarrow> jsval" where
  "executionRefWithLocatorIds value locator = (case (locator, value) of
     (Some l, JObj kvs) \<Rightarrow>
       let ids = locatorTargetIds l
       in if field value ''kind'' = JStr (js ''chat_turn'') \<and> has_no_members (field value ''nodeId'') \<and> truthy_str (ti_nodeId ids)
          then JObj (AList.update (js ''nodeId'') (JStr (default_to (ti_nodeId ids) [])) kvs)
          else if field value ''kind'' = JStr (js ''agent_run'') \<and> has_no_members (field value ''runId'') \<and> truthy_str (ti_runId ids)
          then JObj (AList.update (js ''runId'') (JStr (default_to (ti_runId ids) [])) kvs)
          else value
   | _ \<Rightarrow> value)"

definition parsePaneTargetArgs :: "jsval \<Rightarrow> jstr \<Rightarrow> (PaneLocator \<times> ExecutionRef option) parsed" where
  "parsePaneTargetArgs value path = bind_sum (obj value path) (\<lambda>raw.
     if 1 < length (provided raw) then fail INVALID_ARGUMENT path
     else bind_sum (if length (provided raw) = 1 then bind_sum (parsePaneLocator raw path) (\<lambda>l. Inr (Some l)) else Inr None) (\<lambda>locator.
       if has_no_members (field raw ''executionRef'')
       then (case locator of None \<Rightarrow> fail INVALID_ARGUMENT path | Some l \<Rightarrow> Inr (l, None))
       else bind_sum (parseExecutionRef (executionRefWithLocatorIds (field raw ''executionRef'') locator) (dot path ''executionRef'')) (\<lambda>ref.
         Inr (case locator of Some l \<Rightarrow> l | None \<Rightarrow> (case ref of ChatTurn n t \<Rightarrow> ByNode n | AgentRunRef r \<Rightarrow> ByRun r), Some ref))))"

section \<open>Requests\<close>

datatype PaneListScope = OpenPanes | AllPanes
datatype ExecutionSelection = Latest | LastCompleted | Execution
datatype WaitUntil = UntilChanged | UntilTerminal

definition PANE_KINDS :: "(jstr \<times> PaneKind) list" where
  "PANE_KINDS = [(js ''chat'', Chat), (js ''agent-run'', AgentRunPane), (js ''digest'', Digest), (js ''artifact'', Artifact),
     (js ''launcher'', Launcher), (js ''files'', Files), (js ''review'', Review), (js ''file'', File), (js ''diff'', Diff),
     (js ''terminal'', Terminal), (js ''browser'', Browser)]"

definition parsePaneListScope :: "jsval \<Rightarrow> jstr \<Rightarrow> PaneListScope parsed" where
  "parsePaneListScope value path = choice value [(js ''open'', OpenPanes), (js ''all'', AllPanes)] path"

definition parseExecutionSelection :: "jsval \<Rightarrow> jstr \<Rightarrow> ExecutionSelection parsed" where
  "parseExecutionSelection value path =
     choice value [(js ''latest'', Latest), (js ''last_completed'', LastCompleted), (js ''execution'', Execution)] path"

definition parseWaitUntil :: "jsval \<Rightarrow> jstr \<Rightarrow> WaitUntil parsed" where
  "parseWaitUntil value path = choice value [(js ''changed'', UntilChanged), (js ''terminal'', UntilTerminal)] path"

definition parsePaneKind :: "jsval \<Rightarrow> jstr \<Rightarrow> PaneKind parsed" where
  "parsePaneKind value path = choice value PANE_KINDS path"

definition parseListLimit :: "(jstr \<Rightarrow> jsval) \<Rightarrow> jsval \<Rightarrow> jstr \<Rightarrow> int parsed" where
  "parseListLimit toNumber value path = clampInt toNumber value path
     (lim_listLimitDefault PANE_INSPECTION_LIMITS) (lim_listLimitMax PANE_INSPECTION_LIMITS) 1"

definition parseReadOutputLimitBytes :: "(jstr \<Rightarrow> jsval) \<Rightarrow> jsval \<Rightarrow> jstr \<Rightarrow> int parsed" where
  "parseReadOutputLimitBytes toNumber value path = clampInt toNumber value path
     (lim_readOutputDefaultBytes PANE_INSPECTION_LIMITS) (lim_readOutputMaxBytes PANE_INSPECTION_LIMITS) 1"

definition parseWaitTimeoutMs :: "(jstr \<Rightarrow> jsval) \<Rightarrow> jsval \<Rightarrow> jstr \<Rightarrow> int parsed" where
  "parseWaitTimeoutMs toNumber value path = clampInt toNumber value path
     (lim_waitTimeoutDefaultMs PANE_INSPECTION_LIMITS) (lim_waitTimeoutMaxMs PANE_INSPECTION_LIMITS) 1"

record ListPanesRequestV1 =
  lp_workspaceId :: jstr
  lp_treeId :: "jstr option"
  lp_kind :: "PaneKind option"
  lp_parentNodeId :: "jstr option"
  lp_scope :: PaneListScope
  lp_includeArchived :: bool
  lp_limit :: int
  lp_cursor :: "jstr option option"

record InspectPaneRequestV1 =
  ip_locator :: PaneLocator
  ip_executionRef :: "ExecutionRef option"

record ReadPaneOutputRequestV1 =
  ro_locator :: PaneLocator
  ro_selection :: ExecutionSelection
  ro_executionRef :: "ExecutionRef option"
  ro_outputId :: "jstr option"
  ro_pageCursor :: "jstr option"
  ro_limitBytes :: int

record SubscribePanesRequestV1 =
  sp_paneIds :: "jstr list"
  sp_cursors :: "(jstr \<times> jstr) list"

record WaitPaneRequestV1 =
  wp_locator :: PaneLocator
  wp_until :: WaitUntil
  wp_cursor :: "jstr option"
  wp_executionRef :: "ExecutionRef option"
  wp_timeoutMs :: int

definition optional_member :: "jsval \<Rightarrow> (jsval \<Rightarrow> 'a parsed) \<Rightarrow> 'a option parsed" where
  \<comment> \<open>\<open>if (raw.x !== undefined) out.x = ...\<close>\<close>
  "optional_member v f = (if v = JUndefined then Inr None else bind_sum (f v) (\<lambda>x. Inr (Some x)))"

definition parseListPanesRequestV1 :: "(jstr \<Rightarrow> jsval) \<Rightarrow> jsval \<Rightarrow> jstr \<Rightarrow> ListPanesRequestV1 parsed" where
  "parseListPanesRequestV1 toNumber value path = bind_sum (obj value path) (\<lambda>raw.
     bind_sum (parse_str (field raw ''workspaceId'') (dot path ''workspaceId'')) (\<lambda>workspaceId.
     bind_sum (if field raw ''scope'' = JUndefined then Inr OpenPanes else parsePaneListScope (field raw ''scope'') (dot path ''scope'')) (\<lambda>scope.
     bind_sum (parseListLimit toNumber (field raw ''limit'') (dot path ''limit'')) (\<lambda>limit.
     bind_sum (optional_member (field raw ''treeId'') (\<lambda>v. parse_str v (dot path ''treeId''))) (\<lambda>treeId.
     bind_sum (optional_member (field raw ''kind'') (\<lambda>v. parsePaneKind v (dot path ''kind''))) (\<lambda>kind.
     bind_sum (optional_member (field raw ''parentNodeId'') (\<lambda>v. parse_str v (dot path ''parentNodeId''))) (\<lambda>parentNodeId.
     bind_sum (optional_member (field raw ''cursor'') (\<lambda>v. if v = JNull then Inr None
         else bind_sum (parse_str v (dot path ''cursor'')) (\<lambda>s. Inr (Some s)))) (\<lambda>cursor.
       Inr \<lparr>lp_workspaceId = workspaceId, lp_treeId = treeId, lp_kind = kind, lp_parentNodeId = parentNodeId,
         lp_scope = scope, lp_includeArchived = js_truthy (field raw ''includeArchived''), lp_limit = limit,
         lp_cursor = cursor\<rparr>))))))))"

definition parseInspectPaneRequestV1 :: "jsval \<Rightarrow> jstr \<Rightarrow> InspectPaneRequestV1 parsed" where
  "parseInspectPaneRequestV1 value path = bind_sum (parsePaneTargetArgs value path) (\<lambda>(locator, ref).
     Inr \<lparr>ip_locator = locator, ip_executionRef = ref\<rparr>)"

definition parseReadPaneOutputRequestV1 :: "(jstr \<Rightarrow> jsval) \<Rightarrow> jsval \<Rightarrow> jstr \<Rightarrow> ReadPaneOutputRequestV1 parsed" where
  "parseReadPaneOutputRequestV1 toNumber value path = bind_sum (obj value path) (\<lambda>raw.
     bind_sum (parseExecutionSelection (field raw ''selection'') (dot path ''selection'')) (\<lambda>selection.
     if selection = Execution \<and> has_no_members (field raw ''executionRef'') then fail INVALID_ARGUMENT (dot path ''executionRef'')
     else bind_sum (parsePaneTargetArgs raw path) (\<lambda>(locator, ref).
     bind_sum (parseReadOutputLimitBytes toNumber (field raw ''limitBytes'') (dot path ''limitBytes'')) (\<lambda>limitBytes.
     bind_sum (optional_member (field raw ''outputId'') (\<lambda>v. parse_str v (dot path ''outputId''))) (\<lambda>outputId.
     bind_sum (optional_member (field raw ''pageCursor'') (\<lambda>v. parse_str v (dot path ''pageCursor''))) (\<lambda>pageCursor.
       Inr \<lparr>ro_locator = locator, ro_selection = selection, ro_executionRef = ref, ro_outputId = outputId,
         ro_pageCursor = pageCursor, ro_limitBytes = limitBytes\<rparr>))))))"

fun parse_ids :: "jstr \<Rightarrow> nat \<Rightarrow> jsval list \<Rightarrow> jstr list parsed" where
  "parse_ids path i [] = Inr []"
| "parse_ids path i (v # vs) = bind_sum (parse_str v (dot path ''paneIds'' @ js ''['' @ decimal i @ js '']'')) (\<lambda>s.
     bind_sum (parse_ids path (Suc i) vs) (\<lambda>ss. Inr (s # ss)))"

text \<open>
  The assignment \<open>cursors[key] = ...\<close> to a plain object has no effect for the key \<open>__proto__\<close>: a string
  is no prototype. The value is checked all the same.
\<close>

fun parse_cursors :: "jstr \<Rightarrow> (jstr \<times> jsval) list \<Rightarrow> (jstr \<times> jstr) list parsed" where
  "parse_cursors path [] = Inr []"
| "parse_cursors path ((key, v) # kvs) =
     (if v = JUndefined then parse_cursors path kvs
      else bind_sum (parse_str v (dot path ''cursors'' @ js ''.'' @ key)) (\<lambda>s.
        bind_sum (parse_cursors path kvs) (\<lambda>cs. Inr (if key = js ''__proto__'' then cs else (key, s) # cs))))"

fun members :: "jsval \<Rightarrow> (jstr \<times> jsval) list" where
  "members (JObj kvs) = kvs"
| "members v = []"

definition parseSubscribePanesRequestV1 :: "jsval \<Rightarrow> jstr \<Rightarrow> SubscribePanesRequestV1 parsed" where
  "parseSubscribePanesRequestV1 value path = bind_sum (obj value path) (\<lambda>raw.
     case field raw ''paneIds'' of
       JArr vs \<Rightarrow>
         if vs = [] then fail INVALID_ARGUMENT (dot path ''paneIds'')
         else if lim_subscribeMaxPanes PANE_INSPECTION_LIMITS < length vs then fail INVALID_ARGUMENT (dot path ''paneIds'')
         else bind_sum (parse_ids path 0 vs) (\<lambda>paneIds.
           if \<not> distinct paneIds then fail INVALID_ARGUMENT (dot path ''paneIds'')
           else bind_sum (if field raw ''cursors'' = JUndefined then Inr (JObj []) else obj (field raw ''cursors'') (dot path ''cursors'')) (\<lambda>cursorsRaw.
             bind_sum (parse_cursors path (members cursorsRaw)) (\<lambda>cursors.
               Inr \<lparr>sp_paneIds = paneIds, sp_cursors = cursors\<rparr>)))
     | _ \<Rightarrow> fail INVALID_ARGUMENT (dot path ''paneIds''))"

definition parseWaitPaneRequestV1 :: "(jstr \<Rightarrow> jsval) \<Rightarrow> jsval \<Rightarrow> jstr \<Rightarrow> WaitPaneRequestV1 parsed" where
  "parseWaitPaneRequestV1 toNumber value path = bind_sum (obj value path) (\<lambda>raw.
     bind_sum (parseWaitUntil (field raw ''until'') (dot path ''until'')) (\<lambda>until.
     if until = UntilChanged \<and> field raw ''cursor'' = JUndefined then fail INVALID_ARGUMENT (dot path ''cursor'')
     else if until = UntilTerminal \<and> has_no_members (field raw ''executionRef'') then fail INVALID_ARGUMENT (dot path ''executionRef'')
     else bind_sum (parsePaneTargetArgs raw path) (\<lambda>(locator, ref).
     bind_sum (parseWaitTimeoutMs toNumber (field raw ''timeoutMs'') (dot path ''timeoutMs'')) (\<lambda>timeoutMs.
     bind_sum (optional_member (field raw ''cursor'') (\<lambda>v. parse_str v (dot path ''cursor''))) (\<lambda>cursor.
       Inr \<lparr>wp_locator = locator, wp_until = until, wp_cursor = cursor, wp_executionRef = ref, wp_timeoutMs = timeoutMs\<rparr>)))))"

section \<open>Lemmas: the codec\<close>

lemma fail_Inr [simp]: "fail c p = Inr x \<longleftrightarrow> False"
  by (simp add: fail_def)

lemma if_fail [simp]:
  "(if b then fail c p else m) = Inr y \<longleftrightarrow> \<not> b \<and> m = Inr y"
  "(if b then m else fail c p) = Inr y \<longleftrightarrow> b \<and> m = Inr y"
  by simp_all

lemma obj_Inr [simp]: "obj v p = Inr r \<longleftrightarrow> is_record v \<and> r = v"
  by (auto simp: obj_def)

lemma bind_sumE: "bind_sum m f = Inr y \<Longrightarrow> (\<And>x. m = Inr x \<Longrightarrow> f x = Inr y \<Longrightarrow> R) \<Longrightarrow> R"
  by (cases m) simp_all

lemma accepted: "(\<And>r. m = Inr r \<Longrightarrow> P r) \<Longrightarrow> case m of Inl e \<Rightarrow> True | Inr r \<Rightarrow> P r"
  by (cases m) simp_all

lemma one_segment_Inr [simp]: "one_segment s x = Inr y \<longleftrightarrow> s \<noteq> [] \<and> 58 \<notin> set s \<and> x = y"
  by (auto simp: one_segment_def)

lemma dropWhile_length_id: "length s \<le> length (dropWhile P s) \<Longrightarrow> dropWhile P s = s"
  using length_dropWhile_le [of P "tl s"] by (cases s) auto

lemma js_trim_id:
  assumes "s \<noteq> []"
  shows "js_trim s = s \<longleftrightarrow> \<not> is_ws (hd s) \<and> \<not> is_ws (last s)"
proof
  assume t: "js_trim s = s"
  let ?d = "dropWhile is_ws s"
  have "length (js_trim s) \<le> length ?d" unfolding js_trim_def by (metis length_dropWhile_le length_rev)
  then have d: "?d = s" by (intro dropWhile_length_id) (simp add: t)
  then have "dropWhile is_ws (rev s) = rev s" using t unfolding js_trim_def by (metis rev_rev_ident)
  then show "\<not> is_ws (hd s) \<and> \<not> is_ws (last s)"
    using d assms by (metis hd_dropWhile hd_rev rev_is_Nil_conv)
next
  assume "\<not> is_ws (hd s) \<and> \<not> is_ws (last s)"
  with assms show "js_trim s = s"
    unfolding js_trim_def
    by (metis dropWhile.simps(2) hd_rev list.collapse rev_is_Nil_conv rev_rev_ident)
qed

lemma prefix_units:
  "js ''node:'' = [110, 111, 100, 101, 58]" "js ''run:'' = [114, 117, 110, 58]"
  "js ''surface:'' = [115, 117, 114, 102, 97, 99, 101, 58]"
  by (simp_all add: js_def)

lemma trim_prefixed:
  "js_trim (p # ps @ s) = p # ps @ s \<longleftrightarrow> \<not> is_ws p \<and> \<not> is_ws (last (p # ps @ s))"
  using js_trim_id [of "p # ps @ s"] by simp

lemma decode_node:
  "decodePaneId (JStr (js ''node:'' @ s)) =
     (if s \<noteq> [] \<and> is_ws (last s) then fail INVALID_ARGUMENT (js ''paneId'') else one_segment s (NodeTarget s))"
  using trim_prefixed [of 110 "[111, 100, 101, 58]" s]
  by (simp add: decodePaneId_def prefix_units is_ws_def)

lemma decode_surface:
  "decodePaneId (JStr (js ''surface:'' @ s)) =
     (if s \<noteq> [] \<and> is_ws (last s) then fail INVALID_ARGUMENT (js ''paneId'') else one_segment s (SurfaceTarget s))"
  using trim_prefixed [of 115 "[117, 114, 102, 97, 99, 101, 58]" s]
  by (simp add: decodePaneId_def prefix_units is_ws_def)

lemma decode_run:
  "decodePaneId (JStr (js ''run:'' @ s)) =
     (if s \<noteq> [] \<and> is_ws (last s) then fail INVALID_ARGUMENT (js ''paneId'')
      else bind_sum (one_segment s s) (\<lambda>_. case decodeURIComponent s of
        None \<Rightarrow> fail INVALID_ARGUMENT (js ''paneId'')
      | Some runId \<Rightarrow> if runId = [] then fail INVALID_ARGUMENT (js ''paneId'') else Inr (RunTarget runId)))"
  using trim_prefixed [of 114 "[117, 110, 58]" s]
  by (simp add: decodePaneId_def prefix_units is_ws_def)

lemma unescaped_plain: "c = 37 \<or> unescaped c \<Longrightarrow> \<not> is_ws c \<and> c \<noteq> 58"
  by (auto simp: unescaped_def is_ws_def js_def)

fun target_id :: "PaneTarget \<Rightarrow> jstr" where
  "target_id (NodeTarget s) = s"
| "target_id (RunTarget s) = s"
| "target_id (SurfaceTarget s) = s"

fun verbatim_id :: "PaneTarget \<Rightarrow> bool" where
  "verbatim_id (RunTarget s) = False"
| "verbatim_id t = True"

text \<open>The pane id codec: an encoded target decodes to itself exactly when its id is not empty and, for a
  node or surface id, which are written verbatim, contains no colon and does not end in white space.
  Run ids, which are percent-encoded, may contain anything.\<close>
theorem pane_id_roundtrip:
  assumes "encodePaneId t = Some e" and "units (target_id t)"
  shows "decodePaneId (JStr e) = Inr t \<longleftrightarrow> target_id t \<noteq> [] \<and>
    (if verbatim_id t then 58 \<notin> set (target_id t) \<and> is_ws (last (target_id t)) = False else True)"
proof (cases t)
  case (RunTarget r)
  then obtain c where c: "encodeURIComponent r = Some c" "e = js ''run:'' @ c" using assms(1) by (auto simp: encodePaneId_def)
  have u: "\<not> is_ws d \<and> d \<noteq> 58" if "d \<in> set c" for d
    using encoded_units [OF _ c(1) that] assms(2) RunTarget unescaped_plain by simp
  have "decodeURIComponent c = Some r" using decode_encode [OF _ c(1)] assms(2) RunTarget by simp
  moreover have "c = [] \<longleftrightarrow> r = []" using encoded_Nil [of r] c(1) by auto
  ultimately show ?thesis using u u [OF last_in_set]
    by (auto simp: RunTarget c(2) decode_run bind_sum_Inr)
next
  case (NodeTarget s)
  then show ?thesis using assms(1) decode_node [of s] by (auto simp: encodePaneId_def)
next
  case (SurfaceTarget s)
  then show ?thesis using assms(1) decode_surface [of s] by (auto simp: encodePaneId_def)
qed

theorem pane_id_roundtrip_witness:
  "encodePaneId (RunTarget (js ''a:b c'')) = Some (js ''run:a%3Ab%20c'') \<and>
   decodePaneId (JStr (js ''run:a%3Ab%20c'')) = Inr (RunTarget (js ''a:b c''))"
proof -
  have e: "encodePaneId (RunTarget (js ''a:b c'')) = Some (js ''run:a%3Ab%20c'')"
    by (simp add: encodePaneId_def js_def unescaped_def low_surrogate_def high_surrogate_def escape_def utf8_def
        escape_byte_def hex_digit_def)
  have "units (target_id (RunTarget (js ''a:b c'')))" by (simp add: js_def)
  from pane_id_roundtrip [OF e this] e show ?thesis by simp
qed

section \<open>Lemmas: requests\<close>

definition id_ok :: "jstr \<Rightarrow> bool" where
  "id_ok s \<longleftrightarrow> s \<noteq> [] \<and> length s \<le> 4096"

lemma parse_str_ok: "parse_str v p = Inr s \<Longrightarrow> id_ok s"
  by (auto simp: parse_str_def id_ok_def fail_def Let_def split: jsval.splits if_splits)

lemma clampInt_bounds:
  "clampInt f v p d hi lo = Inr n \<Longrightarrow> lo \<le> d \<Longrightarrow> d \<le> hi \<Longrightarrow> lo \<le> n \<and> n \<le> hi"
  by (auto simp: clampInt_def fail_def split: jsval.splits if_splits)

lemma limit_bounds:
  "parseListLimit f v p = Inr n \<Longrightarrow> 1 \<le> n \<and> n \<le> 100"
  "parseReadOutputLimitBytes f v p = Inr n \<Longrightarrow> 1 \<le> n \<and> n \<le> 65536"
  "parseWaitTimeoutMs f v p = Inr n \<Longrightarrow> 1 \<le> n \<and> n \<le> 30000"
  by (auto simp: parseListLimit_def parseReadOutputLimitBytes_def parseWaitTimeoutMs_def PANE_INSPECTION_LIMITS_def
      dest!: clampInt_bounds)

lemma parse_ids_ok: "parse_ids p i vs = Inr ss \<Longrightarrow> length ss = length vs \<and> list_all id_ok ss"
  by (induction p i vs arbitrary: ss rule: parse_ids.induct) (auto simp: bind_sum_Inr dest: parse_str_ok)

lemma parse_cursors_ok: "parse_cursors p kvs = Inr cs \<Longrightarrow> list_all (\<lambda>kc. id_ok (snd kc)) cs"
  by (induction p kvs arbitrary: cs rule: parse_cursors.induct) (auto simp: bind_sum_Inr dest: parse_str_ok split: if_splits)

fun locator_id :: "PaneLocator \<Rightarrow> jstr" where
  "locator_id (ByPane s) = s"
| "locator_id (ByNode s) = s"
| "locator_id (ByRun s) = s"

lemma provided_maker: "(key, mk) \<in> set (provided raw) \<Longrightarrow> locator_id (mk s) = s"
  by (auto simp: provided_def split: if_splits)

lemma locator_ok: "parsePaneLocator v p = Inr l \<Longrightarrow> id_ok (locator_id l)"
  by (auto simp: parsePaneLocator_def elim!: bind_sumE split: list.splits prod.splits)
    (metis list.set_intros(1) parse_str_ok provided_maker)

fun ref_ok :: "ExecutionRef \<Rightarrow> bool" where
  "ref_ok (ChatTurn n t) \<longleftrightarrow> id_ok n \<and> id_ok t"
| "ref_ok (AgentRunRef r) \<longleftrightarrow> id_ok r"

lemma executionRef_ok: "parseExecutionRef v p = Inr r \<Longrightarrow> ref_ok r"
  by (auto simp: parseExecutionRef_def bind_sum_Inr split: if_splits dest!: parse_str_ok)

definition target_ok :: "PaneLocator \<Rightarrow> ExecutionRef option \<Rightarrow> bool" where
  "target_ok l r \<longleftrightarrow> id_ok (locator_id l) \<and> (case r of None \<Rightarrow> True | Some ref \<Rightarrow> ref_ok ref)"

definition locator_of :: "PaneLocator option \<Rightarrow> ExecutionRef \<Rightarrow> PaneLocator" where
  "locator_of loc ref = (case loc of Some l \<Rightarrow> l | None \<Rightarrow> (case ref of ChatTurn n t \<Rightarrow> ByNode n | AgentRunRef r \<Rightarrow> ByRun r))"

lemma locator_of_ok: "(\<And>l. loc = Some l \<Longrightarrow> id_ok (locator_id l)) \<Longrightarrow> ref_ok ref \<Longrightarrow> id_ok (locator_id (locator_of loc ref))"
  by (cases loc; cases ref) (simp_all add: locator_of_def)

lemma targetArgs_ok:
  "parsePaneTargetArgs v p = Inr (l, r) \<Longrightarrow> target_ok l r \<and> (r \<noteq> None \<longleftrightarrow> \<not> has_no_members (field v ''executionRef''))"
  unfolding parsePaneTargetArgs_def locator_of_def [symmetric]
  by (cases "has_no_members (field v ''executionRef'')")
    (auto simp: target_ok_def split: if_splits option.splits elim!: bind_sumE dest!: executionRef_ok locator_ok intro!: locator_of_ok)

text \<open>A request accepted from an untrusted caller is within the limits of the API: page sizes, byte
  limits and time-outs are in range whatever was asked for, every id is non-empty and at most 4096
  units, a subscription names one to 32 different panes, reading a named execution and waiting for an
  end come with an execution reference, and waiting for a change comes with a cursor.\<close>
theorem accepted_requests_bounded:
  "(case parseListPanesRequestV1 toNumber v path of Inl e \<Rightarrow> True
      | Inr r \<Rightarrow> 1 \<le> lp_limit r \<and> lp_limit r \<le> 100 \<and> id_ok (lp_workspaceId r)) \<and>
   (case parseReadPaneOutputRequestV1 toNumber v path of Inl e \<Rightarrow> True
      | Inr r \<Rightarrow> 1 \<le> ro_limitBytes r \<and> ro_limitBytes r \<le> 65536 \<and> target_ok (ro_locator r) (ro_executionRef r)
          \<and> (if ro_selection r = Execution then ro_executionRef r \<noteq> None else True)) \<and>
   (case parseSubscribePanesRequestV1 v path of Inl e \<Rightarrow> True
      | Inr r \<Rightarrow> 1 \<le> length (sp_paneIds r) \<and> length (sp_paneIds r) \<le> 32 \<and> distinct (sp_paneIds r)
          \<and> list_all id_ok (sp_paneIds r) \<and> list_all (\<lambda>kc. id_ok (snd kc)) (sp_cursors r)) \<and>
   (case parseWaitPaneRequestV1 toNumber v path of Inl e \<Rightarrow> True
      | Inr r \<Rightarrow> 1 \<le> wp_timeoutMs r \<and> wp_timeoutMs r \<le> 30000 \<and> target_ok (wp_locator r) (wp_executionRef r)
          \<and> (if wp_until r = UntilTerminal then wp_executionRef r \<noteq> None else wp_cursor r \<noteq> None))"
proof (intro conjI)
  show "case parseListPanesRequestV1 toNumber v path of Inl e \<Rightarrow> True
      | Inr r \<Rightarrow> 1 \<le> lp_limit r \<and> lp_limit r \<le> 100 \<and> id_ok (lp_workspaceId r)"
    by (rule accepted) (auto simp: parseListPanesRequestV1_def elim!: bind_sumE dest!: limit_bounds parse_str_ok)
  show "case parseReadPaneOutputRequestV1 toNumber v path of Inl e \<Rightarrow> True
      | Inr r \<Rightarrow> 1 \<le> ro_limitBytes r \<and> ro_limitBytes r \<le> 65536 \<and> target_ok (ro_locator r) (ro_executionRef r)
          \<and> (if ro_selection r = Execution then ro_executionRef r \<noteq> None else True)"
    by (rule accepted) (auto simp: parseReadPaneOutputRequestV1_def elim!: bind_sumE dest!: limit_bounds targetArgs_ok)
  show "case parseSubscribePanesRequestV1 v path of Inl e \<Rightarrow> True
      | Inr r \<Rightarrow> 1 \<le> length (sp_paneIds r) \<and> length (sp_paneIds r) \<le> 32 \<and> distinct (sp_paneIds r)
          \<and> list_all id_ok (sp_paneIds r) \<and> list_all (\<lambda>kc. id_ok (snd kc)) (sp_cursors r)"
    by (rule accepted) (auto simp: parseSubscribePanesRequestV1_def PANE_INSPECTION_LIMITS_def Suc_le_eq
        elim!: bind_sumE split: jsval.splits dest!: parse_ids_ok parse_cursors_ok)
  show "case parseWaitPaneRequestV1 toNumber v path of Inl e \<Rightarrow> True
      | Inr r \<Rightarrow> 1 \<le> wp_timeoutMs r \<and> wp_timeoutMs r \<le> 30000 \<and> target_ok (wp_locator r) (wp_executionRef r)
          \<and> (if wp_until r = UntilTerminal then wp_executionRef r \<noteq> None else wp_cursor r \<noteq> None)"
  proof (rule accepted)
    have two: "u \<noteq> UntilTerminal \<longleftrightarrow> u = UntilChanged" for u by (cases u) simp_all
    fix r
    assume "parseWaitPaneRequestV1 toNumber v path = Inr r"
    then show "1 \<le> wp_timeoutMs r \<and> wp_timeoutMs r \<le> 30000 \<and> target_ok (wp_locator r) (wp_executionRef r)
          \<and> (if wp_until r = UntilTerminal then wp_executionRef r \<noteq> None else wp_cursor r \<noteq> None)"
      by (auto simp: parseWaitPaneRequestV1_def optional_member_def two
          elim!: bind_sumE split: if_splits dest!: limit_bounds targetArgs_ok)
  qed
qed

end
