(* ===== verification/Pane_Presence.thy ===== *)
theory Pane_Presence
  imports Pane_Id
begin

text \<open>
  The registry of open views (\<^verbatim>\<open>backend/src/services/panePresence.ts\<close>): the class \<open>PanePresenceRegistry\<close> as a
  state and one function per method. A \<open>Map\<close> is an association list in insertion order. The injected
  clock is the argument \<open>now\<close> of a method (the readings within one call are taken to be equal), the
  lease-id and UUID sources are sequences of which the state counts the members used, and what the
  methods read of the database (the workspace of a node, a workspace of an owner, the workspace of an
  owner's run) is the record \<open>world\<close>. Every method first sweeps what has expired. The theorems say that
  the stores stay consistent, that a caller cannot touch the leases of another scope, which
  submissions change a lease, and that exactly the renewed leases are reported.
\<close>

section \<open>Data\<close>

definition MAX_SURFACE_REGISTRATIONS_PER_SCOPE :: nat where
  "MAX_SURFACE_REGISTRATIONS_PER_SCOPE = lim_subscribeMaxPanes PANE_INSPECTION_LIMITS"

record PresenceCaller =
  c_ownerUserId :: jstr
  c_workspaceId :: jstr
  c_connectionId :: jstr

record PresenceViewInput =
  i_paneId :: jstr
  i_windowId :: jstr
  i_uiPaneId :: jstr
  i_treeId :: "jstr option"
  i_visible :: bool
  i_openedAtClient :: "int option"
  i_surfaceTitle :: "jstr option"  \<comment> \<open>absent and \<open>null\<close> are read alike\<close>

record SubmitPresenceRequest =
  sr_rendererLeaseId :: "jstr option"
  sr_viewRevision :: int
  sr_windowId :: jstr
  sr_views :: "PresenceViewInput list"

datatype SubmitPresenceResult =
    Submitted jstr nat "jstr list"  \<comment> \<open>lease, accepted, the pane ids rejected as \<open>NOT_FOUND\<close>\<close>
  | StaleRevision int
  | WrongWindow
  | EmptySnapshotIgnored jstr

datatype RemovePresenceResult = RemovedViews nat | RemoveWrongWindow | RemoveNotFound

datatype PresenceKeepaliveResult = Renewed nat | KeepaliveNotFound

record StoredView =
  w_paneId :: jstr
  w_target :: PaneTarget
  w_windowId :: jstr
  w_uiPaneId :: jstr
  w_treeId :: "jstr option"
  w_visible :: bool
  w_openedAtClient :: "int option"
  w_registeredAt :: int
  w_lastSeenAt :: int
  w_surfaceTitle :: "jstr option"

record Lease =
  l_rendererLeaseId :: jstr
  l_ownerUserId :: jstr
  l_workspaceId :: jstr
  l_connectionId :: jstr
  l_windowId :: jstr
  l_viewRevision :: int
  l_lastKeepaliveAt :: int
  l_views :: "(jstr \<times> StoredView) list"
  l_hasReportedNonEmpty :: bool

record Tombstone =
  tb_rendererLeaseId :: jstr
  tb_expiredAt :: int

record SurfaceRegistration =
  sf_registrationId :: jstr
  sf_kind :: jstr
  sf_ownerUserId :: jstr
  sf_workspaceId :: jstr
  sf_connectionId :: jstr
  sf_allocatedAt :: int

record PresenceOptions =
  po_createLeaseId :: "nat \<Rightarrow> jstr"
  po_randomUUID :: "nat \<Rightarrow> jstr"
  po_ttlMs :: int
  po_tombstoneRetentionMs :: int

record PanePresenceRegistry =
  y_leases :: "(jstr \<times> Lease) list"
  y_tombstones :: "(jstr \<times> Tombstone) list"
  y_registrations :: "(jstr \<times> SurfaceRegistration) list"
  y_leaseIds :: nat
  y_uuids :: nat

record world =
  d_nodeWorkspace :: "jstr \<Rightarrow> jstr option"  \<comment> \<open>\<open>getNode(id)?.workspace_id\<close>\<close>
  d_getWorkspace :: "jstr \<Rightarrow> jstr \<Rightarrow> jstr option"  \<comment> \<open>\<open>getWorkspace(id, owner)?.id\<close>\<close>
  d_runWorkspace :: "jstr \<Rightarrow> jstr \<Rightarrow> jstr option option"  \<comment> \<open>\<open>getRun(owner, id)?.workspaceId\<close>, which may be absent\<close>

definition new_registry :: PanePresenceRegistry where
  "new_registry = \<lparr>y_leases = [], y_tombstones = [], y_registrations = [], y_leaseIds = 0, y_uuids = 0\<rparr>"

section \<open>Expiry\<close>

definition lease_expired :: "PresenceOptions \<Rightarrow> int \<Rightarrow> Lease \<Rightarrow> bool" where
  "lease_expired opts now l \<longleftrightarrow> po_ttlMs opts < now - l_lastKeepaliveAt l"

fun surface_id :: "PaneTarget \<Rightarrow> jstr option" where
  "surface_id (SurfaceTarget r) = Some r"
| "surface_id t = None"

definition referenced :: "(jstr \<times> Lease) list \<Rightarrow> jstr \<Rightarrow> bool" where
  "referenced leases r \<longleftrightarrow> list_ex (\<lambda>(_, l). list_ex (\<lambda>(_, v). surface_id (w_target v) = Some r) (l_views l)) leases"

definition sweepUnclaimedRegistrations :: "PresenceOptions \<Rightarrow> int \<Rightarrow> PanePresenceRegistry \<Rightarrow> PanePresenceRegistry" where
  "sweepUnclaimedRegistrations opts now st = st\<lparr>y_registrations :=
     filter (\<lambda>(r, reg). referenced (y_leases st) r \<or> \<not> po_ttlMs opts < now - sf_allocatedAt reg) (y_registrations st)\<rparr>"

definition sweepExpired :: "PresenceOptions \<Rightarrow> int \<Rightarrow> PanePresenceRegistry \<Rightarrow> PanePresenceRegistry" where
  "sweepExpired opts now st =
     (let expired = filter (\<lambda>(_, l). lease_expired opts now l) (y_leases st);
          tombs = foldl (\<lambda>ts (k, _). AList.update k \<lparr>tb_rendererLeaseId = k, tb_expiredAt = now\<rparr> ts) (y_tombstones st) expired
      in sweepUnclaimedRegistrations opts now (st\<lparr>
           y_leases := filter (\<lambda>(_, l). \<not> lease_expired opts now l) (y_leases st),
           y_tombstones := filter (\<lambda>(_, t). \<not> po_tombstoneRetentionMs opts < now - tb_expiredAt t) tombs\<rparr>))"

section \<open>Ownership\<close>

definition same_scope :: "SurfaceRegistration \<Rightarrow> PresenceCaller \<Rightarrow> bool" where
  "same_scope reg c \<longleftrightarrow> sf_ownerUserId reg = c_ownerUserId c \<and> sf_workspaceId reg = c_workspaceId c
     \<and> sf_connectionId reg = c_connectionId c"

definition owns_lease :: "PresenceCaller \<Rightarrow> Lease \<Rightarrow> bool" where
  "owns_lease c l \<longleftrightarrow> l_ownerUserId l = c_ownerUserId c \<and> l_workspaceId l = c_workspaceId c
     \<and> l_connectionId l = c_connectionId c"

definition resolveOwnedTarget :: "world \<Rightarrow> PanePresenceRegistry \<Rightarrow> jstr \<Rightarrow> PresenceCaller \<Rightarrow> PaneTarget option" where
  "resolveOwnedTarget d st paneId caller = (case decodePaneId (JStr paneId) of
     Inl _ \<Rightarrow> None
   | Inr target \<Rightarrow> (case target of
       NodeTarget nodeId \<Rightarrow> (case d_nodeWorkspace d nodeId of None \<Rightarrow> None
         | Some w \<Rightarrow> (case d_getWorkspace d w (c_ownerUserId caller) of None \<Rightarrow> None
             | Some w' \<Rightarrow> if w' \<noteq> c_workspaceId caller then None else Some target))
     | RunTarget runId \<Rightarrow> (case d_runWorkspace d (c_ownerUserId caller) runId of None \<Rightarrow> None
         | Some w \<Rightarrow> if w \<noteq> Some (c_workspaceId caller) then None else Some target)
     | SurfaceTarget r \<Rightarrow> (case map_of (y_registrations st) r of None \<Rightarrow> None
         | Some reg \<Rightarrow> if same_scope reg caller then Some target else None)))"

section \<open>Surface registrations\<close>

definition countRegistrationsForScope :: "PanePresenceRegistry \<Rightarrow> PresenceCaller \<Rightarrow> nat" where
  "countRegistrationsForScope st c = length (filter (\<lambda>(_, reg). same_scope reg c) (y_registrations st))"

definition allocateSurfaceRegistration ::
  "PresenceOptions \<Rightarrow> int \<Rightarrow> PresenceCaller \<Rightarrow> jstr \<Rightarrow> PanePresenceRegistry \<Rightarrow> (jstr \<times> jstr) parsed \<times> PanePresenceRegistry" where
  "allocateSurfaceRegistration opts now caller kind st =
     (let st1 = sweepExpired opts now st
      in if MAX_SURFACE_REGISTRATIONS_PER_SCOPE \<le> countRegistrationsForScope st1 caller
         then (fail RATE_LIMITED (js ''presence.allocate''), st1)
         else let r = po_randomUUID opts (y_uuids st1)
              in (Inr (r, js ''surface:'' @ r), st1\<lparr>y_uuids := Suc (y_uuids st1),
                    y_registrations := AList.update r \<lparr>sf_registrationId = r, sf_kind = kind,
                      sf_ownerUserId = c_ownerUserId caller, sf_workspaceId = c_workspaceId caller,
                      sf_connectionId = c_connectionId caller, sf_allocatedAt = now\<rparr> (y_registrations st1)\<rparr>))"

section \<open>Submitting\<close>

definition stored_view :: "int \<Rightarrow> Lease \<Rightarrow> PresenceViewInput \<Rightarrow> PaneTarget \<Rightarrow> StoredView" where
  "stored_view now lease input target =
     (let existing = map_of (l_views lease) (i_paneId input)
      in \<lparr>w_paneId = i_paneId input, w_target = target, w_windowId = i_windowId input, w_uiPaneId = i_uiPaneId input,
          w_treeId = i_treeId input, w_visible = i_visible input,
          w_openedAtClient = nullish (i_openedAtClient input) (Option.bind existing w_openedAtClient),
          w_registeredAt = default_to (map_option w_registeredAt existing) now, w_lastSeenAt = now,
          w_surfaceTitle = nullish (i_surfaceTitle input) (Option.bind existing w_surfaceTitle)\<rparr>)"

definition replace_views :: "int \<Rightarrow> Lease \<Rightarrow> (PresenceViewInput \<times> PaneTarget) list \<Rightarrow> (jstr \<times> StoredView) list" where
  "replace_views now lease resolved =
     foldl (\<lambda>vs (input, target). AList.update (i_paneId input) (stored_view now lease input target) vs) [] resolved"

definition new_lease :: "int \<Rightarrow> PresenceCaller \<Rightarrow> SubmitPresenceRequest \<Rightarrow> jstr \<Rightarrow> Lease" where
  "new_lease now caller req k = \<lparr>l_rendererLeaseId = k, l_ownerUserId = c_ownerUserId caller,
     l_workspaceId = c_workspaceId caller, l_connectionId = c_connectionId caller, l_windowId = sr_windowId req,
     l_viewRevision = sr_viewRevision req, l_lastKeepaliveAt = now, l_views = [], l_hasReportedNonEmpty = False\<rparr>"

definition accept_submission ::
  "world \<Rightarrow> int \<Rightarrow> PresenceCaller \<Rightarrow> SubmitPresenceRequest \<Rightarrow> jstr \<Rightarrow> Lease \<Rightarrow> PanePresenceRegistry
     \<Rightarrow> SubmitPresenceResult \<times> PanePresenceRegistry" where
  "accept_submission d now caller req k lease st =
     (let tried = map (\<lambda>v. (v, resolveOwnedTarget d st (i_paneId v) caller)) (sr_views req);
          rejected = [i_paneId v. (v, t) \<leftarrow> tried, t = None];
          resolved = [(v, the t). (v, t) \<leftarrow> tried, t \<noteq> None];
          lease' = lease\<lparr>l_views := replace_views now lease resolved, l_viewRevision := sr_viewRevision req,
            l_lastKeepaliveAt := now, l_hasReportedNonEmpty := (l_hasReportedNonEmpty lease \<or> resolved \<noteq> [])\<rparr>
      in (Submitted (l_rendererLeaseId lease) (length resolved) rejected,
          st\<lparr>y_leases := AList.update k lease' (y_leases st),
             y_tombstones := AList.delete (l_rendererLeaseId lease) (y_tombstones st)\<rparr>))"

definition submitPresence ::
  "PresenceOptions \<Rightarrow> world \<Rightarrow> int \<Rightarrow> PresenceCaller \<Rightarrow> SubmitPresenceRequest \<Rightarrow> PanePresenceRegistry
     \<Rightarrow> SubmitPresenceResult \<times> PanePresenceRegistry" where
  "submitPresence opts d now caller req st0 =
     (let st = sweepExpired opts now st0;
          named = (if truthy_str (sr_rendererLeaseId req)
                   then map_of (y_leases st) (default_to (sr_rendererLeaseId req) []) else None)
      in case named of
           Some lease \<Rightarrow>
             if \<not> owns_lease caller lease then (WrongWindow, st)
             else if sr_windowId req \<noteq> l_windowId lease then (WrongWindow, st)
             else if sr_viewRevision req \<le> l_viewRevision lease then (StaleRevision (l_viewRevision lease), st)
             else if sr_views req = [] \<and> l_hasReportedNonEmpty lease then (EmptySnapshotIgnored (l_rendererLeaseId lease), st)
             else accept_submission d now caller req (default_to (sr_rendererLeaseId req) []) lease st
         | None \<Rightarrow>
             let k = po_createLeaseId opts (y_leaseIds st);
                 lease = new_lease now caller req k;
                 st1 = st\<lparr>y_leaseIds := Suc (y_leaseIds st), y_leases := AList.update k lease (y_leases st)\<rparr>
             in accept_submission d now caller req k lease st1)"

section \<open>Removing and renewing\<close>

fun delete_views :: "jstr list \<Rightarrow> (jstr \<times> StoredView) list \<Rightarrow> nat \<times> (jstr \<times> StoredView) list" where
  "delete_views [] vs = (0, vs)"
| "delete_views (p # ps) vs = (if p \<in> fst ` set vs
     then (case delete_views ps (AList.delete p vs) of (n, vs') \<Rightarrow> (Suc n, vs'))
     else delete_views ps vs)"

definition removePresence ::
  "PresenceOptions \<Rightarrow> int \<Rightarrow> PresenceCaller \<Rightarrow> jstr \<Rightarrow> jstr list option \<Rightarrow> PanePresenceRegistry
     \<Rightarrow> RemovePresenceResult \<times> PanePresenceRegistry" where
  "removePresence opts now caller k paneIds st0 =
     (let st = sweepExpired opts now st0
      in case map_of (y_leases st) k of
           None \<Rightarrow> (RemoveNotFound, st)
         | Some lease \<Rightarrow>
             if \<not> owns_lease caller lease then (RemoveWrongWindow, st)
             else case paneIds of
                    None \<Rightarrow> (RemovedViews (length (l_views lease)),
                             st\<lparr>y_leases := AList.delete (l_rendererLeaseId lease) (y_leases st)\<rparr>)
                  | Some ps \<Rightarrow> (case delete_views ps (l_views lease) of (n, vs) \<Rightarrow>
                      (RemovedViews n, st\<lparr>y_leases := AList.update k (lease\<lparr>l_views := vs\<rparr>) (y_leases st)\<rparr>)))"

definition keepalive ::
  "PresenceOptions \<Rightarrow> int \<Rightarrow> PresenceCaller \<Rightarrow> jstr \<Rightarrow> PanePresenceRegistry
     \<Rightarrow> PresenceKeepaliveResult \<times> PanePresenceRegistry" where
  "keepalive opts now caller k st0 =
     (let st = sweepExpired opts now st0
      in case map_of (y_leases st) k of
           None \<Rightarrow> (KeepaliveNotFound, st)
         | Some lease \<Rightarrow>
             if \<not> owns_lease caller lease then (KeepaliveNotFound, st)
             else (Renewed (length (l_views lease)),
                   st\<lparr>y_leases := AList.update k (lease\<lparr>l_lastKeepaliveAt := now,
                        l_views := map (\<lambda>(p, v). (p, v\<lparr>w_lastSeenAt := now\<rparr>)) (l_views lease)\<rparr>) (y_leases st)\<rparr>))"

section \<open>Reading\<close>

record PaneViewV1 =
  v1_windowId :: jstr
  v1_uiPaneId :: jstr
  v1_treeId :: "jstr option"
  v1_visible :: bool
  v1_openedAtClient :: "int option"
  v1_registeredAt :: int
  v1_lastSeenAt :: int

definition toPaneViewV1 :: "StoredView \<Rightarrow> PaneViewV1" where
  "toPaneViewV1 v = \<lparr>v1_windowId = w_windowId v, v1_uiPaneId = w_uiPaneId v, v1_treeId = w_treeId v,
     v1_visible = w_visible v, v1_openedAtClient = w_openedAtClient v, v1_registeredAt = w_registeredAt v,
     v1_lastSeenAt = w_lastSeenAt v\<rparr>"

text \<open>A presence section is its list of views: coverage is \<open>reported\<close> when there is one, else \<open>unknown\<close>.\<close>

definition views_of :: "PanePresenceRegistry \<Rightarrow> jstr \<Rightarrow> PaneViewV1 list" where
  "views_of st paneId = List.map_filter (\<lambda>(_, l). map_option toPaneViewV1 (map_of (l_views l) paneId)) (y_leases st)"

definition getPresence ::
  "PresenceOptions \<Rightarrow> int \<Rightarrow> PaneTarget \<Rightarrow> PanePresenceRegistry \<Rightarrow> PaneViewV1 list option \<times> PanePresenceRegistry" where
  \<comment> \<open>\<open>None\<close>: encoding the target throws\<close>
  "getPresence opts now target st0 = (let st = sweepExpired opts now st0
     in (map_option (views_of st) (encodePaneId target), st))"

definition listOpenTargetsForWorkspace ::
  "PresenceOptions \<Rightarrow> int \<Rightarrow> jstr \<Rightarrow> PanePresenceRegistry \<Rightarrow> PaneTarget list \<times> PanePresenceRegistry" where
  "listOpenTargetsForWorkspace opts now w st0 =
     (let st = sweepExpired opts now st0;
          views = concat (map (\<lambda>(_, l). if l_workspaceId l = w then map snd (l_views l) else []) (y_leases st))
      in (map snd (foldl (\<lambda>m v. AList.update (w_paneId v) (w_target v) m) [] views), st))"

definition getPresenceForTargets ::
  "PresenceOptions \<Rightarrow> int \<Rightarrow> PaneTarget list \<Rightarrow> PanePresenceRegistry
     \<Rightarrow> (jstr \<times> PaneViewV1 list) list option \<times> PanePresenceRegistry" where
  "getPresenceForTargets opts now targets st0 =
     (let st = sweepExpired opts now st0
      in (map_option (\<lambda>ids. map (\<lambda>p. (p, concat (map (\<lambda>(_, l). [toPaneViewV1 v. (q, v) \<leftarrow> l_views l, q = p]) (y_leases st)))) (first_seen [] ids))
            (those (map encodePaneId targets)), st))"

record surface_info =
  si_kind :: jstr
  si_workspaceId :: jstr
  si_treeId :: "jstr option"
  si_rendererTitle :: "jstr option"

fun first_view :: "jstr \<Rightarrow> (jstr \<times> Lease) list \<Rightarrow> (Lease \<times> StoredView) option" where
  "first_view p [] = None"
| "first_view p ((k, l) # ls) = (case map_of (l_views l) p of Some v \<Rightarrow> Some (l, v) | None \<Rightarrow> first_view p ls)"

definition getSurfaceRegistrationInfo ::
  "PresenceOptions \<Rightarrow> int \<Rightarrow> jstr \<Rightarrow> PanePresenceRegistry \<Rightarrow> surface_info option \<times> PanePresenceRegistry" where
  "getSurfaceRegistrationInfo opts now r st0 =
     (let st = sweepExpired opts now st0
      in (case map_of (y_registrations st) r of None \<Rightarrow> None
          | Some reg \<Rightarrow> (case first_view (js ''surface:'' @ r) (y_leases st) of None \<Rightarrow> None
              | Some (l, v) \<Rightarrow> Some \<lparr>si_kind = sf_kind reg, si_workspaceId = l_workspaceId l,
                  si_treeId = w_treeId v, si_rendererTitle = w_surfaceTitle v\<rparr>), st))"

definition countOpenViews :: "PresenceOptions \<Rightarrow> int \<Rightarrow> PaneTarget \<Rightarrow> PanePresenceRegistry \<Rightarrow> nat option" where
  "countOpenViews opts now target st = map_option length (fst (getPresence opts now target st))"

definition hasTombstone :: "PresenceOptions \<Rightarrow> int \<Rightarrow> jstr \<Rightarrow> PanePresenceRegistry \<Rightarrow> bool" where
  "hasTombstone opts now k st \<longleftrightarrow> k \<in> fst ` set (y_tombstones (sweepExpired opts now st))"

definition hasLiveLease :: "PresenceOptions \<Rightarrow> int \<Rightarrow> jstr \<Rightarrow> PanePresenceRegistry \<Rightarrow> bool" where
  "hasLiveLease opts now k st \<longleftrightarrow> k \<in> fst ` set (y_leases (sweepExpired opts now st))"

definition hasRegistration :: "PresenceOptions \<Rightarrow> int \<Rightarrow> jstr \<Rightarrow> PanePresenceRegistry \<Rightarrow> bool" where
  "hasRegistration opts now r st \<longleftrightarrow> r \<in> fst ` set (y_registrations (sweepExpired opts now st))"

definition LOCAL_AGENT_OWNER_ID :: jstr where
  "LOCAL_AGENT_OWNER_ID = js ''local-user''"

definition resolvePresenceOwnerUserId :: "bool \<Rightarrow> jstr option \<Rightarrow> jstr" where
  \<comment> \<open>\<open>cloud\<close>: \<open>process.env.MICHI_CLOUD === '1'\<close>\<close>
  "resolvePresenceOwnerUserId cloud reqUserId = (if cloud then default_to reqUserId [] else LOCAL_AGENT_OWNER_ID)"

section \<open>The invariant\<close>

definition reg_of_lease :: "Lease \<Rightarrow> SurfaceRegistration \<Rightarrow> bool" where
  "reg_of_lease l reg \<longleftrightarrow> sf_ownerUserId reg = l_ownerUserId l \<and> sf_workspaceId reg = l_workspaceId l
     \<and> sf_connectionId reg = l_connectionId l"

definition view_ok :: "(jstr \<Rightarrow> SurfaceRegistration option) \<Rightarrow> Lease \<Rightarrow> jstr \<Rightarrow> StoredView \<Rightarrow> bool" where
  "view_ok regs l p v \<longleftrightarrow> w_paneId v = p \<and> decodePaneId (JStr p) = Inr (w_target v) \<and>
     (case surface_id (w_target v) of None \<Rightarrow> True
      | Some r \<Rightarrow> (case regs r of None \<Rightarrow> False | Some reg \<Rightarrow> reg_of_lease l reg))"

definition lease_ok :: "(jstr \<Rightarrow> SurfaceRegistration option) \<Rightarrow> jstr \<Rightarrow> Lease \<Rightarrow> bool" where
  "lease_ok regs k l \<longleftrightarrow> l_rendererLeaseId l = k \<and> distinct (map fst (l_views l)) \<and>
     list_all (\<lambda>(p, v). view_ok regs l p v) (l_views l)"

definition presence_ok :: "PresenceOptions \<Rightarrow> PanePresenceRegistry \<Rightarrow> bool" where
  "presence_ok opts st \<longleftrightarrow> distinct (map fst (y_leases st)) \<and> distinct (map fst (y_registrations st))
     \<and> list_all (\<lambda>(k, l). k \<in> po_createLeaseId opts ` {..<y_leaseIds st} \<and> lease_ok (map_of (y_registrations st)) k l) (y_leases st)
     \<and> list_all (\<lambda>(r, reg). r \<in> po_randomUUID opts ` {..<y_uuids st}) (y_registrations st)
     \<and> (\<forall>c. countRegistrationsForScope st c \<le> MAX_SURFACE_REGISTRATIONS_PER_SCOPE)"

lemma view_ok_update [simp]:
  "view_ok regs (l\<lparr>l_views := vs\<rparr>) = view_ok regs l" "view_ok regs (l\<lparr>l_viewRevision := n\<rparr>) = view_ok regs l"
  "view_ok regs (l\<lparr>l_lastKeepaliveAt := t\<rparr>) = view_ok regs l" "view_ok regs (l\<lparr>l_hasReportedNonEmpty := b\<rparr>) = view_ok regs l"
  by (simp_all add: view_ok_def reg_of_lease_def fun_eq_iff split: option.split)

lemma map_of_filter_snd:
  "distinct (map fst xs) \<Longrightarrow> map_of (filter (\<lambda>(k, v). P k v) xs) k =
     (case map_of xs k of None \<Rightarrow> None | Some v \<Rightarrow> if P k v then Some v else None)"
proof (induction xs)
  case (Cons kv xs)
  obtain k' v where kv: "kv = (k', v)" by (cases kv)
  from Cons.prems have "map_of xs k' = None" by (auto simp: kv map_of_eq_None_iff)
  with Cons show ?case by (auto simp: kv split: option.splits)
qed simp

lemma length_filter_imp: "(\<And>x. P x \<Longrightarrow> Q x) \<Longrightarrow> length (filter P xs) \<le> length (filter Q xs)"
  by (induction xs) (auto simp: le_SucI)

lemma referenced_iff: "referenced ls r \<longleftrightarrow> (\<exists>k l p v. (k, l) \<in> set ls \<and> (p, v) \<in> set (l_views l) \<and> surface_id (w_target v) = Some r)"
  by (fastforce simp: referenced_def list_ex_iff)

lemma lease_okD: "presence_ok opts st \<Longrightarrow> (k, l) \<in> set (y_leases st) \<Longrightarrow> lease_ok (map_of (y_registrations st)) k l"
  by (auto simp: presence_ok_def list_all_iff)

subsection \<open>Sweeping\<close>

lemma sweep_leases: "y_leases (sweepExpired opts now st) = filter (\<lambda>(_, l). \<not> lease_expired opts now l) (y_leases st)"
  by (simp add: sweepExpired_def sweepUnclaimedRegistrations_def Let_def)

lemma sweep_counters [simp]: "y_leaseIds (sweepExpired opts now st) = y_leaseIds st" "y_uuids (sweepExpired opts now st) = y_uuids st"
  by (simp_all add: sweepExpired_def sweepUnclaimedRegistrations_def Let_def)

lemma sweep_registrations:
  "y_registrations (sweepExpired opts now st) = filter (\<lambda>(r, reg).
     referenced (y_leases (sweepExpired opts now st)) r \<or> \<not> po_ttlMs opts < now - sf_allocatedAt reg) (y_registrations st)"
  by (simp add: sweepExpired_def sweepUnclaimedRegistrations_def Let_def)

lemma lease_of_sweep:
  "distinct (map fst (y_leases st)) \<Longrightarrow> map_of (y_leases (sweepExpired opts now st)) k =
     (case map_of (y_leases st) k of None \<Rightarrow> None | Some l \<Rightarrow> if lease_expired opts now l then None else Some l)"
  by (auto simp: sweep_leases map_of_filter_snd [where P = "\<lambda>_ l. \<not> lease_expired opts now l"] split: option.splits)

lemma distinct_filter_fst: "distinct (map fst xs) \<Longrightarrow> distinct (map fst (filter P xs))"
  by (induction xs) auto

lemma sweep_ok:
  assumes "presence_ok opts st"
  shows "presence_ok opts (sweepExpired opts now st)"
proof -
  let ?st = "sweepExpired opts now st"
  have d: "distinct (map fst (y_leases ?st))" "distinct (map fst (y_registrations ?st))"
    unfolding sweep_leases sweep_registrations using assms by (simp_all add: presence_ok_def distinct_filter_fst)
  have reg: "map_of (y_registrations ?st) r = map_of (y_registrations st) r" if "referenced (y_leases ?st) r" for r
    using assms that by (subst sweep_registrations) (auto simp: map_of_filter_snd presence_ok_def split: option.splits)
  have lease: "k \<in> po_createLeaseId opts ` {..<y_leaseIds st} \<and> lease_ok (map_of (y_registrations ?st)) k l" if kl: "(k, l) \<in> set (y_leases ?st)" for k l
  proof -
    have old: "(k, l) \<in> set (y_leases st)" using kl by (auto simp: sweep_leases)
    have "view_ok (map_of (y_registrations ?st)) l p v" if pv: "(p, v) \<in> set (l_views l)" for p v
    proof -
      have "view_ok (map_of (y_registrations st)) l p v"
        using lease_okD [OF assms old] pv by (auto simp: lease_ok_def list_all_iff)
      moreover have "map_of (y_registrations ?st) r = map_of (y_registrations st) r" if "surface_id (w_target v) = Some r" for r
        using reg that kl pv unfolding referenced_iff by blast
      ultimately show ?thesis by (cases "surface_id (w_target v)") (simp_all add: view_ok_def)
    qed
    then show ?thesis using lease_okD [OF assms old] assms old by (auto simp: lease_ok_def list_all_iff presence_ok_def)
  qed
  have "countRegistrationsForScope ?st c \<le> countRegistrationsForScope st c" for c
    unfolding countRegistrationsForScope_def sweep_registrations filter_filter by (rule length_filter_imp) simp
  then have count: "\<forall>c. countRegistrationsForScope ?st c \<le> MAX_SURFACE_REGISTRATIONS_PER_SCOPE"
    using assms unfolding presence_ok_def by (meson order_trans)
  have "list_all (\<lambda>(r, reg). r \<in> po_randomUUID opts ` {..<y_uuids st}) (y_registrations ?st)"
    unfolding sweep_registrations using assms by (auto simp: presence_ok_def list_all_iff)
  with d lease count show ?thesis by (auto simp: presence_ok_def list_all_iff)
qed

subsection \<open>Putting a lease\<close>

lemma put_lease_ok:
  assumes "presence_ok opts st" and "k \<in> po_createLeaseId opts ` {..<n}" and "y_leaseIds st \<le> n"
    and "lease_ok (map_of (y_registrations st)) k l"
  shows "presence_ok opts (st\<lparr>y_leaseIds := n, y_leases := AList.update k l (y_leases st)\<rparr>)"
proof -
  have more: "x \<in> po_createLeaseId opts ` {..<n}" if "x \<in> po_createLeaseId opts ` {..<y_leaseIds st}" for x
    using that assms(3) by auto
  have "a \<in> po_createLeaseId opts ` {..<n} \<and> lease_ok (map_of (y_registrations st)) a b"
    if "(a, b) \<in> set (AList.update k l (y_leases st))" for a b
  proof -
    from that set_update_subset [of k l "y_leases st"] have "(a, b) = (k, l) \<or> (a, b) \<in> set (y_leases st)" by blast
    moreover have "a \<in> po_createLeaseId opts ` {..<y_leaseIds st} \<and> lease_ok (map_of (y_registrations st)) a b" if "(a, b) \<in> set (y_leases st)"
      using that assms(1) by (auto simp: presence_ok_def list_all_iff)
    ultimately show ?thesis using assms(2,4) more by blast
  qed
  then show ?thesis using assms(1)
    by (auto simp: presence_ok_def list_all_iff countRegistrationsForScope_def distinct_update)
qed

lemma set_lease_ok:
  assumes "presence_ok opts st" and "k \<in> po_createLeaseId opts ` {..<y_leaseIds st}" and "lease_ok (map_of (y_registrations st)) k l"
  shows "presence_ok opts (st\<lparr>y_leases := AList.update k l (y_leases st)\<rparr>)"
proof -
  have "st\<lparr>y_leaseIds := y_leaseIds st, y_leases := ls\<rparr> = st\<lparr>y_leases := ls\<rparr>" for ls by (cases st) simp
  then show ?thesis using put_lease_ok [OF assms(1,2) order_refl assms(3)] by simp
qed

lemma presence_ok_frame:
  "presence_ok opts (st\<lparr>y_tombstones := ts\<rparr>) = presence_ok opts st"
  by (simp add: presence_ok_def countRegistrationsForScope_def)

lemma resolve_view_ok:
  assumes "resolveOwnedTarget d st p caller = Some t" and "owns_lease caller l" and "w_paneId v = p" and "w_target v = t"
  shows "view_ok (map_of (y_registrations st)) l p v"
  unfolding view_ok_def assms(3,4)
  by (cases t) (use assms(1,2) in \<open>auto simp: resolveOwnedTarget_def reg_of_lease_def same_scope_def owns_lease_def
      split: sum.splits PaneTarget.splits option.splits if_splits\<close>)

lemma update_fresh: "k \<notin> fst ` set xs \<Longrightarrow> AList.update k v xs = xs @ [(k, v)]"
  by (induction xs) auto

lemma keys_foldl_update:
  "map fst (foldl (\<lambda>m x. AList.update (key x) (val x) m) acc xs) = first_seen (map fst acc) (map key xs)"
  by (induction xs arbitrary: acc) (auto simp: update_keys)


lemma mem_foldl_update:
  "(k, v) \<in> set (foldl (\<lambda>m x. AList.update (key x) (val x) m) acc xs) \<Longrightarrow>
     (k, v) \<in> set acc \<or> (\<exists>x \<in> set xs. k = key x \<and> v = val x)"
proof (induction xs arbitrary: acc)
  case (Cons x xs)
  from Cons.IH [of "AList.update (key x) (val x) acc"] Cons.prems set_update_subset [of "key x" "val x" acc]
  show ?case by auto
qed simp

subsection \<open>Submitting\<close>

lemma replace_views_alt:
  "replace_views now l rs = foldl (\<lambda>vs x. AList.update (i_paneId (fst x)) (stored_view now l (fst x) (snd x)) vs) [] rs"
  by (simp add: replace_views_def case_prod_beta')

lemma replace_views_keys: "map fst (replace_views now l rs) = first_seen [] (map (i_paneId \<circ> fst) rs)"
  by (simp add: replace_views_alt keys_foldl_update o_def)

definition resolved_views :: "world \<Rightarrow> PanePresenceRegistry \<Rightarrow> PresenceCaller \<Rightarrow> PresenceViewInput list \<Rightarrow> (PresenceViewInput \<times> PaneTarget) list" where
  "resolved_views d st caller vs = List.map_filter (\<lambda>v. map_option (Pair v) (resolveOwnedTarget d st (i_paneId v) caller)) vs"

lemma accept_alt:
  "accept_submission d now caller req k lease st =
     (let resolved = resolved_views d st caller (sr_views req);
          lease' = lease\<lparr>l_views := replace_views now lease resolved, l_viewRevision := sr_viewRevision req,
            l_lastKeepaliveAt := now, l_hasReportedNonEmpty := (l_hasReportedNonEmpty lease \<or> resolved \<noteq> [])\<rparr>
      in (Submitted (l_rendererLeaseId lease) (length resolved)
            (filter (\<lambda>p. resolveOwnedTarget d st p caller = None) (map i_paneId (sr_views req))),
          st\<lparr>y_leases := AList.update k lease' (y_leases st),
             y_tombstones := AList.delete (l_rendererLeaseId lease) (y_tombstones st)\<rparr>))"
proof -
  have r: "[(v, the t). (v, t) \<leftarrow> map (\<lambda>v. (v, resolveOwnedTarget d st (i_paneId v) caller)) vs, t \<noteq> None] = resolved_views d st caller vs" for vs
    by (induction vs) (auto simp: resolved_views_def List.map_filter_def)
  have j: "[i_paneId v. (v, t) \<leftarrow> map (\<lambda>v. (v, resolveOwnedTarget d st (i_paneId v) caller)) vs, t = None] =
    filter (\<lambda>p. resolveOwnedTarget d st p caller = None) (map i_paneId vs)" for vs
    by (induction vs) auto
  show ?thesis unfolding accept_submission_def Let_def r j by simp
qed

lemma accept_lease_ok:
  assumes "owns_lease caller l" and "l_rendererLeaseId l = k"
  shows "lease_ok (map_of (y_registrations st)) k (l\<lparr>l_views := replace_views now l (resolved_views d st caller vs),
    l_viewRevision := n, l_lastKeepaliveAt := now, l_hasReportedNonEmpty := b\<rparr>)"
proof -
  have "view_ok (map_of (y_registrations st)) l p v" if pv: "(p, v) \<in> set (replace_views now l (resolved_views d st caller vs))" for p v
  proof -
    from mem_foldl_update [OF pv [unfolded replace_views_alt]] obtain x where x: "x \<in> set (resolved_views d st caller vs)"
      "p = i_paneId (fst x)" "v = stored_view now l (fst x) (snd x)" by auto
    then have "resolveOwnedTarget d st p caller = Some (snd x)" by (auto simp: resolved_views_def List.map_filter_def)
    then show ?thesis using x assms(1) by (intro resolve_view_ok) (simp_all add: stored_view_def Let_def)
  qed
  moreover have "distinct (map fst (replace_views now l (resolved_views d st caller vs)))"
    by (simp add: replace_views_keys distinct_first_seen)
  ultimately show ?thesis using assms(2)
    by (auto simp: lease_ok_def list_all_iff)
qed

lemma accept_ok:
  assumes "presence_ok opts st" and "owns_lease caller l" and "l_rendererLeaseId l = k"
    and "k \<in> po_createLeaseId opts ` {..<y_leaseIds st}"
  shows "presence_ok opts (snd (accept_submission d now caller req k l st))"
  using set_lease_ok [OF assms(1,4) accept_lease_ok [OF assms(2,3)]]
  by (simp add: accept_alt Let_def presence_ok_frame)


lemma submit_ok:
  assumes "presence_ok opts st"
  shows "presence_ok opts (snd (submitPresence opts d now caller req st))"
proof -
  let ?st = "sweepExpired opts now st"
  let ?named = "if truthy_str (sr_rendererLeaseId req) then map_of (y_leases ?st) (default_to (sr_rendererLeaseId req) []) else None"
  have ok: "presence_ok opts ?st" by (rule sweep_ok [OF assms])
  show ?thesis
  proof (cases ?named)
    case None
    let ?k = "po_createLeaseId opts (y_leaseIds ?st)"
    let ?l = "new_lease now caller req ?k"
    let ?st1 = "?st\<lparr>y_leaseIds := Suc (y_leaseIds ?st), y_leases := AList.update ?k ?l (y_leases ?st)\<rparr>"
    have "lease_ok (map_of (y_registrations ?st)) ?k ?l" by (simp add: lease_ok_def new_lease_def)
    then have "presence_ok opts ?st1" by (intro put_lease_ok [OF ok]) auto
    moreover have "owns_lease caller ?l" "l_rendererLeaseId ?l = ?k" by (simp_all add: owns_lease_def new_lease_def)
    ultimately show ?thesis using None
      by (simp only: submitPresence_def Let_def option.case) (rule accept_ok; auto)
  next
    case (Some l)
    let ?k = "default_to (sr_rendererLeaseId req) []"
    have mem: "(?k, l) \<in> set (y_leases ?st)" using Some by (auto split: if_splits dest: map_of_SomeD)
    have "l_rendererLeaseId l = ?k" "?k \<in> po_createLeaseId opts ` {..<y_leaseIds ?st}"
      using lease_okD [OF ok mem] ok mem by (auto simp: lease_ok_def presence_ok_def list_all_iff)
    then show ?thesis using Some ok accept_ok [OF ok, of caller l ?k d now req]
      by (auto simp only: submitPresence_def Let_def option.case snd_conv split: if_split)
  qed
qed

subsection \<open>The other operations\<close>

lemma delete_views_subset: "delete_views ps vs = (n, vs') \<Longrightarrow> set vs' \<subseteq> set vs \<and> (distinct (map fst vs) \<longrightarrow> distinct (map fst vs'))"
proof (induction ps vs arbitrary: n vs' rule: delete_views.induct)
  case (2 p ps vs)
  show ?case
  proof (cases "p \<in> fst ` set vs")
    case True
    then obtain m where "delete_views ps (AList.delete p vs) = (m, vs')"
      using "2.prems" by (auto split: prod.splits)
    from "2.IH"(1) [OF True this] show ?thesis by (auto simp: AList.delete_eq distinct_filter_fst)
  next
    case False
    with "2.prems" "2.IH"(2) [OF False, of n vs'] show ?thesis by simp
  qed
qed simp

lemma lease_ok_subset:
  "lease_ok regs k l \<Longrightarrow> set vs \<subseteq> set (l_views l) \<Longrightarrow> distinct (map fst vs) \<Longrightarrow> lease_ok regs k (l\<lparr>l_views := vs\<rparr>)"
  by (auto simp: lease_ok_def list_all_iff)

lemma delete_lease_ok:
  "presence_ok opts st \<Longrightarrow> presence_ok opts (st\<lparr>y_leases := AList.delete k (y_leases st)\<rparr>)"
  by (auto simp: presence_ok_def list_all_iff AList.delete_eq distinct_filter_fst countRegistrationsForScope_def)

lemma removePresence_ok:
  assumes "presence_ok opts st"
  shows "presence_ok opts (snd (removePresence opts now caller k ps st))"
proof -
  let ?st = "sweepExpired opts now st"
  have ok: "presence_ok opts ?st" by (rule sweep_ok [OF assms])
  show ?thesis
  proof (cases "map_of (y_leases ?st) k")
    case (Some l)
    then have mem: "(k, l) \<in> set (y_leases ?st)" by (rule map_of_SomeD)
    have k: "k \<in> po_createLeaseId opts ` {..<y_leaseIds ?st}" using ok mem by (auto simp: presence_ok_def list_all_iff)
    have l: "lease_ok (map_of (y_registrations ?st)) k l" by (rule lease_okD [OF ok mem])
    have "presence_ok opts (?st\<lparr>y_leases := AList.update k (l\<lparr>l_views := vs\<rparr>) (y_leases ?st)\<rparr>)"
      if "delete_views qs (l_views l) = (n, vs)" for qs n vs
      using set_lease_ok [OF ok k lease_ok_subset [OF l]] delete_views_subset [OF that] l by (simp add: lease_ok_def)
    then show ?thesis using Some ok delete_lease_ok [OF ok]
      by (auto simp: removePresence_def Let_def split: option.split prod.split)
  qed (simp add: removePresence_def ok)
qed

lemma keepalive_ok:
  assumes "presence_ok opts st"
  shows "presence_ok opts (snd (keepalive opts now caller k st))"
proof -
  let ?st = "sweepExpired opts now st"
  have ok: "presence_ok opts ?st" by (rule sweep_ok [OF assms])
  show ?thesis
  proof (cases "map_of (y_leases ?st) k")
    case (Some l)
    let ?l = "l\<lparr>l_lastKeepaliveAt := now, l_views := map (\<lambda>(p, v). (p, v\<lparr>w_lastSeenAt := now\<rparr>)) (l_views l)\<rparr>"
    have mem: "(k, l) \<in> set (y_leases ?st)" using Some by (rule map_of_SomeD)
    have k: "k \<in> po_createLeaseId opts ` {..<y_leaseIds ?st}" using ok mem by (auto simp: presence_ok_def list_all_iff)
    have keys: "map fst (map (\<lambda>(p, v). (p, v\<lparr>w_lastSeenAt := now\<rparr>)) vs) = map fst vs" for vs :: "(jstr \<times> StoredView) list"
      by (induction vs) auto
    have "lease_ok (map_of (y_registrations ?st)) k ?l"
      using lease_okD [OF ok mem] by (auto simp: lease_ok_def list_all_iff keys view_ok_def simp del: map_map)
    from set_lease_ok [OF ok k this] Some ok show ?thesis by (simp add: keepalive_def Let_def)
  qed (simp add: keepalive_def ok)
qed

lemma add_registration_ok:
  assumes ok: "presence_ok opts st" and "inj (po_randomUUID opts)" and reg: "same_scope reg caller"
    and cap: "countRegistrationsForScope st caller < MAX_SURFACE_REGISTRATIONS_PER_SCOPE"
  shows "presence_ok opts (st\<lparr>y_uuids := Suc (y_uuids st),
    y_registrations := AList.update (po_randomUUID opts (y_uuids st)) reg (y_registrations st)\<rparr>)"
proof -
  let ?r = "po_randomUUID opts (y_uuids st)"
  have "?r \<notin> po_randomUUID opts ` {..<y_uuids st}" using assms(2) by (auto dest: injD)
  then have fresh: "?r \<notin> fst ` set (y_registrations st)" using ok by (auto simp: presence_ok_def list_all_iff)
  then have regs: "AList.update ?r reg (y_registrations st) = y_registrations st @ [(?r, reg)]" by (rule update_fresh)
  have "view_ok (map_of (y_registrations st @ [(?r, reg)])) l p v" if "view_ok (map_of (y_registrations st)) l p v" for l p v
    using that by (auto simp: view_ok_def map_add_def split: option.splits)
  then have leases: "list_all (\<lambda>(k, l). k \<in> po_createLeaseId opts ` {..<y_leaseIds st} \<and>
      lease_ok (map_of (y_registrations st @ [(?r, reg)])) k l) (y_leases st)"
    using ok by (fastforce simp: presence_ok_def list_all_iff lease_ok_def simp del: map_of_append)
  have count: "length (filter (\<lambda>(_, reg). same_scope reg c) (y_registrations st @ [(?r, reg)])) \<le> MAX_SURFACE_REGISTRATIONS_PER_SCOPE" for c
  proof (cases "same_scope reg c")
    case True
    with reg have "c = caller" by (cases c; cases caller) (simp add: same_scope_def)
    with cap True show ?thesis by (simp add: countRegistrationsForScope_def)
  next
    case f: False
    with ok show ?thesis by (simp add: presence_ok_def countRegistrationsForScope_def)
  qed
  have "list_all (\<lambda>(r, reg). r \<in> po_randomUUID opts ` {..<Suc (y_uuids st)}) (y_registrations st @ [(?r, reg)])"
    using ok by (auto simp: presence_ok_def list_all_iff lessThan_Suc)
  with leases count ok fresh show ?thesis
    unfolding presence_ok_def countRegistrationsForScope_def regs by (simp del: map_of_append filter_append)
qed

lemma allocate_ok:
  assumes "presence_ok opts st" and "inj (po_randomUUID opts)"
  shows "presence_ok opts (snd (allocateSurfaceRegistration opts now caller kind st))"
  using sweep_ok [OF assms(1), of now] add_registration_ok [OF sweep_ok [OF assms(1)] assms(2)]
  by (simp add: allocateSurfaceRegistration_def Let_def same_scope_def not_le)

section \<open>The registry as a machine\<close>

datatype presence_op =
    Allocate int PresenceCaller jstr
  | Submit world int PresenceCaller SubmitPresenceRequest
  | Remove int PresenceCaller jstr "jstr list option"
  | Keepalive int PresenceCaller jstr
  | Read int  \<comment> \<open>any of the reading methods: they only sweep\<close>

fun presence_step :: "PresenceOptions \<Rightarrow> PanePresenceRegistry \<Rightarrow> presence_op \<Rightarrow> PanePresenceRegistry" where
  "presence_step opts st (Allocate now caller kind) = snd (allocateSurfaceRegistration opts now caller kind st)"
| "presence_step opts st (Submit d now caller req) = snd (submitPresence opts d now caller req st)"
| "presence_step opts st (Remove now caller k ps) = snd (removePresence opts now caller k ps st)"
| "presence_step opts st (Keepalive now caller k) = snd (keepalive opts now caller k st)"
| "presence_step opts st (Read now) = sweepExpired opts now st"

lemma presence_step_ok:
  "presence_ok opts st \<Longrightarrow> inj (po_randomUUID opts) \<Longrightarrow> presence_ok opts (presence_step opts st op)"
  by (cases op) (simp_all add: allocate_ok submit_ok removePresence_ok keepalive_ok sweep_ok)

lemma new_registry_ok: "presence_ok opts new_registry"
  by (simp add: presence_ok_def new_registry_def countRegistrationsForScope_def)

interpretation presence_machine: invariant_machine "presence_step opts" "\<lambda>_. inj (po_randomUUID opts)" "presence_ok opts" for opts
  by unfold_locales (rule presence_step_ok)

lemma presence_reachable_ok:
  "inj (po_randomUUID opts) \<Longrightarrow> presence_ok opts (foldl (presence_step opts) new_registry ops)"
  using presence_machine.inv_run [OF new_registry_ok, of opts ops] by (simp add: list_all_iff)

fun op_time :: "presence_op \<Rightarrow> int" where
  "op_time (Allocate now caller kind) = now"
| "op_time (Submit d now caller req) = now"
| "op_time (Remove now caller k ps) = now"
| "op_time (Keepalive now caller k) = now"
| "op_time (Read now) = now"

fun foreign :: "Lease \<Rightarrow> presence_op \<Rightarrow> bool" where
  "foreign l (Allocate now caller kind) = True"
| "foreign l (Submit d now caller req) = (\<not> owns_lease caller l)"
| "foreign l (Remove now caller k ps) = (\<not> owns_lease caller l)"
| "foreign l (Keepalive now caller k) = (\<not> owns_lease caller l)"
| "foreign l (Read now) = True"

lemma accept_other_lease:
  "k \<noteq> k' \<Longrightarrow> map_of (y_leases (snd (accept_submission d now caller req k' l st))) k = map_of (y_leases st) k"
  by (simp add: accept_alt Let_def update_conv')

lemma submit_other_lease:
  assumes ok: "presence_ok opts st" and inj: "inj (po_createLeaseId opts)" and "map_of (y_leases (sweepExpired opts now st)) k = Some l"
    and "\<not> owns_lease caller l"
  shows "map_of (y_leases (snd (submitPresence opts d now caller req st))) k = Some l"
proof -
  let ?st = "sweepExpired opts now st"
  have "k \<in> po_createLeaseId opts ` {..<y_leaseIds ?st}"
    using sweep_ok [OF ok, of now] map_of_SomeD [OF assms(3)] by (auto simp: presence_ok_def list_all_iff)
  then have neq: "k \<noteq> po_createLeaseId opts (y_leaseIds ?st)" using inj by (auto dest: injD)
  then have "map_of (y_leases (snd (accept_submission d now caller req (po_createLeaseId opts (y_leaseIds ?st)) l'
      (?st\<lparr>y_leaseIds := n, y_leases := AList.update (po_createLeaseId opts (y_leaseIds ?st)) l' (y_leases ?st)\<rparr>)))) k = Some l" for n l'
    using assms(3) by (simp add: accept_other_lease update_conv')
  moreover have "map_of (y_leases (snd (accept_submission d now caller req k' l' ?st))) k = Some l"
    if "map_of (y_leases ?st) k' = Some l'" "owns_lease caller l'" for k' l'
    using that assms(3,4) by (subst accept_other_lease) auto
  ultimately show ?thesis using assms(3)
    by (auto simp only: submitPresence_def Let_def snd_conv split: option.splits if_splits)
qed

lemma foreign_step:
  assumes ok: "presence_ok opts st" and inj: "inj (po_createLeaseId opts)" and l: "map_of (y_leases st) k = Some l"
    and "foreign l op" and "\<not> lease_expired opts (op_time op) l"
  shows "map_of (y_leases (presence_step opts st op)) k = Some l"
proof -
  let ?st = "sweepExpired opts (op_time op) st"
  have d: "distinct (map fst (y_leases st))" using ok by (simp add: presence_ok_def)
  have k: "map_of (y_leases ?st) k = Some l" using assms(5) by (simp add: lease_of_sweep [OF d] l)
  show ?thesis
  proof (cases op)
    case (Allocate now caller kind)
    with k show ?thesis by (simp add: allocateSurfaceRegistration_def Let_def)
  next
    case (Submit d now caller req)
    with k assms(4) show ?thesis using submit_other_lease [OF ok inj, of now k l caller d req] by simp
  next
    case (Remove now caller k' ps)
    show ?thesis
    proof (cases "map_of (y_leases ?st) k'")
      case (Some l')
      have "l_rendererLeaseId l' = k'"
        using lease_okD [OF sweep_ok [OF ok] map_of_SomeD [OF Some]] by (simp add: lease_ok_def)
      moreover have "k' \<noteq> k" if "owns_lease caller l'" using that Some k assms(4) Remove by auto
      ultimately show ?thesis using Some k Remove
        by (auto simp: removePresence_def Let_def update_conv' delete_conv' split: option.split prod.split)
    qed (use k Remove in \<open>simp add: removePresence_def\<close>)
  next
    case (Keepalive now caller k')
    show ?thesis
    proof (cases "map_of (y_leases ?st) k'")
      case (Some l')
      have "k' \<noteq> k" if "owns_lease caller l'" using that Some k assms(4) Keepalive by auto
      then show ?thesis using Some k Keepalive by (auto simp: keepalive_def Let_def update_conv')
    qed (use k Keepalive in \<open>simp add: keepalive_def\<close>)
  qed (use k in simp)
qed

interpretation foreign_lease: invariant_machine "presence_step opts"
  "\<lambda>op. foreign l op \<and> op_time op \<le> T \<and> inj (po_createLeaseId opts) \<and> inj (po_randomUUID opts) \<and> \<not> lease_expired opts T l"
  "\<lambda>st. presence_ok opts st \<and> map_of (y_leases st) k = Some l" for opts k l T
proof unfold_locales
  fix st op
  assume st: "presence_ok opts st \<and> map_of (y_leases st) k = Some l"
    and op: "foreign l op \<and> op_time op \<le> T \<and> inj (po_createLeaseId opts) \<and> inj (po_randomUUID opts) \<and> \<not> lease_expired opts T l"
  then have "\<not> lease_expired opts (op_time op) l" by (auto simp: lease_expired_def)
  with st op show "presence_ok opts (presence_step opts st op) \<and> map_of (y_leases (presence_step opts st op)) k = Some l"
    using foreign_step presence_step_ok by blast
qed

subsection \<open>A concrete registry\<close>

definition demo_presence :: PresenceOptions where
  "demo_presence = \<lparr>po_createLeaseId = decimal, po_randomUUID = decimal, po_ttlMs = 60000,
     po_tombstoneRetentionMs = 20000\<rparr>"

definition demo_caller :: "string \<Rightarrow> PresenceCaller" where
  "demo_caller c = \<lparr>c_ownerUserId = js ''u'', c_workspaceId = js ''w'', c_connectionId = js c\<rparr>"

definition demo_world :: world where
  "demo_world = \<lparr>d_nodeWorkspace = \<lambda>n. if n = js ''n1'' then Some (js ''w'') else None,
     d_getWorkspace = \<lambda>w u. if u = js ''u'' then Some w else None, d_runWorkspace = \<lambda>u r. None\<rparr>"

definition demo_request :: "string list \<Rightarrow> SubmitPresenceRequest" where
  "demo_request ps = \<lparr>sr_rendererLeaseId = None, sr_viewRevision = 1, sr_windowId = js ''win'',
     sr_views = map (\<lambda>p. \<lparr>i_paneId = js p, i_windowId = js ''win'', i_uiPaneId = js ''ui'', i_treeId = None, i_visible = True,
       i_openedAtClient = None, i_surfaceTitle = None\<rparr>) ps\<rparr>"

lemma demo_decode: "decodePaneId (JStr (js ''node:n1'')) = Inr (NodeTarget (js ''n1''))"
  using decode_node [of "js ''n1''"] by (simp add: js_def is_ws_def one_segment_def)

lemma demo_inj: "inj (po_createLeaseId demo_presence)" "inj (po_randomUUID demo_presence)"
  by (auto simp: demo_presence_def inj_def)

text \<open>C27: whatever callers do, the registry stays consistent: lease and registration ids are unique, every
  lease is stored under its own id, every view under its pane id with the target that the id decodes
  to, a view of a surface always has a registration, bound to the owner, workspace and connection of
  the lease that shows it, and no scope ever holds more than 32 registrations.\<close>
theorem presence_well_formed:
  assumes "inj (po_randomUUID opts)"
  shows "presence_ok opts (foldl (presence_step opts) new_registry ops)"
  by (rule presence_reachable_ok [OF assms])

theorem presence_well_formed_witness:
  "presence_ok demo_presence (foldl (presence_step demo_presence) new_registry
     [Allocate 1 (demo_caller ''c'') (js ''files''), Submit demo_world 2 (demo_caller ''c'') (demo_request [''surface:0'', ''node:n1'']),
      Keepalive 3 (demo_caller ''d'') (decimal 0), Read 70000])"
  by (rule presence_well_formed [OF demo_inj(2)])

text \<open>C15: scopes are isolated: as long as a lease has not outlived its time to live, no sequence of operations
  by callers of another owner, workspace or connection (submissions, removals, keepalives and
  allocations, also ones that name the lease) changes or removes the lease or its views.\<close>
theorem foreign_callers_cannot_touch_lease:
  assumes "inj (po_createLeaseId opts)" and "inj (po_randomUUID opts)" and "presence_ok opts st"
    and "map_of (y_leases st) k = Some l" and "lease_expired opts T l = False"
    and "list_all (\<lambda>op. foreign l op \<and> op_time op \<le> T) ops"
  shows "map_of (y_leases (foldl (presence_step opts) st ops)) k = Some l"
  using foreign_lease.inv_run [of opts st k l T ops] assms by (auto simp: list_all_iff)

theorem foreign_callers_cannot_touch_lease_witness:
  "map_option (\<lambda>l. map fst (l_views l)) (map_of (y_leases (foldl (presence_step demo_presence) (snd (submitPresence demo_presence demo_world 2 (demo_caller ''c'')
      (demo_request [''node:n1'']) new_registry))
    [Remove 3 (demo_caller ''d'') (decimal 0) None, Submit demo_world 4 (demo_caller ''d'') (demo_request [])])) (decimal 0)) = Some [js ''node:n1'']"
proof -
  let ?st = "snd (submitPresence demo_presence demo_world 2 (demo_caller ''c'') (demo_request [''node:n1'']) new_registry)"
  have "case map_of (y_leases ?st) (decimal 0) of None \<Rightarrow> False
    | Some l \<Rightarrow> map fst (l_views l) = [js ''node:n1''] \<and> \<not> lease_expired demo_presence 10 l \<and> l_connectionId l = js ''c''"
    by (simp add: submitPresence_def sweepExpired_def sweepUnclaimedRegistrations_def new_registry_def demo_request_def
        new_lease_def demo_decode resolveOwnedTarget_def accept_alt resolved_views_def List.map_filter_def replace_views_def
        demo_presence_def demo_caller_def demo_world_def lease_expired_def Let_def)
  then obtain l where l: "map_of (y_leases ?st) (decimal 0) = Some l" "map fst (l_views l) = [js ''node:n1'']"
    "\<not> lease_expired demo_presence 10 l" "l_connectionId l = js ''c''" by (auto split: option.splits)
  have ok: "presence_ok demo_presence ?st" by (rule submit_ok [OF new_registry_ok])
  have "map_of (y_leases (foldl (presence_step demo_presence) ?st
    [Remove 3 (demo_caller ''d'') (decimal 0) None, Submit demo_world 4 (demo_caller ''d'') (demo_request [])])) (decimal 0) = Some l"
  proof (rule foreign_callers_cannot_touch_lease [OF demo_inj ok l(1)])
    show "lease_expired demo_presence 10 l = False" using l(3) by simp
    show "list_all (\<lambda>op. foreign l op \<and> op_time op \<le> 10)
      [Remove 3 (demo_caller ''d'') (decimal 0) None, Submit demo_world 4 (demo_caller ''d'') (demo_request [])]"
      using l(4) by (simp add: owns_lease_def demo_caller_def)
  qed
  then show ?thesis by (simp only: l(2) option.map)
qed


section \<open>What a submission does\<close>

definition resolves :: "world \<Rightarrow> PanePresenceRegistry \<Rightarrow> PresenceCaller \<Rightarrow> jstr \<Rightarrow> bool" where
  "resolves d st caller p \<longleftrightarrow> resolveOwnedTarget d st p caller \<noteq> None"

lemma resolve_cong: "y_registrations st' = y_registrations st \<Longrightarrow> resolveOwnedTarget d st' p c = resolveOwnedTarget d st p c"
  by (simp add: resolveOwnedTarget_def split: sum.split PaneTarget.split)

lemma resolved_ids: "map (i_paneId \<circ> fst) (resolved_views d st caller vs) = filter (resolves d st caller) (map i_paneId vs)"
  by (induction vs) (auto simp: resolved_views_def List.map_filter_def resolves_def)

definition took_over :: "world \<Rightarrow> int \<Rightarrow> PresenceCaller \<Rightarrow> SubmitPresenceRequest \<Rightarrow> PanePresenceRegistry \<Rightarrow> jstr \<Rightarrow> jstr list \<Rightarrow> PanePresenceRegistry \<Rightarrow> bool" where
  "took_over d now caller req st k rejected st' = (case map_of (y_leases st') k of None \<Rightarrow> False
     | Some l \<Rightarrow> map fst (l_views l) = first_seen [] (filter (resolves d st caller) (map i_paneId (sr_views req)))
         \<and> l_viewRevision l = sr_viewRevision req \<and> l_lastKeepaliveAt l = now \<and> owns_lease caller l \<and> l_windowId l = sr_windowId req
         \<and> rejected = filter (\<lambda>p. \<not> resolves d st caller p) (map i_paneId (sr_views req)))"

lemma accept_took_over:
  assumes "y_registrations st1 = y_registrations st" and "owns_lease caller l" and "l_windowId l = sr_windowId req" and "l_rendererLeaseId l = k"
    and "accept_submission d now caller req k l st1 = (res, st')"
  shows "\<exists>n rejected. res = Submitted k n rejected \<and> took_over d now caller req st k rejected st'"
proof -
  have r: "resolveOwnedTarget d st1 p caller = resolveOwnedTarget d st p caller" for p by (rule resolve_cong [OF assms(1)])
  then have "resolved_views d st1 caller vs = resolved_views d st caller vs" for vs by (simp add: resolved_views_def)
  then show ?thesis using assms(2-5) unfolding accept_alt Let_def r
    by (auto simp: took_over_def update_conv' replace_views_keys resolved_ids resolves_def owns_lease_def)
qed

text \<open>A submission either is refused and changes nothing beyond expiry (wrong owner, workspace, connection
  or window; a revision that is not newer; an empty snapshot of a lease that has shown views), or it
  becomes the lease's state: the views are exactly the submitted panes that the caller owns, each
  once and in order of first mention, the others are reported as rejected, and the revision and the
  renewal time are the submitted ones.\<close>
theorem submit_outcome:
  assumes "presence_ok opts st0" and "submitPresence opts d now caller req st0 = (res, st')"
  shows "case res of Submitted k n rejected \<Rightarrow> took_over d now caller req (sweepExpired opts now st0) k rejected st'
    | _ \<Rightarrow> st' = sweepExpired opts now st0"
proof -
  let ?st = "sweepExpired opts now st0"
  let ?named = "if truthy_str (sr_rendererLeaseId req) then map_of (y_leases ?st) (default_to (sr_rendererLeaseId req) []) else None"
  show ?thesis
  proof (cases ?named)
    case None
    let ?k = "po_createLeaseId opts (y_leaseIds ?st)"
    let ?l = "new_lease now caller req ?k"
    have acc: "accept_submission d now caller req ?k ?l
        (?st\<lparr>y_leaseIds := Suc (y_leaseIds ?st), y_leases := AList.update ?k ?l (y_leases ?st)\<rparr>) = (res, st')"
      using assms(2) unfolding submitPresence_def Let_def None option.case .
    have "\<exists>n rejected. res = Submitted ?k n rejected \<and> took_over d now caller req ?st ?k rejected st'"
      by (rule accept_took_over [OF _ _ _ _ acc]) (simp_all add: new_lease_def owns_lease_def)
    then show ?thesis by auto
  next
    case (Some l)
    let ?k = "default_to (sr_rendererLeaseId req) []"
    have "map_of (y_leases ?st) ?k = Some l" using Some by (auto split: if_splits)
    from lease_okD [OF sweep_ok [OF assms(1)] map_of_SomeD [OF this]] have k: "l_rendererLeaseId l = ?k" by (simp add: lease_ok_def)
    have *: "(if \<not> owns_lease caller l then (WrongWindow, ?st)
             else if sr_windowId req \<noteq> l_windowId l then (WrongWindow, ?st)
             else if sr_viewRevision req \<le> l_viewRevision l then (StaleRevision (l_viewRevision l), ?st)
             else if sr_views req = [] \<and> l_hasReportedNonEmpty l then (EmptySnapshotIgnored (l_rendererLeaseId l), ?st)
             else accept_submission d now caller req ?k l ?st) = (res, st')"
      using assms(2) unfolding submitPresence_def Let_def Some option.case .
    show ?thesis
    proof (cases "res = WrongWindow \<or> (\<exists>n. res = StaleRevision n) \<or> (\<exists>i. res = EmptySnapshotIgnored i)")
      case True
      then have "st' = ?st" using * accept_alt [of d now caller req ?k l ?st] by (auto simp: Let_def split: if_splits)
      with True show ?thesis by auto
    next
      case False
      with * have "owns_lease caller l" "l_windowId l = sr_windowId req" "accept_submission d now caller req ?k l ?st = (res, st')"
        by (auto split: if_splits)
      from accept_took_over [OF refl this(1,2) k this(3)] show ?thesis by auto
    qed
  qed
qed

theorem submit_outcome_witness:
  "case submitPresence demo_presence demo_world 2 (demo_caller ''c'') (demo_request [''node:n1'']) new_registry of
     (res, st') \<Rightarrow> (case res of Submitted k n rejected \<Rightarrow>
        took_over demo_world 2 (demo_caller ''c'') (demo_request [''node:n1'']) (sweepExpired demo_presence 2 new_registry) k rejected st'
      | _ \<Rightarrow> st' = sweepExpired demo_presence 2 new_registry)"
proof (cases "submitPresence demo_presence demo_world 2 (demo_caller ''c'') (demo_request [''node:n1'']) new_registry")
  case (Pair res st')
  from submit_outcome [OF new_registry_ok Pair] show ?thesis by (simp add: Pair)
qed

end
