(* ===== verification/Node_Tree.thy ===== *)
theory Node_Tree
  imports Michi_Prelude
begin

text \<open>
  The tree walks over the edges of a workspace (\<^verbatim>\<open>frontend/src/state/tree.ts\<close>). A JavaScript \<open>Map\<close> is an
  association list and a \<open>Set\<close> a list, in insertion order; the optional predicate \<open>isAlive\<close> is the argument
  \<open>alive\<close> (\<open>\<lambda>_. True\<close> when absent). The loops carry fuel, and \<open>None\<close> means that it ran out; the theorems
  show that this never happens, that the walks visit exactly the nodes reachable along live branch
  edges, and that a forest gives every node one place in the tree.
\<close>

section \<open>Data\<close>

datatype edge_kind = BranchEdge | MergeEdge | LinkEdge | DigestSourceEdge

record TreeEdge =
  e_source :: jstr
  e_target :: jstr
  e_kind :: "edge_kind option"

datatype TreeNode = TreeNode jstr nat "TreeNode list"

definition isTreeEdge :: "TreeEdge \<Rightarrow> bool" where
  "isTreeEdge e \<longleftrightarrow> e_kind e = None \<or> e_kind e = Some BranchEdge"

section \<open>The walks\<close>

definition children_map :: "(jstr \<Rightarrow> bool) \<Rightarrow> TreeEdge list \<Rightarrow> (jstr \<times> jstr list) list" where
  "children_map alive edges = foldl (\<lambda>m e.
     if \<not> isTreeEdge e then m
     else if \<not> alive (e_source e) \<or> \<not> alive (e_target e) then m
     else AList.update (e_source e) (default_to (map_of m (e_source e)) [] @ [e_target e]) m) [] edges"

definition childrenOf :: "(jstr \<times> jstr list) list \<Rightarrow> jstr \<Rightarrow> jstr list" where
  "childrenOf m x = default_to (map_of m x) []"

text \<open>\<open>visit\<close> of \<open>buildTree\<close> with the set of visited nodes passed along, and its \<open>map\<close> over the children.\<close>

function (sequential) visit :: "nat \<Rightarrow> (jstr \<times> jstr list) list \<Rightarrow> jstr list \<Rightarrow> jstr \<Rightarrow> nat \<Rightarrow> (TreeNode \<times> jstr list) option"
  and visit_all :: "nat \<Rightarrow> (jstr \<times> jstr list) list \<Rightarrow> jstr list \<Rightarrow> jstr list \<Rightarrow> nat \<Rightarrow> (TreeNode list \<times> jstr list) option" where
  "visit 0 m visited nodeId depth = None"
| "visit (Suc fuel) m visited nodeId depth =
     (let visited1 = (if nodeId \<in> set visited then visited else visited @ [nodeId]);
          childIds = filter (\<lambda>c. c \<notin> set visited1) (childrenOf m nodeId)
      in case visit_all fuel m visited1 childIds (depth + 1) of None \<Rightarrow> None
         | Some (ts, visited2) \<Rightarrow> Some (TreeNode nodeId depth ts, visited2))"
| "visit_all fuel m visited [] depth = Some ([], visited)"
| "visit_all fuel m visited (c # cs) depth =
     (case visit fuel m visited c depth of None \<Rightarrow> None
      | Some (t, visited1) \<Rightarrow> (case visit_all fuel m visited1 cs depth of None \<Rightarrow> None
          | Some (ts, visited2) \<Rightarrow> Some (t # ts, visited2)))"
  by pat_completeness auto
termination
  by (relation "measures [case_sum (\<lambda>(f, _). f) (\<lambda>(f, _). f), case_sum (\<lambda>_. 0) (\<lambda>(_, _, _, cs, _). Suc (length cs))]") auto

definition buildTree :: "jstr \<Rightarrow> TreeEdge list \<Rightarrow> (jstr \<Rightarrow> bool) \<Rightarrow> TreeNode option" where
  "buildTree rootId edges alive = map_option fst (visit (length edges + 2) (children_map alive edges) [] rootId 0)"

text \<open>The stack of \<open>descendants\<close>, its top first: pushing the children puts the last one on top.\<close>

fun collect :: "nat \<Rightarrow> (jstr \<times> jstr list) list \<Rightarrow> jstr \<Rightarrow> jstr list \<Rightarrow> jstr list \<Rightarrow> jstr list option" where
  "collect fuel m rootId found [] = Some found"
| "collect 0 m rootId found (x # stack) = None"
| "collect (Suc fuel) m rootId found (x # stack) =
     (if x \<in> set found \<or> x = rootId then collect fuel m rootId found stack
      else collect fuel m rootId (found @ [x]) (rev (childrenOf m x) @ stack))"

definition descendants :: "jstr \<Rightarrow> TreeEdge list \<Rightarrow> (jstr \<Rightarrow> bool) \<Rightarrow> jstr list option" where
  "descendants rootId edges alive =
     (let m = children_map alive edges
      in collect (2 * length edges) m rootId [] (rev (childrenOf m rootId)))"

record tree_ref =
  tr_id :: jstr
  tr_rootNodeId :: jstr

definition parent_map :: "TreeEdge list \<Rightarrow> (jstr \<times> jstr) list" where
  "parent_map edges = foldl (\<lambda>m e. if isTreeEdge e then AList.update (e_target e) (e_source e) m else m) [] edges"

fun climb :: "nat \<Rightarrow> tree_ref list \<Rightarrow> (jstr \<times> jstr) list \<Rightarrow> jstr list \<Rightarrow> jstr option \<Rightarrow> jstr option option" where
  "climb fuel trees m seen None = Some None"
| "climb 0 trees m seen (Some cur) = None"
| "climb (Suc fuel) trees m seen (Some cur) =
     (if cur = [] \<or> cur \<in> set seen then Some None
      else case find (\<lambda>t. tr_rootNodeId t = cur) trees of
             Some t \<Rightarrow> Some (Some (tr_id t))
           | None \<Rightarrow> climb fuel trees m (seen @ [cur]) (map_of m cur))"

definition findTreeIdForNode :: "jstr \<Rightarrow> tree_ref list \<Rightarrow> TreeEdge list \<Rightarrow> jstr option option" where
  \<comment> \<open>the outer \<open>None\<close>: out of fuel\<close>
  "findTreeIdForNode nodeId trees edges = (case find (\<lambda>t. tr_rootNodeId t = nodeId) trees of
     Some t \<Rightarrow> Some (Some (tr_id t))
   | None \<Rightarrow> climb (length edges + 2) trees (parent_map edges) [] (Some nodeId))"

record project_ref =
  pj_activeTreeId :: "jstr option"
  pj_trees :: "tree_ref list"

definition activeTreeRootNodeId :: "project_ref option \<Rightarrow> jstr option" where
  "activeTreeRootNodeId project = (case project of None \<Rightarrow> None
     | Some p \<Rightarrow> if \<not> truthy_str (pj_activeTreeId p) then None
         else map_option tr_rootNodeId (find (\<lambda>t. Some (tr_id t) = pj_activeTreeId p) (pj_trees p)))"

section \<open>Reachability\<close>

definition live_edge :: "(jstr \<Rightarrow> bool) \<Rightarrow> TreeEdge \<Rightarrow> bool" where
  "live_edge alive e \<longleftrightarrow> isTreeEdge e \<and> alive (e_source e) \<and> alive (e_target e)"

definition live_edges :: "(jstr \<Rightarrow> bool) \<Rightarrow> TreeEdge list \<Rightarrow> (jstr \<times> jstr) set" where
  "live_edges alive edges = {(e_source e, e_target e) | e. e \<in> set edges \<and> live_edge alive e}"

fun nodes :: "TreeNode \<Rightarrow> jstr list" where
  "nodes (TreeNode n d ts) = n # concat (map nodes ts)"

lemma childrenOf_map:
  "childrenOf (children_map alive edges) x = map e_target (filter (\<lambda>e. live_edge alive e \<and> e_source e = x) edges)"
proof (induction edges rule: rev_induct)
  case Nil
  then show ?case by (simp add: children_map_def childrenOf_def)
next
  case (snoc e edges)
  then show ?case by (auto simp: children_map_def childrenOf_def live_edge_def update_conv')
qed

lemma children_iff: "y \<in> set (childrenOf (children_map alive edges) x) \<longleftrightarrow> (x, y) \<in> live_edges alive edges"
  by (auto simp: childrenOf_map live_edges_def)

section \<open>The tree\<close>

abbreviation step_rel :: "(jstr \<times> jstr list) list \<Rightarrow> (jstr \<times> jstr) set" where
  "step_rel m \<equiv> {(x, y). y \<in> set (childrenOf m x)}"

definition pending :: "(jstr \<times> jstr list) list \<Rightarrow> jstr set \<Rightarrow> jstr list \<Rightarrow> jstr \<Rightarrow> bool" where
  "pending m U vs n \<longleftrightarrow> n \<in> U \<and> (n \<in> set vs \<longrightarrow> set (childrenOf m n) \<subseteq> set vs)"

definition visited_ok :: "(jstr \<times> jstr list) list \<Rightarrow> jstr set \<Rightarrow> jstr list \<Rightarrow> jstr list \<Rightarrow> jstr list \<Rightarrow> jstr list \<Rightarrow> bool" where
  "visited_ok m U vs starts ns vs' \<longleftrightarrow> set vs' = set vs \<union> set ns \<and> set starts \<subseteq> set vs' \<and> set ns \<subseteq> U
     \<and> (\<forall>x \<in> set vs' - set vs. set (childrenOf m x) \<subseteq> set vs')
     \<and> (\<forall>x \<in> set ns. \<exists>s \<in> set starts. (s, x) \<in> (step_rel m)\<^sup>*)"

lemma pending_later: "pending m U vs c \<Longrightarrow> visited_ok m U vs ss ns vs' \<Longrightarrow> pending m U vs' c"
  unfolding pending_def visited_ok_def by blast

lemma visit_terminates:
  assumes "finite U" and "\<And>x. x \<in> U \<Longrightarrow> set (childrenOf m x) \<subseteq> U"
  shows "pending m U vs n \<Longrightarrow> card (U - set vs) < fuel \<Longrightarrow>
      \<exists>t vs'. visit fuel m vs n d = Some (t, vs') \<and> visited_ok m U vs [n] (nodes t) vs'"
    and "list_all (pending m U vs) cs \<Longrightarrow> cs = [] \<or> card (U - set vs) < fuel \<Longrightarrow>
      \<exists>ts vs'. visit_all fuel m vs cs d = Some (ts, vs') \<and> visited_ok m U vs cs (concat (map nodes ts)) vs'"
  using assms
proof (induction fuel m vs n d and fuel m vs cs d rule: visit_visit_all.induct)
  case (2 fuel m vs n d)
  let ?vs1 = "if n \<in> set vs then vs else vs @ [n]"
  let ?cs = "filter (\<lambda>c. c \<notin> set ?vs1) (childrenOf m n)"
  have n: "n \<in> U" using "2.prems"(1) by (simp add: pending_def)
  have p: "list_all (pending m U ?vs1) ?cs"
    using "2.prems"(4) [OF n] by (auto simp: list_all_iff pending_def)
  have f: "?cs = [] \<or> card (U - set ?vs1) < fuel"
  proof (cases "n \<in> set vs")
    case True
    then show ?thesis using "2.prems"(1) by (auto simp: pending_def filter_empty_conv)
  next
    case False
    have "card (U - set ?vs1) < card (U - set vs)"
      by (rule psubset_card_mono) (use False n "2.prems"(3) in auto)
    with "2.prems"(2) show ?thesis by simp
  qed
  from "2.IH" [OF refl refl p f "2.prems"(3,4)] obtain ts vs' where ts:
    "visit_all fuel m ?vs1 ?cs (d + 1) = Some (ts, vs')" "visited_ok m U ?vs1 ?cs (concat (map nodes ts)) vs'" by auto
  have "visited_ok m U vs [n] (nodes (TreeNode n d ts)) vs'"
  proof -
    have kids: "set (childrenOf m n) \<subseteq> set vs'" using ts(2) by (auto simp: visited_ok_def split: if_splits)
    have reach: "(n, x) \<in> (step_rel m)\<^sup>*" if "s \<in> set ?cs" "(s, x) \<in> (step_rel m)\<^sup>*" for s x
      using that by (auto intro: converse_rtrancl_into_rtrancl)
    have vs1: "set ?vs1 = insert n (set vs)" by auto
    have new: "set (childrenOf m x) \<subseteq> set vs'" if "x \<in> set vs' - set vs" for x
      using that kids ts(2) unfolding visited_ok_def vs1 by blast
    have "\<exists>s \<in> set [n]. (s, x) \<in> (step_rel m)\<^sup>*" if "x \<in> set (nodes (TreeNode n d ts))" for x
    proof (cases "x = n")
      case False
      with that have "x \<in> set (concat (map nodes ts))" by simp
      with ts(2) obtain s where "s \<in> set ?cs" "(s, x) \<in> (step_rel m)\<^sup>*" unfolding visited_ok_def by blast
      from reach [OF this] show ?thesis by simp
    qed simp
    then show ?thesis using ts(2) n new unfolding visited_ok_def vs1 nodes.simps by auto
  qed
  with ts(1) show ?case by (simp add: Let_def)
next
  case (4 fuel m vs c cs d)
  have c: "pending m U vs c" "list_all (pending m U vs) cs" "card (U - set vs) < fuel" using "4.prems"(1,2) by simp_all
  from "4.IH"(1) [OF c(1,3) "4.prems"(3,4)] obtain t vs1 where t:
    "visit fuel m vs c d = Some (t, vs1)" "visited_ok m U vs [c] (nodes t) vs1" by auto
  have "card (U - set vs1) \<le> card (U - set vs)"
    using t(2) "4.prems"(3) by (intro card_mono) (auto simp: visited_ok_def)
  then have f: "card (U - set vs1) < fuel" using c(3) by simp
  have p: "list_all (pending m U vs1) cs" using c(2) t(2) pending_later by (auto simp: list_all_iff)
  from "4.IH"(2) [OF t(1) refl p _ "4.prems"(3,4)] f obtain ts vs2 where ts:
    "visit_all fuel m vs1 cs d = Some (ts, vs2)" "visited_ok m U vs1 cs (concat (map nodes ts)) vs2" by auto
  have "visited_ok m U vs (c # cs) (nodes t @ concat (map nodes ts)) vs2"
    unfolding visited_ok_def
  proof (intro conjI ballI)
    fix x assume "x \<in> set vs2 - set vs"
    then show "set (childrenOf m x) \<subseteq> set vs2" using t(2) ts(2) unfolding visited_ok_def by blast
  next
    fix x assume "x \<in> set (nodes t @ concat (map nodes ts))"
    then have "x \<in> set (nodes t) \<or> x \<in> set (concat (map nodes ts))" by simp
    then show "\<exists>s \<in> set (c # cs). (s, x) \<in> (step_rel m)\<^sup>*"
      using t(2) ts(2) unfolding visited_ok_def by (metis empty_iff list.set(1) list.set_intros(1,2) set_ConsD)
  qed (use t(2) ts(2) in \<open>unfold visited_ok_def, auto\<close>)
  with t(1) ts(1) show ?case by simp
qed (auto simp: visited_ok_def)


lemma live_closed: "x \<in> insert r (e_target ` set edges) \<Longrightarrow> set (childrenOf (children_map alive edges) x) \<subseteq> insert r (e_target ` set edges)"
  by (auto simp: childrenOf_map)

lemma card_universe: "card (insert r (e_target ` set edges) - set []) < length edges + 2"
proof -
  have "card (insert r (e_target ` set edges)) \<le> Suc (card (e_target ` set edges))" by (rule card_insert_le_m1) simp_all
  also have "card (e_target ` set edges) \<le> length edges" by (metis card_image_le card_length finite_set le_trans)
  finally show ?thesis by simp
qed

lemma step_rel_live: "step_rel (children_map alive edges) = live_edges alive edges"
  using children_iff by auto

lemma closed_reach:
  assumes "(a, b) \<in> R\<^sup>*" and "a \<in> S" and "\<And>x y. x \<in> S \<Longrightarrow> (x, y) \<in> R \<Longrightarrow> y \<in> S"
  shows "b \<in> S"
  using assms by (induction rule: rtrancl_induct) auto

text \<open>Building the structure tree always ends, whatever cycles or shared children the edges have, and the
  nodes of the tree are exactly the nodes reachable from the root along live branch edges.\<close>
theorem buildTree_reachable:
  "case buildTree rootId edges alive of None \<Rightarrow> False
   | Some t \<Rightarrow> set (nodes t) = {x. (rootId, x) \<in> (live_edges alive edges)\<^sup>*}"
proof -
  let ?m = "children_map alive edges" and ?U = "insert rootId (e_target ` set edges)"
  have p: "pending ?m ?U [] rootId" by (simp add: pending_def)
  obtain t vs' where t: "visit (length edges + 2) ?m [] rootId 0 = Some (t, vs')" "visited_ok ?m ?U [] [rootId] (nodes t) vs'"
    using visit_terminates(1) [OF _ live_closed p card_universe, where d = 0] by blast
  have "set (nodes t) = {x. (rootId, x) \<in> (live_edges alive edges)\<^sup>*}"
  proof (intro equalityI subsetI CollectI)
    fix x assume "x \<in> set (nodes t)"
    with t(2) show "(rootId, x) \<in> (live_edges alive edges)\<^sup>*" by (auto simp: visited_ok_def step_rel_live)
  next
    fix x assume "x \<in> {x. (rootId, x) \<in> (live_edges alive edges)\<^sup>*}"
    then have "(rootId, x) \<in> (live_edges alive edges)\<^sup>*" by simp
    then show "x \<in> set (nodes t)"
      by (rule closed_reach) (use t(2) in \<open>auto simp: visited_ok_def children_iff subset_iff\<close>)
  qed
  with t(1) show ?thesis by (simp add: buildTree_def)
qed

section \<open>A forest gives every node one place\<close>

definition one_parent :: "(jstr \<times> jstr list) list \<Rightarrow> bool" where
  "one_parent m \<longleftrightarrow> (\<forall>x y c. c \<in> set (childrenOf m x) \<longrightarrow> c \<in> set (childrenOf m y) \<longrightarrow> x = y) \<and> (\<forall>x. distinct (childrenOf m x))"

definition grown :: "(jstr \<times> jstr list) list \<Rightarrow> jstr list \<Rightarrow> jstr list \<Rightarrow> jstr list \<Rightarrow> jstr list \<Rightarrow> bool" where
  "grown m vs starts ns vs' \<longleftrightarrow> distinct ns \<and> set ns \<inter> set vs = {} \<and> set vs' = set vs \<union> set ns
     \<and> (\<forall>x \<in> set ns. x \<in> set starts \<or> (\<exists>y \<in> set ns. x \<in> set (childrenOf m y)))"

lemma visit_distinct:
  assumes "one_parent m"
  shows "visit fuel m vs n d = Some (t, vs') \<Longrightarrow> n \<notin> set vs \<Longrightarrow> grown m vs [n] (nodes t) vs'"
    and "visit_all fuel m vs cs d = Some (ts, vs') \<Longrightarrow> distinct cs \<Longrightarrow> set cs \<inter> set vs = {} \<Longrightarrow>
      (\<exists>p \<in> set vs. set cs \<subseteq> set (childrenOf m p)) \<Longrightarrow> grown m vs cs (concat (map nodes ts)) vs'"
  using assms
proof (induction fuel m vs n d and fuel m vs cs d arbitrary: t vs' and ts vs' rule: visit_visit_all.induct)
  case (2 fuel m vs n d)
  let ?cs = "filter (\<lambda>c. c \<notin> set (vs @ [n])) (childrenOf m n)"
  from "2.prems"(1,2) obtain ts where ts: "visit_all fuel m (vs @ [n]) ?cs (d + 1) = Some (ts, vs')" "t = TreeNode n d ts"
    by (auto simp: Let_def split: option.splits)
  have "distinct ?cs" using "2.prems"(3) by (simp add: one_parent_def)
  then have "grown m (vs @ [n]) ?cs (concat (map nodes ts)) vs'"
    using "2.IH" [OF refl refl, of ts vs'] ts(1) "2.prems"(2,3) by auto
  then show ?case using ts(2) "2.prems"(2) by (auto simp: grown_def)
next
  case (4 fuel m vs c cs d)
  from "4.prems"(1) obtain t vs1 ts' where t: "visit fuel m vs c d = Some (t, vs1)"
    "visit_all fuel m vs1 cs d = Some (ts', vs')" "ts = t # ts'" by (auto split: option.splits)
  have g1: "grown m vs [c] (nodes t) vs1" using "4.IH"(1) [OF t(1)] "4.prems"(3,5) by simp
  from "4.prems"(4) obtain p where p: "p \<in> set vs" "set (c # cs) \<subseteq> set (childrenOf m p)" by auto
  have away: "x \<notin> set (nodes t)" if "x \<in> set cs" for x
  proof
    assume x: "x \<in> set (nodes t)"
    have "x \<noteq> c" using that "4.prems"(2) by auto
    with g1 x obtain y where "y \<in> set (nodes t)" "x \<in> set (childrenOf m y)" by (auto simp: grown_def)
    moreover from this that p(2) "4.prems"(5) have "y = p" unfolding one_parent_def by auto
    ultimately show False using g1 p(1) by (auto simp: grown_def)
  qed
  have vs1: "set vs1 = set vs \<union> set (nodes t)" using g1 by (simp add: grown_def)
  have "grown m vs1 cs (concat (map nodes ts')) vs'"
  proof (rule "4.IH"(2) [OF t(1) refl t(2)])
    show "set cs \<inter> set vs1 = {}" using away "4.prems"(3) vs1 by auto
    show "\<exists>p \<in> set vs1. set cs \<subseteq> set (childrenOf m p)" using p vs1 by auto
  qed (use "4.prems"(2,5) in simp_all)
  with g1 show ?case unfolding t(3) grown_def list.map concat.simps
    by (auto simp del: set_concat)
qed (auto simp: grown_def)

text \<open>Where the live branch edges give every node at most one parent, every node stands at exactly one
  place of the structure tree.\<close>
theorem buildTree_one_place:
  assumes "distinct (map e_target (filter (live_edge alive) edges))" and "buildTree rootId edges alive = Some t"
  shows "distinct (nodes t)"
proof -
  let ?m = "children_map alive edges"
  have inj: "e = e'" if "e \<in> set edges" "e' \<in> set edges" "live_edge alive e" "live_edge alive e'" "e_target e = e_target e'" for e e'
    using assms(1) that by (auto simp: distinct_map inj_on_def)
  have "distinct (childrenOf ?m x)" for x
    using distinct_map_filter [OF assms(1), of "\<lambda>e. e_source e = x"] by (simp add: childrenOf_map)
  with inj have "one_parent ?m" by (auto simp: one_parent_def childrenOf_map)
  moreover obtain vs' where "visit (length edges + 2) ?m [] rootId 0 = Some (t, vs')"
    using assms(2) by (auto simp: buildTree_def simp del: visit.simps)
  ultimately show ?thesis using visit_distinct(1) [of ?m "length edges + 2" "[]" rootId 0 t vs'] by (simp add: grown_def)
qed


definition demo_edges :: "TreeEdge list" where
  "demo_edges = [\<lparr>e_source = js ''r'', e_target = js ''a'', e_kind = None\<rparr>, \<lparr>e_source = js ''a'', e_target = js ''b'', e_kind = Some BranchEdge\<rparr>,
     \<lparr>e_source = js ''r'', e_target = js ''b'', e_kind = Some MergeEdge\<rparr>]"

theorem buildTree_one_place_witness:
  "case buildTree (js ''r'') demo_edges (\<lambda>_. True) of None \<Rightarrow> False | Some t \<Rightarrow> distinct (nodes t) \<and> nodes t = [js ''r'', js ''a'', js ''b'']"
proof -
  have "map_option nodes (buildTree (js ''r'') demo_edges (\<lambda>_. True)) = Some [js ''r'', js ''a'', js ''b'']" by code_simp
  then obtain t where t: "buildTree (js ''r'') demo_edges (\<lambda>_. True) = Some t" "nodes t = [js ''r'', js ''a'', js ''b'']" by auto
  have "distinct (map e_target (filter (live_edge (\<lambda>_. True)) demo_edges))" by code_simp
  from buildTree_one_place [OF this t(1)] t show ?thesis by simp
qed

section \<open>Descendants\<close>

definition open_edges :: "(jstr \<Rightarrow> bool) \<Rightarrow> TreeEdge list \<Rightarrow> jstr set \<Rightarrow> nat" where
  "open_edges alive edges S = length (filter (\<lambda>e. live_edge alive e \<and> e_source e \<notin> S) edges)"

lemma open_edges_insert:
  "x \<notin> S \<Longrightarrow> open_edges alive edges (insert x S) + length (childrenOf (children_map alive edges) x) = open_edges alive edges S"
  unfolding childrenOf_map length_map open_edges_def by (induction edges) auto

definition frontier :: "(jstr \<Rightarrow> bool) \<Rightarrow> TreeEdge list \<Rightarrow> jstr \<Rightarrow> jstr list \<Rightarrow> jstr list \<Rightarrow> bool" where
  "frontier alive edges r found stack \<longleftrightarrow> r \<notin> set found \<and> distinct found
     \<and> (\<forall>x \<in> insert r (set found). set (childrenOf (children_map alive edges) x) \<subseteq> insert r (set found) \<union> set stack)
     \<and> set found \<union> set stack \<subseteq> {x. (r, x) \<in> (live_edges alive edges)\<^sup>+}"

lemma frontier_push:
  assumes "frontier alive edges r found (x # stack)" and "x \<notin> set found" and "x \<noteq> r"
  shows "frontier alive edges r (found @ [x]) (rev (childrenOf (children_map alive edges) x) @ stack)"
proof -
  have "(r, x) \<in> (live_edges alive edges)\<^sup>+" using assms(1) by (simp add: frontier_def)
  then have "(r, y) \<in> (live_edges alive edges)\<^sup>+" if "y \<in> set (childrenOf (children_map alive edges) x)" for y
    using that by (auto simp: children_iff intro: trancl_into_trancl)
  with assms show ?thesis unfolding frontier_def by auto
qed

lemma frontier_skip: "frontier alive edges r found (x # stack) \<Longrightarrow> x \<in> set found \<or> x = r \<Longrightarrow> frontier alive edges r found stack"
  unfolding frontier_def by auto

lemma collect_spec:
  "length stack + open_edges alive edges (insert r (set found)) \<le> fuel \<Longrightarrow> frontier alive edges r found stack \<Longrightarrow>
   \<exists>out. collect fuel (children_map alive edges) r found stack = Some out \<and> frontier alive edges r out []"
proof (induction fuel arbitrary: found stack)
  case 0
  then show ?case by simp
next
  case (Suc fuel)
  show ?case
  proof (cases stack)
    case (Cons x xs)
    show ?thesis
    proof (cases "x \<in> set found \<or> x = r")
      case True
      then show ?thesis using Suc.IH [of xs found] Suc.prems frontier_skip [of alive edges r found x xs] by (simp add: Cons)
    next
      case False
      let ?kids = "childrenOf (children_map alive edges) x"
      have "open_edges alive edges (insert r (set (found @ [x]))) + length ?kids = open_edges alive edges (insert r (set found))"
        using open_edges_insert [of x "insert r (set found)" alive edges] False by (simp add: insert_commute)
      then have "length (rev ?kids @ xs) + open_edges alive edges (insert r (set (found @ [x]))) \<le> fuel"
        using Suc.prems(1) by (simp add: Cons)
      from Suc.IH [OF this frontier_push] Suc.prems(2) False show ?thesis by (simp add: Cons)
    qed
  qed (use Suc.prems in simp)
qed

text \<open>The descendants of a node are exactly the other nodes reachable from it along live branch edges,
  each listed once; the collection always ends, whatever cycles the edges have.\<close>
theorem descendants_reachable:
  "case descendants rootId edges alive of None \<Rightarrow> False
   | Some ds \<Rightarrow> distinct ds \<and> set ds = {x. (rootId, x) \<in> (live_edges alive edges)\<^sup>+ \<and> x \<noteq> rootId}"
proof -
  let ?m = "children_map alive edges" and ?R = "live_edges alive edges"
  have "open_edges alive edges {rootId} + length (childrenOf ?m rootId) = open_edges alive edges {}"
    using open_edges_insert [of rootId "{}"] by simp
  moreover have "open_edges alive edges {} \<le> length edges" by (simp add: open_edges_def)
  ultimately have fuel: "length (rev (childrenOf ?m rootId)) + open_edges alive edges (insert rootId (set [])) \<le> 2 * length edges" by simp
  have "frontier alive edges rootId [] (rev (childrenOf ?m rootId))"
    by (auto simp: frontier_def children_iff)
  from collect_spec [OF fuel this] obtain ds where ds: "descendants rootId edges alive = Some ds" "frontier alive edges rootId ds []"
    by (auto simp: descendants_def)
  have "x \<in> set ds" if "(rootId, x) \<in> ?R\<^sup>+" "x \<noteq> rootId" for x
  proof -
    have "x \<in> insert rootId (set ds)"
      by (rule closed_reach [OF trancl_into_rtrancl [OF that(1)]])
        (use ds(2) in \<open>auto simp: frontier_def children_iff subset_iff\<close>)
    with that(2) show ?thesis by simp
  qed
  with ds show ?thesis by (auto simp: frontier_def)
qed

section \<open>The tree of a node\<close>

lemma parent_map_edge: "map_of (parent_map edges) x = Some p \<Longrightarrow> (p, x) \<in> live_edges (\<lambda>_. True) edges"
proof (induction edges rule: rev_induct)
  case Nil
  then show ?case by (simp add: parent_map_def)
next
  case (snoc e edges)
  then show ?case by (auto simp: parent_map_def live_edges_def live_edge_def update_conv' split: if_splits)
qed

lemma climb_spec:
  assumes "finite U" and "\<And>x p. map_of m x = Some p \<Longrightarrow> p \<in> U \<and> (p, x) \<in> R"
  shows "c \<in> U \<Longrightarrow> card (U - set seen) < fuel \<Longrightarrow> \<exists>res. climb fuel trees m seen (Some c) = Some res \<and>
    (case res of None \<Rightarrow> True | Some i \<Rightarrow> \<exists>t \<in> set trees. tr_id t = i \<and> (tr_rootNodeId t, c) \<in> R\<^sup>*)"
proof (induction fuel arbitrary: seen c)
  case (Suc fuel)
  consider "c = [] \<or> c \<in> set seen" | t where "\<not> (c = [] \<or> c \<in> set seen)" "find (\<lambda>t. tr_rootNodeId t = c) trees = Some t"
    | "\<not> (c = [] \<or> c \<in> set seen)" "find (\<lambda>t. tr_rootNodeId t = c) trees = None" "map_of m c = None"
    | p where "\<not> (c = [] \<or> c \<in> set seen)" "find (\<lambda>t. tr_rootNodeId t = c) trees = None" "map_of m c = Some p"
    by (metis not_None_eq)
  then show ?case
  proof cases
    case (2 t)
    with find_Some_key [OF 2(2)] show ?thesis by auto
  next
    case (4 p)
    have "card (U - set (seen @ [c])) < card (U - set seen)"
      by (rule psubset_card_mono) (use 4(1) Suc.prems(1) assms(1) in auto)
    with Suc.IH [of p "seen @ [c]"] Suc.prems(2) assms(2) [OF 4(3)] obtain res where res: "climb fuel trees m (seen @ [c]) (Some p) = Some res"
      "case res of None \<Rightarrow> True | Some i \<Rightarrow> \<exists>t \<in> set trees. tr_id t = i \<and> (tr_rootNodeId t, p) \<in> R\<^sup>*" by auto
    have "(q, c) \<in> R\<^sup>*" if "(q, p) \<in> R\<^sup>*" for q using that assms(2) [OF 4(3)] by (meson rtrancl_into_rtrancl)
    with res 4 show ?thesis by (auto split: option.splits)
  qed auto
qed simp

text \<open>Looking up the tree of a node always ends, and a tree that is found has the node below its root.\<close>

lemma findTreeIdForNode_sound:
  "\<exists>res. findTreeIdForNode n trees edges = Some res \<and>
    (case res of None \<Rightarrow> True | Some i \<Rightarrow> \<exists>t \<in> set trees. tr_id t = i \<and> (tr_rootNodeId t, n) \<in> (live_edges (\<lambda>_. True) edges)\<^sup>*)"
proof (cases "find (\<lambda>t. tr_rootNodeId t = n) trees")
  case (Some t)
  with find_Some_key [OF Some] show ?thesis by (auto simp: findTreeIdForNode_def)
next
  case None
  let ?U = "insert n (e_source ` set edges)"
  have p: "p \<in> ?U \<and> (p, x) \<in> live_edges (\<lambda>_. True) edges" if "map_of (parent_map edges) x = Some p" for x p
    using parent_map_edge [OF that] by (auto simp: live_edges_def)
  have "card ?U \<le> Suc (card (e_source ` set edges))" by (rule card_insert_le_m1) simp_all
  also have "card (e_source ` set edges) \<le> length edges" by (metis card_image_le card_length finite_set le_trans)
  finally have "card (?U - set []) < length edges + 2" by simp
  then show ?thesis unfolding findTreeIdForNode_def None option.case
    by (intro climb_spec [OF _ p]) simp_all
qed

end
