(* ===== verification/Nav_History.thy ===== *)
theory Nav_History
  imports Michi_Prelude
begin

text \<open>
  The back and forward history of the focused location (\<^verbatim>\<open>frontend/src/state/navHistory.ts\<close>): the class
  \<open>NavHistoryStore\<close>, generic in its entries as the source is. The two stacks are lists with the newest
  entry first. The React hook around the store only mirrors \<open>canBack\<close> and \<open>canForward\<close>. The theorems
  say that the history stays bounded and that a step back followed by a step forward returns to where
  one was.
\<close>

section \<open>The store\<close>

record NavEntry =
  n_nodeId :: jstr
  n_projectId :: jstr
  n_treeId :: jstr

definition CAP :: nat where
  "CAP = 50"

definition sameEntry :: "NavEntry option \<Rightarrow> NavEntry option \<Rightarrow> bool" where
  "sameEntry a b = (case (a, b) of
     (None, None) \<Rightarrow> True
   | (Some x, Some y) \<Rightarrow> n_nodeId x = n_nodeId y \<and> n_projectId x = n_projectId y \<and> n_treeId x = n_treeId y
   | _ \<Rightarrow> False)"

definition sameNode :: "NavEntry \<Rightarrow> NavEntry \<Rightarrow> bool" where
  "sameNode a b \<longleftrightarrow> n_nodeId a = n_nodeId b"

record 'e NavHistoryStore =
  h_backStack :: "'e list"
  h_forwardStack :: "'e list"
  h_current :: "'e option"
  h_suppress :: "'e option"

definition new_history :: "'e NavHistoryStore" where
  "new_history = \<lparr>h_backStack = [], h_forwardStack = [], h_current = None, h_suppress = None\<rparr>"

definition record_entry ::
  "('e option \<Rightarrow> 'e option \<Rightarrow> bool) \<Rightarrow> ('e \<Rightarrow> 'e \<Rightarrow> bool) \<Rightarrow> 'e \<Rightarrow> 'e NavHistoryStore \<Rightarrow> bool \<times> 'e NavHistoryStore" where
  "record_entry equal landed entry st = (case h_suppress st of
     Some target \<Rightarrow> (False, if landed entry target then st\<lparr>h_suppress := None, h_current := Some entry\<rparr> else st)
   | None \<Rightarrow>
       if equal (Some entry) (h_current st) then (False, st)
       else let pushed = (case h_current st of
                  None \<Rightarrow> h_backStack st
                | Some c \<Rightarrow> let s = c # h_backStack st in if CAP < length s then butlast s else s)
            in (True, st\<lparr>h_backStack := pushed, h_current := Some entry, h_forwardStack := []\<rparr>))"

definition leave :: "('e \<Rightarrow> bool) \<Rightarrow> 'e option \<Rightarrow> 'e list \<Rightarrow> 'e list" where
  \<comment> \<open>\<open>if (this.current && isLive(this.current)) stack.push(this.current)\<close>\<close>
  "leave isLive c stack = (case c of None \<Rightarrow> stack | Some e \<Rightarrow> if isLive e then e # stack else stack)"

definition go_back :: "('e \<Rightarrow> bool) \<Rightarrow> 'e NavHistoryStore \<Rightarrow> 'e option \<times> 'e NavHistoryStore" where
  "go_back isLive st = (case dropWhile (\<lambda>e. \<not> isLive e) (h_backStack st) of
     [] \<Rightarrow> (None, st\<lparr>h_backStack := []\<rparr>)
   | cand # rest \<Rightarrow> (Some cand, st\<lparr>h_backStack := rest, h_forwardStack := leave isLive (h_current st) (h_forwardStack st),
       h_current := Some cand, h_suppress := Some cand\<rparr>))"

definition go_forward :: "('e \<Rightarrow> bool) \<Rightarrow> 'e NavHistoryStore \<Rightarrow> 'e option \<times> 'e NavHistoryStore" where
  "go_forward isLive st = (case dropWhile (\<lambda>e. \<not> isLive e) (h_forwardStack st) of
     [] \<Rightarrow> (None, st\<lparr>h_forwardStack := []\<rparr>)
   | cand # rest \<Rightarrow> (Some cand, st\<lparr>h_forwardStack := rest, h_backStack := leave isLive (h_current st) (h_backStack st),
       h_current := Some cand, h_suppress := Some cand\<rparr>))"

definition prune :: "('e \<Rightarrow> bool) \<Rightarrow> 'e NavHistoryStore \<Rightarrow> bool \<times> 'e NavHistoryStore" where
  "prune isLive st =
     (let nextBack = filter isLive (h_backStack st); nextForward = filter isLive (h_forwardStack st)
      in (length nextBack \<noteq> length (h_backStack st) \<or> length nextForward \<noteq> length (h_forwardStack st),
          st\<lparr>h_backStack := nextBack, h_forwardStack := nextForward\<rparr>))"

definition canBack :: "'e NavHistoryStore \<Rightarrow> bool" where
  "canBack st \<longleftrightarrow> h_backStack st \<noteq> []"

definition canForward :: "'e NavHistoryStore \<Rightarrow> bool" where
  "canForward st \<longleftrightarrow> h_forwardStack st \<noteq> []"

section \<open>Bounds\<close>

datatype 'e nav_op = Record 'e | Back "'e \<Rightarrow> bool" | Forward "'e \<Rightarrow> bool" | Prune "'e \<Rightarrow> bool"

fun nav_step :: "('e option \<Rightarrow> 'e option \<Rightarrow> bool) \<Rightarrow> ('e \<Rightarrow> 'e \<Rightarrow> bool) \<Rightarrow> 'e NavHistoryStore \<Rightarrow> 'e nav_op \<Rightarrow> 'e NavHistoryStore" where
  "nav_step equal landed st (Record e) = snd (record_entry equal landed e st)"
| "nav_step equal landed st (Back isLive) = snd (go_back isLive st)"
| "nav_step equal landed st (Forward isLive) = snd (go_forward isLive st)"
| "nav_step equal landed st (Prune isLive) = snd (prune isLive st)"

definition nav_ok :: "'e NavHistoryStore \<Rightarrow> bool" where
  "nav_ok st \<longleftrightarrow> length (h_backStack st) + length (h_forwardStack st) \<le> CAP"

lemma length_leave: "length (leave isLive c s) \<le> Suc (length s)"
  by (simp add: leave_def split: option.split)

lemma dropWhile_Cons_length: "dropWhile P s = x # rest \<Longrightarrow> Suc (length rest) \<le> length s"
  by (metis length_Cons length_dropWhile_le)

lemma nav_step_ok:
  assumes "nav_ok st"
  shows "nav_ok (nav_step equal landed st op)"
proof (cases op)
  case (Record e)
  then show ?thesis using assms
    by (auto simp: nav_ok_def record_entry_def Let_def CAP_def split: option.splits)
next
  case (Back isLive)
  then show ?thesis using assms length_leave [of isLive "h_current st" "h_forwardStack st"]
    by (auto simp: nav_ok_def go_back_def split: list.splits dest!: dropWhile_Cons_length)
next
  case (Forward isLive)
  then show ?thesis using assms length_leave [of isLive "h_current st" "h_backStack st"]
    by (auto simp: nav_ok_def go_forward_def split: list.splits dest!: dropWhile_Cons_length)
next
  case (Prune isLive)
  have "length (filter isLive (h_backStack st)) + length (filter isLive (h_forwardStack st)) \<le> length (h_backStack st) + length (h_forwardStack st)"
    by (intro add_mono length_filter_le)
  with Prune assms show ?thesis by (simp add: nav_ok_def prune_def Let_def)
qed

interpretation nav_machine: invariant_machine "nav_step equal landed" "\<lambda>_. True" nav_ok for equal landed
  by unfold_locales (rule nav_step_ok)

text \<open>The history stays bounded: after any sequence of visits, steps and prunings the two stacks hold at
  most 50 entries together, although only a visit drops the oldest entry and a step forward does not.\<close>
theorem nav_bounded:
  "length (h_backStack (foldl (nav_step equal landed) new_history ops)) +
   length (h_forwardStack (foldl (nav_step equal landed) new_history ops)) \<le> CAP"
proof -
  have "nav_ok (new_history :: 'a NavHistoryStore)" by (simp add: nav_ok_def new_history_def)
  from nav_machine.inv_run [OF this, of ops equal landed] show ?thesis by (simp add: nav_ok_def list_all_iff)
qed

section \<open>Back and forward\<close>

text \<open>A step back is undone by a step forward: from a live location, after a step back to \<open>x\<close> and the
  landing there, a step forward returns to the location, the forward stack is as before, and the back
  stack has lost at most entries that are gone.\<close>
theorem back_then_forward:
  assumes "h_current st = Some c" and "isLive c" and "go_back isLive st = (Some x, st1)" and "landed x x"
    and "go_forward isLive (snd (record_entry equal landed x st1)) = (y, st2)"
  shows "y = Some c \<and> h_forwardStack st2 = h_forwardStack st \<and>
    h_backStack st2 = dropWhile (\<lambda>e. isLive e = False) (h_backStack st) \<and> isLive x"
proof -
  from assms(3) obtain rest where r: "dropWhile (\<lambda>e. \<not> isLive e) (h_backStack st) = x # rest"
    and st1: "st1 = st\<lparr>h_backStack := rest, h_forwardStack := c # h_forwardStack st, h_current := Some x, h_suppress := Some x\<rparr>"
    using assms(1,2) by (auto simp: go_back_def leave_def split: list.splits)
  have live: "isLive x" using r by (metis (mono_tags, lifting) hd_dropWhile list.sel(1) list.simps(3))
  have "snd (record_entry equal landed x st1) = st1\<lparr>h_suppress := None, h_current := Some x\<rparr>"
    using assms(4) by (simp add: record_entry_def st1)
  with assms(5) have "y = Some c \<and> h_forwardStack st2 = h_forwardStack st \<and> h_backStack st2 = x # rest"
    using assms(2) live by (auto simp: go_forward_def leave_def st1)
  with r live show ?thesis by simp
qed

definition nav_at :: "string \<Rightarrow> NavEntry" where
  "nav_at s = \<lparr>n_nodeId = js s, n_projectId = js ''p'', n_treeId = js ''t''\<rparr>"

definition demo_history :: "NavEntry NavHistoryStore" where
  "demo_history = foldl (nav_step sameEntry sameNode) new_history [Record (nav_at ''a''), Record (nav_at ''b''), Record (nav_at ''c'')]"

lemma demo_history_eq:
  "demo_history = \<lparr>h_backStack = [nav_at ''b'', nav_at ''a''], h_forwardStack = [], h_current = Some (nav_at ''c''), h_suppress = None\<rparr>"
  by (simp add: demo_history_def record_entry_def new_history_def nav_at_def sameEntry_def CAP_def)

theorem back_then_forward_witness:
  "fst (go_forward (\<lambda>_. True) (snd (record_entry sameEntry sameNode (nav_at ''b'') (snd (go_back (\<lambda>_. True) demo_history))))) = Some (nav_at ''c'')"
proof -
  have b: "go_back (\<lambda>_. True) demo_history = (Some (nav_at ''b''), snd (go_back (\<lambda>_. True) demo_history))"
    by (simp add: go_back_def demo_history_eq)
  have c: "h_current demo_history = Some (nav_at ''c'')" by (simp add: demo_history_eq)
  from back_then_forward [OF c TrueI b _ prod.collapse [symmetric]] show ?thesis by (simp add: sameNode_def)
qed

end
