(* ===== verification/Pane_Items.thy ===== *)
theory Pane_Items
  imports Js_Value Uri_Component "HOL-Library.Word"
begin

unbundle bit_operations_syntax

text \<open>
  The items of the pane strip (\<^verbatim>\<open>frontend/src/state/paneItems.ts\<close>): the validator of stored items, the
  identifiers of panes, titles, and the source location at the end of a file path. \<open>uniquePaneId\<close>
  (random) and \<open>normalizeBrowserUrl\<close> (the browser's URL parser) are not modelled. The theorems say
  which identifiers determine what they were made from, and that a location appended to a path is
  read back.
\<close>

section \<open>Identifiers\<close>

text \<open>\<open>hash ^= unit; hash = Math.imul(hash, 0x01000193)\<close> on 32 bits, and \<open>toString(36)\<close>.\<close>

definition fnv_step :: "32 word \<Rightarrow> nat \<Rightarrow> 32 word" where
  "fnv_step h c = (h XOR word_of_nat c) * 0x01000193"

definition digit36 :: "nat \<Rightarrow> nat" where
  "digit36 d = (if d < 10 then 48 + d else 87 + d)"

fun base36 :: "nat \<Rightarrow> jstr" where
  "base36 n = (if n < 36 then [digit36 n] else base36 (n div 36) @ [digit36 (n mod 36)])"

declare base36.simps [simp del]

definition fnv1a :: "jstr \<Rightarrow> jstr" where
  "fnv1a s = base36 (unat (foldl fnv_step 0x811c9dc5 s))"

datatype singleton_kind = FileKind | DiffKind

definition singleton_name :: "singleton_kind \<Rightarrow> jstr" where
  "singleton_name k = (case k of FileKind \<Rightarrow> js ''file'' | DiffKind \<Rightarrow> js ''diff'')"

definition singletonPaneId :: "singleton_kind \<Rightarrow> jstr \<Rightarrow> jstr \<Rightarrow> jstr" where
  "singletonPaneId k projectId filePath =
     js ''pane:'' @ singleton_name k @ js '':'' @ fnv1a (projectId @ [0] @ filePath)"

text \<open>The encoded identifiers; \<open>None\<close> is the \<open>URIError\<close> of a lone surrogate.\<close>

definition agentRunPaneId :: "jstr \<Rightarrow> jstr \<Rightarrow> jstr option" where
  "agentRunPaneId backend run = (case (encodeURIComponent backend, encodeURIComponent run) of
     (Some b, Some r) \<Rightarrow> Some (js ''pane:agent-run:'' @ b @ js '':'' @ r) | _ \<Rightarrow> None)"

definition pagePaneId :: "jstr \<Rightarrow> jstr \<Rightarrow> jstr \<Rightarrow> jstr option" where
  "pagePaneId backend workspace page =
     (case (encodeURIComponent backend, encodeURIComponent workspace, encodeURIComponent page) of
        (Some b, Some w, Some p) \<Rightarrow> Some (js ''pane:page:'' @ b @ js '':'' @ w @ js '':'' @ p) | _ \<Rightarrow> None)"

definition workflowRunPaneId :: "jstr \<Rightarrow> jstr \<Rightarrow> jstr option" where
  "workflowRunPaneId backend run = (case (encodeURIComponent backend, encodeURIComponent run) of
     (Some b, Some r) \<Rightarrow> Some (js ''pane:workflow-run:'' @ b @ js '':'' @ r) | _ \<Rightarrow> None)"

section \<open>The validator\<close>

definition MAX_SAFE_INTEGER :: int where
  "MAX_SAFE_INTEGER = 9007199254740991"

definition KINDS :: "jstr list" where
  "KINDS = map js [''launcher'', ''files'', ''review'', ''file'', ''diff'', ''terminal'', ''browser'',
     ''agent-run'', ''page'', ''workflow-run'']"

fun isPositiveSafeInteger :: "jsval \<Rightarrow> bool" where
  "isPositiveSafeInteger (JNum n) = (n \<le> MAX_SAFE_INTEGER \<and> 0 < n)"
| "isPositiveSafeInteger v = False"

fun is_str :: "jsval \<Rightarrow> bool" where
  "is_str (JStr s) = True"
| "is_str v = False"

fun is_num :: "jsval \<Rightarrow> bool" where
  \<comment> \<open>\<open>typeof v === 'number'\<close>, and with \<open>Number.isFinite(v)\<close>\<close>
  "is_num (JNum n) = True"
| "is_num (JNotFinite k) = True"
| "is_num v = False"

fun is_finite :: "jsval \<Rightarrow> bool" where
  "is_finite (JNum n) = True"
| "is_finite v = False"

abbreviation kind_is :: "jsval \<Rightarrow> string \<Rightarrow> bool" where
  "kind_is v k \<equiv> field v ''kind'' = JStr (js k)"

definition base_ok :: "jsval \<Rightarrow> bool" where
  "base_ok v \<longleftrightarrow> is_object v \<and> is_str (field v ''id'') \<and> field v ''kind'' \<in> set (map JStr KINDS)
     \<and> is_str (field v ''projectId'') \<and> (is_str (field v ''treeId'') \<or> field v ''treeId'' = JNull)
     \<and> is_str (field v ''title'') \<and> is_num (field v ''createdAt'')
     \<and> (field v ''width'' = JUndefined \<or> is_finite (field v ''width''))"

definition location_ok :: "jsval \<Rightarrow> bool" where
  "location_ok loc \<longleftrightarrow> loc = JUndefined \<or> is_object loc \<and> isPositiveSafeInteger (field loc ''line'')
     \<and> (field loc ''column'' = JUndefined \<or> isPositiveSafeInteger (field loc ''column''))"

definition file_ok :: "jsval \<Rightarrow> bool" where
  "file_ok v \<longleftrightarrow>
     (field v ''originChatNodeId'' = JUndefined \<or> is_str (field v ''originChatNodeId''))
   \<and> is_str (field v ''filePath'')
   \<and> field v ''viewMode'' \<in> {JStr (js ''rendered''), JStr (js ''source'')}
   \<and> field v ''diskState'' \<in> {JUndefined, JStr (js ''changed''), JStr (js ''removed'')}
   \<and> (field v ''sourceReferencePath'' = JUndefined
      \<or> is_str (field v ''sourceReferencePath'') \<and> js_truthy (field v ''sourceReferencePath'')
        \<and> field v ''sourceLocation'' \<noteq> JUndefined)
   \<and> location_ok (field v ''sourceLocation'')"

text \<open>\<open>isPaneItem\<close>; \<open>None\<close> is the exception \<open>pagePaneId\<close> raises for an identifier that cannot be encoded.\<close>

definition isPaneItem :: "jsval \<Rightarrow> bool option" where
  "isPaneItem v =
     (if \<not> base_ok v then Some False
      else if kind_is v ''launcher'' then Some (field v ''anchorNodeId'' = JUndefined \<or> is_str (field v ''anchorNodeId''))
      else if kind_is v ''files'' \<or> kind_is v ''review'' then Some True
      else if kind_is v ''file'' then Some (file_ok v)
      else if kind_is v ''diff'' then Some (is_str (field v ''filePath''))
      else if kind_is v ''terminal'' then Some (is_str (field v ''surfaceId'') \<and> is_str (field v ''cwd''))
      else if kind_is v ''browser'' then Some (is_str (field v ''surfaceId'') \<and> is_str (field v ''url''))
      else if kind_is v ''page'' then
        (case (field v ''backendConnectionId'', field v ''workspaceId'', field v ''pageId'') of
           (JStr b, JStr w, JStr p) \<Rightarrow> map_option (\<lambda>i. field v ''id'' = JStr i) (pagePaneId b w p)
         | _ \<Rightarrow> Some False)
      else Some (is_str (field v ''backendConnectionId'') \<and> is_str (field v ''runId'')))"

section \<open>Titles\<close>

definition last_segment :: "jstr \<Rightarrow> jstr" where
  \<comment> \<open>\<open>filePath.split('/').filter(Boolean).pop() ?? filePath\<close>\<close>
  "last_segment path = (case filter (\<lambda>s. s \<noteq> []) (split_on 47 path) of [] \<Rightarrow> path | segs \<Rightarrow> last segs)"

fun text_of :: "jsval \<Rightarrow> jstr" where
  "text_of (JStr s) = s"
| "text_of v = []"

definition paneItemTitle :: "jsval \<Rightarrow> jstr" where
  "paneItemTitle v =
     (if js_trim (text_of (field v ''title'')) \<noteq> [] then text_of (field v ''title'')
      else if kind_is v ''file'' \<or> kind_is v ''diff'' then last_segment (text_of (field v ''filePath''))
      else if kind_is v ''launcher'' then js ''New pane''
      else if kind_is v ''files'' then js ''Files''
      else if kind_is v ''review'' then js ''Review''
      else if kind_is v ''agent-run'' then js ''Agent Run''
      else if kind_is v ''page'' then js ''Page''
      else if kind_is v ''workflow-run'' then js ''Workflow''
      else if kind_is v ''terminal'' then js ''Terminal'' else js ''Browser'')"

section \<open>Source locations\<close>

definition is_digit_unit :: "nat \<Rightarrow> bool" where
  "is_digit_unit c \<longleftrightarrow> 48 \<le> c \<and> c \<le> 57"

definition colon_digits :: "jstr \<Rightarrow> (jstr \<times> jstr) option" where
  \<comment> \<open>a last group \<open>:(\d+)$\<close>: the text before its colon, and its digits\<close>
  "colon_digits s =
     (let ds = rev (takeWhile is_digit_unit (rev s)); before = rev (dropWhile is_digit_unit (rev s))
      in if ds \<noteq> [] \<and> before \<noteq> [] \<and> last before = 58 then Some (butlast before, ds) else None)"

definition digits_value :: "jstr \<Rightarrow> int" where
  "digits_value ds = int (foldl (\<lambda>v c. 10 * v + (c - 48)) 0 ds)"

record location =
  l_filePath :: jstr
  l_line :: "int option"
  l_column :: "int option"

definition plain_path :: "jstr \<Rightarrow> location" where
  "plain_path raw = \<lparr>l_filePath = raw, l_line = None, l_column = None\<rparr>"

definition location_match :: "jstr \<Rightarrow> (jstr \<times> jstr \<times> jstr option) option" where
  \<comment> \<open>\<open>raw.match(/:(\d+)(?::(\d+))?$/)\<close>, leftmost: the prefix and the groups\<close>
  "location_match raw = (case colon_digits raw of None \<Rightarrow> None
     | Some (p, d) \<Rightarrow> (case colon_digits p of None \<Rightarrow> Some (p, d, None) | Some (q, e) \<Rightarrow> Some (q, e, Some d)))"

definition safe_position :: "jstr \<Rightarrow> bool" where
  "safe_position ds \<longleftrightarrow> digits_value ds \<le> MAX_SAFE_INTEGER \<and> 1 \<le> digits_value ds"

definition is_letter_unit :: "nat \<Rightarrow> bool" where
  "is_letter_unit c \<longleftrightarrow> 97 \<le> c \<and> c \<le> 122 \<or> 65 \<le> c \<and> c \<le> 90"

definition parseSourceLocation :: "jstr \<Rightarrow> location" where
  "parseSourceLocation raw = (case location_match raw of None \<Rightarrow> plain_path raw
     | Some (filePath, lineStr, colStr) \<Rightarrow>
         if filePath = [] \<or> colon_digits filePath \<noteq> None then plain_path raw
         else if \<not> safe_position lineStr then plain_path raw
         else if length filePath = 1 \<and> is_letter_unit (hd filePath) then plain_path raw
         else case colStr of
             Some c \<Rightarrow> if \<not> safe_position c then plain_path raw
               else \<lparr>l_filePath = filePath, l_line = Some (digits_value lineStr), l_column = Some (digits_value c)\<rparr>
           | None \<Rightarrow> \<lparr>l_filePath = filePath, l_line = Some (digits_value lineStr), l_column = None\<rparr>)"

section \<open>Reading a location back\<close>

lemma decimal_is_digit: "list_all is_digit_unit (decimal n)"
  using decimal_digits by (auto simp: list_all_iff is_digit_unit_def)

lemma colon_digits_append:
  assumes "list_all is_digit_unit ds" and "ds \<noteq> []"
  shows "colon_digits (p @ 58 # ds) = Some (p, ds)"
proof -
  have all: "\<And>c. c \<in> set (rev ds) \<Longrightarrow> is_digit_unit c" using assms(1) by (simp add: list_all_iff)
  have colon: "\<not> is_digit_unit 58" by (simp add: is_digit_unit_def)
  have eq: "rev (p @ 58 # ds) = rev ds @ (58 # rev p)" by simp
  have "takeWhile is_digit_unit (rev ds @ (58 # rev p)) = rev ds"
    using all colon by (subst takeWhile_append2) auto
  moreover have "dropWhile is_digit_unit (rev ds @ (58 # rev p)) = 58 # rev p"
    using all colon by (subst dropWhile_append2) auto
  ultimately show ?thesis unfolding colon_digits_def eq Let_def using assms(2) by simp
qed

lemma digits_value_decimal: "digits_value (decimal n) = int n"
  by (simp add: digits_value_def decimal_value)

definition position_text :: "nat \<Rightarrow> jstr" where
  "position_text n = 58 # decimal n"

lemma colon_digits_position: "colon_digits (p @ position_text n) = Some (p, decimal n)"
  by (simp add: position_text_def colon_digits_append decimal_is_digit)

text \<open>A source location is read back from the end of a path: appending \<open>:line\<close> or \<open>:line:column\<close> with positive
  safe integers to a path that does not itself end in such a group and is not a drive letter gives a text whose
  parse is the path with that location.\<close>
theorem source_location_roundtrip:
  assumes "path \<noteq> []" and "colon_digits path = None" and "length path = 1 \<longrightarrow> is_letter_unit (hd path) = False"
    and "0 < line" and "int line \<le> MAX_SAFE_INTEGER" and "0 < column" and "int column \<le> MAX_SAFE_INTEGER"
  shows "parseSourceLocation (path @ position_text line) =
      \<lparr>l_filePath = path, l_line = Some (int line), l_column = None\<rparr> \<and>
    parseSourceLocation (path @ position_text line @ position_text column) =
      \<lparr>l_filePath = path, l_line = Some (int line), l_column = Some (int column)\<rparr>"
proof -
  have safe: "safe_position (decimal line)" "safe_position (decimal column)"
    using assms(4-7) by (simp_all add: safe_position_def digits_value_decimal)
  have "location_match (path @ position_text line) = Some (path, decimal line, None)"
    by (simp add: location_match_def colon_digits_position assms(2))
  moreover have "location_match ((path @ position_text line) @ position_text column) = Some (path, decimal line, Some (decimal column))"
    unfolding location_match_def colon_digits_position by (simp add: colon_digits_position)
  ultimately show ?thesis using assms(1-3) safe
    by (auto simp: parseSourceLocation_def digits_value_decimal)
qed

theorem source_location_roundtrip_witness:
  "parseSourceLocation (js ''a.ts'' @ position_text 42 @ position_text 7) =
     \<lparr>l_filePath = js ''a.ts'', l_line = Some 42, l_column = Some 7\<rparr>"
proof -
  have "colon_digits (js ''a.ts'') = None" by (simp add: colon_digits_def js_def is_digit_unit_def)
  then show ?thesis using source_location_roundtrip [of "js ''a.ts''" 42 7]
    by (simp add: MAX_SAFE_INTEGER_def js_def)
qed

section \<open>What an identifier determines\<close>

lemma no_colon: "units s \<Longrightarrow> encodeURIComponent s = Some e \<Longrightarrow> 58 \<notin> set e"
  using encoded_units [of s e 58] by (auto simp: unescaped_def js_def)

lemma encode_inj: "units s \<Longrightarrow> units t \<Longrightarrow> encodeURIComponent s = Some e \<Longrightarrow> encodeURIComponent t = Some e \<Longrightarrow> s = t"
  using decode_encode by (metis option.inject)

lemma split_at_colon: "58 \<notin> set b \<Longrightarrow> 58 \<notin> set c \<Longrightarrow> b @ 58 # r = c @ 58 # q \<longleftrightarrow> b = c \<and> r = (q :: jstr)"
  by (induction b arbitrary: c; case_tac c) auto

lemma js_colon: "js '':'' = [58]"
  by (simp add: js_def)

lemma pagePaneId_inj:
  assumes u: "units b" "units w" "units p" "units b'" "units w'" "units p'"
    and i: "pagePaneId b w p = Some i" "pagePaneId b' w' p' = Some i"
  shows "b = b' \<and> w = w' \<and> p = p'"
proof -
  from i obtain eb ew ep where e: "encodeURIComponent b = Some eb" "encodeURIComponent w = Some ew" "encodeURIComponent p = Some ep"
    and ie: "i = js ''pane:page:'' @ eb @ js '':'' @ ew @ js '':'' @ ep"
    by (auto simp: pagePaneId_def split: option.splits)
  from i obtain fb fw fp where f: "encodeURIComponent b' = Some fb" "encodeURIComponent w' = Some fw" "encodeURIComponent p' = Some fp"
    and fe: "i = js ''pane:page:'' @ fb @ js '':'' @ fw @ js '':'' @ fp"
    by (auto simp: pagePaneId_def split: option.splits)
  have nc: "58 \<notin> set eb" "58 \<notin> set ew" "58 \<notin> set fb" "58 \<notin> set fw" using no_colon u e f by metis+
  from ie fe have "eb @ 58 # ew @ 58 # ep = fb @ 58 # fw @ 58 # fp" by (simp add: js_colon)
  then have "eb = fb \<and> ew = fw \<and> ep = fp" using nc by (simp add: split_at_colon)
  then show ?thesis using encode_inj u e f by metis
qed

lemma accepted_page:
  assumes "isPaneItem v = Some True" and "kind_is v ''page''"
  obtains b w p i where "field v ''backendConnectionId'' = JStr b" "field v ''workspaceId'' = JStr w"
    "field v ''pageId'' = JStr p" "pagePaneId b w p = Some i" "field v ''id'' = JStr i"
proof -
  have "base_ok v" using assms(1) by (auto simp: isPaneItem_def split: if_splits)
  then have "(case (field v ''backendConnectionId'', field v ''workspaceId'', field v ''pageId'') of
           (JStr b, JStr w, JStr p) \<Rightarrow> map_option (\<lambda>i. field v ''id'' = JStr i) (pagePaneId b w p)
         | _ \<Rightarrow> Some False) = Some True"
    using assms by (simp add: isPaneItem_def)
  then show ?thesis using that by (auto split: jsval.splits)
qed

text \<open>A page pane is identified by its page: two stored page items that the validator accepts and that share an
  identifier belong to the same backend, workspace and page, so the items map never confuses two pages.\<close>
theorem page_pane_identity:
  assumes "isPaneItem v = Some True" and "kind_is v ''page''"
    and "isPaneItem w = Some True" and "kind_is w ''page''"
    and "list_all (\<lambda>k. units (text_of (field v k)) \<and> units (text_of (field w k)))
      [''backendConnectionId'', ''workspaceId'', ''pageId'']"
    and "field v ''id'' = field w ''id''"
  shows "field v ''backendConnectionId'' = field w ''backendConnectionId'' \<and>
    field v ''workspaceId'' = field w ''workspaceId'' \<and> field v ''pageId'' = field w ''pageId''"
proof -
  obtain b k p i where v: "field v ''backendConnectionId'' = JStr b" "field v ''workspaceId'' = JStr k"
    "field v ''pageId'' = JStr p" "pagePaneId b k p = Some i" "field v ''id'' = JStr i"
    using accepted_page [OF assms(1,2)] .
  obtain b' k' p' i' where w: "field w ''backendConnectionId'' = JStr b'" "field w ''workspaceId'' = JStr k'"
    "field w ''pageId'' = JStr p'" "pagePaneId b' k' p' = Some i'" "field w ''id'' = JStr i'"
    using accepted_page [OF assms(3,4)] .
  have i: "i' = i" using assms(6) v(5) w(5) by simp
  have "units b" "units k" "units p" "units b'" "units k'" "units p'" using assms(5) v w by simp_all
  from pagePaneId_inj [OF this v(4) w(4) [unfolded i]] have "b = b' \<and> k = k' \<and> p = p'" .
  then show ?thesis by (simp add: v w)
qed

definition demo_page :: "string \<Rightarrow> jsval" where
  "demo_page t = JObj [(js ''id'', JStr (js ''pane:page:b:w:p'')), (js ''kind'', JStr (js ''page'')),
     (js ''projectId'', JStr (js ''x'')), (js ''treeId'', JNull), (js ''title'', JStr (js t)), (js ''createdAt'', JNum 1),
     (js ''backendConnectionId'', JStr (js ''b'')), (js ''workspaceId'', JStr (js ''w'')), (js ''pageId'', JStr (js ''p''))]"

lemma demo_page_ok: "isPaneItem (demo_page t) = Some True"
proof -
  have "pagePaneId (js ''b'') (js ''w'') (js ''p'') = Some (js ''pane:page:b:w:p'')"
    by (simp add: pagePaneId_def js_def unescaped_def)
  then show ?thesis by (simp add: isPaneItem_def base_ok_def demo_page_def KINDS_def)
qed

theorem page_pane_identity_witness:
  "field (demo_page ''one'') ''pageId'' = field (demo_page ''two'') ''pageId''"
proof -
  have u: "list_all (\<lambda>k. units (text_of (field (demo_page ''one'') k)) \<and> units (text_of (field (demo_page ''two'') k)))
      [''backendConnectionId'', ''workspaceId'', ''pageId'']" by (simp add: demo_page_def) (simp add: js_def)
  have k: "kind_is (demo_page t) ''page''" for t by (simp add: demo_page_def)
  have i: "field (demo_page ''one'') ''id'' = field (demo_page ''two'') ''id''" by (simp add: demo_page_def)
  show ?thesis using page_pane_identity [OF demo_page_ok k demo_page_ok k u i] by blast
qed

text \<open>A file or diff pane is identified by a 32-bit hash only: two different paths of one workspace get the
  same identifier, so opening the second diff focuses the pane of the first.\<close>
theorem singleton_pane_collision:
  "singletonPaneId DiffKind (js ''p:t'') (js ''bara/pomelo'') = singletonPaneId DiffKind (js ''p:t'') (js ''baka/zavoti'')
   \<and> js ''bara/pomelo'' \<noteq> js ''baka/zavoti''"
  by (simp add: singletonPaneId_def fnv1a_def fnv_step_def js_def)

end
