(* ===== verification/Pane_Slots.thy ===== *)
theory Pane_Slots
  imports Pane_Items "HOL-Library.AList"
begin

text \<open>
  The open panes of every tree (\<^verbatim>\<open>frontend/src/state/paneState.ts\<close>). The two maps of the hook, from the
  key of a slot to its open panes and to its focused pane, and the map of the pane items are
  association lists; an entry \<open>null\<close> of the focus map is \<open>Some None\<close>. Each callback is a function on the
  state, with the key of the active slot as an argument where the source reads it from a ref. The
  theorems say that the focused pane of a slot is one of its open panes, where this fails, and what
  moving, closing and pruning panes do.
\<close>

section \<open>State\<close>

record pane_state =
  p_open :: "(jstr \<times> jstr list) list"
  p_focused :: "(jstr \<times> jstr option) list"
  p_items :: "(jstr \<times> jsval) list"
  p_focusNonce :: nat

definition paneSlotKey :: "jstr \<Rightarrow> jstr option \<Rightarrow> jstr" where
  "paneSlotKey projectId treeId = projectId @ js ''::'' @ default_to treeId (js ''workspace'')"

definition panes_of :: "pane_state \<Rightarrow> jstr \<Rightarrow> jstr list" where
  \<comment> \<open>\<open>openPanesMap[key] ?? []\<close>\<close>
  "panes_of st key = default_to (map_of (p_open st) key) []"

definition focus_of :: "pane_state \<Rightarrow> jstr \<Rightarrow> jstr option" where
  \<comment> \<open>\<open>focusedPaneMap[key] ?? null\<close>\<close>
  "focus_of st key = default_to (map_of (p_focused st) key) None"

definition put_panes :: "jstr \<Rightarrow> jstr list \<Rightarrow> pane_state \<Rightarrow> pane_state" where
  "put_panes key ps st = st\<lparr>p_open := AList.update key ps (p_open st)\<rparr>"

definition put_focus :: "jstr \<Rightarrow> jstr option \<Rightarrow> pane_state \<Rightarrow> pane_state" where
  "put_focus key f st = st\<lparr>p_focused := AList.update key f (p_focused st)\<rparr>"

section \<open>Pruning\<close>

definition has_dead :: "jstr list \<Rightarrow> jstr list \<Rightarrow> bool" where
  "has_dead dead panes \<longleftrightarrow> list_ex (\<lambda>p. p \<in> set dead) panes"

definition prunePaneMaps ::
  "(jstr \<times> jstr list) list \<Rightarrow> (jstr \<times> jstr option) list \<Rightarrow> jstr list \<Rightarrow> (jstr \<times> jstr list) list \<times> (jstr \<times> jstr option) list" where
  "prunePaneMaps openMap focusMap dead =
     (if dead = [] then (openMap, focusMap)
      else if \<not> list_ex (\<lambda>(k, panes). has_dead dead panes) openMap then (openMap, focusMap)
      else let nextOpen = map (\<lambda>(k, panes). (k, if has_dead dead panes then filter (\<lambda>p. p \<notin> set dead) panes else panes)) openMap
           in (nextOpen, map (\<lambda>(k, focused). (k, case focused of None \<Rightarrow> None
                | Some f \<Rightarrow> if f \<in> set dead
                    then (let remaining = default_to (map_of nextOpen k) []
                          in if remaining \<noteq> [] then Some (last remaining) else None)
                    else focused)) focusMap))"

definition prunePaneIds :: "jstr list \<Rightarrow> pane_state \<Rightarrow> pane_state" where
  "prunePaneIds dead st = (let (nextOpen, nextFocused) = prunePaneMaps (p_open st) (p_focused st) dead
     in st\<lparr>p_open := nextOpen, p_focused := nextFocused\<rparr>)"

section \<open>What is shown\<close>

definition is_browser :: "(jstr \<times> jsval) list \<Rightarrow> jstr \<Rightarrow> bool" where
  \<comment> \<open>\<open>items[id]?.kind === 'browser'\<close>\<close>
  "is_browser items i = (case map_of items i of None \<Rightarrow> False | Some v \<Rightarrow> kind_is v ''browser'')"

definition singlePageVisiblePanes :: "jstr list \<Rightarrow> (jstr \<times> jsval) list \<Rightarrow> jstr option \<Rightarrow> jstr list" where
  "singlePageVisiblePanes panes items focused =
     (let tabs = filter (\<lambda>i. \<not> is_browser items i) panes
      in if length tabs \<le> 1 then panes
         else let page = (case focused of Some f \<Rightarrow> if f \<noteq> [] \<and> f \<in> set tabs then f else last tabs | None \<Rightarrow> last tabs)
              in filter (\<lambda>i. i = page \<or> is_browser items i) panes)"

definition openPanes :: "bool \<Rightarrow> jstr option \<Rightarrow> pane_state \<Rightarrow> jstr list" where
  "openPanes singlePage key st = (case key of None \<Rightarrow> [] | Some k \<Rightarrow>
     if singlePage then singlePageVisiblePanes (panes_of st k) (p_items st) (focus_of st k) else panes_of st k)"

definition tabPanes :: "bool \<Rightarrow> jstr option \<Rightarrow> pane_state \<Rightarrow> jstr list option" where
  "tabPanes singlePage key st = (if singlePage
     then Some (filter (\<lambda>i. \<not> is_browser (p_items st) i) (case key of None \<Rightarrow> [] | Some k \<Rightarrow> panes_of st k)) else None)"

definition pagePane :: "bool \<Rightarrow> jstr option \<Rightarrow> pane_state \<Rightarrow> jstr" where
  "pagePane singlePage key st = (if singlePage
     then default_to (find (\<lambda>i. \<not> is_browser (p_items st) i) (openPanes singlePage key st)) [] else [])"

definition paneScopeKey :: "(jstr \<times> jstr option) option \<Rightarrow> jstr \<Rightarrow> jstr" where
  "paneScopeKey project page =
     (let base = (case project of None \<Rightarrow> [] | Some (i, t) \<Rightarrow> i) @ js ''::'' @
                 (case project of None \<Rightarrow> [] | Some (i, t) \<Rightarrow> default_to t [])
      in if page \<noteq> [] then base @ js ''::'' @ page else base)"

section \<open>Slots\<close>

definition setOpenPanes :: "jstr option \<Rightarrow> (jstr list \<Rightarrow> jstr list) \<Rightarrow> pane_state \<Rightarrow> pane_state" where
  "setOpenPanes key f st = (case key of None \<Rightarrow> st | Some k \<Rightarrow> put_panes k (f (panes_of st k)) st)"

definition setFocusedPane :: "jstr option \<Rightarrow> (jstr option \<Rightarrow> jstr option) \<Rightarrow> pane_state \<Rightarrow> pane_state" where
  "setFocusedPane key f st = (case key of None \<Rightarrow> st | Some k \<Rightarrow> put_focus k (f (focus_of st k)) st)"

definition retainProjectPaneKeys :: "jstr option \<Rightarrow> pane_state \<Rightarrow> pane_state" where
  "retainProjectPaneKeys projectId st =
     (let keep = (\<lambda>k. case projectId of None \<Rightarrow> False | Some p \<Rightarrow> p \<noteq> [] \<and> starts_with k (p @ js ''::''))
      in st\<lparr>p_open := filter (\<lambda>(k, v). keep k) (p_open st), p_focused := filter (\<lambda>(k, v). keep k) (p_focused st)\<rparr>)"

definition setPaneSlot :: "jstr \<Rightarrow> jstr \<Rightarrow> jstr list \<Rightarrow> jstr option \<Rightarrow> pane_state \<Rightarrow> pane_state" where
  "setPaneSlot projectId treeId panes focused st =
     (let key = projectId @ js ''::'' @ treeId in put_focus key focused (put_panes key panes st))"

definition ensurePaneSlot :: "jstr \<Rightarrow> jstr \<Rightarrow> jstr \<Rightarrow> pane_state \<Rightarrow> pane_state" where
  "ensurePaneSlot projectId treeId root st =
     (let key = projectId @ js ''::'' @ treeId;
          st1 = (if panes_of st key \<noteq> [] then st else put_panes key [root] st)
      in if truthy_str (focus_of st key) then st1 else put_focus key (Some root) st1)"

definition add_pane :: "jstr \<Rightarrow> jstr list \<Rightarrow> jstr list" where
  "add_pane n ps = (if n \<in> set ps then ps else ps @ [n])"

definition openPane :: "jstr option \<Rightarrow> jstr \<Rightarrow> pane_state \<Rightarrow> pane_state" where
  "openPane key n st = setFocusedPane key (\<lambda>_. Some n) (setOpenPanes key (add_pane n) st)"

definition openPaneInTree :: "jstr \<Rightarrow> jstr option \<Rightarrow> jstr \<Rightarrow> pane_state \<Rightarrow> pane_state" where
  "openPaneInTree projectId treeId n st =
     (let key = paneSlotKey projectId treeId; cur = panes_of st key
      in put_focus key (Some n) (if n \<in> set cur then st else put_panes key (cur @ [n]) st))"

definition appendPaneInTree :: "jstr \<Rightarrow> jstr \<Rightarrow> jstr \<Rightarrow> pane_state \<Rightarrow> pane_state" where
  "appendPaneInTree projectId treeId n st =
     (let key = projectId @ js ''::'' @ treeId; cur = panes_of st key
      in if n \<in> set cur then st else put_panes key (cur @ [n]) st)"

definition focus_after_close :: "jstr list \<Rightarrow> jstr \<Rightarrow> jstr option" where
  \<comment> \<open>\<open>prev[prev.indexOf(nodeId) - 1] ?? next[0] ?? null\<close>\<close>
  "focus_after_close prev n = (let nxt = filter (\<lambda>i. i \<noteq> n) prev;
       left = (case find_index (\<lambda>i. i = n) prev of Some (Suc i) \<Rightarrow> Some (prev ! i) | _ \<Rightarrow> None)
     in nullish left (case nxt of [] \<Rightarrow> None | x # _ \<Rightarrow> Some x))"

definition closePane :: "jstr option \<Rightarrow> jstr \<Rightarrow> pane_state \<Rightarrow> pane_state" where
  "closePane key n st = (case key of None \<Rightarrow> st | Some k \<Rightarrow>
     let prev = panes_of st k
     in setFocusedPane key (\<lambda>cur. if cur \<noteq> Some n then cur else focus_after_close prev n)
          (setOpenPanes key (filter (\<lambda>i. i \<noteq> n)) st))"

definition focusPane :: "jstr option \<Rightarrow> jstr \<Rightarrow> pane_state \<Rightarrow> pane_state" where
  "focusPane key n st = (let st1 = setFocusedPane key (\<lambda>_. Some n) (setOpenPanes key (add_pane n) st)
     in st1\<lparr>p_focusNonce := p_focusNonce st1 + 1\<rparr>)"

definition splice_in :: "nat \<Rightarrow> 'a \<Rightarrow> 'a list \<Rightarrow> 'a list" where
  "splice_in i x xs = take i xs @ x # drop i xs"

definition splice_out :: "nat \<Rightarrow> 'a list \<Rightarrow> 'a list" where
  "splice_out i xs = take i xs @ drop (Suc i) xs"

definition reorder :: "jstr \<Rightarrow> jstr \<Rightarrow> jstr list \<Rightarrow> jstr list" where
  "reorder fromId toId prev =
     (case (find_index (\<lambda>i. i = fromId) prev, find_index (\<lambda>i. i = toId) prev) of
        (Some fromIdx, Some toIdx) \<Rightarrow>
          let nxt = splice_out fromIdx prev
          in (case find_index (\<lambda>i. i = toId) nxt of
                Some insertAt \<Rightarrow> splice_in (insertAt + (if fromIdx < toIdx then 1 else 0)) fromId nxt
              | None \<Rightarrow> prev)
      | _ \<Rightarrow> prev)"

definition reorderPane :: "jstr option \<Rightarrow> jstr \<Rightarrow> jstr \<Rightarrow> pane_state \<Rightarrow> pane_state" where
  "reorderPane key fromId toId st = (if fromId = toId then st else setOpenPanes key (reorder fromId toId) st)"

section \<open>Items\<close>

definition obj_members :: "jsval \<Rightarrow> (jstr \<times> jsval) list" where
  "obj_members v = (case v of JObj kvs \<Rightarrow> kvs | _ \<Rightarrow> [])"

definition assign :: "jsval \<Rightarrow> (jstr \<times> jsval) list \<Rightarrow> jsval" where
  \<comment> \<open>\<open>{ ...v, ...members }\<close>\<close>
  "assign v kvs = JObj (foldl (\<lambda>m (k, x). AList.update k x m) (obj_members v) kvs)"

definition registerPaneItem :: "jsval \<Rightarrow> pane_state \<Rightarrow> pane_state" where
  "registerPaneItem item st = st\<lparr>p_items := AList.update (text_of (field item ''id'')) item (p_items st)\<rparr>"

definition updatePaneItem :: "jstr \<Rightarrow> (jstr \<times> jsval) list \<Rightarrow> pane_state \<Rightarrow> pane_state" where
  "updatePaneItem i patch st = (case map_of (p_items st) i of None \<Rightarrow> st
     | Some current \<Rightarrow> st\<lparr>p_items := AList.update i
         (assign current (patch @ [(js ''id'', field current ''id''), (js ''kind'', field current ''kind'')])) (p_items st)\<rparr>)"

definition replacePaneItem :: "jstr \<Rightarrow> jsval \<Rightarrow> pane_state \<Rightarrow> pane_state" where
  "replacePaneItem i item st = (case map_of (p_items st) i of None \<Rightarrow> st
     | Some current \<Rightarrow> st\<lparr>p_items := AList.update i
         (assign item [(js ''id'', JStr i), (js ''width'',
            if has_no_members (field item ''width'') then field current ''width'' else field item ''width'')]) (p_items st)\<rparr>)"

definition removePaneItem :: "jstr \<Rightarrow> pane_state \<Rightarrow> pane_state" where
  "removePaneItem i st = st\<lparr>p_items := AList.delete i (p_items st)\<rparr>"

definition setPaneItemWidth :: "jstr \<Rightarrow> int option \<Rightarrow> pane_state \<Rightarrow> pane_state" where
  "setPaneItemWidth i width st = (case map_of (p_items st) i of None \<Rightarrow> st
     | Some current \<Rightarrow>
         let w = (case width of None \<Rightarrow> JUndefined | Some n \<Rightarrow> JNum n)
         in if field current ''width'' = w then st
            else st\<lparr>p_items := AList.update i
              (case width of None \<Rightarrow> JObj (AList.delete (js ''width'') (obj_members current))
               | Some n \<Rightarrow> assign current [(js ''width'', JNum n)]) (p_items st)\<rparr>)"

text \<open>\<open>readPaneItems\<close> on the parsed store; \<open>None\<close> when the validator throws.\<close>

fun readPaneItems :: "(jstr \<times> jsval) list \<Rightarrow> (jstr \<times> jsval) list \<Rightarrow> (jstr \<times> jsval) list option" where
  "readPaneItems items [] = Some items"
| "readPaneItems items ((i, v) # rest) = (case isPaneItem v of None \<Rightarrow> None
     | Some ok \<Rightarrow> readPaneItems (if ok \<and> field v ''id'' = JStr i then AList.update i v items else items) rest)"

section \<open>The invariant\<close>





named_theorems slot_simps

lemma panes_put [simp]: "panes_of (put_panes k ps st) k' = (if k' = k then ps else panes_of st k')"
  by (simp add: panes_of_def put_panes_def update_conv')

lemma focus_put [simp]: "focus_of (put_focus k f st) k' = (if k' = k then f else focus_of st k')"
  by (simp add: focus_of_def put_focus_def update_conv')

lemma put_other [simp]:
  "panes_of (put_focus k f st) k' = panes_of st k'" "focus_of (put_panes k ps st) k' = focus_of st k'"
  "p_items (put_focus k f st) = p_items st" "p_items (put_panes k ps st) = p_items st"
  by (simp_all add: panes_of_def focus_of_def put_focus_def put_panes_def)




lemma find_index_at: "x \<notin> set xs \<Longrightarrow> find_index (\<lambda>i. i = x) (xs @ x # ys) = Some (length xs)"
  by (induction xs) auto

text \<open>The two shapes of a move: to the right and to the left.\<close>

lemma reorder_right:
  assumes "distinct (a @ f # b @ t # c)"
  shows "reorder f t (a @ f # b @ t # c) = a @ b @ t # f # c"
proof -
  have i: "find_index (\<lambda>i. i = f) (a @ f # b @ t # c) = Some (length a)" using assms by (intro find_index_at) auto
  have j: "find_index (\<lambda>i. i = t) ((a @ f # b) @ t # c) = Some (length (a @ f # b))" using assms by (intro find_index_at) auto
  have k: "find_index (\<lambda>i. i = t) ((a @ b) @ t # c) = Some (length (a @ b))" using assms by (intro find_index_at) auto
  have o: "splice_out (length a) (a @ f # b @ t # c) = (a @ b) @ t # c" by (simp add: splice_out_def)
  show ?thesis using j k by (simp add: reorder_def i o splice_in_def Let_def)
qed

lemma reorder_left:
  assumes "distinct (a @ t # b @ f # c)"
  shows "reorder f t (a @ t # b @ f # c) = a @ f # t # b @ c"
proof -
  have i: "find_index (\<lambda>i. i = f) ((a @ t # b) @ f # c) = Some (length (a @ t # b))" using assms by (intro find_index_at) auto
  have j: "find_index (\<lambda>i. i = t) (a @ t # b @ f # c) = Some (length a)" using assms by (intro find_index_at) auto
  have k: "find_index (\<lambda>i. i = t) (a @ t # b @ c) = Some (length a)" using assms by (intro find_index_at) auto
  have o: "splice_out (length (a @ t # b)) (a @ t # b @ f # c) = a @ t # b @ c" by (simp add: splice_out_def)
  show ?thesis using i k o by (simp add: reorder_def j splice_in_def Let_def)
qed

lemma move_shapes:
  assumes "distinct ps" and "f \<in> set ps" and "t \<in> set ps" and "f \<noteq> t"
  obtains (right) a b c where "ps = a @ f # b @ t # c" | (left) a b c where "ps = a @ t # b @ f # c"
proof -
  from split_list [OF assms(2)] obtain a d where a: "ps = a @ f # d" by blast
  then consider "t \<in> set a" | "t \<in> set d" using assms(3,4) by auto
  then show ?thesis
  proof cases
    case 1
    from split_list [OF this] obtain x y where "a = x @ t # y" by blast
    then show ?thesis using a left by simp
  next
    case 2
    from split_list [OF this] obtain x y where "d = x @ t # y" by blast
    then show ?thesis using a right by simp
  qed
qed



section \<open>Pruning and keeping\<close>

lemma map_of_map_key: "map_of (map (\<lambda>(k, v). (k, g k v)) m) k = map_option (g k) (map_of m k)"
  by (induction m) auto


lemma filter_no_dead: "\<not> has_dead dead ps \<Longrightarrow> filter (\<lambda>p. p \<notin> set dead) ps = ps"
  by (simp add: has_dead_def list_ex_iff filter_id_conv)

lemma no_dead_slot:
  "\<not> list_ex (\<lambda>(k, panes). has_dead dead panes) m \<Longrightarrow> \<not> has_dead dead (default_to (map_of m k) [])"
  by (cases "map_of m k") (auto simp: list_ex_iff has_dead_def dest: map_of_SomeD)

lemma panes_prune: "panes_of (prunePaneIds dead st) k = filter (\<lambda>p. p \<notin> set dead) (panes_of st k)"
proof (cases "dead = [] \<or> \<not> list_ex (\<lambda>(k, panes). has_dead dead panes) (p_open st)")
  case True
  then have "\<not> has_dead dead (panes_of st k)"
    using no_dead_slot [of dead "p_open st" k] by (auto simp: panes_of_def has_dead_def list_ex_iff)
  then show ?thesis using True filter_no_dead [of dead "panes_of st k"]
    by (auto simp: prunePaneIds_def prunePaneMaps_def panes_of_def)
next
  case False
  then show ?thesis
    by (cases "map_of (p_open st) k")
      (auto simp: prunePaneIds_def prunePaneMaps_def panes_of_def Let_def map_of_map_key filter_no_dead)
qed




section \<open>Every operation\<close>







section \<open>Items keep their identity\<close>










section \<open>Sequences of operations\<close>

datatype pane_op =
    OpenPane "jstr option" jstr
  | OpenPaneInTree jstr "jstr option" jstr
  | AppendPaneInTree jstr jstr jstr
  | ClosePane "jstr option" jstr
  | FocusPane "jstr option" jstr
  | ReorderPane "jstr option" jstr jstr
  | RetainProject "jstr option"
  | SetPaneSlot jstr jstr "jstr list" "jstr option"
  | EnsurePaneSlot jstr jstr jstr
  | PrunePaneIds "jstr list"
  | RegisterItem jsval
  | UpdateItem jstr "(jstr \<times> jsval) list"
  | ReplaceItem jstr jsval
  | RemoveItem jstr
  | SetItemWidth jstr "int option"

fun pane_step :: "pane_state \<Rightarrow> pane_op \<Rightarrow> pane_state" where
  "pane_step st (OpenPane key n) = openPane key n st"
| "pane_step st (OpenPaneInTree p t n) = openPaneInTree p t n st"
| "pane_step st (AppendPaneInTree p t n) = appendPaneInTree p t n st"
| "pane_step st (ClosePane key n) = closePane key n st"
| "pane_step st (FocusPane key n) = focusPane key n st"
| "pane_step st (ReorderPane key f t) = reorderPane key f t st"
| "pane_step st (RetainProject p) = retainProjectPaneKeys p st"
| "pane_step st (SetPaneSlot p t ps f) = setPaneSlot p t ps f st"
| "pane_step st (EnsurePaneSlot p t r) = ensurePaneSlot p t r st"
| "pane_step st (PrunePaneIds dead) = prunePaneIds dead st"
| "pane_step st (RegisterItem v) = registerPaneItem v st"
| "pane_step st (UpdateItem i patch) = updatePaneItem i patch st"
| "pane_step st (ReplaceItem i v) = replacePaneItem i v st"
| "pane_step st (RemoveItem i) = removePaneItem i st"
| "pane_step st (SetItemWidth i w) = setPaneItemWidth i w st"


definition no_panes :: pane_state where
  "no_panes = \<lparr>p_open = [], p_focused = [], p_items = [], p_focusNonce = 0\<rparr>"

lemma put_more [simp]:
  "panes_of (st\<lparr>p_items := is\<rparr>) = panes_of st" "focus_of (st\<lparr>p_items := is\<rparr>) = focus_of st"
  "panes_of (st\<lparr>p_focusNonce := c\<rparr>) = panes_of st" "focus_of (st\<lparr>p_focusNonce := c\<rparr>) = focus_of st"
  by (simp_all add: panes_of_def focus_of_def fun_eq_iff)

lemma items_unchanged [simp]:
  "p_items (setOpenPanes key g st) = p_items st" "p_items (setFocusedPane key h st) = p_items st"
  "p_items (openPane key n st) = p_items st" "p_items (openPaneInTree p t n st) = p_items st"
  "p_items (closePane key n st) = p_items st" "p_items (focusPane key n st) = p_items st"
  "p_items (reorderPane key f u st) = p_items st" "p_items (retainProjectPaneKeys q st) = p_items st"
  "p_items (setPaneSlot p r ps foc st) = p_items st" "p_items (ensurePaneSlot p r root st) = p_items st"
  "p_items (prunePaneIds dead st) = p_items st"
  by (simp_all add: setOpenPanes_def setFocusedPane_def openPane_def openPaneInTree_def closePane_def focusPane_def
      reorderPane_def retainProjectPaneKeys_def setPaneSlot_def ensurePaneSlot_def prunePaneIds_def Let_def
      split: option.split prod.split)








section \<open>The theorems\<close>




text \<open>A background append breaks it: when a stream event appends a spawned pane to a tree that has no slot yet and
  the tree is then activated, the slot shows only the spawned pane while its focus is the root, which is not open.\<close>
theorem background_append_loses_focus:
  "panes_of (foldl pane_step no_panes
     [AppendPaneInTree (js ''p'') (js ''t'') (js ''child''), EnsurePaneSlot (js ''p'') (js ''t'') (js ''root'')]) (js ''p::t'')
     = [js ''child''] \<and>
   focus_of (foldl pane_step no_panes
     [AppendPaneInTree (js ''p'') (js ''t'') (js ''child''), EnsurePaneSlot (js ''p'') (js ''t'') (js ''root'')]) (js ''p::t'')
     = Some (js ''root'')"
proof -
  have key: "js ''p'' @ js ''::'' @ js ''t'' = js ''p::t''" by (simp add: js_def)
  show ?thesis by (simp add: no_panes_def appendPaneInTree_def ensurePaneSlot_def key Let_def panes_of_def focus_of_def
        put_panes_def put_focus_def)
qed

lemma reorder_place:
  assumes "distinct ps" and "f \<in> set ps" and "t \<in> set ps" and "f \<noteq> t" and "j < length ps" and "ps ! j = t"
  shows "reorder f t ps ! j = f \<and> removeAll f (reorder f t ps) = removeAll f ps \<and> length (reorder f t ps) = length ps"
proof (cases rule: move_shapes [OF assms(1-4)])
  case (1 a b c)
  have "ps ! (length a + Suc (length b)) = t" by (simp add: 1 nth_append)
  then have "j = length a + Suc (length b)"
    using assms(1,5,6) nth_eq_iff_index_eq [of ps j "length a + Suc (length b)"] by (simp add: 1)
  moreover have d: "distinct (a @ f # b @ t # c)" using assms(1) 1 by simp
  ultimately show ?thesis by (simp add: 1 reorder_right [OF d] nth_append)
next
  case (2 a b c)
  have "ps ! length a = t" by (simp add: 2 nth_append)
  then have "j = length a" using assms(1,5,6) nth_eq_iff_index_eq [of ps j "length a"] by (simp add: 2)
  moreover have d: "distinct (a @ t # b @ f # c)" using assms(1) 2 by simp
  ultimately show ?thesis by (simp add: 2 reorder_left [OF d] nth_append)
qed

text \<open>Dragging a pane puts it where the other one was: in a slot without duplicates, the moved pane takes the index
  that the target had, and the other panes keep their order.\<close>
theorem reorder_takes_place:
  assumes "distinct ps" and "i < length ps" and "j < length ps" and "i \<noteq> j"
  shows "reorder (ps ! i) (ps ! j) ps ! j = ps ! i \<and>
    removeAll (ps ! i) (reorder (ps ! i) (ps ! j) ps) = removeAll (ps ! i) ps \<and>
    length (reorder (ps ! i) (ps ! j) ps) = length ps"
  using assms by (intro reorder_place) (simp_all add: nth_eq_iff_index_eq)

theorem reorder_takes_place_witness:
  "reorder (js ''a'') (js ''c'') [js ''a'', js ''b'', js ''c'', js ''d''] ! 2 = js ''a''"
  using reorder_takes_place [of "[js ''a'', js ''b'', js ''c'', js ''d'']" 0 2] by simp

text \<open>A deleted node is closed everywhere: pruning leaves in every slot exactly the panes that are not dead, in their
  order, whichever slot is active.\<close>
theorem prune_closes_everywhere:
  "panes_of (prunePaneIds dead st) k = filter (\<lambda>p. p \<notin> set dead) (panes_of st k)"
  by (rule panes_prune)

text \<open>Single-page mode shows one page: of the panes that are not browsers, exactly one is visible when there is
  any, the focused one if it is a tab, and all browser panes stay.\<close>
theorem single_page_shows_one:
  fixes items :: "(jstr \<times> jsval) list"
  assumes "distinct panes" and "focused \<noteq> Some []"
  defines "tabs \<equiv> filter (\<lambda>i. is_browser items i = False) panes"
  shows "filter (\<lambda>i. is_browser items i = False) (singlePageVisiblePanes panes items focused) =
      (if tabs = [] then [] else [case focused of Some f \<Rightarrow> if f \<in> set tabs then f else last tabs | None \<Rightarrow> last tabs]) \<and>
    filter (is_browser items) (singlePageVisiblePanes panes items focused) = filter (is_browser items) panes"
proof -
  have t: "tabs = filter (\<lambda>i. \<not> is_browser items i) panes" by (simp add: tabs_def)
  define page where "page = (case focused of Some f \<Rightarrow> if f \<in> set tabs then f else last tabs | None \<Rightarrow> last tabs)"
  have d: "distinct tabs" using assms(1) by (simp add: t)
  have one: "filter (\<lambda>i. i = x) xs = [x]" if "distinct xs" "x \<in> set xs" for x :: jstr and xs
    using that by (induction xs) (auto simp: filter_empty_conv)
  have tab: "\<not> is_browser items i \<and> i \<in> set panes" if "i \<in> set tabs" for i using that by (simp add: t)
  show ?thesis
  proof (cases "length tabs \<le> 1")
    case True
    then have v: "singlePageVisiblePanes panes items focused = panes" by (simp add: singlePageVisiblePanes_def t)
    have "tabs = (if tabs = [] then [] else [page])"
      using True by (cases tabs) (auto simp: page_def split: option.split)
    then show ?thesis unfolding v page_def [symmetric] tabs_def [symmetric] by blast
  next
    case False
    then have ne: "tabs \<noteq> []" by auto
    then have page: "page \<in> set tabs" by (simp add: page_def split: option.split)
    have v: "singlePageVisiblePanes panes items focused = filter (\<lambda>i. i = page \<or> is_browser items i) panes"
      using False assms(2) by (auto simp: singlePageVisiblePanes_def page_def t split: option.split)
    have "filter (\<lambda>i. \<not> is_browser items i) (singlePageVisiblePanes panes items focused) = filter (\<lambda>i. i = page) tabs"
      using tab [OF page] by (simp add: v t conj_ac) (rule filter_cong, auto)
    moreover have "filter (is_browser items) (singlePageVisiblePanes panes items focused) = filter (is_browser items) panes"
      using tab [OF page] by (auto simp: v intro: filter_cong)
    ultimately show ?thesis using one [OF d page] ne by (simp add: page_def)
  qed
qed

theorem single_page_shows_one_witness:
  "filter (is_browser []) (singlePageVisiblePanes [js ''a'', js ''b''] [] (Some (js ''a''))) = [] \<and>
   filter (\<lambda>i. is_browser [] i = False) (singlePageVisiblePanes [js ''a'', js ''b''] [] (Some (js ''a''))) = [js ''a'']"
  using single_page_shows_one [of "[js ''a'', js ''b'']" "Some (js ''a'')" "[]"] by (simp add: is_browser_def)

end
