(* ===== verification/Agent_Runs.thy ===== *)
theory Agent_Runs
  imports Pane_Items
begin

text \<open>
  The rules of durable agent runs, from \<^verbatim>\<open>backend/src/agents/runs\<close> and \<^verbatim>\<open>shared/src/agentRuns.ts\<close>: the status
  machine, the intersection of permission policies and the ceiling a parent passes on, the recovery
  plan after a failed attempt, the expiry of a run, watches and the handoff text. The repository, the
  executor and the clock are arguments where the code asks them. The theorems say that no delegation
  gains a permission, that a finished run stays finished, that retries end, and that a watch fires
  once.
\<close>

section \<open>Status machine\<close>

datatype AgentRunStatus = Queued | Preparing | Running | Waiting | Recovering | Completed | Failed | Cancelled

datatype AgentRunWaitingReason = PermissionReason | ContextReason | UserInputReason | ParentInputReason

datatype AgentAttemptStatus = APreparing | ARunning | AWaiting | ACompleted | AFailed | ACancelled

fun transitions :: "AgentRunStatus \<Rightarrow> AgentRunStatus list" where
  "transitions Queued = [Preparing, Cancelled]"
| "transitions Preparing = [Running, Recovering, Failed, Cancelled]"
| "transitions Running = [Waiting, Recovering, Completed, Failed, Cancelled]"
| "transitions Waiting = [Running, Recovering, Failed, Cancelled]"
| "transitions Recovering = [Preparing, Running, Waiting, Completed, Failed, Cancelled]"
| "transitions Completed = []"
| "transitions Failed = []"
| "transitions Cancelled = []"

definition isValidAgentRunTransition :: "AgentRunStatus option \<Rightarrow> AgentRunStatus \<Rightarrow> bool" where
  "isValidAgentRunTransition from to = (case from of None \<Rightarrow> to = Queued | Some s \<Rightarrow> to \<in> set (transitions s))"

definition isTerminalRunStatus :: "AgentRunStatus \<Rightarrow> bool" where
  "isTerminalRunStatus s \<longleftrightarrow> s \<in> {Completed, Failed, Cancelled}"

datatype run_error = InvalidTransition AgentRunStatus AgentRunStatus | BadWaitingReason
  | AttemptTerminal AgentAttemptStatus | InvalidAttemptTransition AgentAttemptStatus AgentAttemptStatus
  | TtlExceedsPolicy | DuplicateIdentities

definition assertAgentRunTransition :: "AgentRunStatus \<Rightarrow> AgentRunStatus \<Rightarrow> run_error + unit" where
  "assertAgentRunTransition from to =
     (if isValidAgentRunTransition (Some from) to then Inr () else Inl (InvalidTransition from to))"

definition assertWaitingProjection :: "AgentRunStatus \<Rightarrow> AgentRunWaitingReason option \<Rightarrow> run_error + unit" where
  "assertWaitingProjection s r = (if (s = Waiting) \<noteq> (r \<noteq> None) then Inl BadWaitingReason else Inr ())"

definition TERMINAL_ATTEMPT_STATUSES :: "AgentAttemptStatus list" where
  "TERMINAL_ATTEMPT_STATUSES = [ACompleted, AFailed, ACancelled]"

fun attempt_allowed :: "AgentAttemptStatus \<Rightarrow> AgentAttemptStatus list" where
  "attempt_allowed APreparing = [ARunning, AWaiting, AFailed, ACancelled]"
| "attempt_allowed ARunning = [AWaiting, ACompleted, AFailed, ACancelled]"
| "attempt_allowed AWaiting = [ARunning, AFailed, ACancelled]"
| "attempt_allowed _ = []"

definition assertAttemptTransition :: "AgentAttemptStatus \<Rightarrow> AgentAttemptStatus \<Rightarrow> run_error + unit" where
  "assertAttemptTransition from to =
     (if from \<in> set TERMINAL_ATTEMPT_STATUSES then Inl (AttemptTerminal from)
      else if to \<notin> set (attempt_allowed from) then Inl (InvalidAttemptTransition from to) else Inr ())"

section \<open>Permission policies\<close>

datatype AgentPolicyCategory = Read | Search | Browse | ArtifactWrite | FilesystemWrite | ShellExec | ExternalAction | SpawnAgent

datatype AgentPolicyDecision = Allow | Ask | Deny

datatype policy_preset = Research | Build | Custom

record AgentPermissionPolicy =
  y_preset :: policy_preset
  y_categories :: "(AgentPolicyCategory \<times> AgentPolicyDecision) list"
  y_maxDelegationDepth :: int
  y_maxConcurrentRuns :: int
  y_maxWallTimeMs :: int
  y_maxAttempts :: int
  y_maxTokens :: "int option"
  y_maxSpendMicros :: "int option"

definition policy_categories :: "AgentPolicyCategory list" where
  "policy_categories = [Read, Search, Browse, ArtifactWrite, FilesystemWrite, ShellExec, ExternalAction, SpawnAgent]"

fun rank :: "AgentPolicyDecision \<Rightarrow> nat" where
  "rank Deny = 0"
| "rank Ask = 1"
| "rank Allow = 2"

definition presetDecision :: "AgentPermissionPolicy \<Rightarrow> AgentPolicyCategory \<Rightarrow> AgentPolicyDecision" where
  "presetDecision policy category = (case map_of (y_categories policy) category of
     Some d \<Rightarrow> d
   | None \<Rightarrow> (case y_preset policy of
       Research \<Rightarrow> if category \<in> set [Read, Search, Browse, ArtifactWrite] then Allow else Deny
     | Build \<Rightarrow> if category \<in> set [ExternalAction, SpawnAgent] then Ask else Allow
     | Custom \<Rightarrow> Deny))"

definition lower_decision :: "AgentPolicyDecision \<Rightarrow> AgentPolicyDecision \<Rightarrow> AgentPolicyDecision" where
  "lower_decision l r = (if rank l \<le> rank r then l else r)"

fun minimumDecision :: "AgentPermissionPolicy list \<Rightarrow> AgentPolicyCategory \<Rightarrow> AgentPolicyDecision" where
  \<comment> \<open>\<open>reduce\<close> without an initial value; the callers never pass an empty array\<close>
  "minimumDecision [] category = Deny"
| "minimumDecision (p # ps) category =
     foldl lower_decision (presetDecision p category) (map (\<lambda>q. presetDecision q category) ps)"

fun list_min :: "int list \<Rightarrow> int" where
  \<comment> \<open>\<open>Math.min(...values)\<close> of a non-empty array\<close>
  "list_min [] = 0"
| "list_min (x # xs) = foldl min x xs"

definition nullableMinimum :: "int option list \<Rightarrow> int option" where
  "nullableMinimum values = (let bounded = concat (map (\<lambda>v. case v of None \<Rightarrow> [] | Some n \<Rightarrow> [n]) values)
     in if bounded \<noteq> [] then Some (list_min bounded) else None)"

definition contributors ::
  "AgentPermissionPolicy \<Rightarrow> AgentPermissionPolicy \<Rightarrow> AgentPermissionPolicy option \<Rightarrow> AgentPermissionPolicy option
    \<Rightarrow> AgentPermissionPolicy option \<Rightarrow> AgentPermissionPolicy list" where
  "contributors platform workspace parent defn spawn =
     concat (map (\<lambda>p. case p of None \<Rightarrow> [] | Some q \<Rightarrow> [q]) [Some platform, Some workspace, parent, defn, spawn])"

definition intersect_all :: "AgentPermissionPolicy list \<Rightarrow> AgentPermissionPolicy" where
  "intersect_all policies = \<lparr>y_preset = Custom,
     y_categories = map (\<lambda>c. (c, minimumDecision policies c)) policy_categories,
     y_maxDelegationDepth = list_min (map y_maxDelegationDepth policies),
     y_maxConcurrentRuns = list_min (map y_maxConcurrentRuns policies),
     y_maxWallTimeMs = list_min (map y_maxWallTimeMs policies),
     y_maxAttempts = list_min (map y_maxAttempts policies),
     y_maxTokens = nullableMinimum (map y_maxTokens policies),
     y_maxSpendMicros = nullableMinimum (map y_maxSpendMicros policies)\<rparr>"

definition intersectPermissionPolicies ::
  "AgentPermissionPolicy \<Rightarrow> AgentPermissionPolicy \<Rightarrow> AgentPermissionPolicy option \<Rightarrow> AgentPermissionPolicy option
    \<Rightarrow> AgentPermissionPolicy option \<Rightarrow> AgentPermissionPolicy" where
  "intersectPermissionPolicies platform workspace parent defn spawn =
     intersect_all (contributors platform workspace parent defn spawn)"

text \<open>The parent's ceiling at spawn time; the two lookups of the port are arguments.\<close>

datatype ParentSnapshotSource = FromRun jstr jstr | FromChat jstr | WorkspaceDefault

datatype invocation_mode = Delegated | Manual

record spawn_input =
  i_mode :: invocation_mode
  i_owner :: jstr
  i_workspaceId :: jstr
  i_parentRunId :: "jstr option"
  i_parentAttemptId :: "jstr option"
  i_parentNodeId :: "jstr option"
  i_workspacePolicy :: AgentPermissionPolicy

definition deriveParentPermissionSnapshot ::
  "(jstr \<Rightarrow> jstr \<Rightarrow> AgentPermissionPolicy option) \<Rightarrow> (jstr \<Rightarrow> jstr \<Rightarrow> jstr \<Rightarrow> AgentPermissionPolicy option) option
    \<Rightarrow> spawn_input \<Rightarrow> AgentPermissionPolicy \<times> ParentSnapshotSource" where
  "deriveParentPermissionSnapshot runPolicy chatPolicy inp =
     (if truthy_str (i_parentRunId inp) \<and> truthy_str (i_parentAttemptId inp)
      then (default_to (runPolicy (i_owner inp) (the (i_parentRunId inp))) (i_workspacePolicy inp),
            FromRun (the (i_parentRunId inp)) (the (i_parentAttemptId inp)))
      else if i_mode inp = Delegated \<and> truthy_str (i_parentNodeId inp)
      then (default_to (case chatPolicy of None \<Rightarrow> None
              | Some f \<Rightarrow> f (i_owner inp) (i_workspaceId inp) (the (i_parentNodeId inp))) (i_workspacePolicy inp),
            FromChat (the (i_parentNodeId inp)))
      else (i_workspacePolicy inp, WorkspaceDefault))"


section \<open>Recovery\<close>

datatype error_category = Transient | AuthPermission | Capacity | Incompatible | UnsafeRecovery | TerminalError | ImportInterrupted

record StructuredRunError =
  x_category :: error_category
  x_retryable :: bool

datatype recovery_action = RetryAttempt | FallbackAttempt | WaitForUser | FailRun

definition latestProfileIndex :: "nat list \<Rightarrow> nat" where
  "latestProfileIndex attempts = (if attempts \<noteq> [] then last attempts else 0)"

definition unreceipted :: "jsval option \<Rightarrow> bool" where
  \<comment> \<open>of the recovery envelope's \<open>currentResourceState\<close>\<close>
  "unreceipted state = (case state of None \<Rightarrow> False
     | Some v \<Rightarrow> is_record v \<and> field v ''unreceiptedSideEffect'' = JBool True)"

definition planAgentRunRecovery ::
  "int \<Rightarrow> nat \<Rightarrow> nat list \<Rightarrow> StructuredRunError \<Rightarrow> jsval option \<Rightarrow> recovery_action \<times> nat" where
  \<comment> \<open>the arguments: \<open>maxAttempts\<close>, the length of the fallback chain, the profile indices of the attempts,
      the error and the resource state of the envelope, which the plan carries along unchanged\<close>
  "planAgentRunRecovery maxAttempts chain attempts err state =
     (let current = latestProfileIndex attempts
      in if maxAttempts \<le> int (length attempts) then (FailRun, current)
         else if unreceipted state \<or> x_category err = UnsafeRecovery then (WaitForUser, current)
         else if \<not> x_retryable err then (FailRun, current)
         else if x_category err \<in> set [Capacity, Incompatible, AuthPermission] \<and> current < chain
         then (FallbackAttempt, current + 1)
         else (RetryAttempt, current))"

datatype startup_action = Claim | ResumeWaiting | AuditTerminal | IgnoreRun

definition startupRecoveryAction :: "AgentRunStatus \<Rightarrow> startup_action" where
  "startupRecoveryAction s =
     (if s = Queued \<or> s = Recovering then Claim
      else if s = Waiting then ResumeWaiting
      else if s \<in> set [Completed, Failed, Cancelled] then AuditTerminal
      else if s = Preparing \<or> s = Running then Claim
      else IgnoreRun)"

section \<open>Retention\<close>

definition MIN_RUN_TTL_MS :: int where
  "MIN_RUN_TTL_MS = 60000"

definition MAX_RUN_TTL_MS :: int where
  "MAX_RUN_TTL_MS = 365 * 24 * 60 * 60 * 1000"

definition deriveRunExpiresAt :: "int \<Rightarrow> invocation_mode \<Rightarrow> int option \<Rightarrow> int option \<Rightarrow> int \<Rightarrow> run_error + int option" where
  "deriveRunExpiresAt now mode requested baseline platformMax =
     (let ceiling = min platformMax MAX_RUN_TTL_MS;
          ttl = (if mode = Manual then nullish requested baseline
                 else case baseline of None \<Rightarrow> requested
                   | Some b \<Rightarrow> (case requested of None \<Rightarrow> Some b | Some r \<Rightarrow> Some (min b r)))
      in case ttl of None \<Rightarrow> Inr None
         | Some t \<Rightarrow> if \<not> (\<bar>t\<bar> \<le> MAX_SAFE_INTEGER) \<or> t < MIN_RUN_TTL_MS \<or> t > ceiling then Inl TtlExceedsPolicy
                     else Inr (Some (now + t)))"

definition shouldDefer :: "AgentRunStatus \<Rightarrow> int option \<Rightarrow> int \<Rightarrow> bool" where
  "shouldDefer status expiresAt now = (case expiresAt of None \<Rightarrow> False | Some e \<Rightarrow> e \<le> now \<and> \<not> isTerminalRunStatus status)"

section \<open>Handoff\<close>

definition compactResultHandoff :: "jstr \<Rightarrow> jstr \<Rightarrow> jstr \<Rightarrow> jstr" where
  "compactResultHandoff conclusion changes issues =
     join_with [10] (filter (\<lambda>s. s \<noteq> []) (map js_trim [conclusion, changes, issues]))"

section \<open>Watches\<close>

datatype WatchCondition = WatchAll | WatchAny | WatchQuorum int | WatchDeadline int | WatchManual

datatype watch_status = WatchActive | WatchFired | WatchCancelled

datatype watch_mode = NotifyMode | WakeMode

datatype delivery_status = DeliveryPending | Delivered | Undeliverable

record run_view =
  r_id :: jstr
  r_status :: AgentRunStatus
  r_handoff :: "(jstr \<times> jstr \<times> jstr) option"

record run_watch =
  w_runIds :: "jstr list"
  w_condition :: WatchCondition
  w_mode :: watch_mode
  w_status :: watch_status
  w_delivery :: delivery_status

datatype watch_effect = NotifyRun jstr | DeliverToParent "jstr list" jstr

definition watchConditionSatisfied :: "WatchCondition \<Rightarrow> run_view list \<Rightarrow> int \<Rightarrow> bool \<Rightarrow> bool" where
  "watchConditionSatisfied condition runs now manual =
     (let terminalCount = length (filter (\<lambda>r. isTerminalRunStatus (r_status r)) runs)
      in case condition of
           WatchAll \<Rightarrow> length runs > 0 \<and> terminalCount = length runs
         | WatchAny \<Rightarrow> terminalCount > 0
         | WatchQuorum count \<Rightarrow> int terminalCount \<ge> count
         | WatchDeadline at \<Rightarrow> now \<ge> at
         | WatchManual \<Rightarrow> manual)"

fun status_text :: "AgentRunStatus \<Rightarrow> jstr" where
  "status_text Queued = js ''queued''"
| "status_text Preparing = js ''preparing''"
| "status_text Running = js ''running''"
| "status_text Waiting = js ''waiting''"
| "status_text Recovering = js ''recovering''"
| "status_text Completed = js ''completed''"
| "status_text Failed = js ''failed''"
| "status_text Cancelled = js ''cancelled''"

definition watch_handoff :: "run_view list \<Rightarrow> jstr" where
  "watch_handoff runs = join_with [10, 10] (map (\<lambda>r. case r_handoff r of
     Some (c, a, u) \<Rightarrow> compactResultHandoff c a u | None \<Rightarrow> r_id r @ js '': '' @ status_text (r_status r)) runs)"

text \<open>The two updates of the watch row: \<open>UPDATE ... WHERE status = 'active'\<close> and \<open>WHERE status = 'fired'\<close>.\<close>

definition fireWatch :: "jstr \<Rightarrow> (jstr \<times> run_watch) list \<Rightarrow> bool \<times> (jstr \<times> run_watch) list" where
  "fireWatch i store = (case map_of store i of None \<Rightarrow> (False, store)
     | Some w \<Rightarrow> if w_status w = WatchActive then (True, AList.update i (w\<lparr>w_status := WatchFired\<rparr>) store) else (False, store))"

definition markWatchDelivery :: "jstr \<Rightarrow> delivery_status \<Rightarrow> (jstr \<times> run_watch) list \<Rightarrow> (jstr \<times> run_watch) list" where
  "markWatchDelivery i d store = (case map_of store i of None \<Rightarrow> store
     | Some w \<Rightarrow> if w_status w = WatchFired then AList.update i (w\<lparr>w_delivery := d\<rparr>) store else store)"

definition lookup_runs :: "(jstr \<Rightarrow> run_view option) \<Rightarrow> jstr list \<Rightarrow> run_view list" where
  "lookup_runs getRun ids = concat (map (\<lambda>i. case getRun i of None \<Rightarrow> [] | Some r \<Rightarrow> [r]) ids)"

text \<open>
  \<open>evaluate\<close> and \<open>redeliverFired\<close> with the repository's runs, the clock and the answer of the parent sink
  as arguments; the result, the store and what was handed to the notifier or the sink. The code up to
  \<open>fireWatch\<close> runs without an \<open>await\<close>.
\<close>

definition deliver_watch ::
  "(jstr list \<Rightarrow> jstr \<Rightarrow> delivery_status) \<Rightarrow> jstr \<Rightarrow> run_watch \<Rightarrow> run_view list \<Rightarrow> (jstr \<times> run_watch) list
    \<Rightarrow> bool \<times> (jstr \<times> run_watch) list \<times> watch_effect list" where
  "deliver_watch sink i w runs store =
     (if w_mode w = NotifyMode
      then (True, markWatchDelivery i Delivered store, map (\<lambda>r. NotifyRun (r_id r)) runs)
      else let handoff = watch_handoff runs
           in (True, markWatchDelivery i (sink (w_runIds w) handoff) store, [DeliverToParent (w_runIds w) handoff]))"

definition evaluate ::
  "(jstr \<Rightarrow> run_view option) \<Rightarrow> (jstr list \<Rightarrow> jstr \<Rightarrow> delivery_status) \<Rightarrow> int \<Rightarrow> bool \<Rightarrow> jstr \<Rightarrow> (jstr \<times> run_watch) list
    \<Rightarrow> bool \<times> (jstr \<times> run_watch) list \<times> watch_effect list" where
  "evaluate getRun sink now manual i store = (case map_of store i of None \<Rightarrow> (False, store, [])
     | Some w \<Rightarrow>
         if w_status w \<noteq> WatchActive then (False, store, [])
         else if w_runIds w = [] then (False, store, [])
         else let runs = lookup_runs getRun (w_runIds w);
                  failedMember = list_ex (\<lambda>r. r_status r = Failed \<or> r_status r = Cancelled) runs;
                  shortCircuit = (case w_condition w of WatchAll \<Rightarrow> failedMember | WatchQuorum n \<Rightarrow> failedMember | _ \<Rightarrow> False)
              in if length runs \<noteq> length (w_runIds w)
                    \<or> (\<not> shortCircuit \<and> \<not> watchConditionSatisfied (w_condition w) runs now manual) then (False, store, [])
                 else let (fired, store1) = fireWatch i store
                      in if \<not> fired then (False, store1, []) else deliver_watch sink i w runs store1)"

definition redeliverFired ::
  "(jstr \<Rightarrow> run_view option) \<Rightarrow> (jstr list \<Rightarrow> jstr \<Rightarrow> delivery_status) \<Rightarrow> jstr \<Rightarrow> (jstr \<times> run_watch) list
    \<Rightarrow> bool \<times> (jstr \<times> run_watch) list \<times> watch_effect list" where
  "redeliverFired getRun sink i store = (case map_of store i of None \<Rightarrow> (False, store, [])
     | Some w \<Rightarrow> if w_status w \<noteq> WatchFired then (False, store, [])
                 else deliver_watch sink i w (lookup_runs getRun (w_runIds w)) store)"

section \<open>Status\<close>

inductive run_path :: "AgentRunStatus \<Rightarrow> AgentRunStatus \<Rightarrow> bool" where
  start: "run_path s s"
| move: "run_path s t \<Longrightarrow> assertAgentRunTransition t u = Inr () \<Longrightarrow> run_path s u"

lemma assert_Inr [simp]: "assertAgentRunTransition s t = Inr () \<longleftrightarrow> t \<in> set (transitions s)"
  by (simp add: assertAgentRunTransition_def isValidAgentRunTransition_def)

lemma terminal_stuck: "isTerminalRunStatus s \<longleftrightarrow> transitions s = []"
  by (cases s) (simp_all add: isTerminalRunStatus_def)

lemma terminal_path: "run_path s t \<Longrightarrow> isTerminalRunStatus s \<Longrightarrow> t = s"
  by (induction rule: run_path.induct) (auto simp: terminal_stuck)

text \<open>A finished run stays finished and any other can be cancelled: no sequence of accepted transitions leaves
  completed, failed or cancelled, and exactly the other statuses have the transition to cancelled.\<close>
theorem finished_runs_stay:
  assumes "run_path s t"
  shows "(if isTerminalRunStatus s then t = s else assertAgentRunTransition s Cancelled = Inr ())"
proof (cases "isTerminalRunStatus s")
  case False
  then show ?thesis by (cases s) (simp_all add: isTerminalRunStatus_def)
qed (use terminal_path [OF assms] in simp)

theorem finished_runs_stay_witness:
  "run_path Completed Completed \<and> isTerminalRunStatus Completed \<and> run_path Queued Waiting \<and>
   assertAgentRunTransition Waiting Cancelled = Inr ()"
proof -
  have q: "run_path Queued Waiting"
    by (rule run_path.move [of _ Running], rule run_path.move [of _ Preparing], rule run_path.move [of _ Queued], rule run_path.start) simp_all
  show ?thesis using finished_runs_stay [OF run_path.start, of Completed] finished_runs_stay [OF run_path.start, of Waiting] q
    by (simp add: isTerminalRunStatus_def run_path.start)
qed

section \<open>Policies\<close>

lemma rank_lower: "rank (lower_decision l r) = min (rank l) (rank r)"
  by (simp add: lower_decision_def)

lemma rank_fold: "rank (foldl lower_decision d ds) = Min (set (map rank (d # ds)))"
proof (induction ds arbitrary: d)
  case (Cons e ds)
  have "rank (foldl lower_decision d (e # ds)) = Min (set (map rank (lower_decision d e # ds)))"
    using Cons.IH [of "lower_decision d e"] by simp
  also have "\<dots> = Min (set (map rank (d # e # ds)))"
    by (cases "ds = []") (simp_all add: rank_lower min.assoc)
  finally show ?case .
qed simp

lemma list_min_Min: "xs \<noteq> [] \<Longrightarrow> list_min xs = Min (set xs)"
proof (cases xs)
  case (Cons x ys)
  have "foldl min x ys = Min (set (x # ys))"
  proof (induction ys arbitrary: x)
    case (Cons y ys)
    then show ?case by (cases "ys = []") (simp_all add: min.assoc)
  qed simp
  then show ?thesis by (simp add: Cons)
qed simp

lemma rank_minimum: "ps \<noteq> [] \<Longrightarrow> rank (minimumDecision ps c) = Min (set (map (\<lambda>p. rank (presetDecision p c)) ps))"
  by (cases ps) (simp_all add: rank_fold image_image)

lemma presetDecision_intersect [simp]: "presetDecision (intersect_all ps) c = minimumDecision ps c"
  by (cases c) (simp_all add: presetDecision_def intersect_all_def policy_categories_def)

text \<open>The ceiling order on policies: no more permission in any category and no larger limit.\<close>

definition opt_le :: "int option \<Rightarrow> int option \<Rightarrow> bool" where
  \<comment> \<open>an absent limit is no limit\<close>
  "opt_le a b = (case b of None \<Rightarrow> True | Some y \<Rightarrow> (case a of None \<Rightarrow> False | Some x \<Rightarrow> x \<le> y))"







text \<open>The effective policy is exactly the strictest of the contributing ones: in every category the decision is the
  lowest of the decisions of platform, workspace, parent, definition and spawn request, and each limit is the least.\<close>
theorem effective_policy_is_minimum:
  "rank (presetDecision (intersectPermissionPolicies platform workspace parent defn spawn) c) =
     Min (set (map (\<lambda>p. rank (presetDecision p c)) (contributors platform workspace parent defn spawn))) \<and>
   list_all (\<lambda>f. f (intersectPermissionPolicies platform workspace parent defn spawn) =
       Min (set (map f (contributors platform workspace parent defn spawn))))
     [y_maxDelegationDepth, y_maxConcurrentRuns, y_maxWallTimeMs, y_maxAttempts]"
proof -
  have ne: "contributors platform workspace parent defn spawn \<noteq> []" by (simp add: contributors_def)
  show ?thesis unfolding intersectPermissionPolicies_def
    by (simp add: rank_minimum [OF ne]) (simp add: intersect_all_def list_min_Min ne)
qed





text \<open>A parent whose policy is not found is no ceiling: the snapshot of a run spawned from a parent run that the
  port does not know is the workspace policy, so the child may have what no found parent could give it; the
  documentation of the function says that it throws.\<close>
theorem missing_parent_gives_workspace_policy:
  assumes "truthy_str (i_parentRunId inp)" and "truthy_str (i_parentAttemptId inp)"
    and "runPolicy (i_owner inp) (the (i_parentRunId inp)) = None"
  shows "fst (deriveParentPermissionSnapshot runPolicy chatPolicy inp) = i_workspacePolicy inp"
  using assms by (simp add: deriveParentPermissionSnapshot_def)

definition demo_policy :: "policy_preset \<Rightarrow> AgentPermissionPolicy" where
  "demo_policy p = \<lparr>y_preset = p, y_categories = [], y_maxDelegationDepth = 2, y_maxConcurrentRuns = 4,
     y_maxWallTimeMs = 1000, y_maxAttempts = 3, y_maxTokens = None, y_maxSpendMicros = None\<rparr>"

definition demo_spawn :: spawn_input where
  "demo_spawn = \<lparr>i_mode = Delegated, i_owner = js ''u'', i_workspaceId = js ''w'', i_parentRunId = Some (js ''r''),
     i_parentAttemptId = Some (js ''a''), i_parentNodeId = None, i_workspacePolicy = demo_policy Build\<rparr>"

theorem missing_parent_gives_workspace_policy_witness:
  "fst (deriveParentPermissionSnapshot (\<lambda>_ _. None) None demo_spawn) = demo_policy Build"
  using missing_parent_gives_workspace_policy [of demo_spawn "\<lambda>_ _. None" None] by (simp add: demo_spawn_def)

section \<open>Retries end\<close>

text \<open>The attempts of a run whose executions fail one after the other, as \<open>settleOutcome\<close> starts them.\<close>

fun attempt_run :: "int \<Rightarrow> nat \<Rightarrow> nat list \<Rightarrow> (StructuredRunError \<times> jsval option) list \<Rightarrow> nat list" where
  "attempt_run maxAttempts chain attempts [] = attempts"
| "attempt_run maxAttempts chain attempts ((err, state) # failures) =
     (case planAgentRunRecovery maxAttempts chain attempts err state of
        (RetryAttempt, i) \<Rightarrow> attempt_run maxAttempts chain (attempts @ [i]) failures
      | (FallbackAttempt, i) \<Rightarrow> attempt_run maxAttempts chain (attempts @ [i]) failures
      | _ \<Rightarrow> attempts)"

definition attempts_ok :: "int \<Rightarrow> nat \<Rightarrow> nat list \<Rightarrow> bool" where
  "attempts_ok maxAttempts chain attempts \<longleftrightarrow> attempts \<noteq> [] \<and> int (length attempts) \<le> max 1 maxAttempts
     \<and> list_all (\<lambda>i. i \<le> chain) attempts \<and> sorted attempts"

lemma plan_continues:
  assumes "planAgentRunRecovery maxAttempts chain attempts err state = (action, i)" and "action = RetryAttempt \<or> action = FallbackAttempt"
  shows "int (length attempts) < maxAttempts \<and> latestProfileIndex attempts \<le> i \<and>
    (i \<le> max chain (latestProfileIndex attempts)) \<and> unreceipted state = False \<and> x_retryable err \<and> x_category err \<noteq> UnsafeRecovery"
  using assms by (auto simp: planAgentRunRecovery_def Let_def split: if_splits)

lemma sorted_le_last: "sorted xs \<Longrightarrow> x \<in> set xs \<Longrightarrow> x \<le> last xs" for x :: nat
  by (induction xs) auto

lemma attempts_ok_snoc:
  assumes "attempts_ok m chain attempts" and "int (length attempts) < m" and "last attempts \<le> i" and "i \<le> max chain (last attempts)"
  shows "attempts_ok m chain (attempts @ [i])"
proof -
  have "last attempts \<le> chain" using assms(1) by (auto simp: attempts_ok_def list_all_iff)
  then have "i \<le> chain" using assms(4) by simp
  moreover have "x \<le> i" if "x \<in> set attempts" for x
    using sorted_le_last [of attempts x] assms(1,3) that by (simp add: attempts_ok_def)
  ultimately show ?thesis using assms(1,2) by (auto simp: attempts_ok_def sorted_append)
qed

lemma attempt_run_ok: "attempts_ok m chain attempts \<Longrightarrow> attempts_ok m chain (attempt_run m chain attempts fs)"
proof (induction m chain attempts fs rule: attempt_run.induct)
  case (2 m chain attempts err state fs)
  obtain action i where p: "planAgentRunRecovery m chain attempts err state = (action, i)" by fastforce
  show ?case
  proof (cases "action = RetryAttempt \<or> action = FallbackAttempt")
    case True
    have l: "latestProfileIndex attempts = last attempts" using 2(3) by (simp add: latestProfileIndex_def attempts_ok_def)
    have "attempts_ok m chain (attempts @ [i])"
      using plan_continues [OF p True] attempts_ok_snoc [OF 2(3)] by (simp add: l)
    then show ?thesis using 2(1,2) p True by auto
  qed (use 2(3) p in \<open>auto split: recovery_action.split\<close>)
qed simp

text \<open>Retries end and move along the fallback chain: whatever sequence of failures a run meets, it makes at most its
  maximum of attempts, every attempt uses the primary profile or one of the fallback chain, and no attempt goes
  back to an earlier profile.\<close>
theorem retries_bounded:
  "int (length (attempt_run maxAttempts chain [0] failures)) \<le> max 1 maxAttempts \<and>
   list_all (\<lambda>i. i \<le> chain) (attempt_run maxAttempts chain [0] failures) \<and>
   sorted (attempt_run maxAttempts chain [0] failures)"
proof -
  have "attempts_ok maxAttempts chain [0]" by (simp add: attempts_ok_def)
  from attempt_run_ok [OF this] show ?thesis by (simp add: attempts_ok_def)
qed

text \<open>Nothing is replayed after an unreceipted side effect: a plan that starts another attempt has a retryable
  error that is not unsafe to recover, an envelope without the unreceipted flag, and an attempt left.\<close>
theorem no_replay_after_side_effect:
  assumes "fst (planAgentRunRecovery maxAttempts chain attempts err state) \<in> {RetryAttempt, FallbackAttempt}"
  shows "unreceipted state = False \<and> x_retryable err \<and> x_category err \<noteq> UnsafeRecovery \<and> int (length attempts) < maxAttempts"
  using assms plan_continues [OF prod.collapse [symmetric], of maxAttempts chain attempts err state] by blast

theorem no_replay_after_side_effect_witness:
  "fst (planAgentRunRecovery 3 1 [0] \<lparr>x_category = Capacity, x_retryable = True\<rparr> None) = FallbackAttempt \<and>
   int (length [0 :: nat]) < 3"
  using no_replay_after_side_effect [of 3 1 "[0]" "\<lparr>x_category = Capacity, x_retryable = True\<rparr>" None]
  by (simp add: planAgentRunRecovery_def unreceipted_def latestProfileIndex_def)

section \<open>Expiry\<close>

text \<open>A run's time to live respects the policy: an accepted expiry lies at least a minute and at most the platform's
  maximum and a year ahead, and a delegated run outlives neither its definition's default nor what was asked.\<close>
theorem run_expiry_bounds:
  assumes "deriveRunExpiresAt now mode requested baseline platformMax = Inr (Some t)"
  shows "now + MIN_RUN_TTL_MS \<le> t \<and> t \<le> now + min platformMax MAX_RUN_TTL_MS \<and>
    (if mode = Delegated then opt_le (Some (t - now)) baseline \<and> opt_le (Some (t - now)) requested else True)"
  using assms by (auto simp: deriveRunExpiresAt_def Let_def opt_le_def nullish_def split: option.splits if_splits)

theorem run_expiry_bounds_witness:
  "deriveRunExpiresAt 0 Delegated (Some 90000) (Some 120000) 1000000 = Inr (Some 90000) \<and> MIN_RUN_TTL_MS \<le> 90000"
proof -
  have "deriveRunExpiresAt 0 Delegated (Some 90000) (Some 120000) 1000000 = Inr (Some 90000)"
    by (simp add: deriveRunExpiresAt_def MAX_SAFE_INTEGER_def MIN_RUN_TTL_MS_def MAX_RUN_TTL_MS_def)
  with run_expiry_bounds [OF this] show ?thesis by simp
qed

section \<open>A watch fires once\<close>

record eval_call =
  c_getRun :: "jstr \<Rightarrow> run_view option"
  c_sink :: "jstr list \<Rightarrow> jstr \<Rightarrow> delivery_status"
  c_now :: int
  c_manual :: bool
  c_watch :: jstr

definition eval_watch :: "eval_call \<Rightarrow> (jstr \<times> run_watch) list \<Rightarrow> bool \<times> (jstr \<times> run_watch) list \<times> watch_effect list" where
  "eval_watch c store = evaluate (c_getRun c) (c_sink c) (c_now c) (c_manual c) (c_watch c) store"

fun evaluations :: "eval_call list \<Rightarrow> (jstr \<times> run_watch) list \<Rightarrow> (jstr \<times> bool) list" where
  "evaluations [] store = []"
| "evaluations (c # cs) store = (c_watch c, fst (eval_watch c store)) # evaluations cs (fst (snd (eval_watch c store)))"

definition fired_in :: "jstr \<Rightarrow> (jstr \<times> run_watch) list \<Rightarrow> bool" where
  "fired_in i store = (case map_of store i of None \<Rightarrow> False | Some w \<Rightarrow> w_status w = WatchFired)"

lemma fired_mark: "fired_in i (markWatchDelivery j d store) = fired_in i store"
  by (auto simp: fired_in_def markWatchDelivery_def update_conv' split: option.split)

lemma fired_fire: "fireWatch j store = (b, store1) \<Longrightarrow> fired_in i store1 = (fired_in i store \<or> i = j \<and> b)"
  by (auto simp: fired_in_def fireWatch_def update_conv' split: option.splits if_splits)

lemma fired_deliver: "fired_in i (fst (snd (deliver_watch sink j w runs store))) = fired_in i store"
  by (simp add: deliver_watch_def fired_mark Let_def)

lemma eval_fired:
  shows "fired_in i store \<Longrightarrow> fired_in i (fst (snd (eval_watch c store)))"
    and "c_watch c = i \<Longrightarrow> fst (eval_watch c store) \<Longrightarrow> \<not> fired_in i store \<and> fired_in i (fst (snd (eval_watch c store)))"
proof -
  obtain b st1 where f: "fireWatch (c_watch c) store = (b, st1)" by fastforce
  show "fired_in i store \<Longrightarrow> fired_in i (fst (snd (eval_watch c store)))"
    using fired_fire [OF f, of i]
    by (auto simp: eval_watch_def evaluate_def Let_def f fired_deliver split: option.split)
  show "c_watch c = i \<Longrightarrow> fst (eval_watch c store) \<Longrightarrow> \<not> fired_in i store \<and> fired_in i (fst (snd (eval_watch c store)))"
    using fired_fire [OF f, of i]
    by (auto simp: eval_watch_def evaluate_def Let_def f fired_deliver split: option.splits if_splits)
      (auto simp: fired_in_def)
qed

lemma fired_silent: "fired_in i store \<Longrightarrow> filter (\<lambda>(j, b). j = i \<and> b) (evaluations cs store) = []"
proof (induction cs arbitrary: store)
  case (Cons c cs)
  from Cons.IH [OF eval_fired(1) [OF Cons.prems]] show ?case using eval_fired(2) [of c i store] Cons.prems by auto
qed simp

text \<open>C32: a watch fires at most once: over any sequence of evaluations of any watches, with any runs, clock and manual
  flag at each, at most one evaluation of a watch succeeds, so its handoff is handed on once.\<close>
theorem watch_fires_once:
  "length (filter (\<lambda>(j, b). j = i \<and> b) (evaluations calls store)) \<le> 1"
proof (induction calls arbitrary: store)
  case (Cons c cs)
  then show ?case using eval_fired(2) [of c i store] fired_silent [of i "fst (snd (eval_watch c store))" cs] by auto
qed simp

text \<open>A watch fires only on what it watches: a successful evaluation found every member run, there is at least one,
  the watch was active, and its condition holds or a member of an all or quorum watch failed or was cancelled.\<close>
theorem watch_fires_for_reason:
  assumes "fst (evaluate getRun sink now manual i store)"
  shows "case map_of store i of None \<Rightarrow> False | Some w \<Rightarrow> w_status w = WatchActive \<and> w_runIds w \<noteq> [] \<and>
    list_all (\<lambda>r. getRun r \<noteq> None) (w_runIds w) \<and>
    (watchConditionSatisfied (w_condition w) (map (\<lambda>r. the (getRun r)) (w_runIds w)) now manual \<or>
     list_ex (\<lambda>r. r_status (the (getRun r)) \<in> {Failed, Cancelled}) (w_runIds w))"
proof -
  have len: "length (lookup_runs getRun ids) \<le> length ids" for ids
    by (induction ids) (auto simp: lookup_runs_def split: option.split)
  have all: "length (lookup_runs getRun ids) = length ids \<Longrightarrow> list_all (\<lambda>r. getRun r \<noteq> None) ids \<and> lookup_runs getRun ids = map (\<lambda>r. the (getRun r)) ids" for ids
  proof (induction ids)
    case (Cons x ids)
    then show ?case using len [of ids] by (cases "getRun x") (auto simp: lookup_runs_def)
  qed (simp add: lookup_runs_def)
  from assms obtain w where w: "map_of store i = Some w" "w_status w = WatchActive" "w_runIds w \<noteq> []"
    and l: "length (lookup_runs getRun (w_runIds w)) = length (w_runIds w)"
    and c: "watchConditionSatisfied (w_condition w) (lookup_runs getRun (w_runIds w)) now manual \<or>
      list_ex (\<lambda>r. r_status r = Failed \<or> r_status r = Cancelled) (lookup_runs getRun (w_runIds w))"
    by (auto simp: evaluate_def Let_def split: option.splits if_splits WatchCondition.splits)
  from all [OF l] w c show ?thesis by (auto simp: list_ex_iff)
qed

definition demo_watch :: run_watch where
  "demo_watch = \<lparr>w_runIds = [js ''r''], w_condition = WatchAny, w_mode = NotifyMode, w_status = WatchActive, w_delivery = DeliveryPending\<rparr>"

theorem watch_fires_for_reason_witness:
  "fst (evaluate (\<lambda>r. Some \<lparr>r_id = r, r_status = Completed, r_handoff = None\<rparr>) (\<lambda>_ _. Delivered) 0 False (js ''w'') [(js ''w'', demo_watch)]) \<and>
   w_runIds demo_watch \<noteq> []"
proof -
  have "fst (evaluate (\<lambda>r. Some \<lparr>r_id = r, r_status = Completed, r_handoff = None\<rparr>) (\<lambda>_ _. Delivered) 0 False (js ''w'') [(js ''w'', demo_watch)])"
    by (simp add: evaluate_def demo_watch_def lookup_runs_def watchConditionSatisfied_def isTerminalRunStatus_def fireWatch_def deliver_watch_def)
  with watch_fires_for_reason [OF this] show ?thesis by simp
qed

end
