(* ===== verification/Runtime_Core.thy ===== *)
theory Runtime_Core
  imports Michi_Prelude
begin

text \<open>
  Two pieces of the runtime core: the queue between an adapter and the consumer of a turn
  (\<^verbatim>\<open>runtime/src/core/eventQueue.ts\<close>) and the approvals of a session (\<^verbatim>\<open>runtime/src/core/approvals.ts\<close>). The
  promise a consumer waits on is the number of its pull; what a call resolves is returned as a list of
  answers. The host's permission port is a record of functions, one per call, because the host may
  change its mind between calls; a reset token that is absent or cannot be read is \<open>None\<close>. The theorems
  say that the queue loses, repeats and reorders nothing and that trust for a session is never used
  beyond the answer that gave it.
\<close>

section \<open>The event queue\<close>

record 'e EventQueue =
  q_buf :: "'e option list"
  q_waiter :: "nat option"
  q_disposed :: bool
  q_pulls :: nat

datatype 'e answer = Resolved nat "'e option" | Interrupted nat

definition new_queue :: "'e EventQueue" where
  "new_queue = \<lparr>q_buf = [], q_waiter = None, q_disposed = False, q_pulls = 0\<rparr>"

definition push_event :: "'e option \<Rightarrow> 'e EventQueue \<Rightarrow> 'e answer list \<times> 'e EventQueue" where
  "push_event ev q = (if q_disposed q then ([], q)
     else case q_waiter q of
        Some w \<Rightarrow> ([Resolved w ev], q\<lparr>q_waiter := None\<rparr>)
      | None \<Rightarrow> ([], q\<lparr>q_buf := q_buf q @ [ev]\<rparr>))"

definition pushFront :: "'e \<Rightarrow> 'e EventQueue \<Rightarrow> 'e answer list \<times> 'e EventQueue" where
  "pushFront ev q = (case q_waiter q of
      Some w \<Rightarrow> ([Resolved w (Some ev)], q\<lparr>q_waiter := None\<rparr>)
    | None \<Rightarrow> ([], q\<lparr>q_buf := Some ev # q_buf q\<rparr>))"

definition pull :: "'e EventQueue \<Rightarrow> 'e answer list \<times> 'e EventQueue" where
  \<comment> \<open>each call has a number of its own; a pull of a disposed, empty queue is answered with \<open>null\<close>\<close>
  "pull q = (let n = q_pulls q; q1 = q\<lparr>q_pulls := n + 1\<rparr>
     in case q_buf q of
          ev # rest \<Rightarrow> ([Resolved n ev], q1\<lparr>q_buf := rest\<rparr>)
        | [] \<Rightarrow> if q_disposed q then ([Interrupted n], q1) else ([], q1\<lparr>q_waiter := Some n\<rparr>))"

definition interruptWaiter :: "'e EventQueue \<Rightarrow> 'e answer list \<times> 'e EventQueue" where
  "interruptWaiter q = (case q_waiter q of
      Some w \<Rightarrow> ([Interrupted w], q\<lparr>q_waiter := None\<rparr>)
    | None \<Rightarrow> ([], q))"

definition dispose :: "'e EventQueue \<Rightarrow> 'e answer list \<times> 'e EventQueue" where
  "dispose q = interruptWaiter (q\<lparr>q_disposed := True\<rparr>)"

text \<open>What \<open>drainUntilTurnEnd\<close> yields of the pulled values: up to a \<open>null\<close> or past the end of the turn.\<close>

fun drainUntilTurnEnd :: "('e \<Rightarrow> bool) \<Rightarrow> 'e option list \<Rightarrow> 'e list" where
  "drainUntilTurnEnd is_end [] = []"
| "drainUntilTurnEnd is_end (None # evs) = []"
| "drainUntilTurnEnd is_end (Some ev # evs) = (if is_end ev then [ev] else ev # drainUntilTurnEnd is_end evs)"

datatype 'e queue_op = Push "'e option" | PushFront 'e | Pull | Interrupt | Dispose

fun queue_step :: "'e EventQueue \<Rightarrow> 'e queue_op \<Rightarrow> 'e answer list \<times> 'e EventQueue" where
  "queue_step q (Push ev) = push_event ev q"
| "queue_step q (PushFront ev) = pushFront ev q"
| "queue_step q Pull = pull q"
| "queue_step q Interrupt = interruptWaiter q"
| "queue_step q Dispose = dispose q"

fun queue_run :: "'e EventQueue \<Rightarrow> 'e queue_op list \<Rightarrow> 'e answer list \<times> 'e EventQueue" where
  "queue_run q [] = ([], q)"
| "queue_run q (op # ops) = (let (out, q1) = queue_step q op; (outs, q2) = queue_run q1 ops in (out @ outs, q2))"

definition delivered :: "'e answer list \<Rightarrow> 'e option list" where
  "delivered outs = concat (map (\<lambda>a. case a of Resolved n ev \<Rightarrow> [ev] | Interrupted n \<Rightarrow> []) outs)"

text \<open>The queue a client has in mind: what was accepted and not yet handed out.\<close>

fun expected :: "bool \<Rightarrow> 'e option list \<Rightarrow> 'e queue_op \<Rightarrow> 'e option list" where
  "expected disposed pending (Push ev) = (if disposed then pending else pending @ [ev])"
| "expected disposed pending (PushFront ev) = Some ev # pending"
| "expected disposed pending _ = pending"

definition queue_ok :: "'e EventQueue \<Rightarrow> bool" where
  "queue_ok q \<longleftrightarrow> (q_waiter q = None \<or> q_buf q = []) \<and> (q_disposed q \<longrightarrow> q_waiter q = None)"

lemmas queue_defs = push_event_def pushFront_def pull_def interruptWaiter_def dispose_def

lemma delivered_simps [simp]:
  "delivered [] = []" "delivered (Resolved n ev # outs) = ev # delivered outs"
  "delivered (Interrupted n # outs) = delivered outs" "delivered (xs @ ys) = delivered xs @ delivered ys"
  by (simp_all add: delivered_def)

lemma queue_step_ok: "queue_ok q \<Longrightarrow> queue_ok (snd (queue_step q op))"
  by (cases op) (auto simp: queue_ok_def queue_defs Let_def split: option.splits list.splits)

lemma queue_step_fifo:
  assumes "queue_ok q"
  shows "delivered (fst (queue_step q op)) @ q_buf (snd (queue_step q op)) = expected (q_disposed q) (q_buf q) op"
  using assms by (cases op) (auto simp: queue_ok_def queue_defs Let_def split: option.splits list.splits)

interpretation queue_machine: invariant_machine "\<lambda>q op. snd (queue_step q op)" "\<lambda>_. True" queue_ok
  by unfold_locales (rule queue_step_ok)

fun accepted_pushes :: "bool \<Rightarrow> 'e queue_op list \<Rightarrow> 'e option list" where
  "accepted_pushes disposed [] = []"
| "accepted_pushes disposed (Push ev # ops) = (if disposed then [] else [ev]) @ accepted_pushes disposed ops"
| "accepted_pushes disposed (Dispose # ops) = accepted_pushes True ops"
| "accepted_pushes disposed (_ # ops) = accepted_pushes disposed ops"

fun only_back :: "'e queue_op \<Rightarrow> bool" where
  "only_back (PushFront ev) = False"
| "only_back _ = True"

lemma disposed_step: "q_disposed (snd (queue_step q op)) = (q_disposed q \<or> op = Dispose)"
  by (cases op) (auto simp: queue_defs Let_def split: option.splits list.splits)

lemma queue_run_fifo:
  "queue_ok q \<Longrightarrow> list_all only_back ops \<Longrightarrow>
   delivered (fst (queue_run q ops)) @ q_buf (snd (queue_run q ops)) = q_buf q @ accepted_pushes (q_disposed q) ops"
proof (induction ops arbitrary: q)
  case (Cons op ops)
  obtain out q1 where s: "queue_step q op = (out, q1)" by fastforce
  have ok: "queue_ok q1" and dis: "q_disposed q1 = (q_disposed q \<or> op = Dispose)"
    using queue_step_ok [OF Cons.prems(1), of op] disposed_step [of q op] by (simp_all add: s)
  have fifo: "delivered out @ q_buf q1 = expected (q_disposed q) (q_buf q) op"
    using queue_step_fifo [OF Cons.prems(1), of op] by (simp add: s)
  have "delivered (fst (queue_run q1 ops)) @ q_buf (snd (queue_run q1 ops)) = q_buf q1 @ accepted_pushes (q_disposed q1) ops"
    using Cons.IH [OF ok] Cons.prems(2) by simp
  then have "delivered (fst (queue_run q (op # ops))) @ q_buf (snd (queue_run q (op # ops))) =
      expected (q_disposed q) (q_buf q) op @ accepted_pushes (q_disposed q1) ops"
    by (simp add: s fifo [symmetric] case_prod_beta Let_def)
  then show ?case using Cons.prems(2) by (cases op) (auto simp: dis)
qed simp

text \<open>C38: the event queue loses, repeats and reorders nothing: whatever pulls, interruptions and disposal are
  interleaved with the pushes, what the pulls were answered with followed by what is still buffered is exactly the
  sequence of pushes accepted before disposal.\<close>
theorem event_queue_fifo:
  assumes "list_all only_back ops"
  shows "delivered (fst (queue_run new_queue ops)) @ q_buf (snd (queue_run new_queue ops)) = accepted_pushes False ops"
proof -
  have "queue_ok new_queue" by (simp add: queue_ok_def new_queue_def)
  from queue_run_fifo [OF this assms] show ?thesis by (simp add: new_queue_def)
qed

theorem event_queue_fifo_witness:
  "delivered (fst (queue_run new_queue [Pull, Push (Some (1 :: nat)), Push None, Interrupt, Pull, Push (Some 2), Dispose, Push (Some 3)])) = [Some 1, None]
   \<and> q_buf (snd (queue_run new_queue [Pull, Push (Some (1 :: nat)), Push None, Interrupt, Pull, Push (Some 2), Dispose, Push (Some 3)])) = [Some 2]"
  using event_queue_fifo [of "[Pull, Push (Some (1 :: nat)), Push None, Interrupt, Pull, Push (Some 2), Dispose, Push (Some 3)]"]
  by (simp add: queue_defs new_queue_def)

section \<open>Approvals\<close>

datatype owner_mode = Interactive | Headless

record RuntimeSessionOwner =
  o_mode :: owner_mode
  o_key :: jstr

datatype host_decision = HostAllow | HostAsk | HostDeny

record session_trust =
  t_ownerKey :: "jstr option"
  t_ownerUserId :: "jstr option"
  t_resetToken :: "jstr option"

record permission_port =
  h_resolveOwnerUserId :: "RuntimeSessionOwner \<Rightarrow> jstr option \<Rightarrow> jstr option"
  h_resetToken :: "RuntimeSessionOwner \<Rightarrow> jstr option \<Rightarrow> jstr option"
  h_decide :: "RuntimeSessionOwner \<Rightarrow> jstr option \<Rightarrow> jstr \<Rightarrow> bool \<Rightarrow> jstr option \<Rightarrow> host_decision"

record approval_state =
  a_sessionTrust :: "session_trust option"
  a_grants :: "(RuntimeSessionOwner \<times> jstr \<times> jstr option) list"

definition approvalCoversTool :: "(jstr \<Rightarrow> jstr) \<Rightarrow> jstr option \<Rightarrow> jstr option \<Rightarrow> jstr option \<Rightarrow> bool" where
  "approvalCoversTool canonicalize choice approvedTool pendingTool \<longleftrightarrow>
     choice = Some (js ''allow_session'')
     \<or> choice = Some (js ''allow_always'') \<and> truthy_str approvedTool \<and> truthy_str pendingTool
       \<and> canonicalize (the approvedTool) = canonicalize (the pendingTool)"

record approval_option =
  b_optionId :: jstr
  b_name :: jstr
  b_kind :: jstr
  b_disabled :: bool

definition chatApprovalOptions :: "jstr option \<Rightarrow> approval_option list" where
  "chatApprovalOptions toolName =
     [\<lparr>b_optionId = js ''reject_once'', b_name = js ''Deny'', b_kind = js ''reject_once'', b_disabled = False\<rparr>,
      \<lparr>b_optionId = js ''allow_once'', b_name = js ''Allow Once'', b_kind = js ''allow_once'', b_disabled = False\<rparr>,
      \<lparr>b_optionId = js ''allow_always'', b_name = js ''Trust this tool'', b_kind = js ''allow_always'', b_disabled = (\<not> truthy_str toolName)\<rparr>,
      \<lparr>b_optionId = js ''allow_session'', b_name = js ''Trust all tools for this session'', b_kind = js ''allow_session'', b_disabled = False\<rparr>]"

definition trustKey :: "RuntimeSessionOwner \<Rightarrow> jstr option" where
  "trustKey owner = (if o_mode owner = Interactive then Some (o_key owner) else None)"

definition resetToken :: "permission_port \<Rightarrow> RuntimeSessionOwner \<Rightarrow> jstr option \<Rightarrow> jstr option" where
  "resetToken port owner user = (if o_mode owner \<noteq> Interactive then None else h_resetToken port owner user)"

definition trust_of :: "permission_port \<Rightarrow> RuntimeSessionOwner \<Rightarrow> jstr option \<Rightarrow> session_trust" where
  "trust_of port owner user = \<lparr>t_ownerKey = trustKey owner, t_ownerUserId = h_resolveOwnerUserId port owner user,
     t_resetToken = resetToken port owner user\<rparr>"

definition approval_policy ::
  "permission_port \<Rightarrow> RuntimeSessionOwner \<Rightarrow> jstr option \<Rightarrow> jstr \<Rightarrow> bool \<Rightarrow> jstr option \<Rightarrow> approval_state \<Rightarrow> host_decision \<times> approval_state" where
  "approval_policy port owner user toolName native mode st =
     (let st1 = (case a_sessionTrust st of None \<Rightarrow> st
            | Some t \<Rightarrow> if o_mode owner \<noteq> Interactive \<or> t_ownerKey t \<noteq> trustKey owner
                  \<or> t_ownerUserId t \<noteq> h_resolveOwnerUserId port owner user
                  \<or> t_resetToken t \<noteq> resetToken port owner user
                then st\<lparr>a_sessionTrust := None\<rparr> else st)
      in if o_mode owner = Interactive \<and> a_sessionTrust st1 \<noteq> None then (HostAllow, st1)
         else (h_decide port owner user toolName native mode, st1))"

definition accept ::
  "permission_port \<Rightarrow> jstr option \<Rightarrow> RuntimeSessionOwner \<Rightarrow> jstr option \<Rightarrow> jstr option \<Rightarrow> approval_state \<Rightarrow> bool \<times> approval_state" where
  "accept port optionId owner toolName user st =
     (if optionId = Some (js ''allow_once'') then (True, st)
      else if o_mode owner \<noteq> Interactive then (False, st)
      else if optionId = Some (js ''allow_always'') \<and> truthy_str toolName
      then (True, st\<lparr>a_grants := a_grants st @ [(owner, the toolName, user)]\<rparr>)
      else if optionId = Some (js ''allow_session'') then (True, st\<lparr>a_sessionTrust := Some (trust_of port owner user)\<rparr>)
      else (False, st))"

text \<open>The calls of one session, each with the port's answers at that moment.\<close>

datatype approval_call =
    AskPolicy permission_port RuntimeSessionOwner "jstr option" jstr bool "jstr option"
  | Answer permission_port "jstr option" RuntimeSessionOwner "jstr option" "jstr option"

fun approval_step :: "approval_state \<Rightarrow> approval_call \<Rightarrow> approval_state" where
  "approval_step st (AskPolicy port owner user tool native mode) = snd (approval_policy port owner user tool native mode st)"
| "approval_step st (Answer port opt owner tool user) = snd (accept port opt owner tool user st)"

definition no_approvals :: approval_state where
  "no_approvals = \<lparr>a_sessionTrust = None, a_grants = []\<rparr>"

fun gives_trust :: "session_trust \<Rightarrow> approval_call \<Rightarrow> bool" where
  "gives_trust t (Answer port opt owner tool user) \<longleftrightarrow>
     opt = Some (js ''allow_session'') \<and> o_mode owner = Interactive \<and> t = trust_of port owner user"
| "gives_trust t _ = False"

fun gives_grant :: "RuntimeSessionOwner \<times> jstr \<times> jstr option \<Rightarrow> approval_call \<Rightarrow> bool" where
  "gives_grant g (Answer port opt owner tool user) \<longleftrightarrow>
     opt = Some (js ''allow_always'') \<and> o_mode owner = Interactive \<and> tool \<noteq> None \<and> g = (owner, the tool, user)"
| "gives_grant g _ = False"

lemma approval_origin:
  "(case a_sessionTrust (foldl approval_step no_approvals calls) of None \<Rightarrow> True | Some t \<Rightarrow> list_ex (gives_trust t) calls)
   \<and> list_all (\<lambda>g. list_ex (gives_grant g) calls) (a_grants (foldl approval_step no_approvals calls))"
proof (induction calls rule: rev_induct)
  case Nil
  show ?case by (simp add: no_approvals_def)
next
  case (snoc c calls)
  define st where "st = foldl approval_step no_approvals calls"
  have run: "foldl approval_step no_approvals (calls @ [c]) = approval_step st c" by (simp add: st_def)
  show ?case
  proof (cases c)
    case (AskPolicy port owner user tool native mode)
    have "a_grants (approval_step st c) = a_grants st" and
      "a_sessionTrust (approval_step st c) = a_sessionTrust st \<or> a_sessionTrust (approval_step st c) = None"
      by (auto simp: AskPolicy approval_policy_def Let_def split: option.split)
    then show ?thesis using snoc unfolding run st_def [symmetric] by (auto simp: list_all_iff split: option.splits)
  next
    case (Answer port opt owner tool user)
    show ?thesis using snoc unfolding run st_def [symmetric]
      by (auto simp: Answer accept_def list_all_iff truthy_str_def split: option.splits)
  qed
qed

text \<open>Trust for a session is used only as it was given: if the policy allows a tool without the host's say, the
  caller is interactive and an earlier answer trusted the session with the same owner key, the same user and the
  reset token that still holds; and every always-allow grant comes from an interactive answer for that tool.\<close>
theorem session_trust_needs_answer:
  assumes "fst (approval_policy port owner user tool native mode (foldl approval_step no_approvals calls)) = HostAllow"
    and "h_decide port owner user tool native mode \<noteq> HostAllow"
  shows "o_mode owner = Interactive \<and> list_ex (gives_trust (trust_of port owner user)) calls \<and>
    list_all (\<lambda>g. list_ex (gives_grant g) calls) (a_grants (foldl approval_step no_approvals calls))"
proof -
  define st where "st = foldl approval_step no_approvals calls"
  from assms obtain t where t: "a_sessionTrust st = Some t" "o_mode owner = Interactive" "t = trust_of port owner user"
    unfolding st_def [symmetric] by (auto simp: approval_policy_def Let_def trust_of_def split: option.splits if_splits)
  with approval_origin [of calls] show ?thesis by (simp add: st_def)
qed

definition demo_port :: "string \<Rightarrow> permission_port" where
  "demo_port tok = \<lparr>h_resolveOwnerUserId = \<lambda>_ u. u, h_resetToken = \<lambda>_ _. Some (js tok), h_decide = \<lambda>_ _ _ _ _. HostAsk\<rparr>"

definition demo_owner :: RuntimeSessionOwner where
  "demo_owner = \<lparr>o_mode = Interactive, o_key = js ''chat''\<rparr>"

theorem session_trust_needs_answer_witness:
  "fst (approval_policy (demo_port ''1'') demo_owner None (js ''shell'') False None
     (foldl approval_step no_approvals [Answer (demo_port ''1'') (Some (js ''allow_session'')) demo_owner None None])) = HostAllow
   \<and> list_ex (gives_trust (trust_of (demo_port ''1'') demo_owner None))
       [Answer (demo_port ''1'') (Some (js ''allow_session'')) demo_owner None None]
   \<and> fst (approval_policy (demo_port ''2'') demo_owner None (js ''shell'') False None
     (foldl approval_step no_approvals [Answer (demo_port ''1'') (Some (js ''allow_session'')) demo_owner None None])) = HostAsk"
proof -
  have a: "fst (approval_policy (demo_port ''1'') demo_owner None (js ''shell'') False None
     (foldl approval_step no_approvals [Answer (demo_port ''1'') (Some (js ''allow_session'')) demo_owner None None])) = HostAllow"
   and b: "fst (approval_policy (demo_port ''2'') demo_owner None (js ''shell'') False None
     (foldl approval_step no_approvals [Answer (demo_port ''1'') (Some (js ''allow_session'')) demo_owner None None])) = HostAsk"
    by (simp_all add: approval_policy_def accept_def no_approvals_def trust_of_def resetToken_def trustKey_def demo_port_def demo_owner_def)
  have d: "h_decide (demo_port ''1'') demo_owner None (js ''shell'') False None \<noteq> HostAllow" by (simp add: demo_port_def)
  from session_trust_needs_answer [OF a d] a b show ?thesis by blast
qed

end
