(* ===== verification/Workflow_Runs.thy ===== *)
theory Workflow_Runs
  imports Subagent_Wire
begin

text \<open>
  Workflow runs (\<^verbatim>\<open>shared/src/workflowRuns.ts\<close>): the snapshot of a long-running workflow that the backend folds,
  stores and pushes, the validation of untrusted snapshots and of the feed's envelopes, and the trimming of
  a snapshot to a size. The clock and the measure of a snapshot are arguments. The theorems bound every
  accepted snapshot and say what trimming never touches.
\<close>

section \<open>Data\<close>

datatype WorkflowRuntime = WfClaude | WfKiro

datatype WorkflowRunStatus = RunRunning | RunPaused | RunCompleted | RunFailed | RunCancelled

datatype WorkflowNodeStatus = NodeQueued | NodeRunning | NodePaused | NodeCompleted | NodeFailed | NodeCancelled | NodeSkipped

datatype WorkflowNodeKind = KindPhase | KindAgent | KindStep | KindParallel | KindLoop | KindBranch | KindGroup
  | KindForeign \<comment> \<open>no kind of the source: what a table of kinds gives for a member name of \<open>Object.prototype\<close>\<close>

datatype WorkflowAction = ActStop | ActPause | ActResume | ActRetry

datatype workflow_severity = SevInfo | SevSuccess | SevWarning | SevError

record WorkflowUsage =
  wu_totalTokens :: "int option"
  wu_toolUses :: "int option"
  wu_durationMs :: "int option"

record WorkflowNodeDto =
  wn_id :: jstr
  wn_parentId :: "jstr option"
  wn_kind :: WorkflowNodeKind
  wn_title :: jstr
  wn_status :: WorkflowNodeStatus
  wn_agentName :: "jstr option"
  wn_model :: "jstr option"
  wn_iteration :: "int option"
  wn_attempt :: "int option"
  wn_prompt :: "jstr option"
  wn_currentTool :: "jstr option"
  wn_statusMessage :: "jstr option"
  wn_result :: "jstr option"
  wn_error :: "jstr option"
  wn_startedAt :: "int option"
  wn_endedAt :: "int option"
  wn_usage :: "WorkflowUsage option"
  wn_toolCount :: "int option"

record WorkflowApprovalOption =
  wo_optionId :: jstr
  wo_name :: jstr
  wo_kind :: "jstr option"

record WorkflowApprovalDto =
  wa_id :: jstr
  wa_nodeId :: "jstr option"
  wa_session :: bool
  wa_title :: jstr
  wa_detail :: "jstr option"
  wa_options :: "WorkflowApprovalOption list"
  wa_requestedAt :: int

record WorkflowLogEntry =
  wl_at :: int
  wl_text :: jstr
  wl_nodeId :: "jstr option"
  wl_severity :: "workflow_severity option"

record WorkflowRunDto =
  wr_id :: jstr
  wr_runtime :: WorkflowRuntime
  wr_nativeId :: jstr
  wr_workspaceId :: jstr
  wr_nodeId :: "jstr option"
  wr_parentToolCallId :: "jstr option"
  wr_name :: jstr
  wr_description :: "jstr option"
  wr_definition :: "jstr option"
  wr_status :: WorkflowRunStatus
  wr_statusDetail :: "jstr option"
  wr_result :: "jstr option"
  wr_nodes :: "WorkflowNodeDto list"
  wr_log :: "WorkflowLogEntry list"
  wr_usage :: "WorkflowUsage option"
  wr_actions :: "WorkflowAction list"
  wr_approvals :: "WorkflowApprovalDto list option"
  wr_startedAt :: int
  wr_updatedAt :: int
  wr_endedAt :: "int option"
  wr_revision :: int
  wr_partial :: bool

record workflow_limits =
  lim_nodes :: nat
  lim_log :: nat
  lim_definition :: nat
  lim_prompt :: nat
  lim_result :: nat
  lim_error :: nat
  lim_title :: nat
  lim_line :: nat
  lim_approvals :: nat
  lim_snapshotBytes :: nat

definition WORKFLOW_LIMITS :: workflow_limits where
  "WORKFLOW_LIMITS = \<lparr>lim_nodes = 200, lim_log = 80, lim_definition = 12000, lim_prompt = 4000, lim_result = 8000,
     lim_error = 2000, lim_title = 300, lim_line = 400, lim_approvals = 20, lim_snapshotBytes = 256000\<rparr>"

definition isWorkflowRunTerminal :: "WorkflowRunStatus \<Rightarrow> bool" where
  "isWorkflowRunTerminal s \<longleftrightarrow> s \<in> {RunCompleted, RunFailed, RunCancelled}"

definition clampWorkflowText :: "jsval \<Rightarrow> nat \<Rightarrow> jstr option" where
  \<comment> \<open>unit 8230 is the ellipsis\<close>
  "clampWorkflowText v mx = (case str_of v of None \<Rightarrow> None
     | Some s \<Rightarrow> let t = js_trim s in if t = [] then None else Some (if mx < length t then take (mx - 1) t @ [8230] else t))"

section \<open>Parsing\<close>

definition text_member :: "jsval \<Rightarrow> jstr option" where
  \<comment> \<open>\<open>str\<close>: a non-empty string\<close>
  "text_member v = (case str_of v of None \<Rightarrow> None | Some s \<Rightarrow> if s = [] then None else Some s)"

definition run_status_of :: "jsval \<Rightarrow> WorkflowRunStatus option" where
  "run_status_of v = map_of [(JStr (js ''running''), RunRunning), (JStr (js ''paused''), RunPaused),
     (JStr (js ''completed''), RunCompleted), (JStr (js ''failed''), RunFailed), (JStr (js ''cancelled''), RunCancelled)] v"

definition node_status_of :: "jsval \<Rightarrow> WorkflowNodeStatus option" where
  "node_status_of v = map_of [(JStr (js ''queued''), NodeQueued), (JStr (js ''running''), NodeRunning), (JStr (js ''paused''), NodePaused),
     (JStr (js ''completed''), NodeCompleted), (JStr (js ''failed''), NodeFailed), (JStr (js ''cancelled''), NodeCancelled),
     (JStr (js ''skipped''), NodeSkipped)] v"

definition node_kind_of :: "jsval \<Rightarrow> WorkflowNodeKind option" where
  "node_kind_of v = map_of [(JStr (js ''phase''), KindPhase), (JStr (js ''agent''), KindAgent), (JStr (js ''step''), KindStep),
     (JStr (js ''parallel''), KindParallel), (JStr (js ''loop''), KindLoop), (JStr (js ''branch''), KindBranch), (JStr (js ''group''), KindGroup)] v"

definition action_of :: "jsval \<Rightarrow> WorkflowAction option" where
  "action_of v = map_of [(JStr (js ''stop''), ActStop), (JStr (js ''pause''), ActPause), (JStr (js ''resume''), ActResume), (JStr (js ''retry''), ActRetry)] v"

definition severity_of :: "jsval \<Rightarrow> workflow_severity option" where
  "severity_of v = map_of [(JStr (js ''info''), SevInfo), (JStr (js ''success''), SevSuccess), (JStr (js ''warning''), SevWarning), (JStr (js ''error''), SevError)] v"

definition no_workflow_usage :: WorkflowUsage where
  "no_workflow_usage = \<lparr>wu_totalTokens = None, wu_toolUses = None, wu_durationMs = None\<rparr>"

definition parseWorkflowUsage :: "jsval \<Rightarrow> WorkflowUsage option" where
  "parseWorkflowUsage v = (if \<not> is_record v then None
     else let usage = \<lparr>wu_totalTokens = num_of (field v ''totalTokens''), wu_toolUses = num_of (field v ''toolUses''),
                       wu_durationMs = num_of (field v ''durationMs'')\<rparr>
          in if usage = no_workflow_usage then None else Some usage)"

definition parseNode :: "jsval \<Rightarrow> WorkflowNodeDto option" where
  "parseNode v = (if \<not> is_record v then None
     else case text_member (field v ''id'') of None \<Rightarrow> None
       | Some i \<Rightarrow> Some \<lparr>wn_id = i,
           wn_parentId = text_member (field v ''parentId''),
           wn_kind = default_to (node_kind_of (field v ''kind'')) KindStep,
           wn_title = default_to (clampWorkflowText (field v ''title'') (lim_title WORKFLOW_LIMITS)) i,
           wn_status = default_to (node_status_of (field v ''status'')) NodeQueued,
           wn_agentName = clampWorkflowText (field v ''agentName'') (lim_title WORKFLOW_LIMITS),
           wn_model = clampWorkflowText (field v ''model'') (lim_title WORKFLOW_LIMITS),
           wn_iteration = num_of (field v ''iteration''),
           wn_attempt = num_of (field v ''attempt''),
           wn_prompt = clampWorkflowText (field v ''prompt'') (lim_prompt WORKFLOW_LIMITS),
           wn_currentTool = clampWorkflowText (field v ''currentTool'') (lim_line WORKFLOW_LIMITS),
           wn_statusMessage = clampWorkflowText (field v ''statusMessage'') (lim_line WORKFLOW_LIMITS),
           wn_result = clampWorkflowText (field v ''result'') (lim_result WORKFLOW_LIMITS),
           wn_error = clampWorkflowText (field v ''error'') (lim_error WORKFLOW_LIMITS),
           wn_startedAt = num_of (field v ''startedAt''),
           wn_endedAt = num_of (field v ''endedAt''),
           wn_usage = parseWorkflowUsage (field v ''usage''),
           wn_toolCount = num_of (field v ''toolCount'')\<rparr>)"

definition parseLogEntry :: "jsval \<Rightarrow> WorkflowLogEntry option" where
  "parseLogEntry v = (if \<not> is_record v then None
     else case (clampWorkflowText (field v ''text'') (lim_line WORKFLOW_LIMITS), num_of (field v ''at'')) of
       (Some t, Some a) \<Rightarrow> Some \<lparr>wl_at = a, wl_text = t, wl_nodeId = text_member (field v ''nodeId''), wl_severity = severity_of (field v ''severity'')\<rparr>
     | _ \<Rightarrow> None)"

definition parseLog :: "jsval \<Rightarrow> WorkflowLogEntry list" where
  "parseLog v = last_n (lim_log WORKFLOW_LIMITS) (List.map_filter parseLogEntry (items_of v))"

definition parseApprovalOption :: "jsval \<Rightarrow> WorkflowApprovalOption option" where
  "parseApprovalOption v = (if \<not> is_record v then None
     else case text_member (field v ''optionId'') of None \<Rightarrow> None
       | Some i \<Rightarrow> Some \<lparr>wo_optionId = i, wo_name = default_to (clampWorkflowText (field v ''name'') (lim_title WORKFLOW_LIMITS)) i,
           wo_kind = text_member (field v ''kind'')\<rparr>)"

definition parseApproval :: "jsval \<Rightarrow> WorkflowApprovalDto option" where
  "parseApproval v = (if \<not> is_record v then None
     else case (text_member (field v ''id''), num_of (field v ''requestedAt''), field v ''options'') of
       (Some i, Some at, JArr os) \<Rightarrow>
         let options = List.map_filter parseApprovalOption os
         in if options = [] then None
            else Some \<lparr>wa_id = i, wa_nodeId = text_member (field v ''nodeId''), wa_session = (field v ''scope'' = JStr (js ''session'')),
              wa_title = default_to (clampWorkflowText (field v ''title'') (lim_title WORKFLOW_LIMITS)) (js ''Approve tool use?''),
              wa_detail = clampWorkflowText (field v ''detail'') (lim_prompt WORKFLOW_LIMITS), wa_options = options, wa_requestedAt = at\<rparr>
     | _ \<Rightarrow> None)"

definition parseApprovals :: "jsval \<Rightarrow> WorkflowApprovalDto list" where
  "parseApprovals v = take (lim_approvals WORKFLOW_LIMITS) (List.map_filter parseApproval (items_of v))"

definition runtime_of :: "jsval \<Rightarrow> WorkflowRuntime option" where
  "runtime_of v = (if v = JStr (js ''claude'') then Some WfClaude else if v = JStr (js ''kiro'') then Some WfKiro else None)"

definition parseWorkflowRunDto :: "jsval \<Rightarrow> WorkflowRunDto option" where
  "parseWorkflowRunDto v = (if \<not> is_record v \<or> field v ''version'' \<noteq> JNum 1 then None
     else case (text_member (field v ''id''), text_member (field v ''nativeId''), text_member (field v ''workspaceId''),
                runtime_of (field v ''runtime''), num_of (field v ''startedAt'')) of
       (Some i, Some native, Some workspace, Some rt, Some started) \<Rightarrow>
         Some \<lparr>wr_id = i, wr_runtime = rt, wr_nativeId = native, wr_workspaceId = workspace,
           wr_nodeId = text_member (field v ''nodeId''), wr_parentToolCallId = text_member (field v ''parentToolCallId''),
           wr_name = default_to (clampWorkflowText (field v ''name'') (lim_title WORKFLOW_LIMITS)) (js ''Workflow''),
           wr_description = clampWorkflowText (field v ''description'') (lim_line WORKFLOW_LIMITS),
           wr_definition = clampWorkflowText (field v ''definition'') (lim_definition WORKFLOW_LIMITS),
           wr_status = default_to (run_status_of (field v ''status'')) RunRunning,
           wr_statusDetail = clampWorkflowText (field v ''statusDetail'') (lim_line WORKFLOW_LIMITS),
           wr_result = clampWorkflowText (field v ''result'') (lim_result WORKFLOW_LIMITS),
           wr_nodes = take (lim_nodes WORKFLOW_LIMITS) (List.map_filter parseNode (items_of (field v ''nodes''))),
           wr_log = parseLog (field v ''log''),
           wr_usage = parseWorkflowUsage (field v ''usage''),
           wr_actions = List.map_filter action_of (items_of (field v ''actions'')),
           wr_approvals = (let a = parseApprovals (field v ''approvals'') in if a \<noteq> [] then Some a else None),
           wr_startedAt = started, wr_updatedAt = default_to (num_of (field v ''updatedAt'')) started,
           wr_endedAt = num_of (field v ''endedAt''), wr_revision = default_to (num_of (field v ''revision'')) 0,
           wr_partial = (field v ''partial'' = JBool True)\<rparr>
     | _ \<Rightarrow> None)"

section \<open>The feed\<close>

record BackgroundSubagentsUpdate =
  bu_snapshot :: bool
  bu_nodes :: "(jstr \<times> jstr list) list"

definition BACKGROUND_SUBAGENT_LIMITS :: "nat \<times> nat \<times> nat" where
  \<comment> \<open>nodes, ids per node, length of an id\<close>
  "BACKGROUND_SUBAGENT_LIMITS = (500, 100, 200)"

definition valid_background_id :: "jsval \<Rightarrow> jstr option" where
  "valid_background_id v = (case str_of v of None \<Rightarrow> None
     | Some s \<Rightarrow> if s \<noteq> [] \<and> length s \<le> snd (snd BACKGROUND_SUBAGENT_LIMITS) then Some s else None)"

definition dedupe :: "'a list \<Rightarrow> 'a list" where
  \<comment> \<open>\<open>[...new Set(xs)]\<close>: first occurrences\<close>
  "dedupe xs = first_seen [] xs"

fun background_nodes :: "nat \<Rightarrow> (jstr \<times> jstr list) list \<Rightarrow> (jstr \<times> jsval) list \<Rightarrow> (jstr \<times> jstr list) list" where
  "background_nodes count out [] = out"
| "background_nodes count out ((nodeId, ids) # rest) =
     (if fst BACKGROUND_SUBAGENT_LIMITS \<le> count then out
      else case (valid_background_id (JStr nodeId), ids) of
        (Some n, JArr vs) \<Rightarrow> background_nodes (count + 1)
          (if n = js ''__proto__'' then out \<comment> \<open>sets the prototype, not a member\<close>
           else AList.update n (take (fst (snd BACKGROUND_SUBAGENT_LIMITS)) (dedupe (List.map_filter valid_background_id vs))) out) rest
      | _ \<Rightarrow> background_nodes count out rest)"

definition parseBackgroundSubagentsUpdate :: "jsval \<Rightarrow> BackgroundSubagentsUpdate option" where
  "parseBackgroundSubagentsUpdate v = (case (is_record v, field v ''nodes'', field v ''snapshot'') of
     (True, JObj nodes, JBool snapshot) \<Rightarrow> Some \<lparr>bu_snapshot = snapshot, bu_nodes = background_nodes 0 [] nodes\<rparr>
   | _ \<Rightarrow> None)"

record BackgroundSubagentsEnded =
  be_nodeId :: jstr
  be_subagents :: "SubagentEnd list"

definition parseBackgroundSubagentsEnded :: "(jstr \<Rightarrow> jsval option) \<Rightarrow> jsval \<Rightarrow> BackgroundSubagentsEnded option" where
  "parseBackgroundSubagentsEnded JSON_parse v = (if \<not> is_record v then None
     else case text_member (field v ''nodeId'') of None \<Rightarrow> None
       | Some n \<Rightarrow> if snd (snd BACKGROUND_SUBAGENT_LIMITS) < length n then None
           else let ends = (case field v ''subagents'' of JArr vs \<Rightarrow> parseSubagentEnds JSON_parse (JArr vs) | _ \<Rightarrow> [])
                in if ends \<noteq> [] then Some \<lparr>be_nodeId = n, be_subagents = ends\<rparr> else None)"

datatype workflow_event = RunEvent WorkflowRunDto | HeartbeatEvent
  | BackgroundEvent BackgroundSubagentsUpdate | BackgroundEndedEvent BackgroundSubagentsEnded

definition parseWorkflowRunSseEnvelope :: "(jstr \<Rightarrow> jsval option) \<Rightarrow> int \<Rightarrow> jsval \<Rightarrow> (workflow_event \<times> int) option" where
  "parseWorkflowRunSseEnvelope JSON_parse now v = (if \<not> is_record v \<or> field v ''version'' \<noteq> JNum 1 then None
     else let at = default_to (num_of (field v ''emittedAt'')) now; ev = field v ''event'' in
       if ev = JStr (js ''heartbeat'') then Some (HeartbeatEvent, at)
       else if ev = JStr (js ''background_subagents'')
       then map_option (\<lambda>u. (BackgroundEvent u, at)) (parseBackgroundSubagentsUpdate (field v ''backgroundSubagents''))
       else if ev = JStr (js ''background_subagents_ended'')
       then map_option (\<lambda>u. (BackgroundEndedEvent u, at)) (parseBackgroundSubagentsEnded JSON_parse (field v ''backgroundSubagentsEnded''))
       else if ev \<noteq> JStr (js ''workflow_run'') then None
       else map_option (\<lambda>r. (RunEvent r, at)) (parseWorkflowRunDto (field v ''run'')))"

section \<open>Trimming\<close>

definition clampOptional :: "jstr option \<Rightarrow> nat \<Rightarrow> jstr option" where
  "clampOptional s mx = (case s of None \<Rightarrow> None | Some t \<Rightarrow> clampWorkflowText (JStr t) mx)"

definition clampNode :: "nat \<Rightarrow> WorkflowNodeDto \<Rightarrow> WorkflowNodeDto" where
  "clampNode mx node =
     (let cut = (\<lambda>s. if mx = 0 then None else clampOptional s mx)
      in node\<lparr>wn_title := default_to (clampWorkflowText (JStr (wn_title node)) (max mx 80)) (wn_id node),
           wn_prompt := cut (wn_prompt node), wn_currentTool := cut (wn_currentTool node),
           wn_statusMessage := cut (wn_statusMessage node), wn_result := cut (wn_result node), wn_error := cut (wn_error node)\<rparr>)"

definition trimWorkflowRun :: "nat \<Rightarrow> nat \<Rightarrow> WorkflowRunDto \<Rightarrow> WorkflowRunDto" where
  "trimWorkflowRun mx logEntries run =
     run\<lparr>wr_nodes := map (clampNode mx) (wr_nodes run),
       wr_log := (if logEntries = 0 then [] else map (\<lambda>e. e\<lparr>wl_text := default_to (clampWorkflowText (JStr (wl_text e)) (max mx 80)) []\<rparr>)
                    (last_n logEntries (wr_log run))),
       wr_definition := (if mx = 0 then None else clampOptional (wr_definition run) (mx * 2)),
       wr_statusDetail := clampOptional (wr_statusDetail run) (max mx (lim_line WORKFLOW_LIMITS)),
       wr_result := clampOptional (wr_result run) (max (mx * 4) 400)\<rparr>"

fun trim_steps :: "(WorkflowRunDto \<Rightarrow> nat) \<Rightarrow> nat \<Rightarrow> (nat \<times> nat) list \<Rightarrow> WorkflowRunDto \<Rightarrow> WorkflowRunDto" where
  "trim_steps size_of_run maxBytes [] run = run"
| "trim_steps size_of_run maxBytes ((mx, logEntries) # steps) run =
     (let trimmed = trimWorkflowRun mx logEntries run
      in if size_of_run trimmed \<le> maxBytes then trimmed else trim_steps size_of_run maxBytes steps trimmed)"

definition TRIM_STEPS :: "(nat \<times> nat) list" where
  "TRIM_STEPS = [(1000, 20), (200, 10), (60, 3), (0, 0)]"

definition boundWorkflowRun :: "(WorkflowRunDto \<Rightarrow> nat) \<Rightarrow> nat \<Rightarrow> WorkflowRunDto \<Rightarrow> WorkflowRunDto" where
  "boundWorkflowRun size_of_run maxBytes run =
     (if size_of_run run \<le> maxBytes then run else trim_steps size_of_run maxBytes TRIM_STEPS run)"

definition workflowProgress :: "WorkflowNodeDto list \<Rightarrow> nat \<times> nat \<times> nat \<times> nat" where
  \<comment> \<open>done, total, running, failed\<close>
  "workflowProgress nodes = (let leaves = filter (\<lambda>n. wn_kind n = KindAgent \<or> wn_kind n = KindStep) nodes
     in (length (filter (\<lambda>n. wn_status n = NodeCompleted \<or> wn_status n = NodeSkipped) leaves), length leaves,
         length (filter (\<lambda>n. wn_status n = NodeRunning) leaves), length (filter (\<lambda>n. wn_status n = NodeFailed) leaves)))"

section \<open>Bounds and what trimming keeps\<close>

lemma clamp_bounds:
  assumes "clampWorkflowText v mx = Some t" and "0 < mx"
  shows "t \<noteq> [] \<and> length t \<le> mx"
  using assms by (auto simp: clampWorkflowText_def Let_def split: option.splits if_splits)

definition opt_len :: "nat \<Rightarrow> jstr option \<Rightarrow> bool" where
  "opt_len mx s = (case s of None \<Rightarrow> True | Some t \<Rightarrow> t \<noteq> [] \<and> length t \<le> mx)"

lemma opt_len_clamp: "0 < mx \<Longrightarrow> opt_len mx (clampWorkflowText v mx)"
  using clamp_bounds by (auto simp: opt_len_def split: option.split)

lemma length_last_n: "length (last_n n xs) \<le> n"
  by (simp add: last_n_def)

definition node_bounded :: "WorkflowNodeDto \<Rightarrow> bool" where
  "node_bounded n \<longleftrightarrow> wn_id n \<noteq> [] \<and> opt_len 300 (wn_agentName n) \<and> opt_len 300 (wn_model n) \<and> opt_len 4000 (wn_prompt n)
     \<and> opt_len 400 (wn_currentTool n) \<and> opt_len 400 (wn_statusMessage n) \<and> opt_len 8000 (wn_result n) \<and> opt_len 2000 (wn_error n)
     \<and> (length (wn_title n) \<le> 300 \<or> wn_title n = wn_id n)"

lemma text_member_Some: "text_member v = Some s \<Longrightarrow> s \<noteq> []"
  by (auto simp: text_member_def split: option.splits if_splits)

lemma title_bound: "0 < mx \<Longrightarrow> length (default_to (clampWorkflowText v mx) i) \<le> mx \<or> default_to (clampWorkflowText v mx) i = i"
  using clamp_bounds by (cases "clampWorkflowText v mx") auto

lemma parseNode_bounded: "parseNode v = Some n \<Longrightarrow> node_bounded n"
  using title_bound [of 300 "field v ''title''" "wn_id n"]
  by (auto simp: parseNode_def node_bounded_def WORKFLOW_LIMITS_def opt_len_clamp text_member_Some split: if_splits option.splits)

lemma map_filter_all: "(\<And>v x. f v = Some x \<Longrightarrow> P x) \<Longrightarrow> list_all P (List.map_filter f vs)"
  by (auto simp: List.map_filter_def list_all_iff)

lemma list_all_take: "list_all P xs \<Longrightarrow> list_all P (take n xs)"
  by (auto simp: list_all_iff dest: in_set_takeD)

text \<open>An accepted snapshot is bounded: a run read from untrusted JSON has its identifiers, at most 200 nodes, 80
  log entries and 20 approvals, and every free text within its limit; a node's title is bounded or its id.\<close>
theorem parsed_run_bounded:
  assumes "parseWorkflowRunDto v = Some run"
  shows "wr_id run \<noteq> [] \<and> wr_nativeId run \<noteq> [] \<and> wr_workspaceId run \<noteq> [] \<and>
    length (wr_nodes run) \<le> 200 \<and> list_all node_bounded (wr_nodes run) \<and> length (wr_log run) \<le> 80 \<and>
    (case wr_approvals run of None \<Rightarrow> True | Some a \<Rightarrow> a \<noteq> [] \<and> length a \<le> 20) \<and>
    opt_len 400 (wr_description run) \<and> opt_len 12000 (wr_definition run) \<and> opt_len 400 (wr_statusDetail run) \<and> opt_len 8000 (wr_result run)"
proof -
  from assms obtain i native workspace where ids: "text_member (field v ''id'') = Some i"
      "text_member (field v ''nativeId'') = Some native" "text_member (field v ''workspaceId'') = Some workspace"
    and run: "wr_id run = i" "wr_nativeId run = native" "wr_workspaceId run = workspace"
      "wr_nodes run = take 200 (List.map_filter parseNode (items_of (field v ''nodes'')))" "wr_log run = parseLog (field v ''log'')"
      "wr_approvals run = (let a = parseApprovals (field v ''approvals'') in if a \<noteq> [] then Some a else None)"
      "wr_description run = clampWorkflowText (field v ''description'') 400" "wr_definition run = clampWorkflowText (field v ''definition'') 12000"
      "wr_statusDetail run = clampWorkflowText (field v ''statusDetail'') 400" "wr_result run = clampWorkflowText (field v ''result'') 8000"
    by (auto simp: parseWorkflowRunDto_def WORKFLOW_LIMITS_def split: if_splits option.splits)
  have "length (parseApprovals w) \<le> 20" for w by (simp add: parseApprovals_def WORKFLOW_LIMITS_def)
  moreover have "length (parseLog w) \<le> 80" for w using length_last_n [of 80] by (simp add: parseLog_def WORKFLOW_LIMITS_def)
  moreover have "list_all node_bounded (wr_nodes run)" unfolding run(4)
    by (intro list_all_take map_filter_all parseNode_bounded)
  ultimately show ?thesis using ids [THEN text_member_Some] by (simp add: run opt_len_clamp Let_def)
qed

definition demo_run_json :: jsval where
  "demo_run_json = JObj [(js ''version'', JNum 1), (js ''id'', JStr (js ''claude:1'')), (js ''nativeId'', JStr (js ''1'')), (js ''workspaceId'', JStr (js ''w'')),
     (js ''runtime'', JStr (js ''claude'')), (js ''startedAt'', JNum 5), (js ''status'', JStr (js ''paused''))]"

theorem parsed_run_bounded_witness:
  "case parseWorkflowRunDto demo_run_json of None \<Rightarrow> False | Some run \<Rightarrow> wr_status run = RunPaused \<and> length (wr_nodes run) \<le> 200"
proof -
  have "parseWorkflowRunDto demo_run_json \<noteq> None"
    by (simp add: parseWorkflowRunDto_def demo_run_json_def text_member_def runtime_of_def)
  then obtain run where r: "parseWorkflowRunDto demo_run_json = Some run" by blast
  moreover have "wr_status run = RunPaused" using r
    by (auto simp: parseWorkflowRunDto_def demo_run_json_def text_member_def runtime_of_def run_status_of_def)
  ultimately show ?thesis using parsed_run_bounded [OF r] by simp
qed

text \<open>The part of a node and of a run that progress, controls and approvals are shown from.\<close>

definition node_skeleton :: "WorkflowNodeDto \<Rightarrow> jstr \<times> jstr option \<times> WorkflowNodeKind \<times> WorkflowNodeStatus \<times> int option \<times> int option \<times> int option" where
  "node_skeleton n = (wn_id n, wn_parentId n, wn_kind n, wn_status n, wn_startedAt n, wn_endedAt n, wn_toolCount n)"

definition same_skeleton :: "WorkflowRunDto \<Rightarrow> WorkflowRunDto \<Rightarrow> bool" where
  "same_skeleton r q \<longleftrightarrow> map node_skeleton (wr_nodes r) = map node_skeleton (wr_nodes q) \<and> wr_status r = wr_status q
     \<and> wr_approvals r = wr_approvals q \<and> wr_actions r = wr_actions q \<and> wr_revision r = wr_revision q
     \<and> wr_id r = wr_id q \<and> wr_endedAt r = wr_endedAt q \<and> workflowProgress (wr_nodes r) = workflowProgress (wr_nodes q)"

lemma skeleton_progress:
  "map node_skeleton ns = map node_skeleton ms \<Longrightarrow> workflowProgress ns = workflowProgress ms"
proof -
  assume e: "map node_skeleton ns = map node_skeleton ms"
  have len: "length (filter P (filter Q ns)) = length (filter P (filter Q ms))"
    if "\<And>a b. node_skeleton a = node_skeleton b \<Longrightarrow> P a = P b \<and> Q a = Q b" for P Q
    using e
  proof (induction ns arbitrary: ms)
    case (Cons n ns)
    then obtain m ms' where m: "ms = m # ms'" "node_skeleton n = node_skeleton m" "map node_skeleton ns = map node_skeleton ms'"
      by (cases ms) auto
    from Cons.IH [OF m(3)] that [OF m(2)] show ?case by (simp add: m(1))
  qed simp
  have k: "wn_kind a = wn_kind b \<and> wn_status a = wn_status b" if "node_skeleton a = node_skeleton b" for a b
    using that by (simp add: node_skeleton_def)
  have leaf: "length (filter (\<lambda>n. R (wn_status n)) (filter (\<lambda>n. wn_kind n = KindAgent \<or> wn_kind n = KindStep) ns)) =
      length (filter (\<lambda>n. R (wn_status n)) (filter (\<lambda>n. wn_kind n = KindAgent \<or> wn_kind n = KindStep) ms))" for R
  proof (rule len)
    fix a b
    assume "node_skeleton a = node_skeleton b"
    from k [OF this] show "R (wn_status a) = R (wn_status b) \<and>
      (wn_kind a = KindAgent \<or> wn_kind a = KindStep) = (wn_kind b = KindAgent \<or> wn_kind b = KindStep)" by simp
  qed
  have total: "length (filter (\<lambda>n. wn_kind n = KindAgent \<or> wn_kind n = KindStep) ns) = length (filter (\<lambda>n. wn_kind n = KindAgent \<or> wn_kind n = KindStep) ms)"
    using leaf [of "\<lambda>_. True"] by simp
  show ?thesis
    using leaf [of "\<lambda>s. s = NodeCompleted \<or> s = NodeSkipped"] leaf [of "\<lambda>s. s = NodeRunning"] leaf [of "\<lambda>s. s = NodeFailed"] total
    unfolding workflowProgress_def Let_def by (simp only:)
qed

lemma trim_skeleton: "same_skeleton (trimWorkflowRun mx le run) run"
proof -
  have "map node_skeleton (wr_nodes (trimWorkflowRun mx le run)) = map node_skeleton (wr_nodes run)"
    by (simp add: trimWorkflowRun_def clampNode_def node_skeleton_def Let_def)
  with skeleton_progress [OF this] show ?thesis by (simp add: same_skeleton_def) (simp add: trimWorkflowRun_def)
qed

lemma trim_steps_skeleton: "same_skeleton (trim_steps size_of_run mb steps run) run"
proof (induction steps arbitrary: run)
  case (Cons s steps)
  obtain mx le where s: "s = (mx, le)" by fastforce
  have tr: "same_skeleton a b \<Longrightarrow> same_skeleton b c \<Longrightarrow> same_skeleton a c" for a b c by (simp add: same_skeleton_def)
  show ?case using tr [OF Cons trim_skeleton, of mx le run] trim_skeleton [of mx le run] by (simp add: s Let_def)
qed (simp add: same_skeleton_def)

text \<open>Trimming a snapshot to a size never changes what it says: nodes with their statuses, the run's status,
  pending approvals, controls, revision and the progress counts are those of the full snapshot.\<close>
theorem bounding_keeps_skeleton:
  "same_skeleton (boundWorkflowRun size_of_run maxBytes run) run"
proof (cases "size_of_run run \<le> maxBytes")
  case True
  then show ?thesis by (simp add: boundWorkflowRun_def same_skeleton_def)
qed (simp add: boundWorkflowRun_def trim_steps_skeleton)

end
