(* ===== verification/Workflow_Folds.thy ===== *)
theory Workflow_Folds
  imports Workflow_Runs
begin

text \<open>
  The folds that turn a runtime's native events into workflow snapshots:
  \<^verbatim>\<open>runtime/src/core/workflows/claudeWorkflowFold.ts\<close> and \<^verbatim>\<open>kiroWorkflowFold.ts\<close>. Every parameter object is an
  untrusted value; \<open>stringify\<close> and \<open>pretty\<close> stand for \<open>JSON.stringify\<close> without and with indentation, \<open>None\<close> being
  \<open>undefined\<close>. A phase carries its index, from which the source's sort reads its order. The theorems say
  that the snapshot stays bounded whatever arrives, that a finished run has no running node, and which
  events can reopen a finished run.
\<close>

section \<open>Shared pieces\<close>

definition rec_of :: "jsval \<Rightarrow> jsval" where
  \<comment> \<open>\<open>rec\<close>: a plain object or \<open>undefined\<close>; reading a member of the result gives \<open>undefined\<close> then\<close>
  "rec_of v = (if is_record v then v else JUndefined)"

definition appendWorkflowLog :: "WorkflowLogEntry list \<Rightarrow> WorkflowLogEntry \<Rightarrow> WorkflowLogEntry list" where
  "appendWorkflowLog log entry =
     (if log \<noteq> [] \<and> wl_text (last log) = wl_text entry \<and> wl_nodeId (last log) = wl_nodeId entry then log
      else last_n (lim_log WORKFLOW_LIMITS) (log @ [entry]))"

definition merge_workflow_usage :: "WorkflowUsage option \<Rightarrow> WorkflowUsage \<Rightarrow> WorkflowUsage" where
  \<comment> \<open>\<open>{ ...run.usage, ...usage }\<close>\<close>
  "merge_workflow_usage old new = (let o' = default_to old no_workflow_usage
     in \<lparr>wu_totalTokens = nullish (wu_totalTokens new) (wu_totalTokens o'), wu_toolUses = nullish (wu_toolUses new) (wu_toolUses o'),
         wu_durationMs = nullish (wu_durationMs new) (wu_durationMs o')\<rparr>)"

definition blank_node :: "jstr \<Rightarrow> WorkflowNodeKind \<Rightarrow> jstr \<Rightarrow> WorkflowNodeStatus \<Rightarrow> WorkflowNodeDto" where
  "blank_node i k t s = \<lparr>wn_id = i, wn_parentId = None, wn_kind = k, wn_title = t, wn_status = s, wn_agentName = None, wn_model = None,
     wn_iteration = None, wn_attempt = None, wn_prompt = None, wn_currentTool = None, wn_statusMessage = None, wn_result = None,
     wn_error = None, wn_startedAt = None, wn_endedAt = None, wn_usage = None, wn_toolCount = None\<rparr>"

section \<open>Claude\<close>

definition isClaudeWorkflowStart :: "jsval \<Rightarrow> bool" where
  "isClaudeWorkflowStart env \<longleftrightarrow> field env ''type'' = JStr (js ''system'') \<and> field env ''subtype'' = JStr (js ''task_started'')
     \<and> field env ''task_type'' = JStr (js ''local_workflow'')"

definition claudeTaskId :: "jsval \<Rightarrow> jstr option" where
  "claudeTaskId env = (case field env ''subtype'' of
     JStr s \<Rightarrow> if field env ''type'' = JStr (js ''system'') \<and> starts_with s (js ''task_'') then text_member (field env ''task_id'') else None
   | _ \<Rightarrow> None)"

definition usageFrom :: "jsval \<Rightarrow> WorkflowUsage option" where
  "usageFrom raw = (let usage = \<lparr>wu_totalTokens = num_of (field raw ''total_tokens''), wu_toolUses = num_of (field raw ''tool_uses''),
       wu_durationMs = num_of (field raw ''duration_ms'')\<rparr>
     in if raw = JUndefined \<or> usage = no_workflow_usage then None else Some usage)"

definition agentStatus :: "jstr option \<Rightarrow> int option \<Rightarrow> WorkflowNodeStatus" where
  "agentStatus state startedAt = (case map_of
       [(js ''done'', NodeCompleted), (js ''completed'', NodeCompleted), (js ''error'', NodeFailed), (js ''failed'', NodeFailed),
        (js ''cancelled'', NodeCancelled), (js ''killed'', NodeCancelled), (js ''stopped'', NodeCancelled), (js ''skipped'', NodeSkipped)]
       (default_to state []) of
     Some s \<Rightarrow> s
   | None \<Rightarrow> if startedAt \<noteq> None \<or> state = Some (js ''start'') \<or> state = Some (js ''running'') then NodeRunning else NodeQueued)"

definition phaseStatus :: "WorkflowNodeDto list \<Rightarrow> WorkflowNodeStatus" where
  "phaseStatus children =
     (if children = [] then NodeQueued
      else if list_ex (\<lambda>c. wn_status c = NodeRunning) children then NodeRunning
      else if list_all (\<lambda>c. wn_status c = NodeCompleted \<or> wn_status c = NodeSkipped) children then NodeCompleted
      else if list_ex (\<lambda>c. wn_status c = NodeFailed) children then NodeFailed
      else if list_ex (\<lambda>c. wn_status c = NodeCancelled) children then NodeCancelled
      else NodeRunning)"

definition phase_id :: "int \<Rightarrow> jstr" where
  "phase_id i = js ''phase:'' @ decimal_int i"

definition claude_agent :: "jsval \<Rightarrow> int \<Rightarrow> int \<Rightarrow> WorkflowNodeDto" where
  "claude_agent item index now =
     (let startedAt = num_of (field item ''startedAt'');
          status = agentStatus (text_member (field item ''state'')) startedAt;
          durationMs = num_of (field item ''durationMs'');
          tool = text_member (field item ''lastToolName'');
          toolSummary = text_member (field item ''lastToolSummary'');
          usage = \<lparr>wu_totalTokens = num_of (field item ''tokens''), wu_toolUses = num_of (field item ''toolCalls''), wu_durationMs = durationMs\<rparr>
      in \<lparr>wn_id = js ''agent:'' @ decimal_int index,
          wn_parentId = map_option phase_id (num_of (field item ''phaseIndex'')),
          wn_kind = KindAgent,
          wn_title = default_to (clampWorkflowText (field item ''label'') (lim_title WORKFLOW_LIMITS)) (js ''Agent '' @ decimal_int index),
          wn_status = status,
          wn_agentName = None,
          wn_model = text_member (field item ''model''),
          wn_iteration = None,
          wn_attempt = num_of (field item ''attempt''),
          wn_prompt = clampWorkflowText (field item ''promptPreview'') (lim_prompt WORKFLOW_LIMITS),
          wn_currentTool = (case tool of None \<Rightarrow> None
            | Some t \<Rightarrow> if status = NodeRunning
                then clampWorkflowText (JStr (case toolSummary of Some u \<Rightarrow> t @ [32] @ u | None \<Rightarrow> t)) (lim_line WORKFLOW_LIMITS) else None),
          wn_statusMessage = None,
          wn_result = clampWorkflowText (field item ''resultPreview'') (lim_result WORKFLOW_LIMITS),
          wn_error = clampWorkflowText (field item ''error'') (lim_error WORKFLOW_LIMITS),
          wn_startedAt = startedAt,
          wn_endedAt = (case startedAt of None \<Rightarrow> None
            | Some a \<Rightarrow> if status \<noteq> NodeRunning \<and> status \<noteq> NodeQueued
                then Some (case durationMs of Some d \<Rightarrow> a + d | None \<Rightarrow> now) else None),
          wn_usage = (if usage = no_workflow_usage then None else Some usage),
          wn_toolCount = wu_toolUses usage\<rparr>)"

text \<open>One pass over the snapshot: the phases with their indices, and the agents with their phases' indices.\<close>

definition claude_item :: "int \<Rightarrow> (int \<times> WorkflowNodeDto) list \<times> (int option \<times> WorkflowNodeDto) list \<Rightarrow> jsval
    \<Rightarrow> (int \<times> WorkflowNodeDto) list \<times> (int option \<times> WorkflowNodeDto) list" where
  "claude_item now acc item = (case acc of (phases, agents) \<Rightarrow>
     if \<not> is_record item then acc
     else case num_of (field item ''index'') of None \<Rightarrow> acc
       | Some index \<Rightarrow>
           if field item ''type'' = JStr (js ''workflow_phase'')
           then (phases @ [(index, blank_node (phase_id index) KindPhase
                   (default_to (clampWorkflowText (field item ''title'') (lim_title WORKFLOW_LIMITS)) (js ''Phase '' @ decimal_int index)) NodeQueued)], agents)
           else if field item ''type'' = JStr (js ''workflow_agent'')
           then (phases, agents @ [(num_of (field item ''phaseIndex''), claude_agent item index now)])
           else acc)"

definition add_missing_phase :: "(int \<times> WorkflowNodeDto) list \<Rightarrow> int option \<times> WorkflowNodeDto \<Rightarrow> (int \<times> WorkflowNodeDto) list" where
  "add_missing_phase phases agent = (case fst agent of None \<Rightarrow> phases
     | Some k \<Rightarrow> if list_ex (\<lambda>p. wn_id (snd p) = phase_id k) phases then phases
         else phases @ [(k, blank_node (phase_id k) KindPhase (js ''Phase '' @ decimal_int k) NodeQueued)])"

definition claudeWorkflowNodes :: "jsval \<Rightarrow> int \<Rightarrow> WorkflowNodeDto list" where
  "claudeWorkflowNodes progress now =
     (let (phases0, tagged) = foldl (claude_item now) ([], []) (items_of progress);
          agents = map snd tagged;
          phases = sort_key fst (foldl add_missing_phase phases0 tagged);
          grouped = concat (map (\<lambda>p. let children = filter (\<lambda>a. wn_parentId a = Some (wn_id (snd p))) agents
                                      in (snd p)\<lparr>wn_status := phaseStatus children\<rparr> # children) phases)
      in take (lim_nodes WORKFLOW_LIMITS) (grouped @ filter (\<lambda>a. wn_parentId a = None) agents))"

definition terminalStatus :: "jstr option \<Rightarrow> WorkflowRunStatus option" where
  "terminalStatus raw = map_of [(Some (js ''completed''), RunCompleted), (Some (js ''failed''), RunFailed), (Some (js ''killed''), RunCancelled),
     (Some (js ''stopped''), RunCancelled), (Some (js ''cancelled''), RunCancelled)] raw"

definition closeNodes :: "WorkflowNodeDto list \<Rightarrow> WorkflowRunStatus \<Rightarrow> int \<Rightarrow> WorkflowNodeDto list" where
  "closeNodes nodes status now =
     (let closed = (if status = RunCompleted then NodeCompleted else NodeCancelled)
      in map (\<lambda>n. if wn_status n = NodeRunning \<or> wn_status n = NodeQueued \<and> status \<noteq> RunCompleted
                  then n\<lparr>wn_status := (if wn_status n = NodeQueued then NodeSkipped else closed), wn_currentTool := None,
                         wn_endedAt := Some (default_to (wn_endedAt n) now)\<rparr>
                  else n) nodes)"

definition claudeWorkflowSeed :: "jsval \<Rightarrow> WorkflowRunDto \<Rightarrow> WorkflowRunDto" where
  \<comment> \<open>\<open>{ ...run, ...claudeWorkflowSeed(env) }\<close>\<close>
  "claudeWorkflowSeed env run =
     (let description = clampWorkflowText (field env ''description'') (lim_line WORKFLOW_LIMITS)
      in run\<lparr>wr_name := default_to (nullish (clampWorkflowText (field env ''workflow_name'') (lim_title WORKFLOW_LIMITS)) description) (js ''Workflow''),
             wr_description := nullish description (wr_description run),
             wr_definition := nullish (clampWorkflowText (field env ''prompt'') (lim_definition WORKFLOW_LIMITS)) (wr_definition run),
             wr_parentToolCallId := text_member (field env ''tool_use_id'')\<rparr>)"

definition claude_progress :: "WorkflowRunDto \<Rightarrow> jsval \<Rightarrow> int \<Rightarrow> WorkflowRunDto" where
  "claude_progress run env now =
     (let usage = usageFrom (rec_of (field env ''usage''));
          description = clampWorkflowText (field env ''description'') (lim_line WORKFLOW_LIMITS)
      in run\<lparr>wr_usage := (case usage of None \<Rightarrow> wr_usage run | Some u \<Rightarrow> Some (merge_workflow_usage (wr_usage run) u)),
             wr_nodes := (case field env ''workflow_progress'' of JArr items \<Rightarrow> claudeWorkflowNodes (JArr items) now | _ \<Rightarrow> wr_nodes run),
             wr_statusDetail := (if wr_status run = RunRunning then nullish description (wr_statusDetail run) else wr_statusDetail run)\<rparr>)"

definition claude_updated :: "WorkflowRunDto \<Rightarrow> jsval \<Rightarrow> int \<Rightarrow> WorkflowRunDto" where
  "claude_updated run env now =
     (let patch = rec_of (field env ''patch'') in
      case terminalStatus (text_member (field patch ''status'')) of None \<Rightarrow> run
      | Some status \<Rightarrow>
          let endedAt = default_to (num_of (field patch ''end_time'')) now;
              err = clampWorkflowText (field patch ''error'') (lim_line WORKFLOW_LIMITS)
          in run\<lparr>wr_status := status, wr_endedAt := Some (default_to (wr_endedAt run) endedAt),
                 wr_nodes := closeNodes (wr_nodes run) status endedAt, wr_statusDetail := nullish err (wr_statusDetail run)\<rparr>)"

definition claude_notification :: "WorkflowRunDto \<Rightarrow> jsval \<Rightarrow> int \<Rightarrow> WorkflowRunDto" where
  "claude_notification run env now =
     (let status = default_to (terminalStatus (text_member (field env ''status''))) (wr_status run);
          summary = clampWorkflowText (field env ''summary'') (lim_line WORKFLOW_LIMITS);
          usage = usageFrom (rec_of (field env ''usage''));
          endedAt = default_to (wr_endedAt run) now;
          keepDetail = (status \<noteq> RunCompleted \<and> isWorkflowRunTerminal (wr_status run) \<and> truthy_str (wr_statusDetail run))
      in run\<lparr>wr_status := status, wr_endedAt := Some endedAt,
             wr_nodes := (if isWorkflowRunTerminal status then closeNodes (wr_nodes run) status endedAt else wr_nodes run),
             wr_statusDetail := (if keepDetail then wr_statusDetail run else nullish summary (wr_statusDetail run)),
             wr_usage := (case usage of None \<Rightarrow> wr_usage run | Some u \<Rightarrow> Some (merge_workflow_usage (wr_usage run) u))\<rparr>)"

definition applyClaudeWorkflowEnvelope :: "WorkflowRunDto \<Rightarrow> jsval \<Rightarrow> int \<Rightarrow> WorkflowRunDto" where
  "applyClaudeWorkflowEnvelope run env now =
     (let subtype = text_member (field env ''subtype'')
      in if subtype = Some (js ''task_started'') then (claudeWorkflowSeed env run)\<lparr>wr_status := RunRunning\<rparr>
         else if isWorkflowRunTerminal (wr_status run) \<and> subtype \<noteq> Some (js ''task_notification'') then run
         else if subtype = Some (js ''task_progress'') then claude_progress run env now
         else if subtype = Some (js ''task_updated'') then claude_updated run env now
         else if subtype = Some (js ''task_notification'') then claude_notification run env now
         else run)"

definition output_line :: "int \<Rightarrow> WorkflowLogEntry list \<Rightarrow> jsval \<Rightarrow> WorkflowLogEntry list" where
  "output_line now log line =
     (case clampWorkflowText (case line of JStr s \<Rightarrow> line | _ \<Rightarrow> field (rec_of line) ''message'') (lim_line WORKFLOW_LIMITS) of
        None \<Rightarrow> log
      | Some t \<Rightarrow> appendWorkflowLog log \<lparr>wl_at = now, wl_text = t, wl_nodeId = None, wl_severity = None\<rparr>)"

definition applyClaudeWorkflowOutput :: "(jsval \<Rightarrow> jstr option) \<Rightarrow> WorkflowRunDto \<Rightarrow> jsval \<Rightarrow> int \<Rightarrow> WorkflowRunDto" where
  "applyClaudeWorkflowOutput pretty run output now = (if \<not> is_record output then run
     else let resultValue = field output ''result'';
              result = (case resultValue of JStr s \<Rightarrow> clampWorkflowText resultValue (lim_result WORKFLOW_LIMITS)
                | JUndefined \<Rightarrow> None | JNull \<Rightarrow> None
                | _ \<Rightarrow> (case pretty resultValue of None \<Rightarrow> None | Some t \<Rightarrow> clampWorkflowText (JStr t) (lim_result WORKFLOW_LIMITS)));
              log = foldl (output_line now) (wr_log run) (items_of (field output ''logs''));
              nodes = (case field output ''workflowProgress'' of
                  JArr items \<Rightarrow> closeNodes (claudeWorkflowNodes (JArr items) now) (wr_status run) (default_to (wr_endedAt run) now)
                | _ \<Rightarrow> wr_nodes run)
          in run\<lparr>wr_result := nullish result (wr_result run), wr_log := log, wr_nodes := (if nodes \<noteq> [] then nodes else wr_nodes run)\<rparr>)"

definition claudeControlResponse :: "jsval \<Rightarrow> (jstr \<times> bool \<times> jstr option) option" where
  "claudeControlResponse env = (if field env ''type'' \<noteq> JStr (js ''control_response'') then None
     else let response = rec_of (field env ''response'')
          in case text_member (field response ''request_id'') of None \<Rightarrow> None
             | Some i \<Rightarrow> let ok = (field response ''subtype'' \<noteq> JStr (js ''error''))
                 in Some (i, ok, if ok then None else Some (default_to (text_member (field response ''error'')) (js ''Claude rejected the request''))))"

section \<open>Kiro\<close>

definition OBJECT_PROTOTYPE :: "jstr list" where
  "OBJECT_PROTOTYPE = map js [''constructor'', ''__proto__'', ''__defineGetter__'', ''__defineSetter__'', ''__lookupGetter__'', ''__lookupSetter__'',
     ''hasOwnProperty'', ''isPrototypeOf'', ''propertyIsEnumerable'', ''toLocaleString'', ''toString'', ''valueOf'']"

definition kiroNodeKind :: "jsval \<Rightarrow> WorkflowNodeKind" where
  "kiroNodeKind t = (case str_of t of None \<Rightarrow> KindStep
     | Some s \<Rightarrow> (case map_of [(js ''step'', KindStep), (js ''agent'', KindStep), (js ''parallel'', KindParallel), (js ''loop'', KindLoop),
           (js ''branch'', KindBranch), (js ''conditional'', KindBranch), (js ''group'', KindGroup), (js ''sequence'', KindGroup)] s of
         Some k \<Rightarrow> k
       | None \<Rightarrow> if s \<in> set OBJECT_PROTOTYPE then KindForeign else KindStep))"

definition kiroNodeStatus :: "jstr option \<Rightarrow> WorkflowNodeStatus" where
  "kiroNodeStatus raw = default_to (map_of
     [(js ''completed'', NodeCompleted), (js ''success'', NodeCompleted), (js ''succeeded'', NodeCompleted), (js ''failed'', NodeFailed),
      (js ''error'', NodeFailed), (js ''skipped'', NodeSkipped), (js ''aborted'', NodeCancelled), (js ''cancelled'', NodeCancelled),
      (js ''canceled'', NodeCancelled), (js ''paused'', NodePaused), (js ''pending'', NodeQueued), (js ''running'', NodeRunning)]
     (default_to raw [])) NodeCompleted"

definition kiroRunStatus :: "jstr option \<Rightarrow> WorkflowRunStatus" where
  "kiroRunStatus raw = default_to (map_of
     [(js ''failed'', RunFailed), (js ''error'', RunFailed), (js ''aborted'', RunCancelled), (js ''cancelled'', RunCancelled),
      (js ''canceled'', RunCancelled), (js ''paused'', RunPaused), (js ''running'', RunRunning)] (default_to raw [])) RunCompleted"

lemma size_prop: "size_list size (items_of (js_prop v k)) \<le> size v"
proof (cases "v")
  case (JObj kvs)
  have "size_list size (items_of w) \<le> size w" for w by (cases w) simp_all
  moreover have "size w \<le> size v" if "map_of kvs k = Some w" for w
  proof -
    have m: "(k, w) \<in> set kvs" using that by (rule map_of_SomeD)
    have "size w \<le> size_prod (\<lambda>_. 0) size (k, w)" by simp
    also have "\<dots> \<le> size_list (size_prod (\<lambda>_. 0) size) kvs" using m by (rule size_list_estimation') simp
    finally show ?thesis by (simp add: JObj)
  qed
  ultimately show ?thesis by (auto simp: JObj js_prop_def intro: order_trans split: option.split)
qed (simp_all add: js_prop_def)

text \<open>The walk of \<open>kiroWorkflowNodes\<close> with its list of nodes passed along.\<close>

definition kiro_node :: "jsval \<Rightarrow> jstr \<Rightarrow> jstr option \<Rightarrow> WorkflowNodeDto" where
  "kiro_node item i parent = (blank_node i (kiroNodeKind (field item ''type''))
      (default_to (clampWorkflowText (field item ''name'') (lim_title WORKFLOW_LIMITS)) i) NodeQueued)
    \<lparr>wn_parentId := parent, wn_agentName := text_member (field item ''agentName'')\<rparr>"

function walk_items :: "WorkflowNodeDto list \<Rightarrow> jstr option \<Rightarrow> jsval list \<Rightarrow> WorkflowNodeDto list" where
  "walk_items nodes parent [] = nodes"
| "walk_items nodes parent (raw # rest) =
     (case (is_record raw, text_member (field raw ''nodeId'')) of
        (True, Some i) \<Rightarrow>
          if lim_nodes WORKFLOW_LIMITS \<le> length nodes then walk_items nodes parent rest
          else let n0 = nodes @ [kiro_node raw i parent];
                   n1 = walk_items n0 (Some i) (items_of (field raw ''branches''));
                   n2 = walk_items n1 (Some i) (items_of (field raw ''children''));
                   n3 = walk_items n2 (Some i) (items_of (field raw ''steps''));
                   n4 = walk_items n3 (Some i) (items_of (field raw ''body''));
                   n5 = walk_items n4 (Some i) (items_of (field raw ''nodes''))
               in walk_items n5 parent rest
      | _ \<Rightarrow> walk_items nodes parent rest)"
  by pat_completeness auto
termination
  by (relation "Wellfounded.measure (\<lambda>(_, _, items). size_list size items)") (auto simp: less_Suc_eq_le intro: le_trans [OF size_prop])

definition kiroWorkflowNodes :: "jsval \<Rightarrow> WorkflowNodeDto list" where
  "kiroWorkflowNodes tree = walk_items [] None (items_of tree)"

definition updateNode :: "WorkflowRunDto \<Rightarrow> jstr \<Rightarrow> (WorkflowNodeDto \<Rightarrow> WorkflowNodeDto) \<Rightarrow> WorkflowNodeDto option \<Rightarrow> WorkflowRunDto" where
  "updateNode run nodeId patch create = (case find_index (\<lambda>n. wn_id n = nodeId) (wr_nodes run) of
     Some i \<Rightarrow> run\<lparr>wr_nodes := (wr_nodes run)[i := patch (wr_nodes run ! i)]\<rparr>
   | None \<Rightarrow> (case create of None \<Rightarrow> run
       | Some n \<Rightarrow> if lim_nodes WORKFLOW_LIMITS \<le> length (wr_nodes run) then run else run\<lparr>wr_nodes := wr_nodes run @ [patch n]\<rparr>))"

definition parentFromPath :: "jsval \<Rightarrow> jstr \<Rightarrow> jstr option" where
  "parentFromPath path workflowId = (let vs = items_of path in
     if length vs < 2 then None
     else case vs ! (length vs - 2) of JStr p \<Rightarrow> if p \<noteq> workflowId \<and> p \<noteq> [] then Some p else None | _ \<Rightarrow> None)"

definition workflow_meta :: "jsval \<Rightarrow> jsval" where
  "workflow_meta update = rec_of (field (rec_of (field (rec_of (field update ''_meta'')) ''kiro'')) ''workflow'')"

definition kiroWorkflowId :: "jsval \<Rightarrow> jstr option" where
  "kiroWorkflowId params = nullish (text_member (field params ''workflowId''))
     (text_member (field (workflow_meta (rec_of (field params ''update''))) ''workflowId''))"

definition kiro_run_start :: "(jsval \<Rightarrow> jstr option) \<Rightarrow> WorkflowRunDto \<Rightarrow> jsval \<Rightarrow> WorkflowRunDto" where
  "kiro_run_start pretty run params =
     (let inputs = field params ''inputs'';
          defn = (if inputs = JUndefined then None
            else case pretty inputs of None \<Rightarrow> None | Some t \<Rightarrow> clampWorkflowText (JStr t) (lim_definition WORKFLOW_LIMITS));
          tree = kiroWorkflowNodes (field params ''nodeTree'');
          known = map (\<lambda>n. (wn_id n, n)) (rev (wr_nodes run));
          nodes = (if tree = [] then wr_nodes run
            else map (\<lambda>n. case map_of known (wn_id n) of
                Some prior \<Rightarrow> if wn_status prior = NodePaused then prior\<lparr>wn_status := NodeQueued\<rparr> else prior
              | None \<Rightarrow> n) tree)
      in run\<lparr>wr_endedAt := None,
             wr_name := default_to (clampWorkflowText (field params ''workflowName'') (lim_title WORKFLOW_LIMITS)) (wr_name run),
             wr_definition := nullish defn (wr_definition run), wr_status := RunRunning, wr_statusDetail := None, wr_nodes := nodes\<rparr>)"

definition set_captured :: "(jsval \<Rightarrow> jstr option) \<Rightarrow> WorkflowRunDto \<Rightarrow> jstr \<times> jsval \<Rightarrow> WorkflowRunDto" where
  "set_captured stringify run entry = (case entry of (i, output) \<Rightarrow>
     (case clampWorkflowText (case output of JStr s \<Rightarrow> output | _ \<Rightarrow> (case stringify output of None \<Rightarrow> JUndefined | Some t \<Rightarrow> JStr t)) (lim_result WORKFLOW_LIMITS) of
        None \<Rightarrow> run
      | Some t \<Rightarrow> updateNode run i (\<lambda>n. if truthy_str (wn_result n) then n else n\<lparr>wn_result := Some t\<rparr>) None))"

definition nullish_js :: "jsval \<Rightarrow> jsval \<Rightarrow> jsval" where
  "nullish_js a b = (if has_no_members a then b else a)"

definition kiro_close :: "WorkflowRunStatus \<Rightarrow> int \<Rightarrow> WorkflowNodeDto \<Rightarrow> WorkflowNodeDto" where
  "kiro_close status now n =
     (if wn_status n = NodeRunning \<or> wn_status n = NodePaused
      then n\<lparr>wn_status := (if status = RunCompleted then NodeCompleted else NodeCancelled), wn_currentTool := None,
             wn_endedAt := Some (default_to (wn_endedAt n) now)\<rparr>
      else if wn_status n = NodeQueued \<and> status \<noteq> RunCompleted then n\<lparr>wn_status := NodeSkipped\<rparr> else n)"

definition kiro_run_complete :: "(jsval \<Rightarrow> jstr option) \<Rightarrow> (jsval \<Rightarrow> jstr option) \<Rightarrow> WorkflowRunDto \<Rightarrow> jsval \<Rightarrow> int \<Rightarrow> WorkflowRunDto" where
  "kiro_run_complete stringify pretty run params now =
     (let status = kiroRunStatus (text_member (field params ''status''));
          finalState = rec_of (field params ''finalState'');
          captured = (case field finalState ''capturedOutputs'' of JObj kvs \<Rightarrow> kvs | _ \<Rightarrow> []);
          nxt = foldl (set_captured stringify) (run\<lparr>wr_status := status, wr_endedAt := Some (default_to (wr_endedAt run) now)\<rparr>) captured;
          explicit = nullish_js (field finalState ''result'') (field finalState ''output'');
          lastCompleted = find (\<lambda>n. \<not> truthy_str (wn_parentId n) \<and> truthy_str (wn_result n)) (rev (wr_nodes nxt));
          result = (case explicit of JStr s \<Rightarrow> clampWorkflowText explicit (lim_result WORKFLOW_LIMITS)
            | JUndefined \<Rightarrow> (case lastCompleted of None \<Rightarrow> None | Some n \<Rightarrow> clampOptional (wn_result n) (lim_result WORKFLOW_LIMITS))
            | _ \<Rightarrow> (case pretty explicit of None \<Rightarrow> None | Some t \<Rightarrow> clampWorkflowText (JStr t) (lim_result WORKFLOW_LIMITS)));
          failure = clampWorkflowText (nullish_js (field finalState ''failureReason'') (field finalState ''error'')) (lim_line WORKFLOW_LIMITS)
      in nxt\<lparr>wr_result := nullish result (wr_result nxt),
             wr_statusDetail := (case failure of Some f \<Rightarrow> Some f | None \<Rightarrow> if status = RunCompleted then None else wr_statusDetail nxt),
             wr_nodes := map (kiro_close status now) (wr_nodes nxt)\<rparr>)"

definition kiro_node_start :: "WorkflowRunDto \<Rightarrow> jsval \<Rightarrow> jstr \<Rightarrow> int \<Rightarrow> WorkflowRunDto" where
  "kiro_node_start run params nodeId now =
     (let upd = updateNode run nodeId
            (\<lambda>n. n\<lparr>wn_status := NodeRunning, wn_startedAt := Some (default_to (wn_startedAt n) now),
                   wn_agentName := nullish (text_member (field params ''agentName'')) (wn_agentName n),
                   wn_iteration := nullish (num_of (field params ''iteration'')) (wn_iteration n)\<rparr>)
            (Some ((blank_node nodeId (kiroNodeKind (field params ''type'')) nodeId NodeRunning)
               \<lparr>wn_parentId := parentFromPath (field params ''nodePath'') (wr_nativeId run)\<rparr>))
      in if wr_status run = RunPaused then upd\<lparr>wr_status := RunRunning, wr_statusDetail := None\<rparr> else upd)"

definition kiro_node_complete :: "WorkflowRunDto \<Rightarrow> jsval \<Rightarrow> jstr \<Rightarrow> int \<Rightarrow> WorkflowRunDto" where
  "kiro_node_complete run params nodeId now =
     updateNode run nodeId (\<lambda>n. n\<lparr>wn_status := kiroNodeStatus (text_member (field params ''status'')), wn_currentTool := None, wn_endedAt := Some now,
        wn_result := nullish (clampWorkflowText (field params ''capturedOutput'') (lim_result WORKFLOW_LIMITS)) (wn_result n),
        wn_error := nullish (clampWorkflowText (field params ''failureReason'') (lim_error WORKFLOW_LIMITS)) (wn_error n)\<rparr>) None"

definition stop_note :: jstr where
  \<comment> \<open>unit 183 is the middle dot\<close>
  "stop_note = [32, 183, 32] @ js ''stop condition met''"

definition kiro_loop_iteration :: "WorkflowRunDto \<Rightarrow> jsval \<Rightarrow> jstr option \<Rightarrow> WorkflowRunDto" where
  "kiro_loop_iteration run params nodeId =
     (case (nullish (text_member (field params ''loopId'')) nodeId, num_of (field params ''iteration'')) of
        (Some loopId, Some iteration) \<Rightarrow> updateNode run loopId
          (\<lambda>n. n\<lparr>wn_iteration := Some iteration, wn_statusMessage := Some (js ''Iteration '' @ decimal_int iteration @
             (if field params ''stopConditionMet'' = JBool True then stop_note else []))\<rparr>) None
      | _ \<Rightarrow> run)"

definition kiro_notify :: "WorkflowRunDto \<Rightarrow> jsval \<Rightarrow> jstr option \<Rightarrow> int \<Rightarrow> WorkflowRunDto" where
  "kiro_notify run params nodeId now = (case clampWorkflowText (field params ''message'') (lim_line WORKFLOW_LIMITS) of None \<Rightarrow> run
     | Some t \<Rightarrow>
         let nxt = run\<lparr>wr_log := appendWorkflowLog (wr_log run)
               \<lparr>wl_at = now, wl_text = t, wl_nodeId = nodeId, wl_severity = severity_of (field params ''severity'')\<rparr>\<rparr>
         in case nodeId of None \<Rightarrow> nxt | Some i \<Rightarrow> updateNode nxt i (\<lambda>n. n\<lparr>wn_statusMessage := Some t\<rparr>) None)"

definition WORKFLOW_METHOD :: jstr where
  "WORKFLOW_METHOD = js ''_kiro/workflow/''"

definition kiro_reopen :: "jstr \<Rightarrow> WorkflowRunDto \<Rightarrow> WorkflowRunDto" where
  "kiro_reopen event run = (case wr_statusDetail run of None \<Rightarrow> run
     | Some d \<Rightarrow> if event = js ''node_start'' \<and> wr_status run = RunCancelled \<and> starts_with d (js ''Interrupted'')
         then run\<lparr>wr_status := RunRunning, wr_statusDetail := None, wr_endedAt := None\<rparr> else run)"

definition kiro_open_event :: "WorkflowRunDto \<Rightarrow> jstr \<Rightarrow> jstr \<Rightarrow> jsval \<Rightarrow> int \<Rightarrow> WorkflowRunDto" where
  "kiro_open_event run method event params now =
     (let nodeId = text_member (field params ''nodeId'') in
      if event = js ''paused'' then run\<lparr>wr_status := RunPaused, wr_statusDetail :=
        Some (default_to (clampWorkflowText (nullish_js (field params ''pauseReason'') (field params ''reason'')) (lim_line WORKFLOW_LIMITS)) (js ''Paused''))\<rparr>
      else if nodeId = None \<and> event \<noteq> js ''notify'' \<and> event \<noteq> js ''_kiro/session/notify'' then run
      else if event = js ''node_start'' \<and> nodeId \<noteq> None then kiro_node_start run params (the nodeId) now
      else if event = js ''node_complete'' \<and> nodeId \<noteq> None then kiro_node_complete run params (the nodeId) now
      else if event = js ''node_paused'' \<and> nodeId \<noteq> None then updateNode run (the nodeId)
        (\<lambda>n. n\<lparr>wn_status := NodePaused, wn_statusMessage := nullish (clampWorkflowText (field params ''reason'') (lim_line WORKFLOW_LIMITS)) (wn_statusMessage n)\<rparr>) None
      else if event = js ''loop_iteration'' then kiro_loop_iteration run params nodeId
      else if method = js ''_kiro/session/notify'' then kiro_notify run params nodeId now
      else run)"

definition applyKiroWorkflowNotification ::
  "(jsval \<Rightarrow> jstr option) \<Rightarrow> (jsval \<Rightarrow> jstr option) \<Rightarrow> WorkflowRunDto \<Rightarrow> jstr \<Rightarrow> jsval \<Rightarrow> int \<Rightarrow> WorkflowRunDto" where
  "applyKiroWorkflowNotification stringify pretty run method params now =
     (let event = (if starts_with method WORKFLOW_METHOD then drop (length WORKFLOW_METHOD) method else method)
      in if event = js ''run_start'' then kiro_run_start pretty run params
         else if event = js ''run_complete'' \<and> text_member (field params ''status'') = Some (js ''paused'')
         then run\<lparr>wr_status := RunPaused, wr_statusDetail := Some (default_to (wr_statusDetail run) (js ''Paused''))\<rparr>
         else if event = js ''run_complete'' then kiro_run_complete stringify pretty run params now
         else let run1 = kiro_reopen event run
              in if isWorkflowRunTerminal (wr_status run1) then run1 else kiro_open_event run1 method event params now)"

definition applyKiroStepUpdate :: "WorkflowRunDto \<Rightarrow> jsval \<Rightarrow> int \<Rightarrow> WorkflowRunDto" where
  "applyKiroStepUpdate run params now = (if isWorkflowRunTerminal (wr_status run) then run
     else let update = rec_of (field params ''update'');
              kind = text_member (field update ''sessionUpdate'')
          in case text_member (field (workflow_meta update) ''nodeId'') of None \<Rightarrow> run
             | Some nodeId \<Rightarrow>
                 if update = JUndefined \<or> kind \<noteq> Some (js ''tool_call'') \<and> kind \<noteq> Some (js ''tool_call_update'') then run
                 else let title = clampWorkflowText (field update ''title'') (lim_line WORKFLOW_LIMITS);
                          status = text_member (field update ''status'');
                          running = (status = None \<or> status = Some (js ''pending'') \<or> status = Some (js ''in_progress''))
                      in updateNode run nodeId (\<lambda>n. n\<lparr>
                           wn_toolCount := (if kind = Some (js ''tool_call'') then Some (default_to (wn_toolCount n) 0 + 1) else wn_toolCount n),
                           wn_currentTool := (if running \<and> title \<noteq> None then title
                             else if \<not> running \<and> (title = None \<or> wn_currentTool n = title) then None else wn_currentTool n),
                           wn_status := (if wn_status n = NodeQueued then NodeRunning else wn_status n),
                           wn_startedAt := (if wn_status n = NodeQueued then Some (default_to (wn_startedAt n) now) else wn_startedAt n)\<rparr>) None)"

section \<open>Bounds and finished runs\<close>

datatype workflow_frame =
    ClaudeFrame jsval int
  | ClaudeOutput jsval int
  | KiroNotification jstr jsval int
  | KiroStep jsval int

fun workflow_step :: "(jsval \<Rightarrow> jstr option) \<Rightarrow> (jsval \<Rightarrow> jstr option) \<Rightarrow> WorkflowRunDto \<Rightarrow> workflow_frame \<Rightarrow> WorkflowRunDto" where
  "workflow_step stringify pretty run (ClaudeFrame env now) = applyClaudeWorkflowEnvelope run env now"
| "workflow_step stringify pretty run (ClaudeOutput v now) = applyClaudeWorkflowOutput pretty run v now"
| "workflow_step stringify pretty run (KiroNotification m params now) = applyKiroWorkflowNotification stringify pretty run m params now"
| "workflow_step stringify pretty run (KiroStep params now) = applyKiroStepUpdate run params now"

definition no_running :: "WorkflowNodeDto list \<Rightarrow> bool" where
  "no_running nodes \<longleftrightarrow> list_all (\<lambda>n. wn_status n \<noteq> NodeRunning) nodes"

definition run_bounded :: "WorkflowRunDto \<Rightarrow> bool" where
  "run_bounded run \<longleftrightarrow> length (wr_nodes run) \<le> 200 \<and> length (wr_log run) \<le> 80"

definition run_ok :: "WorkflowRunDto \<Rightarrow> bool" where
  "run_ok run \<longleftrightarrow> run_bounded run \<and> (isWorkflowRunTerminal (wr_status run) \<longrightarrow> no_running (wr_nodes run))"

lemma limits [simp]: "lim_nodes WORKFLOW_LIMITS = 200" "lim_log WORKFLOW_LIMITS = 80"
  by (simp_all add: WORKFLOW_LIMITS_def)

lemma terminal_cases [simp]:
  "\<not> isWorkflowRunTerminal RunRunning" "\<not> isWorkflowRunTerminal RunPaused" "isWorkflowRunTerminal RunCompleted"
  "isWorkflowRunTerminal RunFailed" "isWorkflowRunTerminal RunCancelled"
  by (simp_all add: isWorkflowRunTerminal_def)

lemma length_appendLog: "length log \<le> 80 \<Longrightarrow> length (appendWorkflowLog log e) \<le> 80"
  using length_last_n [of 80 "log @ [e]"] by (simp add: appendWorkflowLog_def)

lemma length_output_lines: "length log \<le> 80 \<Longrightarrow> length (foldl (output_line now) log lines) \<le> 80"
  by (induction lines arbitrary: log) (simp_all add: output_line_def length_appendLog split: option.split)

lemma length_claude_nodes: "length (claudeWorkflowNodes p now) \<le> 200"
  by (auto simp: claudeWorkflowNodes_def Let_def simp del: take_append split: prod.split)

lemma length_closeNodes [simp]: "length (closeNodes ns s now) = length ns"
  by (simp add: closeNodes_def)

lemma closeNodes_stops: "no_running (closeNodes ns s now)"
  by (auto simp: closeNodes_def no_running_def list_all_iff Let_def split: if_splits)

lemma length_walk: "length nodes \<le> 200 \<Longrightarrow> length (walk_items nodes parent items) \<le> 200"
proof (induction "size_list size items" arbitrary: nodes parent items rule: less_induct)
  case less
  show ?case
  proof (cases items)
    case (Cons raw rest)
    have rest: "length (walk_items ns p rest) \<le> 200" if "length ns \<le> 200" for ns p
      using less.hyps [of rest ns p] that by (simp add: Cons)
    have kids: "length (walk_items ns p (items_of (field raw k))) \<le> 200" if "length ns \<le> 200" for ns p k
      using less.hyps [of "items_of (field raw k)" ns p] size_prop [of raw "js k"] that by (simp add: Cons)
    show ?thesis using less.prems by (auto simp: Cons Let_def rest kids split: option.split bool.split)
  qed (use less.prems in simp)
qed

lemma length_kiro_nodes: "length (kiroWorkflowNodes tree) \<le> 200"
  by (simp add: kiroWorkflowNodes_def length_walk)

lemma updateNode_frame:
  "wr_log (updateNode run i f c) = wr_log run" "wr_status (updateNode run i f c) = wr_status run"
  "length (wr_nodes run) \<le> 200 \<Longrightarrow> length (wr_nodes (updateNode run i f c)) \<le> 200"
  by (auto simp: updateNode_def split: option.split)

lemma updateNode_bounded: "run_bounded run \<Longrightarrow> run_bounded (updateNode run i f c)"
  by (simp add: run_bounded_def updateNode_frame)

lemma kiro_close_stops: "no_running (map (kiro_close s now) ns)"
  by (auto simp: no_running_def list_all_iff kiro_close_def split: if_splits)

lemma captured_frame:
  "run_bounded run \<Longrightarrow> run_bounded (foldl (set_captured stringify) run es) \<and> wr_status (foldl (set_captured stringify) run es) = wr_status run"
proof (induction es arbitrary: run)
  case (Cons e es)
  have "run_bounded (set_captured stringify run e) \<and> wr_status (set_captured stringify run e) = wr_status run"
    using Cons.prems by (simp add: set_captured_def updateNode_bounded updateNode_frame split: prod.split option.split)
  then show ?case using Cons.IH [of "set_captured stringify run e"] by simp
qed simp

lemma claude_step_ok: "run_ok run \<Longrightarrow> run_ok (applyClaudeWorkflowEnvelope run env now)"
  using length_claude_nodes
  by (auto simp: run_ok_def run_bounded_def applyClaudeWorkflowEnvelope_def Let_def claudeWorkflowSeed_def claude_progress_def
      claude_updated_def claude_notification_def closeNodes_stops split: option.split jsval.split)

lemma claude_output_ok:
  assumes "run_ok run"
  shows "run_ok (applyClaudeWorkflowOutput pretty run v now)"
proof (cases "is_record v")
  case True
  define r where "r = applyClaudeWorkflowOutput pretty run v now"
  have "wr_status r = wr_status run" by (simp add: r_def applyClaudeWorkflowOutput_def Let_def)
  moreover have "length (wr_log r) \<le> 80" using assms True
    by (simp add: r_def applyClaudeWorkflowOutput_def Let_def length_output_lines run_ok_def run_bounded_def)
  moreover have "length (wr_nodes r) \<le> 200 \<and> (wr_nodes r = wr_nodes run \<or> no_running (wr_nodes r))"
    using assms True length_claude_nodes
    by (auto simp: r_def applyClaudeWorkflowOutput_def Let_def run_ok_def run_bounded_def closeNodes_stops split: jsval.split)
  ultimately show ?thesis using assms by (auto simp: r_def [symmetric] run_ok_def run_bounded_def)
qed (simp add: applyClaudeWorkflowOutput_def assms)

lemma kiro_start_ok: "run_bounded run \<Longrightarrow> run_ok (kiro_run_start pretty run params)"
  using length_kiro_nodes by (simp add: kiro_run_start_def Let_def run_ok_def run_bounded_def)

lemma kiro_complete_ok:
  assumes "run_bounded run"
  shows "run_ok (kiro_run_complete stringify pretty run params now)"
proof -
  have b: "run_bounded (run\<lparr>wr_status := s, wr_endedAt := e\<rparr>)" for s e using assms by (simp add: run_bounded_def)
  show ?thesis using captured_frame [OF b] by (simp add: kiro_run_complete_def Let_def run_ok_def run_bounded_def kiro_close_stops)
qed

lemma kiro_open_ok:
  assumes "run_bounded run" and "\<not> isWorkflowRunTerminal (wr_status run)"
  shows "run_ok (kiro_open_event run method event params now)"
proof -
  have u: "run_ok (updateNode run i f c)" for i f c
    using assms updateNode_bounded by (simp add: run_ok_def updateNode_frame)
  have s: "run_ok (kiro_node_start run params i now)" for i
    using u assms(2) by (auto simp: kiro_node_start_def Let_def run_ok_def run_bounded_def)
  have n: "run_ok (kiro_notify run params i now)" for i
  proof -
    have l: "run_bounded (run\<lparr>wr_log := appendWorkflowLog (wr_log run) e\<rparr>)" for e
      using assms(1) by (simp add: run_bounded_def length_appendLog)
    show ?thesis using assms updateNode_bounded [OF l] l
      by (simp add: kiro_notify_def Let_def run_ok_def updateNode_frame split: option.split)
  qed
  have r: "run_ok run" using assms by (simp add: run_ok_def)
  have p: "run_ok (run\<lparr>wr_status := RunPaused, wr_statusDetail := d\<rparr>)" for d using assms(1) by (simp add: run_ok_def run_bounded_def)
  show ?thesis using u s n r p
    by (simp add: kiro_open_event_def Let_def kiro_node_complete_def kiro_loop_iteration_def split: option.split)
qed

lemma kiro_step_ok:
  assumes "run_ok run"
  shows "run_ok (applyKiroWorkflowNotification stringify pretty run m params now)"
proof -
  have b: "run_bounded run" using assms by (simp add: run_ok_def)
  have re: "run_bounded (kiro_reopen e run) \<and> (isWorkflowRunTerminal (wr_status (kiro_reopen e run)) \<longrightarrow> run_ok (kiro_reopen e run))" for e
    using assms by (auto simp: kiro_reopen_def run_ok_def run_bounded_def split: option.split)
  have p: "run_ok (run\<lparr>wr_status := RunPaused, wr_statusDetail := d\<rparr>)" for d using b by (simp add: run_ok_def run_bounded_def)
  show ?thesis using kiro_start_ok [OF b] kiro_complete_ok [OF b] kiro_open_ok re p
    by (simp add: applyKiroWorkflowNotification_def Let_def)
qed

lemma kiro_update_ok:
  assumes "run_ok run"
  shows "run_ok (applyKiroStepUpdate run params now)"
proof (cases "isWorkflowRunTerminal (wr_status run)")
  case False
  have "run_ok (updateNode run i f c)" for i f c
    using assms False updateNode_bounded [of run i f c] by (simp add: run_ok_def updateNode_frame)
  then show ?thesis using assms by (simp add: applyKiroStepUpdate_def Let_def split: option.split)
qed (simp add: applyKiroStepUpdate_def assms)

interpretation workflow_machine: invariant_machine "workflow_step stringify pretty" "\<lambda>_. True" run_ok for stringify pretty
proof unfold_locales
  fix run f
  assume "run_ok run"
  then show "run_ok (workflow_step stringify pretty run f)"
    by (cases f) (simp_all add: claude_step_ok claude_output_ok kiro_step_ok kiro_update_ok)
qed

section \<open>The theorems\<close>

text \<open>C39: a folded snapshot stays within its bounds and a finished run is quiet: whatever frames arrive from either
  runtime, in any order and however malformed, the snapshot has at most 200 nodes and 80 log entries, and once the run
  is finished none of its nodes is still running.\<close>
theorem workflow_fold_bounded:
  fixes stringify pretty :: "jsval \<Rightarrow> jstr option" and frames :: "workflow_frame list"
  assumes "length (wr_nodes run) \<le> 200" and "length (wr_log run) \<le> 80" and "wr_status run = RunRunning"
  defines "out \<equiv> foldl (workflow_step stringify pretty) run frames"
  shows "length (wr_nodes out) \<le> 200 \<and> length (wr_log out) \<le> 80 \<and>
    (if isWorkflowRunTerminal (wr_status out) then list_all (\<lambda>n. wn_status n \<noteq> NodeRunning) (wr_nodes out) else True)"
proof -
  have "run_ok run" using assms(1-3) by (simp add: run_ok_def run_bounded_def)
  from workflow_machine.inv_run [OF this, of frames stringify pretty] have "run_ok out" by (simp add: out_def list_all_iff)
  then show ?thesis by (simp add: run_ok_def run_bounded_def no_running_def)
qed

definition new_run :: WorkflowRunDto where
  "new_run = \<lparr>wr_id = js ''kiro:1'', wr_runtime = WfKiro, wr_nativeId = js ''1'', wr_workspaceId = js ''w'', wr_nodeId = None,
     wr_parentToolCallId = None, wr_name = js ''Workflow'', wr_description = None, wr_definition = None, wr_status = RunRunning,
     wr_statusDetail = None, wr_result = None, wr_nodes = [], wr_log = [], wr_usage = None, wr_actions = [], wr_approvals = None,
     wr_startedAt = 0, wr_updatedAt = 0, wr_endedAt = None, wr_revision = 0, wr_partial = False\<rparr>"

definition demo_frames :: "workflow_frame list" where
  "demo_frames = [KiroNotification (js ''_kiro/workflow/node_start'') (JObj [(js ''nodeId'', JStr (js ''a''))]) 1,
     KiroNotification (js ''_kiro/workflow/run_complete'') (JObj [(js ''status'', JStr (js ''aborted''))]) 2]"

lemma method_event:
  "starts_with (js ''_kiro/workflow/node_start'') WORKFLOW_METHOD" "drop (length WORKFLOW_METHOD) (js ''_kiro/workflow/node_start'') = js ''node_start''"
  "starts_with (js ''_kiro/workflow/run_complete'') WORKFLOW_METHOD" "drop (length WORKFLOW_METHOD) (js ''_kiro/workflow/run_complete'') = js ''run_complete''"
  "starts_with (js ''_kiro/workflow/loop_iteration'') WORKFLOW_METHOD" "drop (length WORKFLOW_METHOD) (js ''_kiro/workflow/loop_iteration'') = js ''loop_iteration''"
  by (simp_all add: WORKFLOW_METHOD_def js_def starts_with_def)

theorem workflow_fold_bounded_witness:
  "wr_status (foldl (workflow_step (\<lambda>_. None) (\<lambda>_. None)) new_run demo_frames) = RunCancelled \<and>
   map wn_status (wr_nodes (foldl (workflow_step (\<lambda>_. None) (\<lambda>_. None)) new_run demo_frames)) = [NodeCancelled] \<and>
   list_all (\<lambda>n. wn_status n \<noteq> NodeRunning) (wr_nodes (foldl (workflow_step (\<lambda>_. None) (\<lambda>_. None)) new_run demo_frames))"
proof -
  define out where "out = foldl (workflow_step (\<lambda>_. None) (\<lambda>_. None)) new_run demo_frames"
  have "wr_status out = RunCancelled" "map wn_status (wr_nodes out) = [NodeCancelled]"
    by (simp_all add: out_def demo_frames_def new_run_def applyKiroWorkflowNotification_def method_event kiro_reopen_def kiro_open_event_def
        text_member_def kiro_node_start_def updateNode_def blank_node_def Let_def kiro_run_complete_def kiroRunStatus_def rec_of_def
        nullish_js_def has_no_members_def kiro_close_def js_prop_def clampWorkflowText_def parentFromPath_def kiroNodeKind_def)
  with workflow_fold_bounded [of new_run "\<lambda>_. None" "\<lambda>_. None" demo_frames] show ?thesis
    by (simp add: out_def [symmetric]) (simp add: new_run_def)
qed

text \<open>The frames that reopen a finished run: a new start, a completion that reports a pause or that it goes on, and a
  started node of a run that was marked interrupted.\<close>

fun reopens :: "WorkflowRunDto \<Rightarrow> workflow_frame \<Rightarrow> bool" where
  "reopens run (ClaudeFrame env now) \<longleftrightarrow> text_member (field env ''subtype'') = Some (js ''task_started'')"
| "reopens run (ClaudeOutput v now) = False"
| "reopens run (KiroNotification m params now) \<longleftrightarrow>
     (let event = (if starts_with m WORKFLOW_METHOD then drop (length WORKFLOW_METHOD) m else m) in
      event = js ''run_start''
      \<or> event = js ''run_complete'' \<and> text_member (field params ''status'') \<in> {Some (js ''paused''), Some (js ''running'')}
      \<or> event = js ''node_start'' \<and> wr_status run = RunCancelled \<and> starts_with (default_to (wr_statusDetail run) []) (js ''Interrupted''))"
| "reopens run (KiroStep params now) = False"

lemma terminalStatus_terminal: "terminalStatus s = Some t \<Longrightarrow> isWorkflowRunTerminal t"
  by (auto simp: terminalStatus_def split: if_splits)

lemma kiroRunStatus_terminal: "s \<noteq> Some (js ''paused'') \<Longrightarrow> s \<noteq> Some (js ''running'') \<Longrightarrow> isWorkflowRunTerminal (kiroRunStatus s)"
  by (cases s) (auto simp: kiroRunStatus_def)

lemma run_complete_status: "wr_status (kiro_run_complete stringify pretty run params now) = kiroRunStatus (text_member (field params ''status''))"
proof -
  have set: "wr_status (set_captured stringify r e) = wr_status r" for r e
    by (simp add: set_captured_def updateNode_frame split: prod.split option.split)
  have "wr_status (foldl (set_captured stringify) r es) = wr_status r" for r es
    by (induction es arbitrary: r) (simp_all add: set)
  then show ?thesis by (simp add: kiro_run_complete_def Let_def)
qed

text \<open>A finished run is reopened only on purpose: a frame leaves a finished run finished unless it starts the run
  again, completes it as paused or running, or starts a node of a run marked interrupted.\<close>
theorem finished_workflow_stays:
  assumes "isWorkflowRunTerminal (wr_status run)" and "reopens run frame = False"
  shows "isWorkflowRunTerminal (wr_status (workflow_step stringify pretty run frame))"
proof (cases frame)
  case (ClaudeFrame env now)
  show ?thesis using assms terminalStatus_terminal
    by (auto simp: ClaudeFrame applyClaudeWorkflowEnvelope_def Let_def claude_notification_def default_to_def split: option.split)
next
  case (ClaudeOutput v now)
  then show ?thesis using assms by (simp add: applyClaudeWorkflowOutput_def Let_def)
next
  case (KiroNotification m params now)
  have re: "kiro_reopen e run = run" if "\<not> (e = js ''node_start'' \<and> wr_status run = RunCancelled \<and> starts_with (default_to (wr_statusDetail run) []) (js ''Interrupted''))" for e
    using that by (auto simp: kiro_reopen_def split: option.split)
  show ?thesis using assms re kiroRunStatus_terminal
    by (auto simp: KiroNotification applyKiroWorkflowNotification_def Let_def run_complete_status split: if_splits)
next
  case (KiroStep params now)
  then show ?thesis using assms by (simp add: applyKiroStepUpdate_def)
qed

theorem finished_workflow_stays_witness:
  "wr_status (workflow_step (\<lambda>_. None) (\<lambda>_. None) (new_run\<lparr>wr_status := RunFailed\<rparr>)
     (ClaudeFrame (JObj [(js ''subtype'', JStr (js ''task_progress''))]) 3)) = RunFailed \<and>
   isWorkflowRunTerminal (wr_status (workflow_step (\<lambda>_. None) (\<lambda>_. None) (new_run\<lparr>wr_status := RunFailed\<rparr>)
     (ClaudeFrame (JObj [(js ''subtype'', JStr (js ''task_progress''))]) 3)))"
  using finished_workflow_stays [of "new_run\<lparr>wr_status := RunFailed\<rparr>" "ClaudeFrame (JObj [(js ''subtype'', JStr (js ''task_progress''))]) 3"
      "\<lambda>_. None" "\<lambda>_. None"]
  by (simp add: text_member_def applyClaudeWorkflowEnvelope_def)



end
