(* ===== verification/Chat_Permissions.thy ===== *)
theory Chat_Permissions
  imports Js_Value
begin

text \<open>
  The permission modes of a chat (\<^verbatim>\<open>shared/src/chatPermissions.ts\<close>), which jobs and chats share: the mode that
  is stored, and the choice a person makes, which adds ``approve for me'' to the mode that asks.
\<close>

datatype ChatPermissionMode = AskMode | TrustMode | YoloMode

datatype ChatPermissionChoice = ApproveChoice | ModeChoice ChatPermissionMode

definition permission_mode_of :: "jsval \<Rightarrow> ChatPermissionMode option" where
  "permission_mode_of v = (if v = JStr (js ''ask'') then Some AskMode else if v = JStr (js ''trust'') then Some TrustMode
     else if v = JStr (js ''yolo'') then Some YoloMode else None)"

definition isChatPermissionSettings :: "jsval \<Rightarrow> bool" where
  "isChatPermissionSettings v \<longleftrightarrow> is_object v \<and> bool_of (field v ''global'') \<noteq> None \<and> permission_mode_of (field v ''mode'') \<noteq> None
     \<and> (field v ''approveForMe'' = JUndefined \<or> bool_of (field v ''approveForMe'') \<noteq> None)"

definition chatPermissionChoice :: "ChatPermissionMode \<Rightarrow> bool option \<Rightarrow> ChatPermissionChoice" where
  "chatPermissionChoice mode approveForMe = (if mode = AskMode \<and> approveForMe = Some True then ApproveChoice else ModeChoice mode)"

definition chatPermissionChoiceParts :: "ChatPermissionChoice \<Rightarrow> ChatPermissionMode \<times> bool" where
  "chatPermissionChoiceParts choice = (case choice of ApproveChoice \<Rightarrow> (AskMode, True) | ModeChoice mode \<Rightarrow> (mode, False))"

text \<open>What a choice is stored as describes that choice again.\<close>

lemma choice_parts_roundtrip: "chatPermissionChoice (fst (chatPermissionChoiceParts c)) (Some (snd (chatPermissionChoiceParts c))) = c"
  by (cases c) (simp_all add: chatPermissionChoiceParts_def chatPermissionChoice_def)

end
