(* ===== verification/Job_Schedule.thy ===== *)
theory Job_Schedule
  imports Cron Chat_Permissions
begin

text \<open>
  Schedules and fields of scheduled jobs: the shared types (\<^verbatim>\<open>shared/src/scheduledJobs.ts\<close>), the reader of
  schedules and the next run (\<^verbatim>\<open>backend/src/services/scheduledJobs/schedule.ts\<close>) and the validator of job
  requests (\<^verbatim>\<open>validation.ts\<close>). The time-zone database is an argument: a zone by name, and the name of the
  system's zone. Finite numbers are integers; a number that is no integer is rejected by every reader here
  exactly as the values without an integer are. The theorems say that an accepted schedule has a next run,
  that runs move forward, and what an accepted request is bounded by.
\<close>

section \<open>Schedules\<close>

datatype ScheduledJobSchedule = Every int | CronSchedule jstr "jstr option" | At int

datatype ScheduledJobSessionMode = Fresh | Persistent

record job_limits =
  lim_name :: nat
  lim_prompt :: nat
  lim_cronExpression :: nat
  lim_minEverySeconds :: int
  lim_maxEverySeconds :: int
  lim_minTimeoutSeconds :: int
  lim_maxTimeoutSeconds :: int
  lim_defaultTimeoutSeconds :: int
  lim_maxJobs :: nat
  lim_autoPauseThreshold :: nat
  lim_runHistoryPerJob :: nat

definition SCHEDULED_JOB_LIMITS :: job_limits where
  "SCHEDULED_JOB_LIMITS = \<lparr>lim_name = 120, lim_prompt = 32000, lim_cronExpression = 200, lim_minEverySeconds = 60,
     lim_maxEverySeconds = 366 * 24 * 3600, lim_minTimeoutSeconds = 60, lim_maxTimeoutSeconds = 24 * 3600,
     lim_defaultTimeoutSeconds = 30 * 60, lim_maxJobs = 200, lim_autoPauseThreshold = 5, lim_runHistoryPerJob = 50\<rparr>"

lemma job_limits_simps [simp]:
  "lim_name SCHEDULED_JOB_LIMITS = 120" "lim_prompt SCHEDULED_JOB_LIMITS = 32000"
  "lim_cronExpression SCHEDULED_JOB_LIMITS = 200" "lim_minEverySeconds SCHEDULED_JOB_LIMITS = 60"
  "lim_maxEverySeconds SCHEDULED_JOB_LIMITS = 31622400" "lim_minTimeoutSeconds SCHEDULED_JOB_LIMITS = 60"
  "lim_maxTimeoutSeconds SCHEDULED_JOB_LIMITS = 86400" "lim_defaultTimeoutSeconds SCHEDULED_JOB_LIMITS = 1800"
  "lim_maxJobs SCHEDULED_JOB_LIMITS = 200" "lim_autoPauseThreshold SCHEDULED_JOB_LIMITS = 5"
  "lim_runHistoryPerJob SCHEDULED_JOB_LIMITS = 50"
  by (simp_all add: SCHEDULED_JOB_LIMITS_def)

definition MAX_AT_HORIZON_MS :: int where
  "MAX_AT_HORIZON_MS = 5 * 366 * 24 * 3600000"

text \<open>
  The time-zone data: \<open>Intl.DateTimeFormat\<close> of a name, which throws for names it does not know, and the
  zone of the system.
\<close>

record time_zones =
  tz_formatter :: "jstr \<Rightarrow> zone option"
  tz_system :: jstr

definition isValidTimeZone :: "time_zones \<Rightarrow> jstr \<Rightarrow> bool" where
  "isValidTimeZone tz name \<longleftrightarrow> \<not> (name = [] \<or> 100 < length name) \<and> tz_formatter tz name \<noteq> None"

text \<open>What reading a schedule may throw; a zone of the system that cannot be used is no validation error.\<close>

datatype schedule_error =
    ScheduleRequired | IntervalNotInteger | IntervalTooShort | IntervalTooLong
  | ExpressionRequired | ExpressionTooLong | UnknownTimezone | InvalidCron cron_error | NeverRuns
  | RunTimeRequired | RunTimePast | RunTimeTooFar | UnknownScheduleType | ZoneRangeError

fun finiteInteger :: "jsval \<Rightarrow> int option" where
  "finiteInteger (JNum n) = Some n"
| "finiteInteger v = None"

text \<open>\<open>text.trim().replace(/\s+/g, ' ')\<close>\<close>

fun collapse_ws :: "bool \<Rightarrow> jstr \<Rightarrow> jstr" where
  "collapse_ws in_run [] = []"
| "collapse_ws in_run (c # s) =
     (if is_ws c then (if in_run then collapse_ws True s else 32 # collapse_ws True s)
      else c # collapse_ws False s)"

definition parse_timezone :: "time_zones \<Rightarrow> jsval \<Rightarrow> schedule_error + jstr option" where
  "parse_timezone tz v =
     (if v = JUndefined \<or> v = JNull \<or> v = JStr [] then Inr None
      else case v of
          JStr name \<Rightarrow> if isValidTimeZone tz name then Inr (Some name) else Inl UnknownTimezone
        | _ \<Rightarrow> Inl UnknownTimezone)"

definition cron_next :: "time_zones \<Rightarrow> CronSpec \<Rightarrow> int \<Rightarrow> jstr option \<Rightarrow> schedule_error + int option" where
  \<comment> \<open>\<open>nextCronRun(spec, after, timezone ?? systemTimeZone())\<close>\<close>
  "cron_next tz spec after timezone = (case tz_formatter tz (default_to timezone (tz_system tz)) of
      None \<Rightarrow> Inl ZoneRangeError
    | Some zone \<Rightarrow> Inr (nextCronRun zone spec after))"

definition read_every :: "jsval \<Rightarrow> schedule_error + ScheduledJobSchedule" where
  "read_every raw = (case finiteInteger (field raw ''everySeconds'') of
      None \<Rightarrow> Inl IntervalNotInteger
    | Some seconds \<Rightarrow>
        if seconds < lim_minEverySeconds SCHEDULED_JOB_LIMITS then Inl IntervalTooShort
        else if lim_maxEverySeconds SCHEDULED_JOB_LIMITS < seconds then Inl IntervalTooLong
        else Inr (Every seconds))"

definition read_cron :: "time_zones \<Rightarrow> jsval \<Rightarrow> int \<Rightarrow> schedule_error + ScheduledJobSchedule" where
  "read_cron tz raw now = (case str_of (field raw ''expression'') of
      None \<Rightarrow> Inl ExpressionRequired
    | Some text \<Rightarrow>
        let expression = collapse_ws False (js_trim text)
        in if lim_cronExpression SCHEDULED_JOB_LIMITS < length expression then Inl ExpressionTooLong
           else bind_sum (parse_timezone tz (field raw ''timezone'')) (\<lambda>timezone.
             bind_sum (map_sum InvalidCron id (parseCron expression)) (\<lambda>spec.
             bind_sum (cron_next tz spec now timezone) (\<lambda>nxt.
               if nxt = None then Inl NeverRuns else Inr (CronSchedule expression timezone)))))"

definition read_at :: "jsval \<Rightarrow> int \<Rightarrow> bool \<Rightarrow> schedule_error + ScheduledJobSchedule" where
  "read_at raw now requireFuture = (case finiteInteger (field raw ''at'') of
      None \<Rightarrow> Inl RunTimeRequired
    | Some at \<Rightarrow>
        if at \<le> 0 then Inl RunTimeRequired
        else if requireFuture \<and> at \<le> now then Inl RunTimePast
        else if now + MAX_AT_HORIZON_MS < at then Inl RunTimeTooFar
        else Inr (At at))"

definition parseSchedule :: "time_zones \<Rightarrow> jsval \<Rightarrow> int \<Rightarrow> bool \<Rightarrow> schedule_error + ScheduledJobSchedule" where
  "parseSchedule tz raw now requireFuture =
     (if \<not> is_object raw then Inl ScheduleRequired
      else if field raw ''kind'' = JStr (js ''every'') then read_every raw
      else if field raw ''kind'' = JStr (js ''cron'') then read_cron tz raw now
      else if field raw ''kind'' = JStr (js ''at'') then read_at raw now requireFuture
      else Inl UnknownScheduleType)"

definition computeNextRun :: "time_zones \<Rightarrow> ScheduledJobSchedule \<Rightarrow> int \<Rightarrow> int option" where
  "computeNextRun tz schedule after = (case schedule of
      Every seconds \<Rightarrow> Some (after + seconds * 1000)
    | CronSchedule expression timezone \<Rightarrow>
        (case bind_sum (map_sum InvalidCron id (parseCron expression)) (\<lambda>spec. cron_next tz spec after timezone) of
           Inl e \<Rightarrow> None
         | Inr nxt \<Rightarrow> nxt)
    | At at \<Rightarrow> if after < at then Some at else None)"

fun preview_runs :: "nat \<Rightarrow> time_zones \<Rightarrow> ScheduledJobSchedule \<Rightarrow> int \<Rightarrow> int list" where
  "preview_runs 0 tz schedule cursor = []"
| "preview_runs (Suc count) tz schedule cursor = (case computeNextRun tz schedule cursor of
      None \<Rightarrow> []
    | Some nxt \<Rightarrow> nxt # (case schedule of At at \<Rightarrow> [] | _ \<Rightarrow> preview_runs count tz schedule nxt))"

definition previewSchedule :: "time_zones \<Rightarrow> ScheduledJobSchedule \<Rightarrow> int \<Rightarrow> nat \<Rightarrow> int list" where
  "previewSchedule tz schedule now count = preview_runs count tz schedule now"

section \<open>Job requests\<close>

datatype job_error =
    FieldRequired string | FieldTooLong string nat | FieldInvalid string | FieldNotBool string
  | WorkspaceNotFound | RuntimeUnavailable jstr | ScheduleMissing | ScheduleInvalid schedule_error
  | PermissionModeInvalid | SessionModeInvalid | TimeoutInvalid | BodyNotObject

record JobValidationContext =
  vc_now :: int
  vc_defaultSessionMode :: "ScheduledJobSessionMode option"
  vc_workspaceExists :: "jstr \<Rightarrow> bool"
  vc_runtimeExists :: "jstr \<Rightarrow> bool"

record ParsedJobFields =
  f_workspaceId :: jstr
  f_name :: jstr
  f_prompt :: jstr
  f_schedule :: ScheduledJobSchedule
  f_runtimeId :: "jstr option"
  f_providerId :: "jstr option"
  f_modelId :: "jstr option"
  f_reasoning :: "jstr option"
  f_permissionMode :: ChatPermissionMode
  f_sessionMode :: ScheduledJobSessionMode
  f_notify :: bool
  f_enabled :: bool
  f_timeoutSeconds :: int
  f_conversationUpdates :: bool

text \<open>A field of a patch is absent, or present with its parsed value (which may be \<open>null\<close>).\<close>

record JobPatch =
  p_workspaceId :: "jstr option"
  p_name :: "jstr option"
  p_prompt :: "jstr option"
  p_schedule :: "ScheduledJobSchedule option"
  p_runtimeId :: "jstr option option"
  p_providerId :: "jstr option option"
  p_modelId :: "jstr option option"
  p_reasoning :: "jstr option option"
  p_permissionMode :: "ChatPermissionMode option"
  p_sessionMode :: "ScheduledJobSessionMode option"
  p_notify :: "bool option"
  p_enabled :: "bool option"
  p_timeoutSeconds :: "int option"
  p_conversationUpdates :: "bool option"

definition text_field :: "jsval \<Rightarrow> string \<Rightarrow> nat \<Rightarrow> job_error + jstr" where
  "text_field v label limit = (case str_of v of
      None \<Rightarrow> Inl (FieldRequired label)
    | Some s \<Rightarrow> let trimmed = js_trim s
        in if trimmed = [] then Inl (FieldRequired label)
           else if limit < length trimmed then Inl (FieldTooLong label limit)
           else Inr trimmed)"

definition optionalId :: "jsval \<Rightarrow> string \<Rightarrow> job_error + jstr option" where
  "optionalId v label =
     (if v = JNull \<or> v = JUndefined \<or> v = JStr [] then Inr None
      else case str_of v of
          None \<Rightarrow> Inl (FieldInvalid label)
        | Some s \<Rightarrow>
            if 200 < length s \<or> list_ex (\<lambda>c. c = 0 \<or> c = 10 \<or> c = 13) s then Inl (FieldInvalid label)
            else Inr (if js_trim s = [] then None else Some (js_trim s)))"

definition bool_field :: "jsval \<Rightarrow> string \<Rightarrow> job_error + bool" where
  "bool_field v label = (case bool_of v of None \<Rightarrow> Inl (FieldNotBool label) | Some b \<Rightarrow> Inr b)"

definition workspaceId_parser :: "JobValidationContext \<Rightarrow> jsval \<Rightarrow> job_error + jstr" where
  "workspaceId_parser ctx v = bind_sum (text_field v ''Workspace'' 200) (\<lambda>i.
     if vc_workspaceExists ctx i then Inr i else Inl WorkspaceNotFound)"

definition schedule_parser :: "time_zones \<Rightarrow> JobValidationContext \<Rightarrow> jsval \<Rightarrow> job_error + ScheduledJobSchedule" where
  "schedule_parser tz ctx v =
     (if v = JUndefined \<or> v = JNull then Inl ScheduleMissing
      else map_sum ScheduleInvalid id (parseSchedule tz v (vc_now ctx) True))"

definition runtimeId_parser :: "JobValidationContext \<Rightarrow> jsval \<Rightarrow> job_error + jstr option" where
  "runtimeId_parser ctx v = bind_sum (optionalId v ''Agent'') (\<lambda>i. case i of
      None \<Rightarrow> Inr None
    | Some r \<Rightarrow> if vc_runtimeExists ctx r then Inr (Some r) else Inl (RuntimeUnavailable r))"

definition session_mode_of :: "jsval \<Rightarrow> ScheduledJobSessionMode option" where
  "session_mode_of v = (if v = JStr (js ''fresh'') then Some Fresh else if v = JStr (js ''persistent'') then Some Persistent
     else None)"

definition required_mode :: "job_error \<Rightarrow> 'm option \<Rightarrow> job_error + 'm" where
  "required_mode e m = (case m of None \<Rightarrow> Inl e | Some x \<Rightarrow> Inr x)"

definition timeout_parser :: "jsval \<Rightarrow> job_error + int" where
  "timeout_parser v = (case finiteInteger v of
      None \<Rightarrow> Inl TimeoutInvalid
    | Some n \<Rightarrow> if n < lim_minTimeoutSeconds SCHEDULED_JOB_LIMITS \<or> lim_maxTimeoutSeconds SCHEDULED_JOB_LIMITS < n
        then Inl TimeoutInvalid else Inr n)"

text \<open>The parser of a field runs when the body has it; a required field is parsed in any case.\<close>

definition when_present :: "jsval \<Rightarrow> (jsval \<Rightarrow> job_error + 'a) \<Rightarrow> job_error + 'a option" where
  "when_present v p = (if v = JUndefined then Inr None else map_sum id Some (p v))"

definition when_required :: "jsval \<Rightarrow> (jsval \<Rightarrow> job_error + 'a) \<Rightarrow> job_error + 'a option" where
  "when_required v p = map_sum id Some (p v)"

text \<open>
  The loop over the parsers, in the order of the table: the first field that fails decides the error. How the
  four required fields are treated when absent is the argument \<open>required\<close>.
\<close>

definition parse_fields :: "time_zones \<Rightarrow> JobValidationContext \<Rightarrow> bool \<Rightarrow> jsval \<Rightarrow> job_error + JobPatch" where
  "parse_fields tz ctx required body =
     bind_sum ((if required then when_required else when_present) (field body ''workspaceId'') (workspaceId_parser ctx)) (\<lambda>ws.
     bind_sum ((if required then when_required else when_present) (field body ''name'')
       (\<lambda>v. text_field v ''Name'' (lim_name SCHEDULED_JOB_LIMITS))) (\<lambda>nm.
     bind_sum ((if required then when_required else when_present) (field body ''prompt'')
       (\<lambda>v. text_field v ''Prompt'' (lim_prompt SCHEDULED_JOB_LIMITS))) (\<lambda>pr.
     bind_sum ((if required then when_required else when_present) (field body ''schedule'') (schedule_parser tz ctx)) (\<lambda>sc.
     bind_sum (when_present (field body ''runtimeId'') (runtimeId_parser ctx)) (\<lambda>rt.
     bind_sum (when_present (field body ''providerId'') (\<lambda>v. optionalId v ''Provider'')) (\<lambda>pv.
     bind_sum (when_present (field body ''modelId'') (\<lambda>v. optionalId v ''Model'')) (\<lambda>md.
     bind_sum (when_present (field body ''reasoning'') (\<lambda>v. optionalId v ''Reasoning'')) (\<lambda>rs.
     bind_sum (when_present (field body ''permissionMode'') (\<lambda>v. required_mode PermissionModeInvalid (permission_mode_of v))) (\<lambda>pm.
     bind_sum (when_present (field body ''sessionMode'') (\<lambda>v. required_mode SessionModeInvalid (session_mode_of v))) (\<lambda>sm.
     bind_sum (when_present (field body ''notify'') (\<lambda>v. bool_field v ''Notify'')) (\<lambda>nt.
     bind_sum (when_present (field body ''enabled'') (\<lambda>v. bool_field v ''Enabled'')) (\<lambda>en.
     bind_sum (when_present (field body ''conversationUpdates'') (\<lambda>v. bool_field v ''Conversation updates'')) (\<lambda>cu.
     bind_sum (when_present (field body ''timeoutSeconds'') timeout_parser) (\<lambda>tm.
       Inr \<lparr>p_workspaceId = ws, p_name = nm, p_prompt = pr, p_schedule = sc, p_runtimeId = rt, p_providerId = pv,
            p_modelId = md, p_reasoning = rs, p_permissionMode = pm, p_sessionMode = sm, p_notify = nt, p_enabled = en,
            p_timeoutSeconds = tm, p_conversationUpdates = cu\<rparr>))))))))))))))"

definition with_defaults :: "JobValidationContext \<Rightarrow> JobPatch \<Rightarrow> ParsedJobFields" where
  \<comment> \<open>\<open>{ ...DEFAULT_JOB_FIELDS, sessionMode: ... }\<close> with the parsed fields on top; the required ones are parsed\<close>
  "with_defaults ctx p =
     \<lparr>f_workspaceId = the (p_workspaceId p), f_name = the (p_name p), f_prompt = the (p_prompt p),
      f_schedule = the (p_schedule p), f_runtimeId = default_to (p_runtimeId p) None,
      f_providerId = default_to (p_providerId p) None, f_modelId = default_to (p_modelId p) None,
      f_reasoning = default_to (p_reasoning p) None, f_permissionMode = default_to (p_permissionMode p) TrustMode,
      f_sessionMode = default_to (p_sessionMode p) (default_to (vc_defaultSessionMode ctx) Persistent),
      f_notify = default_to (p_notify p) True, f_enabled = default_to (p_enabled p) True,
      f_timeoutSeconds = default_to (p_timeoutSeconds p) (lim_defaultTimeoutSeconds SCHEDULED_JOB_LIMITS),
      f_conversationUpdates = default_to (p_conversationUpdates p) False\<rparr>"

definition parseJobCreate :: "time_zones \<Rightarrow> JobValidationContext \<Rightarrow> jsval \<Rightarrow> job_error + ParsedJobFields" where
  "parseJobCreate tz ctx raw =
     (if \<not> is_record raw then Inl BodyNotObject
      else map_sum id (with_defaults ctx) (parse_fields tz ctx True raw))"

definition parseJobPatch :: "time_zones \<Rightarrow> JobValidationContext \<Rightarrow> jsval \<Rightarrow> job_error + JobPatch" where
  "parseJobPatch tz ctx raw = (if \<not> is_record raw then Inl BodyNotObject else parse_fields tz ctx False raw)"

section \<open>Lemmas and theorems\<close>

lemma nextCronRun_after: "nextCronRun zone spec after = Some t \<Longrightarrow> after < t"
  unfolding nextCronRun_def Let_def by (drule day_loop_sound) blast

text \<open>An interval that was validated moves forward.\<close>

definition schedule_ok :: "ScheduledJobSchedule \<Rightarrow> bool" where
  "schedule_ok s = (case s of Every n \<Rightarrow> 60 \<le> n \<and> n \<le> 31622400 | CronSchedule e z \<Rightarrow> length e \<le> 200 | At t \<Rightarrow> 0 < t)"

lemma computeNextRun_after:
  "schedule_ok s \<Longrightarrow> computeNextRun tz s after = Some t \<Longrightarrow> after < t"
  by (auto simp: schedule_ok_def computeNextRun_def cron_next_def nextCronRun_after bind_sum_def
      split: ScheduledJobSchedule.splits if_splits sum.splits option.splits)

lemma parseSchedule_cases:
  assumes "parseSchedule tz raw now fut = Inr s"
  obtains (every) n where "s = Every n" "60 \<le> n" "n \<le> 31622400"
    | (cron) e z spec t where "s = CronSchedule e z" "length e \<le> 200" "parseCron e = Inr spec" "cron_next tz spec now z = Inr (Some t)"
    | (at) t where "s = At t" "0 < t" "fut \<longrightarrow> now < t" "t \<le> now + MAX_AT_HORIZON_MS"
proof -
  consider "read_every raw = Inr s" | "read_cron tz raw now = Inr s" | "read_at raw now fut = Inr s"
    using assms by (auto simp: parseSchedule_def split: if_splits)
  then show thesis
  proof cases
    case 1
    then show ?thesis using every by (auto simp: read_every_def split: option.splits if_splits)
  next
    case 2
    then obtain e z spec nxt where c: "s = CronSchedule e z" "length e \<le> 200" "map_sum InvalidCron id (parseCron e) = Inr spec"
      "cron_next tz spec now z = Inr nxt" "nxt \<noteq> None"
      by (auto simp: read_cron_def bind_sum_Inr Let_def split: option.splits if_splits)
    then show ?thesis using cron by (cases "parseCron e") auto
  next
    case 3
    then show ?thesis using at by (auto simp: read_at_def split: option.splits if_splits)
  qed
qed

lemma parseSchedule_ok: "parseSchedule tz raw now fut = Inr s \<Longrightarrow> schedule_ok s"
  by (erule parseSchedule_cases) (simp_all add: schedule_ok_def)

lemma parseSchedule_has_next:
  assumes "parseSchedule tz raw now True = Inr s"
  shows "\<exists>t. computeNextRun tz s now = Some t"
  using assms by (cases rule: parseSchedule_cases) (simp_all add: computeNextRun_def)

text \<open>A schedule that is accepted for a job has a next run, strictly in the future; and for a one-time run,
  no further away than the horizon.\<close>
theorem accepted_schedule_runs:
  assumes "parseSchedule tz raw now True = Inr s"
  shows "\<exists>t. computeNextRun tz s now = Some t \<and> now < t \<and> (case s of At at \<Rightarrow> t = at \<and> t \<le> now + MAX_AT_HORIZON_MS | _ \<Rightarrow> True)"
proof -
  obtain t where t: "computeNextRun tz s now = Some t" using parseSchedule_has_next [OF assms] by blast
  then have "now < t" using computeNextRun_after parseSchedule_ok [OF assms] by blast
  moreover have "t = at \<and> at \<le> now + MAX_AT_HORIZON_MS" if "s = At at" for at
    using assms t that by (cases rule: parseSchedule_cases) (auto simp: computeNextRun_def split: if_splits)
  ultimately show ?thesis using t by (auto split: ScheduledJobSchedule.split)
qed

definition demo_zones :: time_zones where
  "demo_zones = \<lparr>tz_formatter = \<lambda>name. if name = js ''UTC'' then Some (fixed_zone 0) else None, tz_system = js ''UTC''\<rparr>"

theorem accepted_schedule_runs_witness:
  "parseSchedule demo_zones (JObj [(js ''kind'', JStr (js ''at'')), (js ''at'', JNum 5000)]) 1000 True = Inr (At 5000)
   \<and> (\<exists>t. computeNextRun demo_zones (At 5000) 1000 = Some t \<and> 1000 < t \<and> t \<le> 1000 + MAX_AT_HORIZON_MS)"
proof -
  have p: "parseSchedule demo_zones (JObj [(js ''kind'', JStr (js ''at'')), (js ''at'', JNum 5000)]) 1000 True = Inr (At 5000)"
    by (simp add: parseSchedule_def read_at_def MAX_AT_HORIZON_MS_def)
  from accepted_schedule_runs [OF p] p show ?thesis by auto
qed

lemma preview_runs_sorted:
  "schedule_ok s \<Longrightarrow> sorted_wrt (<) (now # preview_runs n tz s now) \<and> length (preview_runs n tz s now) \<le> n"
proof (induction n arbitrary: now)
  case (Suc n)
  show ?case
  proof (cases "computeNextRun tz s now")
    case (Some t)
    have "now < t" using computeNextRun_after Suc.prems Some by blast
    moreover have "sorted_wrt (<) (t # preview_runs n tz s t)" "length (preview_runs n tz s t) \<le> n"
      using Suc.IH [OF Suc.prems, of t] by blast+
    ultimately show ?thesis using Some by (auto split: ScheduledJobSchedule.split)
  qed simp
qed simp

text \<open>The preview of an accepted schedule lists at most as many runs as asked for, in strictly increasing
  order and all in the future; it is empty only when the schedule is finished.\<close>
theorem preview_increasing:
  assumes "parseSchedule tz raw now fut = Inr s"
  shows "sorted_wrt (<) (now # previewSchedule tz s now n) \<and> length (previewSchedule tz s now n) \<le> n
    \<and> (0 < n \<longrightarrow> (previewSchedule tz s now n = [] \<longleftrightarrow> computeNextRun tz s now = None))"
proof -
  have "0 < n \<longrightarrow> (preview_runs n tz s now = [] \<longleftrightarrow> computeNextRun tz s now = None)"
    by (cases n) (auto split: option.split)
  with preview_runs_sorted [OF parseSchedule_ok [OF assms]] show ?thesis unfolding previewSchedule_def by blast
qed

lemma text_field_Inr: "text_field v label lim = Inr s \<Longrightarrow> s \<noteq> [] \<and> length s \<le> lim"
  by (auto simp: text_field_def Let_def split: option.splits if_splits)

lemma optionalId_Inr: "optionalId v label = Inr (Some s) \<Longrightarrow> s \<noteq> [] \<and> length s \<le> 200"
  by (auto simp: optionalId_def split: option.splits if_splits intro: order_trans [OF length_js_trim])

lemma when_present_Inr: "when_present v p = Inr (Some x) \<longleftrightarrow> v \<noteq> JUndefined \<and> p v = Inr x"
  by (cases "p v") (auto simp: when_present_def)

lemma when_required_Inr: "when_required v p = Inr y \<longleftrightarrow> (\<exists>x. y = Some x \<and> p v = Inr x)"
  by (cases "p v") (auto simp: when_required_def)

lemma map_sum_id_Inr: "map_sum id f r = Inr y \<longleftrightarrow> (\<exists>x. r = Inr x \<and> y = f x)"
  by (cases r) auto

lemma required_implies_present:
  "p JUndefined = Inl e \<Longrightarrow> when_required v p = Inr y \<Longrightarrow> when_present v p = Inr y"
  by (cases "v = JUndefined") (auto simp: when_required_def when_present_def)

lemma required_fields_needed:
  "workspaceId_parser ctx JUndefined = Inl (FieldRequired ''Workspace'')"
  "text_field JUndefined label lim = Inl (FieldRequired label)"
  "schedule_parser tz ctx JUndefined = Inl ScheduleMissing"
  by (simp_all add: workspaceId_parser_def text_field_def schedule_parser_def)

lemma parse_fields_required:
  assumes "parse_fields tz ctx True body = Inr p"
  shows "parse_fields tz ctx False body = Inr p"
  using assms unfolding parse_fields_def bind_sum_Inr if_True if_False
  by (blast intro: required_implies_present required_fields_needed)

text \<open>Creating a job reads the request exactly as editing one does, with the defaults below: every accepted
  request to create a job is an accepted patch, and the job has the fields of that patch over the defaults.\<close>
theorem create_is_patch_of_defaults:
  assumes "parseJobCreate tz ctx raw = Inr f"
  shows "\<exists>p. parseJobPatch tz ctx raw = Inr p \<and> f = with_defaults ctx p
    \<and> p_workspaceId p \<noteq> None \<and> p_name p \<noteq> None \<and> p_prompt p \<noteq> None \<and> p_schedule p \<noteq> None"
proof -
  obtain p where p: "is_record raw" "parse_fields tz ctx True raw = Inr p" "f = with_defaults ctx p"
    using assms by (auto simp: parseJobCreate_def map_sum_id_Inr split: if_splits)
  have "p_workspaceId p \<noteq> None \<and> p_name p \<noteq> None \<and> p_prompt p \<noteq> None \<and> p_schedule p \<noteq> None"
    using p(2) unfolding parse_fields_def bind_sum_Inr if_True when_required_Inr by fastforce
  with p parse_fields_required [OF p(2)] show ?thesis by (auto simp: parseJobPatch_def)
qed

text \<open>What a patch may hold.\<close>

definition opt_holds :: "('a \<Rightarrow> bool) \<Rightarrow> 'a option \<Rightarrow> bool" where
  "opt_holds P x = (case x of None \<Rightarrow> True | Some y \<Rightarrow> P y)"

lemma opt_holds_simps [simp]: "opt_holds P None" "opt_holds P (Some x) = P x"
  by (simp_all add: opt_holds_def)

definition patch_ok :: "time_zones \<Rightarrow> JobValidationContext \<Rightarrow> JobPatch \<Rightarrow> bool" where
  "patch_ok tz ctx p \<longleftrightarrow>
     opt_holds (\<lambda>w. vc_workspaceExists ctx w \<and> w \<noteq> [] \<and> length w \<le> 200) (p_workspaceId p)
     \<and> opt_holds (\<lambda>n. n \<noteq> [] \<and> length n \<le> 120) (p_name p)
     \<and> opt_holds (\<lambda>t. t \<noteq> [] \<and> length t \<le> 32000) (p_prompt p)
     \<and> opt_holds (\<lambda>s. schedule_ok s \<and> (\<exists>t. computeNextRun tz s (vc_now ctx) = Some t \<and> vc_now ctx < t)) (p_schedule p)
     \<and> opt_holds (opt_holds (\<lambda>r. vc_runtimeExists ctx r \<and> length r \<le> 200)) (p_runtimeId p)
     \<and> opt_holds (opt_holds (\<lambda>r. length r \<le> 200)) (p_providerId p)
     \<and> opt_holds (opt_holds (\<lambda>r. length r \<le> 200)) (p_modelId p)
     \<and> opt_holds (opt_holds (\<lambda>r. length r \<le> 200)) (p_reasoning p)
     \<and> opt_holds (\<lambda>n. 60 \<le> n \<and> n \<le> 86400) (p_timeoutSeconds p)"

lemma when_present_holds:
  "when_present v p = Inr y \<Longrightarrow> (\<And>x. p v = Inr x \<Longrightarrow> P x) \<Longrightarrow> opt_holds P y"
  by (cases "p v") (auto simp: when_present_def split: if_splits)

lemma parser_bounds:
  "workspaceId_parser ctx v = Inr w \<Longrightarrow> vc_workspaceExists ctx w \<and> w \<noteq> [] \<and> length w \<le> 200"
  "schedule_parser tz ctx v = Inr s \<Longrightarrow> schedule_ok s \<and> (\<exists>t. computeNextRun tz s (vc_now ctx) = Some t \<and> vc_now ctx < t)"
  "runtimeId_parser ctx v = Inr r \<Longrightarrow> opt_holds (\<lambda>r. vc_runtimeExists ctx r \<and> length r \<le> 200) r"
  "optionalId v label = Inr r \<Longrightarrow> opt_holds (\<lambda>r. length r \<le> 200) r"
  "timeout_parser v = Inr n \<Longrightarrow> 60 \<le> n \<and> n \<le> 86400"
proof -
  show "workspaceId_parser ctx v = Inr w \<Longrightarrow> vc_workspaceExists ctx w \<and> w \<noteq> [] \<and> length w \<le> 200"
    by (auto simp: workspaceId_parser_def bind_sum_Inr dest: text_field_Inr split: if_splits)
  show opt: "opt_holds (\<lambda>r. length r \<le> 200) r" if "optionalId v label = Inr r" for label r
    using that optionalId_Inr by (cases r) auto
  show "runtimeId_parser ctx v = Inr r \<Longrightarrow> opt_holds (\<lambda>r. vc_runtimeExists ctx r \<and> length r \<le> 200) r"
    using optionalId_Inr by (auto simp: runtimeId_parser_def bind_sum_Inr split: option.splits if_splits)
  show "timeout_parser v = Inr n \<Longrightarrow> 60 \<le> n \<and> n \<le> 86400"
    by (auto simp: timeout_parser_def split: option.splits if_splits)
  assume "schedule_parser tz ctx v = Inr s"
  then have "parseSchedule tz v (vc_now ctx) True = Inr s"
    by (cases "parseSchedule tz v (vc_now ctx) True") (auto simp: schedule_parser_def split: if_splits)
  then show "schedule_ok s \<and> (\<exists>t. computeNextRun tz s (vc_now ctx) = Some t \<and> vc_now ctx < t)"
    using parseSchedule_ok parseSchedule_has_next computeNextRun_after by blast
qed

lemma parse_fields_ok: "parse_fields tz ctx False body = Inr p \<Longrightarrow> patch_ok tz ctx p"
  unfolding parse_fields_def bind_sum_Inr if_False patch_ok_def
  by (elim exE conjE)
    (auto elim!: when_present_holds dest: parser_bounds text_field_Inr)

text \<open>Every accepted request, to create or to edit, names an existing workspace and an available agent, has
  a name of 1 to 120 and a prompt of 1 to 32000 units, identifiers of at most 200, a timeout between a
  minute and a day and a schedule that will run.\<close>
theorem accepted_job_bounded:
  assumes "parseJobPatch tz ctx raw = Inr p"
  shows "patch_ok tz ctx p"
  using assms parse_fields_ok by (simp add: parseJobPatch_def split: if_splits)

definition demo_request :: jsval where
  "demo_request = JObj [(js ''name'', JStr (js '' Daily report '')), (js ''prompt'', JStr (js ''Summarise'')),
     (js ''workspaceId'', JStr (js ''w1'')), (js ''timeoutSeconds'', JNum 600),
     (js ''schedule'', JObj [(js ''kind'', JStr (js ''every'')), (js ''everySeconds'', JNum 3600)])]"

definition demo_context :: JobValidationContext where
  "demo_context = \<lparr>vc_now = 1000, vc_defaultSessionMode = Some Fresh, vc_workspaceExists = \<lambda>w. w = js ''w1'', vc_runtimeExists = \<lambda>_. False\<rparr>"

lemma demo_parse:
  "\<exists>p. parse_fields demo_zones demo_context True demo_request = Inr p \<and> p_name p = Some (js ''Daily report'') \<and> p_notify p = None"
  by (simp add: parse_fields_def demo_request_def demo_context_def when_required_def when_present_def workspaceId_parser_def
      text_field_def schedule_parser_def parseSchedule_def read_every_def timeout_parser_def js_trim_def is_ws_def js_def)

theorem accepted_job_bounded_witness:
  "\<exists>p. parseJobPatch demo_zones demo_context demo_request = Inr p \<and> p_name p = Some (js ''Daily report'') \<and> patch_ok demo_zones demo_context p"
proof -
  obtain p where p: "parse_fields demo_zones demo_context True demo_request = Inr p" "p_name p = Some (js ''Daily report'')"
    using demo_parse by blast
  have "parseJobPatch demo_zones demo_context demo_request = Inr p"
    using parse_fields_required [OF p(1)] by (simp add: parseJobPatch_def demo_request_def)
  with p(2) accepted_job_bounded [OF this] show ?thesis by blast
qed

theorem create_is_patch_of_defaults_witness:
  "\<exists>f p. parseJobCreate demo_zones demo_context demo_request = Inr f \<and> parseJobPatch demo_zones demo_context demo_request = Inr p
     \<and> f = with_defaults demo_context p"
proof -
  obtain p where "parse_fields demo_zones demo_context True demo_request = Inr p" using demo_parse by blast
  then have "parseJobCreate demo_zones demo_context demo_request = Inr (with_defaults demo_context p)"
    by (simp add: parseJobCreate_def demo_request_def)
  with create_is_patch_of_defaults [OF this] show ?thesis by blast
qed

theorem preview_increasing_witness:
  "sorted_wrt (<) (0 # previewSchedule demo_zones (Every 60) 0 3) \<and> previewSchedule demo_zones (Every 60) 0 3 = [60000, 120000, 180000]"
proof -
  have p: "parseSchedule demo_zones (JObj [(js ''kind'', JStr (js ''every'')), (js ''everySeconds'', JNum 60)]) 0 True = Inr (Every 60)"
    by (simp add: parseSchedule_def read_every_def)
  show ?thesis using preview_increasing [OF p, of 3]
    by (simp add: previewSchedule_def computeNextRun_def numeral_3_eq_3)
qed

end
