(* ===== verification/Job_Ledger.thy ===== *)
theory Job_Ledger
  imports Job_Schedule
begin

text \<open>
  The ledger of scheduled jobs (\<^verbatim>\<open>backend/src/services/scheduledJobs/repository.ts\<close>): the tables of jobs, runs,
  execution claims and the scheduler's lease, one function per method. A table is a list of rows in the
  order of insertion, a statement a map or a filter over it, and the number of changed rows the length of
  the filtered list; rows that compare equal in an \<open>ORDER BY\<close> keep their order. A violated primary key
  raises, which rolls the transaction back: such an operation gives no new ledger. Of the tables of the
  page maintenance the columns that \<open>finishRun\<close> reads are kept. References to workspaces and nodes are not
  checked. Whether a process lives is the argument \<open>probe\<close>. Several backends share the ledger; the theorems
  hold for every interleaving of their operations.
\<close>

section \<open>Tables\<close>

datatype ScheduledJobRunStatus = Running | Succeeded | Failed | Cancelled | TimedOut | RunInterrupted

datatype ScheduledJobRunTrigger = TriggerScheduled | TriggerManual

datatype execution_kind = KindScheduled | KindMaintenance

datatype notify_state = NotifyNone | NotifyPending | NotifyDelivered

datatype notify_kind = NotifyFinished | NotifyAttention

datatype attention = NeedsApproval | NeedsInput

record ScheduledJobRecord =
  j_id :: jstr
  j_executionKind :: execution_kind
  j_conversationCursor :: "int option"
  j_ownerUserId :: "jstr option"
  j_workspaceId :: jstr
  j_name :: jstr
  j_prompt :: jstr
  j_schedule :: ScheduledJobSchedule
  j_runtimeId :: "jstr option"
  j_providerId :: "jstr option"
  j_modelId :: "jstr option"
  j_reasoning :: "jstr option"
  j_permissionMode :: ChatPermissionMode
  j_sessionMode :: ScheduledJobSessionMode
  j_persistentNodeId :: "jstr option"
  j_notify :: bool
  j_enabled :: bool
  j_autoPaused :: bool
  j_consecutiveFailures :: nat
  j_timeoutSeconds :: int
  j_nextRunAt :: "int option"
  j_lastRunAt :: "int option"
  j_lastStatus :: "ScheduledJobRunStatus option"
  j_lastError :: "jstr option"
  j_createdAt :: int
  j_updatedAt :: int

record ScheduledJobRunRecord =
  r_id :: jstr
  r_jobId :: jstr
  r_workspaceId :: jstr
  r_nodeId :: "jstr option"
  r_treeId :: "jstr option"
  r_turnId :: "jstr option"
  r_trigger :: ScheduledJobRunTrigger
  r_status :: ScheduledJobRunStatus
  r_scheduledFor :: "int option"
  r_startedAt :: int
  r_finishedAt :: "int option"
  r_summary :: "jstr option"
  r_error :: "jstr option"
  r_notifyState :: notify_state
  r_notifyKind :: "notify_kind option"
  r_attention :: "attention option"
  r_claimedBy :: jstr

record SchedulerLease =
  l_holder :: jstr
  l_generation :: nat

record execution_claim =
  c_runId :: jstr
  c_jobId :: jstr
  c_lease :: SchedulerLease
  c_processId :: "nat option"
  c_acquiredAt :: int
  c_workspaceId :: jstr
  c_processExitSafe :: bool
  c_quarantinedAt :: "int option"
  c_reason :: "jstr option"

record lease_row =
  lr_lease :: SchedulerLease
  lr_expiresAt :: int

record maintenance_config =
  mc_workspaceId :: jstr
  mc_ownerUserId :: jstr
  mc_jobId :: jstr
  mc_revision :: nat
  mc_completionCursor :: int
  mc_enabled :: bool
  mc_paused :: bool
  mc_updatedAt :: int

record maintenance_plan =
  mp_id :: jstr
  mp_workspaceId :: jstr
  mp_ownerUserId :: jstr
  mp_jobId :: jstr
  mp_runId :: "jstr option"
  mp_configRevision :: nat
  mp_terminal :: bool
  mp_sourcesDone :: "bool list"

record ledger =
  g_jobs :: "ScheduledJobRecord list"
  g_runs :: "ScheduledJobRunRecord list"
  g_claims :: "execution_claim list"
  g_lease :: "lease_row option"
  g_configs :: "maintenance_config list"
  g_plans :: "maintenance_plan list"

text \<open>\<open>UPDATE ... SET ... WHERE\<close> on the rows of a table.\<close>

definition update_where :: "('r \<Rightarrow> bool) \<Rightarrow> ('r \<Rightarrow> 'r) \<Rightarrow> 'r list \<Rightarrow> 'r list" where
  "update_where P f rows = map (\<lambda>r. if P r then f r else r) rows"

definition count_where :: "('r \<Rightarrow> bool) \<Rightarrow> 'r list \<Rightarrow> nat" where
  "count_where P rows = length (filter P rows)"

section \<open>Jobs\<close>

definition find_job :: "jstr \<Rightarrow> ledger \<Rightarrow> ScheduledJobRecord option" where
  "find_job i st = find (\<lambda>j. j_id j = i) (g_jobs st)"

definition getRun :: "jstr \<Rightarrow> ledger \<Rightarrow> ScheduledJobRunRecord option" where
  "getRun i st = find (\<lambda>r. r_id r = i) (g_runs st)"

definition active_run_id :: "jstr \<Rightarrow> ledger \<Rightarrow> jstr option" where
  "active_run_id jobId st =
     (case sort_key (\<lambda>r. - r_startedAt r) (filter (\<lambda>r. r_jobId r = jobId \<and> r_status r = Running) (g_runs st)) of
        [] \<Rightarrow> None | r # _ \<Rightarrow> Some (r_id r))"

definition listJobs :: "ledger \<Rightarrow> (ScheduledJobRecord \<times> jstr option) list" where
  "listJobs st = map (\<lambda>j. (j, active_run_id (j_id j) st))
     (sort_key j_createdAt (filter (\<lambda>j. j_executionKind j = KindScheduled) (g_jobs st)))"

definition listMaintenanceExecutions :: "ledger \<Rightarrow> ScheduledJobRecord list" where
  "listMaintenanceExecutions st = filter (\<lambda>j. j_executionKind j = KindMaintenance) (g_jobs st)"

definition countJobs :: "ledger \<Rightarrow> nat" where
  "countJobs st = count_where (\<lambda>j. j_executionKind j = KindScheduled) (g_jobs st)"

definition getJob :: "jstr \<Rightarrow> ledger \<Rightarrow> (ScheduledJobRecord \<times> jstr option) option" where
  "getJob i st = map_option (\<lambda>j. (j, active_run_id i st)) (find_job i st)"

definition insertJob :: "ScheduledJobRecord \<Rightarrow> ledger \<Rightarrow> ledger option" where
  "insertJob r st = (if find_job (j_id r) st \<noteq> None then None else Some (st\<lparr>g_jobs := g_jobs st @ [r]\<rparr>))"

datatype job_column =
    SetExecutionKind execution_kind | SetConversationCursor "int option" | SetWorkspaceId jstr | SetName jstr | SetPrompt jstr
  | SetSchedule ScheduledJobSchedule | SetRuntimeId "jstr option" | SetProviderId "jstr option"
  | SetModelId "jstr option" | SetReasoning "jstr option" | SetPermissionMode ChatPermissionMode
  | SetSessionMode ScheduledJobSessionMode | SetPersistentNodeId "jstr option" | SetNotify bool | SetEnabled bool
  | SetAutoPaused bool | SetConsecutiveFailures nat | SetTimeoutSeconds int | SetNextRunAt "int option"
  | SetLastRunAt "int option" | SetLastStatus "ScheduledJobRunStatus option" | SetLastError "jstr option" | SetUpdatedAt int

type_synonym JobUpdate = "job_column list"

fun set_column :: "job_column \<Rightarrow> ScheduledJobRecord \<Rightarrow> ScheduledJobRecord" where
  "set_column (SetExecutionKind v) j = j\<lparr>j_executionKind := v\<rparr>"
| "set_column (SetConversationCursor v) j = j\<lparr>j_conversationCursor := v\<rparr>"
| "set_column (SetWorkspaceId v) j = j\<lparr>j_workspaceId := v\<rparr>"
| "set_column (SetName v) j = j\<lparr>j_name := v\<rparr>"
| "set_column (SetPrompt v) j = j\<lparr>j_prompt := v\<rparr>"
| "set_column (SetSchedule v) j = j\<lparr>j_schedule := v\<rparr>"
| "set_column (SetRuntimeId v) j = j\<lparr>j_runtimeId := v\<rparr>"
| "set_column (SetProviderId v) j = j\<lparr>j_providerId := v\<rparr>"
| "set_column (SetModelId v) j = j\<lparr>j_modelId := v\<rparr>"
| "set_column (SetReasoning v) j = j\<lparr>j_reasoning := v\<rparr>"
| "set_column (SetPermissionMode v) j = j\<lparr>j_permissionMode := v\<rparr>"
| "set_column (SetSessionMode v) j = j\<lparr>j_sessionMode := v\<rparr>"
| "set_column (SetPersistentNodeId v) j = j\<lparr>j_persistentNodeId := v\<rparr>"
| "set_column (SetNotify v) j = j\<lparr>j_notify := v\<rparr>"
| "set_column (SetEnabled v) j = j\<lparr>j_enabled := v\<rparr>"
| "set_column (SetAutoPaused v) j = j\<lparr>j_autoPaused := v\<rparr>"
| "set_column (SetConsecutiveFailures v) j = j\<lparr>j_consecutiveFailures := v\<rparr>"
| "set_column (SetTimeoutSeconds v) j = j\<lparr>j_timeoutSeconds := v\<rparr>"
| "set_column (SetNextRunAt v) j = j\<lparr>j_nextRunAt := v\<rparr>"
| "set_column (SetLastRunAt v) j = j\<lparr>j_lastRunAt := v\<rparr>"
| "set_column (SetLastStatus v) j = j\<lparr>j_lastStatus := v\<rparr>"
| "set_column (SetLastError v) j = j\<lparr>j_lastError := v\<rparr>"
| "set_column (SetUpdatedAt v) j = j\<lparr>j_updatedAt := v\<rparr>"

definition updateJob :: "jstr \<Rightarrow> JobUpdate \<Rightarrow> ledger \<Rightarrow> ledger" where
  "updateJob i upd st = st\<lparr>g_jobs := update_where (\<lambda>j. j_id j = i) (fold set_column upd) (g_jobs st)\<rparr>"

text \<open>
  Deleting a job cascades to its runs and its maintenance configuration with its plans; the plans of a
  deleted run lose it; execution claims stay.
\<close>

definition deleteJob :: "jstr \<Rightarrow> ledger \<Rightarrow> bool \<times> ledger" where
  "deleteJob i st =
     (let gone = filter (\<lambda>r. r_jobId r = i) (g_runs st);
          configs = filter (\<lambda>c. mc_jobId c \<noteq> i) (g_configs st)
      in (find_job i st \<noteq> None,
          if find_job i st = None then st
          else st\<lparr>g_jobs := filter (\<lambda>j. j_id j \<noteq> i) (g_jobs st),
             g_runs := filter (\<lambda>r. r_jobId r \<noteq> i) (g_runs st),
             g_configs := configs,
             g_plans := map (\<lambda>p. if \<exists>r \<in> set gone. mp_runId p = Some (r_id r) then p\<lparr>mp_runId := None\<rparr> else p)
               (filter (\<lambda>p. mp_jobId p \<noteq> i \<and> (\<exists>c \<in> set configs. mc_workspaceId c = mp_workspaceId p \<and> mc_ownerUserId c = mp_ownerUserId p))
                  (g_plans st))\<rparr>))"

definition listScheduledJobs :: "ledger \<Rightarrow> ScheduledJobRecord list" where
  "listScheduledJobs st = sort_key (\<lambda>j. the (j_nextRunAt j))
     (filter (\<lambda>j. j_executionKind j = KindScheduled \<and> j_enabled j \<and> \<not> j_autoPaused j \<and> j_nextRunAt j \<noteq> None) (g_jobs st))"

section \<open>The lease\<close>

definition ownsLease :: "SchedulerLease \<Rightarrow> int \<Rightarrow> ledger \<Rightarrow> bool" where
  "ownsLease lease now st = (case g_lease st of None \<Rightarrow> False | Some row \<Rightarrow> lr_lease row = lease \<and> now < lr_expiresAt row)"

definition acquireLease :: "jstr \<Rightarrow> int \<Rightarrow> int \<Rightarrow> ledger \<Rightarrow> SchedulerLease option \<times> ledger" where
  "acquireLease holder now ttlMs st =
     (let issue = (\<lambda>g. let lease = \<lparr>l_holder = holder, l_generation = g\<rparr>
            in (Some lease, st\<lparr>g_lease := Some \<lparr>lr_lease = lease, lr_expiresAt = now + ttlMs\<rparr>\<rparr>))
      in case g_lease st of
           None \<Rightarrow> issue 1
         | Some row \<Rightarrow>
             if l_holder (lr_lease row) \<noteq> holder \<and> now < lr_expiresAt row then (None, st)
             else if l_holder (lr_lease row) = holder \<and> now < lr_expiresAt row then issue (l_generation (lr_lease row))
             else issue (l_generation (lr_lease row) + 1))"

definition releaseLease :: "SchedulerLease \<Rightarrow> ledger \<Rightarrow> ledger" where
  "releaseLease lease st = (case g_lease st of
      Some row \<Rightarrow> if lr_lease row = lease then st\<lparr>g_lease := Some (row\<lparr>lr_expiresAt := 0\<rparr>)\<rparr> else st
    | None \<Rightarrow> st)"

section \<open>Runs and claims\<close>

datatype refusal = Missing | NotDue | JobRunning | Capacity | LeaseLost | UnresolvedExecution

datatype admission = Admitted ScheduledJobRunRecord | Refused refusal | KeyViolation

record ClaimRunInput =
  i_jobId :: jstr
  i_runId :: jstr
  i_trigger :: ScheduledJobRunTrigger
  i_now :: int
  i_lease :: SchedulerLease
  i_maxConcurrentRuns :: nat
  i_processExitStopsExecution :: bool
  i_processId :: nat
  i_nextRunAt :: "int option option"
  i_requireDue :: bool

definition has_claim :: "jstr \<Rightarrow> ledger \<Rightarrow> bool" where
  "has_claim runId st \<longleftrightarrow> runId \<in> c_runId ` set (g_claims st)"

definition new_run :: "ClaimRunInput \<Rightarrow> ScheduledJobRecord \<Rightarrow> ScheduledJobRunRecord" where
  "new_run inp row = \<lparr>r_id = i_runId inp, r_jobId = i_jobId inp, r_workspaceId = j_workspaceId row, r_nodeId = None,
     r_treeId = None, r_turnId = None, r_trigger = i_trigger inp, r_status = Running,
     r_scheduledFor = (if i_requireDue inp then j_nextRunAt row else None), r_startedAt = i_now inp, r_finishedAt = None,
     r_summary = None, r_error = None, r_notifyState = NotifyNone, r_notifyKind = None, r_attention = None,
     r_claimedBy = l_holder (i_lease inp)\<rparr>"

definition new_claim :: "ClaimRunInput \<Rightarrow> ScheduledJobRecord \<Rightarrow> execution_claim" where
  "new_claim inp row = \<lparr>c_runId = i_runId inp, c_jobId = i_jobId inp, c_lease = i_lease inp,
     c_processId = Some (i_processId inp), c_acquiredAt = i_now inp, c_workspaceId = j_workspaceId row,
     c_processExitSafe = i_processExitStopsExecution inp, c_quarantinedAt = None, c_reason = None\<rparr>"

definition is_due :: "ScheduledJobRecord \<Rightarrow> int \<Rightarrow> bool" where
  "is_due row now \<longleftrightarrow> j_executionKind row = KindScheduled \<and> j_enabled row \<and> \<not> j_autoPaused row
     \<and> (case j_nextRunAt row of None \<Rightarrow> False | Some t \<Rightarrow> t \<le> now)"

definition claimRun :: "ClaimRunInput \<Rightarrow> ledger \<Rightarrow> admission \<times> ledger" where
  "claimRun inp st =
     (if \<not> ownsLease (i_lease inp) (i_now inp) st then (Refused LeaseLost, st)
      else case find_job (i_jobId inp) st of
        None \<Rightarrow> (Refused Missing, st)
      | Some row \<Rightarrow>
          if i_requireDue inp \<and> \<not> is_due row (i_now inp) then (Refused NotDue, st)
          else if list_ex (\<lambda>c. c_lease c \<noteq> i_lease inp \<or> c_quarantinedAt c \<noteq> None) (g_claims st)
          then (Refused UnresolvedExecution, st)
          else if list_ex (\<lambda>r. r_jobId r = i_jobId inp \<and> r_status r = Running) (g_runs st)
             \<or> list_ex (\<lambda>c. c_jobId c = i_jobId inp) (g_claims st) then (Refused JobRunning, st)
          else if j_executionKind row = KindMaintenance
             \<and> list_ex (\<lambda>c. list_ex (\<lambda>j. j_id j = c_jobId c \<and> j_executionKind j = KindMaintenance) (g_jobs st)) (g_claims st)
          then (Refused Capacity, st)
          else if i_maxConcurrentRuns inp \<le> length (g_claims st) then (Refused Capacity, st)
          else if getRun (i_runId inp) st \<noteq> None \<or> has_claim (i_runId inp) st then (KeyViolation, st)
          else (Admitted (new_run inp row),
                st\<lparr>g_runs := g_runs st @ [new_run inp row], g_claims := g_claims st @ [new_claim inp row],
                   g_jobs := update_where (\<lambda>j. j_id j = i_jobId inp)
                     (fold set_column ((case i_nextRunAt inp of None \<Rightarrow> [] | Some t \<Rightarrow> [SetNextRunAt t]) @ [SetLastRunAt (Some (i_now inp))]))
                     (g_jobs st)\<rparr>))"

definition listRuns :: "jstr \<Rightarrow> nat \<Rightarrow> ledger \<Rightarrow> ScheduledJobRunRecord list" where
  "listRuns jobId limit st = take limit (sort_key (\<lambda>r. - r_startedAt r) (filter (\<lambda>r. r_jobId r = jobId) (g_runs st)))"

definition ownsRun :: "jstr \<Rightarrow> SchedulerLease \<Rightarrow> int \<Rightarrow> ledger \<Rightarrow> bool" where
  "ownsRun runId lease now st \<longleftrightarrow> ownsLease lease now st
     \<and> list_ex (\<lambda>c. c_runId c = runId \<and> c_lease c = lease) (g_claims st)
     \<and> list_ex (\<lambda>r. r_id r = runId \<and> r_status r = Running) (g_runs st)"

definition run_job_id :: "jstr \<Rightarrow> ledger \<Rightarrow> jstr option" where
  "run_job_id runId st = map_option r_jobId (getRun runId st)"

definition attachRunTarget ::
  "jstr \<Rightarrow> jstr \<times> jstr option \<times> jstr option \<Rightarrow> SchedulerLease \<Rightarrow> int \<Rightarrow> jstr option \<Rightarrow> ledger \<Rightarrow> bool \<times> ledger" where
  "attachRunTarget runId target lease now persistentNodeId st =
     (case target of (nodeId, treeId, turnId) \<Rightarrow>
        if \<not> ownsRun runId lease now st then (False, st)
        else (True, st\<lparr>g_runs := update_where (\<lambda>r. r_id r = runId)
                 (\<lambda>r. r\<lparr>r_nodeId := Some nodeId, r_treeId := treeId, r_turnId := turnId\<rparr>) (g_runs st),
               g_jobs := (if truthy_str persistentNodeId
                 then update_where (\<lambda>j. run_job_id runId st = Some (j_id j)) (\<lambda>j. j\<lparr>j_persistentNodeId := persistentNodeId\<rparr>) (g_jobs st)
                 else g_jobs st)\<rparr>))"

section \<open>Finishing a run\<close>

record conversation_progress =
  cp_after :: int
  cp_nextAfter :: int
  cp_workspaceId :: jstr
  cp_claimedBy :: jstr
  cp_maintenanceConfigRevision :: "nat option"
  cp_maintenancePlanId :: "jstr option"
  cp_maintenanceOwnerUserId :: "jstr option"

record finish_fields =
  ff_status :: ScheduledJobRunStatus
  ff_finishedAt :: int
  ff_summary :: "jstr option"
  ff_error :: "jstr option"
  ff_notify :: bool
  ff_conversationProgress :: "conversation_progress option"

definition progress_owner :: "conversation_progress \<Rightarrow> jstr" where
  "progress_owner p = default_to (cp_maintenanceOwnerUserId p) (js ''local-user'')"

text \<open>The configuration that belongs to the run's job, found by joining run, job and configuration.\<close>

definition run_config :: "jstr \<Rightarrow> conversation_progress \<Rightarrow> ledger \<Rightarrow> (ScheduledJobRunRecord \<times> ScheduledJobRecord \<times> maintenance_config) option" where
  "run_config runId p st =
     (case getRun runId st of None \<Rightarrow> None
      | Some r \<Rightarrow> (case find_job (r_jobId r) st of None \<Rightarrow> None
        | Some j \<Rightarrow> if j_workspaceId j \<noteq> cp_workspaceId p then None
            else map_option (\<lambda>c. (r, j, c))
              (find (\<lambda>c. mc_jobId c = j_id j \<and> mc_workspaceId c = cp_workspaceId p \<and> mc_ownerUserId c = progress_owner p) (g_configs st))))"

definition plan_terminal :: "jstr \<Rightarrow> jstr \<Rightarrow> nat \<Rightarrow> conversation_progress \<Rightarrow> ledger \<Rightarrow> bool" where
  "plan_terminal planId runId revision p st =
     (case find (\<lambda>q. mp_id q = planId \<and> mp_runId q = Some runId \<and> mp_configRevision q = revision
         \<and> mp_workspaceId q = cp_workspaceId p \<and> mp_ownerUserId q = progress_owner p) (g_plans st) of
        None \<Rightarrow> False | Some q \<Rightarrow> mp_terminal q \<and> list_all id (mp_sourcesDone q))"

definition maintenance_ready :: "jstr \<Rightarrow> int \<Rightarrow> conversation_progress \<Rightarrow> nat \<Rightarrow> ledger \<Rightarrow> bool" where
  "maintenance_ready runId finishedAt p revision st =
     (case (run_config runId p st, g_lease st) of
        (Some (r, j, c), Some l) \<Rightarrow>
          mc_revision c = revision \<and> mc_completionCursor c = cp_after p \<and> mc_enabled c \<and> \<not> mc_paused c
          \<and> j_enabled j \<and> \<not> j_autoPaused j \<and> r_status r = Running \<and> r_claimedBy r = cp_claimedBy p \<and> r_attention r = None
          \<and> l_holder (lr_lease l) = cp_claimedBy p \<and> finishedAt < lr_expiresAt l
          \<and> \<not> (\<not> truthy_str (cp_maintenancePlanId p) \<and> cp_nextAfter p \<noteq> cp_after p)
          \<and> (truthy_str (cp_maintenancePlanId p) \<longrightarrow> plan_terminal (the (cp_maintenancePlanId p)) runId revision p st)
      | _ \<Rightarrow> False)"

definition advances_job :: "jstr \<Rightarrow> int \<Rightarrow> conversation_progress \<Rightarrow> ledger \<Rightarrow> ScheduledJobRecord \<Rightarrow> bool" where
  "advances_job runId finishedAt p st j \<longleftrightarrow>
     (case getRun runId st of None \<Rightarrow> False
      | Some r \<Rightarrow> r_status r = Running \<and> r_claimedBy r = cp_claimedBy p \<and> r_attention r = None \<and> j_id j = r_jobId r)
     \<and> j_workspaceId j = cp_workspaceId p \<and> j_conversationCursor j = Some (cp_after p)
     \<and> (case g_lease st of None \<Rightarrow> False | Some l \<Rightarrow> l_holder (lr_lease l) = cp_claimedBy p \<and> finishedAt < lr_expiresAt l)"

definition advances_config :: "jstr \<Rightarrow> conversation_progress \<Rightarrow> nat \<Rightarrow> ledger \<Rightarrow> maintenance_config \<Rightarrow> bool" where
  "advances_config runId p revision st c \<longleftrightarrow> run_job_id runId st = Some (mc_jobId c) \<and> mc_workspaceId c = cp_workspaceId p
     \<and> mc_ownerUserId c = progress_owner p \<and> mc_completionCursor c = cp_after p \<and> mc_revision c = revision
     \<and> mc_enabled c \<and> \<not> mc_paused c"

definition commit_progress :: "jstr \<Rightarrow> int \<Rightarrow> conversation_progress \<Rightarrow> ledger \<Rightarrow> bool \<times> ledger" where
  "commit_progress runId finishedAt p st =
     (let ready = (case cp_maintenanceConfigRevision p of None \<Rightarrow> True | Some revision \<Rightarrow> maintenance_ready runId finishedAt p revision st);
          advanced = (if ready then count_where (advances_job runId finishedAt p st) (g_jobs st) else 0);
          st1 = (if ready then st\<lparr>g_jobs := update_where (advances_job runId finishedAt p st)
                    (\<lambda>j. j\<lparr>j_conversationCursor := Some (cp_nextAfter p)\<rparr>) (g_jobs st)\<rparr> else st)
      in case cp_maintenanceConfigRevision p of
           None \<Rightarrow> (advanced = 1, st1)
         | Some revision \<Rightarrow>
             if advanced \<noteq> 1 then (False, st1)
             else if count_where (advances_config runId p revision st) (g_configs st) \<noteq> 1
             then (False, st1\<lparr>g_jobs := update_where (\<lambda>j. run_job_id runId st = Some (j_id j))
                    (\<lambda>j. j\<lparr>j_conversationCursor := Some (cp_after p)\<rparr>) (g_jobs st1)\<rparr>)
             else (ready, st1\<lparr>g_configs := update_where (advances_config runId p revision st)
                    (\<lambda>c. c\<lparr>mc_completionCursor := cp_nextAfter p, mc_updatedAt := finishedAt\<rparr>) (g_configs st)\<rparr>))"

definition PROGRESS_LOST :: jstr where
  "PROGRESS_LOST = js ''Conversation progress was not advanced: consumer changed or run lease expired''"

definition record_outcome :: "jstr \<Rightarrow> finish_fields \<Rightarrow> ledger \<Rightarrow> bool \<times> ledger" where
  "record_outcome runId f st =
     (0 < count_where (\<lambda>r. r_id r = runId \<and> r_status r = Running) (g_runs st),
      st\<lparr>g_runs := update_where (\<lambda>r. r_id r = runId \<and> r_status r = Running)
        (\<lambda>r. r\<lparr>r_status := ff_status f, r_finishedAt := Some (ff_finishedAt f), r_summary := ff_summary f, r_error := ff_error f,
            r_notifyState := (if ff_notify f then NotifyPending else r_notifyState r),
            r_notifyKind := (if ff_notify f then Some NotifyFinished else r_notifyKind r)\<rparr>) (g_runs st)\<rparr>)"

definition finishRun :: "jstr \<Rightarrow> SchedulerLease \<Rightarrow> finish_fields \<Rightarrow> ledger \<Rightarrow> bool \<times> ledger" where
  "finishRun runId lease f st =
     (if \<not> ownsRun runId lease (ff_finishedAt f) st then (False, st)
      else case (if ff_status f = Succeeded then ff_conversationProgress f else None) of
          None \<Rightarrow> record_outcome runId f st
        | Some p \<Rightarrow>
            (case commit_progress runId (ff_finishedAt f) p st of
               (True, st1) \<Rightarrow> record_outcome runId f st1
             | (False, st1) \<Rightarrow> record_outcome runId (f\<lparr>ff_status := Failed, ff_error := Some PROGRESS_LOST\<rparr>) st1))"

definition updateFinishedJob :: "jstr \<Rightarrow> SchedulerLease \<Rightarrow> int \<Rightarrow> JobUpdate \<Rightarrow> ledger \<Rightarrow> bool \<times> ledger" where
  "updateFinishedJob runId lease now upd st =
     (if \<not> ownsLease lease now st then (False, st)
      else case find (\<lambda>c. c_runId c = runId \<and> c_lease c = lease) (g_claims st) of
          None \<Rightarrow> (False, st)
        | Some c \<Rightarrow> (True, updateJob (c_jobId c) upd st))"

definition markAttention :: "jstr \<Rightarrow> attention \<Rightarrow> SchedulerLease \<Rightarrow> int \<Rightarrow> ledger \<Rightarrow> bool \<times> ledger" where
  "markAttention runId kind lease now st =
     (if \<not> ownsRun runId lease now st then (False, st)
      else (True, st\<lparr>g_runs := update_where (\<lambda>r. r_id r = runId)
        (\<lambda>r. r\<lparr>r_attention := Some kind, r_notifyState := NotifyPending, r_notifyKind := Some NotifyAttention\<rparr>) (g_runs st)\<rparr>))"

definition releaseExecution :: "jstr \<Rightarrow> SchedulerLease \<Rightarrow> ledger \<Rightarrow> ledger" where
  "releaseExecution runId lease st = st\<lparr>g_claims := filter (\<lambda>c. \<not> (c_runId c = runId \<and> c_lease c = lease)) (g_claims st)\<rparr>"

definition markNotified :: "jstr \<Rightarrow> ledger \<Rightarrow> bool \<times> ledger" where
  "markNotified runId st =
     (0 < count_where (\<lambda>r. r_id r = runId \<and> r_notifyState r = NotifyPending) (g_runs st),
      st\<lparr>g_runs := update_where (\<lambda>r. r_id r = runId \<and> r_notifyState r = NotifyPending)
        (\<lambda>r. r\<lparr>r_notifyState := NotifyDelivered\<rparr>) (g_runs st)\<rparr>)"

definition run_time :: "ScheduledJobRunRecord \<Rightarrow> int" where
  "run_time r = default_to (r_finishedAt r) (r_startedAt r)"

definition pendingNotifications :: "int \<Rightarrow> ledger \<Rightarrow> ScheduledJobRunRecord list" where
  "pendingNotifications since st = take 20 (sort_key run_time
     (filter (\<lambda>r. r_notifyState r = NotifyPending \<and> since \<le> run_time r
        \<and> (r_notifyKind r = Some NotifyFinished \<or> r_status r = Running)) (g_runs st)))"

section \<open>Fencing and recovery\<close>

definition OWNERSHIP_CHANGED :: jstr where
  "OWNERSHIP_CHANGED = js ''Scheduler ownership changed while this run was in progress''"

definition NOT_CONFIRMED :: jstr where
  "NOT_CONFIRMED = js ''Scheduler ownership changed; the previous execution has not confirmed it stopped''"

definition EARLIER_VERSION :: jstr where
  "EARLIER_VERSION = js ''An earlier Michi version did not confirm that this execution stopped''"

definition quarantine :: "int \<Rightarrow> jstr \<Rightarrow> execution_claim \<Rightarrow> execution_claim" where
  "quarantine now reason c = c\<lparr>c_quarantinedAt := Some (default_to (c_quarantinedAt c) now), c_reason := Some (default_to (c_reason c) reason)\<rparr>"

definition legacy_claim :: "int \<Rightarrow> ScheduledJobRunRecord \<Rightarrow> execution_claim" where
  "legacy_claim now r = \<lparr>c_runId = r_id r, c_jobId = r_jobId r, c_lease = \<lparr>l_holder = r_claimedBy r, l_generation = 0\<rparr>,
     c_processId = None, c_acquiredAt = r_startedAt r, c_workspaceId = r_workspaceId r, c_processExitSafe = False,
     c_quarantinedAt = Some now, c_reason = Some EARLIER_VERSION\<rparr>"

definition interrupt_run :: "int \<Rightarrow> (ScheduledJobRunRecord \<Rightarrow> bool) \<Rightarrow> ScheduledJobRunRecord \<Rightarrow> ScheduledJobRunRecord" where
  "interrupt_run now clears r = r\<lparr>r_status := RunInterrupted, r_finishedAt := Some now, r_error := Some OWNERSHIP_CHANGED,
     r_notifyState := (if clears r then NotifyNone else r_notifyState r)\<rparr>"

definition interruptStaleRuns :: "SchedulerLease \<Rightarrow> int \<Rightarrow> ledger \<Rightarrow> nat \<times> ledger" where
  "interruptStaleRuns lease now st =
     (if \<not> ownsLease lease now st then (0, st)
      else let untracked = filter (\<lambda>r. r_status r = Running \<and> \<not> has_claim (r_id r) st) (g_runs st);
               claims = update_where (\<lambda>c. c_lease c \<noteq> lease) (quarantine now NOT_CONFIRMED)
                 (g_claims st @ map (legacy_claim now) untracked);
               stale = (\<lambda>r. r_status r = Running \<and> \<not> list_ex (\<lambda>c. c_runId c = r_id r \<and> c_lease c = lease) claims)
           in (count_where stale (g_runs st),
               st\<lparr>g_claims := claims,
                  g_runs := update_where stale
                    (interrupt_run now (\<lambda>r. r_notifyState r = NotifyPending \<and> r_notifyKind r = Some NotifyAttention)) (g_runs st)\<rparr>))"

definition quarantineExecution :: "jstr \<Rightarrow> SchedulerLease \<Rightarrow> int \<Rightarrow> jstr \<Rightarrow> ledger \<Rightarrow> ledger" where
  "quarantineExecution runId lease now reason st =
     st\<lparr>g_claims := update_where (\<lambda>c. c_runId c = runId \<and> c_lease c = lease) (quarantine now reason) (g_claims st)\<rparr>"

definition interruptExecution :: "jstr \<Rightarrow> SchedulerLease \<Rightarrow> int \<Rightarrow> ledger \<Rightarrow> ledger" where
  "interruptExecution runId lease now st =
     (let st1 = quarantineExecution runId lease now NOT_CONFIRMED st
      in st1\<lparr>g_runs := update_where
           (\<lambda>r. r_id r = runId \<and> r_status r = Running \<and> list_ex (\<lambda>c. c_runId c = r_id r \<and> c_lease c = lease) (g_claims st1))
           (interrupt_run now (\<lambda>r. r_notifyKind r = Some NotifyAttention)) (g_runs st1)\<rparr>)"

record blocked_execution =
  be_runId :: jstr
  be_jobId :: jstr
  be_workspaceId :: jstr
  be_reason :: "jstr option"
  be_since :: int

definition blockedExecutions :: "ledger \<Rightarrow> blocked_execution list" where
  "blockedExecutions st = map (\<lambda>c. \<lparr>be_runId = c_runId c, be_jobId = c_jobId c, be_workspaceId = c_workspaceId c,
       be_reason = c_reason c, be_since = the (c_quarantinedAt c)\<rparr>)
     (sort_key (\<lambda>c. the (c_quarantinedAt c)) (filter (\<lambda>c. c_quarantinedAt c \<noteq> None) (g_claims st)))"

text \<open>What \<open>process.kill(pid, 0)\<close> reports: the process is there, there is none (\<open>ESRCH\<close>), or another error.\<close>

datatype probe_result = ProcessAlive | NoSuchProcess | ProbeFailed

datatype confirmation = Released | ClaimMissing | ClaimActive

definition confirmExecutionStopped :: "(nat \<Rightarrow> probe_result) \<Rightarrow> jstr \<Rightarrow> ledger \<Rightarrow> confirmation \<times> ledger" where
  "confirmExecutionStopped probe runId st = (case find (\<lambda>c. c_runId c = runId) (g_claims st) of
      None \<Rightarrow> (ClaimMissing, st)
    | Some c \<Rightarrow>
        if c_quarantinedAt c = None then (ClaimActive, st)
        else if (case c_processId c of None \<Rightarrow> False | Some pid \<Rightarrow> pid \<noteq> 0 \<and> probe pid \<noteq> NoSuchProcess) then (ClaimActive, st)
        else (Released, st\<lparr>g_claims := filter (\<lambda>c. c_runId c \<noteq> runId) (g_claims st)\<rparr>))"

definition reapable :: "(nat \<Rightarrow> probe_result) \<Rightarrow> nat \<Rightarrow> SchedulerLease \<Rightarrow> execution_claim \<Rightarrow> bool" where
  "reapable probe ownPid lease c \<longleftrightarrow> c_lease c \<noteq> lease \<and> c_processExitSafe c
     \<and> (case c_processId c of None \<Rightarrow> False | Some pid \<Rightarrow> pid \<noteq> 0 \<and> pid \<noteq> ownPid \<and> probe pid = NoSuchProcess)"

definition reapExitedExecutions :: "(nat \<Rightarrow> probe_result) \<Rightarrow> nat \<Rightarrow> SchedulerLease \<Rightarrow> int \<Rightarrow> ledger \<Rightarrow> nat \<times> ledger" where
  "reapExitedExecutions probe ownPid lease now st =
     (if \<not> ownsLease lease now st then (0, st)
      else (count_where (reapable probe ownPid lease) (g_claims st),
            st\<lparr>g_claims := filter (\<lambda>c. \<not> reapable probe ownPid lease c) (g_claims st)\<rparr>))"

definition pruneRuns :: "jstr \<Rightarrow> nat \<Rightarrow> ledger \<Rightarrow> ledger" where
  "pruneRuns jobId keep st =
     (let kept = map r_id (listRuns jobId keep st);
          pruned = (\<lambda>r. r_jobId r = jobId \<and> r_status r \<noteq> Running \<and> \<not> has_claim (r_id r) st \<and> r_id r \<notin> set kept)
      in st\<lparr>g_runs := filter (\<lambda>r. \<not> pruned r) (g_runs st),
            g_plans := map (\<lambda>p. if \<exists>r \<in> set (g_runs st). pruned r \<and> mp_runId p = Some (r_id r) then p\<lparr>mp_runId := None\<rparr> else p) (g_plans st)\<rparr>)"

definition purgeScheduledJobsForWorkspace :: "jstr \<Rightarrow> ledger \<Rightarrow> ledger" where
  "purgeScheduledJobsForWorkspace workspaceId st =
     fold (\<lambda>j st. snd (deleteJob (j_id j) st)) (filter (\<lambda>j. j_workspaceId j = workspaceId) (g_jobs st)) st"

section \<open>Interleavings\<close>

text \<open>
  The operations on the ledger, of any number of backends and in any order; \<open>OtherTables\<close> is a change of the
  maintenance tables by their own repository.
\<close>

datatype ledger_op =
    InsertJob ScheduledJobRecord | UpdateJob jstr JobUpdate | DeleteJob jstr | PurgeWorkspace jstr
  | ClaimRun ClaimRunInput
  | AttachTarget jstr "jstr \<times> jstr option \<times> jstr option" SchedulerLease int "jstr option"
  | FinishRun jstr SchedulerLease finish_fields | UpdateFinishedJob jstr SchedulerLease int JobUpdate
  | MarkAttention jstr attention SchedulerLease int | ReleaseExecution jstr SchedulerLease | MarkNotified jstr
  | InterruptStale SchedulerLease int | InterruptExecution jstr SchedulerLease int
  | QuarantineExecution jstr SchedulerLease int jstr
  | ConfirmStopped "nat \<Rightarrow> probe_result" jstr | ReapExited "nat \<Rightarrow> probe_result" nat SchedulerLease int
  | PruneRuns jstr nat | AcquireLease jstr int int | ReleaseLease SchedulerLease
  | OtherTables "maintenance_config list" "maintenance_plan list"

fun ledger_step :: "ledger \<Rightarrow> ledger_op \<Rightarrow> ledger" where
  "ledger_step st (InsertJob r) = default_to (insertJob r st) st"
| "ledger_step st (UpdateJob i upd) = updateJob i upd st"
| "ledger_step st (DeleteJob i) = snd (deleteJob i st)"
| "ledger_step st (PurgeWorkspace w) = purgeScheduledJobsForWorkspace w st"
| "ledger_step st (ClaimRun inp) = snd (claimRun inp st)"
| "ledger_step st (AttachTarget i target lease now node) = snd (attachRunTarget i target lease now node st)"
| "ledger_step st (FinishRun i lease f) = snd (finishRun i lease f st)"
| "ledger_step st (UpdateFinishedJob i lease now upd) = snd (updateFinishedJob i lease now upd st)"
| "ledger_step st (MarkAttention i kind lease now) = snd (markAttention i kind lease now st)"
| "ledger_step st (ReleaseExecution i lease) = releaseExecution i lease st"
| "ledger_step st (MarkNotified i) = snd (markNotified i st)"
| "ledger_step st (InterruptStale lease now) = snd (interruptStaleRuns lease now st)"
| "ledger_step st (InterruptExecution i lease now) = interruptExecution i lease now st"
| "ledger_step st (QuarantineExecution i lease now reason) = quarantineExecution i lease now reason st"
| "ledger_step st (ConfirmStopped probe i) = snd (confirmExecutionStopped probe i st)"
| "ledger_step st (ReapExited probe pid lease now) = snd (reapExitedExecutions probe pid lease now st)"
| "ledger_step st (PruneRuns i keep) = pruneRuns i keep st"
| "ledger_step st (AcquireLease holder now ttl) = snd (acquireLease holder now ttl st)"
| "ledger_step st (ReleaseLease lease) = releaseLease lease st"
| "ledger_step st (OtherTables configs plans) = st\<lparr>g_configs := configs, g_plans := plans\<rparr>"

definition empty_ledger :: ledger where
  "empty_ledger = \<lparr>g_jobs = [], g_runs = [], g_claims = [], g_lease = None, g_configs = [], g_plans = []\<rparr>"

section \<open>Lemmas: tables\<close>

lemma map_update_where [simp]: "(\<And>x. f (g x) = f x) \<Longrightarrow> map f (update_where P g xs) = map f xs"
  by (simp add: update_where_def)

lemma set_update_where: "set (update_where P g xs) = (\<lambda>x. if P x then g x else x) ` set xs"
  by (simp add: update_where_def)

lemma image_update_where [simp]: "(\<And>x. f (g x) = f x) \<Longrightarrow> f ` set (update_where P g xs) = f ` set xs"
  using map_update_where [of f g P xs] by (metis set_map)

lemma set_column_id [simp]: "j_id (set_column c j) = j_id j"
  by (cases c) simp_all

lemma fold_set_column_id [simp]: "j_id (fold set_column cs j) = j_id j"
  by (induction cs arbitrary: j) simp_all

lemma quarantine_simps [simp]:
  "c_runId (quarantine now reason c) = c_runId c" "c_jobId (quarantine now reason c) = c_jobId c"
  "c_lease (quarantine now reason c) = c_lease c" "c_quarantinedAt (quarantine now reason c) \<noteq> None"
  "c_processId (quarantine now reason c) = c_processId c" "c_processExitSafe (quarantine now reason c) = c_processExitSafe c"
  by (simp_all add: quarantine_def)

lemma interrupt_run_simps [simp]:
  "r_id (interrupt_run now f r) = r_id r" "r_jobId (interrupt_run now f r) = r_jobId r"
  "r_status (interrupt_run now f r) = RunInterrupted"
  by (simp_all add: interrupt_run_def)

lemma find_job_None: "find_job i st = None \<longleftrightarrow> i \<notin> j_id ` set (g_jobs st)"
  by (auto simp: find_job_def find_None_iff)

lemma getRun_None: "getRun i st = None \<longleftrightarrow> i \<notin> r_id ` set (g_runs st)"
  by (auto simp: getRun_def find_None_iff)

section \<open>One execution per job\<close>

text \<open>
  The executions that may be going on: a job with the run that is recorded as running, or whose claim has not
  been given back. And the job that a run identifier stands for.
\<close>

definition executions :: "ledger \<Rightarrow> (jstr \<times> jstr) set" where
  "executions st = (\<lambda>r. (r_jobId r, r_id r)) ` {r \<in> set (g_runs st). r_status r = Running}
     \<union> (\<lambda>c. (c_jobId c, c_runId c)) ` set (g_claims st)"

definition run_ids :: "ledger \<Rightarrow> (jstr \<times> jstr) set" where
  "run_ids st = (\<lambda>r. (r_id r, r_jobId r)) ` set (g_runs st) \<union> (\<lambda>c. (c_runId c, c_jobId c)) ` set (g_claims st)"

definition ledger_ok :: "ledger \<Rightarrow> bool" where
  "ledger_ok st \<longleftrightarrow> distinct (map j_id (g_jobs st)) \<and> distinct (map r_id (g_runs st)) \<and> distinct (map c_runId (g_claims st))
     \<and> single_valued (run_ids st) \<and> single_valued (executions st)"

lemma ledger_ok_less:
  assumes "ledger_ok st" "run_ids st' \<subseteq> run_ids st" "executions st' \<subseteq> executions st"
    and "distinct (map j_id (g_jobs st'))" "distinct (map r_id (g_runs st'))" "distinct (map c_runId (g_claims st'))"
  shows "ledger_ok st'"
  using assms by (auto simp: ledger_ok_def elim: single_valued_subset)

text \<open>An update of runs that starts none, an update of claims that keeps their identity, and rows removed.\<close>

lemma executions_update_runs:
  assumes "\<And>r. r_id (f r) = r_id r" "\<And>r. r_jobId (f r) = r_jobId r" "\<And>r. P r \<Longrightarrow> r_status (f r) = Running \<Longrightarrow> r_status r = Running"
  shows "executions (st\<lparr>g_runs := update_where P f (g_runs st)\<rparr>) \<subseteq> executions st"
  using assms by (fastforce simp: executions_def set_update_where)

lemma run_ids_update_runs:
  assumes "\<And>r. r_id (f r) = r_id r" "\<And>r. r_jobId (f r) = r_jobId r"
  shows "run_ids (st\<lparr>g_runs := update_where P f (g_runs st)\<rparr>) = run_ids st"
  using assms by (simp add: run_ids_def)

lemma ledger_ok_update_runs:
  assumes "ledger_ok st" "\<And>r. r_id (f r) = r_id r" "\<And>r. r_jobId (f r) = r_jobId r" "\<And>r. P r \<Longrightarrow> r_status (f r) = Running \<Longrightarrow> r_status r = Running"
  shows "ledger_ok (st\<lparr>g_runs := update_where P f (g_runs st)\<rparr>)"
proof (rule ledger_ok_less [OF assms(1)])
  show "run_ids (st\<lparr>g_runs := update_where P f (g_runs st)\<rparr>) \<subseteq> run_ids st" using run_ids_update_runs [OF assms(2,3)] by simp
  show "executions (st\<lparr>g_runs := update_where P f (g_runs st)\<rparr>) \<subseteq> executions st" by (rule executions_update_runs) (use assms in auto)
qed (use assms in \<open>simp_all add: ledger_ok_def\<close>)

lemma ledger_ok_jobs:
  assumes "ledger_ok st" "map j_id js' = map j_id (g_jobs st)"
  shows "ledger_ok (st\<lparr>g_jobs := js'\<rparr>)"
  using assms by (simp add: ledger_ok_def run_ids_def executions_def)

lemma ledger_ok_other:
  "ledger_ok (st\<lparr>g_lease := l\<rparr>) = ledger_ok st" "ledger_ok (st\<lparr>g_configs := cs\<rparr>) = ledger_ok st"
  "ledger_ok (st\<lparr>g_plans := ps\<rparr>) = ledger_ok st"
  by (simp_all add: ledger_ok_def run_ids_def executions_def)

lemma ledger_ok_filter_claims:
  assumes ok: "ledger_ok st"
  shows "ledger_ok (st\<lparr>g_claims := filter P (g_claims st)\<rparr>)"
proof (rule ledger_ok_less [OF ok])
  show "run_ids (st\<lparr>g_claims := filter P (g_claims st)\<rparr>) \<subseteq> run_ids st" by (auto simp: run_ids_def)
  show "executions (st\<lparr>g_claims := filter P (g_claims st)\<rparr>) \<subseteq> executions st" by (auto simp: executions_def)
qed (use ok in \<open>simp_all add: ledger_ok_def distinct_map_filter\<close>)

lemma ledger_ok_filter_runs:
  assumes ok: "ledger_ok st"
  shows "ledger_ok (st\<lparr>g_runs := filter P (g_runs st)\<rparr>)"
proof (rule ledger_ok_less [OF ok])
  show "run_ids (st\<lparr>g_runs := filter P (g_runs st)\<rparr>) \<subseteq> run_ids st" by (auto simp: run_ids_def)
  show "executions (st\<lparr>g_runs := filter P (g_runs st)\<rparr>) \<subseteq> executions st" by (auto simp: executions_def)
qed (use ok in \<open>simp_all add: ledger_ok_def distinct_map_filter\<close>)

lemma ledger_ok_update_claims:
  assumes "ledger_ok st" "\<And>c. c_runId (f c) = c_runId c" "\<And>c. c_jobId (f c) = c_jobId c"
  shows "ledger_ok (st\<lparr>g_claims := update_where P f (g_claims st)\<rparr>)"
  using assms by (simp add: ledger_ok_def run_ids_def executions_def)

lemma deleteJob_ok: "ledger_ok st \<Longrightarrow> ledger_ok (snd (deleteJob i st))"
proof -
  assume ok: "ledger_ok st"
  have "ledger_ok (st\<lparr>g_jobs := filter P (g_jobs st)\<rparr>)" for P
    using ok by (simp add: ledger_ok_def run_ids_def executions_def distinct_map_filter)
  then have "ledger_ok (st\<lparr>g_jobs := filter P (g_jobs st), g_runs := filter Q (g_runs st)\<rparr>)" for P Q
    using ledger_ok_filter_runs [of "st\<lparr>g_jobs := filter P (g_jobs st)\<rparr>" Q] by simp
  then show ?thesis using ok by (simp add: deleteJob_def Let_def ledger_ok_other)
qed

lemma purge_ok: "ledger_ok st \<Longrightarrow> ledger_ok (purgeScheduledJobsForWorkspace w st)"
proof -
  have "ledger_ok st \<Longrightarrow> ledger_ok (fold (\<lambda>j st. snd (deleteJob (j_id j) st)) xs st)" for xs st
    by (induction xs arbitrary: st) (simp_all add: deleteJob_ok)
  then show "ledger_ok st \<Longrightarrow> ?thesis" by (simp add: purgeScheduledJobsForWorkspace_def)
qed

lemma single_valued_insert: "single_valued R \<Longrightarrow> a \<notin> Domain R \<Longrightarrow> single_valued (insert (a, b) R)"
  by (auto simp: single_valued_def)

text \<open>An admission, with everything that was checked before it.\<close>

lemma claimRun_Admitted:
  assumes "claimRun inp st = (Admitted r, st')"
  obtains row where "find_job (i_jobId inp) st = Some row" "r = new_run inp row"
    and "ownsLease (i_lease inp) (i_now inp) st"
    and "i_requireDue inp \<longrightarrow> is_due row (i_now inp)"
    and "\<And>c. c \<in> set (g_claims st) \<Longrightarrow> c_lease c = i_lease inp \<and> c_quarantinedAt c = None \<and> c_jobId c \<noteq> i_jobId inp"
    and "\<And>q. q \<in> set (g_runs st) \<Longrightarrow> r_jobId q = i_jobId inp \<Longrightarrow> r_status q \<noteq> Running"
    and "length (g_claims st) < i_maxConcurrentRuns inp"
    and "i_runId inp \<notin> r_id ` set (g_runs st)" "i_runId inp \<notin> c_runId ` set (g_claims st)"
    and "g_runs st' = g_runs st @ [new_run inp row]" "g_claims st' = g_claims st @ [new_claim inp row]"
    and "map j_id (g_jobs st') = map j_id (g_jobs st)" "g_lease st' = g_lease st"
  using assms unfolding claimRun_def
  by (auto simp: list_ex_iff has_claim_def getRun_None not_le split: if_splits option.splits)

lemma claimRun_unchanged: "claimRun inp st = (a, st') \<Longrightarrow> (\<exists>r. a = Admitted r) \<or> st' = st"
  by (auto simp: claimRun_def split: if_splits option.splits)

lemma claimRun_ok:
  assumes ok: "ledger_ok st"
  shows "ledger_ok (snd (claimRun inp st))"
proof (cases "claimRun inp st")
  case (Pair a st')
  show ?thesis
  proof (cases a)
    case (Admitted r)
    with Pair have "claimRun inp st = (Admitted r, st')" by simp
    then obtain row where c: "r = new_run inp row"
      "\<And>c. c \<in> set (g_claims st) \<Longrightarrow> c_lease c = i_lease inp \<and> c_quarantinedAt c = None \<and> c_jobId c \<noteq> i_jobId inp"
      "\<And>q. q \<in> set (g_runs st) \<Longrightarrow> r_jobId q = i_jobId inp \<Longrightarrow> r_status q \<noteq> Running"
      "i_runId inp \<notin> r_id ` set (g_runs st)" "i_runId inp \<notin> c_runId ` set (g_claims st)"
      "g_runs st' = g_runs st @ [new_run inp row]" "g_claims st' = g_claims st @ [new_claim inp row]"
      "map j_id (g_jobs st') = map j_id (g_jobs st)"
      by (rule claimRun_Admitted) blast
    have ex: "executions st' = insert (i_jobId inp, i_runId inp) (executions st)"
      and ri: "run_ids st' = insert (i_runId inp, i_jobId inp) (run_ids st)"
      by (auto simp: executions_def run_ids_def c(6,7) new_run_def new_claim_def)
    have "single_valued (executions st')"
      using ok c(2,3) unfolding ex by (intro single_valued_insert) (simp add: ledger_ok_def, fastforce simp: executions_def)
    moreover have "single_valued (run_ids st')"
      using ok c(4,5) unfolding ri by (intro single_valued_insert) (simp add: ledger_ok_def, fastforce simp: run_ids_def)
    moreover have "distinct (map r_id (g_runs st'))" "distinct (map c_runId (g_claims st'))" "distinct (map j_id (g_jobs st'))"
      using ok c(4-8) by (simp_all add: ledger_ok_def new_run_def new_claim_def)
    ultimately show ?thesis using Pair by (simp add: ledger_ok_def)
  qed (use claimRun_unchanged [OF Pair] ok Pair in auto)
qed

lemma interruptStale_ok:
  assumes ok: "ledger_ok st"
  shows "ledger_ok (snd (interruptStaleRuns lease now st))"
proof -
  let ?un = "filter (\<lambda>r. r_status r = Running \<and> \<not> has_claim (r_id r) st) (g_runs st)"
  let ?st = "st\<lparr>g_claims := g_claims st @ map (legacy_claim now) ?un\<rparr>"
  have "ledger_ok ?st"
  proof (rule ledger_ok_less [OF ok])
    show "run_ids ?st \<subseteq> run_ids st" by (auto simp: run_ids_def legacy_claim_def)
    show "executions ?st \<subseteq> executions st" by (auto simp: executions_def legacy_claim_def)
    have "map c_runId (map (legacy_claim now) ?un) = map r_id ?un" by (simp add: legacy_claim_def)
    moreover have "distinct (map r_id ?un)" using ok by (simp add: ledger_ok_def distinct_map_filter)
    moreover have "set (map c_runId (g_claims st)) \<inter> set (map r_id ?un) = {}" unfolding has_claim_def by (auto simp: image_iff)
    ultimately show "distinct (map c_runId (g_claims ?st))" using ok by (simp add: ledger_ok_def del: map_map)
  qed (use ok in \<open>simp_all add: ledger_ok_def\<close>)
  then have "ledger_ok (?st\<lparr>g_claims := update_where (\<lambda>c. c_lease c \<noteq> lease) (quarantine now NOT_CONFIRMED) (g_claims ?st)\<rparr>)"
    by (rule ledger_ok_update_claims) simp_all
  note claims = this
  have "ledger_ok (?st\<lparr>g_claims := update_where (\<lambda>c. c_lease c \<noteq> lease) (quarantine now NOT_CONFIRMED) (g_claims ?st),
      g_runs := update_where P (interrupt_run now Q) (g_runs st)\<rparr>)" for P Q
    using ledger_ok_update_runs [OF claims, of "interrupt_run now Q" P] by simp
  then show ?thesis using ok by (simp add: interruptStaleRuns_def Let_def)
qed

lemma interruptExecution_ok: "ledger_ok st \<Longrightarrow> ledger_ok (interruptExecution i lease now st)"
proof -
  assume "ledger_ok st"
  then have "ledger_ok (quarantineExecution i lease now NOT_CONFIRMED st)"
    unfolding quarantineExecution_def by (rule ledger_ok_update_claims) simp_all
  then show ?thesis unfolding interruptExecution_def Let_def by (rule ledger_ok_update_runs) simp_all
qed

lemma commit_progress_frame [simp]:
  "g_runs (snd (commit_progress i t p st)) = g_runs st" "g_claims (snd (commit_progress i t p st)) = g_claims st"
  "g_lease (snd (commit_progress i t p st)) = g_lease st" "map j_id (g_jobs (snd (commit_progress i t p st))) = map j_id (g_jobs st)"
  by (simp_all add: commit_progress_def Let_def split: option.split)

lemma ledger_ok_cong:
  "g_runs st' = g_runs st \<Longrightarrow> g_claims st' = g_claims st \<Longrightarrow> map j_id (g_jobs st') = map j_id (g_jobs st) \<Longrightarrow> ledger_ok st' = ledger_ok st"
  by (simp add: ledger_ok_def run_ids_def executions_def)

lemma record_outcome_ok: "ledger_ok st \<Longrightarrow> ff_status f \<noteq> Running \<Longrightarrow> ledger_ok (snd (record_outcome i f st))"
  unfolding record_outcome_def snd_conv by (rule ledger_ok_update_runs) simp_all

lemma finishRun_ok:
  assumes ok: "ledger_ok st" and f: "ff_status f \<noteq> Running"
  shows "ledger_ok (snd (finishRun i lease f st))"
proof -
  have "ledger_ok (snd (commit_progress i t p st))" for t p
    using ok ledger_ok_cong [of "snd (commit_progress i t p st)" st] by simp
  then have "ledger_ok st1" if "commit_progress i t p st = (b, st1)" for t p b st1 using that by (metis snd_conv)
  then show ?thesis using ok f
    by (auto simp: finishRun_def record_outcome_ok split: option.split prod.split bool.split)
qed

text \<open>The scheduler finishes a run with a status other than \<open>running\<close>.\<close>

fun op_ok :: "ledger_op \<Rightarrow> bool" where
  "op_ok (FinishRun i lease f) = (ff_status f \<noteq> Running)"
| "op_ok _ = True"

lemma attach_ok:
  assumes "ledger_ok st"
  shows "ledger_ok (snd (attachRunTarget i target lease now node st))"
proof -
  obtain n t u where target: "target = (n, t, u)" by (cases target) auto
  let ?st = "st\<lparr>g_runs := update_where (\<lambda>r. r_id r = i) (\<lambda>r. r\<lparr>r_nodeId := Some n, r_treeId := t, r_turnId := u\<rparr>) (g_runs st)\<rparr>"
  have runs: "ledger_ok ?st" by (rule ledger_ok_update_runs [OF assms]) simp_all
  have "ledger_ok (?st\<lparr>g_jobs := update_where P (\<lambda>j. j\<lparr>j_persistentNodeId := node\<rparr>) (g_jobs ?st)\<rparr>)" for P
    by (rule ledger_ok_jobs [OF runs]) simp
  with runs assms show ?thesis by (simp add: attachRunTarget_def target)
qed

lemma ledger_step_ok:
  assumes "ledger_ok st" "op_ok op"
  shows "ledger_ok (ledger_step st op)"
proof (cases op)
  case (InsertJob r)
  have "ledger_ok (st\<lparr>g_jobs := g_jobs st @ [r]\<rparr>)" if "j_id r \<notin> j_id ` set (g_jobs st)"
    using assms(1) that by (simp add: ledger_ok_def run_ids_def executions_def)
  then show ?thesis using assms InsertJob by (auto simp: insertJob_def find_job_None)
next
  case (UpdateFinishedJob i lease now upd)
  have "ledger_ok (updateJob k upd st)" for k unfolding updateJob_def by (rule ledger_ok_jobs [OF assms(1)]) simp
  then show ?thesis using assms UpdateFinishedJob by (auto simp: updateFinishedJob_def split: option.split)
next
  case (MarkAttention i kind lease now)
  then show ?thesis using assms by (auto simp: markAttention_def intro!: ledger_ok_update_runs)
next
  case (ConfirmStopped probe i)
  then show ?thesis using assms by (auto simp: confirmExecutionStopped_def ledger_ok_filter_claims split: option.split)
next
  case (AcquireLease holder now ttl)
  then show ?thesis using assms by (auto simp: acquireLease_def Let_def ledger_ok_other split: option.split)
next
  case (ReleaseLease lease)
  then show ?thesis using assms by (auto simp: releaseLease_def ledger_ok_other split: option.split)
qed (use assms in \<open>auto simp: updateJob_def deleteJob_ok purge_ok claimRun_ok attach_ok finishRun_ok releaseExecution_def
    markNotified_def interruptStale_ok interruptExecution_ok quarantineExecution_def reapExitedExecutions_def pruneRuns_def Let_def
    ledger_ok_other ledger_ok_filter_claims ledger_ok_filter_runs
    intro!: ledger_ok_jobs ledger_ok_update_runs ledger_ok_update_claims\<close>)

interpretation job_ledger: invariant_machine ledger_step op_ok ledger_ok
  by unfold_locales (rule ledger_step_ok)

lemma empty_ledger_ok: "ledger_ok empty_ledger"
  by (simp add: ledger_ok_def empty_ledger_def run_ids_def executions_def)

text \<open>C7: whatever any number of backends do with the ledger, in any order: a job has at most one execution that
  may be going on, counting every run recorded as running and every claim that was not given back; and run,
  claim and job identifiers are unique, an identifier standing for the same job in both tables.\<close>
theorem one_execution_per_job:
  assumes "list_all op_ok ops"
  shows "single_valued (executions (foldl ledger_step empty_ledger ops)) \<and> ledger_ok (foldl ledger_step empty_ledger ops)"
  using job_ledger.inv_run [OF empty_ledger_ok assms] by (simp add: ledger_ok_def)

section \<open>Reservations\<close>

text \<open>What identifies the execution of a claim; the ways a claim is given back.\<close>

definition claim_core :: "execution_claim \<Rightarrow> jstr \<times> jstr \<times> SchedulerLease \<times> nat option \<times> bool" where
  "claim_core c = (c_runId c, c_jobId c, c_lease c, c_processId c, c_processExitSafe c)"

fun may_release :: "execution_claim \<Rightarrow> ledger_op \<Rightarrow> bool" where
  "may_release c (ReleaseExecution i lease) \<longleftrightarrow> i = c_runId c \<and> lease = c_lease c"
| "may_release c (ConfirmStopped probe i) \<longleftrightarrow> i = c_runId c
     \<and> (case c_processId c of None \<Rightarrow> True | Some pid \<Rightarrow> pid = 0 \<or> probe pid = NoSuchProcess)"
| "may_release c (ReapExited probe ownPid lease now) \<longleftrightarrow> reapable probe ownPid lease c"
| "may_release c _ = False"

lemma claim_core_eq: "claim_core c = claim_core d \<longleftrightarrow> c_runId c = c_runId d \<and> c_jobId c = c_jobId d \<and> c_lease c = c_lease d
    \<and> c_processId c = c_processId d \<and> c_processExitSafe c = c_processExitSafe d"
  by (simp add: claim_core_def)

lemma quarantine_core [simp]: "claim_core (quarantine now reason c) = claim_core c"
  by (simp add: claim_core_eq)

lemma may_release_core: "claim_core c = claim_core d \<Longrightarrow> may_release c op = may_release d op"
  by (cases op) (simp_all add: claim_core_eq reapable_def)

lemma purge_claims [simp]: "g_claims (purgeScheduledJobsForWorkspace w st) = g_claims st"
proof -
  have "g_claims (fold (\<lambda>j st. snd (deleteJob (j_id j) st)) xs st) = g_claims st" for xs st
    by (induction xs arbitrary: st) (simp_all add: deleteJob_def Let_def)
  then show ?thesis by (simp add: purgeScheduledJobsForWorkspace_def)
qed

lemma finishRun_claims [simp]: "g_claims (snd (finishRun i lease f st)) = g_claims st"
proof -
  have "g_claims st1 = g_claims st" if "commit_progress i t p st = (b, st1)" for t p b st1
    using commit_progress_frame(2) [of i t p st] that by simp
  then show ?thesis by (auto simp: finishRun_def record_outcome_def split: option.split prod.split bool.split)
qed

lemma claimRun_claims: "c \<in> set (g_claims st) \<Longrightarrow> c \<in> set (g_claims (snd (claimRun inp st)))"
  by (auto simp: claimRun_def split: option.split)

lemma update_where_core:
  assumes "c \<in> set cs"
  shows "\<exists>d \<in> set (update_where P (quarantine now reason) cs). claim_core d = claim_core c"
proof
  show "(if P c then quarantine now reason c else c) \<in> set (update_where P (quarantine now reason) cs)"
    unfolding set_update_where using assms by (rule imageI)
qed simp

lemma find_unique_key: "distinct (map key xs) \<Longrightarrow> x \<in> set xs \<Longrightarrow> find (\<lambda>y. key y = key x) xs = Some x"
  by (induction xs) (auto simp: rev_image_eqI)

text \<open>The claims after a step: the operations other than the three keep the identity of every claim.\<close>

lemma claim_kept:
  assumes "c \<in> set (g_claims st)" "\<not> may_release c op" "ledger_ok st"
  shows "\<exists>d \<in> set (g_claims (ledger_step st op)). claim_core d = claim_core c"
proof (cases op)
  case (ClaimRun inp)
  then show ?thesis using claimRun_claims [OF assms(1)] by auto
next
  case (InterruptStale lease now)
  have "\<exists>d \<in> set (update_where P (quarantine now NOT_CONFIRMED) (g_claims st @ new)). claim_core d = claim_core c" for P new
    using assms(1) by (intro update_where_core) simp
  then show ?thesis using assms(1) InterruptStale by (auto simp: interruptStaleRuns_def Let_def)
next
  case (ConfirmStopped probe i)
  show ?thesis
  proof (cases "c_runId c = i")
    case True
    have "find (\<lambda>c. c_runId c = i) (g_claims st) = Some c"
      using find_unique_key [of c_runId, OF _ assms(1)] assms(3) True by (simp add: ledger_ok_def)
    then show ?thesis using assms True ConfirmStopped by (auto simp: confirmExecutionStopped_def split: option.splits)
  qed (use assms ConfirmStopped in \<open>auto simp: confirmExecutionStopped_def intro!: bexI [of _ c] split: option.splits\<close>)
next
  case (InterruptExecution i lease now)
  then show ?thesis using update_where_core [OF assms(1)] by (simp add: interruptExecution_def quarantineExecution_def Let_def)
next
  case (QuarantineExecution i lease now reason)
  then show ?thesis using update_where_core [OF assms(1)] by (simp add: quarantineExecution_def)
next
  case (ReapExited probe pid lease now)
  then show ?thesis using assms by (auto simp: reapExitedExecutions_def intro!: bexI [of _ c])
qed (use assms in \<open>auto simp: insertJob_def updateJob_def deleteJob_def Let_def attachRunTarget_def updateFinishedJob_def
    markAttention_def releaseExecution_def markNotified_def
    pruneRuns_def acquireLease_def releaseLease_def default_to_def intro!: bexI [of _ c] split: option.split prod.split\<close>)

lemma claim_kept_run:
  assumes "ledger_ok st" "list_all op_ok ops" "list_all (\<lambda>op. \<not> may_release c op) ops" "\<exists>d \<in> set (g_claims st). claim_core d = claim_core c"
  shows "\<exists>d \<in> set (g_claims (foldl ledger_step st ops)). claim_core d = claim_core c"
  using assms
proof (induction ops arbitrary: st)
  case (Cons op ops)
  then obtain d where d: "d \<in> set (g_claims st)" "claim_core d = claim_core c" by auto
  have "\<not> may_release d op" using Cons.prems(3) may_release_core [OF d(2)] by simp
  from claim_kept [OF d(1) this Cons.prems(1)]
  have "\<exists>e \<in> set (g_claims (ledger_step st op)). claim_core e = claim_core d" .
  then have "\<exists>e \<in> set (g_claims (ledger_step st op)). claim_core e = claim_core c" using d(2) by simp
  moreover have "ledger_ok (ledger_step st op)" using Cons.prems by (simp add: ledger_step_ok)
  ultimately show ?case using Cons.IH Cons.prems(2,3) by simp
qed simp

text \<open>C10: a claim is a reservation: until it is given back - acknowledged for the lease that took it, confirmed by
  the user with its process gone, or reaped with a process whose exit ends the work - no run of the same
  job is admitted by anyone, and no run at all by a backend with another lease, whatever happens to the
  ledger in between (expired leases, deleted jobs and finished run records included).\<close>
theorem reservation_blocks_admission:
  assumes "ledger_ok st" "c \<in> set (g_claims st)" "list_all op_ok ops" "list_all (\<lambda>op. \<not> may_release c op) ops"
    and "claimRun inp (foldl ledger_step st ops) = (Admitted r, st')"
  shows "i_jobId inp \<noteq> c_jobId c \<and> i_lease inp = c_lease c"
proof -
  obtain d where d: "d \<in> set (g_claims (foldl ledger_step st ops))" "claim_core d = claim_core c"
    using claim_kept_run [of st ops c] assms(1-4) by blast
  from assms(5) have "c_lease d = i_lease inp \<and> c_jobId d \<noteq> i_jobId inp"
    by (rule claimRun_Admitted) (use d in blast)
  with d(2) show ?thesis by (auto simp: claim_core_eq)
qed

section \<open>Fenced leases\<close>

text \<open>The lease row only moves forward: the same lease, or one of a later generation.\<close>

definition lease_le :: "ledger \<Rightarrow> ledger \<Rightarrow> bool" where
  "lease_le st st' \<longleftrightarrow> (case g_lease st of None \<Rightarrow> True | Some row \<Rightarrow>
     (case g_lease st' of None \<Rightarrow> False | Some row' \<Rightarrow>
        lr_lease row' = lr_lease row \<or> l_generation (lr_lease row) < l_generation (lr_lease row')))"

lemma lease_le_refl [simp]: "lease_le st st"
  by (simp add: lease_le_def split: option.split)

lemma lease_le_eq: "g_lease st' = g_lease st \<Longrightarrow> lease_le st st'"
  by (simp add: lease_le_def split: option.split)

lemma lease_le_trans: "lease_le a b \<Longrightarrow> lease_le b c \<Longrightarrow> lease_le a c"
  by (auto simp: lease_le_def split: option.splits)

lemma purge_lease [simp]: "g_lease (purgeScheduledJobsForWorkspace w st) = g_lease st"
proof -
  have "g_lease (fold (\<lambda>j st. snd (deleteJob (j_id j) st)) xs st) = g_lease st" for xs st
    by (induction xs arbitrary: st) (simp_all add: deleteJob_def Let_def)
  then show ?thesis by (simp add: purgeScheduledJobsForWorkspace_def)
qed

lemma finishRun_lease [simp]: "g_lease (snd (finishRun i lease f st)) = g_lease st"
proof -
  have "g_lease st1 = g_lease st" if "commit_progress i t p st = (b, st1)" for t p b st1
    using commit_progress_frame(3) [of i t p st] that by simp
  then show ?thesis by (auto simp: finishRun_def record_outcome_def split: option.split prod.split bool.split)
qed

lemma acquireLease_le: "lease_le st (snd (acquireLease h now ttl st))"
  by (auto simp: acquireLease_def lease_le_def Let_def split: option.split)

lemma releaseLease_le: "lease_le st (releaseLease lease st)"
  by (auto simp: releaseLease_def lease_le_def split: option.split)

lemma ledger_step_lease: "lease_le st (ledger_step st op)"
proof (cases op)
  case (ClaimRun inp)
  then show ?thesis by (auto simp: claimRun_def intro: lease_le_eq split: option.split)
qed (auto simp: insertJob_def updateJob_def deleteJob_def Let_def attachRunTarget_def updateFinishedJob_def acquireLease_le
    releaseLease_le markAttention_def releaseExecution_def markNotified_def interruptExecution_def quarantineExecution_def
    interruptStaleRuns_def confirmExecutionStopped_def reapExitedExecutions_def
    pruneRuns_def default_to_def intro!: lease_le_eq split: option.split prod.split)

lemma ledger_run_lease: "lease_le st (foldl ledger_step st ops)"
  by (induction ops arbitrary: st) (auto intro: lease_le_trans ledger_step_lease)

lemma acquireLease_Some: "acquireLease h now ttl st = (Some lease, st') \<Longrightarrow> \<exists>row. g_lease st' = Some row \<and> lr_lease row = lease"
  by (auto simp: acquireLease_def Let_def split: option.splits if_splits)

lemma ownsLease_row: "ownsLease lease now st \<Longrightarrow> g_lease st = Some row \<Longrightarrow> lr_lease row = lease"
  by (simp add: ownsLease_def)

lemma fenced_ops:
  assumes "\<And>now. \<not> ownsLease lease now st"
  shows "i_lease inp = lease \<Longrightarrow> claimRun inp st = (Refused LeaseLost, st)"
    and "finishRun i lease f st = (False, st)" "attachRunTarget i target lease now node st = (False, st)"
    and "markAttention i kind lease now st = (False, st)" "updateFinishedJob i lease now upd st = (False, st)"
    and "interruptStaleRuns lease now st = (0, st)" "reapExitedExecutions probe pid lease now st = (0, st)"
  using assms by (simp_all add: claimRun_def finishRun_def attachRunTarget_def markAttention_def updateFinishedJob_def ownsRun_def
      interruptStaleRuns_def reapExitedExecutions_def split: prod.split)

text \<open>C11: a lease is fenced by its generation: once another lease has been issued, whoever holds the old one can,
  at whatever time by its own clock, neither start a run nor record a result, a target, a request for
  attention or a job update, and its calls leave the ledger as it is; and generations only grow.\<close>
theorem stale_lease_fenced:
  assumes "acquireLease h1 t1 d1 st = (Some old, st1)"
    and "acquireLease h2 t2 d2 (foldl ledger_step st1 ops) = (Some new, st2)" and "new \<noteq> old"
  shows "l_generation old < l_generation new
    \<and> claimRun (inp\<lparr>i_lease := old\<rparr>) (foldl ledger_step st2 ops') = (Refused LeaseLost, foldl ledger_step st2 ops')
    \<and> finishRun i old f (foldl ledger_step st2 ops') = (False, foldl ledger_step st2 ops')
    \<and> attachRunTarget i target old now node (foldl ledger_step st2 ops') = (False, foldl ledger_step st2 ops')
    \<and> markAttention i kind old now (foldl ledger_step st2 ops') = (False, foldl ledger_step st2 ops')
    \<and> updateFinishedJob i old now upd (foldl ledger_step st2 ops') = (False, foldl ledger_step st2 ops')"
proof -
  obtain r1 where r1: "g_lease st1 = Some r1" "lr_lease r1 = old" using acquireLease_Some [OF assms(1)] by blast
  obtain r2 where r2: "g_lease st2 = Some r2" "lr_lease r2 = new" using acquireLease_Some [OF assms(2)] by blast
  have "lease_le st1 st2"
    using lease_le_trans [OF ledger_run_lease acquireLease_le] assms(2) by (metis snd_conv)
  then have gen: "l_generation old < l_generation new" using r1 r2 assms(3) by (simp add: lease_le_def)
  have "\<not> ownsLease old u (foldl ledger_step st2 ops')" for u
    using ledger_run_lease [of st2 ops'] r2 gen assms(3) by (auto simp: lease_le_def ownsLease_def split: option.splits)
  note fenced = fenced_ops [OF this]
  show ?thesis using gen fenced by simp
qed

section \<open>Results\<close>

text \<open>The result of a run that is not running any more.\<close>

definition run_result ::
  "ScheduledJobRunRecord \<Rightarrow> jstr \<times> ScheduledJobRunStatus \<times> int option \<times> jstr option \<times> jstr option" where
  "run_result r = (r_jobId r, r_status r, r_finishedAt r, r_summary r, r_error r)"

definition settled_as :: "jstr \<Rightarrow> ScheduledJobRunRecord \<Rightarrow> ledger \<Rightarrow> bool" where
  "settled_as i r st \<longleftrightarrow> (\<forall>q \<in> set (g_runs st). r_id q = i \<longrightarrow> run_result q = run_result r)"

fun starts_run :: "jstr \<Rightarrow> ledger_op \<Rightarrow> bool" where
  "starts_run i (ClaimRun inp) = (i_runId inp = i)"
| "starts_run i _ = False"

lemma settled_update_where:
  assumes "settled_as i r st" "r_status r \<noteq> Running"
    and "\<And>q. r_id (f q) = r_id q" "\<And>q. P q \<Longrightarrow> r_status q \<noteq> Running \<Longrightarrow> run_result (f q) = run_result q"
  shows "settled_as i r (st\<lparr>g_runs := update_where P f (g_runs st)\<rparr>)"
  using assms by (fastforce simp: settled_as_def set_update_where run_result_def)

lemma settled_same: "g_runs st' = g_runs st \<Longrightarrow> settled_as i r st' = settled_as i r st"
  by (simp add: settled_as_def)

lemma settled_subset: "settled_as i r st \<Longrightarrow> set (g_runs st') \<subseteq> set (g_runs st) \<Longrightarrow> settled_as i r st'"
  by (auto simp: settled_as_def)

lemma deleteJob_runs: "set (g_runs (snd (deleteJob i st))) \<subseteq> set (g_runs st)"
  by (auto simp: deleteJob_def Let_def)

lemma purge_runs: "set (g_runs (purgeScheduledJobsForWorkspace w st)) \<subseteq> set (g_runs st)"
proof -
  have "set (g_runs (fold (\<lambda>j st. snd (deleteJob (j_id j) st)) xs st)) \<subseteq> set (g_runs st)" for xs st
    by (induction xs arbitrary: st) (use deleteJob_runs in fastforce)+
  then show ?thesis by (simp add: purgeScheduledJobsForWorkspace_def)
qed

lemma record_outcome_settled:
  "settled_as i r st \<Longrightarrow> r_status r \<noteq> Running \<Longrightarrow> settled_as i r (snd (record_outcome k f st))"
  unfolding record_outcome_def snd_conv by (rule settled_update_where) auto

lemma finishRun_settled:
  assumes "settled_as i r st" "r_status r \<noteq> Running"
  shows "settled_as i r (snd (finishRun k lease f st))"
proof -
  have "settled_as i r st1" if "commit_progress k t p st = (b, st1)" for t p b st1
    using commit_progress_frame(1) [of k t p st] that assms(1) settled_same [of st1 st] by simp
  then show ?thesis using assms
    by (auto simp: finishRun_def record_outcome_settled split: option.split prod.split bool.split)
qed

lemma settled_step:
  assumes "settled_as i r st" "r_status r \<noteq> Running" "\<not> starts_run i op"
  shows "settled_as i r (ledger_step st op)"
proof (cases op)
  case (ClaimRun inp)
  then show ?thesis using assms by (auto simp: claimRun_def settled_as_def new_run_def split: option.split)
next
  case (DeleteJob k)
  then show ?thesis using settled_subset [OF assms(1) deleteJob_runs] by simp
next
  case (PurgeWorkspace w)
  then show ?thesis using settled_subset [OF assms(1) purge_runs] by simp
next
  case (PruneRuns k keep)
  then show ?thesis using settled_subset [OF assms(1)] by (auto simp: pruneRuns_def Let_def)
next
  case (FinishRun k lease f)
  then show ?thesis using finishRun_settled [OF assms(1,2)] by simp
next
  case (AttachTarget k target lease now node)
  obtain n t u where target: "target = (n, t, u)" by (cases target) auto
  have "settled_as i r (st\<lparr>g_runs := update_where (\<lambda>q. r_id q = k) (\<lambda>q. q\<lparr>r_nodeId := Some n, r_treeId := t, r_turnId := u\<rparr>) (g_runs st)\<rparr>)"
    by (rule settled_update_where [OF assms(1,2)]) (simp_all add: run_result_def)
  then show ?thesis using assms(1) AttachTarget
    by (simp add: attachRunTarget_def target settled_as_def)
next
  case (MarkAttention k kind lease now)
  then show ?thesis using assms(1) settled_update_where [OF assms(1,2)] by (simp add: markAttention_def run_result_def)
next
  case (MarkNotified k)
  then show ?thesis using settled_update_where [OF assms(1,2)] by (simp add: markNotified_def run_result_def)
next
  case (InterruptStale lease now)
  have "settled_as i r (st\<lparr>g_runs := update_where (\<lambda>q. r_status q = Running \<and> P q) (interrupt_run now Q) (g_runs st)\<rparr>)" for P Q
    by (rule settled_update_where [OF assms(1,2)]) simp_all
  then show ?thesis using assms(1) InterruptStale by (simp add: interruptStaleRuns_def Let_def settled_as_def)
next
  case (InterruptExecution k lease now)
  have "settled_as i r (st\<lparr>g_runs := update_where (\<lambda>q. r_id q = k \<and> r_status q = Running \<and> P q) (interrupt_run now Q) (g_runs st)\<rparr>)" for P Q
    by (rule settled_update_where [OF assms(1,2)]) simp_all
  then show ?thesis using assms(1) InterruptExecution
    by (simp add: interruptExecution_def quarantineExecution_def Let_def settled_as_def)
qed (use assms(1) in \<open>auto simp: insertJob_def updateJob_def updateFinishedJob_def releaseExecution_def quarantineExecution_def
    confirmExecutionStopped_def reapExitedExecutions_def acquireLease_def releaseLease_def default_to_def Let_def settled_as_def
    split: option.split\<close>)

lemma getRun_Some: "getRun i st = Some r \<Longrightarrow> r \<in> set (g_runs st) \<and> r_id r = i"
  by (auto simp: getRun_def dest: find_Some_key)

text \<open>A result is final: once a run is not running any more its status, times, summary and error never
  change, whichever backend writes to the ledger; the record may only be pruned or deleted.\<close>
theorem finished_run_final:
  assumes "ledger_ok st" "getRun i st = Some r" "r_status r \<noteq> Running" "list_all (\<lambda>op. \<not> starts_run i op) ops"
  shows "case getRun i (foldl ledger_step st ops) of None \<Rightarrow> True | Some q \<Rightarrow> run_result q = run_result r"
proof -
  have r: "r \<in> set (g_runs st)" "r_id r = i" using getRun_Some [OF assms(2)] by simp_all
  have "inj_on r_id (set (g_runs st))" using assms(1) by (simp add: ledger_ok_def distinct_map)
  then have start: "settled_as i r st" using r by (auto simp: settled_as_def inj_on_def)
  have "settled_as i r (foldl ledger_step st ops)"
    using assms(4) start
  proof (induction ops arbitrary: st)
    case (Cons op ops)
    then show ?case using settled_step [OF Cons.prems(2) assms(3), of op] by simp
  qed simp
  then show ?thesis
  proof (cases "getRun i (foldl ledger_step st ops)")
    case (Some q)
    then have "q \<in> set (g_runs (foldl ledger_step st ops))" "r_id q = i" using getRun_Some by blast+
    with \<open>settled_as i r (foldl ledger_step st ops)\<close> Some show ?thesis by (simp add: settled_as_def)
  qed simp
qed

section \<open>Consumed conversations\<close>

definition cursors :: "ledger \<Rightarrow> (jstr \<times> int option) list" where
  "cursors st = map (\<lambda>j. (j_id j, j_conversationCursor j)) (g_jobs st)"

text \<open>The cursors with one of them moved.\<close>

definition move_cursor :: "jstr \<Rightarrow> int \<Rightarrow> (jstr \<times> int option) list \<Rightarrow> (jstr \<times> int option) list" where
  "move_cursor jobId n cs = map (\<lambda>(i, v). if i = jobId then (i, Some n) else (i, v)) cs"

lemma count_where_pos: "0 < count_where P xs \<longleftrightarrow> (\<exists>x \<in> set xs. P x)"
  by (auto simp: count_where_def length_greater_0_conv filter_empty_conv)

lemma update_none: "\<not> (\<exists>x \<in> set xs. P x) \<Longrightarrow> update_where P f xs = xs"
  by (induction xs) (auto simp: update_where_def)

lemma count_unique:
  assumes "distinct (map key xs)" "\<And>x. P x \<Longrightarrow> key x = k"
  shows "count_where P xs \<le> 1"
  using assms(1)
proof (induction xs)
  case (Cons x xs)
  have "count_where P xs = 0" if "P x"
    using Cons.prems assms(2) that by (metis (no_types, lifting) count_where_pos distinct.simps(2) gr_zeroI image_eqI list.simps(9) set_map)
  then show ?case using Cons by (auto simp: count_where_def)
qed (simp add: count_where_def)

text \<open>What \<open>commit_progress\<close> does when the job of the run is \<open>jobId\<close>.\<close>

lemma commit_progress_cursors:
  assumes ok: "ledger_ok st" and run: "getRun runId st = Some r" and c: "commit_progress runId t p st = (b, st')"
  shows "if b then (\<exists>j \<in> set (g_jobs st). j_id j = r_jobId r \<and> j_conversationCursor j = Some (cp_after p))
       \<and> r_attention r = None \<and> r_claimedBy r = cp_claimedBy p \<and> cursors st' = move_cursor (r_jobId r) (cp_nextAfter p) (cursors st)
     else cursors st' = cursors st"
proof -
  let ?P = "advances_job runId t p st"
  have P: "j_id j = r_jobId r \<and> j_conversationCursor j = Some (cp_after p) \<and> r_attention r = None \<and> r_claimedBy r = cp_claimedBy p"
    if "?P j" for j using that run by (simp add: advances_job_def)
  have inj: "inj_on j_id (set (g_jobs st))" using ok by (simp add: ledger_ok_def distinct_map)
  have le: "count_where ?P (g_jobs st) \<le> 1"
    using count_unique [of j_id "g_jobs st" ?P "r_jobId r"] ok P by (auto simp: ledger_ok_def)
  have moved: "map (\<lambda>j. (j_id j, j_conversationCursor j)) (update_where ?P (\<lambda>j. j\<lparr>j_conversationCursor := Some (cp_nextAfter p)\<rparr>) (g_jobs st))
      = move_cursor (r_jobId r) (cp_nextAfter p) (cursors st)" if ex: "\<exists>j \<in> set (g_jobs st). ?P j"
  proof -
    obtain j0 where "j0 \<in> set (g_jobs st)" "?P j0" using ex by blast
    then have "?P j \<longleftrightarrow> j_id j = r_jobId r" if "j \<in> set (g_jobs st)" for j
      using P inj that by (metis inj_onD)
    then show ?thesis by (auto simp: move_cursor_def cursors_def update_where_def)
  qed
  have reset: "map (\<lambda>j. (j_id j, j_conversationCursor j)) (update_where (\<lambda>j. run_job_id runId st = Some (j_id j))
        (\<lambda>j. j\<lparr>j_conversationCursor := Some (cp_after p)\<rparr>)
        (update_where ?P (\<lambda>j. j\<lparr>j_conversationCursor := Some (cp_nextAfter p)\<rparr>) (g_jobs st))) = cursors st" if ex: "\<exists>j \<in> set (g_jobs st). ?P j"
  proof -
    obtain j0 where "j0 \<in> set (g_jobs st)" "?P j0" using ex by blast
    then have "?P j \<longleftrightarrow> j_id j = r_jobId r" "j_id j = r_jobId r \<Longrightarrow> j_conversationCursor j = Some (cp_after p)" if "j \<in> set (g_jobs st)" for j
      using P inj that by (metis inj_onD)+
    then show ?thesis by (auto simp: cursors_def update_where_def run_job_id_def run)
  qed
  have none: "update_where ?P f (g_jobs st) = g_jobs st" if "count_where ?P (g_jobs st) \<noteq> 1" for f
    using that le count_where_pos [of ?P "g_jobs st"] by (intro update_none) fastforce
  have one: "\<exists>j \<in> set (g_jobs st). ?P j" if "count_where ?P (g_jobs st) = 1"
    using that count_where_pos [of ?P "g_jobs st"] by simp
  show ?thesis
    using c P moved reset none one
    by (auto simp: commit_progress_def Let_def cursors_def [of st'] cursors_def [of st] split: option.splits if_splits)
qed

lemma owned_run_running:
  assumes "ledger_ok st" "getRun i st = Some r" "ownsRun i lease now st"
  shows "r_status r = Running"
proof -
  obtain q where q: "q \<in> set (g_runs st)" "r_id q = i" "r_status q = Running"
    using assms(3) by (auto simp: ownsRun_def list_ex_iff)
  have "inj_on r_id (set (g_runs st))" using assms(1) by (simp add: ledger_ok_def distinct_map)
  then have "q = r" using q getRun_Some [OF assms(2)] by (simp add: inj_on_def)
  with q show ?thesis by simp
qed

lemma find_update_where:
  "(\<And>x. key (f x) = key x) \<Longrightarrow> find (\<lambda>x. key x = k) (update_where P f xs) = map_option (\<lambda>x. if P x then f x else x) (find (\<lambda>x. key x = k) xs)"
  by (induction xs) (auto simp: update_where_def)

lemma record_outcome_run:
  assumes "getRun i st = Some r" "r_status r = Running"
  shows "fst (record_outcome i f st) \<and> cursors (snd (record_outcome i f st)) = cursors st
    \<and> (\<exists>q. getRun i (snd (record_outcome i f st)) = Some q \<and> r_status q = ff_status f \<and> r_error q = ff_error f)"
proof -
  have "r \<in> set (g_runs st)" "r_id r = i" using getRun_Some [OF assms(1)] by simp_all
  then have "fst (record_outcome i f st)" using assms(2) by (auto simp: record_outcome_def count_where_pos)
  moreover have "find (\<lambda>r. r_id r = i) (g_runs st) = Some r" using assms(1) by (simp add: getRun_def)
  ultimately show ?thesis using assms(2) \<open>r_id r = i\<close>
    by (simp add: record_outcome_def getRun_def cursors_def find_update_where [of r_id])
qed

text \<open>C16: Consuming conversations is atomic with the result: a run that reports progress ends either as succeeded,
  with the cursor of its job moved from the reported position to the next and no other cursor changed, or
  as failed with every cursor as it was; and it cannot succeed after it asked for attention.\<close>
theorem cursor_moves_with_success:
  assumes "ledger_ok st" "getRun i st = Some r" "ownsRun i lease (ff_finishedAt f) st"
    and "ff_status f = Succeeded" "ff_conversationProgress f = Some p"
  shows "fst (finishRun i lease f st) \<and> (\<exists>q. getRun i (snd (finishRun i lease f st)) = Some q \<and>
    (if r_status q = Succeeded
     then (r_jobId r, Some (cp_after p)) \<in> set (cursors st) \<and> r_attention r = None
       \<and> cursors (snd (finishRun i lease f st)) = move_cursor (r_jobId r) (cp_nextAfter p) (cursors st)
     else r_status q = Failed \<and> r_error q = Some PROGRESS_LOST \<and> cursors (snd (finishRun i lease f st)) = cursors st))"
proof -
  obtain b st1 where c: "commit_progress i (ff_finishedAt f) p st = (b, st1)" by fastforce
  have run: "r_status r = Running" using owned_run_running assms(1-3) by blast
  have "g_runs st1 = g_runs st" using commit_progress_frame(1) [of i "ff_finishedAt f" p st] c by simp
  then have r1: "getRun i st1 = Some r" using assms(2) by (simp add: getRun_def)
  note outcome = record_outcome_run [OF r1 run]
  have fin: "finishRun i lease f st = (if b then record_outcome i f st1
      else record_outcome i (f\<lparr>ff_status := Failed, ff_error := Some PROGRESS_LOST\<rparr>) st1)"
    using assms(3-5) c by (simp add: finishRun_def)
  note cs = commit_progress_cursors [OF assms(1,2) c]
  show ?thesis
  proof (cases b)
    case True
    with cs have "(r_jobId r, Some (cp_after p)) \<in> set (cursors st)" by (force simp: cursors_def)
    then show ?thesis using True cs outcome [of f] assms(4) fin by auto
  next
    case False
    then show ?thesis using cs outcome [of "f\<lparr>ff_status := Failed, ff_error := Some PROGRESS_LOST\<rparr>"] fin by auto
  qed
qed

section \<open>Witnesses\<close>

definition demo_job :: ScheduledJobRecord where
  "demo_job = \<lparr>j_id = [1], j_executionKind = KindScheduled, j_conversationCursor = Some 4, j_ownerUserId = None, j_workspaceId = [9],
     j_name = [], j_prompt = [], j_schedule = Every 60, j_runtimeId = None, j_providerId = None, j_modelId = None, j_reasoning = None,
     j_permissionMode = TrustMode, j_sessionMode = Fresh, j_persistentNodeId = None, j_notify = True, j_enabled = True,
     j_autoPaused = False, j_consecutiveFailures = 0, j_timeoutSeconds = 600, j_nextRunAt = Some 50, j_lastRunAt = None,
     j_lastStatus = None, j_lastError = None, j_createdAt = 0, j_updatedAt = 0\<rparr>"

definition demo_lease :: SchedulerLease where
  "demo_lease = \<lparr>l_holder = [7], l_generation = 1\<rparr>"

definition demo_claim :: ClaimRunInput where
  "demo_claim = \<lparr>i_jobId = [1], i_runId = [2], i_trigger = TriggerScheduled, i_now = 100, i_lease = demo_lease, i_maxConcurrentRuns = 2,
     i_processExitStopsExecution = True, i_processId = 77, i_nextRunAt = Some (Some 160), i_requireDue = True\<rparr>"

definition demo_ops :: "ledger_op list" where
  "demo_ops = [InsertJob demo_job, AcquireLease [7] 90 1000, ClaimRun demo_claim]"

definition demo_ledger :: ledger where
  "demo_ledger = foldl ledger_step empty_ledger demo_ops"

definition demo_run :: ScheduledJobRunRecord where
  "demo_run = new_run demo_claim demo_job"

lemma demo_ledger_eq:
  "demo_ledger = \<lparr>g_jobs = [demo_job\<lparr>j_nextRunAt := Some 160, j_lastRunAt := Some 100\<rparr>], g_runs = [demo_run],
     g_claims = [new_claim demo_claim demo_job], g_lease = Some \<lparr>lr_lease = demo_lease, lr_expiresAt = 1090\<rparr>, g_configs = [], g_plans = []\<rparr>"
  by (simp add: demo_ledger_def demo_ops_def Let_def empty_ledger_def insertJob_def find_job_def acquireLease_def claimRun_def demo_claim_def
      demo_lease_def demo_job_def ownsLease_def is_due_def getRun_def has_claim_def update_where_def demo_run_def)

theorem one_execution_per_job_witness:
  "list_all op_ok demo_ops \<and> executions (foldl ledger_step empty_ledger demo_ops) = {([1], [2])}
   \<and> single_valued (executions (foldl ledger_step empty_ledger demo_ops))"
proof -
  have ok: "list_all op_ok demo_ops" by (simp add: demo_ops_def)
  have "executions demo_ledger = {([1], [2])}"
    by (auto simp: executions_def demo_ledger_eq demo_run_def new_run_def new_claim_def demo_claim_def)
  with one_execution_per_job [OF ok] ok show ?thesis by (simp add: demo_ledger_def)
qed

lemma demo_ledger_ok: "ledger_ok demo_ledger"
  using job_ledger.inv_run [OF empty_ledger_ok, of demo_ops] by (simp add: demo_ledger_def demo_ops_def)

theorem reservation_blocks_admission_witness:
  "\<exists>c r st'. c \<in> set (g_claims demo_ledger)
    \<and> claimRun (demo_claim\<lparr>i_jobId := [5], i_runId := [6], i_requireDue := False\<rparr>)
        (foldl ledger_step demo_ledger [InsertJob (demo_job\<lparr>j_id := [5]\<rparr>), PruneRuns [1] 0]) = (Admitted r, st')
    \<and> [5] \<noteq> c_jobId c \<and> c_lease c = demo_lease"
proof -
  let ?c = "new_claim demo_claim demo_job"
  let ?inp = "demo_claim\<lparr>i_jobId := [5], i_runId := [6], i_requireDue := False\<rparr>"
  let ?ops = "[InsertJob (demo_job\<lparr>j_id := [5]\<rparr>), PruneRuns [1] 0]"
  have c: "?c \<in> set (g_claims demo_ledger)" by (simp add: demo_ledger_eq)
  obtain r st' where adm: "claimRun ?inp (foldl ledger_step demo_ledger ?ops) = (Admitted r, st')"
    by (simp add: demo_ledger_eq insertJob_def find_job_def demo_job_def pruneRuns_def Let_def claimRun_def ownsLease_def demo_claim_def
        demo_run_def new_run_def new_claim_def getRun_def has_claim_def listRuns_def demo_lease_def)
  have "i_jobId ?inp \<noteq> c_jobId ?c \<and> i_lease ?inp = c_lease ?c"
    by (rule reservation_blocks_admission [OF demo_ledger_ok c _ _ adm]) simp_all
  with c adm show ?thesis by (auto simp: demo_claim_def)
qed

theorem stale_lease_fenced_witness:
  "\<exists>st1 st2. acquireLease [7] 0 10 empty_ledger = (Some demo_lease, st1)
    \<and> acquireLease [8] 20 10 st1 = (Some \<lparr>l_holder = [8], l_generation = 2\<rparr>, st2)
    \<and> finishRun [2] demo_lease \<lparr>ff_status = Succeeded, ff_finishedAt = 5, ff_summary = None, ff_error = None, ff_notify = False,
        ff_conversationProgress = None\<rparr> st2 = (False, st2)"
proof -
  let ?st1 = "empty_ledger\<lparr>g_lease := Some \<lparr>lr_lease = demo_lease, lr_expiresAt = 10\<rparr>\<rparr>"
  let ?new = "\<lparr>l_holder = [8], l_generation = 2\<rparr>"
  let ?st2 = "?st1\<lparr>g_lease := Some \<lparr>lr_lease = ?new, lr_expiresAt = 30\<rparr>\<rparr>"
  have a: "acquireLease [7] 0 10 empty_ledger = (Some demo_lease, ?st1)"
    by (simp add: acquireLease_def Let_def empty_ledger_def demo_lease_def)
  have b: "acquireLease [8] 20 10 (foldl ledger_step ?st1 []) = (Some ?new, ?st2)"
    by (simp add: acquireLease_def Let_def empty_ledger_def demo_lease_def)
  have "?new \<noteq> demo_lease" by (simp add: demo_lease_def)
  from stale_lease_fenced [OF a b this, where ops' = "[]"] a b show ?thesis by auto
qed

theorem finished_run_final_witness:
  "\<exists>st r. getRun [2] st = Some r \<and> r_status r = RunInterrupted
    \<and> (case getRun [2] (foldl ledger_step st [InterruptStale demo_lease 105, DeleteJob [3]]) of None \<Rightarrow> True | Some q \<Rightarrow> run_result q = run_result r)"
proof -
  let ?st = "ledger_step demo_ledger (InterruptExecution [2] demo_lease 101)"
  have ok: "ledger_ok ?st" by (rule ledger_step_ok [OF demo_ledger_ok]) simp
  obtain r where r: "getRun [2] ?st = Some r" "r_status r = RunInterrupted"
    by (simp add: demo_ledger_eq interruptExecution_def quarantineExecution_def getRun_def update_where_def demo_run_def new_run_def
        new_claim_def demo_claim_def Let_def)
  have "r_status r \<noteq> Running" using r(2) by simp
  from finished_run_final [OF ok r(1) this, of "[InterruptStale demo_lease 105, DeleteJob [3]]"] r show ?thesis
    by (intro exI [of _ ?st] exI [of _ r]) simp
qed

definition demo_finish :: finish_fields where
  "demo_finish = \<lparr>ff_status = Succeeded, ff_finishedAt = 200, ff_summary = None, ff_error = None, ff_notify = True,
     ff_conversationProgress = Some \<lparr>cp_after = 4, cp_nextAfter = 6, cp_workspaceId = [9], cp_claimedBy = [7],
       cp_maintenanceConfigRevision = None, cp_maintenancePlanId = None, cp_maintenanceOwnerUserId = None\<rparr>\<rparr>"

theorem cursor_moves_with_success_witness:
  "fst (finishRun [2] demo_lease demo_finish demo_ledger) \<and> cursors (snd (finishRun [2] demo_lease demo_finish demo_ledger)) = [([1], Some 6)]"
proof -
  have g: "getRun [2] demo_ledger = Some demo_run" by (simp add: getRun_def demo_ledger_eq demo_run_def new_run_def demo_claim_def)
  have o: "ownsRun [2] demo_lease (ff_finishedAt demo_finish) demo_ledger"
    by (simp add: ownsRun_def ownsLease_def demo_ledger_eq demo_run_def new_run_def new_claim_def demo_claim_def demo_finish_def)
  have s: "ff_status demo_finish = Succeeded" by (simp add: demo_finish_def)
  obtain p where p: "ff_conversationProgress demo_finish = Some p" by (simp add: demo_finish_def)
  have "cursors (snd (finishRun [2] demo_lease demo_finish demo_ledger)) = [([1], Some 6)]"
    using o by (simp add: finishRun_def demo_finish_def commit_progress_def Let_def advances_job_def getRun_def demo_ledger_eq count_where_def
        update_where_def record_outcome_def cursors_def demo_job_def demo_run_def new_run_def demo_claim_def demo_lease_def)
  with cursor_moves_with_success [OF demo_ledger_ok g o s p] show ?thesis by blast
qed

end
