(* ===== verification/Job_Scheduler.thy ===== *)
theory Job_Scheduler
  imports Job_Ledger
begin

text \<open>
  The scheduler of one backend (\<^verbatim>\<open>backend/src/services/scheduledJobs/scheduler.ts\<close>, \<^verbatim>\<open>events.ts\<close>,
  \<^verbatim>\<open>metaAgent/maintenanceCoordinator.ts\<close>) on the shared ledger: ownership, the tick, launching and finishing runs,
  cancelling, and the management of jobs. The asynchronous function \<open>execute\<close> is cut at its awaits: the part
  before the executor is called, the executor's answer, and the outcome are functions of their own, as are
  the two timers. A handler reads the clock once. What the executor, the renderers and the desktop app are
  told is a list of effects. What the maintenance modules decide about their own executions (the prepared
  plan, whether there is work, whether a guard holds a job) and what the database holds about
  conversations is part of the environment \<open>env\<close>. Failures of the database itself are left out.
\<close>

section \<open>State\<close>

record conversation_batch =
  b_after :: int
  b_nextAfter :: int
  b_totalTurns :: nat
  b_turnIds :: "jstr list"

record run_handle =
  h_nodeId :: jstr
  h_treeId :: "jstr option"
  h_turnId :: "jstr option"

record ActiveRun =
  a_run :: ScheduledJobRunRecord
  a_lease :: SchedulerLease
  a_aborted :: bool
  a_jobId :: jstr
  a_handle :: "run_handle option"
  a_cancelSent :: bool
  a_cancelRequested :: bool
  a_timedOut :: bool
  a_finalized :: bool
  a_executionEnded :: bool
  a_conversationBatch :: "conversation_batch option"
  a_maintenance :: "(nat \<times> jstr option) option"
  a_attentionRequested :: bool

datatype run_phase = PhaseStarted | PhaseFinished | PhaseAttention

record run_event =
  e_phase :: run_phase
  e_run :: ScheduledJobRunRecord
  e_jobName :: jstr
  e_notify :: bool
  e_attention :: "attention option"
  e_at :: int

datatype job_change = JobCreated | JobUpdated | JobDeleted

datatype effect =
    StartExecutor jstr "conversation_batch option" | CancelHandle jstr | PublishRun run_event
  | PublishChange job_change jstr jstr int | WakeApp

record world =
  w_ledger :: ledger
  w_active :: "ActiveRun list"
  w_lease :: "SchedulerLease option"
  w_running :: bool
  w_stopped :: bool
  w_nextCheckAt :: int
  w_runCount :: nat
  w_effects :: "effect list"

text \<open>What a managed execution was prepared with, when its own modules prepare it.\<close>

datatype preparation =
    StartWith "conversation_batch option" "(nat \<times> jstr option) option"
  | EndWith jstr "conversation_batch option" "(nat \<times> jstr option) option" bool
  | FailWith jstr

record managed_config =
  m_jobId :: jstr
  m_enabled :: bool
  m_paused :: bool
  m_runtimeId :: "jstr option"
  m_providerId :: "jstr option"
  m_modelId :: "jstr option"
  m_reasoning :: "jstr option"

record env =
  v_tz :: time_zones
  v_instanceId :: jstr
  v_processId :: nat
  v_leaseTtlMs :: int
  v_maxConcurrentRuns :: nat
  v_processExitStopsExecution :: bool
  v_runId :: "nat \<Rightarrow> jstr"
  v_probe :: "nat \<Rightarrow> probe_result"
  v_workspaceExists :: "jstr \<Rightarrow> bool"
  v_runtimeExists :: "jstr \<Rightarrow> bool"
  v_defaultSessionMode :: ScheduledJobSessionMode
  v_completions :: "jstr \<Rightarrow> int"
  v_conversations :: "ScheduledJobRecord \<Rightarrow> int \<Rightarrow> jstr + (conversation_batch \<times> bool)"
  v_managed :: "ScheduledJobRecord \<Rightarrow> preparation option"
  v_heldBy :: "ScheduledJobRecord \<Rightarrow> jstr option"
  v_hasWork :: "ScheduledJobRecord \<Rightarrow> bool"
  v_runtimeAvailable :: "ScheduledJobRecord \<Rightarrow> bool"
  v_maintenanceConfig :: "ScheduledJobRecord \<Rightarrow> managed_config option"
  v_maintenancePaused :: "ScheduledJobRecord \<Rightarrow> bool"
  v_planTerminal :: "jstr \<Rightarrow> bool"
  v_planWaits :: "jstr \<Rightarrow> nat option"
  v_settle :: "jstr \<Rightarrow> ScheduledJobRunStatus \<times> jstr option \<times> jstr option \<Rightarrow> ScheduledJobRunStatus \<times> jstr option \<times> jstr option"
  v_hasLauncher :: bool
  v_notifierAbsentMs :: "int option"
  v_notifierGraceMs :: int

definition on_ledger :: "(ledger \<Rightarrow> ledger) \<Rightarrow> world \<Rightarrow> world" where
  "on_ledger f w = w\<lparr>w_ledger := f (w_ledger w)\<rparr>"

definition emit :: "effect \<Rightarrow> world \<Rightarrow> world" where
  "emit e w = w\<lparr>w_effects := w_effects w @ [e]\<rparr>"

definition find_active :: "jstr \<Rightarrow> world \<Rightarrow> ActiveRun option" where
  "find_active i w = find (\<lambda>a. r_id (a_run a) = i) (w_active w)"

definition modify_active :: "jstr \<Rightarrow> (ActiveRun \<Rightarrow> ActiveRun) \<Rightarrow> world \<Rightarrow> world" where
  "modify_active i f w = w\<lparr>w_active := update_where (\<lambda>a. r_id (a_run a) = i) f (w_active w)\<rparr>"

section \<open>Ownership\<close>

definition requestCancel :: "jstr \<Rightarrow> world \<Rightarrow> world" where
  "requestCancel i w = (case find_active i w of None \<Rightarrow> w
    | Some a \<Rightarrow>
        let w1 = modify_active i (\<lambda>a. a\<lparr>a_aborted := True\<rparr>) w
        in if a_handle a \<noteq> None \<and> \<not> a_cancelSent a
           then emit (CancelHandle i) (modify_active i (\<lambda>a. a\<lparr>a_cancelSent := True\<rparr>) w1) else w1)"

definition loseOwnership :: "jstr \<Rightarrow> int \<Rightarrow> world \<Rightarrow> world" where
  "loseOwnership i now w = (case find_active i w of None \<Rightarrow> w
    | Some a \<Rightarrow> on_ledger (interruptExecution i (a_lease a) now)
        (requestCancel i (modify_active i (\<lambda>a. a\<lparr>a_finalized := True\<rparr>) w)))"

definition active_ids :: "world \<Rightarrow> jstr list" where
  "active_ids w = map (\<lambda>a. r_id (a_run a)) (w_active w)"

definition acquireOwnership :: "env \<Rightarrow> int \<Rightarrow> world \<Rightarrow> bool \<times> world" where
  "acquireOwnership env now w =
     (let (lease, led) = acquireLease (v_instanceId env) now (v_leaseTtlMs env) (w_ledger w);
          w1 = w\<lparr>w_ledger := led\<rparr>;
          lost = lease = None \<or> (w_lease w \<noteq> None \<and> map_option l_generation (w_lease w) \<noteq> map_option l_generation lease);
          w2 = (if lost then fold (\<lambda>i. loseOwnership i now) (active_ids w1) w1 else w1);
          w3 = w2\<lparr>w_lease := lease\<rparr>
      in case lease of
           None \<Rightarrow> (False, w3)
         | Some l \<Rightarrow> (True, on_ledger (\<lambda>led. snd (reapExitedExecutions (v_probe env) (v_processId env) l now led))
             (on_ledger (\<lambda>led. snd (interruptStaleRuns l now led)) w3)))"

section \<open>Finishing\<close>

definition eventFor :: "run_phase \<Rightarrow> ScheduledJobRecord \<Rightarrow> ScheduledJobRunRecord \<Rightarrow> attention option \<Rightarrow> int \<Rightarrow> run_event" where
  "eventFor phase job run att now = \<lparr>e_phase = phase, e_run = run, e_jobName = j_name job, e_notify = j_notify job,
     e_attention = att, e_at = default_to (r_finishedAt run) now\<rparr>"

definition maybeWakeApp :: "env \<Rightarrow> world \<Rightarrow> world" where
  "maybeWakeApp env w =
     (if \<not> v_hasLauncher env then w
      else case v_notifierAbsentMs env of
          None \<Rightarrow> w
        | Some ms \<Rightarrow> if ms < v_notifierGraceMs env then w else emit WakeApp w)"

definition job_after_run :: "ScheduledJobRecord \<Rightarrow> ScheduledJobRunTrigger \<Rightarrow> ScheduledJobRunStatus \<Rightarrow> jstr option \<Rightarrow> int \<Rightarrow> JobUpdate" where
  "job_after_run job trigger status err now =
     (let failed = status = Failed \<or> status = TimedOut;
          failures = (if status = Succeeded then 0 else if failed then j_consecutiveFailures job + 1 else j_consecutiveFailures job);
          pauseNow = (failed \<and> \<not> j_autoPaused job \<and> lim_autoPauseThreshold SCHEDULED_JOB_LIMITS \<le> failures)
      in [SetLastStatus (Some status), SetLastError (if status = Succeeded then None else err),
          SetConsecutiveFailures failures, SetUpdatedAt now]
         @ (if pauseNow then [SetAutoPaused True, SetLastError (Some (default_to err (js ''Run failed'')
              @ js ''. Paused after '' @ decimal failures @ js '' failed runs in a row.''))] else [])
         @ (case j_schedule job of
              At t \<Rightarrow> if trigger = TriggerScheduled then [SetEnabled False, SetNextRunAt None] else []
            | _ \<Rightarrow> []))"

definition progress_of :: "env \<Rightarrow> ActiveRun \<Rightarrow> ScheduledJobRecord option \<Rightarrow> conversation_progress option" where
  "progress_of env a job = (case a_conversationBatch a of None \<Rightarrow> None
    | Some b \<Rightarrow> Some \<lparr>cp_after = b_after b, cp_nextAfter = b_nextAfter b, cp_workspaceId = r_workspaceId (a_run a),
        cp_claimedBy = v_instanceId env, cp_maintenanceConfigRevision = map_option fst (a_maintenance a),
        cp_maintenancePlanId = (case a_maintenance a of None \<Rightarrow> None | Some m \<Rightarrow> snd m),
        cp_maintenanceOwnerUserId = (case a_maintenance a of None \<Rightarrow> None
          | Some m \<Rightarrow> Some (default_to (case job of None \<Rightarrow> None | Some j \<Rightarrow> j_ownerUserId j) (js ''local-user'')))\<rparr>)"

definition empty_batch_consumed :: "ActiveRun \<Rightarrow> bool \<Rightarrow> bool" where
  "empty_batch_consumed a consumed \<longleftrightarrow> consumed \<and> (case a_conversationBatch a of None \<Rightarrow> False | Some b \<Rightarrow> b_totalTurns b = 0)"

definition finish_input :: "env \<Rightarrow> ActiveRun \<Rightarrow> ScheduledJobRecord option \<Rightarrow> ScheduledJobRunStatus \<Rightarrow> jstr option \<Rightarrow> jstr option \<Rightarrow> int \<Rightarrow> bool \<Rightarrow> finish_fields" where
  "finish_input env a job status summary err now consumed =
     \<lparr>ff_status = status, ff_finishedAt = now, ff_summary = summary, ff_error = err,
      ff_notify = ((case job of None \<Rightarrow> False | Some j \<Rightarrow> j_notify j) \<and> (status = Succeeded \<or> status = Failed \<or> status = TimedOut)
        \<and> \<not> empty_batch_consumed a consumed),
      ff_conversationProgress = (if consumed then progress_of env a job else None)\<rparr>"

text \<open>What follows the recorded result: the job's own record, the pruned history, the event and the notification.\<close>

definition announce_finished :: "env \<Rightarrow> ActiveRun \<Rightarrow> ScheduledJobRecord \<Rightarrow> ScheduledJobRunRecord \<Rightarrow> ScheduledJobRunStatus \<Rightarrow> int \<Rightarrow> bool \<Rightarrow> world \<Rightarrow> world" where
  "announce_finished env a j latest status now consumed w =
     (if \<not> ownsLease (a_lease a) now (w_ledger w) then w
      else let w1 = emit (PublishRun (eventFor PhaseFinished (j\<lparr>j_notify := j_notify j \<and> \<not> empty_batch_consumed a consumed\<rparr>) latest None now)) w
           in if j_notify j \<and> status \<noteq> RunInterrupted \<and> status \<noteq> Cancelled \<and> \<not> empty_batch_consumed a consumed
              then maybeWakeApp env w1 else w1)"

definition settle_job :: "env \<Rightarrow> jstr \<Rightarrow> ActiveRun \<Rightarrow> ScheduledJobRecord \<Rightarrow> ScheduledJobRunStatus \<Rightarrow> jstr option \<Rightarrow> jstr option \<Rightarrow> int \<Rightarrow> bool \<Rightarrow> world \<Rightarrow> world" where
  "settle_job env i a j status summary err now consumed w =
     (case updateFinishedJob i (a_lease a) now (job_after_run j (r_trigger (a_run a)) status err now) (w_ledger w) of
        (False, led) \<Rightarrow> w
      | (True, led) \<Rightarrow>
          let led1 = pruneRuns (j_id j) (lim_runHistoryPerJob SCHEDULED_JOB_LIMITS) led;
              latest = default_to (getRun i led1)
                ((a_run a)\<lparr>r_status := status, r_finishedAt := Some now, r_summary := summary, r_error := err\<rparr>)
          in announce_finished env a j latest status now consumed (w\<lparr>w_ledger := led1\<rparr>))"

definition finalize ::
  "env \<Rightarrow> jstr \<Rightarrow> ScheduledJobRunStatus \<Rightarrow> jstr option \<Rightarrow> jstr option \<Rightarrow> int \<Rightarrow> bool \<Rightarrow> world \<Rightarrow> world" where
  "finalize env i status summary err now consumed w = (case find_active i w of None \<Rightarrow> w
    | Some a \<Rightarrow>
        if a_finalized a then w
        else if \<not> ownsRun i (a_lease a) now (w_ledger w) then loseOwnership i now w
        else
          let job = find_job (a_jobId a) (w_ledger w);
              (finished, led) = finishRun i (a_lease a) (finish_input env a job status summary err now consumed) (w_ledger w);
              w1 = (modify_active i (\<lambda>a. a\<lparr>a_finalized := True\<rparr>) w)\<lparr>w_ledger := led\<rparr>;
              status' = (case getRun i led of None \<Rightarrow> status | Some r \<Rightarrow> r_status r);
              err' = (case getRun i led of None \<Rightarrow> err | Some r \<Rightarrow> r_error r)
          in case job of
               None \<Rightarrow> w1
             | Some j \<Rightarrow> if \<not> finished then w1 else settle_job env i a j status' summary err' now consumed w1)"

definition releaseEndedExecution :: "jstr \<Rightarrow> world \<Rightarrow> world" where
  "releaseEndedExecution i w = (case find_active i w of None \<Rightarrow> w
    | Some a \<Rightarrow> (on_ledger (releaseExecution i (a_lease a)) w)\<lparr>w_active := filter (\<lambda>a. r_id (a_run a) \<noteq> i) (w_active w), w_nextCheckAt := 0\<rparr>)"

definition end_execution :: "jstr \<Rightarrow> world \<Rightarrow> world" where
  \<comment> \<open>the \<open>finally\<close> of \<open>execute\<close>\<close>
  "end_execution i w = releaseEndedExecution i (modify_active i (\<lambda>a. a\<lparr>a_executionEnded := True\<rparr>) w)"

definition fail_execution :: "env \<Rightarrow> jstr \<Rightarrow> jstr \<Rightarrow> int \<Rightarrow> world \<Rightarrow> world" where
  \<comment> \<open>the \<open>catch\<close> of \<open>execute\<close> before a handle is there\<close>
  "fail_execution env i message now w = (case find_active i w of None \<Rightarrow> w
    | Some a \<Rightarrow> if a_finalized a then w
        else finalize env i (if a_timedOut a then TimedOut else if a_cancelRequested a then Cancelled else Failed) None (Some message) now False w)"

section \<open>Launching\<close>

text \<open>The preparation of an ordinary job: its conversation input, if it consumes any.\<close>

definition prepare :: "env \<Rightarrow> ScheduledJobRecord \<Rightarrow> preparation" where
  "prepare env job = (case v_managed env job of
      Some p \<Rightarrow> p
    | None \<Rightarrow> (case j_conversationCursor job of
        None \<Rightarrow> StartWith None None
      | Some cursor \<Rightarrow> (case v_conversations env job cursor of
          Inl e \<Rightarrow> FailWith e
        | Inr (page, unreadable) \<Rightarrow>
            if b_turnIds page = [] then EndWith (js ''No new conversation turns'') (Some page) None True
            else if unreadable then FailWith (js ''Conversation input '' @ hd (b_turnIds page) @ js '' is too large or unavailable; progress retained'')
            else StartWith (Some page) None)))"

definition execute_start :: "env \<Rightarrow> ScheduledJobRecord \<Rightarrow> jstr \<Rightarrow> int \<Rightarrow> world \<Rightarrow> world" where
  "execute_start env job i now w = (case prepare env job of
      StartWith batch plan \<Rightarrow> emit (StartExecutor i batch) (modify_active i (\<lambda>a. a\<lparr>a_conversationBatch := batch, a_maintenance := plan\<rparr>) w)
    | EndWith summary batch plan consumed \<Rightarrow> end_execution i (finalize env i Succeeded (Some summary) None now consumed
        (modify_active i (\<lambda>a. a\<lparr>a_conversationBatch := batch, a_maintenance := plan\<rparr>) w))
    | FailWith message \<Rightarrow> end_execution i (fail_execution env i message now w))"

definition claim_input :: "env \<Rightarrow> ScheduledJobRecord \<Rightarrow> ScheduledJobRunTrigger \<Rightarrow> int \<Rightarrow> SchedulerLease \<Rightarrow> nat \<Rightarrow> ClaimRunInput" where
  "claim_input env job trigger now lease n =
     \<lparr>i_jobId = j_id job, i_runId = v_runId env n, i_trigger = trigger, i_now = now, i_lease = lease,
      i_maxConcurrentRuns = v_maxConcurrentRuns env, i_processExitStopsExecution = v_processExitStopsExecution env,
      i_processId = v_processId env,
      i_nextRunAt = (if j_executionKind job = KindMaintenance then Some None
        else if trigger = TriggerScheduled then Some (computeNextRun (v_tz env) (j_schedule job) now) else None),
      i_requireDue = (j_executionKind job \<noteq> KindMaintenance \<and> trigger = TriggerScheduled)\<rparr>"

definition new_active :: "ScheduledJobRunRecord \<Rightarrow> SchedulerLease \<Rightarrow> jstr \<Rightarrow> ActiveRun" where
  "new_active run lease jobId = \<lparr>a_run = run, a_lease = lease, a_aborted = False, a_jobId = jobId, a_handle = None, a_cancelSent = False,
     a_cancelRequested = False, a_timedOut = False, a_finalized = False, a_executionEnded = False,
     a_conversationBatch = None, a_maintenance = None, a_attentionRequested = False\<rparr>"

definition launch :: "env \<Rightarrow> ScheduledJobRecord \<Rightarrow> ScheduledJobRunTrigger \<Rightarrow> int \<Rightarrow> world \<Rightarrow> admission \<times> world" where
  "launch env job trigger now w = (case w_lease w of
      None \<Rightarrow> (Refused LeaseLost, w)
    | Some lease \<Rightarrow>
        (case claimRun (claim_input env job trigger now lease (w_runCount w)) (w_ledger w) of
           (Admitted run, led) \<Rightarrow> (Admitted run, execute_start env job (r_id run) now
              (w\<lparr>w_ledger := led, w_runCount := w_runCount w + 1, w_active := w_active w @ [new_active run lease (j_id job)]\<rparr>))
         | (refused, led) \<Rightarrow> (refused, w\<lparr>w_runCount := w_runCount w + 1\<rparr>)))"

section \<open>The executor's answers\<close>

text \<open>\<open>executor.start\<close> returned a handle.\<close>

definition attach_handle :: "ScheduledJobRecord \<Rightarrow> jstr \<Rightarrow> run_handle \<Rightarrow> int \<Rightarrow> world \<Rightarrow> world" where
  "attach_handle job i handle now w = (case find_active i w of None \<Rightarrow> w
    | Some a \<Rightarrow>
        if a_finalized a \<or> a_aborted a then requestCancel i w
        else (case attachRunTarget i (h_nodeId handle, h_treeId handle, h_turnId handle) (a_lease a) now
                (if j_sessionMode job = Persistent then Some (h_nodeId handle) else None) (w_ledger w) of
             (False, led) \<Rightarrow> loseOwnership i now w
           | (True, led) \<Rightarrow>
               let run = (a_run a)\<lparr>r_nodeId := Some (h_nodeId handle), r_treeId := h_treeId handle, r_turnId := h_turnId handle\<rparr>;
                   w1 = modify_active i (\<lambda>a. a\<lparr>a_run := run\<rparr>) (w\<lparr>w_ledger := led\<rparr>)
               in if ownsLease (a_lease a) now led then emit (PublishRun (eventFor PhaseStarted job run None now)) w1
                  else loseOwnership i now w1))"

definition on_started :: "ScheduledJobRecord \<Rightarrow> jstr \<Rightarrow> run_handle \<Rightarrow> int \<Rightarrow> world \<Rightarrow> world" where
  "on_started job i handle now w = (case find_active i w of None \<Rightarrow> w
    | Some a \<Rightarrow>
        let w1 = modify_active i (\<lambda>a. a\<lparr>a_handle := Some handle\<rparr>) w
        in attach_handle job i handle now
             (if \<not> a_finalized a \<and> \<not> ownsRun i (a_lease a) now (w_ledger w1) then loseOwnership i now w1 else w1))"

text \<open>\<open>executor.start\<close> rejected.\<close>

definition on_start_failed :: "env \<Rightarrow> jstr \<Rightarrow> jstr \<Rightarrow> int \<Rightarrow> world \<Rightarrow> world" where
  "on_start_failed env i message now w = end_execution i (fail_execution env i message now w)"

datatype outcome_status = OutcomeSucceeded | OutcomeFailed | OutcomeCancelled

record run_outcome =
  o_status :: outcome_status
  o_summary :: "jstr option"
  o_error :: "jstr option"
  o_handledTurnIds :: "jstr list"

definition outcome_run_status :: "ActiveRun \<Rightarrow> run_outcome \<Rightarrow> ScheduledJobRunStatus" where
  "outcome_run_status a out = (if a_timedOut a then TimedOut else if a_cancelRequested a then Cancelled
     else case o_status out of OutcomeCancelled \<Rightarrow> Failed | OutcomeSucceeded \<Rightarrow> Succeeded | OutcomeFailed \<Rightarrow> Failed)"

text \<open>\<open>Math.round(timeoutSeconds / 60)\<close>\<close>

definition timeout_message :: "ScheduledJobRecord \<Rightarrow> jstr" where
  "timeout_message job = js ''Timed out after '' @ decimal_int ((j_timeoutSeconds job + 30) div 60) @ js '' min''"

definition outcome_error :: "ScheduledJobRecord \<Rightarrow> ScheduledJobRunStatus \<Rightarrow> run_outcome \<Rightarrow> jstr option" where
  "outcome_error job status out = (case status of
      TimedOut \<Rightarrow> Some (timeout_message job)
    | Cancelled \<Rightarrow> Some (js ''Cancelled'')
    | Failed \<Rightarrow> Some (default_to (o_error out) (js ''The agent stopped before finishing''))
    | _ \<Rightarrow> None)"

text \<open>
  Whether the conversation input of a run was consumed: status, summary, error and consumption, from the plan of
  a managed execution or from the turns the executor confirmed.
\<close>

definition pages_text :: "nat \<Rightarrow> jstr" where
  "pages_text n = (if n = 1 then js ''1 page'' else decimal n @ js '' pages'')"

definition settle_batch ::
  "env \<Rightarrow> ActiveRun \<Rightarrow> run_outcome \<Rightarrow> ScheduledJobRunStatus \<Rightarrow> jstr option \<Rightarrow> jstr option \<Rightarrow> ScheduledJobRunStatus \<times> jstr option \<times> jstr option \<times> bool" where
  "settle_batch env a out status summary err = (case a_conversationBatch a of
      None \<Rightarrow> (status, summary, err, False)
    | Some page \<Rightarrow>
        if status \<noteq> Succeeded then (status, summary, err, False)
        else case a_maintenance a of
            Some (revision, Some planId) \<Rightarrow>
              if \<not> a_attentionRequested a \<and> v_planTerminal env planId then (status, summary, err, True)
              else (case (if a_attentionRequested a then None else v_planWaits env planId) of
                  Some pages \<Rightarrow> (status, Some (js ''Waiting for a conversation to finish editing '' @ pages_text pages @ js ''; progress retained''), err, False)
                | None \<Rightarrow> (Failed, summary, Some (js ''Maintenance plan has unfinished source decisions; progress retained''), False))
          | _ \<Rightarrow>
              if \<not> a_attentionRequested a \<and> card (set (o_handledTurnIds out)) = length (b_turnIds page)
                \<and> list_all (\<lambda>t. t \<in> set (o_handledTurnIds out)) (b_turnIds page)
              then (status, summary, err, True)
              else (Failed, summary, Some (js ''Conversation batch was not fully confirmed; progress retained''), False))"

text \<open>
  The runs of the home, watch and memory modules are settled by those modules (\<open>v_settle\<close>), which may turn the
  status, the summary and the error; for every other run \<open>v_settle\<close> returns what it is given.
\<close>

definition on_outcome :: "env \<Rightarrow> ScheduledJobRecord \<Rightarrow> jstr \<Rightarrow> run_outcome \<Rightarrow> int \<Rightarrow> world \<Rightarrow> world" where
  "on_outcome env job i out now w = (case find_active i w of None \<Rightarrow> w
    | Some a \<Rightarrow>
        end_execution i
          (if a_finalized a then w
           else let status = outcome_run_status a out
                in case v_settle env i (status, o_summary out, outcome_error job status out) of (status1, summary1, err1) \<Rightarrow>
                     (case settle_batch env a out status1 summary1 err1 of
                        (status', summary, err, consumed) \<Rightarrow> finalize env i status' summary err now consumed w)))"

definition on_timeout :: "jstr \<Rightarrow> int \<Rightarrow> world \<Rightarrow> world" where
  "on_timeout i now w = (case find_active i w of None \<Rightarrow> w
    | Some a \<Rightarrow> if a_finalized a then w
        else on_ledger (quarantineExecution i (a_lease a) now (js ''Timed out; the execution has not confirmed it stopped''))
          (requestCancel i (modify_active i (\<lambda>a. a\<lparr>a_timedOut := True\<rparr>) w)))"

definition on_grace :: "env \<Rightarrow> ScheduledJobRecord \<Rightarrow> jstr \<Rightarrow> int \<Rightarrow> world \<Rightarrow> world" where
  "on_grace env job i now w = finalize env i TimedOut None (Some (timeout_message job)) now False w"

definition onAttention :: "env \<Rightarrow> ScheduledJobRecord \<Rightarrow> jstr \<Rightarrow> attention \<Rightarrow> int \<Rightarrow> world \<Rightarrow> world" where
  "onAttention env job i kind now w = (case find_active i w of None \<Rightarrow> w
    | Some a \<Rightarrow>
        if a_finalized a then w
        else let w1 = modify_active i (\<lambda>a. a\<lparr>a_attentionRequested := True\<rparr>) w
             in case markAttention i kind (a_lease a) now (w_ledger w1) of
                  (False, led) \<Rightarrow> loseOwnership i now w1
                | (True, led) \<Rightarrow>
                    let w2 = w1\<lparr>w_ledger := led\<rparr>
                    in if \<not> ownsLease (a_lease a) now led then loseOwnership i now w2
                       else maybeWakeApp env (emit (PublishRun (eventFor PhaseAttention job (a_run a) (Some kind) now)) w2))"

section \<open>The tick\<close>

definition skip_occurrence :: "env \<Rightarrow> ScheduledJobRecord \<Rightarrow> int \<Rightarrow> JobUpdate \<Rightarrow> world \<Rightarrow> world" where
  "skip_occurrence env job now note w = on_ledger (updateJob (j_id job)
     ([SetNextRunAt (computeNextRun (v_tz env) (j_schedule job) now)] @ note @ [SetUpdatedAt now])) w"

text \<open>The loop over the due jobs; the flag tells that an exception ended the tick.\<close>

fun tick_jobs :: "env \<Rightarrow> int \<Rightarrow> ScheduledJobRecord list \<Rightarrow> world \<Rightarrow> bool \<times> world" where
  "tick_jobs env now [] w = (False, w)"
| "tick_jobs env now (job # jobs) w =
     (if (case j_nextRunAt job of None \<Rightarrow> True | Some t \<Rightarrow> now < t) then (False, w)
      else if v_maxConcurrentRuns env \<le> length (w_active w) then (False, w)
      else if \<not> v_workspaceExists env (j_workspaceId job)
      then tick_jobs env now jobs (skip_occurrence env job now
             [SetLastError (Some (js ''Skipped: the workspace is missing or in Trash''))] w)
      else case v_heldBy env job of
          Some held \<Rightarrow> tick_jobs env now jobs (skip_occurrence env job now [SetLastError (Some (js ''Skipped: '' @ held))] w)
        | None \<Rightarrow>
            (case launch env job TriggerScheduled now w of
               (Admitted run, w1) \<Rightarrow> tick_jobs env now jobs w1
             | (KeyViolation, w1) \<Rightarrow> (True, w1)
             | (Refused r, w1) \<Rightarrow>
                 if r = Capacity \<or> r = UnresolvedExecution \<or> r = LeaseLost then (False, w1)
                 else tick_jobs env now jobs (skip_occurrence env job now [] w1)))"

text \<open>
  The check of the maintenance executions: least recently served first; after failures a growing pause; at most
  one is started. The final tie of the order, by identifier in the locale's collation, is left to the stable
  sort.
\<close>

definition MAINTENANCE_CHECK_INTERVAL_MS :: int where
  "MAINTENANCE_CHECK_INTERVAL_MS = 60000"

definition retry_ms :: "nat \<Rightarrow> int" where
  "retry_ms failures = min (60 * 60000) (MAINTENANCE_CHECK_INTERVAL_MS * 2 ^ min 6 (failures - 1))"

definition served_before :: "ScheduledJobRecord \<Rightarrow> int \<times> int" where
  "served_before r = (default_to (j_lastRunAt r) (-1), j_createdAt r)"

definition backing_off :: "int \<Rightarrow> ScheduledJobRecord \<Rightarrow> bool" where
  "backing_off now r \<longleftrightarrow> 0 < j_consecutiveFailures r \<and> j_lastRunAt r \<noteq> None \<and> now < j_updatedAt r + retry_ms (j_consecutiveFailures r)"

definition start_maintenance :: "env \<Rightarrow> int \<Rightarrow> ScheduledJobRecord \<Rightarrow> world \<Rightarrow> bool \<times> world" where
  "start_maintenance env now r w =
     (if v_maxConcurrentRuns env \<le> length (w_active w) \<or> v_heldBy env r \<noteq> None \<or> \<not> v_runtimeAvailable env r then (False, w)
      else case launch env r TriggerScheduled now w of
          (Admitted run, w1) \<Rightarrow> (True, w1)
        | (_, w1) \<Rightarrow> (False, w1))"

fun check_records :: "env \<Rightarrow> int \<Rightarrow> ScheduledJobRecord list \<Rightarrow> world \<Rightarrow> world" where
  "check_records env now [] w = w"
| "check_records env now (r # rs) w =
     (if \<not> j_enabled r \<or> j_autoPaused r \<or> backing_off now r \<or> \<not> v_hasWork env r then check_records env now rs w
      else case start_maintenance env now r w of
          (True, w1) \<Rightarrow> w1
        | (False, w1) \<Rightarrow> check_records env now rs w1)"

definition maintenance_check :: "env \<Rightarrow> int \<Rightarrow> world \<Rightarrow> world" where
  "maintenance_check env now w =
     (if now < w_nextCheckAt w then w
      else check_records env now (sort_key (\<lambda>r. fst (served_before r)) (sort_key (\<lambda>r. snd (served_before r)) (listMaintenanceExecutions (w_ledger w))))
             (w\<lparr>w_nextCheckAt := now + MAINTENANCE_CHECK_INTERVAL_MS\<rparr>))"

definition tickOnce :: "env \<Rightarrow> int \<Rightarrow> world \<Rightarrow> world" where
  "tickOnce env now w =
     (if w_stopped w \<or> (\<not> w_running w \<and> w_active w = []) then w
      else let w1 = fold releaseEndedExecution (map (\<lambda>a. r_id (a_run a)) (filter a_executionEnded (w_active w))) w;
               (owned, w2) = acquireOwnership env now w1
           in if \<not> owned \<or> \<not> w_running w2 then w2
              else case tick_jobs env now (listScheduledJobs (w_ledger w2)) w2 of
                  (True, w3) \<Rightarrow> w3
                | (False, w3) \<Rightarrow> maintenance_check env now w3)"

section \<open>Managing jobs\<close>

datatype sched_error = JobNotFound | JobConflict string | JobInvalid job_error | JobRejected string

definition validationContext :: "env \<Rightarrow> int \<Rightarrow> JobValidationContext" where
  "validationContext env now = \<lparr>vc_now = now, vc_defaultSessionMode = Some (v_defaultSessionMode env),
     vc_workspaceExists = v_workspaceExists env, vc_runtimeExists = v_runtimeExists env\<rparr>"

definition validateCreate :: "env \<Rightarrow> jsval \<Rightarrow> int \<Rightarrow> world \<Rightarrow> sched_error + ParsedJobFields" where
  "validateCreate env raw now w = bind_sum (map_sum JobInvalid id (parseJobCreate (v_tz env) (validationContext env now) raw)) (\<lambda>fields.
     if lim_maxJobs SCHEDULED_JOB_LIMITS \<le> countJobs (w_ledger w) then Inl (JobRejected ''You can have at most 200 scheduled jobs'')
     else Inr fields)"

definition new_job :: "env \<Rightarrow> jstr \<Rightarrow> ParsedJobFields \<Rightarrow> jstr option \<Rightarrow> int \<Rightarrow> ScheduledJobRecord" where
  "new_job env i f owner now =
     \<lparr>j_id = i, j_executionKind = (if owner = None then KindScheduled else KindMaintenance),
      j_conversationCursor = (if f_conversationUpdates f then Some (v_completions env (f_workspaceId f)) else None),
      j_ownerUserId = owner, j_workspaceId = f_workspaceId f, j_name = f_name f, j_prompt = f_prompt f, j_schedule = f_schedule f,
      j_runtimeId = f_runtimeId f, j_providerId = f_providerId f, j_modelId = f_modelId f, j_reasoning = f_reasoning f,
      j_permissionMode = f_permissionMode f, j_sessionMode = f_sessionMode f, j_persistentNodeId = None, j_notify = f_notify f,
      j_enabled = f_enabled f, j_autoPaused = False, j_consecutiveFailures = 0, j_timeoutSeconds = f_timeoutSeconds f,
      j_nextRunAt = (if owner = None \<and> f_enabled f then computeNextRun (v_tz env) (f_schedule f) now else None),
      j_lastRunAt = None, j_lastStatus = None, j_lastError = None, j_createdAt = now, j_updatedAt = now\<rparr>"

definition createExecution :: "env \<Rightarrow> jstr \<Rightarrow> jsval \<Rightarrow> jstr option \<Rightarrow> int \<Rightarrow> world \<Rightarrow> sched_error + world" where
  "createExecution env i raw owner now w =
     bind_sum (if owner = None then validateCreate env raw now w
               else map_sum JobInvalid id (parseJobCreate (v_tz env) (validationContext env now) raw)) (\<lambda>fields.
       case insertJob (new_job env i fields owner now) (w_ledger w) of
         None \<Rightarrow> Inl (JobRejected ''UNIQUE constraint failed'')
       | Some led \<Rightarrow> Inr (emit (PublishChange JobCreated i (f_workspaceId fields) now) (w\<lparr>w_ledger := led\<rparr>)))"

text \<open>\<open>JSON.stringify\<close> of a schedule, as the value it prints.\<close>

fun schedule_value :: "ScheduledJobSchedule \<Rightarrow> jsval" where
  "schedule_value (Every n) = JObj [(js ''kind'', JStr (js ''every'')), (js ''everySeconds'', JNum n)]"
| "schedule_value (CronSchedule e z) = JObj [(js ''kind'', JStr (js ''cron'')), (js ''expression'', JStr e),
     (js ''timezone'', case z of None \<Rightarrow> JNull | Some t \<Rightarrow> JStr t)]"
| "schedule_value (At t) = JObj [(js ''kind'', JStr (js ''at'')), (js ''at'', JNum t)]"

fun members_without :: "jstr \<Rightarrow> jsval \<Rightarrow> jsval" where
  "members_without k (JObj kvs) = JObj (filter (\<lambda>(k', v). k' \<noteq> k) kvs)"
| "members_without k v = v"

fun defined_members :: "jsval \<Rightarrow> jsval" where
  "defined_members (JObj kvs) = JObj (filter (\<lambda>(k, v). v \<noteq> JUndefined) kvs)"
| "defined_members v = v"

definition same_one_time :: "ScheduledJobRecord \<Rightarrow> jsval \<Rightarrow> bool" where
  "same_one_time current raw = (case j_schedule current of
      At t \<Rightarrow> defined_members (field raw ''schedule'') = schedule_value (At t)
    | _ \<Rightarrow> False)"

definition parsePatch :: "env \<Rightarrow> jsval \<Rightarrow> ScheduledJobRecord \<Rightarrow> int \<Rightarrow> sched_error + JobPatch" where
  "parsePatch env raw current now = map_sum JobInvalid id (parseJobPatch (v_tz env) (validationContext env now)
     (if same_one_time current raw then members_without (js ''schedule'') raw else raw))"

text \<open>The fields of a patch beside those a managed maintenance job lets through.\<close>

definition only_managed_fields :: "JobPatch \<Rightarrow> bool" where
  "only_managed_fields p \<longleftrightarrow> p_workspaceId p = None \<and> p_name p = None \<and> p_prompt p = None \<and> p_permissionMode p = None
     \<and> p_sessionMode p = None \<and> p_notify p = None \<and> p_timeoutSeconds p = None \<and> p_conversationUpdates p = None"

definition changes_to :: "'a option \<Rightarrow> 'a \<Rightarrow> bool" where
  "changes_to v cur \<longleftrightarrow> v \<noteq> None \<and> v \<noteq> Some cur"

definition validateManagedJobPatch :: "env \<Rightarrow> ScheduledJobRecord \<Rightarrow> JobPatch \<Rightarrow> sched_error + unit" where
  "validateManagedJobPatch env current p = (case v_maintenanceConfig env current of
      None \<Rightarrow> Inr ()
    | Some config \<Rightarrow>
        if m_jobId config \<noteq> j_id current then Inr ()
        else if \<not> only_managed_fields p then Inl (JobRejected ''Managed maintenance jobs can only be changed through Space maintenance settings'')
        else if changes_to (p_enabled p) (m_enabled config \<and> \<not> m_paused config)
        then Inl (JobRejected ''Managed maintenance job state must match Space maintenance settings'')
        else if changes_to (p_runtimeId p) (m_runtimeId config) \<or> changes_to (p_providerId p) (m_providerId config)
          \<or> changes_to (p_modelId p) (m_modelId config) \<or> changes_to (p_reasoning p) (m_reasoning config)
        then Inl (JobRejected ''Space maintenance runs on the Meta agent settings; change the runtime there'')
        else if changes_to (p_schedule p) (Every 60) then Inl (JobRejected ''Managed maintenance schedule is fixed'')
        else Inr ())"

definition set_if :: "('a \<Rightarrow> job_column) \<Rightarrow> 'a option \<Rightarrow> job_column list" where
  "set_if col v = (case v of None \<Rightarrow> [] | Some x \<Rightarrow> [col x])"

definition patch_columns :: "JobPatch \<Rightarrow> JobUpdate" where
  "patch_columns p = set_if SetWorkspaceId (p_workspaceId p) @ set_if SetName (p_name p) @ set_if SetPrompt (p_prompt p)
     @ set_if SetSchedule (p_schedule p) @ set_if SetRuntimeId (p_runtimeId p) @ set_if SetProviderId (p_providerId p)
     @ set_if SetModelId (p_modelId p) @ set_if SetReasoning (p_reasoning p) @ set_if SetPermissionMode (p_permissionMode p)
     @ set_if SetSessionMode (p_sessionMode p) @ set_if SetNotify (p_notify p) @ set_if SetEnabled (p_enabled p)
     @ set_if SetTimeoutSeconds (p_timeoutSeconds p)"

definition cursor_columns :: "env \<Rightarrow> ScheduledJobRecord \<Rightarrow> JobPatch \<Rightarrow> JobUpdate" where
  "cursor_columns env current p =
     (if p_conversationUpdates p = Some False then [SetConversationCursor None]
      else if (p_conversationUpdates p = Some True \<and> j_conversationCursor current = None)
        \<or> (changes_to (p_workspaceId p) (j_workspaceId current) \<and> j_conversationCursor current \<noteq> None)
      then [SetConversationCursor (Some (v_completions env (default_to (p_workspaceId p) (j_workspaceId current))))]
      else [])"

definition resuming :: "ScheduledJobRecord \<Rightarrow> JobPatch \<Rightarrow> bool" where
  "resuming current p \<longleftrightarrow> p_enabled p = Some True \<and> (\<not> j_enabled current \<or> j_autoPaused current)"

definition schedule_columns :: "env \<Rightarrow> ScheduledJobRecord \<Rightarrow> JobPatch \<Rightarrow> int \<Rightarrow> JobUpdate" where
  "schedule_columns env current p now =
     (if \<not> default_to (p_enabled p) (j_enabled current) then [SetNextRunAt None]
      else if changes_to (p_schedule p) (j_schedule current) \<or> resuming current p \<or> j_nextRunAt current = None
      then [SetNextRunAt (computeNextRun (v_tz env) (default_to (p_schedule p) (j_schedule current)) now)]
      else [])"

definition profile_changed :: "ScheduledJobRecord \<Rightarrow> JobPatch \<Rightarrow> bool" where
  "profile_changed current p \<longleftrightarrow> changes_to (p_workspaceId p) (j_workspaceId current) \<or> changes_to (p_runtimeId p) (j_runtimeId current)
     \<or> changes_to (p_providerId p) (j_providerId current) \<or> changes_to (p_modelId p) (j_modelId current)
     \<or> changes_to (p_reasoning p) (j_reasoning current)"

definition job_update :: "env \<Rightarrow> ScheduledJobRecord \<Rightarrow> JobPatch \<Rightarrow> int \<Rightarrow> JobUpdate" where
  "job_update env current p now =
     patch_columns p @ [SetUpdatedAt now] @ cursor_columns env current p
     @ (if resuming current p then [SetAutoPaused False, SetConsecutiveFailures 0,
          SetLastError (if j_lastStatus current = Some Succeeded then None else j_lastError current)] else [])
     @ schedule_columns env current p now
     @ (if profile_changed current p \<or> changes_to (p_sessionMode p) (j_sessionMode current) then [SetPersistentNodeId None] else [])
     @ (if j_executionKind current = KindMaintenance then [SetNextRunAt None] else [])"

definition sched_updateJob :: "env \<Rightarrow> jstr \<Rightarrow> jsval \<Rightarrow> int \<Rightarrow> world \<Rightarrow> sched_error + world" where
  "sched_updateJob env i raw now w = (case getJob i (w_ledger w) of
      None \<Rightarrow> Inl JobNotFound
    | Some (current, activeRunId) \<Rightarrow>
        bind_sum (parsePatch env raw current now) (\<lambda>p.
        bind_sum (validateManagedJobPatch env current p) (\<lambda>_.
          if activeRunId \<noteq> None \<and> (j_conversationCursor current \<noteq> None \<or> p_conversationUpdates p = Some True)
            \<and> (changes_to (p_workspaceId p) (j_workspaceId current) \<or> p_conversationUpdates p \<noteq> None)
          then Inl (JobConflict ''Wait for the running job before changing its conversation consumer'')
          else if resuming current p \<and> \<not> changes_to (p_schedule p) (j_schedule current)
            \<and> (case j_schedule current of At t \<Rightarrow> t \<le> now | _ \<Rightarrow> False)
          then Inl (JobRejected ''This one-time run already happened. Pick a new time to turn it back on.'')
          else let w1 = (on_ledger (updateJob i (job_update env current p now)) w)\<lparr>w_nextCheckAt := 0\<rparr>
               in Inr (if changes_to (p_workspaceId p) (j_workspaceId current)
                       then emit (PublishChange JobCreated i (the (p_workspaceId p)) now) (emit (PublishChange JobDeleted i (j_workspaceId current) now) w1)
                       else emit (PublishChange JobUpdated i (j_workspaceId current) now) w1))))"

definition cancel_for_delete :: "int \<Rightarrow> jstr \<Rightarrow> world \<Rightarrow> world" where
  "cancel_for_delete now i w = (case find_active i w of None \<Rightarrow> w
    | Some a \<Rightarrow> on_ledger (quarantineExecution i (a_lease a) now (js ''The job was deleted before its execution confirmed it stopped''))
        (modify_active i (\<lambda>a. a\<lparr>a_finalized := True\<rparr>) (requestCancel i (modify_active i (\<lambda>a. a\<lparr>a_cancelRequested := True\<rparr>) w))))"

definition sched_deleteJob :: "jstr \<Rightarrow> int \<Rightarrow> world \<Rightarrow> sched_error option \<times> world" where
  "sched_deleteJob i now w =
     (let workspaceId = map_option j_workspaceId (find_job i (w_ledger w));
          w1 = fold (cancel_for_delete now) (map (\<lambda>a. r_id (a_run a)) (filter (\<lambda>a. a_jobId a = i) (w_active w))) w;
          (deleted, led) = deleteJob i (w_ledger w1)
      in if \<not> deleted then (Some JobNotFound, w1)
         else (None, case workspaceId of None \<Rightarrow> w1\<lparr>w_ledger := led\<rparr>
             | Some ws \<Rightarrow> emit (PublishChange JobDeleted i ws now) (w1\<lparr>w_ledger := led\<rparr>)))"

definition cancel_one :: "int \<Rightarrow> jstr \<Rightarrow> world \<Rightarrow> world" where
  "cancel_one now i w = (case find_active i w of None \<Rightarrow> w
    | Some a \<Rightarrow> on_ledger (quarantineExecution i (a_lease a) now (js ''Cancellation requested; the execution has not confirmed it stopped''))
        (requestCancel i (modify_active i (\<lambda>a. a\<lparr>a_cancelRequested := True\<rparr>) w)))"

definition cancelActiveRun :: "jstr \<Rightarrow> int \<Rightarrow> world \<Rightarrow> bool \<times> world" where
  "cancelActiveRun jobId now w =
     (let ids = map (\<lambda>a. r_id (a_run a)) (filter (\<lambda>a. a_jobId a = jobId \<and> \<not> a_finalized a) (w_active w))
      in (ids \<noteq> [], fold (cancel_one now) ids w))"

definition sched_confirmStopped :: "env \<Rightarrow> jstr \<Rightarrow> jsval \<Rightarrow> world \<Rightarrow> sched_error option \<times> world" where
  "sched_confirmStopped env runId raw w =
     (if \<not> is_object raw \<or> field raw ''executionStopped'' \<noteq> JBool True
      then (Some (JobRejected ''Confirm that the previous Michi process and its agent execution have stopped''), w)
      else case confirmExecutionStopped (v_probe env) runId (w_ledger w) of
          (ClaimMissing, led) \<Rightarrow> (Some JobNotFound, w)
        | (ClaimActive, led) \<Rightarrow> (Some (JobConflict ''The previous Michi process may still start or run this execution. Stop that process and its agent before confirming.''), w)
        | (Released, led) \<Rightarrow> (None, w\<lparr>w_ledger := led\<rparr>))"

datatype start_refusal = RefusedRunning | RefusedCapacity | RefusedUnresolved | RefusedLease | RefusedStopping | RefusedNoWork | RefusedPaused

datatype start_result = StartedRun ScheduledJobRunRecord | StartRefused start_refusal | StartThrew sched_error

definition startNow :: "env \<Rightarrow> jstr \<Rightarrow> int \<Rightarrow> world \<Rightarrow> start_result \<times> world" where
  "startNow env jobId now w = (case getJob jobId (w_ledger w) of
      None \<Rightarrow> (StartThrew JobNotFound, w)
    | Some (job, activeRunId) \<Rightarrow>
        if \<not> v_workspaceExists env (j_workspaceId job) then (StartThrew (JobRejected ''The workspace for this job is missing or in Trash''), w)
        else if w_stopped w then (StartRefused RefusedStopping, w)
        else if j_executionKind job = KindMaintenance \<and> v_maintenancePaused env job then (StartRefused RefusedPaused, w)
        else if j_executionKind job = KindMaintenance \<and> activeRunId \<noteq> None then (StartRefused RefusedRunning, w)
        else if j_executionKind job = KindMaintenance \<and> \<not> v_hasWork env job then (StartRefused RefusedNoWork, w)
        else case acquireOwnership env now w of
            (False, w1) \<Rightarrow> (StartRefused RefusedLease, w1)
          | (True, w1) \<Rightarrow>
              (case launch env job TriggerManual now w1 of
                 (Admitted run, w2) \<Rightarrow> (StartedRun run, w2)
               | (KeyViolation, w2) \<Rightarrow> (StartThrew (JobRejected ''UNIQUE constraint failed''), w2)
               | (Refused Capacity, w2) \<Rightarrow> (StartRefused RefusedCapacity, w2)
               | (Refused UnresolvedExecution, w2) \<Rightarrow> (StartRefused RefusedUnresolved, w2)
               | (Refused LeaseLost, w2) \<Rightarrow> (StartRefused RefusedLease, w2)
               | (Refused _, w2) \<Rightarrow> (StartRefused RefusedRunning, w2)))"

definition stop_one :: "env \<Rightarrow> int \<Rightarrow> jstr \<Rightarrow> world \<Rightarrow> world" where
  "stop_one env now i w = (case find_active i w of None \<Rightarrow> w
    | Some a \<Rightarrow> on_ledger (quarantineExecution i (a_lease a) now (js ''Michi stopped before this execution confirmed it ended''))
        (requestCancel i (finalize env i RunInterrupted None (Some (js ''Michi stopped while this run was in progress'')) now False w)))"

definition stop :: "env \<Rightarrow> int \<Rightarrow> world \<Rightarrow> world" where
  "stop env now w =
     (let w1 = fold (stop_one env now) (active_ids w) (w\<lparr>w_stopped := True, w_running := False\<rparr>)
      in (case w_lease w1 of None \<Rightarrow> w1 | Some l \<Rightarrow> on_ledger (releaseLease l) w1)\<lparr>w_lease := None\<rparr>)"

definition purge_workspace :: "jstr \<Rightarrow> world \<Rightarrow> world" where
  \<comment> \<open>the handler registered with \<open>registerScheduledWorkspacePurge\<close>, then the deletion\<close>
  "purge_workspace ws w =
     on_ledger (purgeScheduledJobsForWorkspace ws)
       (fold (\<lambda>i w. requestCancel i (modify_active i (\<lambda>a. a\<lparr>a_cancelRequested := True\<rparr>) w))
          (map (\<lambda>a. r_id (a_run a)) (filter (\<lambda>a. r_workspaceId (a_run a) = ws \<and> \<not> a_finalized a) (w_active w))) w)"

text \<open>The fields of a patch that change something.\<close>

definition keep_change :: "'a option \<Rightarrow> 'a \<Rightarrow> 'a option" where
  "keep_change v cur = (if changes_to v cur then v else None)"

definition validateUpdate :: "env \<Rightarrow> jstr \<Rightarrow> jsval \<Rightarrow> int \<Rightarrow> world \<Rightarrow> sched_error + JobPatch" where
  "validateUpdate env i raw now w = (case getJob i (w_ledger w) of
      None \<Rightarrow> Inl JobNotFound
    | Some (j, _) \<Rightarrow>
        bind_sum (parsePatch env raw j now) (\<lambda>p.
        bind_sum (validateManagedJobPatch env j p) (\<lambda>_. Inr
          \<lparr>p_workspaceId = keep_change (p_workspaceId p) (j_workspaceId j), p_name = keep_change (p_name p) (j_name j),
           p_prompt = keep_change (p_prompt p) (j_prompt j), p_schedule = keep_change (p_schedule p) (j_schedule j),
           p_runtimeId = keep_change (p_runtimeId p) (j_runtimeId j), p_providerId = keep_change (p_providerId p) (j_providerId j),
           p_modelId = keep_change (p_modelId p) (j_modelId j), p_reasoning = keep_change (p_reasoning p) (j_reasoning j),
           p_permissionMode = keep_change (p_permissionMode p) (j_permissionMode j),
           p_sessionMode = keep_change (p_sessionMode p) (j_sessionMode j), p_notify = keep_change (p_notify p) (j_notify j),
           p_enabled = keep_change (p_enabled p) (j_enabled j), p_timeoutSeconds = keep_change (p_timeoutSeconds p) (j_timeoutSeconds j),
           p_conversationUpdates = keep_change (p_conversationUpdates p) (j_conversationCursor j \<noteq> None)\<rparr>)))"

definition sched_preview :: "env \<Rightarrow> jsval \<Rightarrow> int \<Rightarrow> schedule_error + int list" where
  "sched_preview env raw now = map_sum id (\<lambda>s. previewSchedule (v_tz env) s now 3) (parseSchedule (v_tz env) raw now False)"

definition NOTIFICATION_REPLAY_WINDOW_MS :: int where
  "NOTIFICATION_REPLAY_WINDOW_MS = 24 * 3600000"

definition sched_pendingNotifications :: "int \<Rightarrow> world \<Rightarrow> run_event list" where
  "sched_pendingNotifications now w = List.map_filter (\<lambda>run. map_option (\<lambda>job.
       eventFor (if r_notifyKind run = Some NotifyAttention then PhaseAttention else PhaseFinished) job run (r_attention run) now)
     (find_job (r_jobId run) (w_ledger w))) (pendingNotifications (now - NOTIFICATION_REPLAY_WINDOW_MS) (w_ledger w))"

text \<open>The delay until the next tick, if the timer is set at all.\<close>

definition rearm_delay :: "env \<Rightarrow> int \<Rightarrow> int \<Rightarrow> world \<Rightarrow> int option" where
  "rearm_delay env pollIntervalMs now w =
     (if w_stopped w \<or> (\<not> w_running w \<and> w_active w = []) then None
      else let delay = min pollIntervalMs (min 60000 (max 1 (v_leaseTtlMs env div 3)))
           in Some (if w_running w \<and> w_lease w \<noteq> None \<and> length (w_active w) < v_maxConcurrentRuns env
                then case listScheduledJobs (w_ledger w) of
                    [] \<Rightarrow> delay
                  | j # _ \<Rightarrow> min delay (max 1000 (the (j_nextRunAt j) - now))
                else delay))"

section \<open>Lemmas: reservations\<close>

definition cores :: "world \<Rightarrow> (jstr \<times> jstr \<times> SchedulerLease \<times> nat option \<times> bool) list" where
  "cores w = map claim_core (g_claims (w_ledger w))"

lemma ledger_cores [simp]:
  "map claim_core (g_claims (quarantineExecution i l now r st)) = map claim_core (g_claims st)"
  "map claim_core (g_claims (interruptExecution i l now st)) = map claim_core (g_claims st)"
  "g_claims (updateJob i upd st) = g_claims st" "g_claims (snd (deleteJob i st)) = g_claims st" "g_claims (pruneRuns i n st) = g_claims st"
  "g_claims (releaseLease l st) = g_claims st"
  by (simp_all add: quarantineExecution_def interruptExecution_def Let_def updateJob_def deleteJob_def pruneRuns_def releaseLease_def
      split: option.split)

lemma ledger_results_claims:
  "updateFinishedJob i l now upd st = (b, st') \<Longrightarrow> g_claims st' = g_claims st"
  "attachRunTarget i target l now node st = (b, st') \<Longrightarrow> g_claims st' = g_claims st"
  "markAttention i kind l now st = (b, st') \<Longrightarrow> g_claims st' = g_claims st"
  "finishRun i l f st = (b, st') \<Longrightarrow> g_claims st' = g_claims st"
  "deleteJob i st = (b, st') \<Longrightarrow> g_claims st' = g_claims st"
proof -
  show "finishRun i l f st = (b, st') \<Longrightarrow> g_claims st' = g_claims st" using finishRun_claims [of i l f st] by simp
  show "deleteJob i st = (b, st') \<Longrightarrow> g_claims st' = g_claims st" using ledger_cores(4) [of i st] by simp
qed (auto simp: updateFinishedJob_def attachRunTarget_def markAttention_def split: option.splits if_splits prod.splits)

lemma cores_simps [simp]:
  "cores (modify_active i f w) = cores w" "cores (emit e w) = cores w"
  "cores (w\<lparr>w_ledger := led\<rparr>) = map claim_core (g_claims led)" "cores (on_ledger g w) = map claim_core (g_claims (g (w_ledger w)))"
  "cores (w\<lparr>w_stopped := b, w_running := c\<rparr>) = cores w" "cores (w\<lparr>w_lease := l\<rparr>) = cores w" "cores (w\<lparr>w_nextCheckAt := t\<rparr>) = cores w"
  by (simp_all add: cores_def modify_active_def emit_def on_ledger_def)

lemma w_ledger_simps [simp]:
  "w_ledger (modify_active i f w) = w_ledger w" "w_ledger (emit e w) = w_ledger w" "w_ledger (on_ledger g w) = g (w_ledger w)"
  by (simp_all add: modify_active_def emit_def on_ledger_def)

lemma cores_requestCancel [simp]: "cores (requestCancel i w) = cores w"
  by (simp add: requestCancel_def Let_def split: option.split)

lemma w_ledger_requestCancel [simp]: "w_ledger (requestCancel i w) = w_ledger w"
  by (simp add: requestCancel_def Let_def split: option.split)

lemma cores_loseOwnership [simp]: "cores (loseOwnership i now w) = cores w"
  by (simp add: loseOwnership_def cores_def split: option.split)

lemma cores_maybeWakeApp [simp]: "cores (maybeWakeApp env w) = cores w"
  by (simp add: maybeWakeApp_def split: option.split)

lemma cores_announce [simp]: "cores (announce_finished env a j latest status now consumed w) = cores w"
  by (simp add: announce_finished_def Let_def)

lemma cores_settle_job [simp]: "cores (settle_job env i a j status summary err now consumed w) = cores w"
proof (cases "updateFinishedJob i (a_lease a) now (job_after_run j (r_trigger (a_run a)) status err now) (w_ledger w)")
  case (Pair b led)
  then have "g_claims led = g_claims (w_ledger w)" by (rule ledger_results_claims)
  with Pair show ?thesis by (cases b) (simp_all add: settle_job_def Let_def cores_def [of w])
qed

lemma cores_finalize [simp]: "cores (finalize env i status summary err now consumed w) = cores w"
proof (cases "find_active i w")
  case (Some a)
  let ?f = "finish_input env a (find_job (a_jobId a) (w_ledger w)) status summary err now consumed"
  obtain fin led where f: "finishRun i (a_lease a) ?f (w_ledger w) = (fin, led)" by fastforce
  then have "g_claims led = g_claims (w_ledger w)" by (rule ledger_results_claims)
  with Some f show ?thesis by (simp add: finalize_def Let_def cores_def [of w] split: option.split)
qed (simp add: finalize_def)

lemma cores_fold: "(\<And>x w. cores (f x w) = cores w) \<Longrightarrow> cores (fold f xs w) = cores w"
  by (induction xs arbitrary: w) simp_all

lemma cores_handlers [simp]:
  "cores (cancel_one now i w) = cores w" "cores (cancel_for_delete now i w) = cores w" "cores (stop_one env now i w) = cores w"
  "cores (on_timeout i now w) = cores w" "cores (on_grace env job i now w) = cores w"
  by (simp_all add: cancel_one_def cancel_for_delete_def stop_one_def on_timeout_def on_grace_def cores_def [of w] split: option.split)
    (metis cores_def cores_finalize)

lemma cores_attach_handle [simp]: "cores (attach_handle job i handle now w) = cores w"
proof (cases "find_active i w")
  case (Some a)
  obtain b led where t: "attachRunTarget i (h_nodeId handle, h_treeId handle, h_turnId handle) (a_lease a) now
      (if j_sessionMode job = Persistent then Some (h_nodeId handle) else None) (w_ledger w) = (b, led)" by fastforce
  then have "g_claims led = g_claims (w_ledger w)" by (rule ledger_results_claims)
  with Some t show ?thesis unfolding attach_handle_def by (cases b) (simp_all add: Let_def cores_def [of w])
qed (simp add: attach_handle_def)

section \<open>Theorems\<close>

text \<open>C23: Cancelling never frees a slot: requesting a cancellation, a timeout and its grace period, deleting the job or
  its workspace, shutting down, losing ownership, an attached target and a request for attention leave every
  reservation in the ledger as it is; only the real end of the execution gives its reservation back.\<close>
theorem cancelling_keeps_reservations:
  "cores (snd (cancelActiveRun jobId now w)) = cores w \<and> cores (on_timeout i now w) = cores w
   \<and> cores (on_grace env job i now w) = cores w \<and> cores (snd (sched_deleteJob jobId now w)) = cores w
   \<and> cores (purge_workspace ws w) = cores w \<and> cores (stop env now w) = cores w \<and> cores (loseOwnership i now w) = cores w
   \<and> cores (onAttention env job i kind now w) = cores w \<and> cores (on_started job i handle now w) = cores w"
proof (intro conjI)
  show "cores (snd (cancelActiveRun jobId now w)) = cores w" by (simp add: cancelActiveRun_def Let_def cores_fold)
  show "cores (snd (sched_deleteJob jobId now w)) = cores w"
  proof -
    let ?w1 = "fold (cancel_for_delete now) (map (\<lambda>a. r_id (a_run a)) (filter (\<lambda>a. a_jobId a = jobId) (w_active w))) w"
    obtain b led where d: "deleteJob jobId (w_ledger ?w1) = (b, led)" by fastforce
    then have "g_claims led = g_claims (w_ledger ?w1)" by (rule ledger_results_claims)
    moreover have "cores ?w1 = cores w" by (rule cores_fold) simp
    ultimately show ?thesis using d by (simp add: sched_deleteJob_def Let_def cores_def [of ?w1] split: option.split)
  qed
  show "cores (purge_workspace ws w) = cores w"
  proof -
    have "cores (fold (\<lambda>i w. requestCancel i (modify_active i (\<lambda>a. a\<lparr>a_cancelRequested := True\<rparr>) w)) xs w) = cores w" for xs
      by (rule cores_fold) simp
    then show ?thesis by (simp add: purge_workspace_def cores_def)
  qed
  show "cores (stop env now w) = cores w"
  proof -
    let ?w1 = "fold (stop_one env now) (active_ids w) (w\<lparr>w_stopped := True, w_running := False\<rparr>)"
    have "cores ?w1 = cores w" using cores_fold [of "stop_one env now" "active_ids w" "w\<lparr>w_stopped := True, w_running := False\<rparr>"] by simp
    then show ?thesis by (simp add: stop_def Let_def cores_def [of ?w1] split: option.split)
  qed
  show "cores (onAttention env job i kind now w) = cores w"
  proof (cases "find_active i w")
    case (Some a)
    obtain b led where m: "markAttention i kind (a_lease a) now (w_ledger w) = (b, led)" by fastforce
    then have "g_claims led = g_claims (w_ledger w)" by (rule ledger_results_claims)
    with Some m show ?thesis by (cases b) (simp_all add: onAttention_def Let_def cores_def [of w])
  qed (simp add: onAttention_def)
  show "cores (on_started job i handle now w) = cores w"
    by (simp add: on_started_def Let_def split: option.split)
qed simp_all

text \<open>The results of a job's runs, one after the other: trigger, status, error and time.\<close>

type_synonym run_report = "ScheduledJobRunTrigger \<times> ScheduledJobRunStatus \<times> jstr option \<times> int"

definition apply_result :: "ScheduledJobRecord \<Rightarrow> run_report \<Rightarrow> ScheduledJobRecord" where
  "apply_result j res = (case res of (trigger, status, err, now) \<Rightarrow> fold set_column (job_after_run j trigger status err now) j)"

definition is_failure :: "ScheduledJobRunStatus \<Rightarrow> bool" where
  "is_failure s \<longleftrightarrow> s = Failed \<or> s = TimedOut"

definition failures_in_row :: "run_report list \<Rightarrow> nat" where
  "failures_in_row rs = length (filter is_failure (takeWhile (\<lambda>s. s \<noteq> Succeeded) (rev (map (\<lambda>r. fst (snd r)) rs))))"

lemma is_failure_simps [simp]:
  "is_failure Failed" "is_failure TimedOut" "\<not> is_failure Succeeded" "\<not> is_failure Cancelled" "\<not> is_failure RunInterrupted" "\<not> is_failure Running"
  by (simp_all add: is_failure_def)

lemma failures_in_row_snoc:
  "failures_in_row (rs @ [(trigger, s, err, now)]) =
     (if s = Succeeded then 0 else if is_failure s then Suc (failures_in_row rs) else failures_in_row rs)"
  by (simp add: failures_in_row_def)

lemma apply_result_counts:
  "j_consecutiveFailures (apply_result j (trigger, status, err, now)) =
     (if status = Succeeded then 0 else if is_failure status then Suc (j_consecutiveFailures j) else j_consecutiveFailures j)"
  "j_autoPaused (apply_result j (trigger, status, err, now)) = (j_autoPaused j \<or> (is_failure status \<and> 5 \<le> Suc (j_consecutiveFailures j)))"
  by (auto simp: apply_result_def job_after_run_def Let_def is_failure_def split: ScheduledJobSchedule.split)

text \<open>A job is paused exactly when five of its runs failed or timed out in a row, where cancelled and interrupted
  runs in between neither count nor reset and a success resets; and its counter is the length of that row.\<close>
theorem five_failures_pause:
  assumes "j_consecutiveFailures j = 0" "\<not> j_autoPaused j"
  shows "j_consecutiveFailures (foldl apply_result j rs) = failures_in_row rs
    \<and> (j_autoPaused (foldl apply_result j rs) \<longleftrightarrow> (\<exists>k \<le> length rs. 5 \<le> failures_in_row (take k rs)))"
proof (induction rs rule: rev_induct)
  case Nil
  then show ?case using assms by (simp add: failures_in_row_def)
next
  case (snoc res rs)
  obtain trigger status err now where res: "res = (trigger, status, err, now)" by (cases res) auto
  have ex: "(\<exists>k \<le> length (rs @ [res]). 5 \<le> failures_in_row (take k (rs @ [res])))
      \<longleftrightarrow> (\<exists>k \<le> length rs. 5 \<le> failures_in_row (take k rs)) \<or> 5 \<le> failures_in_row (rs @ [res])"
    by (auto simp: le_Suc_eq)
  have last: "5 \<le> failures_in_row rs \<Longrightarrow> \<exists>k \<le> length rs. 5 \<le> failures_in_row (take k rs)" by (rule exI [of _ "length rs"]) simp
  show ?case
  proof (cases "5 \<le> failures_in_row rs")
    case True
    then show ?thesis unfolding ex using snoc last by (simp add: res apply_result_counts failures_in_row_snoc)
  next
    case False
    then show ?thesis unfolding ex using snoc by (auto simp: res apply_result_counts failures_in_row_snoc)
  qed
qed

theorem five_failures_pause_witness:
  "\<exists>rs. j_autoPaused (foldl apply_result demo_job rs) \<and> length rs = 6 \<and> (TriggerManual, Cancelled, None, 0) \<in> set rs"
proof -
  let ?f = "(TriggerScheduled, Failed, None, 0)" and ?t = "(TriggerScheduled, TimedOut, None, 0)"
  let ?rs = "[?f, ?f, ?f, (TriggerManual, Cancelled, None, 0), ?t, ?t]"
  have "j_consecutiveFailures demo_job = 0" "\<not> j_autoPaused demo_job" by (simp_all add: demo_job_def)
  note iff = conjunct2 [OF five_failures_pause [OF this, of ?rs]]
  have "5 \<le> failures_in_row (take (length ?rs) ?rs)" by (simp add: failures_in_row_def)
  then have "j_autoPaused (foldl apply_result demo_job ?rs)" unfolding iff by (intro exI [of _ "length ?rs"]) simp
  then show ?thesis by (intro exI [of _ ?rs]) simp
qed

section \<open>Occurrences\<close>

text \<open>A job of the later ledger is due only when the same job was due before.\<close>

definition due_le :: "ledger \<Rightarrow> ledger \<Rightarrow> bool" where
  "due_le st st' \<longleftrightarrow> (\<forall>j' \<in> set (g_jobs st'). \<exists>j \<in> set (g_jobs st). j_id j = j_id j' \<and> (\<forall>t. is_due j' t \<longrightarrow> is_due j t))"

lemma due_le_same: "g_jobs st' = g_jobs st \<Longrightarrow> due_le st st'"
  by (auto simp: due_le_def)

lemma due_le_trans: "due_le a b \<Longrightarrow> due_le b c \<Longrightarrow> due_le a c"
  unfolding due_le_def by (metis (no_types))

lemma due_le_update:
  assumes "g_jobs st' = update_where P f (g_jobs st)" "\<And>j. j_id (f j) = j_id j" "\<And>j t. is_due (f j) t \<Longrightarrow> is_due j t"
  shows "due_le st st'"
  using assms by (fastforce simp: due_le_def set_update_where)

lemma due_le_finishRun: "due_le st (snd (finishRun i l f st))"
proof -
  have commit: "due_le st (snd (commit_progress i t p st))" for t p
  proof -
    let ?P = "advances_job i t p st"
    let ?st1 = "st\<lparr>g_jobs := update_where ?P (\<lambda>j. j\<lparr>j_conversationCursor := Some (cp_nextAfter p)\<rparr>) (g_jobs st)\<rparr>"
    have one: "due_le st ?st1"
      by (rule due_le_update [of _ ?P "\<lambda>j. j\<lparr>j_conversationCursor := Some (cp_nextAfter p)\<rparr>"]) (simp_all add: is_due_def)
    have two: "due_le ?st1 (?st1\<lparr>g_jobs := update_where Q (\<lambda>j. j\<lparr>j_conversationCursor := Some (cp_after p)\<rparr>) (g_jobs ?st1)\<rparr>)" for Q
      by (rule due_le_update [of _ Q "\<lambda>j. j\<lparr>j_conversationCursor := Some (cp_after p)\<rparr>"]) (simp_all add: is_due_def)
    have cfg: "due_le st (s\<lparr>g_configs := c\<rparr>) = due_le st s" for s c by (simp add: due_le_def)
    show ?thesis using one due_le_trans [OF one two]
      by (auto simp: commit_progress_def Let_def cfg due_le_same split: option.split)
  qed
  have "due_le s (snd (record_outcome i g s))" for s g by (rule due_le_same) (simp add: record_outcome_def)
  then have "due_le st (snd (record_outcome i g s))" if "commit_progress i t p st = (b, s)" for t p b s g
    using due_le_trans commit [of t p] that by (metis snd_conv)
  then show ?thesis
    by (auto simp: finishRun_def due_le_same record_outcome_def [of i f st] split: option.split prod.split bool.split)
qed

lemma due_after_run: "is_due (fold set_column (job_after_run j0 trigger status err now) j) t \<Longrightarrow> is_due j t"
  by (auto simp: job_after_run_def Let_def is_due_def split: ScheduledJobSchedule.splits if_splits)

lemma due_le_settle_job: "due_le (w_ledger w) (w_ledger (settle_job env i a j status summary err now consumed w))"
proof -
  let ?upd = "job_after_run j (r_trigger (a_run a)) status err now"
  have upd: "due_le st (updateJob k ?upd st)" for k st
    by (rule due_le_update [of _ "\<lambda>j. j_id j = k" "fold set_column ?upd"]) (auto simp: updateJob_def dest: due_after_run)
  have prune: "due_le a (pruneRuns k n st) = due_le a st" for a k n st by (simp add: due_le_def pruneRuns_def Let_def)
  have announce: "w_ledger (announce_finished env a j latest status now consumed w) = w_ledger w" for latest w
    by (simp add: announce_finished_def maybeWakeApp_def Let_def split: option.split)
  show ?thesis
    by (auto simp: settle_job_def updateFinishedJob_def announce prune upd due_le_same Let_def split: option.split)
qed

lemma due_le_finalize: "due_le (w_ledger w) (w_ledger (finalize env i status summary err now consumed w))"
proof (cases "find_active i w")
  case (Some a)
  let ?f = "finish_input env a (find_job (a_jobId a) (w_ledger w)) status summary err now consumed"
  obtain fin led where f: "finishRun i (a_lease a) ?f (w_ledger w) = (fin, led)" by fastforce
  have fin: "due_le (w_ledger w) led" using due_le_finishRun [of "w_ledger w" i "a_lease a" ?f] f by simp
  let ?w1 = "(modify_active i (\<lambda>a. a\<lparr>a_finalized := True\<rparr>) w)\<lparr>w_ledger := led\<rparr>"
  have "due_le led (w_ledger (settle_job env i a j st su er now consumed ?w1))" for j st su er
    using due_le_settle_job [of ?w1] by simp
  note settled = due_le_trans [OF fin this]
  have lost: "due_le (w_ledger w) (w_ledger (loseOwnership i now w))"
    by (rule due_le_same) (simp add: loseOwnership_def interruptExecution_def quarantineExecution_def Let_def split: option.split)
  show ?thesis using Some f fin settled lost by (simp add: finalize_def Let_def due_le_same split: option.split)
qed (simp add: finalize_def due_le_same)

lemma due_le_end_execution: "due_le (w_ledger w) (w_ledger (end_execution i w))"
  by (rule due_le_same) (simp add: end_execution_def releaseEndedExecution_def on_ledger_def releaseExecution_def split: option.split)

lemma due_le_execute_start: "due_le (w_ledger w) (w_ledger (execute_start env job i now w))"
proof (cases "prepare env job")
  case (EndWith summary batch plan consumed)
  then show ?thesis
    using due_le_trans [OF due_le_finalize due_le_end_execution,
        of "modify_active i (\<lambda>a. a\<lparr>a_conversationBatch := batch, a_maintenance := plan\<rparr>) w"] by (simp add: execute_start_def)
next
  case (FailWith message)
  have "due_le (w_ledger w) (w_ledger (fail_execution env i message now w))"
    by (auto simp: fail_execution_def due_le_finalize due_le_same split: option.split)
  from due_le_trans [OF this due_le_end_execution] FailWith show ?thesis by (simp add: execute_start_def)
qed (simp add: execute_start_def due_le_same)

text \<open>C24: an occurrence of a schedule starts at most one run: when a tick launches a due job, the job is not due any
  more - its next run is strictly later, or there is none - even if the run ended at once.\<close>
theorem occurrence_started_once:
  assumes "launch env job TriggerScheduled now w = (Admitted run, w1)" "j_executionKind job = KindScheduled" "schedule_ok (j_schedule job)"
    and "j' \<in> set (g_jobs (w_ledger w1))" "j_id j' = j_id job"
  shows "\<not> is_due j' now \<and> (\<exists>row. find_job (j_id job) (w_ledger w) = Some row \<and> is_due row now \<and> r_scheduledFor run = j_nextRunAt row)"
proof -
  obtain lease where lease: "w_lease w = Some lease" using assms(1) by (auto simp: launch_def split: option.splits)
  let ?inp = "claim_input env job TriggerScheduled now lease (w_runCount w)"
  obtain led where c: "claimRun ?inp (w_ledger w) = (Admitted run, led)"
    and w1: "w1 = execute_start env job (r_id run) now
      (w\<lparr>w_ledger := led, w_runCount := w_runCount w + 1, w_active := w_active w @ [new_active run lease (j_id job)]\<rparr>)"
    using assms(1) by (auto simp: launch_def lease split: prod.splits admission.splits)
  obtain row where row: "find_job (j_id job) (w_ledger w) = Some row" "run = new_run ?inp row" "is_due row now"
    using c assms(2) by (rule_tac claimRun_Admitted [OF c]) (auto simp: claim_input_def)
  have led: "g_jobs led = update_where (\<lambda>j. j_id j = j_id job)
      (fold set_column [SetNextRunAt (computeNextRun (v_tz env) (j_schedule job) now), SetLastRunAt (Some now)]) (g_jobs (w_ledger w))"
    using c assms(2) by (auto simp: claimRun_def claim_input_def split: if_splits option.splits)
  have "due_le led (w_ledger w1)" unfolding w1 by (rule due_le_trans [OF _ due_le_execute_start]) (simp add: due_le_same)
  then obtain j where j: "j \<in> set (g_jobs led)" "j_id j = j_id job" "\<forall>t. is_due j' t \<longrightarrow> is_due j t"
    using assms(4,5) unfolding due_le_def by auto
  have "j_nextRunAt j = computeNextRun (v_tz env) (j_schedule job) now" using j(1,2) by (auto simp: led set_update_where)
  then have "\<not> is_due j now" using computeNextRun_after [OF assms(3)] by (force simp: is_due_def split: option.splits)
  with j row show ?thesis using assms(2) by (auto simp: new_run_def claim_input_def)
qed

definition demo_env :: env where
  "demo_env = \<lparr>v_tz = demo_zones, v_instanceId = [7], v_processId = 77, v_leaseTtlMs = 90000, v_maxConcurrentRuns = 2,
     v_processExitStopsExecution = False, v_runId = \<lambda>n. [100 + n], v_probe = \<lambda>_. ProcessAlive, v_workspaceExists = \<lambda>_. True,
     v_runtimeExists = \<lambda>_. True, v_defaultSessionMode = Fresh, v_completions = \<lambda>_. 9,
     v_conversations = \<lambda>_ c. Inr (\<lparr>b_after = c, b_nextAfter = c, b_totalTurns = 0, b_turnIds = []\<rparr>, False),
     v_managed = \<lambda>_. None, v_heldBy = \<lambda>_. None, v_hasWork = \<lambda>_. False, v_runtimeAvailable = \<lambda>_. True, v_maintenanceConfig = \<lambda>_. None,
     v_maintenancePaused = \<lambda>_. False, v_planTerminal = \<lambda>_. False, v_planWaits = \<lambda>_. None, v_settle = \<lambda>_ r. r, v_hasLauncher = False,
     v_notifierAbsentMs = None, v_notifierGraceMs = 10000\<rparr>"

definition demo_world :: world where
  "demo_world = \<lparr>w_ledger = ledger_step (ledger_step empty_ledger (InsertJob demo_job)) (AcquireLease [7] 90 1000), w_active = [],
     w_lease = Some demo_lease, w_running = True, w_stopped = False, w_nextCheckAt = 0, w_runCount = 0, w_effects = []\<rparr>"

theorem occurrence_started_once_witness:
  "\<exists>run w1. launch demo_env demo_job TriggerScheduled 100 demo_world = (Admitted run, w1)
     \<and> (\<forall>j' \<in> set (g_jobs (w_ledger w1)). j_id j' = [1] \<longrightarrow> \<not> is_due j' 100)"
proof -
  have led: "w_ledger demo_world = \<lparr>g_jobs = [demo_job], g_runs = [], g_claims = [],
      g_lease = Some \<lparr>lr_lease = demo_lease, lr_expiresAt = 1090\<rparr>, g_configs = [], g_plans = []\<rparr>"
    by (simp add: demo_world_def empty_ledger_def insertJob_def find_job_def acquireLease_def Let_def demo_lease_def)
  obtain run w1 where l: "launch demo_env demo_job TriggerScheduled 100 demo_world = (Admitted run, w1)"
    using led by (simp add: launch_def demo_world_def claim_input_def claimRun_def led [unfolded demo_world_def, simplified] ownsLease_def
        find_job_def demo_job_def is_due_def demo_env_def getRun_def has_claim_def)
  have k: "j_executionKind demo_job = KindScheduled" "schedule_ok (j_schedule demo_job)" and i: "j_id demo_job = [1]"
    by (simp_all add: demo_job_def schedule_ok_def)
  have not_due: "\<forall>j' \<in> set (g_jobs (w_ledger w1)). j_id j' = [1] \<longrightarrow> \<not> is_due j' 100"
    using occurrence_started_once [OF l k] i by auto
  with l not_due show ?thesis by blast
qed

section \<open>Edited jobs\<close>

lemma find_job_updateJob: "find_job i (updateJob i upd st) = map_option (fold set_column upd) (find_job i st)"
proof -
  have "find (\<lambda>j. j_id j = i) (update_where (\<lambda>j. j_id j = i) (fold set_column upd) xs) = map_option (fold set_column upd) (find (\<lambda>j. j_id j = i) xs)" for xs
    by (induction xs) (auto simp: update_where_def)
  then show ?thesis by (simp add: find_job_def updateJob_def)
qed

lemma set_if_other:
  "(\<And>x j. j_enabled (set_column (col x) j) = j_enabled j) \<Longrightarrow> j_enabled (fold set_column (set_if col v) j) = j_enabled j"
  "(\<And>x j. j_schedule (set_column (col x) j) = j_schedule j) \<Longrightarrow> j_schedule (fold set_column (set_if col v) j) = j_schedule j"
  "(\<And>x j. j_nextRunAt (set_column (col x) j) = j_nextRunAt j) \<Longrightarrow> j_nextRunAt (fold set_column (set_if col v) j) = j_nextRunAt j"
  by (simp_all add: set_if_def split: option.split)

lemma set_if_self:
  "j_enabled (fold set_column (set_if SetEnabled v) j) = default_to v (j_enabled j)"
  "j_schedule (fold set_column (set_if SetSchedule s) j) = default_to s (j_schedule j)"
  by (simp_all add: set_if_def split: option.split)

lemma patched_fields:
  "j_enabled (fold set_column (patch_columns p) j) = default_to (p_enabled p) (j_enabled j)"
  "j_schedule (fold set_column (patch_columns p) j) = default_to (p_schedule p) (j_schedule j)"
  "j_nextRunAt (fold set_column (patch_columns p) j) = j_nextRunAt j"
  by (simp_all add: patch_columns_def set_if_other set_if_self)

lemma job_update_fields:
  "j_enabled (fold set_column (job_update env cur p now) cur) = default_to (p_enabled p) (j_enabled cur)"
  "j_schedule (fold set_column (job_update env cur p now) cur) = default_to (p_schedule p) (j_schedule cur)"
  "j_executionKind cur = KindScheduled \<Longrightarrow> j_nextRunAt (fold set_column (job_update env cur p now) cur) =
     (if \<not> default_to (p_enabled p) (j_enabled cur) then None
      else if changes_to (p_schedule p) (j_schedule cur) \<or> resuming cur p \<or> j_nextRunAt cur = None
      then computeNextRun (v_tz env) (default_to (p_schedule p) (j_schedule cur)) now else j_nextRunAt cur)"
  by (simp_all add: job_update_def patched_fields cursor_columns_def schedule_columns_def)

text \<open>Editing keeps the due time and the job consistent: a job that ends up disabled has no due time; one whose
  schedule was changed, that was turned back on or that had none gets the next run of its schedule, which
  for a changed schedule exists and is strictly later; otherwise the due time stays.\<close>
theorem edited_job_due_time:
  assumes "sched_updateJob env i raw now w = Inr w'" "find_job i (w_ledger w) = Some cur" "j_executionKind cur = KindScheduled"
  shows "\<exists>j. find_job i (w_ledger w') = Some j \<and>
    (if \<not> j_enabled j then j_nextRunAt j = None
     else if j_schedule j \<noteq> j_schedule cur then (\<exists>t. j_nextRunAt j = Some t \<and> now < t \<and> computeNextRun (v_tz env) (j_schedule j) now = Some t)
     else j_nextRunAt j = j_nextRunAt cur \<or> j_nextRunAt j = computeNextRun (v_tz env) (j_schedule j) now)"
proof -
  obtain p where p: "parsePatch env raw cur now = Inr p" and w': "w_ledger w' = updateJob i (job_update env cur p now) (w_ledger w)"
    using assms(1,2) by (auto simp: sched_updateJob_def getJob_def bind_sum_Inr Let_def on_ledger_def emit_def split: if_splits)
  let ?raw = "if same_one_time cur raw then members_without (js ''schedule'') raw else raw"
  have "parseJobPatch (v_tz env) (validationContext env now) ?raw = Inr p"
    using p by (cases "parseJobPatch (v_tz env) (validationContext env now) ?raw") (simp_all add: parsePatch_def)
  then have "patch_ok (v_tz env) (validationContext env now) p"
    using parse_fields_ok by (simp add: parseJobPatch_def split: if_splits)
  then have sched: "\<exists>t. computeNextRun (v_tz env) s now = Some t \<and> now < t" if "p_schedule p = Some s" for s
    using that by (simp add: patch_ok_def validationContext_def)
  define j where "j = fold set_column (job_update env cur p now) cur"
  have found: "find_job i (w_ledger w') = Some j" by (simp add: w' find_job_updateJob assms(2) j_def)
  note fields = job_update_fields(1,2) [of env cur p now, folded j_def]
  note due = job_update_fields(3) [OF assms(3), of env p now, folded j_def]
  consider (off) "\<not> j_enabled j" | (changed) s where "j_enabled j" "p_schedule p = Some s" "s \<noteq> j_schedule cur"
    | (same) "j_enabled j" "\<not> changes_to (p_schedule p) (j_schedule cur)"
    by (cases "p_schedule p") (auto simp: changes_to_def)
  then show ?thesis
  proof cases
    case off
    then show ?thesis using found due fields by auto
  next
    case (changed s)
    then have "j_nextRunAt j = computeNextRun (v_tz env) s now" "j_schedule j = s" using due fields by (auto simp: changes_to_def)
    then show ?thesis using found sched [OF changed(2)] changed by auto
  next
    case same
    then have "j_schedule j = j_schedule cur" using fields by (cases "p_schedule p") (auto simp: changes_to_def)
    moreover have "j_nextRunAt j = j_nextRunAt cur \<or> j_nextRunAt j = computeNextRun (v_tz env) (j_schedule j) now"
      using same due fields by auto
    ultimately show ?thesis using found same by auto
  qed
qed

text \<open>Turning a job off.\<close>

theorem edited_job_due_time_witness:
  "\<exists>w' j. sched_updateJob demo_env [1] (JObj [(js ''enabled'', JBool False)]) 100 demo_world = Inr w'
     \<and> find_job [1] (w_ledger w') = Some j \<and> \<not> j_enabled j \<and> j_nextRunAt j = None"
proof -
  let ?raw = "JObj [(js ''enabled'', JBool False)]"
  have cur: "find_job [1] (w_ledger demo_world) = Some demo_job"
    by (simp add: demo_world_def empty_ledger_def insertJob_def find_job_def acquireLease_def Let_def demo_job_def)
  obtain p where p: "parsePatch demo_env ?raw demo_job 100 = Inr p" "p_enabled p = Some False" "p_workspaceId p = None" "p_conversationUpdates p = None"
    by (simp add: parsePatch_def same_one_time_def demo_job_def parseJobPatch_def parse_fields_def when_present_def bool_field_def)
  have m: "validateManagedJobPatch demo_env demo_job p = Inr ()" by (simp add: validateManagedJobPatch_def demo_env_def)
  have g: "getJob [1] (w_ledger demo_world) = Some (demo_job, active_run_id [1] (w_ledger demo_world))" by (simp only: getJob_def cur option.map)
  obtain w' where w': "sched_updateJob demo_env [1] ?raw 100 demo_world = Inr w'"
    and "w_ledger w' = updateJob [1] (job_update demo_env demo_job p 100) (w_ledger demo_world)"
    by (simp only: sched_updateJob_def g) (simp add: p m changes_to_def resuming_def Let_def on_ledger_def emit_def)
  then have "find_job [1] (w_ledger w') = Some (fold set_column (job_update demo_env demo_job p 100) demo_job)"
    and off: "\<not> j_enabled (fold set_column (job_update demo_env demo_job p 100) demo_job)"
    using p(2) by (simp_all only: find_job_updateJob cur job_update_fields option.map default_to_simps not_False_eq_True)
  moreover have "j_executionKind demo_job = KindScheduled" by (simp add: demo_job_def)
  ultimately show ?thesis using edited_job_due_time [OF w' cur] w' off by auto
qed

end
