(* ===== verification/Turn_Trust.thy ===== *)
theory Turn_Trust
  imports Js_Regex
begin

text \<open>
  Turn trust (\<^verbatim>\<open>backend/src/services/turnTrust.ts\<close>): which tool calls of a turn bring outside content, the sources
  recorded per turn in the database and in memory, and the reports about a turn. Of a runtime event the
  fields the module reads are kept. The key of a source is its JSON text in the code, which is injective,
  and the triple itself here. The database is open, closed, or open with a failing write; which runtime a node has
  and which turn of a node runs are arguments. Deleting the rows of a purged node is the trigger of
  migration 0060.
\<close>

section \<open>Classification\<close>

datatype ToolTrust = Trusted | Untrusted

record ToolTrustInput =
  ti_runtimeId :: jstr
  ti_toolName :: jstr
  ti_mcpServer :: "jstr option"
  ti_hostTool :: "bool option"
  ti_kind :: "jstr option"

definition UNTRUSTED_TOOL_NAMES :: "jstr list" where
  "UNTRUSTED_TOOL_NAMES = map js
     [''web_search'', ''fetch_content'', ''bash'',
      ''WebFetch'', ''WebSearch'', ''WebBrowser'', ''Bash'', ''BashOutput'', ''TaskOutput'', ''KillShell'', ''PowerShell'', ''REPL'',
      ''Monitor'', ''RemoteTrigger'', ''ListMcpResourcesTool'', ''ReadMcpResourceTool'',
      ''shell'', ''execute_bash'', ''run_command'', ''web_fetch'', ''use_aws'', ''execute'', ''fetch'']"

definition TRUSTED_TOOL_NAMES :: "jstr list" where
  "TRUSTED_TOOL_NAMES = map js
     [''read'', ''ls'', ''grep'', ''find'', ''write'', ''edit'',
      ''Read'', ''Glob'', ''Grep'', ''LS'', ''LSP'', ''NotebookRead'', ''Edit'', ''MultiEdit'', ''Write'', ''NotebookEdit'',
      ''TodoWrite'', ''Task'', ''Agent'', ''TaskStop'', ''TaskCreate'', ''TaskGet'', ''TaskList'', ''TaskUpdate'', ''ListAgents'',
      ''SendMessage'', ''SendUserMessage'', ''TeamCreate'', ''TeamDelete'', ''Workflow'', ''ReportFindings'', ''Brief'',
      ''StructuredOutput'', ''CronCreate'', ''CronDelete'', ''CronList'', ''ScheduleWakeup'', ''Sleep'', ''PushNotification'',
      ''AskUserQuestion'', ''EnterPlanMode'', ''ExitPlanMode'', ''EnterWorktree'', ''ExitWorktree'', ''Config'', ''Skill'',
      ''SlashCommand'', ''ToolSearch'',
      ''apply_patch'', ''spawnAgent'', ''wait'', ''sendInput'', ''closeAgent'', ''resumeAgent'',
      ''fs_read'', ''fs_write'', ''glob'', ''todo_list'', ''thinking'', ''delegate'', ''use_subagent'', ''subagent'', ''summary'',
      ''view_file'', ''read_file'', ''list_dir'', ''find_by_name'', ''grep_search'', ''write_file'', ''replace_file_content'',
      ''multi_replace_file_content'',
      ''delete'', ''move'', ''search'', ''think'', ''switch_mode'']"

definition PAGE_TOOL_NAMES :: "jstr list" where
  "PAGE_TOOL_NAMES = map js
     [''read_home'', ''edit_home'', ''list_pages'', ''read_page'', ''edit_page'', ''create_page'', ''create_database'',
      ''configure_database'', ''read_database'', ''edit_database'', ''list_page_components'', ''read_page_component'',
      ''save_page_component'', ''configure_database_view'', ''open_task_database'', ''list_tasks'']"

definition SCHEDULED_JOB_TOOL_NAMES :: "jstr list" where
  "SCHEDULED_JOB_TOOL_NAMES = map js [''list_scheduled_jobs'', ''create_scheduled_job'', ''update_scheduled_job'',
     ''run_scheduled_job'', ''delete_scheduled_job'']"

definition MEMORY_TOOL_NAMES :: "jstr list" where
  "MEMORY_TOOL_NAMES = map js [''memory_search'', ''memory_save'', ''memory_update'', ''memory_delete'']"

definition AGENT_RUN_TOOL_NAMES :: "jstr list" where
  "AGENT_RUN_TOOL_NAMES = map js [''list_agents'', ''spawn_agent'', ''check_agent'', ''wait_agent'', ''send_agent_input'',
     ''cancel_agent'', ''watch_agent_runs'', ''update_agent_watch'']"

definition MICHI_TOOL_NAMES :: "jstr list" where
  "MICHI_TOOL_NAMES = PAGE_TOOL_NAMES @ SCHEDULED_JOB_TOOL_NAMES @ MEMORY_TOOL_NAMES @ AGENT_RUN_TOOL_NAMES @ map js
     [''open_url'', ''michi_docs'', ''spawn_branches'', ''save_artifact'', ''update_artifact'', ''show_image'',
      ''list_threads'', ''search_messages'', ''read_node'', ''read_node_overview'', ''read_conversation_updates'',
      ''report_conversation_no_change'', ''inspect_pane'', ''read_pane_output'', ''list_panes'', ''wait_pane'', ''send_to_thread'',
      ''ask_user'', ''set_follow_ups'', ''set_branch_overview'', ''set_title'', ''validate_follow_ups'', ''validate_turn_metadata'',
      ''submit_agent_result'']"

definition MICHI_MCP_SERVERS :: "jstr list" where
  "MICHI_MCP_SERVERS = map js [''__michi_internal__'', ''michi'']"

definition LOCAL_ACP_KINDS :: "jstr list" where
  "LOCAL_ACP_KINDS = map js [''read'', ''edit'', ''delete'', ''move'', ''search'', ''think'', ''switch_mode'']"

definition ACP_KINDS :: "jstr list" where
  "ACP_KINDS = LOCAL_ACP_KINDS @ map js [''execute'', ''fetch'', ''other'']"

text \<open>The three patterns that read a server out of a raw tool name; the dot excludes line terminators.\<close>

definition rdot :: regex where
  "rdot = RSet (\<lambda>c. \<not> is_lt c)"

definition MCP_DOUBLE :: regex where
  "MCP_DOUBLE = rseq [RBegin False, rlit ''mcp__'', RGroup 1 (RRep 1 None False rdot), rlit ''__'', rdot]"

definition MCP_AT :: regex where
  "MCP_AT = rseq [RBegin False, rlit ''@'', RGroup 1 (rplus (RSet (\<lambda>c. c \<noteq> 47 \<and> \<not> is_ws c))), rlit ''/'', rdot]"

definition MCP_SINGLE :: regex where
  "MCP_SINGLE = rseq [RBegin False, rlit ''mcp_'', RGroup 1 (rplus (RSet (\<lambda>c. c \<noteq> 95))), rlit ''_'', rdot]"

definition first_group :: "regex \<Rightarrow> jstr \<Rightarrow> jstr option" where
  "first_group r s = map_option (\<lambda>m. capture s m 1) (js_match r s)"

definition mcpServerOfName :: "jstr \<Rightarrow> jstr option" where
  "mcpServerOfName name =
     (if starts_with name (js ''mcp____michi_internal____'') then Some (js ''__michi_internal__'')
      else if starts_with name (js ''mcp_michi_'') then Some (js ''michi'')
      else nullish (first_group MCP_DOUBLE name) (nullish (first_group MCP_AT name) (first_group MCP_SINGLE name)))"

definition by_kind :: "jstr option \<Rightarrow> ToolTrust" where
  "by_kind k = (case k of None \<Rightarrow> Untrusted | Some x \<Rightarrow> if x \<in> set LOCAL_ACP_KINDS then Trusted else Untrusted)"

definition tool_server :: "ToolTrustInput \<Rightarrow> jstr option" where
  "tool_server inp =
     (if truthy_str (ti_mcpServer inp) then ti_mcpServer inp
      else if ti_hostTool inp = None then mcpServerOfName (js_trim (ti_toolName inp)) else None)"

definition is_host_tool :: "ToolTrustInput \<Rightarrow> bool" where
  "is_host_tool inp = (case ti_hostTool inp of
      Some b \<Rightarrow> b
    | None \<Rightarrow> if truthy_str (tool_server inp) then the (tool_server inp) \<in> set MICHI_MCP_SERVERS
              else js_trim (ti_toolName inp) \<in> set MICHI_TOOL_NAMES)"

definition classifyToolTrust :: "ToolTrustInput \<Rightarrow> ToolTrust" where
  "classifyToolTrust inp =
     (let name = js_trim (ti_toolName inp)
      in if name = [] then by_kind (ti_kind inp)
         else if name \<in> set UNTRUSTED_TOOL_NAMES then Untrusted
         else if is_host_tool inp then Trusted
         else if truthy_str (tool_server inp) \<or> ti_hostTool inp = Some False then Untrusted
         else if name \<in> set TRUSTED_TOOL_NAMES then Trusted
         else by_kind (ti_kind inp))"

section \<open>Storage\<close>

record TurnRef =
  tr_nodeId :: jstr
  tr_turnId :: jstr

record TrustSource =
  ts_tool :: jstr
  ts_runtimeId :: jstr
  ts_detail :: "jstr option"

type_synonym source_key = "jstr \<times> jstr \<times> jstr option"

record TrackedTurn =
  tt_calls :: "jstr list"
  tt_recorded :: "source_key list"
  tt_unsaved :: "(source_key \<times> TrustSource) list"

record trust_row =
  row_ref :: TurnRef
  row_key :: source_key
  row_source :: TrustSource
  row_recordedAt :: int

record trust_state =
  z_rows :: "trust_row list"
  z_tracked :: "(jstr \<times> TrackedTurn) list"

definition MAX_SOURCES_PER_TURN :: nat where "MAX_SOURCES_PER_TURN = 50"

definition MAX_FIELD_CHARS :: nat where "MAX_FIELD_CHARS = 500"

definition MAX_TRACKED_TURNS :: nat where "MAX_TRACKED_TURNS = 256"

definition MAX_CALLS_PER_TURN :: nat where "MAX_CALLS_PER_TURN = 4096"

definition turnKey :: "TurnRef \<Rightarrow> jstr" where
  "turnKey ref = tr_nodeId ref @ [0] @ tr_turnId ref"

definition sourceKey :: "TrustSource \<Rightarrow> source_key" where
  "sourceKey s = (ts_tool s, ts_runtimeId s, ts_detail s)"

definition fresh_turn :: TrackedTurn where
  "fresh_turn = \<lparr>tt_calls = [], tt_recorded = [], tt_unsaved = []\<rparr>"

definition trackedTurn :: "TurnRef \<Rightarrow> trust_state \<Rightarrow> TrackedTurn \<times> trust_state" where
  "trackedTurn ref st = (case map_of (z_tracked st) (turnKey ref) of
      Some t \<Rightarrow> (t, st)
    | None \<Rightarrow>
        let more = z_tracked st @ [(turnKey ref, fresh_turn)]
        in (fresh_turn, st\<lparr>z_tracked := if MAX_TRACKED_TURNS < length more then tl more else more\<rparr>))"

definition put_turn :: "TurnRef \<Rightarrow> TrackedTurn \<Rightarrow> trust_state \<Rightarrow> trust_state" where
  \<comment> \<open>what the mutation of a tracked turn does to the map that holds it\<close>
  "put_turn ref t st = st\<lparr>z_tracked := AList.update (turnKey ref) t (z_tracked st)\<rparr>"

definition clip :: "jstr \<Rightarrow> jstr" where
  "clip s = (if MAX_FIELD_CHARS < length s then take MAX_FIELD_CHARS s else s)"

definition validRef :: "TurnRef \<Rightarrow> bool" where
  "validRef ref \<longleftrightarrow> tr_nodeId ref \<noteq> [] \<and> tr_turnId ref \<noteq> []"

definition or_unknown :: "jstr \<Rightarrow> jstr" where
  "or_unknown s = (if s = [] then js ''unknown'' else s)"

definition normalizeSource :: "TrustSource \<Rightarrow> TrustSource" where
  "normalizeSource s =
     \<lparr>ts_tool = clip (or_unknown (js_trim (ts_tool s))), ts_runtimeId = clip (or_unknown (js_trim (ts_runtimeId s))),
      ts_detail = (case ts_detail s of None \<Rightarrow> None | Some d \<Rightarrow> if js_trim d = [] then None else Some (clip (js_trim d)))\<rparr>"

definition turn_rows :: "TurnRef \<Rightarrow> trust_state \<Rightarrow> trust_row list" where
  "turn_rows ref st = filter (\<lambda>r. row_ref r = ref) (z_rows st)"

definition insertSource :: "TurnRef \<Rightarrow> source_key \<Rightarrow> TrustSource \<Rightarrow> int \<Rightarrow> trust_state \<Rightarrow> trust_state" where
  "insertSource ref key s now st =
     (if MAX_SOURCES_PER_TURN \<le> length (turn_rows ref st) \<or> key \<in> row_key ` set (turn_rows ref st) then st
      else st\<lparr>z_rows := z_rows st @ [\<lparr>row_ref = ref, row_key = key, row_source = s, row_recordedAt = now\<rparr>]\<rparr>)"

datatype db_mode = DbClosed | DbOpen | DbFails

definition keep_unsaved :: "source_key \<Rightarrow> TrustSource \<Rightarrow> TrackedTurn \<Rightarrow> TrackedTurn" where
  "keep_unsaved key s t = (if length (tt_unsaved t) < MAX_SOURCES_PER_TURN then t\<lparr>tt_unsaved := AList.update key s (tt_unsaved t)\<rparr> else t)"

text \<open>The flag tells that the write failed, which the caller learns as an exception.\<close>

definition record_source :: "db_mode \<Rightarrow> TurnRef \<Rightarrow> TrustSource \<Rightarrow> int \<Rightarrow> trust_state \<Rightarrow> bool \<times> trust_state" where
  "record_source db ref source now st =
     (let s = normalizeSource source; key = sourceKey s; (t, st1) = trackedTurn ref st
      in if key \<in> set (tt_recorded t) then (False, st1)
         else let t1 = (if length (tt_recorded t) < MAX_CALLS_PER_TURN then t\<lparr>tt_recorded := tt_recorded t @ [key]\<rparr> else t)
              in case db of
                   DbClosed \<Rightarrow> (False, put_turn ref (keep_unsaved key s t1) st1)
                 | DbOpen \<Rightarrow> (False, insertSource ref key s now (put_turn ref t1 st1))
                 | DbFails \<Rightarrow> (True, put_turn ref (keep_unsaved key s t1) st1))"

text \<open>Without a node or a turn the function throws before it records.\<close>

definition recordUntrustedSource :: "db_mode \<Rightarrow> TurnRef \<Rightarrow> TrustSource \<Rightarrow> int \<Rightarrow> trust_state \<Rightarrow> bool \<times> trust_state" where
  "recordUntrustedSource db ref source now st = (if \<not> validRef ref then (True, st) else record_source db ref source now st)"

definition row_report :: "trust_row \<Rightarrow> source_key \<times> TrustSource" where
  "row_report r = (row_key r, (row_source r)\<lparr>ts_detail := if truthy_str (ts_detail (row_source r)) then ts_detail (row_source r) else None\<rparr>)"

definition unsaved_of :: "TurnRef \<Rightarrow> trust_state \<Rightarrow> (source_key \<times> TrustSource) list" where
  "unsaved_of ref st = (case map_of (z_tracked st) (turnKey ref) of None \<Rightarrow> [] | Some t \<Rightarrow> tt_unsaved t)"

definition getTurnTrust :: "TurnRef \<Rightarrow> trust_state \<Rightarrow> bool \<times> TrustSource list" where
  "getTurnTrust ref st =
     (if \<not> validRef ref then (False, [])
      else let saved = fold (\<lambda>(k, s). AList.update k s) (map row_report (sort_key row_recordedAt (turn_rows ref st))) [];
               sources = fold (\<lambda>(k, s) m. if map_of m k = None then AList.update k s m else m) (unsaved_of ref st) saved;
               reports = map snd sources
           in (reports \<noteq> [], reports))"

definition activeTurnTrust :: "(jstr \<Rightarrow> jstr option) \<Rightarrow> jstr \<Rightarrow> trust_state \<Rightarrow> (jstr \<times> bool \<times> TrustSource list) option" where
  "activeTurnTrust active_turn nodeId st =
     (if nodeId = [] then None
      else map_option (\<lambda>turnId. (turnId, getTurnTrust \<lparr>tr_nodeId = nodeId, tr_turnId = turnId\<rparr> st)) (active_turn nodeId))"

section \<open>Runtime events\<close>

text \<open>The events the module looks at, with the fields it reads.\<close>

datatype trust_event =
    ToolCallEvent (ev_toolCallId: jstr) (ev_title: jstr) (ev_kindType: "jstr option") (ev_toolName: "jstr option")
      (ev_mcpServer: "jstr option") (ev_hostTool: "bool option")
  | SubagentToolEvent (ev_session: jstr) (ev_subCall: "jstr option") (ev_toolKind: "jstr option") (ev_isMessage: bool)
  | OtherEvent

definition is_word :: "nat \<Rightarrow> bool" where
  "is_word c \<longleftrightarrow> 48 \<le> c \<and> c \<le> 57 \<or> 65 \<le> c \<and> c \<le> 90 \<or> c = 95 \<or> 97 \<le> c \<and> c \<le> 122"

definition word_boundary :: "jstr \<Rightarrow> nat \<Rightarrow> bool" where
  "word_boundary s i \<longleftrightarrow> (0 < i \<and> is_word (s ! (i - 1))) \<noteq> (i < length s \<and> is_word (s ! i))"

definition WEB_WORDS :: regex where
  "WEB_WORDS = ralts [rlit_i ''web'', rseq [rlit_i ''http'', ropt (rlit_i ''s''), rlit_i ''://''], rlit_i ''url'',
     rlit_i ''fetch'', rlit_i ''browse'', rlit_i ''internet'']"

definition WEB_TITLE :: "jstr \<Rightarrow> bool" where
  "WEB_TITLE s \<longleftrightarrow> list_ex (\<lambda>i. word_boundary s i \<and> list_ex (\<lambda>(j, c). word_boundary s j) (rmatch s WEB_WORDS (i, []))) [0..<Suc (length s)]"

record ObservedCall =
  oc_id :: jstr
  oc_toolName :: jstr
  oc_mcpServer :: "jstr option"
  oc_hostTool :: "bool option"
  oc_kind :: "jstr option"
  oc_tool :: jstr
  oc_detail :: "jstr option"

fun acp_kind :: "jstr option \<Rightarrow> bool" where
  "acp_kind None \<longleftrightarrow> False"
| "acp_kind (Some k) \<longleftrightarrow> k \<in> set ACP_KINDS"

fun observedCall :: "trust_event \<Rightarrow> ObservedCall option" where
  "observedCall (ToolCallEvent i title kindType toolName mcpServer hostTool) =
     (let name = (case toolName of None \<Rightarrow> [] | Some n \<Rightarrow> js_trim n);
          kind = (if acp_kind kindType \<and> WEB_TITLE title then Some (js ''fetch'') else kindType)
      in if name \<noteq> []
         then Some \<lparr>oc_id = i, oc_toolName = name, oc_mcpServer = mcpServer, oc_hostTool = hostTool,
                oc_kind = (if truthy_str kind then kind else None), oc_tool = name,
                oc_detail = (if truthy_str mcpServer then Some (js ''mcp:'' @ the mcpServer) else None)\<rparr>
         else if \<not> truthy_str kind \<or> \<not> acp_kind kindType then None
         else Some \<lparr>oc_id = i, oc_toolName = [], oc_mcpServer = None, oc_hostTool = None, oc_kind = kind, oc_tool = the kind,
                oc_detail = (if title = [] then None else Some title)\<rparr>)"
| "observedCall (SubagentToolEvent session call toolKind isMessage) =
     (let name = (case toolKind of None \<Rightarrow> [] | Some n \<Rightarrow> js_trim n)
      in if name = [] \<or> isMessage then None
         else Some \<lparr>oc_id = js ''subagent'' @ [0] @ session @ [0] @ default_to call name, oc_toolName = name, oc_mcpServer = None,
                oc_hostTool = None, oc_kind = None, oc_tool = name, oc_detail = Some (js ''subagent:'' @ session)\<rparr>)"
| "observedCall OtherEvent = None"

definition call_verdict :: "jstr option \<Rightarrow> ObservedCall \<Rightarrow> ToolTrust" where
  "call_verdict runtimeId c = classifyToolTrust
     \<lparr>ti_runtimeId = default_to runtimeId (js ''unknown''), ti_toolName = oc_toolName c, ti_mcpServer = oc_mcpServer c,
      ti_hostTool = oc_hostTool c, ti_kind = oc_kind c\<rparr>"

definition nodeRuntimeId :: "(jstr \<Rightarrow> jstr option) \<Rightarrow> jstr \<Rightarrow> jstr" where
  "nodeRuntimeId node_runtime nodeId = (if truthy_str (node_runtime nodeId) then the (node_runtime nodeId) else js ''unknown'')"

definition observeTurnTrust ::
  "(jstr \<Rightarrow> jstr option) \<Rightarrow> db_mode \<Rightarrow> TurnRef \<Rightarrow> jstr option \<Rightarrow> trust_event \<Rightarrow> int \<Rightarrow> trust_state \<Rightarrow> trust_state" where
  "observeTurnTrust node_runtime db ref runtimeId ev now st = (case observedCall ev of
      None \<Rightarrow> st
    | Some call \<Rightarrow>
        if \<not> validRef ref then st
        else let (t, st1) = trackedTurn ref st
             in if oc_id call \<noteq> [] \<and> oc_id call \<in> set (tt_calls t) then st1
                else let verdict = call_verdict runtimeId call;
                         judged = oc_id call \<noteq> [] \<and> (oc_toolName call \<noteq> [] \<or> verdict = Untrusted) \<and> length (tt_calls t) < MAX_CALLS_PER_TURN;
                         st2 = (if judged then put_turn ref (t\<lparr>tt_calls := tt_calls t @ [oc_id call]\<rparr>) st1 else st1)
                     in if verdict = Trusted then st2
                        else let source = \<lparr>ts_tool = oc_tool call,
                                    ts_runtimeId = default_to runtimeId (if db = DbClosed then js ''unknown'' else nodeRuntimeId node_runtime (tr_nodeId ref)),
                                    ts_detail = oc_detail call\<rparr>
                             in snd (if db = DbClosed then record_source DbClosed ref source now st2
                                     else recordUntrustedSource db ref source now st2))"

definition purge_node :: "jstr \<Rightarrow> trust_state \<Rightarrow> trust_state" where
  "purge_node nodeId st = st\<lparr>z_rows := filter (\<lambda>r. tr_nodeId (row_ref r) \<noteq> nodeId) (z_rows st)\<rparr>"

section \<open>Lemmas\<close>

abbreviation turn_of :: "TurnRef \<Rightarrow> trust_state \<Rightarrow> TrackedTurn option" where
  "turn_of ref st \<equiv> map_of (z_tracked st) (turnKey ref)"

definition named_node :: "TurnRef \<Rightarrow> bool" where
  \<comment> \<open>node identifiers have no NUL\<close>
  "named_node ref \<longleftrightarrow> 0 \<notin> set (tr_nodeId ref)"

lemma append_zero_inj: "a @ 0 # b = c @ 0 # d \<Longrightarrow> 0 \<notin> set a \<Longrightarrow> 0 \<notin> set c \<Longrightarrow> a = c \<and> b = (d :: nat list)"
  by (induction a arbitrary: c) (auto simp: Cons_eq_append_conv append_eq_Cons_conv)

lemma turnKey_inj: "turnKey r = turnKey s \<Longrightarrow> named_node r \<Longrightarrow> named_node s \<Longrightarrow> r = s"
  using append_zero_inj [of "tr_nodeId r" "tr_turnId r" "tr_nodeId s" "tr_turnId s"] by (simp add: turnKey_def named_node_def)

text \<open>A fetched turn is in the map; the others are there as before, or evicted.\<close>

lemma map_of_tl: "distinct (map fst xs) \<Longrightarrow> map_of (tl xs) k = Some v \<Longrightarrow> map_of xs k = Some v"
  by (cases xs) (auto dest: map_of_SomeD intro: rev_image_eqI)

lemma trackedTurn_cases:
  assumes "trackedTurn ref st = (t, st1)" "distinct (map fst (z_tracked st))"
  shows "turn_of ref st1 = Some t \<and> z_rows st1 = z_rows st \<and> (turn_of ref st = Some t \<or> turn_of ref st = None \<and> t = fresh_turn)
    \<and> (\<forall>k u. k \<noteq> turnKey ref \<longrightarrow> map_of (z_tracked st1) k = Some u \<longrightarrow> map_of (z_tracked st) k = Some u)
    \<and> distinct (map fst (z_tracked st1))"
proof (cases "turn_of ref st")
  case None
  let ?more = "z_tracked st @ [(turnKey ref, fresh_turn)]"
  have t: "t = fresh_turn" "z_tracked st1 = (if MAX_TRACKED_TURNS < length ?more then tl ?more else ?more)" "z_rows st1 = z_rows st"
    using assms(1) None by (auto simp: trackedTurn_def Let_def)
  have d: "distinct (map fst ?more)" using assms(2) None by (auto simp: map_of_eq_None_iff)
  then have d': "distinct (map fst (z_tracked st1))" unfolding t(2) by (auto simp: map_tl distinct_tl)
  have "(turnKey ref, fresh_turn) \<in> set (z_tracked st1)"
    unfolding t(2) by (cases "z_tracked st") (auto simp: MAX_TRACKED_TURNS_def)
  then have "turn_of ref st1 = Some t" using d' t(1) by simp
  moreover have "map_of (z_tracked st) k = Some u" if "k \<noteq> turnKey ref" "map_of (z_tracked st1) k = Some u" for k u
  proof -
    have "map_of ?more k = Some u" using that(2) map_of_tl [OF d] unfolding t(2) by (auto split: if_splits)
    with that(1) show ?thesis by (auto simp: map_add_Some_iff split: if_splits)
  qed
  ultimately show ?thesis using t d' None by blast
next
  case (Some u)
  with assms show ?thesis by (auto simp: trackedTurn_def)
qed

lemma put_turn_simps [simp]:
  "turn_of ref (put_turn ref t st) = Some t" "z_rows (put_turn ref t st) = z_rows st"
  "k \<noteq> turnKey ref \<Longrightarrow> map_of (z_tracked (put_turn ref t st)) k = map_of (z_tracked st) k"
  "distinct (map fst (z_tracked st)) \<Longrightarrow> distinct (map fst (z_tracked (put_turn ref t st)))"
  by (simp_all add: put_turn_def update_conv' distinct_update)

lemma insertSource_simps [simp]:
  "z_tracked (insertSource ref k s now st) = z_tracked st"
  "set (z_rows st) \<subseteq> set (z_rows (insertSource ref k s now st))"
  by (auto simp: insertSource_def)

lemma insertSource_rows [simp]: "turn_rows ref (insertSource ref k s now st) \<noteq> []"
proof (cases "turn_rows ref st = []")
  case True
  then show ?thesis by (simp add: insertSource_def MAX_SOURCES_PER_TURN_def turn_rows_def)
next
  case False
  then show ?thesis by (auto simp: insertSource_def) (simp add: turn_rows_def)
qed

lemma insertSource_new: "r \<in> set (z_rows (insertSource ref k s now st)) \<Longrightarrow> r \<in> set (z_rows st) \<or> row_ref r = ref"
  by (auto simp: insertSource_def split: if_splits)

definition turn_before :: "TurnRef \<Rightarrow> trust_state \<Rightarrow> TrackedTurn" where
  "turn_before ref st = default_to (turn_of ref st) fresh_turn"

text \<open>What an operation on one turn leaves of the others, and of the rows.\<close>

definition local_to :: "TurnRef \<Rightarrow> trust_state \<Rightarrow> trust_state \<Rightarrow> bool" where
  "local_to ref st st' \<longleftrightarrow> distinct (map fst (z_tracked st'))
     \<and> (\<forall>k u. k \<noteq> turnKey ref \<longrightarrow> map_of (z_tracked st') k = Some u \<longrightarrow> map_of (z_tracked st) k = Some u)
     \<and> set (z_rows st) \<subseteq> set (z_rows st') \<and> (\<forall>r \<in> set (z_rows st'). r \<in> set (z_rows st) \<or> row_ref r = ref)"

lemma local_to_refl: "distinct (map fst (z_tracked st)) \<Longrightarrow> local_to ref st st"
  by (simp add: local_to_def)

lemma local_to_trans: "local_to ref st st1 \<Longrightarrow> local_to ref st1 st2 \<Longrightarrow> local_to ref st st2"
  unfolding local_to_def by (metis subset_trans)

lemma local_to_steps:
  assumes "distinct (map fst (z_tracked st))"
  shows "trackedTurn ref st = (t, st1) \<Longrightarrow> local_to ref st st1 \<and> turn_of ref st1 = Some t \<and> t = turn_before ref st"
    "local_to ref st (put_turn ref u st)" "local_to ref st (insertSource ref k s now st)"
proof -
  show "trackedTurn ref st = (t, st1) \<Longrightarrow> local_to ref st st1 \<and> turn_of ref st1 = Some t \<and> t = turn_before ref st"
    using trackedTurn_cases [OF _ assms] by (fastforce simp: local_to_def turn_before_def)
  show "local_to ref st (insertSource ref k s now st)" unfolding local_to_def
    using assms insertSource_new [of _ ref k s now st] insertSource_simps(2) [of st ref k s now] by auto
qed (use assms in \<open>simp add: local_to_def\<close>)

lemma record_source_effect:
  assumes "record_source db ref s now st = (b, st')" "distinct (map fst (z_tracked st))"
  shows "local_to ref st st' \<and> (\<exists>t'. turn_of ref st' = Some t' \<and> tt_calls t' = tt_calls (turn_before ref st))
    \<and> (db = DbOpen \<longrightarrow> turn_rows ref st' \<noteq> [] \<or> tt_recorded (turn_before ref st) \<noteq> [] \<and> turn_of ref st' = Some (turn_before ref st))"
proof -
  obtain t st1 where t: "trackedTurn ref st = (t, st1)" by fastforce
  note fetched = local_to_steps(1) [OF assms(2) t]
  then have d1: "distinct (map fst (z_tracked st1))" by (simp add: local_to_def)
  note put = local_to_steps(2) [OF d1]
  have d2: "distinct (map fst (z_tracked (put_turn ref u st1)))" for u using put [of ref u] by (simp add: local_to_def)
  show ?thesis
  proof (cases "sourceKey (normalizeSource s) \<in> set (tt_recorded t)")
    case True
    with assms(1) t have "st' = st1" by (simp add: record_source_def Let_def)
    with True fetched show ?thesis by auto
  next
    case False
    let ?s = "normalizeSource s"
    have loc: "local_to ref st (put_turn ref u st1)" for u using local_to_trans fetched put by blast
    have ins: "local_to ref st (insertSource ref (sourceKey ?s) ?s now (put_turn ref u st1))" for u
      using local_to_trans [OF loc local_to_steps(3) [OF d2]] .
    from False show ?thesis using assms(1) t fetched loc ins
      by (auto simp: record_source_def Let_def keep_unsaved_def split: db_mode.splits)
  qed
qed

section \<open>Histories\<close>

datatype trust_op =
    Observe db_mode TurnRef "jstr option" trust_event int
  | RecordSource db_mode TurnRef TrustSource int
  | PurgeNode jstr

fun trust_step :: "(jstr \<Rightarrow> jstr option) \<Rightarrow> trust_state \<Rightarrow> trust_op \<Rightarrow> trust_state" where
  "trust_step nr st (Observe db ref rt ev now) = observeTurnTrust nr db ref rt ev now st"
| "trust_step nr st (RecordSource db ref s now) = snd (recordUntrustedSource db ref s now st)"
| "trust_step nr st (PurgeNode n) = purge_node n st"

definition empty_trust :: trust_state where
  "empty_trust = \<lparr>z_rows = [], z_tracked = []\<rparr>"

fun on_turn :: "TurnRef \<Rightarrow> trust_op \<Rightarrow> bool" where
  "on_turn ref (Observe db r rt ev now) \<longleftrightarrow> r = ref"
| "on_turn ref (RecordSource db r s now) \<longleftrightarrow> r = ref"
| "on_turn ref (PurgeNode n) \<longleftrightarrow> False"

fun writes_ok :: "trust_op \<Rightarrow> bool" where
  "writes_ok (Observe db r rt ev now) \<longleftrightarrow> db = DbOpen"
| "writes_ok (RecordSource db r s now) \<longleftrightarrow> db = DbOpen"
| "writes_ok (PurgeNode n) \<longleftrightarrow> True"

fun named_op :: "trust_op \<Rightarrow> bool" where
  "named_op (Observe db r rt ev now) \<longleftrightarrow> named_node r"
| "named_op (RecordSource db r s now) \<longleftrightarrow> named_node r"
| "named_op (PurgeNode n) \<longleftrightarrow> True"

text \<open>The operation observed a call of the turn under this identifier, by a name that is trusted.\<close>

fun named_trusted :: "TurnRef \<Rightarrow> jstr \<Rightarrow> trust_op \<Rightarrow> bool" where
  "named_trusted ref i (Observe db r rt ev now) \<longleftrightarrow> r = ref \<and>
     (case observedCall ev of None \<Rightarrow> False | Some c \<Rightarrow> oc_id c = i \<and> oc_toolName c \<noteq> [] \<and> call_verdict rt c = Trusted)"
| "named_trusted ref i (RecordSource db r s now) \<longleftrightarrow> False"
| "named_trusted ref i (PurgeNode n) \<longleftrightarrow> False"

text \<open>The operation brought outside content into the turn.\<close>

fun brings :: "TurnRef \<Rightarrow> trust_op \<Rightarrow> bool" where
  "brings ref (Observe db r rt ev now) \<longleftrightarrow> r = ref \<and> (case observedCall ev of None \<Rightarrow> False | Some c \<Rightarrow> call_verdict rt c = Untrusted)"
| "brings ref (RecordSource db r s now) \<longleftrightarrow> r = ref"
| "brings ref (PurgeNode n) \<longleftrightarrow> False"

lemma ToolTrust_not [simp]: "v \<noteq> Trusted \<longleftrightarrow> v = Untrusted" "v \<noteq> Untrusted \<longleftrightarrow> v = Trusted"
  by (cases v; simp)+

lemma turn_before_Some: "turn_of ref st = Some t \<Longrightarrow> turn_before ref st = t"
  by (simp add: turn_before_def)

text \<open>The call is noted as judged, then recorded when it is untrusted.\<close>

definition noted :: "TurnRef \<Rightarrow> jstr option \<Rightarrow> ObservedCall \<Rightarrow> TrackedTurn \<Rightarrow> trust_state \<Rightarrow> trust_state" where
  "noted ref rt c t st = (if oc_id c \<noteq> [] \<and> (oc_toolName c \<noteq> [] \<or> call_verdict rt c = Untrusted) \<and> length (tt_calls t) < MAX_CALLS_PER_TURN
     then put_turn ref (t\<lparr>tt_calls := tt_calls t @ [oc_id c]\<rparr>) st else st)"

lemma noted_effect:
  assumes "distinct (map fst (z_tracked st))" "turn_of ref st = Some t"
  shows "local_to ref st (noted ref rt c t st)" "tt_recorded (turn_before ref (noted ref rt c t st)) = tt_recorded t"
    "set (tt_calls (turn_before ref (noted ref rt c t st)))
      \<subseteq> set (tt_calls t) \<union> (if oc_toolName c \<noteq> [] \<or> call_verdict rt c = Untrusted then {oc_id c} else {})"
  using assms local_to_steps(2) [OF assms(1)] local_to_refl [OF assms(1)] by (auto simp: noted_def turn_before_def)

lemma noted_keeps:
  assumes "turn_of ref st = Some t"
  shows "z_rows (noted ref rt c t st) = z_rows st" "turn_of ref (noted ref rt c t st) = Some t' \<Longrightarrow> tt_unsaved t' = tt_unsaved t"
  using assms by (auto simp: noted_def split: if_splits)

lemma observe_cases:
  fixes st :: trust_state
  assumes "trackedTurn ref st = (t, st1)"
  obtains (none) "observedCall ev = None \<or> \<not> validRef ref" "observeTurnTrust nr db ref rt ev now st = st"
  | (known) c where "observedCall ev = Some c" "validRef ref" "oc_id c \<in> set (tt_calls t)" "observeTurnTrust nr db ref rt ev now st = st1"
  | (trusted) c where "observedCall ev = Some c" "validRef ref" "call_verdict rt c = Trusted"
      "observeTurnTrust nr db ref rt ev now st = noted ref rt c t st1"
  | (untrusted) c s where "observedCall ev = Some c" "validRef ref" "call_verdict rt c = Untrusted"
      "observeTurnTrust nr db ref rt ev now st = snd (record_source db ref s now (noted ref rt c t st1))"
proof (cases "observedCall ev")
  case (Some c)
  consider "\<not> validRef ref" | "validRef ref" "oc_id c \<noteq> []" "oc_id c \<in> set (tt_calls t)"
    | "validRef ref" "oc_id c = [] \<or> oc_id c \<notin> set (tt_calls t)" by blast
  then show thesis
  proof cases
    case 3
    let ?s = "\<lparr>ts_tool = oc_tool c, ts_runtimeId = default_to rt
       (if db = DbClosed then js ''unknown'' else nodeRuntimeId nr (tr_nodeId ref)), ts_detail = oc_detail c\<rparr>"
    have "observeTurnTrust nr db ref rt ev now st
        = (if call_verdict rt c = Trusted then noted ref rt c t st1 else snd (record_source db ref ?s now (noted ref rt c t st1)))"
      using 3 Some assms by (auto simp: observeTurnTrust_def noted_def Let_def recordUntrustedSource_def)
    then show thesis using Some 3(1) trusted [of c] untrusted [of c ?s] by (cases "call_verdict rt c") simp_all
  qed (use Some none known assms in \<open>auto simp: observeTurnTrust_def\<close>)
qed (use none in \<open>simp add: observeTurnTrust_def\<close>)

text \<open>What observing an event does to its turn: its locality, the calls it adds, and that outside content leaves a row.\<close>

lemma observe_effect:
  assumes d: "distinct (map fst (z_tracked st))" and st': "st' = observeTurnTrust nr db ref rt ev now st"
  shows "local_to ref st st' \<and> set (tt_calls (turn_before ref st')) \<subseteq> set (tt_calls (turn_before ref st))
        \<union> {i. \<exists>c. observedCall ev = Some c \<and> oc_id c = i \<and> (oc_toolName c \<noteq> [] \<or> call_verdict rt c = Untrusted)}
    \<and> (db = DbOpen \<longrightarrow> tt_recorded (turn_before ref st') \<noteq> [] \<longrightarrow> tt_recorded (turn_before ref st) \<noteq> [] \<or> turn_rows ref st' \<noteq> [])
    \<and> (db = DbOpen \<longrightarrow> validRef ref \<longrightarrow> (\<forall>c. observedCall ev = Some c \<longrightarrow> call_verdict rt c = Untrusted \<longrightarrow>
         turn_rows ref st' \<noteq> [] \<or> tt_recorded (turn_before ref st) \<noteq> [] \<or> oc_id c \<in> set (tt_calls (turn_before ref st))))"
proof -
  obtain t st1 where t: "trackedTurn ref st = (t, st1)" by fastforce
  note f = local_to_steps(1) [OF d t]
  then have d1: "distinct (map fst (z_tracked st1))" and b1: "turn_of ref st1 = Some t" by (simp_all add: local_to_def)
  note n = noted_effect [OF d1 b1, of rt]
  from t show ?thesis
  proof (cases rule: observe_cases [of ref st t st1 ev nr db rt now])
    case none
    then show ?thesis using local_to_refl [OF d] st' by auto
  next
    case (known c)
    then show ?thesis using f b1 st' by (auto simp: turn_before_def)
  next
    case (trusted c)
    then show ?thesis using f n [of c] st' local_to_trans [of ref st st1] by (auto split: if_splits)
  next
    case (untrusted c s)
    then obtain b where r: "record_source db ref s now (noted ref rt c t st1) = (b, st')" using st' by (metis prod.collapse)
    have l: "local_to ref st (noted ref rt c t st1)" using f n(1) local_to_trans by blast
    then have "distinct (map fst (z_tracked (noted ref rt c t st1)))" by (simp add: local_to_def)
    note e = record_source_effect [OF r this]
    have calls: "tt_calls (turn_before ref st') = tt_calls (turn_before ref (noted ref rt c t st1))" using e by (auto simp: turn_before_def)
    have loc: "local_to ref st st'" using local_to_trans l e by blast
    show ?thesis using loc calls e n(2,3) [of c] untrusted f by (auto split: if_splits)
  qed
qed

text \<open>What a history with a working database guarantees about one turn.\<close>

definition accounted :: "TurnRef \<Rightarrow> trust_op list \<Rightarrow> trust_state \<Rightarrow> bool" where
  "accounted ref ops st \<longleftrightarrow> distinct (map fst (z_tracked st))
     \<and> (tt_recorded (turn_before ref st) \<noteq> [] \<longrightarrow> turn_rows ref st \<noteq> [])
     \<and> (\<forall>i \<in> set (tt_calls (turn_before ref st)). turn_rows ref st \<noteq> [] \<or> list_ex (named_trusted ref i) ops)"

lemma turn_rows_mono: "set (z_rows st) \<subseteq> set (z_rows st') \<Longrightarrow> turn_rows ref st \<noteq> [] \<Longrightarrow> turn_rows ref st' \<noteq> []"
  by (fastforce simp: turn_rows_def filter_empty_conv)

lemma local_rows: "local_to r st st' \<Longrightarrow> turn_rows ref st \<noteq> [] \<Longrightarrow> turn_rows ref st' \<noteq> []"
  using turn_rows_mono unfolding local_to_def by blast

lemma local_other:
  assumes "local_to r st st'" "turnKey r \<noteq> turnKey ref"
  shows "turn_before ref st' = turn_before ref st \<or> turn_before ref st' = fresh_turn"
proof (cases "turn_of ref st'")
  case (Some t)
  then have "turn_of ref st = Some t" using assms unfolding local_to_def by metis
  with Some show ?thesis by (simp add: turn_before_def)
qed (simp add: turn_before_def)

lemma accounted_other:
  assumes "accounted ref ops st" "local_to r st st'" "turnKey r \<noteq> turnKey ref"
  shows "accounted ref (ops @ [op]) st'"
  using local_other [OF assms(2,3)] assms(1,2) local_rows [OF assms(2), of ref]
  by (auto simp: accounted_def local_to_def fresh_turn_def)

lemma record_effect:
  assumes "distinct (map fst (z_tracked st))" "st' = snd (recordUntrustedSource db ref s now st)"
  shows "local_to ref st st' \<and> tt_calls (turn_before ref st') = tt_calls (turn_before ref st)
    \<and> (db = DbOpen \<longrightarrow> tt_recorded (turn_before ref st') \<noteq> [] \<longrightarrow> tt_recorded (turn_before ref st) \<noteq> [] \<or> turn_rows ref st' \<noteq> [])"
proof (cases "validRef ref")
  case True
  then obtain b where "record_source db ref s now st = (b, st')" using assms(2) by (metis prod.collapse recordUntrustedSource_def)
  from record_source_effect [OF this assms(1)] show ?thesis by (auto simp: turn_before_def)
qed (use assms local_to_refl in \<open>simp add: recordUntrustedSource_def\<close>)

lemma purge_other: "n \<noteq> tr_nodeId ref \<Longrightarrow> turn_rows ref (purge_node n st) = turn_rows ref st"
  by (auto simp: turn_rows_def purge_node_def intro!: filter_cong)

lemma accounted_observe:
  assumes acc: "accounted ref ops st" "validRef ref"
  shows "accounted ref (ops @ [Observe DbOpen ref rt ev now]) (observeTurnTrust nr DbOpen ref rt ev now st)"
proof -
  let ?st' = "observeTurnTrust nr DbOpen ref rt ev now st"
  have d: "distinct (map fst (z_tracked st))" using acc by (simp add: accounted_def)
  note e = observe_effect [OF d refl, where nr = nr and db = DbOpen and ref = ref and rt = rt and ev = ev and now = now]
  have mono: "turn_rows ref st \<noteq> [] \<Longrightarrow> turn_rows ref ?st' \<noteq> []" using local_rows e by blast
  have "turn_rows ref ?st' \<noteq> [] \<or> list_ex (named_trusted ref i) (ops @ [Observe DbOpen ref rt ev now])"
    if i: "i \<in> set (tt_calls (turn_before ref ?st'))" for i
  proof -
    consider "i \<in> set (tt_calls (turn_before ref st))"
      | c where "observedCall ev = Some c" "oc_id c = i" "oc_toolName c \<noteq> []" "call_verdict rt c = Trusted"
      | c where "observedCall ev = Some c" "oc_id c = i" "call_verdict rt c = Untrusted"
      using subsetD [OF conjunct1 [OF conjunct2 [OF e]] i] ToolTrust_not(2) by blast
    then show ?thesis
    proof cases
      case 3
      then have "turn_rows ref ?st' \<noteq> [] \<or> tt_recorded (turn_before ref st) \<noteq> [] \<or> i \<in> set (tt_calls (turn_before ref st))"
        using conjunct2 [OF conjunct2 [OF conjunct2 [OF e]]] acc(2) by blast
      then show ?thesis using acc mono by (auto simp: accounted_def)
    qed (use acc mono in \<open>auto simp: accounted_def\<close>)
  qed
  then show ?thesis using e acc mono unfolding accounted_def by (auto simp: local_to_def)
qed

lemma accounted_step:
  assumes acc: "accounted ref ops st" "validRef ref"
    and ok: "named_node ref" "named_op op" "on_turn ref op \<longrightarrow> writes_ok op" "op \<noteq> PurgeNode (tr_nodeId ref)"
  shows "accounted ref (ops @ [op]) (trust_step nr st op)
    \<and> (turn_rows ref st \<noteq> [] \<longrightarrow> turn_rows ref (trust_step nr st op) \<noteq> [])"
proof -
  have d: "distinct (map fst (z_tracked st))" using acc by (simp add: accounted_def)
  have key: "turnKey r \<noteq> turnKey ref" if "r \<noteq> ref" "named_node r" for r using turnKey_inj ok(1) that by blast
  show ?thesis
  proof (cases op)
    case (Observe db r rt ev now)
    note loc = conjunct1 [OF observe_effect [OF d refl, where nr = nr and db = db and ref = r and rt = rt and ev = ev and now = now]]
    show ?thesis
    proof (cases "r = ref")
      case True
      with Observe ok have "db = DbOpen" by simp
      with Observe True show ?thesis using accounted_observe [OF acc] local_rows [OF loc] by simp
    next
      case False
      then show ?thesis using accounted_other [OF acc(1) loc] local_rows [OF loc] key Observe ok(2) by simp
    qed
  next
    case (RecordSource db r s now)
    note e = record_effect [OF d refl, where db = db and ref = r and s = s and now = now]
    show ?thesis
    proof (cases "r = ref")
      case True
      with RecordSource ok have "db = DbOpen" by simp
      with RecordSource True show ?thesis using e acc local_rows [of ref st _ ref] by (auto simp: accounted_def local_to_def)
    next
      case False
      then show ?thesis using accounted_other [OF acc(1) conjunct1 [OF e]] local_rows [OF conjunct1 [OF e]] key RecordSource ok(2) by simp
    qed
  next
    case (PurgeNode n)
    then have "turn_rows ref (purge_node n st) = turn_rows ref st" using ok(4) purge_other by simp
    with PurgeNode acc show ?thesis by (auto simp: accounted_def turn_before_def purge_node_def)
  qed
qed

lemma accounted_run:
  assumes "accounted ref pre st" "validRef ref" "named_node ref"
    and "\<And>op. op \<in> set ops \<Longrightarrow> named_op op \<and> (on_turn ref op \<longrightarrow> writes_ok op) \<and> op \<noteq> PurgeNode (tr_nodeId ref)"
  shows "accounted ref (pre @ ops) (foldl (trust_step nr) st ops)
    \<and> (turn_rows ref st \<noteq> [] \<longrightarrow> turn_rows ref (foldl (trust_step nr) st ops) \<noteq> [])"
  using assms(1,4)
proof (induction ops arbitrary: pre st)
  case (Cons op ops)
  have "accounted ref (pre @ [op]) (trust_step nr st op)
      \<and> (turn_rows ref st \<noteq> [] \<longrightarrow> turn_rows ref (trust_step nr st op) \<noteq> [])"
    using accounted_step [OF Cons.prems(1) assms(2,3)] Cons.prems(2) [of op] by simp
  then show ?case using Cons.IH [of "pre @ [op]" "trust_step nr st op"] Cons.prems(2) by fastforce
qed simp

lemma fold_update_nonempty:
  "xs \<noteq> [] \<or> m \<noteq> [] \<Longrightarrow> fold (\<lambda>(k, s). AList.update k s) xs m \<noteq> []"
proof (induction xs arbitrary: m)
  case (Cons x xs)
  obtain k s where x: "x = (k, s)" by (cases x)
  have "AList.update k s m \<noteq> []" by (cases m) auto
  with Cons.IH [of "AList.update k s m"] x show ?case by simp
qed simp

lemma fold_add_missing:
  "fold (\<lambda>(k, s) m. if map_of m k = None then AList.update k s m else m) xs m = [] \<longleftrightarrow> xs = [] \<and> m = []"
proof (induction xs arbitrary: m)
  case (Cons x xs)
  obtain k s where x: "x = (k, s)" by (cases x)
  have "(if map_of m k = None then AList.update k s m else m) \<noteq> []" by (cases m) auto
  with Cons.IH [of "if map_of m k = None then AList.update k s m else m"] x show ?case by simp
qed simp

text \<open>A report is empty exactly when nothing is stored for the turn.\<close>

lemma getTurnTrust_iff:
  "fst (getTurnTrust ref st) \<longleftrightarrow> validRef ref \<and> (turn_rows ref st \<noteq> [] \<or> unsaved_of ref st \<noteq> [])"
proof -
  let ?rows = "map row_report (sort_key row_recordedAt (turn_rows ref st))"
  have "fold (\<lambda>(k, s). AList.update k s) ?rows [] = [] \<longleftrightarrow> turn_rows ref st = []"
  proof -
    have "?rows = [] \<longleftrightarrow> turn_rows ref st = []" by (metis length_0_conv length_map length_sort)
    then show ?thesis using fold_update_nonempty [of ?rows "[]"] by auto
  qed
  then show ?thesis by (auto simp: getTurnTrust_def Let_def fold_add_missing simp del: fold_map)
qed

section \<open>Theorems\<close>

text \<open>C3: outside content is remembered. When a turn observes a call that is judged untrusted, and no earlier event named
  that same call as a trusted tool, the turn is reported as untrusted from then on - whatever the other
  turns do, however many turns are tracked or forgotten, and however often calls repeat - as long as the
  writes for this turn succeed and its node is not purged.\<close>
theorem untrusted_call_taints:
  assumes "observedCall ev = Some c" "call_verdict rt c = Untrusted" "validRef ref" "named_node ref"
    and "list_all (\<lambda>op. named_op op \<and> (on_turn ref op \<longrightarrow> writes_ok op) \<and> op \<noteq> PurgeNode (tr_nodeId ref)) (pre @ post)"
    and "\<not> list_ex (named_trusted ref (oc_id c)) pre"
  shows "fst (getTurnTrust ref (foldl (trust_step nr) empty_trust (pre @ Observe DbOpen ref rt ev now # post)))"
proof -
  let ?st = "foldl (trust_step nr) empty_trust pre" and ?op = "Observe DbOpen ref rt ev now"
  let ?st' = "trust_step nr ?st ?op"
  have start: "accounted ref [] empty_trust" by (simp add: accounted_def empty_trust_def turn_before_def fresh_turn_def)
  have acc: "accounted ref pre ?st"
    using accounted_run [OF start assms(3,4), of pre nr] assms(5) by (simp add: list_all_iff)
  then have d: "distinct (map fst (z_tracked ?st))" by (simp add: accounted_def)
  have "turn_rows ref ?st' \<noteq> [] \<or> tt_recorded (turn_before ref ?st) \<noteq> [] \<or> oc_id c \<in> set (tt_calls (turn_before ref ?st))"
    using observe_effect [OF d refl, where nr = nr and db = DbOpen and ref = ref and rt = rt and ev = ev and now = now] assms(1-3) by simp
  moreover have step: "accounted ref (pre @ [?op]) ?st' \<and> (turn_rows ref ?st \<noteq> [] \<longrightarrow> turn_rows ref ?st' \<noteq> [])"
    using accounted_step [OF acc assms(3,4), of ?op] assms(4) by simp
  ultimately have "turn_rows ref ?st' \<noteq> []" using acc assms(6) unfolding accounted_def by blast
  then have "turn_rows ref (foldl (trust_step nr) ?st' post) \<noteq> []"
    using accounted_run [OF conjunct1 [OF step] assms(3,4), of post nr] assms(5) by (simp add: list_all_iff)
  then show ?thesis using assms(3) by (simp add: getTurnTrust_iff)
qed

text \<open>Where a report comes from.\<close>

definition traced :: "trust_op list \<Rightarrow> trust_state \<Rightarrow> bool" where
  "traced ops st \<longleftrightarrow> distinct (map fst (z_tracked st))
     \<and> (\<forall>r \<in> set (z_rows st). list_ex (brings (row_ref r)) ops)
     \<and> (\<forall>k t. map_of (z_tracked st) k = Some t \<longrightarrow> tt_unsaved t \<noteq> [] \<longrightarrow> (\<exists>ref. k = turnKey ref \<and> named_node ref \<and> list_ex (brings ref) ops))"

lemma traced_local:
  assumes "traced ops st" "local_to ref st st'" "named_node ref"
    and "brings ref op \<or> set (z_rows st') \<subseteq> set (z_rows st) \<and> (\<forall>t'. turn_of ref st' = Some t' \<longrightarrow> tt_unsaved t' = tt_unsaved (turn_before ref st))"
  shows "traced (ops @ [op]) st'"
proof -
  have "list_ex (brings (row_ref r)) (ops @ [op])" if "r \<in> set (z_rows st')" for r
    using assms(1,2,4) that unfolding traced_def local_to_def by auto
  moreover have "\<exists>s. k = turnKey s \<and> named_node s \<and> list_ex (brings s) (ops @ [op])"
    if k: "map_of (z_tracked st') k = Some t" "tt_unsaved t \<noteq> []" for k t
  proof (cases "k = turnKey ref")
    case False
    then have "map_of (z_tracked st) k = Some t" using assms(2) k(1) unfolding local_to_def by blast
    with k(2) assms(1) show ?thesis unfolding traced_def by fastforce
  next
    case True
    show ?thesis
    proof (cases "brings ref op")
      case False
      then have "tt_unsaved (turn_before ref st) \<noteq> []" using assms(4) k True by auto
      then have "\<exists>t0. turn_of ref st = Some t0 \<and> tt_unsaved t0 \<noteq> []"
        by (cases "turn_of ref st") (auto simp: turn_before_def fresh_turn_def)
      then show ?thesis using assms(1) True unfolding traced_def by fastforce
    qed (use True assms(3) in auto)
  qed
  ultimately show ?thesis using assms(2) unfolding traced_def local_to_def by blast
qed

lemma traced_step:
  assumes "traced ops st" "named_op op"
  shows "traced (ops @ [op]) (trust_step nr st op)"
proof (cases op)
  case (Observe db ref rt ev now)
  have d: "distinct (map fst (z_tracked st))" using assms by (simp add: traced_def)
  obtain t st1 where t: "trackedTurn ref st = (t, st1)" by fastforce
  have loc: "local_to ref st (observeTurnTrust nr db ref rt ev now st)"
    using observe_effect [OF d refl, where nr = nr and db = db and ref = ref and rt = rt and ev = ev and now = now] by blast
  have "brings ref op \<or> z_rows (observeTurnTrust nr db ref rt ev now st) = z_rows st
      \<and> (\<forall>t'. turn_of ref (observeTurnTrust nr db ref rt ev now st) = Some t' \<longrightarrow> tt_unsaved t' = tt_unsaved (turn_before ref st))"
  proof -
    have f: "z_rows st1 = z_rows st" "turn_of ref st1 = Some t" "t = turn_before ref st"
      using trackedTurn_cases [OF t d] local_to_steps(1) [OF d t] by blast+
    from t show ?thesis
    proof (cases rule: observe_cases [of ref st t st1 ev nr db rt now])
      case none
      then show ?thesis by (simp add: turn_before_def)
    next
      case (known c)
      then show ?thesis using f by simp
    next
      case (trusted c)
      then show ?thesis using f noted_keeps [OF f(2)] by simp
    qed (simp add: Observe)
  qed
  then show ?thesis using traced_local [OF assms(1) loc] Observe assms(2) by auto
next
  case (RecordSource db ref s now)
  have "distinct (map fst (z_tracked st))" using assms by (simp add: traced_def)
  from record_effect [OF this refl, where db = db and ref = ref and s = s and now = now]
  have "local_to ref st (snd (recordUntrustedSource db ref s now st))" by blast
  then show ?thesis using traced_local [OF assms(1)] RecordSource assms(2) by simp
next
  case (PurgeNode n)
  with assms(1) show ?thesis unfolding traced_def by (fastforce simp: purge_node_def)
qed

text \<open>A turn is reported as untrusted only for its own sake: some event of this very turn was judged untrusted, or
  a tool recorded a source for it. Content read by other turns, of the same chat or of others, does not
  count.\<close>
theorem untrusted_only_for_own_sources:
  assumes "list_all named_op ops" "named_node ref" "fst (getTurnTrust ref (foldl (trust_step nr) empty_trust ops))"
  shows "list_ex (brings ref) ops"
proof -
  let ?st = "foldl (trust_step nr) empty_trust ops"
  have tr: "traced ops ?st" using assms(1)
  proof (induction ops rule: rev_induct)
    case (snoc op ops)
    then show ?case using traced_step by simp
  qed (simp add: traced_def empty_trust_def)
  from assms(3) consider r where "r \<in> set (z_rows ?st)" "row_ref r = ref"
    | t where "turn_of ref ?st = Some t" "tt_unsaved t \<noteq> []"
    by (auto simp: getTurnTrust_iff turn_rows_def filter_empty_conv unsaved_of_def split: option.splits)
  then show ?thesis
  proof cases
    case 2
    then obtain s where "turnKey ref = turnKey s" "named_node s" "list_ex (brings s) ops" using tr unfolding traced_def by blast
    then show ?thesis using turnKey_inj assms(2) by blast
  qed (use tr in \<open>auto simp: traced_def\<close>)
qed

section \<open>Bounds\<close>

definition turn_bounded :: "TrackedTurn \<Rightarrow> bool" where
  "turn_bounded t \<longleftrightarrow> length (tt_calls t) \<le> 4096 \<and> length (tt_recorded t) \<le> 4096 \<and> length (tt_unsaved t) \<le> 50"

definition trust_bounded :: "trust_state \<Rightarrow> bool" where
  "trust_bounded st \<longleftrightarrow> length (z_tracked st) \<le> 256 \<and> distinct (map fst (z_tracked st)) \<and> (\<forall>p \<in> set (z_tracked st). turn_bounded (snd p))
     \<and> (\<forall>ref. length (turn_rows ref st) \<le> 50) \<and> distinct (map (\<lambda>r. (row_ref r, row_key r)) (z_rows st))"

lemma length_update: "length (AList.update k v xs) = (if k \<in> fst ` set xs then length xs else Suc (length xs))"
  by (induction xs) auto

lemma bounded_tracked:
  assumes "trust_bounded st" "trackedTurn ref st = (t, st1)"
  shows "trust_bounded st1 \<and> turn_of ref st1 = Some t \<and> turn_bounded t"
proof -
  have d: "distinct (map fst (z_tracked st))" using assms(1) by (simp add: trust_bounded_def)
  have ok: "turn_bounded u" if "(k, u) \<in> set (z_tracked st)" for k u using assms(1) that by (force simp: trust_bounded_def)
  have fresh: "turn_bounded fresh_turn" by (simp add: turn_bounded_def fresh_turn_def)
  note c = trackedTurn_cases [OF assms(2) d]
  have t: "turn_bounded t" using c ok fresh by (auto dest: map_of_SomeD)
  have "set (tl (z_tracked st @ [(turnKey ref, fresh_turn)])) \<subseteq> set (z_tracked st) \<union> {(turnKey ref, fresh_turn)}"
    by (cases "z_tracked st") auto
  then have sub: "set (z_tracked st1) \<subseteq> set (z_tracked st) \<union> {(turnKey ref, fresh_turn)}"
    and len: "length (z_tracked st1) \<le> max 256 (length (z_tracked st))"
    using assms(2) by (auto simp: trackedTurn_def Let_def MAX_TRACKED_TURNS_def split: option.splits if_splits)
  have "turn_bounded (snd p)" if "p \<in> set (z_tracked st1)" for p using sub ok [of "fst p" "snd p"] fresh that by auto
  then have "\<forall>p \<in> set (z_tracked st1). turn_bounded (snd p)" by blast
  then show ?thesis using t c len assms(1) by (simp add: trust_bounded_def turn_rows_def)
qed

lemma bounded_put:
  assumes "trust_bounded st" "turn_of ref st \<noteq> None" "turn_bounded t"
  shows "trust_bounded (put_turn ref t st) \<and> turn_of ref (put_turn ref t st) \<noteq> None"
proof -
  have "turnKey ref \<in> fst ` set (z_tracked st)" using assms(2) by (metis map_of_eq_None_iff)
  moreover have "set (AList.update (turnKey ref) t (z_tracked st)) \<subseteq> insert (turnKey ref, t) (set (z_tracked st))" by (rule set_update_subset)
  ultimately have "\<forall>p \<in> set (AList.update (turnKey ref) t (z_tracked st)). turn_bounded (snd p)"
    "length (AList.update (turnKey ref) t (z_tracked st)) = length (z_tracked st)"
    using assms(1,3) by (fastforce simp: trust_bounded_def) (use \<open>turnKey ref \<in> fst ` set (z_tracked st)\<close> in \<open>simp add: length_update\<close>)
  then show ?thesis using assms(1) by (simp add: trust_bounded_def put_turn_def distinct_update turn_rows_def update_conv')
qed

lemma bounded_insert: "trust_bounded st \<Longrightarrow> trust_bounded (insertSource ref k s now st)"
  by (auto simp: trust_bounded_def insertSource_def turn_rows_def MAX_SOURCES_PER_TURN_def)

lemma turn_bounded_keep: "turn_bounded t \<Longrightarrow> turn_bounded (keep_unsaved k s t)"
  by (auto simp: turn_bounded_def keep_unsaved_def MAX_SOURCES_PER_TURN_def length_update)

lemma bounded_record:
  assumes "trust_bounded st"
  shows "trust_bounded (snd (record_source db ref s now st))"
proof -
  obtain t st1 where t: "trackedTurn ref st = (t, st1)" by fastforce
  note b = bounded_tracked [OF assms t]
  define m where "m = (if length (tt_recorded t) < MAX_CALLS_PER_TURN then t\<lparr>tt_recorded := tt_recorded t @ [sourceKey (normalizeSource s)]\<rparr> else t)"
  have "turn_bounded m" using b by (auto simp: m_def turn_bounded_def MAX_CALLS_PER_TURN_def)
  then have "trust_bounded (put_turn ref m st1)" "trust_bounded (put_turn ref (keep_unsaved k x m) st1)" for k x
    using b bounded_put [of st1 ref] turn_bounded_keep by auto
  then show ?thesis using b
    unfolding record_source_def Let_def t prod.case m_def [symmetric] by (auto simp: bounded_insert split: db_mode.split)
qed

lemma bounded_step: "trust_bounded st \<Longrightarrow> trust_bounded (trust_step nr st op)"
proof (cases op)
  case (Observe db ref rt ev now)
  assume b: "trust_bounded st"
  obtain t st1 where t: "trackedTurn ref st = (t, st1)" by fastforce
  note f = bounded_tracked [OF b t]
  have n: "trust_bounded (noted ref rt c t st1)" for c
    using f bounded_put [of st1 ref "t\<lparr>tt_calls := tt_calls t @ [oc_id c]\<rparr>"]
    by (auto simp: noted_def turn_bounded_def MAX_CALLS_PER_TURN_def)
  from t have "trust_bounded (observeTurnTrust nr db ref rt ev now st)"
    by (cases rule: observe_cases [of ref st t st1 ev nr db rt now]) (simp_all add: b f n bounded_record)
  with Observe show ?thesis by simp
next
  case (RecordSource db ref s now)
  assume "trust_bounded st"
  with RecordSource show ?thesis by (simp add: recordUntrustedSource_def bounded_record)
next
  case (PurgeNode n)
  assume b: "trust_bounded st"
  have "turn_rows ref (purge_node n st) = (if tr_nodeId ref = n then [] else turn_rows ref st)" for ref
    by (auto simp: turn_rows_def purge_node_def filter_empty_conv intro: filter_cong)
  then have "\<forall>ref. length (turn_rows ref (purge_node n st)) \<le> 50" using b by (simp add: trust_bounded_def)
  moreover have "distinct (map (\<lambda>r. (row_ref r, row_key r)) (z_rows (purge_node n st)))"
    using b by (simp add: trust_bounded_def purge_node_def distinct_map_filter)
  moreover have "z_tracked (purge_node n st) = z_tracked st" by (simp add: purge_node_def)
  ultimately show ?thesis using b PurgeNode by (simp add: trust_bounded_def)
qed

interpretation turn_trust: invariant_machine "trust_step nr" "\<lambda>_. True" trust_bounded
  by unfold_locales (rule bounded_step)

text \<open>Memory and rows stay bounded in every history: at most 256 turns are tracked, each with at most 4096 calls and
  sources noted and 50 unsaved sources, and a turn has at most 50 rows, each source once.\<close>
theorem trust_memory_bounded:
  "trust_bounded (foldl (trust_step nr) empty_trust ops)"
proof -
  have "trust_bounded empty_trust" by (simp add: trust_bounded_def empty_trust_def turn_rows_def)
  then show ?thesis using turn_trust.inv_run by (simp add: list_all_iff)
qed

section \<open>Witnesses and limits\<close>

definition demo_ref :: TurnRef where
  "demo_ref = \<lparr>tr_nodeId = [1], tr_turnId = [2]\<rparr>"

definition demo_shell :: trust_event where
  "demo_shell = ToolCallEvent [5] [] None (Some (js ''Bash'')) None None"

definition demo_shell_call :: ObservedCall where
  "demo_shell_call = \<lparr>oc_id = [5], oc_toolName = js ''Bash'', oc_mcpServer = None, oc_hostTool = None, oc_kind = None,
     oc_tool = js ''Bash'', oc_detail = None\<rparr>"

lemma demo_shell_observed: "observedCall demo_shell = Some demo_shell_call"
  by (simp add: demo_shell_def demo_shell_call_def Let_def js_def js_trim_def is_ws_def)

lemma demo_shell_untrusted: "call_verdict rt demo_shell_call = Untrusted"
  by (simp add: call_verdict_def demo_shell_call_def classifyToolTrust_def UNTRUSTED_TOOL_NAMES_def js_def js_trim_def is_ws_def)

lemma demo_ref_ok: "validRef demo_ref" "named_node demo_ref" "tr_nodeId demo_ref = [1]"
  by (simp_all add: demo_ref_def validRef_def named_node_def)

theorem untrusted_call_taints_witness:
  "fst (getTurnTrust demo_ref (foldl (trust_step (\<lambda>_. None)) empty_trust
     ([Observe DbClosed \<lparr>tr_nodeId = [1], tr_turnId = [3]\<rparr> None demo_shell 0] @ Observe DbOpen demo_ref None demo_shell 1 # [PurgeNode [9]])))"
  by (rule untrusted_call_taints [OF demo_shell_observed demo_shell_untrusted demo_ref_ok(1,2)])
    (simp_all add: demo_ref_ok, simp_all add: demo_ref_def named_node_def)

theorem untrusted_only_for_own_sources_witness:
  "list_ex (brings demo_ref) [Observe DbOpen demo_ref None demo_shell 1]"
proof (rule untrusted_only_for_own_sources)
  have "distinct (map fst (z_tracked empty_trust))" by (simp add: empty_trust_def)
  from observe_effect [OF this refl, where nr = "\<lambda>_. None" and db = DbOpen and ref = demo_ref and rt = None and ev = demo_shell and now = 1]
  have "turn_rows demo_ref (observeTurnTrust (\<lambda>_. None) DbOpen demo_ref None demo_shell 1 empty_trust) \<noteq> []"
    by (simp add: demo_shell_observed demo_shell_untrusted demo_ref_ok turn_before_def empty_trust_def fresh_turn_def)
  then show "fst (getTurnTrust demo_ref (foldl (trust_step (\<lambda>_. None)) empty_trust [Observe DbOpen demo_ref None demo_shell 1]))"
    by (simp add: getTurnTrust_iff demo_ref_ok)
qed (simp_all add: demo_ref_ok)

text \<open>A server whose name only begins like Michi's is taken for Michi's own when its tool comes with a raw name.\<close>

lemma lookalike_server_trusted:
  "classifyToolTrust \<lparr>ti_runtimeId = js ''kiro'', ti_toolName = js ''mcp_michi_helper_fetch_page'', ti_mcpServer = None,
     ti_hostTool = None, ti_kind = None\<rparr> = Trusted
   \<and> classifyToolTrust \<lparr>ti_runtimeId = js ''kiro'', ti_toolName = js ''fetch_page'', ti_mcpServer = Some (js ''michi_helper''),
     ti_hostTool = None, ti_kind = None\<rparr> = Untrusted"
  by (simp add: classifyToolTrust_def is_host_tool_def tool_server_def mcpServerOfName_def UNTRUSTED_TOOL_NAMES_def MICHI_MCP_SERVERS_def
      js_trim_def is_ws_def js_def starts_with_def)

end
