(* ===== verification/Path_Sandbox.thy ===== *)
theory Path_Sandbox
  imports Michi_Prelude "HOL-Library.Sublist"
begin

text \<open>
  The path sandbox of the tools (\<^verbatim>\<open>runtime/src/core/pathSandbox.ts\<close>) on POSIX: which paths a tool may touch. What it
  uses of \<^verbatim>\<open>node:path\<close> is written out first, on the segments between the slashes. The real path of a file
  (\<open>fs.realpathSync.native\<close>, which throws for what does not exist), the home directory and the working directory
  of the process are arguments; the last two are absolute paths. An error carries the path and the root it names.
\<close>

section \<open>POSIX paths\<close>

definition SLASH :: nat where "SLASH = 47"

definition DOT :: jstr where "DOT = [46]"

definition DOTDOT :: jstr where "DOTDOT = [46, 46]"

fun isAbsolute :: "jstr \<Rightarrow> bool" where
  "isAbsolute [] \<longleftrightarrow> False"
| "isAbsolute (c # s) \<longleftrightarrow> c = SLASH"

text \<open>The segments between slashes; empty ones and single dots mean nothing.\<close>

definition segments :: "jstr \<Rightarrow> jstr list" where
  "segments p = filter (\<lambda>c. c \<noteq> [] \<and> c \<noteq> DOT) (split_on SLASH p)"

definition norm_step :: "bool \<Rightarrow> jstr list \<Rightarrow> jstr \<Rightarrow> jstr list" where
  "norm_step allowUp out c =
     (if c \<noteq> DOTDOT then out @ [c]
      else if out \<noteq> [] \<and> last out \<noteq> DOTDOT then butlast out
      else if allowUp then out @ [c] else out)"

definition norm_segments :: "bool \<Rightarrow> jstr list \<Rightarrow> jstr list" where
  "norm_segments allowUp cs = foldl (norm_step allowUp) [] cs"

fun join_segments :: "jstr list \<Rightarrow> jstr" where
  "join_segments [] = []"
| "join_segments [c] = c"
| "join_segments (c # cs) = c @ SLASH # join_segments cs"

definition absolute_of :: "jstr list \<Rightarrow> jstr" where
  "absolute_of cs = SLASH # join_segments cs"

definition path_normalize :: "jstr \<Rightarrow> jstr" where
  "path_normalize p =
     (if p = [] then DOT
      else let out = join_segments (norm_segments (\<not> isAbsolute p) (segments p));
               trailing = (last p = SLASH)
           in if out = [] then (if isAbsolute p then [SLASH] else if trailing then DOT @ [SLASH] else DOT)
              else (if isAbsolute p then [SLASH] else []) @ out @ (if trailing then [SLASH] else []))"

definition path_join :: "jstr list \<Rightarrow> jstr" where
  "path_join ps = (case filter (\<lambda>p. p \<noteq> []) ps of [] \<Rightarrow> DOT | qs \<Rightarrow> path_normalize (join_segments qs))"

definition onto :: "jstr \<Rightarrow> jstr \<Rightarrow> jstr" where
  "onto base p = (if isAbsolute p then p else base @ SLASH # p)"

text \<open>The segments of the path an argument stands for, from the working directory of the process.\<close>

definition abs_segments :: "jstr \<Rightarrow> jstr \<Rightarrow> jstr list" where
  "abs_segments pcwd p = norm_segments False (segments (onto pcwd p))"

definition path_resolve :: "jstr \<Rightarrow> jstr \<Rightarrow> jstr" where
  "path_resolve pcwd p = absolute_of (abs_segments pcwd p)"

definition path_resolve2 :: "jstr \<Rightarrow> jstr \<Rightarrow> jstr \<Rightarrow> jstr" where
  "path_resolve2 pcwd base p = path_resolve pcwd (onto base p)"

fun strip_common :: "jstr list \<Rightarrow> jstr list \<Rightarrow> jstr list \<times> jstr list" where
  "strip_common (a # as) (b # bs) = (if a = b then strip_common as bs else (a # as, b # bs))"
| "strip_common as bs = (as, bs)"

definition path_relative :: "jstr \<Rightarrow> jstr \<Rightarrow> jstr \<Rightarrow> jstr" where
  "path_relative pcwd a b =
     (case strip_common (abs_segments pcwd a) (abs_segments pcwd b) of
        (as, bs) \<Rightarrow> join_segments (map (\<lambda>_. DOTDOT) as @ bs))"

text \<open>The last segment and what is before it, of a normalized absolute path.\<close>

definition path_basename :: "jstr \<Rightarrow> jstr" where
  "path_basename p = (case filter (\<lambda>c. c \<noteq> []) (split_on SLASH p) of [] \<Rightarrow> [] | cs \<Rightarrow> last cs)"

definition path_dirname :: "jstr \<Rightarrow> jstr" where
  "path_dirname p = absolute_of (butlast (filter (\<lambda>c. c \<noteq> []) (split_on SLASH p)))"

section \<open>The sandbox\<close>

definition is_unicode_space :: "nat \<Rightarrow> bool" where
  "is_unicode_space c \<longleftrightarrow> c = 160 \<or> 8192 \<le> c \<and> c \<le> 8202 \<or> c = 8239 \<or> c = 8287 \<or> c = 12288"

definition expandPath :: "jstr \<Rightarrow> jstr \<Rightarrow> jstr" where
  "expandPath home filePath =
     (let stripped = (if starts_with filePath (js ''@'') then drop 1 filePath else filePath);
          normalized = map (\<lambda>c. if is_unicode_space c then 32 else c) stripped
      in if normalized = js ''~'' then home
         else if starts_with normalized [126, SLASH] \<or> starts_with normalized [126, 92] then path_join [home, drop 2 normalized]
         else normalized)"

definition resolveToCwd :: "jstr \<Rightarrow> jstr \<Rightarrow> jstr \<Rightarrow> jstr \<Rightarrow> jstr" where
  "resolveToCwd pcwd home filePath cwd =
     (let expanded = expandPath home filePath in if isAbsolute expanded then expanded else path_resolve2 pcwd cwd expanded)"

definition normalizeWorkspaceCwd :: "jstr \<Rightarrow> (jstr \<Rightarrow> jstr option) \<Rightarrow> jstr \<Rightarrow> jstr" where
  "normalizeWorkspaceCwd pcwd realpath cwd = default_to (realpath (path_resolve pcwd cwd)) (path_resolve pcwd cwd)"

definition isWithinRoot :: "jstr \<Rightarrow> jstr \<Rightarrow> jstr \<Rightarrow> bool" where
  "isWithinRoot pcwd candidate root \<longleftrightarrow>
     (let relative = path_relative pcwd root candidate
      in relative = [] \<or> (relative \<noteq> DOTDOT \<and> \<not> starts_with relative (DOTDOT @ [SLASH]) \<and> \<not> isAbsolute relative))"

function canonical_loop :: "(jstr \<Rightarrow> jstr option) \<Rightarrow> jstr \<Rightarrow> jstr \<Rightarrow> jstr list \<Rightarrow> jstr" where
  "canonical_loop realpath resolved cursor missingTail = (case realpath cursor of
      Some real \<Rightarrow> path_join (real # rev missingTail)
    | None \<Rightarrow> let parent = path_dirname cursor
        in if parent = cursor then resolved
           else canonical_loop realpath resolved parent (missingTail @ [path_basename cursor]))"
  by pat_completeness auto

definition canonicalizePathForComparison :: "jstr \<Rightarrow> (jstr \<Rightarrow> jstr option) \<Rightarrow> jstr \<Rightarrow> jstr" where
  "canonicalizePathForComparison pcwd realpath p = canonical_loop realpath (path_resolve pcwd p) (path_resolve pcwd p) []"

definition isAllowedByRoot :: "jstr \<Rightarrow> (jstr \<Rightarrow> jstr option) \<Rightarrow> jstr \<Rightarrow> jstr \<Rightarrow> bool" where
  "isAllowedByRoot pcwd realpath absolutePath cwd =
     (let resolvedPath = path_resolve pcwd absolutePath; resolvedCwd = path_resolve pcwd cwd
      in if isWithinRoot pcwd resolvedPath resolvedCwd then True
         else let canonicalCwd = canonicalizePathForComparison pcwd realpath resolvedCwd
              in if isWithinRoot pcwd resolvedPath canonicalCwd then True
                 else isWithinRoot pcwd (canonicalizePathForComparison pcwd realpath resolvedPath) canonicalCwd)"

datatype path_error = PathSandboxError (attemptedPath: jstr) (error_cwd: jstr)

definition assertWithinCwd :: "jstr \<Rightarrow> (jstr \<Rightarrow> jstr option) \<Rightarrow> jstr \<Rightarrow> jstr \<Rightarrow> path_error + unit" where
  "assertWithinCwd pcwd realpath absolutePath cwd =
     (if isAllowedByRoot pcwd realpath absolutePath cwd then Inr () else Inl (PathSandboxError absolutePath cwd))"

definition assertPathAllowed :: "jstr \<Rightarrow> (jstr \<Rightarrow> jstr option) \<Rightarrow> jstr \<Rightarrow> jstr list \<Rightarrow> jstr option \<Rightarrow> path_error + unit" where
  "assertPathAllowed pcwd realpath absolutePath folders cwd =
     (let allowlist = folders @ (if folders = [] \<and> truthy_str cwd then [the cwd] else [])
      in if allowlist = [] then Inl (PathSandboxError absolutePath (js ''(no workspace directory)''))
         else if \<not> list_ex (isAllowedByRoot pcwd realpath absolutePath) allowlist then Inl (PathSandboxError absolutePath (hd allowlist))
         else Inr ())"

definition resolveWithinCwd :: "jstr \<Rightarrow> (jstr \<Rightarrow> jstr option) \<Rightarrow> jstr \<Rightarrow> jstr \<Rightarrow> jstr \<Rightarrow> path_error + jstr" where
  "resolveWithinCwd pcwd realpath home filePath cwd =
     (let a = resolveToCwd pcwd home filePath cwd in bind_sum (assertWithinCwd pcwd realpath a cwd) (\<lambda>_. Inr a))"

definition resolveWithinFolders :: "jstr \<Rightarrow> (jstr \<Rightarrow> jstr option) \<Rightarrow> jstr \<Rightarrow> jstr \<Rightarrow> jstr \<Rightarrow> jstr list \<Rightarrow> path_error + jstr" where
  "resolveWithinFolders pcwd realpath home filePath cwd folders =
     (let a = resolveToCwd pcwd home filePath cwd in bind_sum (assertPathAllowed pcwd realpath a folders (Some cwd)) (\<lambda>_. Inr a))"

section \<open>Segments\<close>

declare split_on_not_Nil [simp]

lemma split_on_append: "split_on d (a @ d # b) = split_on d a @ split_on d b"
  by (induction a) (auto split: list.splits)

lemma split_on_plain: "d \<notin> set s \<Longrightarrow> split_on d s = [s]"
  by (induction s) auto

lemma split_on_parts: "w \<in> set (split_on d s) \<Longrightarrow> d \<notin> set w"
  by (induction s arbitrary: w) (auto split: list.splits if_splits)

text \<open>A plain segment: what a normalized absolute path is made of.\<close>

definition plain :: "jstr \<Rightarrow> bool" where
  "plain c \<longleftrightarrow> c \<noteq> [] \<and> c \<noteq> DOT \<and> c \<noteq> DOTDOT \<and> SLASH \<notin> set c"

lemma split_join: "cs \<noteq> [] \<Longrightarrow> \<forall>c \<in> set cs. SLASH \<notin> set c \<Longrightarrow> split_on SLASH (join_segments cs) = cs"
  by (induction cs rule: join_segments.induct) (simp_all add: split_on_plain split_on_append)

lemma split_absolute:
  assumes "\<forall>c \<in> set cs. SLASH \<notin> set c"
  shows "split_on SLASH (absolute_of cs) = [] # (if cs = [] then [[]] else cs)"
  using assms split_join [of cs] by (simp add: absolute_of_def)

lemma segments_parts: "c \<in> set (segments p) \<Longrightarrow> c \<noteq> [] \<and> c \<noteq> DOT \<and> SLASH \<notin> set c"
  using split_on_parts by (auto simp: segments_def)

lemma segments_absolute: "list_all plain cs \<Longrightarrow> segments (absolute_of cs) = cs"
  by (auto simp: segments_def split_absolute list_all_iff plain_def filter_id_conv)

lemma norm_step_plain: "list_all plain out \<Longrightarrow> c \<noteq> [] \<and> c \<noteq> DOT \<and> SLASH \<notin> set c \<Longrightarrow> list_all plain (norm_step False out c)"
  by (auto simp: norm_step_def list_all_iff plain_def dest: in_set_butlastD)

lemma norm_segments_plain: "(\<And>c. c \<in> set cs \<Longrightarrow> c \<noteq> [] \<and> c \<noteq> DOT \<and> SLASH \<notin> set c) \<Longrightarrow> list_all plain (norm_segments False cs)"
  unfolding norm_segments_def by (induction cs rule: rev_induct) (simp_all add: norm_step_plain)

lemma norm_segments_id: "list_all plain cs \<Longrightarrow> norm_segments allowUp cs = cs"
  unfolding norm_segments_def by (induction cs rule: rev_induct) (simp_all add: norm_step_def plain_def)

lemma abs_segments_plain [simp]: "list_all plain (abs_segments pcwd p)"
  unfolding abs_segments_def by (rule norm_segments_plain) (rule segments_parts)

lemma isAbsolute_absolute [simp]: "isAbsolute (absolute_of cs)"
  by (simp add: absolute_of_def)

text \<open>Resolving is idempotent: a resolved path keeps its segments.\<close>

lemma abs_segments_absolute [simp]: "list_all plain cs \<Longrightarrow> abs_segments pcwd (absolute_of cs) = cs"
  by (simp add: abs_segments_def onto_def segments_absolute norm_segments_id)

lemma abs_segments_resolve [simp]: "abs_segments pcwd (path_resolve pcwd p) = abs_segments pcwd p"
  by (simp add: path_resolve_def)

section \<open>The lexical check\<close>

lemma strip_common_parts: "strip_common as bs = (xs, ys) \<Longrightarrow> (xs = [] \<longleftrightarrow> prefix as bs) \<and> set xs \<subseteq> set as \<and> set ys \<subseteq> set bs"
  by (induction as bs rule: strip_common.induct) (auto split: if_splits)

lemma starts_up: "starts_with s (DOTDOT @ [SLASH]) \<Longrightarrow> hd (split_on SLASH s) = DOTDOT"
  by (auto simp: starts_with_iff DOTDOT_def SLASH_def)

lemma join_plain:
  assumes "list_all plain bs"
  shows "join_segments bs \<noteq> DOTDOT \<and> \<not> starts_with (join_segments bs) (DOTDOT @ [SLASH]) \<and> \<not> isAbsolute (join_segments bs)"
proof (cases bs)
  case (Cons b bs')
  have b: "plain b" using assms Cons by simp
  have s: "split_on SLASH (join_segments bs) = bs" using assms Cons split_join [of bs] by (simp add: list_all_iff plain_def)
  have "split_on SLASH DOTDOT = [DOTDOT]" by (simp add: DOTDOT_def SLASH_def)
  moreover have "hd (split_on SLASH s) = []" if "isAbsolute s" for s using that by (cases s) auto
  ultimately show ?thesis using s starts_up [of "join_segments bs"] b Cons unfolding plain_def by (metis list.sel(1))
qed (simp add: DOTDOT_def starts_with_def)

lemma join_up: "join_segments (map (\<lambda>_. DOTDOT) (a # as) @ bs) = DOTDOT \<or> starts_with (join_segments (map (\<lambda>_. DOTDOT) (a # as) @ bs)) (DOTDOT @ [SLASH])"
  by (cases "map (\<lambda>_. DOTDOT) as @ bs") (auto simp: starts_with_def DOTDOT_def)

text \<open>The test on the text of the relative path decides exactly whether the segments of the root come first.\<close>

lemma isWithinRoot_prefix: "isWithinRoot pcwd candidate root \<longleftrightarrow> prefix (abs_segments pcwd root) (abs_segments pcwd candidate)"
proof -
  obtain as bs where s: "strip_common (abs_segments pcwd root) (abs_segments pcwd candidate) = (as, bs)" by fastforce
  note p = strip_common_parts [OF s]
  have rel: "path_relative pcwd root candidate = join_segments (map (\<lambda>_. DOTDOT) as @ bs)" by (simp add: path_relative_def s)
  show ?thesis
  proof (cases as)
    case Nil
    have "set bs \<subseteq> set (abs_segments pcwd candidate)" using p by blast
    then have "list_all plain bs" using abs_segments_plain [of pcwd candidate] by (auto simp: list_all_iff)
    from join_plain [OF this] show ?thesis using p Nil rel by (simp add: isWithinRoot_def)
  next
    case (Cons a as')
    have "join_segments (map (\<lambda>_. DOTDOT) as @ bs) \<noteq> []"
      using Cons by (cases "map (\<lambda>_. DOTDOT) as' @ bs") (auto simp: DOTDOT_def)
    then show ?thesis using p Cons rel join_up [of a as' bs] by (auto simp: isWithinRoot_def)
  qed
qed

section \<open>Canonical paths\<close>

definition parts :: "jstr \<Rightarrow> jstr list" where
  "parts p = filter (\<lambda>c. c \<noteq> []) (split_on SLASH p)"

lemma parts_absolute: "list_all plain cs \<Longrightarrow> parts (absolute_of cs) = cs"
  by (auto simp: parts_def split_absolute list_all_iff plain_def filter_id_conv)

lemma parts_absolute_gen: "\<forall>c \<in> set cs. c \<noteq> [] \<and> SLASH \<notin> set c \<Longrightarrow> parts (absolute_of cs) = cs"
  by (auto simp: parts_def split_absolute filter_id_conv)

lemma parts_parts: "c \<in> set (parts p) \<Longrightarrow> c \<noteq> [] \<and> SLASH \<notin> set c"
  using split_on_parts by (auto simp: parts_def)

lemma path_dirname_parts: "path_dirname p = absolute_of (butlast (parts p))"
  by (simp add: path_dirname_def parts_def)

lemma parts_dirname: "parts (path_dirname p) = butlast (parts p)"
  unfolding path_dirname_parts by (rule parts_absolute_gen) (blast dest: parts_parts in_set_butlastD)

termination canonical_loop
proof (relation "measures [\<lambda>(realpath, resolved, cursor, tail). length (parts cursor), \<lambda>(realpath, resolved, cursor, tail). if cursor = [SLASH] then 0 else 1]")
  fix realpath :: "jstr \<Rightarrow> jstr option" and resolved cursor tail :: "jstr list" and r c :: jstr and t :: "jstr list" and parent
  assume "parent = path_dirname c" "parent \<noteq> c"
  then show "((realpath, r, parent, t @ [path_basename c]), realpath, r, c, t)
      \<in> measures [\<lambda>(realpath, resolved, cursor, tail). length (parts cursor), \<lambda>(realpath, resolved, cursor, tail). if cursor = [SLASH] then 0 else 1]"
    by (cases "parts c = []") (auto simp: parts_dirname, auto simp: path_dirname_parts absolute_of_def)
qed simp

declare canonical_loop.simps [simp del]

lemma canonical_loop_segments:
  assumes "list_all plain cs"
  shows "canonical_loop realpath resolved (absolute_of cs) tail = (case realpath (absolute_of cs) of
      Some real \<Rightarrow> path_join (real # rev tail)
    | None \<Rightarrow> if cs = [] then resolved else canonical_loop realpath resolved (absolute_of (butlast cs)) (tail @ [last cs]))"
proof -
  have "path_dirname (absolute_of cs) = absolute_of (butlast cs)" using parts_absolute [OF assms] by (simp add: path_dirname_parts)
  moreover have "path_basename (absolute_of cs) = last cs" if "cs \<noteq> []"
    using parts_absolute [OF assms] that by (simp add: path_basename_def parts_def split: list.split)
  moreover have "absolute_of (butlast cs) = absolute_of cs \<longleftrightarrow> cs = []"
  proof
    assume e: "absolute_of (butlast cs) = absolute_of cs"
    have "list_all plain (butlast cs)" using assms by (auto simp: list_all_iff dest: in_set_butlastD)
    from parts_absolute [OF this] parts_absolute [OF assms] e have "butlast cs = cs" by simp
    then show "cs = []" by (cases cs rule: rev_cases) simp_all
  qed simp
  ultimately show ?thesis
    by (cases "cs = []"; subst canonical_loop.simps; simp add: Let_def split: option.split)
qed

text \<open>The longest existing prefix, by the number of its segments.\<close>

definition longest_real :: "(jstr \<Rightarrow> jstr option) \<Rightarrow> jstr list \<Rightarrow> nat option" where
  "longest_real realpath cs = find (\<lambda>k. realpath (absolute_of (take k cs)) \<noteq> None) (rev [0..<Suc (length cs)])"

lemma longest_real_snoc:
  "longest_real realpath (cs @ [c]) =
     (if realpath (absolute_of (cs @ [c])) \<noteq> None then Some (Suc (length cs)) else longest_real realpath cs)"
proof -
  have "find (\<lambda>k. realpath (absolute_of (take k (cs @ [c]))) \<noteq> None) (rev [0..<Suc (length cs)])
      = find (\<lambda>k. realpath (absolute_of (take k cs)) \<noteq> None) (rev [0..<Suc (length cs)])"
    by (rule find_cong) auto
  moreover have "rev [0..<Suc (length (cs @ [c]))] = Suc (length cs) # rev [0..<Suc (length cs)]" by simp
  ultimately show ?thesis by (simp only: longest_real_def find.simps) simp
qed

lemma longest_real_le: "longest_real realpath cs = Some k \<Longrightarrow> k \<le> length cs \<and> realpath (absolute_of (take k cs)) \<noteq> None
    \<and> (\<forall>j. k < j \<and> j \<le> length cs \<longrightarrow> realpath (absolute_of (take j cs)) = None)"
proof (induction cs arbitrary: k rule: rev_induct)
  case Nil
  then show ?case by (auto simp: longest_real_def split: if_splits)
next
  case (snoc c cs)
  show ?case
  proof (cases "realpath (absolute_of (cs @ [c]))")
    case None
    then have k: "longest_real realpath cs = Some k" using snoc.prems by (simp add: longest_real_snoc)
    have "realpath (absolute_of (take j (cs @ [c]))) = None" if "k < j" "j \<le> Suc (length cs)" for j
      using snoc.IH [OF k] None that by (cases "j = Suc (length cs)") auto
    with snoc.IH [OF k] show ?thesis by simp
  qed (use snoc.prems in \<open>auto simp: longest_real_snoc\<close>)
qed

lemma canonical_loop_spec:
  assumes "list_all plain (cs @ ds)"
  shows "canonical_loop realpath resolved (absolute_of cs) (rev ds) = (case longest_real realpath cs of
      None \<Rightarrow> resolved
    | Some k \<Rightarrow> path_join (the (realpath (absolute_of (take k cs))) # drop k (cs @ ds)))"
  using assms
proof (induction cs arbitrary: ds rule: rev_induct)
  case Nil
  then show ?case using canonical_loop_segments [of "[]" realpath resolved "rev ds"] by (auto simp: longest_real_def split: option.split)
next
  case (snoc c cs)
  show ?case
  proof (cases "realpath (absolute_of (cs @ [c]))")
    case (Some real)
    then show ?thesis using canonical_loop_segments [of "cs @ [c]" realpath resolved "rev ds"] snoc.prems
      by (simp add: longest_real_snoc)
  next
    case None
    have "canonical_loop realpath resolved (absolute_of (cs @ [c])) (rev ds) = canonical_loop realpath resolved (absolute_of cs) (rev (c # ds))"
      using canonical_loop_segments [of "cs @ [c]" realpath resolved "rev ds"] snoc.prems None by simp
    also have "\<dots> = (case longest_real realpath cs of
      None \<Rightarrow> resolved | Some k \<Rightarrow> path_join (the (realpath (absolute_of (take k cs))) # drop k (cs @ c # ds)))"
      using snoc.IH [of "c # ds"] snoc.prems by simp
    finally show ?thesis using None longest_real_le [of realpath cs] by (auto simp: longest_real_snoc split: option.split)
  qed
qed

section \<open>Theorems\<close>

text \<open>C18: finding the canonical path always returns: the real path of the longest existing prefix of the path, joined with
  the segments that do not exist; no longer prefix exists. A path of which nothing exists stays as it is.\<close>
theorem canonical_path_spec:
  "canonicalizePathForComparison pcwd realpath p = (let cs = abs_segments pcwd p in
     case longest_real realpath cs of None \<Rightarrow> path_resolve pcwd p
     | Some k \<Rightarrow> path_join (the (realpath (absolute_of (take k cs))) # drop k cs))"
  using canonical_loop_spec [of "abs_segments pcwd p" "[]" realpath "path_resolve pcwd p"]
  by (auto simp: canonicalizePathForComparison_def path_resolve_def Let_def split: option.split)

text \<open>The sandbox lets a path through exactly when, segment by segment, it lies at or below the root as written, or at
  or below the root's canonical path as written, or its canonical path does.\<close>
theorem sandbox_admits_exactly:
  "assertWithinCwd pcwd realpath p cwd = Inr () \<longleftrightarrow>
     (let canon = (\<lambda>q. abs_segments pcwd (canonicalizePathForComparison pcwd realpath q))
      in prefix (abs_segments pcwd cwd) (abs_segments pcwd p) \<or> prefix (canon cwd) (abs_segments pcwd p) \<or> prefix (canon cwd) (canon p))"
  by (simp add: assertWithinCwd_def isAllowedByRoot_def Let_def isWithinRoot_prefix canonicalizePathForComparison_def path_resolve_def)



lemma segments_Nil [simp]: "segments [] = []"
  by (simp add: segments_def)





text \<open>A path typed relative to the workspace comes out absolute and without dots, and admitted only if it is below the
  workspace, lexically or after links: no sequence of dot-dots leads a relative path out.\<close>
theorem relative_input_contained:
  assumes "resolveWithinCwd pcwd realpath home f cwd = Inr a" "\<not> isAbsolute (expandPath home f)"
  shows "a = absolute_of (abs_segments pcwd a) \<and> list_all plain (abs_segments pcwd a) \<and> assertWithinCwd pcwd realpath a cwd = Inr ()"
proof -
  have "a = resolveToCwd pcwd home f cwd" "assertWithinCwd pcwd realpath a cwd = Inr ()"
    using assms(1) by (auto simp: resolveWithinCwd_def Let_def bind_sum_Inr)
  then show ?thesis using assms(2) by (simp add: resolveToCwd_def Let_def path_resolve2_def path_resolve_def)
qed

text \<open>With several folders a path is admitted exactly when one of them admits it; without folders the working directory
  counts, and without either nothing is admitted. The error names the first folder.\<close>
theorem folders_admit_any:
  "assertPathAllowed pcwd realpath p folders cwd =
     (let roots = (if folders = [] \<and> truthy_str cwd then [the cwd] else folders)
      in if \<exists>root \<in> set roots. assertWithinCwd pcwd realpath p root = Inr () then Inr ()
         else Inl (PathSandboxError p (case roots of [] \<Rightarrow> js ''(no workspace directory)'' | root # _ \<Rightarrow> root)))"
  by (cases folders) (auto simp: assertPathAllowed_def assertWithinCwd_def list_ex_iff Let_def)


section \<open>Witnesses and limits\<close>

lemma path_eval: "SLASH = 47" "DOT = [46]" "DOTDOT = [46, 46]"
  by (simp_all add: SLASH_def DOT_def DOTDOT_def)

lemma demo_paths:
  "abs_segments pcwd (js ''/w'') = [js ''w'']" "abs_segments pcwd (js ''/w/a'') = [js ''w'', js ''a'']" "abs_segments pcwd (js ''/x'') = [js ''x'']"
  "abs_segments pcwd (js ''/w/l/../x'') = [js ''w'', js ''x'']"
  by (simp_all add: abs_segments_def onto_def segments_def norm_segments_def norm_step_def path_eval js_def)


lemma demo_relative:
  "resolveToCwd [47] (js ''/home'') (js ''b/../a'') (js ''/w'') = js ''/w/a''" "\<not> isAbsolute (expandPath (js ''/home'') (js ''b/../a''))"
  by (simp_all add: resolveToCwd_def expandPath_def path_resolve2_def path_resolve_def absolute_of_def abs_segments_def onto_def segments_def
      norm_segments_def norm_step_def path_eval js_def starts_with_def is_unicode_space_def)

theorem relative_input_contained_witness:
  "resolveWithinCwd [47] (\<lambda>_. None) (js ''/home'') (js ''b/../a'') (js ''/w'') = Inr (js ''/w/a'')
   \<and> js ''/w/a'' = absolute_of (abs_segments [47] (js ''/w/a''))"
proof -
  have "isAllowedByRoot [47] (\<lambda>_. None) (js ''/w/a'') (js ''/w'')"
    by (simp add: isAllowedByRoot_def Let_def isWithinRoot_prefix demo_paths)
  then have r: "resolveWithinCwd [47] (\<lambda>_. None) (js ''/home'') (js ''b/../a'') (js ''/w'') = Inr (js ''/w/a'')"
    by (simp add: resolveWithinCwd_def assertWithinCwd_def demo_relative)
  from relative_input_contained [OF r demo_relative(2)] r show ?thesis by blast
qed

text \<open>An absolute input keeps its dot-dots: the path is judged as \<open>/w/x\<close>, but what is handed to the tool still goes
  through \<open>l\<close>, which the system resolves first when it is a link.\<close>

lemma absolute_input_not_normalized:
  "resolveWithinCwd [47] realpath (js ''/home'') (js ''/w/l/../x'') (js ''/w'') = Inr (js ''/w/l/../x'')
   \<and> js ''/w/l/../x'' \<noteq> path_resolve [47] (js ''/w/l/../x'')"
proof -
  have a: "isAllowedByRoot [47] realpath (js ''/w/l/../x'') (js ''/w'')"
    by (simp add: isAllowedByRoot_def Let_def isWithinRoot_prefix demo_paths)
  have "resolveToCwd [47] (js ''/home'') (js ''/w/l/../x'') (js ''/w'') = js ''/w/l/../x''"
    by (simp add: resolveToCwd_def expandPath_def path_eval js_def starts_with_def is_unicode_space_def)
  moreover have "path_resolve [47] (js ''/w/l/../x'') = js ''/w/x''"
    by (simp add: path_resolve_def demo_paths) (simp add: absolute_of_def path_eval js_def)
  ultimately show ?thesis using a by (simp add: resolveWithinCwd_def assertWithinCwd_def)
qed

end
