(* ===== verification/Assistant_Blocks.thy ===== *)
theory Assistant_Blocks
  imports Turn_Projection Chat_Permissions "HOL-Library.Multiset"
begin

text \<open>
  Messages as the clients hold them, and their blocks (\<^verbatim>\<open>frontend/src/state/assistantBlocks.ts\<close>, the type
  \<open>ChatMessage\<close> of \<^verbatim>\<open>chatTypes.ts\<close>): the adapter that folds a stream event into a message with the durable
  projector, the block helpers, and the migration of replies stored before blocks existed. Members that the
  code only carries are kept as they came: comments, mentions and the selector of a quote are JavaScript values.
  An absent and an undefined member are both \<open>None\<close>.
\<close>

section \<open>Messages\<close>

record FileReadSnapshot =
  fs_hashKind :: jstr
  fs_contentHash :: jstr
  fs_resolvedFilePath :: jstr
  fs_rest :: jsval \<comment> \<open>where the file was read; only carried\<close>

datatype AnyQuoteSource =
    AttachedQuote
  | ArtifactQuote (qs_name: "jstr option") (qs_filePath: jstr) (qs_selector: "jsval option") (qs_snapshot: "FileReadSnapshot option")

text \<open>The source of a sent message, or what stored metadata held for it, which the code casts.\<close>

datatype message_quote = SentQuote AnyQuoteSource | StoredQuote jsval

record MessageAttachment =
  at_name :: jstr
  at_absPath :: jstr
  at_relPath :: "jstr option"

record ThreadMessageSource =
  th_fromNodeId :: jstr
  th_fromTitle :: "jstr option"

record ChatMessage =
  cm_id :: jstr
  cm_clientKey :: "jstr option"
  cm_queueId :: "jstr option"
  cm_role :: role
  cm_text :: jstr
  cm_toolCalls :: "DurableToolCall list"
  cm_blocks :: "DurableAssistantBlock list option"
  cm_steeringReports :: "SteeringReport list option"
  cm_steered :: "bool option"
  cm_scheduledJobId :: "jstr option"
  cm_streaming :: "bool option"
  cm_thought :: "jstr option"
  cm_plan :: "PlanEntry list option"
  cm_subagents :: "SubagentInfo list option"
  cm_createdAt :: "int option"
  cm_quotedText :: "jstr option"
  cm_quoteSource :: "message_quote option"
  cm_attachments :: "MessageAttachment list option"
  cm_comments :: "jsval option"
  cm_mentions :: "jsval option"
  cm_threadMessage :: "ThreadMessageSource option"
  cm_usageSummary :: "ChatStreamEvent option"
  cm_warnings :: "ChatStreamEvent list option"

definition blank_message :: "jstr \<Rightarrow> role \<Rightarrow> ChatMessage" where
  \<comment> \<open>an object literal with an id and a role, the other members left out\<close>
  "blank_message i r = \<lparr>cm_id = i, cm_clientKey = None, cm_queueId = None, cm_role = r, cm_text = [], cm_toolCalls = [],
     cm_blocks = None, cm_steeringReports = None, cm_steered = None, cm_scheduledJobId = None, cm_streaming = None,
     cm_thought = None, cm_plan = None, cm_subagents = None, cm_createdAt = None, cm_quotedText = None, cm_quoteSource = None,
     cm_attachments = None, cm_comments = None, cm_mentions = None, cm_threadMessage = None, cm_usageSummary = None, cm_warnings = None\<rparr>"

section \<open>Blocks\<close>

definition stableBlockId :: "ChatMessage \<Rightarrow> nat \<Rightarrow> jstr" where
  "stableBlockId message index = cm_id message @ js ''-b-'' @ decimal index"

definition nextClientBlockId :: "ChatMessage \<Rightarrow> DurableAssistantBlock list \<Rightarrow> jstr" where
  "nextClientBlockId message blocks = stableBlockId message (length blocks)"

fun isTextBlock :: "block_body \<Rightarrow> bool" where
  "isTextBlock (TextBlock _ _) = True"
| "isTextBlock _ = False"

definition cloneBlocks :: "DurableAssistantBlock list option \<Rightarrow> DurableAssistantBlock list" where
  "cloneBlocks blocks = default_to blocks []"

fun stop_streaming :: "block_body \<Rightarrow> block_body" where
  "stop_streaming (TextBlock k x) = TextBlock k (x\<lparr>x_streaming := Some False\<rparr>)"
| "stop_streaming b = b"

definition closeTrailingClientBlock :: "DurableAssistantBlock list \<Rightarrow> DurableAssistantBlock list" where
  "closeTrailingClientBlock blocks = (if blocks = [] then []
     else case last blocks of
        (i, TextBlock k x) \<Rightarrow> if x_streaming x \<noteq> Some False then butlast blocks @ [(i, stop_streaming (TextBlock k x))] else blocks
      | _ \<Rightarrow> blocks)"

definition assistantAnswerRawText :: "ChatMessage \<Rightarrow> jstr" where
  "assistantAnswerRawText m = (if cm_role m \<noteq> AssistantRole then cm_text m
     else case cm_blocks m of
        None \<Rightarrow> cm_text m
      | Some blocks \<Rightarrow> if blocks = [] then cm_text m
          else concat (map (\<lambda>b. case snd b of TextBlock AnswerSection x \<Rightarrow> x_rawText x | _ \<Rightarrow> []) blocks))"

definition assistantPersistenceContent :: "ChatMessage \<Rightarrow> jstr" where
  "assistantPersistenceContent m = (if cm_role m = AssistantRole then finalizeTurnContent (assistantAnswerRawText m) else cm_text m)"

definition assistantMetadata :: "ChatMessage \<Rightarrow> jstr option \<times> jstr option \<times> jstr list" where
  \<comment> \<open>title, overview and follow-ups\<close>
  "assistantMetadata m = (let metadata = extractTurnMetadata (assistantAnswerRawText m)
     in (t_title metadata, t_branchOverview metadata, default_to (t_followUps metadata) []))"

section \<open>The adapter around the durable projector\<close>

definition adapter_snapshot :: "ChatMessage \<Rightarrow> jstr \<Rightarrow> ChatStreamEvent \<Rightarrow> DurableTurnSnapshot" where
  "adapter_snapshot message workspaceId event = \<lparr>
     n_turnId = default_to (v_turnId event) (js ''frontend-'' @ cm_id message), n_nodeId = [], n_workspaceId = workspaceId,
     n_assistantId = cm_id message, n_userMessage = None, n_steeredMessages = None,
     n_assistantMessage = \<lparr>m_id = cm_id message, m_role = AssistantRole, m_content = [],
       m_blocks = default_to (cm_blocks message) [], m_toolCalls = cm_toolCalls message, m_plan = cm_plan message,
       m_subagents = cm_subagents message,
       m_metadata = Some \<lparr>dm_members = [], dm_steered = None, dm_usageSummary = cm_usageSummary message,
          dm_warnings = cm_warnings message, dm_steeringReports = cm_steeringReports message\<rparr>,
       m_createdAt = default_to (cm_createdAt message) 0\<rparr>,
     n_nodeMetadata = blank_node_metadata, n_status = TurnActive, n_stopReason = None, n_error = None,
     n_lastAppliedSeq = -1, n_startedAt = default_to (cm_createdAt message) 0, n_completedAt = None\<rparr>"

definition projectAssistantStreamEvent :: "int \<Rightarrow> ChatMessage \<Rightarrow> jstr \<Rightarrow> ChatStreamEvent \<Rightarrow> ChatMessage" where
  "projectAssistantStreamEvent now message workspaceId event =
     (if cm_role message \<noteq> AssistantRole then message
      else let projected = applyTurnEvent now (adapter_snapshot message workspaceId event) event;
               a = n_assistantMessage projected
           in message\<lparr>cm_blocks := Some (m_blocks a), cm_toolCalls := m_toolCalls a, cm_plan := m_plan a,
                cm_subagents := (case m_subagents a of Some r \<Rightarrow> Some r | None \<Rightarrow> cm_subagents message),
                cm_usageSummary := Option.bind (m_metadata a) dm_usageSummary,
                cm_warnings := Option.bind (m_metadata a) dm_warnings,
                cm_steeringReports := (case Option.bind (m_metadata a) dm_steeringReports of Some r \<Rightarrow> Some r
                   | None \<Rightarrow> cm_steeringReports message),
                cm_streaming := (if n_status projected = TurnActive then cm_streaming message else Some False)\<rparr>)"

section \<open>Placement and appending\<close>

text \<open>The loops walk the blocks from the last one; they are written over the reversed list.\<close>

fun client_section_back :: "DurableAssistantBlock list \<Rightarrow> section_kind" where
  "client_section_back [] = AnswerSection"
| "client_section_back (b # bs) = (case snd b of
     TextBlock k _ \<Rightarrow> k
   | ToolBlock _ k _ \<Rightarrow> k
   | UserInputBlock _ _ _ \<Rightarrow> AnswerSection
   | ImageBlock _ \<Rightarrow> client_section_back bs)"

definition clientCurrentSection :: "DurableAssistantBlock list \<Rightarrow> section_kind" where
  "clientCurrentSection blocks = client_section_back (rev blocks)"

fun client_run_back :: "section_kind \<Rightarrow> DurableAssistantBlock list \<Rightarrow> nat" where
  "client_run_back section [] = 0"
| "client_run_back section (b # bs) = (case (section, snd b) of
     (AnswerSection, TextBlock ThinkingSection _) \<Rightarrow> 0
   | (AnswerSection, TextBlock AnswerSection x) \<Rightarrow> length (x_rawText x) + client_run_back section bs
   | (ThinkingSection, TextBlock AnswerSection _) \<Rightarrow> 0
   | (ThinkingSection, TextBlock ThinkingSection x) \<Rightarrow> length (x_rawText x) + client_run_back section bs
   | _ \<Rightarrow> client_run_back section bs)"

definition currentRunRawLength :: "DurableAssistantBlock list \<Rightarrow> section_kind \<Rightarrow> nat" where
  "currentRunRawLength blocks section = client_run_back section (rev blocks)"

definition nextToolBlockPlacement :: "ChatMessage \<Rightarrow> section_kind \<times> nat" where
  "nextToolBlockPlacement message = (let blocks = cloneBlocks (cm_blocks message); section = clientCurrentSection blocks
     in (section, currentRunRawLength blocks section))"

definition push_client_block :: "ChatMessage \<Rightarrow> block_body \<Rightarrow> ChatMessage" where
  \<comment> \<open>close the trailing text block, push a block and return the message with the blocks\<close>
  "push_client_block message b = (let closed = closeTrailingClientBlock (cloneBlocks (cm_blocks message))
     in message\<lparr>cm_blocks := Some (closed @ [(nextClientBlockId message closed, b)])\<rparr>)"

definition append_text_block :: "section_kind \<Rightarrow> ChatMessage \<Rightarrow> jstr \<Rightarrow> ChatMessage" where
  "append_text_block kind message text =
     (let blocks = cloneBlocks (cm_blocks message);
          fresh = push_client_block message (TextBlock kind
            \<lparr>x_rawText = text, x_streaming = cm_streaming message, x_startedAt = None, x_endedAt = None\<rparr>)
      in if blocks = [] then fresh
         else case last blocks of
            (i, TextBlock k x) \<Rightarrow> if k = kind
              then message\<lparr>cm_blocks := Some (butlast blocks @
                     [(i, TextBlock k (x\<lparr>x_rawText := x_rawText x @ text, x_streaming := cm_streaming message\<rparr>))])\<rparr>
              else fresh
          | _ \<Rightarrow> fresh)"

definition appendAnswerBlockText :: "ChatMessage \<Rightarrow> jstr \<Rightarrow> ChatMessage" where
  "appendAnswerBlockText = append_text_block AnswerSection"

definition appendThinkingBlockText :: "ChatMessage \<Rightarrow> jstr \<Rightarrow> ChatMessage" where
  "appendThinkingBlockText = append_text_block ThinkingSection"

definition appendToolBlock :: "ChatMessage \<Rightarrow> jstr \<Rightarrow> ChatMessage" where
  "appendToolBlock message toolCallId = (case nextToolBlockPlacement message of
     (section, rawOffset) \<Rightarrow> push_client_block message (ToolBlock toolCallId section rawOffset))"

definition appendUserInputBlock :: "ChatMessage \<Rightarrow> int \<Rightarrow> ChatMessage" where
  "appendUserInputBlock message requestId =
     push_client_block message (UserInputBlock requestId None (currentRunRawLength (cloneBlocks (cm_blocks message)) AnswerSection))"

definition appendImageBlock :: "ChatMessage \<Rightarrow> image_block \<Rightarrow> ChatMessage" where
  "appendImageBlock message img = push_client_block message (ImageBlock img)"

definition finalizeAssistantBlocks :: "ChatMessage \<Rightarrow> ChatMessage" where
  "finalizeAssistantBlocks message = (if cm_role message \<noteq> AssistantRole then message
     else message\<lparr>cm_streaming := Some False,
            cm_blocks := Some (map (\<lambda>(i, b). (i, stop_streaming b)) (cloneBlocks (cm_blocks message)))\<rparr>)"

section \<open>Replies stored before blocks\<close>

definition contains_text :: "jstr \<Rightarrow> jstr \<Rightarrow> bool" where
  "contains_text s w \<longleftrightarrow> list_ex (\<lambda>i. starts_with (drop i s) w) [0..<Suc (length s)]"

definition validBlocks :: "DurableAssistantBlock list option \<Rightarrow> DurableAssistantBlock list option" where
  \<comment> \<open>what \<open>parseAssistantBlocks\<close> makes of blocks that are already typed: an array in which every block has an id\<close>
  "validBlocks blocks = (case blocks of None \<Rightarrow> None | Some bs \<Rightarrow> if list_all (\<lambda>b. fst b \<noteq> []) bs then Some bs else None)"

text \<open>One step of the map over the blocks: the parser, the reports so far and the blocks so far.\<close>

definition visible_part :: "SteeringSegment list \<Rightarrow> jstr" where
  "visible_part segments = concat (map seg_text segments)"

fun steer_block :: "KiroSteeringParser \<times> SteeringReport list \<times> DurableAssistantBlock list \<Rightarrow> DurableAssistantBlock
    \<Rightarrow> KiroSteeringParser \<times> SteeringReport list \<times> DurableAssistantBlock list" where
  "steer_block (p, reports, out) (i, TextBlock AnswerSection x) = (case push p (x_rawText x) of
     (p', segments) \<Rightarrow> (p', reports @ concat (map seg_reports segments),
        out @ [(i, TextBlock AnswerSection (x\<lparr>x_rawText := visible_part segments\<rparr>))]))"
| "steer_block (p, reports, out) b = (p, reports, out @ [b])"

fun append_tail_back :: "jstr \<Rightarrow> DurableAssistantBlock list \<Rightarrow> DurableAssistantBlock list" where
  \<comment> \<open>the search for the last answer block, over the reversed list\<close>
  "append_tail_back tail [] = []"
| "append_tail_back tail ((i, TextBlock AnswerSection x) # bs) = (i, TextBlock AnswerSection (x\<lparr>x_rawText := x_rawText x @ tail\<rparr>)) # bs"
| "append_tail_back tail (b # bs) = b # append_tail_back tail bs"

fun reoffset :: "nat \<Rightarrow> DurableAssistantBlock list \<Rightarrow> DurableAssistantBlock list" where
  "reoffset n [] = []"
| "reoffset n (b # bs) = (case b of
     (i, TextBlock AnswerSection x) \<Rightarrow> b # reoffset (n + length (x_rawText x)) bs
   | (i, TextBlock ThinkingSection x) \<Rightarrow> b # reoffset 0 bs
   | (i, ToolBlock t AnswerSection off) \<Rightarrow> (i, ToolBlock t AnswerSection n) # reoffset n bs
   | (i, UserInputBlock r ui off) \<Rightarrow> (i, UserInputBlock r ui n) # reoffset n bs
   | _ \<Rightarrow> b # reoffset n bs)"

definition extractLegacySteering :: "ChatMessage \<Rightarrow> ChatMessage" where
  "extractLegacySteering message =
     (if \<not> contains_text (assistantAnswerRawText message) (js ''[STEERING'') then message
      else let (p, reports, blocks) = foldl steer_block (new_parser, [], []) (default_to (cm_blocks message) []);
               tail = finish p;
               reports' = reports @ concat (map seg_reports tail);
               blocks' = rev (append_tail_back (visible_part tail) (rev blocks))
           in if reports' = [] then message
              else message\<lparr>cm_blocks := Some (reoffset 0 blocks'),
                     cm_steeringReports := Some (mergeSteeringReports (cm_steeringReports message) reports')\<rparr>)"

text \<open>The tool calls with an offset in the legacy text, in order, and the others.\<close>

definition positioned_tools :: "jstr \<Rightarrow> DurableToolCall list \<Rightarrow> (DurableToolCall \<times> nat \<times> nat) list" where
  "positioned_tools raw tools = sort_key (\<lambda>(tool, index, offset). offset)
     (List.map_filter (\<lambda>(index, tool). map_option (\<lambda>o'. (tool, index, min o' (length raw))) (d_textOffset tool)) (enumerate 0 tools))"

definition trailing_tools :: "DurableToolCall list \<Rightarrow> (DurableToolCall \<times> nat) list" where
  "trailing_tools tools = List.map_filter (\<lambda>(index, tool). if d_textOffset tool = None then Some (tool, index) else None) (enumerate 0 tools)"

definition legacy_tool_block :: "jstr \<Rightarrow> DurableToolCall \<Rightarrow> nat \<Rightarrow> nat \<Rightarrow> DurableAssistantBlock" where
  "legacy_tool_block mid tool index offset = (mid @ js ''-legacy-tool-'' @ (if d_id tool \<noteq> [] then d_id tool else decimal index),
     ToolBlock (d_id tool) AnswerSection offset)"

definition legacy_answer :: "jstr \<Rightarrow> nat \<Rightarrow> jstr \<Rightarrow> DurableAssistantBlock list" where
  \<comment> \<open>\<open>pushAnswer\<close>, with the number of slices pushed before\<close>
  "legacy_answer mid slice text = (if text = [] then []
     else [(mid @ js ''-legacy-answer-'' @ decimal slice, TextBlock AnswerSection
       \<lparr>x_rawText = text, x_streaming = Some False, x_startedAt = None, x_endedAt = None\<rparr>)])"

fun legacy_slices :: "jstr \<Rightarrow> jstr \<Rightarrow> nat \<Rightarrow> nat \<Rightarrow> (DurableToolCall \<times> nat \<times> nat) list \<Rightarrow> DurableAssistantBlock list" where
  "legacy_slices mid raw cursor slice [] = legacy_answer mid slice (drop cursor raw)"
| "legacy_slices mid raw cursor slice ((tool, index, offset) # items) =
     (let text = js_slice raw cursor offset
      in legacy_answer mid slice text @ [legacy_tool_block mid tool index offset]
         @ legacy_slices mid raw offset (if text = [] then slice else Suc slice) items)"

definition legacy_blocks :: "ChatMessage \<Rightarrow> DurableAssistantBlock list" where
  "legacy_blocks message =
     (let mid = cm_id message; raw = cm_text message; tools = cm_toolCalls message
      in (if truthy_str (cm_thought message)
          then [(mid @ js ''-legacy-thinking-0'', TextBlock ThinkingSection
                 \<lparr>x_rawText = the (cm_thought message), x_streaming = Some False, x_startedAt = None, x_endedAt = None\<rparr>)]
          else [])
         @ legacy_slices mid raw 0 0 (positioned_tools raw tools)
         @ map (\<lambda>(tool, index). legacy_tool_block mid tool index (length raw)) (trailing_tools tools))"

definition migrateAssistantToBlocks :: "ChatMessage \<Rightarrow> ChatMessage" where
  "migrateAssistantToBlocks message =
     (if cm_role message \<noteq> AssistantRole then message
      else case validBlocks (cm_blocks message) of
        Some existing \<Rightarrow> extractLegacySteering (message\<lparr>cm_blocks := Some existing, cm_text := [], cm_thought := None\<rparr>)
      | None \<Rightarrow> extractLegacySteering (message\<lparr>cm_blocks := Some (legacy_blocks message), cm_text := [], cm_thought := None,
                  cm_streaming := Some False\<rparr>))"

record stored_message =
  sm_content :: jstr
  sm_blocks :: "DurableAssistantBlock list option" \<comment> \<open>their JSON text\<close>
  sm_toolCalls :: "DurableToolCall list"
  sm_steeringReports :: "SteeringReport list option"
  sm_subagents :: "SubagentInfo list option"

definition messageForPersistence :: "ChatMessage \<Rightarrow> stored_message" where
  "messageForPersistence m = (if cm_role m \<noteq> AssistantRole
     then \<lparr>sm_content = cm_text m, sm_blocks = None, sm_toolCalls = cm_toolCalls m, sm_steeringReports = None, sm_subagents = None\<rparr>
     else let migrated = migrateAssistantToBlocks m
          in \<lparr>sm_content = assistantPersistenceContent migrated,
              sm_blocks = (if has_items (cm_blocks migrated) then cm_blocks migrated else None),
              sm_toolCalls = cm_toolCalls migrated,
              sm_steeringReports = (if has_items (cm_steeringReports migrated) then cm_steeringReports migrated else None),
              sm_subagents = (if has_items (cm_subagents migrated) then cm_subagents migrated else None)\<rparr>)"

section \<open>Lemmas: blocks\<close>

text \<open>The placement of the client is the placement of the durable projector.\<close>

lemma clientCurrentSection_shared: "clientCurrentSection bs = currentSection bs"
proof -
  have "client_section_back cs = section_back cs" for cs by (induction cs) (auto split: block_body.split)
  then show ?thesis by (simp add: clientCurrentSection_def currentSection_def)
qed

lemma currentRunRawLength_shared: "currentRunRawLength bs k = currentRunLength bs k"
proof -
  have "client_run_back k cs = run_length_back k cs" for cs
    by (induction cs) (cases k; auto split: block_body.split section_kind.split)+
  then show ?thesis by (simp add: currentRunRawLength_def currentRunLength_def)
qed

lemma stableBlockId_shared: "stableBlockId m n = block_id (cm_id m) n"
  by (simp add: stableBlockId_def block_id_def)

lemma closeTrailingClientBlock_shared: "closeTrailingClientBlock bs = closeTrailingTextBlock bs None"
  by (cases bs rule: rev_cases)
    (auto simp: closeTrailingClientBlock_def closeTrailingTextBlock_def close_text_def split: prod.split block_body.split)

section \<open>Lemmas: the client follows the durable projection\<close>

definition meta_view :: "DurableMessage \<Rightarrow> ChatStreamEvent option \<times> ChatStreamEvent list option \<times> SteeringReport list option" where
  "meta_view a = (Option.bind (m_metadata a) dm_usageSummary, Option.bind (m_metadata a) dm_warnings,
     Option.bind (m_metadata a) dm_steeringReports)"

text \<open>Two snapshots that agree in what the projection of the assistant's message depends on.\<close>

definition agree :: "DurableTurnSnapshot \<Rightarrow> DurableTurnSnapshot \<Rightarrow> bool" where
  "agree s t \<longleftrightarrow> n_turnId s = n_turnId t \<and> n_workspaceId s = n_workspaceId t \<and> n_assistantId s = n_assistantId t
     \<and> (let a = n_assistantMessage s; b = n_assistantMessage t
        in m_blocks a = m_blocks b \<and> m_toolCalls a = m_toolCalls b \<and> m_plan a = m_plan b \<and> m_subagents a = m_subagents b
           \<and> meta_view a = meta_view b)"

lemma meta_view_set:
  "meta_view a = meta_view b \<Longrightarrow>
   dm_warnings (default_to (m_metadata a) no_metadata) = dm_warnings (default_to (m_metadata b) no_metadata)
   \<and> dm_steeringReports (default_to (m_metadata a) no_metadata) = dm_steeringReports (default_to (m_metadata b) no_metadata)
   \<and> dm_usageSummary (default_to (m_metadata a) no_metadata) = dm_usageSummary (default_to (m_metadata b) no_metadata)"
  by (cases "m_metadata a"; cases "m_metadata b") (auto simp: meta_view_def no_metadata_def client_metadata_def)

lemmas agree_defs = agree_def Let_def setter_defs push_block_def nextBlockId_def

lemma agree_appendText: "agree s t \<Longrightarrow> appendText s k x at = appendText t k x at"
  by (simp add: appendText_def agree_defs)

lemma agree_applyTool:
  assumes "agree s t"
  shows "m_blocks (applyTool s u at) = m_blocks (applyTool t u at) \<and> m_toolCalls (applyTool s u at) = m_toolCalls (applyTool t u at)
     \<and> m_plan (applyTool s u at) = m_plan (applyTool t u at) \<and> m_subagents (applyTool s u at) = m_subagents (applyTool t u at)
     \<and> meta_view (applyTool s u at) = meta_view (applyTool t u at)"
  using assms by (simp add: applyTool_def agree_defs meta_view_def split: option.split)

lemma agree_end:
  assumes "agree s t"
  shows "agree (end_turn now s i c at) (end_turn now t i c at)"
  using assms by (simp add: end_turn_def finalizeMessage_def agree_defs meta_view_def)

lemma agree_cong:
  "agree s t \<Longrightarrow> n_turnId s' = n_turnId s \<Longrightarrow> n_workspaceId s' = n_workspaceId s \<Longrightarrow> n_assistantId s' = n_assistantId s
   \<Longrightarrow> n_assistantMessage s' = n_assistantMessage s \<Longrightarrow> n_turnId t' = n_turnId t \<Longrightarrow> n_workspaceId t' = n_workspaceId t
   \<Longrightarrow> n_assistantId t' = n_assistantId t \<Longrightarrow> n_assistantMessage t' = n_assistantMessage t \<Longrightarrow> agree s' t'"
  by (simp add: agree_def)

lemma agree_applyPayload:
  assumes a: "agree s t"
  shows "agree (applyPayload now s e) (applyPayload now t e)"
proof (cases "v_data e")
  case (SteerAcceptedEvent d)
  then show ?thesis using a by (simp add: applyPayload_def applySteer_def agree_def Let_def split: option.split)
next
  case (Chunk x)
  then show ?thesis using a agree_appendText [OF a] by (simp add: applyPayload_def agree_defs meta_view_def)
next
  case (Thought x)
  then show ?thesis using a agree_appendText [OF a] by (simp add: applyPayload_def agree_defs meta_view_def)
next
  case (ToolCall d)
  then show ?thesis using a agree_applyTool [OF a] by (simp add: applyPayload_def agree_def Let_def)
next
  case (ToolCallUpdate d)
  then show ?thesis using a agree_applyTool [OF a] by (simp add: applyPayload_def agree_def Let_def)
next
  case (SteeringReportEvent r)
  then show ?thesis using a meta_view_set [of "n_assistantMessage s" "n_assistantMessage t"]
    by (simp add: applyPayload_def agree_defs meta_view_def)
next
  case (UsageSummaryEvent u)
  then show ?thesis using a meta_view_set [of "n_assistantMessage s" "n_assistantMessage t"]
    by (simp add: applyPayload_def agree_defs meta_view_def)
next
  case (Warning w)
  then show ?thesis using a meta_view_set [of "n_assistantMessage s" "n_assistantMessage t"]
    by (simp add: applyPayload_def agree_defs meta_view_def)
next
  case (Done d)
  then show ?thesis using agree_end [OF a] by (simp add: applyPayload_def Let_def agree_def)
next
  case (Error d)
  then show ?thesis using agree_end [OF a] by (simp add: applyPayload_def Let_def agree_def)
next
  case (UserInputRequest d)
  then show ?thesis using a by (simp add: applyPayload_def applyUserInputRequest_def agree_defs meta_view_def)
next
  case (UserInputResolvedEvent d)
  then show ?thesis using a by (simp add: applyPayload_def applyUserInputResolved_def agree_defs meta_view_def)
qed (use a in \<open>auto simp: applyPayload_def agree_defs meta_view_def\<close>)


text \<open>A client's message shows the assistant's message of a snapshot.\<close>

definition mirrors :: "ChatMessage \<Rightarrow> DurableTurnSnapshot \<Rightarrow> bool" where
  "mirrors m s \<longleftrightarrow> (let a = n_assistantMessage s in
     cm_role m = AssistantRole \<and> cm_id m = n_assistantId s \<and> default_to (cm_blocks m) [] = m_blocks a
     \<and> cm_toolCalls m = m_toolCalls a \<and> cm_plan m = m_plan a \<and> cm_subagents m = m_subagents a
     \<and> (cm_usageSummary m, cm_warnings m, cm_steeringReports m) = meta_view a)"

lemma mirrors_adapter: "cm_role m = AssistantRole \<Longrightarrow> mirrors m (adapter_snapshot m ws e)"
  by (simp add: mirrors_def adapter_snapshot_def meta_view_def)

lemma mirrors_agree:
  "mirrors m s \<Longrightarrow> n_workspaceId s = ws \<Longrightarrow> v_turnId e = Some (n_turnId s) \<Longrightarrow> agree (adapter_snapshot m ws e) s"
  by (simp add: mirrors_def agree_def adapter_snapshot_def meta_view_def Let_def)

text \<open>A fold never takes a roster or the reports of a message back.\<close>

lemma payload_keeps_some:
  "(m_subagents (n_assistantMessage s) \<noteq> None \<longrightarrow> m_subagents (n_assistantMessage (applyPayload now s e)) \<noteq> None)
   \<and> (Option.bind (m_metadata (n_assistantMessage s)) dm_steeringReports \<noteq> None
      \<longrightarrow> Option.bind (m_metadata (n_assistantMessage (applyPayload now s e))) dm_steeringReports \<noteq> None)"
  by (cases "v_data e") (auto simp: applyPayload_def setter_defs push_block_def applySteer_def applyUserInputRequest_def
      applyUserInputResolved_def applyTool_def end_turn_def finalizeMessage_def finalizeSubagentRoster_def applySubagentActivity_def
      Let_def no_metadata_def client_metadata_def default_to_def split: option.splits)

definition fresh_frame :: "DurableTurnSnapshot \<Rightarrow> ChatStreamEvent \<Rightarrow> bool" where
  \<comment> \<open>a frame of the turn that is not a redelivery\<close>
  "fresh_frame s e \<longleftrightarrow> v_turnId e = Some (n_turnId s) \<and> -1 \<le> n_lastAppliedSeq s
     \<and> (case v_seq e of None \<Rightarrow> True | Some q \<Rightarrow> n_lastAppliedSeq s < q)"

lemma project_mirrors:
  assumes m: "mirrors m s" and f: "fresh_frame s e" and ws: "n_workspaceId s = ws"
  shows "mirrors (projectAssistantStreamEvent now m ws e) (applyTurnEvent now s e)"
proof -
  define c where "c = adapter_snapshot m ws e"
  have ag: "agree c s" unfolding c_def by (rule mirrors_agree [OF m ws]) (use f in \<open>simp add: fresh_frame_def\<close>)
  define c' where "c' = (case v_seq e of None \<Rightarrow> c | Some q \<Rightarrow> c\<lparr>n_lastAppliedSeq := q\<rparr>)"
  define s' where "s' = (case v_seq e of None \<Rightarrow> s | Some q \<Rightarrow> s\<lparr>n_lastAppliedSeq := q\<rparr>)"
  have c: "applyTurnEvent now c e = applyPayload now c' e" and s: "applyTurnEvent now s e = applyPayload now s' e"
    using f by (auto simp: applyTurnEvent_def c'_def s'_def c_def adapter_snapshot_def fresh_frame_def split: option.splits)
  have same: "n_assistantMessage c' = n_assistantMessage c" "n_assistantMessage s' = n_assistantMessage s"
    by (simp_all add: c'_def s'_def split: option.split)
  have "agree c' s'" using ag by (simp add: c'_def s'_def agree_def split: option.split)
  then have ag': "agree (applyPayload now c' e) (applyPayload now s' e)" by (rule agree_applyPayload)
  have "m_subagents (n_assistantMessage c') = cm_subagents m"
    "Option.bind (m_metadata (n_assistantMessage c')) dm_steeringReports = cm_steeringReports m"
    by (simp_all add: same c_def adapter_snapshot_def)
  then have keep: "cm_subagents m \<noteq> None \<longrightarrow> m_subagents (n_assistantMessage (applyPayload now c' e)) \<noteq> None"
    "cm_steeringReports m \<noteq> None \<longrightarrow> Option.bind (m_metadata (n_assistantMessage (applyPayload now c' e))) dm_steeringReports \<noteq> None"
    using payload_keeps_some [of c' now e] by simp_all
  have "n_assistantId s' = n_assistantId s" by (simp add: s'_def split: option.split)
  then show ?thesis using m ag' keep unfolding mirrors_def agree_def projectAssistantStreamEvent_def c_def [symmetric] c s
    by (auto simp: Let_def meta_view_def split: option.splits)
qed

text \<open>The client folds one frame after another into its message.\<close>

definition client_fold :: "jstr \<Rightarrow> ChatMessage \<Rightarrow> int \<times> ChatStreamEvent \<Rightarrow> ChatMessage" where
  "client_fold ws m te = projectAssistantStreamEvent (fst te) m ws (snd te)"

fun in_order :: "jstr \<Rightarrow> int \<Rightarrow> (int \<times> ChatStreamEvent) list \<Rightarrow> bool" where
  \<comment> \<open>numbered frames of one turn, the numbers increasing\<close>
  "in_order turnId q [] \<longleftrightarrow> True"
| "in_order turnId q (te # tes) \<longleftrightarrow> v_turnId (snd te) = Some turnId
     \<and> (case v_seq (snd te) of None \<Rightarrow> False | Some k \<Rightarrow> q < k \<and> in_order turnId k tes)"

lemma deliver_frame: "n_turnId (deliver s te) = n_turnId s" "n_workspaceId (deliver s te) = n_workspaceId s"
  by (cases "v_data (snd te)"; simp add: deliver_def applyTurnEvent_def applyPayload_def setter_defs push_block_def applySteer_def
      applyUserInputRequest_def applyUserInputResolved_def end_turn_def Let_def split: option.split)+

lemma client_fold_mirrors:
  assumes "mirrors m s" "in_order (n_turnId s) (n_lastAppliedSeq s) tes" "-1 \<le> n_lastAppliedSeq s" "n_workspaceId s = ws"
  shows "mirrors (foldl (client_fold ws) m tes) (foldl deliver s tes)"
  using assms
proof (induction tes arbitrary: m s)
  case (Cons te tes)
  then obtain q where q: "v_seq (snd te) = Some q" "n_lastAppliedSeq s < q" "in_order (n_turnId s) q tes"
    "v_turnId (snd te) = Some (n_turnId s)" by (auto split: option.splits)
  have "mirrors (client_fold ws m te) (deliver s te)"
    unfolding client_fold_def deliver_def by (rule project_mirrors) (use Cons.prems q in \<open>simp_all add: fresh_frame_def\<close>)
  moreover have "n_lastAppliedSeq (deliver s te) = q" using turn_log.advance [OF q(1,2)] .
  ultimately show ?case using Cons.IH [of "client_fold ws m te" "deliver s te"] Cons.prems q by (simp add: deliver_frame)
qed simp

text \<open>The placeholder a client puts into the transcript when a turn starts.\<close>

definition placeholder :: "jstr \<Rightarrow> int \<Rightarrow> ChatMessage" where
  "placeholder assistantId now = (blank_message assistantId AssistantRole)
     \<lparr>cm_blocks := Some [], cm_streaming := Some True, cm_createdAt := Some now\<rparr>"

section \<open>Theorems\<close>

text \<open>The message a client builds from the frames of a turn, starting from the placeholder, is the message the
  durable projection stores: the same blocks, tool calls, plan, roster, reports, usage and warnings, after every
  frame. So a reload shows what was on the screen, and what the client counts as the content of the reply is the raw answer
  of the stored one.\<close>
theorem client_message_is_durable:
  assumes "in_order (c_turnId input) (-1) tes"
  shows "mirrors (foldl (client_fold (c_workspaceId input)) (placeholder (c_assistantId input) now) tes)
     (foldl deliver (createDurableTurn input) tes)"
  by (rule client_fold_mirrors) (use assms in \<open>simp_all add: mirrors_def createDurableTurn_def placeholder_def blank_message_def meta_view_def\<close>)

theorem client_message_is_durable_witness:
  "mirrors (foldl (client_fold [87]) (placeholder [65] 0) [(5, sample_frame 0 (Chunk [72])\<lparr>v_turnId := Some [84]\<rparr>),
       (6, sample_frame 1 (Done \<lparr>do_stopReason = None, do_persisted = None, do_completedAt = None\<rparr>)\<lparr>v_turnId := Some [84]\<rparr>)])
     (foldl deliver (createDurableTurn \<lparr>c_turnId = [84], c_assistantId = [65], c_nodeId = [78], c_workspaceId = [87],
        c_displayUserText = [], c_userMetadata = None, c_selfInitiated = False, c_keepUserMessage = False, c_startedAt = 0\<rparr>)
       [(5, sample_frame 0 (Chunk [72])\<lparr>v_turnId := Some [84]\<rparr>),
        (6, sample_frame 1 (Done \<lparr>do_stopReason = None, do_persisted = None, do_completedAt = None\<rparr>)\<lparr>v_turnId := Some [84]\<rparr>)])"
  using client_message_is_durable [of "\<lparr>c_turnId = [84], c_assistantId = [65], c_nodeId = [78], c_workspaceId = [87],
        c_displayUserText = [], c_userMetadata = None, c_selfInitiated = False, c_keepUserMessage = False, c_startedAt = 0\<rparr>"
      "[(5, sample_frame 0 (Chunk [72])\<lparr>v_turnId := Some [84]\<rparr>),
        (6, sample_frame 1 (Done \<lparr>do_stopReason = None, do_persisted = None, do_completedAt = None\<rparr>)\<lparr>v_turnId := Some [84]\<rparr>)]" 0]
  by (simp add: sample_frame_def)

section \<open>Theorems: stored replies\<close>

lemma legacy_answer_views [simp]:
  "section_text AnswerSection (legacy_answer mid n t) = t" "section_text ThinkingSection (legacy_answer mid n t) = []"
  "tool_refs (legacy_answer mid n t) = []"
  by (simp_all add: legacy_answer_def block_views)

lemma legacy_tool_views [simp]:
  "section_text k [legacy_tool_block mid tool i off] = []" "tool_refs [legacy_tool_block mid tool i off] = [(d_id tool, Some off)]"
  by (simp_all add: legacy_tool_block_def)

lemma legacy_tool_Cons:
  "section_text k (legacy_tool_block mid tool i off # bs) = section_text k bs"
  "tool_refs (legacy_tool_block mid tool i off # bs) = (d_id tool, Some off) # tool_refs bs"
  by (simp_all add: legacy_tool_block_def block_views)

lemma legacy_trailing_views:
  "section_text k (map (\<lambda>(tool, i). legacy_tool_block mid tool i off) ts) = []"
  "tool_refs (map (\<lambda>(tool, i). legacy_tool_block mid tool i off) ts) = map (\<lambda>t. (d_id (fst t), Some off)) ts"
  by (induction ts) (auto simp: legacy_tool_Cons, simp_all add: block_views)

definition item_offset :: "DurableToolCall \<times> nat \<times> nat \<Rightarrow> nat" where
  "item_offset it = snd (snd it)"

lemma legacy_slices_views:
  assumes "sorted (map item_offset items)" "\<forall>it \<in> set items. cursor \<le> item_offset it \<and> item_offset it \<le> length raw" "cursor \<le> length raw"
  shows "section_text AnswerSection (legacy_slices mid raw cursor n items) = drop cursor raw
    \<and> section_text ThinkingSection (legacy_slices mid raw cursor n items) = []
    \<and> tool_refs (legacy_slices mid raw cursor n items) = map (\<lambda>it. (d_id (fst it), Some (item_offset it))) items"
  using assms
proof (induction items arbitrary: cursor n)
  case (Cons it items)
  obtain tool index off where it: "it = (tool, index, off)" by (cases it)
  let ?t = "js_slice raw cursor off"
  have off: "cursor \<le> off" "off \<le> length raw" using Cons.prems it by (auto simp: item_offset_def)
  have 1: "\<forall>i \<in> set items. off \<le> item_offset i \<and> item_offset i \<le> length raw"
    using Cons.prems it by (auto simp: item_offset_def)
  have 2: "sorted (map item_offset items)" using Cons.prems(1) by simp
  note IH = Cons.IH [OF 2 1 off(2)]
  have "?t @ drop off raw = drop cursor raw"
    using js_slice_split [of cursor off "length raw" raw] off by (simp add: js_slice_def)
  then show ?case using IH [of "if ?t = [] then n else Suc n"] it
    by (simp add: Let_def legacy_tool_Cons item_offset_def)
qed simp

lemma positioned_sorted: "sorted (map item_offset (positioned_tools raw tools))"
proof -
  have "(\<lambda>(tool, index, offset). offset) = item_offset" by (auto simp: item_offset_def)
  then show ?thesis by (simp add: positioned_tools_def)
qed

lemma positioned_within: "it \<in> set (positioned_tools raw tools) \<Longrightarrow> item_offset it \<le> length raw"
  by (auto simp: positioned_tools_def item_offset_def map_filter_def)

lemma positioned_trailing:
  "image_mset (\<lambda>it. d_id (fst it)) (mset (positioned_tools raw tools)) + image_mset (\<lambda>it. d_id (fst it)) (mset (trailing_tools tools))
    = mset (map d_id tools)"
proof -
  have "image_mset (\<lambda>it. d_id (fst it)) (mset (List.map_filter (\<lambda>(index, tool). map_option (\<lambda>o'. (tool, index, min o' (length raw))) (d_textOffset tool)) (enumerate n tools)))
      + image_mset (\<lambda>it. d_id (fst it)) (mset (List.map_filter (\<lambda>(index, tool). if d_textOffset tool = None then Some (tool, index) else None) (enumerate n tools)))
    = mset (map d_id tools)" for n
    by (induction tools arbitrary: n) (auto simp: map_filter_def)
  then show ?thesis by (simp add: positioned_tools_def trailing_tools_def)
qed

text \<open>Turning a reply without blocks into blocks loses nothing: the answer blocks hold its text, unit by unit and in order, the
  thinking block its reasoning, and every tool call has one block, placed at its offset in the text.\<close>
theorem legacy_migration_lossless:
  "section_text AnswerSection (legacy_blocks m) = cm_text m
   \<and> section_text ThinkingSection (legacy_blocks m) = default_to (cm_thought m) []
   \<and> mset (map fst (tool_refs (legacy_blocks m))) = mset (map d_id (cm_toolCalls m))"
proof -
  let ?raw = "cm_text m" and ?tools = "cm_toolCalls m"
  note v = legacy_slices_views [of "positioned_tools ?raw ?tools" 0 ?raw "cm_id m" 0]
  have s: "section_text AnswerSection (legacy_slices (cm_id m) ?raw 0 0 (positioned_tools ?raw ?tools)) = ?raw
    \<and> section_text ThinkingSection (legacy_slices (cm_id m) ?raw 0 0 (positioned_tools ?raw ?tools)) = []
    \<and> tool_refs (legacy_slices (cm_id m) ?raw 0 0 (positioned_tools ?raw ?tools))
       = map (\<lambda>it. (d_id (fst it), Some (item_offset it))) (positioned_tools ?raw ?tools)"
    using v positioned_sorted positioned_within by auto
  have th: "section_text k (if truthy_str (cm_thought m) then [(i, TextBlock ThinkingSection \<lparr>x_rawText = the (cm_thought m),
      x_streaming = Some False, x_startedAt = None, x_endedAt = None\<rparr>)] else []) = (if k = ThinkingSection then default_to (cm_thought m) [] else [])"
    "tool_refs (if truthy_str (cm_thought m) then [(i, TextBlock ThinkingSection \<lparr>x_rawText = the (cm_thought m),
      x_streaming = Some False, x_startedAt = None, x_endedAt = None\<rparr>)] else []) = []" for k i
    by (cases "cm_thought m"; auto simp: block_views)+
  show ?thesis unfolding legacy_blocks_def Let_def block_views_append legacy_trailing_views th
    using s positioned_trailing [of ?raw ?tools] by (simp add: multiset.map_comp o_def)
qed

definition flat_text :: "(nat + SteeringReport) list \<Rightarrow> jstr" where
  "flat_text fs = List.map_filter (\<lambda>x. case x of Inl c \<Rightarrow> Some c | Inr _ \<Rightarrow> None) fs"

definition flat_reports :: "(nat + SteeringReport) list \<Rightarrow> SteeringReport list" where
  "flat_reports fs = List.map_filter (\<lambda>x. case x of Inl _ \<Rightarrow> None | Inr r \<Rightarrow> Some r) fs"

lemma flat_append [simp]:
  "flat_text (a @ b) = flat_text a @ flat_text b" "flat_reports (a @ b) = flat_reports a @ flat_reports b"
  by (simp_all add: flat_text_def flat_reports_def map_filter_def)

lemma flat_of_segments:
  "visible_part segs = flat_text (flat_items segs)" "concat (map seg_reports segs) = flat_reports (flat_items segs)"
proof -
  have one: "flat_text (seg_flat s) = seg_text s" "flat_reports (seg_flat s) = seg_reports s" for s
    by (cases s; simp add: flat_text_def flat_reports_def map_filter_def comp_def)+
  have nil: "flat_text [] = []" "flat_reports [] = []" by (simp_all add: flat_text_def flat_reports_def map_filter_def)
  show "visible_part segs = flat_text (flat_items segs)"
    by (induction segs) (simp_all add: visible_part_def flat_items_def one nil)
  show "concat (map seg_reports segs) = flat_reports (flat_items segs)"
    by (induction segs) (simp_all add: flat_items_def one nil)
qed

text \<open>A text that does not end between the two halves of a character.\<close>

definition whole_chars :: "jstr \<Rightarrow> bool" where
  "whole_chars s \<longleftrightarrow> s = [] \<or> \<not> (55296 \<le> last s \<and> last s \<le> 56319)"

lemma push_whole:
  "whole_chars a \<Longrightarrow> fst (push p (a @ b)) = fst (push (fst (push p a)) b)
   \<and> flat_items (snd (push p (a @ b))) = flat_items (snd (push p a)) @ flat_items (snd (push (fst (push p a)) b))"
  by (rule push_chunks) (auto simp: whole_chars_def)

lemma push_Nil: "push p [] = (p, [])"
  by (simp add: push_def push_chars_def flush_visible_def)

abbreviation answer_text :: "DurableAssistantBlock list \<Rightarrow> jstr" where
  "answer_text \<equiv> section_text AnswerSection"

fun block_whole :: "DurableAssistantBlock \<Rightarrow> bool" where
  "block_whole (i, TextBlock AnswerSection x) = whole_chars (x_rawText x)"
| "block_whole b = True"

definition is_answer :: "DurableAssistantBlock \<Rightarrow> bool" where
  "is_answer b = (case snd b of TextBlock AnswerSection _ \<Rightarrow> True | _ \<Rightarrow> False)"

lemma is_answerE:
  assumes "is_answer b"
  obtains i x where "b = (i, TextBlock AnswerSection x)"
  using assms by (cases b) (auto simp: is_answer_def split: block_body.splits section_kind.splits)

lemma is_answer_simps [simp]: "is_answer (i, TextBlock AnswerSection x)" "\<not> is_answer (i, TextBlock ThinkingSection x)"
  "\<not> is_answer (i, ToolBlock t k off)" "\<not> is_answer (i, UserInputBlock r ui off)" "\<not> is_answer (i, ImageBlock g)"
  by (simp_all add: is_answer_def)

lemma other_block:
  assumes "\<not> is_answer b"
  shows "steer_block (p, reports, out) b = (p, reports, out @ [b])" "answer_text [b] = []" "append_tail_back t (b # bs) = b # append_tail_back t bs"
  using assms by (cases "(p, reports, out, b)" rule: prod_cases4; cases "snd b"; cases b; auto elim: section_kind.exhaust simp: is_answer_def split: section_kind.splits)+

lemma steer_answers: "foldl steer_block (p, reports, out) bs = (p', reports', out') \<Longrightarrow> list_ex is_answer out' \<longleftrightarrow> list_ex is_answer (out @ bs)"
proof (induction bs arbitrary: p reports out)
  case (Cons b bs)
  show ?case
  proof (cases "is_answer b")
    case True
    then obtain i x where "b = (i, TextBlock AnswerSection x)" by (rule is_answerE)
    with Cons show ?thesis by (auto split: prod.splits)
  next
    case False
    with Cons other_block(1) show ?thesis by (metis append.assoc append_Cons append_Nil foldl_Cons)
  qed
qed simp

lemma foldl_steer:
  assumes "list_all block_whole bs" "foldl steer_block (p, reports, out) bs = (p', reports', out')"
  shows "p' = fst (push p (answer_text bs)) \<and> reports' = reports @ flat_reports (flat_items (snd (push p (answer_text bs))))
     \<and> answer_text out' = answer_text out @ flat_text (flat_items (snd (push p (answer_text bs))))"
  using assms
proof (induction bs arbitrary: p reports out)
  case Nil
  then show ?case by (simp add: block_views push_Nil flat_items_def flat_text_def flat_reports_def map_filter_def)
next
  case (Cons b bs)
  show ?case
  proof (cases "is_answer b")
    case True
    then obtain i x where b: "b = (i, TextBlock AnswerSection x)" by (rule is_answerE)
    obtain q segs where q: "push p (x_rawText x) = (q, segs)" by (cases "push p (x_rawText x)")
    have t: "answer_text (b # bs) = x_rawText x @ answer_text bs" using b view_Cons(3) [of AnswerSection b bs] by simp
    have w: "whole_chars (x_rawText x)" using Cons.prems(1) b by simp
    have step: "foldl steer_block (q, reports @ concat (map seg_reports segs), out @ [(i, TextBlock AnswerSection (x\<lparr>x_rawText := visible_part segs\<rparr>))]) bs
        = (p', reports', out')" using Cons.prems(2) b q by simp
    have rest: "list_all block_whole bs" using Cons.prems(1) by simp
    from Cons.IH [OF rest step] push_whole [OF w, of p "answer_text bs"] q show ?thesis
      by (simp add: t flat_of_segments)
  next
    case False
    from other_block [OF this] Cons view_Cons(3) [of AnswerSection b bs] show ?thesis by simp
  qed
qed


lemma append_tail_text:
  assumes "list_ex is_answer bs"
  shows "answer_text (rev (append_tail_back tail bs)) = answer_text (rev bs) @ tail"
  using assms
proof (induction bs)
  case (Cons b bs)
  show ?case
  proof (cases "is_answer b")
    case True
    then obtain i x where "b = (i, TextBlock AnswerSection x)" by (rule is_answerE)
    then show ?thesis by simp
  next
    case False
    with Cons other_block [OF False] show ?thesis by simp
  qed
qed simp

lemma reoffset_text: "answer_text (reoffset n bs) = answer_text bs"
proof (induction bs arbitrary: n)
  case (Cons b bs)
  show ?case
    by (cases b; cases "snd b"; auto split: section_kind.split)
      (simp_all add: Cons view_Cons(3) [of AnswerSection _ "reoffset _ _"] view_Cons(3) [of AnswerSection _ bs])
qed simp

lemma raw_is_answer_text:
  "cm_role m = AssistantRole \<Longrightarrow> cm_blocks m = Some bs \<Longrightarrow> bs \<noteq> [] \<Longrightarrow> assistantAnswerRawText m = answer_text bs"
  by (simp add: assistantAnswerRawText_def rawAnswerContent_def [symmetric] rawAnswer_section)

lemma no_answer_text: "\<not> list_ex is_answer bs \<Longrightarrow> answer_text bs = []"
proof (induction bs)
  case (Cons b bs)
  then show ?case using other_block(2) [of b] view_Cons(3) [of AnswerSection b bs] by simp
qed (simp add: block_views)

text \<open>Lifting the steering reports out of a stored reply is what the scanner makes of the whole answer: unless the message is
  left as it is, its answer blocks hold exactly the visible text, and the reports it gains are the reports found.
  The blocks may cut the text anywhere but between the two halves of a character.\<close>
theorem legacy_steering_scans_answer:
  assumes "cm_role m = AssistantRole" "cm_blocks m = Some bs" "list_all block_whole bs"
  shows "extractLegacySteering m = m \<or>
    (assistantAnswerRawText (extractLegacySteering m) = fst (extractKiroSteering (assistantAnswerRawText m))
     \<and> cm_steeringReports (extractLegacySteering m) =
         Some (mergeSteeringReports (cm_steeringReports m) (snd (extractKiroSteering (assistantAnswerRawText m)))))"
proof (cases "extractLegacySteering m = m")
  case False
  obtain p reports blocks where f: "foldl steer_block (new_parser, [], []) bs = (p, reports, blocks)"
    by (cases "foldl steer_block (new_parser, [], []) bs")
  define blocks' where "blocks' = rev (append_tail_back (visible_part (finish p)) (rev blocks))"
  have e: "extractLegacySteering m = m\<lparr>cm_blocks := Some (reoffset 0 blocks'),
      cm_steeringReports := Some (mergeSteeringReports (cm_steeringReports m) (reports @ concat (map seg_reports (finish p))))\<rparr>"
    and has: "contains_text (assistantAnswerRawText m) (js ''[STEERING'')"
    using False assms(2) by (auto simp: extractLegacySteering_def f Let_def blocks'_def split: if_splits)
  note st = foldl_steer [OF assms(3) f]
  have "bs \<noteq> []"
  proof
    assume "bs = []"
    then have "extractLegacySteering m = m"
      using assms(2) by (simp add: extractLegacySteering_def finish_def new_parser_def)
    with False show False ..
  qed
  then have raw: "assistantAnswerRawText m = answer_text bs" using assms raw_is_answer_text by blast
  have "answer_text bs \<noteq> []" using has by (auto simp: raw contains_text_def starts_with_def js_def)
  then have "list_ex is_answer bs" using no_answer_text by blast
  then have "list_ex is_answer (rev blocks)" using steer_answers [OF f] by (auto simp: list_ex_iff)
  from append_tail_text [OF this, of "visible_part (finish p)"]
  have bl: "answer_text blocks' = answer_text blocks @ visible_part (finish p)" by (simp add: blocks'_def)
  have x: "extractKiroSteering (answer_text bs) = (answer_text blocks', reports @ concat (map seg_reports (finish p)))"
    using st by (cases "push new_parser (answer_text bs)")
      (simp add: extractKiroSteering_def bl flat_of_segments [symmetric] visible_part_def block_views(3) [where bs = "[]"])
  have "append_tail_back t cs = [] \<longleftrightarrow> cs = []" "reoffset n cs = [] \<longleftrightarrow> cs = []" for t n cs
    by (cases "(t, cs)" rule: append_tail_back.cases; simp) (cases cs; auto split: block_body.splits section_kind.splits)
  moreover have "blocks \<noteq> []" using \<open>list_ex is_answer (rev blocks)\<close> by auto
  ultimately have "reoffset 0 blocks' \<noteq> []" by (simp add: blocks'_def)
  then show ?thesis using raw_is_answer_text [of "extractLegacySteering m"] assms(1) by (simp add: e x raw reoffset_text)
qed simp


definition sample_legacy :: ChatMessage where
  "sample_legacy = (blank_message (js ''a1'') AssistantRole)\<lparr>cm_blocks := Some [(js ''b0'', TextBlock AnswerSection
     \<lparr>x_rawText = js ''plain'', x_streaming = None, x_startedAt = None, x_endedAt = None\<rparr>)]\<rparr>"

theorem legacy_steering_scans_answer_witness:
  "extractLegacySteering sample_legacy = sample_legacy \<or>
    (assistantAnswerRawText (extractLegacySteering sample_legacy) = fst (extractKiroSteering (assistantAnswerRawText sample_legacy))
     \<and> cm_steeringReports (extractLegacySteering sample_legacy) =
         Some (mergeSteeringReports (cm_steeringReports sample_legacy) (snd (extractKiroSteering (assistantAnswerRawText sample_legacy)))))"
  by (rule legacy_steering_scans_answer, simp add: sample_legacy_def blank_message_def, simp add: sample_legacy_def,
      simp add: whole_chars_def js_def)

end
