(* ===== verification/Chat_State.thy ===== *)
theory Chat_State
  imports Assistant_Blocks
begin

text \<open>
  The state of the chat store (\<^verbatim>\<open>frontend/src/state/chatTypes.ts\<close>): a node of a workspace - a chat, a digest or an
  open file - with its transcript, its running turn, what the user is composing and how it is shown, and the helpers of the
  reducers that read stored rows, quotes and titles (\<^verbatim>\<open>chatHydration.ts\<close>, \<^verbatim>\<open>assistantParsing.ts\<close>, \<^verbatim>\<open>lib/quoteFormat.ts\<close>,
  \<^verbatim>\<open>shared/src/threadMessage.ts\<close>, \<^verbatim>\<open>branchOverview.ts\<close>). Of the members of a node those that the reducers read or write are
  here; an absent member and an undefined one are \<open>None\<close>, and a member that may also be \<open>null\<close> is an option of an option
  where the reducers tell the two apart. The record is built in five steps, one for each concern.
\<close>

section \<open>Parts of a node\<close>

datatype NodeKind = ChatKind | DigestKind | ArtifactKind
datatype node_status = NodeIdle | NodeStreaming | NodeError
datatype error_recovery = RecoveryChecking | RecoveryUnavailable
datatype command_status = CommandRunning | CommandCompleted | CommandError
datatype file_status = FileIdle | FileLoading | FileError
datatype view_mode = ViewRendered | ViewSource

record DigestGeneration =
  dg_startedAt :: int
  dg_thought :: jstr
  dg_activity :: jstr

record DigestState =
  di_sources :: "jstr list"
  di_sourceFingerprints :: "(jstr \<times> jstr) list"
  di_content :: jstr
  di_generatedAt :: int
  di_viewedAt :: int
  di_status :: node_status
  di_error :: "jstr option"
  di_customPrompt :: "jstr option"
  di_generation :: "DigestGeneration option"

record ArtifactState =
  af_filePath :: jstr
  af_content :: "jstr option"
  af_viewMode :: view_mode
  af_extension :: "jstr option"
  af_basename :: "jstr option"
  af_size :: "int option"
  af_modifiedAt :: "int option"
  af_status :: file_status
  af_error :: "jstr option"
  af_pendingRefresh :: "bool option"
  af_removed :: "bool option"

datatype mention_kind = ContextMention | NodeMention

record ComposerMention =
  mn_start :: nat
  mn_end :: nat
  mn_kind :: mention_kind
  mn_refId :: jstr
  mn_label :: jstr

record ComposerDraft =
  cd_value :: jstr
  cd_mentions :: "ComposerMention list"
  cd_quotedText :: "jstr option"
  cd_quoteSource :: "AnyQuoteSource option"

record PendingComment =
  pc_id :: jstr
  pc_quotedText :: jstr
  pc_body :: jstr
  pc_createdAt :: int
  pc_source :: "AnyQuoteSource option"

record AttachmentRef =
  ar_name :: jstr
  ar_absPath :: jstr

record PendingQueuedMessage =
  pq_id :: jstr
  pq_steering :: "bool option"
  pq_value :: jstr
  pq_mentions :: "ComposerMention list"
  pq_attachments :: "AttachmentRef list"
  pq_quotedText :: "jstr option"
  pq_quoteSource :: "AnyQuoteSource option"
  pq_commentBlock :: "jstr option"
  pq_comments :: "PendingComment list option"
  pq_queuedAt :: int

record UserInputRequestState =
  pu_requestId :: int
  pu_interactionId :: "jstr option"
  pu_questions :: "UserInputQuestion list"
  pu_answers :: "UserInputAnswer list"
  pu_resolved :: "bool option"
  pu_interrupted :: "bool option"
  pu_receivedAt :: "int option"

record BranchOverviewEntry =
  bo_at :: int
  bo_text :: jstr

section \<open>A node\<close>

text \<open>Who the node is and which session it is bound to.\<close>

record node_binding =
  cn_nodeId :: jstr
  cn_kind :: NodeKind
  cn_projectId :: jstr
  cn_parentNodeId :: "jstr option"
  cn_mergeSources :: "jstr list option"
  cn_chatId :: "jstr option"
  cn_runtimeId :: "jstr option"
  cn_providerId :: "jstr option option"
  cn_modelId :: "jstr option option"
  cn_reasoning :: "RuntimeReasoning option option"
  cn_currentModeId :: "jstr option option"
  cn_sessionState :: "AgentSessionState option"
  cn_agentCommands :: "AgentCommand list option"
  cn_commandResult :: "(jstr \<times> command_status \<times> jstr) option"
  cn_permissionMode :: "ChatPermissionMode option"
  cn_permissionApproveForMe :: "bool option"
  cn_resumeFingerprint :: "jstr option"

text \<open>The transcript and how far the streams of the node were applied.\<close>

record node_transcript = node_binding +
  cn_messages :: "ChatMessage list"
  cn_messagesLoaded :: "bool option"
  cn_historyBefore :: "(int \<times> jstr) option"
  cn_messageCount :: "nat option"
  cn_lastAppliedTurnId :: "jstr option"
  cn_lastAppliedSeq :: "int option"
  cn_lastAppliedBackgroundTurnId :: "jstr option"
  cn_lastAppliedBackgroundSeq :: "int option"
  cn_lastAssistantAt :: "int option"
  cn_viewedAt :: "int option"

text \<open>The turn that runs or ran last.\<close>

record node_turn = node_transcript +
  cn_status :: node_status
  cn_activeTurnId :: "jstr option"
  cn_cancelPhase :: "CancelPhase option"
  cn_compacting :: "bool option"
  cn_runtimeActivity :: "jstr option"
  cn_streamingStartedAt :: "int option"
  cn_streamingIdleMs :: "int option"
  cn_error :: "jstr option"
  cn_errorKind :: "jstr option"
  cn_errorTurnId :: "jstr option"
  cn_errorRecovery :: "error_recovery option"
  cn_errorRecoverable :: "bool option"
  cn_errorCompletedAt :: "int option"
  cn_visibleResponseComplete :: "bool option"
  cn_backgroundTurnAssistantId :: "jstr option"
  cn_pendingPermission :: "PermissionRequest option"
  cn_pendingUserInput :: "UserInputRequestState option"
  cn_subagents :: "SubagentInfo list option"
  cn_usageSummary :: "UsageSummary option"
  cn_contextUsagePercentage :: "int option"
  cn_mcpServerError :: "(jstr \<times> jstr) option"
  cn_warning :: "RuntimeWarning option"

text \<open>What the agent said about the conversation, and what the user is composing.\<close>

record node_composition = node_turn +
  cn_followUps :: "jstr list"
  cn_followUpsSourceMessageId :: "jstr option"
  cn_followUpsGenerating :: "bool option"
  cn_title :: "jstr option"
  cn_titleNeedsPersistence :: "bool option"
  cn_branchOverviewEntries :: "BranchOverviewEntry list option"
  cn_branchOverview :: "jstr option"
  cn_branchOverviewSourceMessageId :: "jstr option"
  cn_composerDraft :: "ComposerDraft option"
  cn_pendingComments :: "PendingComment list option"
  cn_pendingQueued :: "PendingQueuedMessage list option"
  cn_queueErrored :: "bool option"

text \<open>How the node is shown, and the documents it stands for.\<close>

record ChatNodeState = node_composition +
  cn_minimized :: "bool option"
  cn_position :: "(int \<times> int) option"
  cn_paneWidth :: "int option"
  cn_pinnedAt :: "int option"
  cn_consumedLinks :: "jstr list option"
  cn_spawnedByAgent :: "bool option"
  cn_pendingSpawnPrompt :: "jstr option"
  cn_digest :: "DigestState option"
  cn_artifact :: "ArtifactState option"

definition blank_chat_node :: "jstr \<Rightarrow> NodeKind \<Rightarrow> jstr \<Rightarrow> ChatNodeState" where
  \<comment> \<open>an idle node of a project, every optional member left out\<close>
  "blank_chat_node i k projectId = \<lparr>cn_nodeId = i, cn_kind = k, cn_projectId = projectId, cn_parentNodeId = None, cn_mergeSources = None,
     cn_chatId = None, cn_runtimeId = None, cn_providerId = None, cn_modelId = None, cn_reasoning = None, cn_currentModeId = None,
     cn_sessionState = None, cn_agentCommands = None, cn_commandResult = None, cn_permissionMode = None,
     cn_permissionApproveForMe = None, cn_resumeFingerprint = None,
     cn_messages = [], cn_messagesLoaded = None, cn_historyBefore = None, cn_messageCount = None, cn_lastAppliedTurnId = None,
     cn_lastAppliedSeq = None, cn_lastAppliedBackgroundTurnId = None, cn_lastAppliedBackgroundSeq = None,
     cn_lastAssistantAt = None, cn_viewedAt = None,
     cn_status = NodeIdle, cn_activeTurnId = None, cn_cancelPhase = None, cn_compacting = None, cn_runtimeActivity = None,
     cn_streamingStartedAt = None, cn_streamingIdleMs = None, cn_error = None, cn_errorKind = None, cn_errorTurnId = None,
     cn_errorRecovery = None, cn_errorRecoverable = None, cn_errorCompletedAt = None, cn_visibleResponseComplete = None,
     cn_backgroundTurnAssistantId = None, cn_pendingPermission = None, cn_pendingUserInput = None, cn_subagents = None,
     cn_usageSummary = None, cn_contextUsagePercentage = None, cn_mcpServerError = None, cn_warning = None,
     cn_followUps = [], cn_followUpsSourceMessageId = None, cn_followUpsGenerating = None, cn_title = None,
     cn_titleNeedsPersistence = None, cn_branchOverviewEntries = None, cn_branchOverview = None,
     cn_branchOverviewSourceMessageId = None, cn_composerDraft = None, cn_pendingComments = None, cn_pendingQueued = None,
     cn_queueErrored = None,
     cn_minimized = None, cn_position = None, cn_paneWidth = None, cn_pinnedAt = None, cn_consumedLinks = None,
     cn_spawnedByAgent = None, cn_pendingSpawnPrompt = None, cn_digest = None, cn_artifact = None\<rparr>"

section \<open>Stored user messages\<close>

definition index_of :: "jstr \<Rightarrow> jstr \<Rightarrow> nat option" where
  "index_of s w = find (\<lambda>i. starts_with (drop i s) w) [0..<Suc (length s)]"

definition THREAD_MESSAGE_BODY_MARKER :: jstr where
  "THREAD_MESSAGE_BODY_MARKER = 10 # js ''--- message ---'' @ [10]"

definition threadMessageBody :: "jstr \<Rightarrow> jstr" where
  "threadMessageBody content = (case index_of content THREAD_MESSAGE_BODY_MARKER of None \<Rightarrow> content
     | Some i \<Rightarrow> drop (i + length THREAD_MESSAGE_BODY_MARKER) content)"

definition parseThreadMessageSource :: "jsval \<Rightarrow> ThreadMessageSource option" where
  "parseThreadMessageSource v =
     (if \<not> is_record v then None
      else case truthy_of (str_of (field v ''fromNodeId'')) of None \<Rightarrow> None
         | Some n \<Rightarrow> Some \<lparr>th_fromNodeId = n, th_fromTitle = truthy_of (str_of (field v ''fromTitle''))\<rparr>)"

definition stored_attachment :: "jsval \<Rightarrow> MessageAttachment option" where
  "stored_attachment item =
     (if \<not> is_object item then None
      else case (truthy_of (str_of (field item ''name'')), truthy_of (str_of (field item ''absPath''))) of
         (Some name, Some absPath) \<Rightarrow> Some \<lparr>at_name = name, at_absPath = absPath, at_relPath = truthy_of (str_of (field item ''relPath''))\<rparr>
       | _ \<Rightarrow> None)"

definition mapUserRow :: "jstr \<Rightarrow> jstr \<Rightarrow> (jstr \<times> jsval) list \<Rightarrow> int option \<Rightarrow> ChatMessage" where
  \<comment> \<open>\<open>mapMessageRow\<close> on a row with the role of the user and an id; a plan in such metadata, which nothing writes, is left out\<close>
  "mapUserRow i content members createdAt =
     (let metadata = JObj members; threadMessage = parseThreadMessageSource (field metadata ''threadMessage'')
      in (blank_message i UserRole)
         \<lparr>cm_text := (if threadMessage \<noteq> None then threadMessageBody content else content),
          cm_threadMessage := threadMessage,
          cm_steered := (if field metadata ''steered'' = JBool True then Some True else None),
          cm_scheduledJobId := truthy_of (str_of (field metadata ''scheduledJobId'')),
          cm_streaming := Some False,
          cm_createdAt := createdAt,
          cm_quotedText := truthy_of (str_of (field metadata ''quotedText'')),
          cm_quoteSource := (if is_object (field metadata ''quoteSource'') then Some (StoredQuote (field metadata ''quoteSource'')) else None),
          cm_attachments := (case field metadata ''attachments'' of JArr items \<Rightarrow> Some (List.map_filter stored_attachment items) | _ \<Rightarrow> None),
          cm_comments := (case field metadata ''comments'' of JArr items \<Rightarrow> Some (JArr items) | _ \<Rightarrow> None)\<rparr>)"

definition metadata_members :: "DurableMessageMetadata option \<Rightarrow> (jstr \<times> jsval) list" where
  \<comment> \<open>the members of a steered message's metadata as the object it is\<close>
  "metadata_members md = (case md of None \<Rightarrow> []
     | Some d \<Rightarrow> dm_members d @ opt_member (js ''steered'') (map_option JBool (dm_steered d)))"

section \<open>Titles, errors and overviews\<close>

definition BRANCH_COMMAND_RE :: regex where
  "BRANCH_COMMAND_RE = rseq [RBegin False, rstar rws, rlit_i ''/'', RAlt (rlit_i ''btw'') (rlit_i ''branch''), rplus rws]"

definition QUOTED_LINE_RE :: regex where
  "QUOTED_LINE_RE = rseq [RBegin True, runit 62, rstar (RSet (\<lambda>c. \<not> is_lt c)), REnd True]"

definition deriveTitleFromUserText :: "jstr option \<Rightarrow> jstr option" where
  "deriveTitleFromUserText userText = (if \<not> truthy_str userText then None
     else let txt = js_trim (replace_all (rplus rws) [32] (replace_all QUOTED_LINE_RE [] (replace_first BRANCH_COMMAND_RE [] (the userText))))
          in if txt = [] then None else Some (if 50 < length txt then take 50 txt @ [8230] else txt))"

definition BUSY_RE :: regex where
  "BUSY_RE = RAlt (rlit_i ''database is locked'') (rlit_i ''sqlite_busy'')"

definition BUSY_MESSAGE :: jstr where
  "BUSY_MESSAGE = js ''Momentary save conflict '' @ [8212] @ js '' your message was received but the response may need a retry.''"

definition humanizeDbError :: "jstr \<Rightarrow> jstr" where
  "humanizeDbError message = (if message = [] then message else if js_test BUSY_RE message then BUSY_MESSAGE else message)"

definition appendBranchOverviewEntry :: "BranchOverviewEntry list \<Rightarrow> jstr \<Rightarrow> int \<Rightarrow> BranchOverviewEntry list" where
  "appendBranchOverviewEntry entries text at =
     (let next = js_trim text
      in if next = [] then entries
         else if entries \<noteq> [] \<and> bo_text (last entries) = next then entries
         else entries @ [\<lparr>bo_at = at, bo_text = next\<rparr>])"

section \<open>Quotes and drafts\<close>

fun crlf_to_lf :: "jstr \<Rightarrow> jstr" where
  "crlf_to_lf (c # d # s) = (if c = 13 \<and> d = 10 then 10 # crlf_to_lf s else c # crlf_to_lf (d # s))"
| "crlf_to_lf s = s"

definition formatQuoteBlock :: "jstr \<Rightarrow> jstr" where
  "formatQuoteBlock quote = join_with [10]
     (map (\<lambda>line. if starts_with line (js ''>'') then line else js ''> '' @ line) (split_on 10 (crlf_to_lf (js_trim quote))))"

definition QUOTED_SELECTION_CONTEXT :: jstr where
  "QUOTED_SELECTION_CONTEXT = js ''Context: The user selected the passage below from the previous assistant reply. Treat it as source context, not as text authored by the user.''"

definition ATTACHED_CONTEXT :: jstr where
  "ATTACHED_CONTEXT = js ''Context: The user attached the material below in Michi: what was on screen, items they handed over (threads, blocks, rows) and any passage they selected. Treat it as source context, not as text authored by the user.''"

definition formatFileSnapshotContext :: "FileReadSnapshot \<Rightarrow> jstr" where
  "formatFileSnapshotContext s = js ''Read version: '' @ fs_hashKind s @ js '' '' @ fs_contentHash s @ js '' at '' @ [96] @ fs_resolvedFilePath s @ [96]
     @ js ''. The selected text and any line numbers belong to this already-read version. The current file may differ. This hash does not provide the old full file; verify the current file if more context is needed.''"

definition formatQuotedSelectionContext :: "jstr \<Rightarrow> AnyQuoteSource option \<Rightarrow> jstr" where
  "formatQuotedSelectionContext quote source =
     (let trimmedQuote = js_trim quote
      in if trimmedQuote = [] then []
         else case source of
            Some AttachedQuote \<Rightarrow> join_with [10] [ATTACHED_CONTEXT, [], js ''Attached context:'', formatQuoteBlock trimmedQuote]
          | Some (ArtifactQuote name filePath selector snapshot) \<Rightarrow>
              let label = (if truthy_str name then js ''artifact '' @ [34] @ the name @ [34] else js ''an artifact document'')
              in join_with [10]
                   [js ''Context: The user selected the passage below from '' @ label @ js '' at '' @ [96] @ filePath @ [96]
                      @ js ''. Treat it as source context, not as text authored by the user.'',
                    [], js ''Selected passage:'', formatQuoteBlock trimmedQuote, [],
                    (case snapshot of Some s \<Rightarrow> formatFileSnapshotContext s
                     | None \<Rightarrow> js ''The full document is available at '' @ [96] @ filePath @ [96] @ js ''. Read it if you need more context.'')]
          | None \<Rightarrow> join_with [10] [QUOTED_SELECTION_CONTEXT, [], js ''Selected assistant passage:'', formatQuoteBlock trimmedQuote])"

definition normalizeComposerDraft :: "ComposerDraft option \<Rightarrow> ComposerDraft option" where
  "normalizeComposerDraft draft = (case draft of None \<Rightarrow> None
     | Some d \<Rightarrow>
         let quotedText = (case cd_quotedText d of None \<Rightarrow> None | Some q \<Rightarrow> if js_trim q = [] then None else Some q)
         in if cd_value d = [] \<and> cd_mentions d = [] \<and> quotedText = None then None
            else Some \<lparr>cd_value = cd_value d, cd_mentions = cd_mentions d, cd_quotedText = quotedText,
                   cd_quoteSource = (if quotedText \<noteq> None then cd_quoteSource d else None)\<rparr>)"

definition composerDraftEqual :: "ComposerDraft option \<Rightarrow> ComposerDraft option \<Rightarrow> bool" where
  \<comment> \<open>\<open>JSON.stringify\<close> tells two quote sources apart exactly when they differ\<close>
  "composerDraftEqual a b = (case (a, b) of
      (None, None) \<Rightarrow> True
    | (Some x, Some y) \<Rightarrow> cd_value x = cd_value y \<and> default_to (cd_quotedText x) [] = default_to (cd_quotedText y) []
        \<and> cd_quoteSource x = cd_quoteSource y \<and> cd_mentions x = cd_mentions y
    | _ \<Rightarrow> False)"

definition shift_mention :: "nat \<Rightarrow> ComposerMention \<Rightarrow> ComposerMention" where
  "shift_mention k m = m\<lparr>mn_start := mn_start m + k, mn_end := mn_end m + k\<rparr>"

definition join_present :: "jstr \<Rightarrow> jstr option list \<Rightarrow> jstr" where
  \<comment> \<open>\<open>filter(Boolean).join(sep)\<close>\<close>
  "join_present sep xs = join_with sep (map the (filter truthy_str xs))"

definition prepend_draft :: "ComposerDraft \<Rightarrow> ComposerDraft \<Rightarrow> ComposerDraft" where
  \<comment> \<open>the incoming draft put before the current one\<close>
  "prepend_draft draft current =
     (let distinctSources = truthy_str (cd_quotedText draft) \<and> truthy_str (cd_quotedText current)
            \<and> cd_quoteSource draft \<noteq> cd_quoteSource current;
          prefix = (if distinctSources
            then formatQuotedSelectionContext (the (cd_quotedText draft)) (cd_quoteSource draft) @ [10, 10] else []);
          incomingValue = prefix @ cd_value draft;
          separator = (if incomingValue \<noteq> [] \<and> cd_value current \<noteq> [] then [10, 10] else []);
          offset = length incomingValue + length separator;
          quotedText = (if distinctSources then cd_quotedText current
            else truthy_of (Some (join_present [10, 10] [cd_quotedText draft, cd_quotedText current])));
          quoteSource = (if distinctSources then cd_quoteSource current
            else if truthy_str (cd_quotedText draft) then cd_quoteSource draft else cd_quoteSource current)
      in \<lparr>cd_value = incomingValue @ separator @ cd_value current,
          cd_mentions = map (shift_mention (length prefix)) (cd_mentions draft) @ map (shift_mention offset) (cd_mentions current),
          cd_quotedText = quotedText,
          cd_quoteSource = (if truthy_str quotedText then quoteSource else None)\<rparr>)"

end
