(* ===== verification/Chat_Turns.thy ===== *)
theory Chat_Turns
  imports Chat_State
begin

text \<open>
  The reducers of a turn (\<^verbatim>\<open>frontend/src/state/chatReducers.ts\<close>): sending, the frames of a stream, the end of a turn, errors,
  cancellation, requests to the user, rosters and usage. Each is a function of the node the action names; where the source
  returns the nodes as they are, the node is returned. \<open>now\<close> is the clock, read once per action. Whether the
  same object or an equal one is returned is not modelled.
\<close>

section \<open>Actions\<close>

datatype stream_action =
    ChunkA jstr "int option"
  | SteeringReportA "SteeringReport list"
  | ThoughtA jstr "int option"
  | PlanA "PlanEntry list"
  | ToolCallA DurableToolCall "int option"
  | ImageBlockA ImagePayload
  | ToolCallUpdateA DurableToolCall "int option"

record send_action =
  us_userText :: jstr
  us_assistantId :: jstr
  us_quotedText :: "jstr option"
  us_attachments :: "MessageAttachment list option"
  us_comments :: "jsval option"
  us_mentions :: "jsval option"
  us_keepDraft :: bool
  us_quoteSource :: "AnyQuoteSource option"

record observer_start =
  ob_turnId :: jstr
  ob_assistantId :: jstr
  ob_userText :: jstr
  ob_selfInitiated :: bool
  ob_userMetadata :: "(jstr \<times> jsval) list option"
  ob_foreground :: bool

record turn_failure =
  tf_assistantId :: jstr
  tf_message :: jstr
  tf_errorKind :: "jstr option"
  tf_recoverable :: "bool option"
  tf_completedAt :: "int option"
  tf_turnId :: "jstr option"

datatype cancel_state = CancelPending | CancelIsSettled | CancelFailed

datatype turn_action =
    UserSend send_action
  | SteerAcceptedA SteerAccepted "jstr option" "int option" \<comment> \<open>with \<open>assistantId\<close> and \<open>seq\<close> of the frame\<close>
  | ObserverTurnStart observer_start
  | ActiveTurn jstr jstr
  | ApplySeq jstr int
  | ApplyBackgroundSeq jstr int
  | BlockReset jstr
  | DoneA jstr "int option" bool
  | RecoverOriginalResult jstr jstr ChatMessage int bool \<comment> \<open>turn, assistant, message, last number, background\<close>
  | ErrorRecoveryA "error_recovery option"
  | ErrorA turn_failure
  | RealignAssistantId jstr jstr
  | HistoryPageLoaded "int \<times> jstr" "(int \<times> jstr) option" "ChatMessage list" nat
  | RetryTrim "nat option"
  | Heartbeat int
  | VisibleResponseComplete jstr
  | CancelPhaseA CancelPhase
  | OptimisticCancel
  | CompactionA bool
  | RuntimeActivity "jstr option" "jstr option"
  | CancelRecovery jstr cancel_state "jstr option"

datatype request_action =
    PermissionRequestA PermissionRequest
  | PermissionResolvedA "int option"
  | UserInputRequestA "jstr option" UserInputRequestState
  | UserInputResolvedA "int option" "jstr option" "UserInputAnswer list option" "InputOutcome option"

datatype roster_action =
    SubagentListUpdateA "jstr option" "SubagentPatch list"
  | SubagentToolActivityA "jstr option" SubagentActivityPayload
  | BackgroundSubagentsEnded jstr "SubagentEnd list"
  | ContextUsageA int
  | UsageSummaryA "jstr option" UsageSummary
  | WarningA "jstr option" RuntimeWarning
  | McpServerErrorA jstr jstr

section \<open>Messages of a node\<close>

definition local_frame :: "ChatStreamPayload \<Rightarrow> int option \<Rightarrow> jstr option \<Rightarrow> ChatStreamEvent" where
  \<comment> \<open>an event the reducer builds itself\<close>
  "local_frame d observedAt turnId = \<lparr>v_data = d, v_observedAt = observedAt, v_chatId = None, v_nodeId = None, v_turnId = turnId,
     v_seq = None, v_assistantId = None, v_source = None, v_confidence = None, v_nativeMethod = None\<rparr>"

definition map_message :: "jstr \<Rightarrow> (ChatMessage \<Rightarrow> ChatMessage) \<Rightarrow> ChatMessage list \<Rightarrow> ChatMessage list" where
  "map_message i f = map (\<lambda>m. if cm_id m = i then f m else m)"

definition project_onto :: "int \<Rightarrow> jstr \<Rightarrow> ChatStreamEvent \<Rightarrow> ChatNodeState \<Rightarrow> ChatMessage list" where
  "project_onto now i e n = map_message i (\<lambda>m. projectAssistantStreamEvent now m (cn_projectId n) e) (cn_messages n)"

definition latest_assistant :: "ChatMessage list \<Rightarrow> ChatMessage option" where
  "latest_assistant ms = find (\<lambda>m. cm_role m = AssistantRole) (rev ms)"

definition latestAssistantId :: "ChatNodeState \<Rightarrow> jstr option" where
  "latestAssistantId n = map_option cm_id (latest_assistant (cn_messages n))"

definition tail_id :: "ChatNodeState \<Rightarrow> jstr option" where
  \<comment> \<open>\<open>messages.at(-1)?.id\<close>\<close>
  "tail_id n = (if cn_messages n = [] then None else Some (cm_id (last (cn_messages n))))"

definition subagentTargetMessageId :: "ChatNodeState \<Rightarrow> jstr option \<Rightarrow> jstr option" where
  "subagentTargetMessageId n assistantId =
     (if truthy_str assistantId \<and> list_ex (\<lambda>m. cm_id m = the assistantId \<and> cm_role m = AssistantRole) (cn_messages n) then assistantId
      else if cn_messages n = [] then None
      else let tail = last (cn_messages n)
           in if cm_role tail = AssistantRole \<and> cm_streaming tail = Some True then Some (cm_id tail) else None)"

definition isLatestAssistant :: "ChatNodeState \<Rightarrow> jstr option \<Rightarrow> bool" where
  "isLatestAssistant n messageId \<longleftrightarrow> truthy_str messageId \<and> latestAssistantId n = messageId"

section \<open>Frames of the stream\<close>

definition tool_payload :: "DurableToolCall \<Rightarrow> ToolCallStreamPayload" where
  "tool_payload t = \<lparr>tc_toolCallId = d_id t, tc_title = d_title t, tc_status = d_status t, tc_kind = d_kind t,
     tc_detail = d_detail t, tc_inputJson = d_inputJson t, tc_output = d_output t\<rparr>"

fun stream_frame :: "stream_action \<Rightarrow> ChatStreamEvent" where
  "stream_frame (ChunkA text observedAt) = local_frame (Chunk text) observedAt None"
| "stream_frame (SteeringReportA reports) = local_frame (SteeringReportEvent reports) None None"
| "stream_frame (ThoughtA text observedAt) = local_frame (Thought text) observedAt None"
| "stream_frame (PlanA entries) = local_frame (Plan entries) None None"
| "stream_frame (ToolCallA tool observedAt) = local_frame (ToolCall (tool_payload tool)) observedAt None"
| "stream_frame (ImageBlockA img) = local_frame (Image img) None None"
| "stream_frame (ToolCallUpdateA tool observedAt) = local_frame (ToolCallUpdate (tool_payload tool)) observedAt None"

fun is_report :: "stream_action \<Rightarrow> bool" where
  "is_report (SteeringReportA _) = True"
| "is_report _ = False"

definition reduce_stream :: "int \<Rightarrow> jstr \<Rightarrow> stream_action \<Rightarrow> ChatNodeState \<Rightarrow> ChatNodeState" where
  "reduce_stream now assistantId a n =
     (let n1 = n\<lparr>cn_messages := project_onto now assistantId (stream_frame a) n\<rparr>
      in if is_report a then n1 else n1\<lparr>cn_streamingIdleMs := None\<rparr>)"

section \<open>Starting a turn\<close>

definition clear_error :: "ChatNodeState \<Rightarrow> ChatNodeState" where
  "clear_error n = n\<lparr>cn_error := None, cn_errorKind := None, cn_errorTurnId := None, cn_errorRecovery := None,
     cn_errorRecoverable := None, cn_errorCompletedAt := None\<rparr>"

definition start_turn :: "ChatNodeState \<Rightarrow> ChatNodeState" where
  \<comment> \<open>what a new turn resets of the one before\<close>
  "start_turn n = (clear_error n)\<lparr>cn_followUps := [], cn_followUpsGenerating := Some False,
     cn_visibleResponseComplete := Some False, cn_subagents := None, cn_usageSummary := None, cn_mcpServerError := None\<rparr>"

definition user_bubble :: "int \<Rightarrow> send_action \<Rightarrow> ChatMessage" where
  "user_bubble now a = (blank_message (js ''u-'' @ us_assistantId a) UserRole)
     \<lparr>cm_text := us_userText a, cm_createdAt := Some now, cm_quotedText := us_quotedText a,
      cm_quoteSource := (if truthy_str (us_quotedText a) then map_option SentQuote (us_quoteSource a) else None),
      cm_attachments := us_attachments a, cm_comments := us_comments a, cm_mentions := us_mentions a\<rparr>"

definition user_send :: "int \<Rightarrow> send_action \<Rightarrow> ChatNodeState \<Rightarrow> ChatNodeState" where
  "user_send now a n = (start_turn (if us_keepDraft a then n else n\<lparr>cn_composerDraft := None\<rparr>))
     \<lparr>cn_status := NodeStreaming, cn_activeTurnId := None, cn_runtimeActivity := None, cn_streamingStartedAt := Some now,
      cn_messages := cn_messages n @ [user_bubble now a, placeholder (us_assistantId a) now]\<rparr>"

definition steer_accepted :: "SteerAccepted \<Rightarrow> jstr option \<Rightarrow> int option \<Rightarrow> ChatNodeState \<Rightarrow> ChatNodeState" where
  "steer_accepted d assistantId seq n =
     (case (find_index (\<lambda>m. Some (cm_id m) = assistantId \<and> cm_role m = AssistantRole) (cn_messages n), steeredUserMessage d assistantId seq) of
        (Some index, Some durable) \<Rightarrow>
          let exists = list_ex (\<lambda>m. cm_id m = m_id durable) (cn_messages n);
              pendingQueued = map_option (filter (\<lambda>q. Some (pq_id q) \<noteq> sa_queueId d)) (cn_pendingQueued n)
          in if exists \<and> map_option length pendingQueued = map_option length (cn_pendingQueued n) then n
             else let row = mapUserRow (m_id durable) (m_content durable) (metadata_members (m_metadata durable)) (Some (m_createdAt durable));
                      message = (if truthy_str (sa_queueId d) then row\<lparr>cm_queueId := sa_queueId d\<rparr> else row)
                  in n\<lparr>cn_pendingQueued := (if has_items pendingQueued then pendingQueued else None),
                       cn_messages := (if exists then cn_messages n
                          else take index (cn_messages n) @ [message] @ drop index (cn_messages n))\<rparr>
      | _ \<Rightarrow> n)"

definition set_cursor :: "bool \<Rightarrow> jstr \<Rightarrow> int \<Rightarrow> ChatNodeState \<Rightarrow> ChatNodeState" where
  "set_cursor foreground turnId seq n =
     (if foreground then n\<lparr>cn_lastAppliedTurnId := Some turnId, cn_lastAppliedSeq := Some seq\<rparr>
      else n\<lparr>cn_lastAppliedBackgroundTurnId := Some turnId, cn_lastAppliedBackgroundSeq := Some seq\<rparr>)"

definition observer_turn_start :: "int \<Rightarrow> observer_start \<Rightarrow> ChatNodeState \<Rightarrow> ChatNodeState" where
  "observer_turn_start now a n =
     (if list_ex (\<lambda>m. cm_id m = ob_assistantId a) (cn_messages n)
      then let seq = max (default_to (if ob_foreground a then cn_lastAppliedSeq n else cn_lastAppliedBackgroundSeq n) 0) 0
           in set_cursor (ob_foreground a) (ob_turnId a) seq
                ((clear_error n)\<lparr>cn_status := NodeStreaming, cn_activeTurnId := Some (ob_turnId a),
                   cn_streamingStartedAt := Some (default_to (cn_streamingStartedAt n) now), cn_visibleResponseComplete := Some False\<rparr>)
      else let user = (if \<not> ob_selfInitiated a \<or> ob_userText a \<noteq> []
                then [mapUserRow (js ''u-'' @ ob_assistantId a) (ob_userText a) (default_to (ob_userMetadata a) []) (Some now)] else [])
           in set_cursor (ob_foreground a) (ob_turnId a) 0
                ((start_turn n)\<lparr>cn_status := NodeStreaming, cn_streamingStartedAt := Some now, cn_activeTurnId := Some (ob_turnId a),
                   cn_runtimeActivity := None, cn_messages := cn_messages n @ user @ [placeholder (ob_assistantId a) now]\<rparr>))"

section \<open>Ending a turn\<close>

definition end_frame :: "bool \<Rightarrow> int option \<Rightarrow> ChatStreamEvent" where
  \<comment> \<open>the \<open>done\<close> frame the reducers build\<close>
  "end_frame aborted completedAt = local_frame (Done \<lparr>do_stopReason = Some (if aborted then js ''cancelled'' else js ''end_turn''),
     do_persisted = Some True, do_completedAt = completedAt\<rparr>) None None"

definition turn_metadata :: "jstr \<Rightarrow> ChatMessage list \<Rightarrow> jstr option \<times> jstr option \<times> jstr list" where
  "turn_metadata i ms = (case filter (\<lambda>m. cm_id m = i) ms of [] \<Rightarrow> (None, None, []) | xs \<Rightarrow> assistantMetadata (last xs))"

definition has_title :: "ChatNodeState \<Rightarrow> bool" where
  "has_title n \<longleftrightarrow> (case cn_title n of None \<Rightarrow> False | Some t \<Rightarrow> js_trim t \<noteq> [])"

definition settle_input :: "UserInputRequestState option \<Rightarrow> UserInputRequestState option" where
  \<comment> \<open>an open question goes with its turn, an answered one stays\<close>
  "settle_input p = (case p of None \<Rightarrow> None | Some u \<Rightarrow> if pu_resolved u = Some True then Some u else None)"

definition release_tail :: "jstr \<Rightarrow> ChatNodeState \<Rightarrow> jstr option" where
  "release_tail assistantId n =
     (if cn_backgroundTurnAssistantId n = Some assistantId then None else cn_backgroundTurnAssistantId n)"

definition overview_after :: "int \<Rightarrow> jstr \<Rightarrow> jstr option \<Rightarrow> ChatNodeState \<Rightarrow> BranchOverviewEntry list option \<times> jstr option" where
  "overview_after now assistantId extracted n =
     (if cn_branchOverviewSourceMessageId n = Some assistantId \<or> \<not> truthy_str extracted
      then (cn_branchOverviewEntries n, cn_branchOverview n)
      else let prev = default_to (cn_branchOverviewEntries n) [];
               next = appendBranchOverviewEntry prev (the extracted) now
           in (Some next, if next = prev then cn_branchOverview n else Some (bo_text (last next))))"

definition first_user_text :: "ChatNodeState \<Rightarrow> jstr option" where
  "first_user_text n = map_option cm_text (find (\<lambda>m. cm_role m = UserRole) (cn_messages n))"

definition turn_done :: "int \<Rightarrow> jstr \<Rightarrow> int option \<Rightarrow> bool \<Rightarrow> ChatNodeState \<Rightarrow> ChatNodeState" where
  "turn_done now assistantId completedAt aborted n =
     (let msgs = project_onto now assistantId (end_frame aborted completedAt) n;
          (title, overview, followUps) = turn_metadata assistantId (cn_messages n);
          at = default_to completedAt now
      in if latestAssistantId n \<noteq> Some assistantId
         then n\<lparr>cn_messages := msgs, cn_lastAssistantAt := Some at, cn_backgroundTurnAssistantId := release_tail assistantId n\<rparr>
         else let fallbackTitle = (if \<not> has_title n \<and> \<not> truthy_str title \<and> cn_kind n = ChatKind
                    then deriveTitleFromUserText (first_user_text n) else None);
                  lockedTitle = (if has_title n then cn_title n else nullish title (nullish fallbackTitle (cn_title n)))
              in n\<lparr>cn_titleNeedsPersistence := (if truthy_str fallbackTitle \<and> lockedTitle = fallbackTitle then Some True
                        else cn_titleNeedsPersistence n),
                   cn_status := NodeIdle, cn_cancelPhase := None, cn_activeTurnId := None, cn_compacting := None,
                   cn_runtimeActivity := None, cn_visibleResponseComplete := Some False,
                   cn_backgroundTurnAssistantId := release_tail assistantId n,
                   cn_streamingStartedAt := None, cn_error := None, cn_errorKind := None, cn_errorTurnId := None,
                   cn_errorRecovery := None, cn_streamingIdleMs := None, cn_mcpServerError := None,
                   cn_pendingPermission := None, cn_pendingUserInput := settle_input (cn_pendingUserInput n),
                   cn_subagents := finalizeSubagentRoster (cn_subagents n) aborted now,
                   cn_messages := msgs, cn_lastAssistantAt := Some at,
                   cn_followUps := (if followUps \<noteq> [] then followUps else cn_followUps n),
                   cn_followUpsGenerating := Some False,
                   cn_followUpsSourceMessageId := (if followUps \<noteq> [] then Some assistantId else cn_followUpsSourceMessageId n),
                   cn_title := lockedTitle,
                   cn_branchOverviewEntries := fst (overview_after now assistantId overview n),
                   cn_branchOverview := snd (overview_after now assistantId overview n)\<rparr>)"

definition turn_failed :: "int \<Rightarrow> turn_failure \<Rightarrow> ChatNodeState \<Rightarrow> ChatNodeState" where
  "turn_failed now a n =
     (let i = tf_assistantId a; tail = cn_backgroundTurnAssistantId n = Some i;
          msgs = project_onto now i
            (if tail then end_frame False None
             else local_frame (Error \<lparr>er_message = tf_message a, er_code = tf_errorKind a, er_recoverable = tf_recoverable a,
                    er_completedAt = tf_completedAt a\<rparr>) None None) n
      in if tail
         then n\<lparr>cn_status := (if cn_status n = NodeError then NodeIdle else cn_status n),
                cn_visibleResponseComplete := (if cn_status n = NodeIdle then Some False else cn_visibleResponseComplete n),
                cn_backgroundTurnAssistantId := None, cn_messages := msgs, cn_followUpsGenerating := Some False\<rparr>
         else if truthy_str (latestAssistantId n) \<and> latestAssistantId n \<noteq> Some i then n\<lparr>cn_messages := msgs\<rparr>
         else n\<lparr>cn_status := NodeError, cn_cancelPhase := None, cn_activeTurnId := None, cn_compacting := None,
                cn_runtimeActivity := None, cn_visibleResponseComplete := Some False, cn_streamingStartedAt := None,
                cn_error := Some (humanizeDbError (tf_message a)), cn_errorKind := tf_errorKind a,
                cn_errorTurnId := nullish (tf_turnId a) (cn_activeTurnId n), cn_errorRecovery := None,
                cn_errorRecoverable := tf_recoverable a, cn_errorCompletedAt := tf_completedAt a, cn_messages := msgs,
                cn_streamingIdleMs := None, cn_pendingPermission := None,
                cn_pendingUserInput := settle_input (cn_pendingUserInput n), cn_followUpsGenerating := Some False\<rparr>)"

section \<open>The other actions on a turn\<close>

definition active_turn :: "jstr \<Rightarrow> jstr \<Rightarrow> ChatNodeState \<Rightarrow> ChatNodeState" where
  "active_turn assistantId turnId n =
     (if cn_status n \<noteq> NodeStreaming \<or> tail_id n \<noteq> Some assistantId then n else n\<lparr>cn_activeTurnId := Some turnId\<rparr>)"

definition apply_seq :: "jstr \<Rightarrow> int \<Rightarrow> ChatNodeState \<Rightarrow> ChatNodeState" where
  "apply_seq turnId seq n =
     (let prev = (if cn_lastAppliedTurnId n = Some turnId then default_to (cn_lastAppliedSeq n) (-1) else -1)
      in if seq \<le> prev then n else n\<lparr>cn_lastAppliedTurnId := Some turnId, cn_lastAppliedSeq := Some seq\<rparr>)"

definition apply_background_seq :: "jstr \<Rightarrow> int \<Rightarrow> ChatNodeState \<Rightarrow> ChatNodeState" where
  "apply_background_seq turnId seq n =
     (let prev = (if cn_lastAppliedBackgroundTurnId n = Some turnId then default_to (cn_lastAppliedBackgroundSeq n) (-1) else -1)
      in if seq \<le> prev then n else n\<lparr>cn_lastAppliedBackgroundTurnId := Some turnId, cn_lastAppliedBackgroundSeq := Some seq\<rparr>)"

definition block_reset :: "jstr \<Rightarrow> ChatNodeState \<Rightarrow> ChatNodeState" where
  "block_reset assistantId n = n\<lparr>cn_visibleResponseComplete := Some False,
     cn_messages := map_message assistantId (\<lambda>m. m\<lparr>cm_text := [], cm_blocks := Some [], cm_toolCalls := [],
       cm_steeringReports := None, cm_streaming := Some True\<rparr>) (cn_messages n),
     cn_lastAppliedTurnId := None, cn_lastAppliedSeq := None\<rparr>"

definition owns_result :: "jstr \<Rightarrow> jstr \<Rightarrow> ChatNodeState \<Rightarrow> bool" where
  "owns_result turnId assistantId n =
     (if cn_status n = NodeError then cn_errorTurnId n = Some turnId
      else cn_status n = NodeStreaming \<and> (cn_activeTurnId n = None \<or> cn_activeTurnId n = Some turnId)
        \<and> latestAssistantId n = Some assistantId)"

definition recover_original_result :: "jstr \<Rightarrow> jstr \<Rightarrow> ChatMessage \<Rightarrow> int \<Rightarrow> bool \<Rightarrow> ChatNodeState \<Rightarrow> ChatNodeState" where
  "recover_original_result turnId assistantId assistant lastSeq background n =
     (if \<not> owns_result turnId assistantId n then n
      else set_cursor (\<not> background) turnId lastSeq (n\<lparr>cn_messages := map_message assistantId (\<lambda>_. assistant) (cn_messages n)\<rparr>))"

definition rename_message :: "jstr \<Rightarrow> jstr \<Rightarrow> ChatMessage \<Rightarrow> ChatMessage" where
  "rename_message from to m =
     (if cm_id m = from then m\<lparr>cm_id := to, cm_clientKey := Some (default_to (cm_clientKey m) (cm_id m))\<rparr>
      else if cm_id m = js ''u-'' @ from then m\<lparr>cm_id := js ''u-'' @ to, cm_clientKey := Some (default_to (cm_clientKey m) (cm_id m))\<rparr>
      else m)"

definition realign_assistant_id :: "jstr \<Rightarrow> jstr \<Rightarrow> ChatNodeState \<Rightarrow> ChatNodeState" where
  "realign_assistant_id from to n =
     (if from = to \<or> list_ex (\<lambda>m. cm_id m = to) (cn_messages n) then n
      else n\<lparr>cn_messages := map (rename_message from to) (cn_messages n)\<rparr>)"

definition history_page_loaded ::
  "int \<times> jstr \<Rightarrow> (int \<times> jstr) option \<Rightarrow> ChatMessage list \<Rightarrow> nat \<Rightarrow> ChatNodeState \<Rightarrow> ChatNodeState" where
  "history_page_loaded expectedBefore before page rows n =
     (if cn_historyBefore n \<noteq> Some expectedBefore then n
      else let messages = filter (\<lambda>m. cm_id m \<notin> cm_id ` set (cn_messages n)) page @ cn_messages n
           in n\<lparr>cn_messages := messages, cn_historyBefore := before, cn_messagesLoaded := Some (before = None),
                cn_messageCount := Some (max rows (length messages))\<rparr>)"

definition trimmed :: "nat option \<Rightarrow> ChatMessage list \<Rightarrow> ChatMessage list" where
  "trimmed fromIndex ms = (case fromIndex of
      Some i \<Rightarrow> take i ms
    | None \<Rightarrow> let len = length ms
        in if 2 \<le> len \<and> cm_role (ms ! (len - 1)) = AssistantRole \<and> cm_role (ms ! (len - 2)) = UserRole then take (len - 2) ms
           else if 1 \<le> len \<and> cm_role (ms ! (len - 1)) = AssistantRole then take (len - 1) ms
           else ms)"

definition retry_trim :: "nat option \<Rightarrow> ChatNodeState \<Rightarrow> ChatNodeState" where
  "retry_trim fromIndex n =
     (let msgs = trimmed fromIndex (cn_messages n)
      in n\<lparr>cn_status := NodeIdle, cn_visibleResponseComplete := Some False, cn_streamingStartedAt := None, cn_error := None,
           cn_errorKind := None, cn_errorTurnId := None, cn_errorRecovery := None, cn_streamingIdleMs := None, cn_messages := msgs,
           cn_followUpsSourceMessageId := (if truthy_str (cn_followUpsSourceMessageId n)
               \<and> the (cn_followUpsSourceMessageId n) \<in> cm_id ` set msgs then cn_followUpsSourceMessageId n else None),
           cn_chatId := None, cn_resumeFingerprint := None\<rparr>)"

definition visible_response_complete :: "jstr \<Rightarrow> ChatNodeState \<Rightarrow> ChatNodeState" where
  "visible_response_complete assistantId n =
     (if cn_status n \<noteq> NodeStreaming \<or> cn_visibleResponseComplete n = Some True then n
      else if \<not> list_ex (\<lambda>m. cm_id m = assistantId \<and> cm_role m = AssistantRole) (cn_messages n) then n
      else n\<lparr>cn_status := NodeIdle, cn_visibleResponseComplete := Some True, cn_backgroundTurnAssistantId := Some assistantId,
             cn_streamingStartedAt := None, cn_streamingIdleMs := None,
             cn_messages := map_message assistantId finalizeAssistantBlocks (cn_messages n)\<rparr>)"

definition optimistic_cancel :: "ChatNodeState \<Rightarrow> ChatNodeState" where
  "optimistic_cancel n = (if cn_status n \<noteq> NodeStreaming then n
     else n\<lparr>cn_status := NodeIdle, cn_cancelPhase := None, cn_compacting := None, cn_runtimeActivity := None,
            cn_visibleResponseComplete := Some False, cn_streamingStartedAt := None, cn_streamingIdleMs := None,
            cn_pendingPermission := None, cn_pendingUserInput := settle_input (cn_pendingUserInput n), cn_followUpsGenerating := Some False\<rparr>)"

definition CANCEL_FAILED :: jstr where
  "CANCEL_FAILED = js ''Cancellation cleanup failed. Retry to check the original session.''"

definition cancel_recovery :: "int \<Rightarrow> jstr \<Rightarrow> cancel_state \<Rightarrow> jstr option \<Rightarrow> ChatNodeState \<Rightarrow> ChatNodeState" where
  "cancel_recovery now assistantId state detail n =
     (if cn_status n \<noteq> NodeIdle \<or> tail_id n \<noteq> Some assistantId then n
      else if state = CancelFailed
        then turn_failed now \<lparr>tf_assistantId = assistantId, tf_message = default_to detail CANCEL_FAILED, tf_errorKind = None,
               tf_recoverable = None, tf_completedAt = None, tf_turnId = None\<rparr> n
      else n\<lparr>cn_runtimeActivity := (if state = CancelPending then detail else None)\<rparr>)"

fun reduce_turn :: "int \<Rightarrow> turn_action \<Rightarrow> ChatNodeState \<Rightarrow> ChatNodeState" where
  "reduce_turn now (UserSend a) n = user_send now a n"
| "reduce_turn now (SteerAcceptedA d assistantId seq) n = steer_accepted d assistantId seq n"
| "reduce_turn now (ObserverTurnStart a) n = observer_turn_start now a n"
| "reduce_turn now (ActiveTurn assistantId turnId) n = active_turn assistantId turnId n"
| "reduce_turn now (ApplySeq turnId seq) n = apply_seq turnId seq n"
| "reduce_turn now (ApplyBackgroundSeq turnId seq) n = apply_background_seq turnId seq n"
| "reduce_turn now (BlockReset assistantId) n = block_reset assistantId n"
| "reduce_turn now (DoneA assistantId completedAt aborted) n = turn_done now assistantId completedAt aborted n"
| "reduce_turn now (RecoverOriginalResult turnId assistantId assistant lastSeq background) n =
     recover_original_result turnId assistantId assistant lastSeq background n"
| "reduce_turn now (ErrorRecoveryA state) n = n\<lparr>cn_errorRecovery := state\<rparr>"
| "reduce_turn now (ErrorA a) n = turn_failed now a n"
| "reduce_turn now (RealignAssistantId from to) n = realign_assistant_id from to n"
| "reduce_turn now (HistoryPageLoaded expectedBefore before page rows) n = history_page_loaded expectedBefore before page rows n"
| "reduce_turn now (RetryTrim fromIndex) n = retry_trim fromIndex n"
| "reduce_turn now (Heartbeat idleMs) n = (if cn_status n \<noteq> NodeStreaming then n else n\<lparr>cn_streamingIdleMs := Some idleMs\<rparr>)"
| "reduce_turn now (VisibleResponseComplete assistantId) n = visible_response_complete assistantId n"
| "reduce_turn now (CancelPhaseA phase) n = n\<lparr>cn_cancelPhase := Some phase\<rparr>"
| "reduce_turn now OptimisticCancel n = optimistic_cancel n"
| "reduce_turn now (CompactionA active) n = n\<lparr>cn_compacting := (if active then Some True else None)\<rparr>"
| "reduce_turn now (RuntimeActivity assistantId detail) n =
     (if cn_status n \<noteq> NodeStreaming \<or> truthy_str assistantId \<and> tail_id n \<noteq> assistantId then n
      else n\<lparr>cn_runtimeActivity := detail\<rparr>)"
| "reduce_turn now (CancelRecovery assistantId state detail) n = cancel_recovery now assistantId state detail n"

section \<open>Requests to the user\<close>

definition input_frame :: "ChatNodeState \<Rightarrow> UserInputRequestState \<Rightarrow> ChatStreamEvent" where
  "input_frame n u = local_frame (UserInputRequest \<lparr>ur_requestId = pu_requestId u, ur_interactionId = pu_interactionId u,
     ur_questions = pu_questions u\<rparr>) None (cn_activeTurnId n)"

definition user_input_request :: "int \<Rightarrow> jstr option \<Rightarrow> UserInputRequestState \<Rightarrow> ChatNodeState \<Rightarrow> ChatNodeState" where
  "user_input_request now assistantId u n =
     (let ms = cn_messages n;
          index = (if truthy_str assistantId then find_index (\<lambda>m. cm_id m = the assistantId) ms
                   else if ms = [] then None else Some (length ms - 1));
          msgs = (case index of None \<Rightarrow> ms
            | Some i \<Rightarrow> if cm_role (ms ! i) = AssistantRole
                then ms[i := projectAssistantStreamEvent now (ms ! i) (cn_projectId n) (input_frame n u)] else ms);
          at_end = (case index of None \<Rightarrow> ms = [] | Some i \<Rightarrow> i = length ms - 1)
      in n\<lparr>cn_messages := msgs,
           cn_pendingUserInput := (if at_end then Some (u\<lparr>pu_receivedAt := Some (default_to (pu_receivedAt u) now)\<rparr>)
             else cn_pendingUserInput n)\<rparr>)"

definition user_input_resolved ::
  "int \<Rightarrow> int option \<Rightarrow> jstr option \<Rightarrow> UserInputAnswer list option \<Rightarrow> InputOutcome option \<Rightarrow> ChatNodeState \<Rightarrow> ChatNodeState" where
  "user_input_resolved now requestId interactionId answers outcome n =
     (case nullish requestId (map_option pu_requestId (cn_pendingUserInput n)) of
        None \<Rightarrow> n
      | Some request \<Rightarrow>
          let pending = cn_pendingUserInput n;
              interaction = nullish interactionId (case pending of None \<Rightarrow> None
                | Some p \<Rightarrow> if pu_requestId p = request then pu_interactionId p else None);
              given = default_to answers [];
              e = local_frame (UserInputResolvedEvent \<lparr>us_requestId = request, us_interactionId = interaction, us_answers = given,
                    us_outcome = outcome\<rparr>) None (cn_activeTurnId n)
          in n\<lparr>cn_messages := map (\<lambda>m. if cm_role m \<noteq> AssistantRole then m else projectAssistantStreamEvent now m (cn_projectId n) e) (cn_messages n),
               cn_pendingUserInput := (case pending of None \<Rightarrow> None
                 | Some p \<Rightarrow>
                     let matches = pu_requestId p = request \<and> (\<not> truthy_str interaction \<or> \<not> truthy_str (pu_interactionId p)
                           \<or> pu_interactionId p = interaction);
                         preserveAnswers = pu_resolved p = Some True \<and> pu_answers p \<noteq> [] \<and> given = []
                     in if matches \<and> \<not> preserveAnswers then Some (p\<lparr>pu_resolved := Some True, pu_answers := given\<rparr>) else Some p)\<rparr>)"

fun reduce_request :: "int \<Rightarrow> request_action \<Rightarrow> ChatNodeState \<Rightarrow> ChatNodeState" where
  "reduce_request now (PermissionRequestA p) n = n\<lparr>cn_pendingPermission := Some p\<rparr>"
| "reduce_request now (PermissionResolvedA requestId) n =
     (if requestId \<noteq> None \<and> map_option pr_requestId (cn_pendingPermission n) \<noteq> requestId then n else n\<lparr>cn_pendingPermission := None\<rparr>)"
| "reduce_request now (UserInputRequestA assistantId u) n = user_input_request now assistantId u n"
| "reduce_request now (UserInputResolvedA requestId interactionId answers outcome) n =
     user_input_resolved now requestId interactionId answers outcome n"

section \<open>Rosters, usage and warnings\<close>

definition subagent_list_update :: "int \<Rightarrow> jstr option \<Rightarrow> SubagentPatch list \<Rightarrow> ChatNodeState \<Rightarrow> ChatNodeState" where
  "subagent_list_update now assistantId patches n =
     (if patches = [] then n
      else let targetId = subagentTargetMessageId n assistantId
           in n\<lparr>cn_subagents := (if isLatestAssistant n targetId then Some (mergeSubagentRoster (cn_subagents n) patches now) else cn_subagents n),
                cn_messages := (if truthy_str targetId
                  then project_onto now (the targetId) (local_frame (SubagentListUpdate patches) None None) n else cn_messages n)\<rparr>)"

definition subagent_tool_activity :: "int \<Rightarrow> jstr option \<Rightarrow> SubagentActivityPayload \<Rightarrow> ChatNodeState \<Rightarrow> ChatNodeState" where
  "subagent_tool_activity now assistantId payload n =
     (let targetId = subagentTargetMessageId n assistantId;
          target = (if truthy_str targetId then find (\<lambda>m. cm_id m = the targetId) (cn_messages n) else None);
          e = local_frame (SubagentToolActivity payload) None None
      in n\<lparr>cn_subagents := (if isLatestAssistant n targetId then applySubagentActivity (cn_subagents n) payload now else cn_subagents n),
           cn_messages := (case target of None \<Rightarrow> cn_messages n
             | Some t \<Rightarrow>
                 let projected = projectAssistantStreamEvent now t (cn_projectId n) e
                 in if list_ex (\<lambda>s. s_sessionId s = y_subagentSessionId payload) (default_to (cm_subagents t) [])
                       \<and> cm_subagents projected \<noteq> cm_subagents t
                    then (case find_index (\<lambda>m. cm_id m = cm_id t) (cn_messages n) of None \<Rightarrow> cn_messages n
                          | Some i \<Rightarrow> (cn_messages n)[i := projected])
                    else cn_messages n)\<rparr>)"

definition end_roster :: "SubagentEnd list \<Rightarrow> SubagentInfo list option \<Rightarrow> SubagentInfo list option" where
  "end_roster ends r = (if has_items r then map_option (\<lambda>xs. endBackgroundSubagents xs ends) r else r)"

definition background_subagents_ended :: "jstr \<Rightarrow> SubagentEnd list \<Rightarrow> ChatNodeState \<Rightarrow> ChatNodeState" where
  "background_subagents_ended workspaceId ends n =
     (if cn_projectId n \<noteq> workspaceId \<or> ends = [] then n
      else n\<lparr>cn_messages := map (\<lambda>m. if cm_role m \<noteq> AssistantRole then m else m\<lparr>cm_subagents := end_roster ends (cm_subagents m)\<rparr>) (cn_messages n),
             cn_subagents := end_roster ends (cn_subagents n)\<rparr>)"

definition usage_summary :: "int \<Rightarrow> jstr option \<Rightarrow> UsageSummary \<Rightarrow> ChatNodeState \<Rightarrow> ChatNodeState" where
  "usage_summary now assistantId usage n =
     (let last_id = latestAssistantId n; own = (\<not> truthy_str assistantId \<or> assistantId = last_id)
      in n\<lparr>cn_messages := (case nullish assistantId last_id of None \<Rightarrow> cn_messages n
             | Some i \<Rightarrow> project_onto now i (local_frame (UsageSummaryEvent usage) None None) n),
           cn_contextUsagePercentage := (if own then nullish (us_contextUsagePercentage usage) (cn_contextUsagePercentage n) else cn_contextUsagePercentage n),
           cn_usageSummary := (if own then Some (usage\<lparr>us_contextUsagePercentage := None\<rparr>) else cn_usageSummary n)\<rparr>)"

definition runtime_warning :: "int \<Rightarrow> jstr option \<Rightarrow> RuntimeWarning \<Rightarrow> ChatNodeState \<Rightarrow> ChatNodeState" where
  "runtime_warning now assistantId w n =
     (let last_id = latestAssistantId n
      in n\<lparr>cn_warning := (if \<not> truthy_str assistantId \<or> assistantId = last_id then Some w else cn_warning n),
           cn_messages := (case nullish assistantId last_id of None \<Rightarrow> cn_messages n
             | Some i \<Rightarrow> project_onto now i (local_frame (Warning w) None None) n)\<rparr>)"

fun reduce_roster :: "int \<Rightarrow> roster_action \<Rightarrow> ChatNodeState \<Rightarrow> ChatNodeState" where
  "reduce_roster now (SubagentListUpdateA assistantId patches) n = subagent_list_update now assistantId patches n"
| "reduce_roster now (SubagentToolActivityA assistantId payload) n = subagent_tool_activity now assistantId payload n"
| "reduce_roster now (BackgroundSubagentsEnded workspaceId ends) n = background_subagents_ended workspaceId ends n"
| "reduce_roster now (ContextUsageA percentage) n = n\<lparr>cn_contextUsagePercentage := Some percentage\<rparr>"
| "reduce_roster now (UsageSummaryA assistantId usage) n = usage_summary now assistantId usage n"
| "reduce_roster now (WarningA assistantId w) n = runtime_warning now assistantId w n"
| "reduce_roster now (McpServerErrorA serverName error) n = n\<lparr>cn_mcpServerError := Some (serverName, error)\<rparr>"

end
