(* ===== verification/Chat_Edits.thy ===== *)
theory Chat_Edits
  imports Chat_Turns
begin

text \<open>
  The rest of the reducers of one node (\<^verbatim>\<open>frontend/src/state/chatReducers.ts\<close>): titles, overviews and follow-ups, what the
  user composes and queues, the session the node is bound to, how the node is shown, and the documents of artifact and digest
  nodes. As in \<^verbatim>\<open>Chat_Turns\<close>, where the source returns the nodes as they are the node is returned.
\<close>

section \<open>Actions\<close>

datatype label_action =
    SetTitle jstr
  | SetBranchOverview jstr "jstr option"
  | RenameNode jstr
  | SetFollowUps "jstr list"
  | FollowUpsStatusA FollowUpsStatus

datatype compose_action =
    SetComposerDraft "ComposerDraft option" bool \<comment> \<open>with \<open>preserveExisting\<close>\<close>
  | AddComment PendingComment
  | EditComment jstr jstr
  | RemoveComment jstr
  | ClearComments
  | QueueMessage PendingQueuedMessage
  | QueueSteering jstr bool
  | DequeueMessage jstr
  | FlushQueue
  | MarkQueueErrored

record chat_binding =
  cb_runtimeId :: "jstr option"
  cb_providerId :: "jstr option option"
  cb_modelId :: "jstr option option"
  cb_reasoning :: "RuntimeReasoning option option"
  cb_currentModeId :: "jstr option option"

datatype session_action =
    SetPermissionMode ChatPermissionMode "bool option"
  | BindChat chat_binding
  | UnbindChat
  | SessionStateA AgentSessionState
  | SetCommands "AgentCommand list"
  | SetCurrentMode jstr
  | CommandResultA jstr command_status jstr
  | SpawnPromptStarted

datatype view_action =
    SetMinimized bool
  | SetPosition int int
  | SetPaneWidth "int option"
  | PinNode int
  | UnpinNode
  | NodeViewed int
  | ConsumeLinks "jstr list"
  | ForgetConsumedLink jstr

datatype artifact_action =
    ArtifactLoading
  | ArtifactLoaded jstr jstr jstr int int \<comment> \<open>content, basename, extension, size, time of change\<close>
  | ArtifactError jstr
  | ArtifactSetView view_mode
  | ArtifactMarkStale
  | ArtifactMarkRemoved

datatype digest_action =
    DigestStarted
  | DigestChunk jstr
  | DigestThought jstr
  | DigestStatusA jstr
  | DigestGenerated jstr "(jstr \<times> jstr) list" int "jstr list option"
  | DigestError jstr
  | DigestSetPrompt jstr
  | DigestViewed int

section \<open>Titles, overviews and follow-ups\<close>

definition set_title :: "jstr \<Rightarrow> ChatNodeState \<Rightarrow> ChatNodeState" where
  "set_title title n =
     (let next = js_trim title
      in if next = [] \<or> cn_title n = Some next then n
         else if cn_kind n = ChatKind \<and> has_title n then n
         else n\<lparr>cn_title := Some next,
                cn_titleNeedsPersistence := (if cn_kind n = DigestKind then Some True else cn_titleNeedsPersistence n)\<rparr>)"

definition set_branch_overview :: "int \<Rightarrow> jstr \<Rightarrow> jstr option \<Rightarrow> ChatNodeState \<Rightarrow> ChatNodeState" where
  "set_branch_overview now overview assistantId n =
     (let next = js_trim overview; prev = default_to (cn_branchOverviewEntries n) [];
          entries = appendBranchOverviewEntry prev next now
      in if next = [] \<or> entries = prev then n
         else n\<lparr>cn_branchOverviewEntries := Some entries, cn_branchOverview := Some (bo_text (last entries)),
                cn_branchOverviewSourceMessageId := (if truthy_str assistantId then assistantId else cn_branchOverviewSourceMessageId n)\<rparr>)"

definition rename_node :: "jstr \<Rightarrow> ChatNodeState \<Rightarrow> ChatNodeState" where
  "rename_node title n =
     (let next = js_trim title
      in if next = [] \<or> cn_title n = Some next then n
         else n\<lparr>cn_title := Some next, cn_titleNeedsPersistence := Some True\<rparr>)"

definition set_follow_ups :: "jstr list \<Rightarrow> ChatNodeState \<Rightarrow> ChatNodeState" where
  "set_follow_ups followUps n =
     n\<lparr>cn_followUps := take 3 (filter (\<lambda>s. s \<noteq> []) (map js_trim followUps)),
       cn_followUpsGenerating := Some (default_to (cn_followUpsGenerating n) False),
       cn_followUpsSourceMessageId := latestAssistantId n\<rparr>"

definition follow_ups_status :: "FollowUpsStatus \<Rightarrow> ChatNodeState \<Rightarrow> ChatNodeState" where
  "follow_ups_status status n =
     (let next = (status = FollowInProgress)
      in if default_to (cn_followUpsGenerating n) False = next then n else n\<lparr>cn_followUpsGenerating := Some next\<rparr>)"

fun reduce_label :: "int \<Rightarrow> label_action \<Rightarrow> ChatNodeState \<Rightarrow> ChatNodeState" where
  "reduce_label now (SetTitle title) n = set_title title n"
| "reduce_label now (SetBranchOverview overview assistantId) n = set_branch_overview now overview assistantId n"
| "reduce_label now (RenameNode title) n = rename_node title n"
| "reduce_label now (SetFollowUps followUps) n = set_follow_ups followUps n"
| "reduce_label now (FollowUpsStatusA status) n = follow_ups_status status n"

section \<open>Composing and queueing\<close>

definition set_composer_draft :: "ComposerDraft option \<Rightarrow> bool \<Rightarrow> ChatNodeState \<Rightarrow> ChatNodeState" where
  "set_composer_draft given preserveExisting n =
     (let normalized = normalizeComposerDraft given;
          draft = (case (preserveExisting, normalized, cn_composerDraft n) of
              (True, Some d, Some current) \<Rightarrow> Some (prepend_draft d current)
            | _ \<Rightarrow> normalized)
      in if composerDraftEqual (cn_composerDraft n) draft then n else n\<lparr>cn_composerDraft := draft\<rparr>)"

definition add_comment :: "PendingComment \<Rightarrow> ChatNodeState \<Rightarrow> ChatNodeState" where
  "add_comment c n =
     (let existing = default_to (cn_pendingComments n) []
      in if list_ex (\<lambda>d. pc_id d = pc_id c) existing then n else n\<lparr>cn_pendingComments := Some (existing @ [c])\<rparr>)"

definition edit_comment :: "jstr \<Rightarrow> jstr \<Rightarrow> ChatNodeState \<Rightarrow> ChatNodeState" where
  "edit_comment commentId body n =
     (let comments = default_to (cn_pendingComments n) []; trimmed = js_trim body
      in case find_index (\<lambda>c. pc_id c = commentId) comments of None \<Rightarrow> n
         | Some i \<Rightarrow> if trimmed = [] \<or> trimmed = pc_body (comments ! i) then n
             else n\<lparr>cn_pendingComments := Some (comments[i := (comments ! i)\<lparr>pc_body := trimmed\<rparr>])\<rparr>)"

definition drop_entries :: "('a \<Rightarrow> bool) \<Rightarrow> 'a list option \<Rightarrow> 'a list option" where
  \<comment> \<open>an entry taken off a list that is left out once it is empty; a list without such an entry stays as it is\<close>
  "drop_entries gone xs = (case xs of None \<Rightarrow> None
     | Some ys \<Rightarrow> let next = filter (\<lambda>y. \<not> gone y) ys
         in if length next = length ys then xs else if next = [] then None else Some next)"

definition queue_message :: "PendingQueuedMessage \<Rightarrow> ChatNodeState \<Rightarrow> ChatNodeState" where
  "queue_message q n =
     (let existing = default_to (cn_pendingQueued n) []
      in if list_ex (\<lambda>d. pq_id d = pq_id q) existing then n else n\<lparr>cn_pendingQueued := Some (existing @ [q])\<rparr>)"

definition queue_steering :: "jstr \<Rightarrow> bool \<Rightarrow> ChatNodeState \<Rightarrow> ChatNodeState" where
  "queue_steering queueId steering n =
     n\<lparr>cn_pendingQueued := map_option (map (\<lambda>q. if pq_id q = queueId then q\<lparr>pq_steering := Some steering\<rparr> else q)) (cn_pendingQueued n)\<rparr>"

fun reduce_compose :: "compose_action \<Rightarrow> ChatNodeState \<Rightarrow> ChatNodeState" where
  "reduce_compose (SetComposerDraft given preserveExisting) n = set_composer_draft given preserveExisting n"
| "reduce_compose (AddComment c) n = add_comment c n"
| "reduce_compose (EditComment commentId body) n = edit_comment commentId body n"
| "reduce_compose (RemoveComment commentId) n =
     n\<lparr>cn_pendingComments := drop_entries (\<lambda>c. pc_id c = commentId) (cn_pendingComments n)\<rparr>"
| "reduce_compose ClearComments n = n\<lparr>cn_pendingComments := None\<rparr>"
| "reduce_compose (QueueMessage q) n = queue_message q n"
| "reduce_compose (QueueSteering queueId steering) n = queue_steering queueId steering n"
| "reduce_compose (DequeueMessage messageId) n =
     n\<lparr>cn_pendingQueued := drop_entries (\<lambda>q. pq_id q = messageId) (cn_pendingQueued n)\<rparr>"
| "reduce_compose FlushQueue n = n\<lparr>cn_pendingQueued := None, cn_queueErrored := None\<rparr>"
| "reduce_compose MarkQueueErrored n = (if has_items (cn_pendingQueued n) then n\<lparr>cn_queueErrored := Some True\<rparr> else n)"

section \<open>The session of a node\<close>

definition bind_chat :: "jstr \<Rightarrow> chat_binding \<Rightarrow> ChatNodeState \<Rightarrow> ChatNodeState" where
  "bind_chat nodeId b n = n\<lparr>cn_chatId := Some nodeId, cn_runtimeId := nullish (cb_runtimeId b) (cn_runtimeId n),
     cn_sessionState := (if truthy_str (cb_runtimeId b) \<and> cb_runtimeId b \<noteq> cn_runtimeId n then None else cn_sessionState n),
     cn_providerId := nullish (cb_providerId b) (cn_providerId n), cn_modelId := nullish (cb_modelId b) (cn_modelId n),
     cn_reasoning := nullish (cb_reasoning b) (cn_reasoning n),
     cn_currentModeId := (case cb_currentModeId b of Some (Some m) \<Rightarrow> Some (Some m) | _ \<Rightarrow> cn_currentModeId n)\<rparr>"

definition older_version :: "AgentSessionState \<Rightarrow> AgentSessionState option \<Rightarrow> bool" where
  "older_version state known \<longleftrightarrow> (case (ss_version state, Option.bind known ss_version) of (Some v, Some w) \<Rightarrow> v < w | _ \<Rightarrow> False)"

definition session_state :: "AgentSessionState \<Rightarrow> ChatNodeState \<Rightarrow> ChatNodeState" where
  "session_state state n =
     (if truthy_str (cn_runtimeId n) \<and> cn_runtimeId n \<noteq> Some (ss_runtimeId state) then n
      else if older_version state (cn_sessionState n) then n
      else n\<lparr>cn_sessionState := Some state,
             cn_currentModeId := nullish (ss_currentModeId state) (cn_currentModeId n),
             cn_modelId := nullish (ss_modelId state) (cn_modelId n),
             cn_reasoning := nullish (ss_reasoning state) (cn_reasoning n),
             cn_agentCommands := nullish (ss_commands state) (cn_agentCommands n),
             cn_mcpServerError := (case ss_mcpErrors state of None \<Rightarrow> cn_mcpServerError n
               | Some [] \<Rightarrow> None | Some (e # _) \<Rightarrow> Some e)\<rparr>)"

fun reduce_session :: "jstr \<Rightarrow> session_action \<Rightarrow> ChatNodeState \<Rightarrow> ChatNodeState" where
  "reduce_session nodeId (SetPermissionMode mode approveForMe) n = n\<lparr>cn_permissionMode := Some mode,
     cn_permissionApproveForMe := (if mode = AskMode \<and> approveForMe = Some True then Some True else None)\<rparr>"
| "reduce_session nodeId (BindChat b) n = bind_chat nodeId b n"
| "reduce_session nodeId UnbindChat n = n\<lparr>cn_chatId := None\<rparr>"
| "reduce_session nodeId (SessionStateA state) n = session_state state n"
| "reduce_session nodeId (SetCommands commands) n = n\<lparr>cn_agentCommands := Some commands\<rparr>"
| "reduce_session nodeId (SetCurrentMode mode) n = n\<lparr>cn_currentModeId := Some (Some mode)\<rparr>"
| "reduce_session nodeId (CommandResultA command status message) n = n\<lparr>cn_commandResult := Some (command, status, message)\<rparr>"
| "reduce_session nodeId SpawnPromptStarted n = (if truthy_str (cn_pendingSpawnPrompt n) then n\<lparr>cn_pendingSpawnPrompt := None\<rparr> else n)"

section \<open>How a node is shown\<close>

definition consume_links :: "jstr list \<Rightarrow> ChatNodeState \<Rightarrow> ChatNodeState" where
  "consume_links peerIds n =
     (let prev = default_to (cn_consumedLinks n) []; merged = first_seen [] (prev @ peerIds)
      in if length merged = length prev then n else n\<lparr>cn_consumedLinks := Some merged\<rparr>)"

definition forget_consumed_link :: "jstr \<Rightarrow> ChatNodeState \<Rightarrow> ChatNodeState" where
  "forget_consumed_link peerId n = n\<lparr>cn_consumedLinks := map_option (filter (\<lambda>i. i \<noteq> peerId)) (cn_consumedLinks n)\<rparr>"

fun reduce_view :: "view_action \<Rightarrow> ChatNodeState \<Rightarrow> ChatNodeState" where
  "reduce_view (SetMinimized minimized) n = n\<lparr>cn_minimized := Some minimized\<rparr>"
| "reduce_view (SetPosition x y) n = n\<lparr>cn_position := Some (x, y)\<rparr>"
| "reduce_view (SetPaneWidth width) n = n\<lparr>cn_paneWidth := width\<rparr>"
| "reduce_view (PinNode now) n = n\<lparr>cn_pinnedAt := Some now\<rparr>"
| "reduce_view UnpinNode n = n\<lparr>cn_pinnedAt := None\<rparr>"
| "reduce_view (NodeViewed viewedAt) n = n\<lparr>cn_viewedAt := Some viewedAt\<rparr>"
| "reduce_view (ConsumeLinks peerIds) n = consume_links peerIds n"
| "reduce_view (ForgetConsumedLink peerId) n = forget_consumed_link peerId n"

section \<open>Open files\<close>

definition on_artifact :: "(ArtifactState \<Rightarrow> ArtifactState) \<Rightarrow> ChatNodeState \<Rightarrow> ChatNodeState" where
  "on_artifact f n = (case cn_artifact n of Some a \<Rightarrow> if cn_kind n = ArtifactKind then n\<lparr>cn_artifact := Some (f a)\<rparr> else n | None \<Rightarrow> n)"

definition artifact_loaded :: "jstr \<Rightarrow> jstr \<Rightarrow> jstr \<Rightarrow> int \<Rightarrow> int \<Rightarrow> ChatNodeState \<Rightarrow> ChatNodeState" where
  "artifact_loaded content basename extension bytes modifiedAt n =
     (if cn_kind n = ArtifactKind \<and> cn_artifact n \<noteq> None
      then on_artifact (\<lambda>a. a\<lparr>af_content := Some content, af_basename := Some basename, af_extension := Some extension,
             af_size := Some bytes, af_modifiedAt := Some modifiedAt, af_status := FileIdle,
             af_pendingRefresh := Some False, af_removed := Some False\<rparr>) (n\<lparr>cn_title := Some basename\<rparr>)
      else n)"

fun reduce_artifact :: "artifact_action \<Rightarrow> ChatNodeState \<Rightarrow> ChatNodeState" where
  "reduce_artifact ArtifactLoading n = on_artifact (\<lambda>a. a\<lparr>af_status := FileLoading, af_error := None\<rparr>) n"
| "reduce_artifact (ArtifactLoaded content basename extension bytes modifiedAt) n = artifact_loaded content basename extension bytes modifiedAt n"
| "reduce_artifact (ArtifactError e) n = on_artifact (\<lambda>a. a\<lparr>af_status := FileError, af_error := Some e\<rparr>) n"
| "reduce_artifact (ArtifactSetView mode) n = on_artifact (\<lambda>a. a\<lparr>af_viewMode := mode\<rparr>) n"
| "reduce_artifact ArtifactMarkStale n = on_artifact (\<lambda>a. if af_pendingRefresh a = Some True \<and> af_removed a \<noteq> Some True then a
     else a\<lparr>af_pendingRefresh := Some True, af_removed := Some False\<rparr>) n"
| "reduce_artifact ArtifactMarkRemoved n = on_artifact (\<lambda>a. if af_removed a = Some True then a
     else a\<lparr>af_removed := Some True, af_pendingRefresh := Some False\<rparr>) n"

section \<open>Digests\<close>

definition on_digest :: "(DigestState \<Rightarrow> DigestState) \<Rightarrow> ChatNodeState \<Rightarrow> ChatNodeState" where
  "on_digest f n = (case cn_digest n of Some d \<Rightarrow> if cn_kind n = DigestKind then n\<lparr>cn_digest := Some (f d)\<rparr> else n | None \<Rightarrow> n)"

definition on_generation :: "(DigestGeneration \<Rightarrow> DigestGeneration) \<Rightarrow> ChatNodeState \<Rightarrow> ChatNodeState" where
  \<comment> \<open>thoughts and states of a running generation; the kind of the node is not asked for\<close>
  "on_generation f n = (case cn_digest n of None \<Rightarrow> n
     | Some d \<Rightarrow> (case di_generation d of None \<Rightarrow> n
         | Some g \<Rightarrow> if di_status d \<noteq> NodeStreaming then n else n\<lparr>cn_digest := Some (d\<lparr>di_generation := Some (f g)\<rparr>)\<rparr>))"

fun reduce_digest :: "int \<Rightarrow> digest_action \<Rightarrow> ChatNodeState \<Rightarrow> ChatNodeState" where
  "reduce_digest now DigestStarted n = on_digest (\<lambda>d. d\<lparr>di_status := NodeStreaming, di_error := None, di_content := [],
     di_generation := Some \<lparr>dg_startedAt = now, dg_thought = [], dg_activity = js ''Preparing digest...''\<rparr>\<rparr>) n"
| "reduce_digest now (DigestChunk text) n = on_digest (\<lambda>d. if di_status d \<noteq> NodeStreaming then d
     else d\<lparr>di_content := di_content d @ text, di_generation := map_option (\<lambda>g. g\<lparr>dg_activity := js ''Writing digest...''\<rparr>) (di_generation d)\<rparr>) n"
| "reduce_digest now (DigestThought text) n = on_generation (\<lambda>g. g\<lparr>dg_thought := dg_thought g @ text, dg_activity := js ''Thinking...''\<rparr>) n"
| "reduce_digest now (DigestStatusA text) n = on_generation (\<lambda>g. g\<lparr>dg_activity := text\<rparr>) n"
| "reduce_digest now (DigestGenerated content fingerprints generatedAt sources) n = on_digest (\<lambda>d. d\<lparr>di_status := NodeIdle,
     di_error := None, di_generation := None, di_content := content, di_sourceFingerprints := fingerprints,
     di_generatedAt := generatedAt, di_sources := default_to sources (di_sources d)\<rparr>) n"
| "reduce_digest now (DigestError message) n = on_digest (\<lambda>d. d\<lparr>di_status := NodeError, di_error := Some message, di_generation := None\<rparr>) n"
| "reduce_digest now (DigestSetPrompt customPrompt) n = on_digest (\<lambda>d. d\<lparr>di_customPrompt := truthy_of (Some customPrompt)\<rparr>) n"
| "reduce_digest now (DigestViewed viewedAt) n = on_digest (\<lambda>d. if viewedAt \<le> di_viewedAt d then d else d\<lparr>di_viewedAt := viewedAt\<rparr>) n"

end
