(* ===== verification/Chat_Reducer.thy ===== *)
theory Chat_Reducer
  imports Chat_Edits
begin

text \<open>
  The reducer of the chat store over its map of nodes (\<open>reduceNodes\<close> of \<^verbatim>\<open>frontend/src/state/chatReducers.ts\<close>): the dispatch
  of an action to the node it names, the actions that make nodes or touch several, and the installing of loaded messages
  (\<open>applyTreeMessages\<close> of \<^verbatim>\<open>chatHydration.ts\<close>). A node is looked up by its id in a map; an action for a node that is not
  there changes nothing.
\<close>

section \<open>Actions\<close>

type_synonym chat_nodes = "jstr \<Rightarrow> ChatNodeState option"

datatype node_action =
    StreamNode jstr stream_action \<comment> \<open>a frame for an assistant message\<close>
  | TurnNode turn_action
  | RequestNode request_action
  | RosterNode roster_action
  | LabelNode label_action
  | ComposeNode compose_action
  | SessionNode session_action
  | ViewNode view_action
  | ArtifactNode artifact_action
  | DigestNode digest_action

record page_info =
  pg_nodeId :: jstr
  pg_total :: nat
  pg_before :: "(int \<times> jstr) option"

record spawned_node =
  sp_nodeId :: jstr
  sp_chatId :: jstr
  sp_title :: jstr
  sp_prompt :: jstr
  sp_runtimeId :: "jstr option"

datatype chat_action =
    OnNode jstr node_action
  | CreateNode jstr jstr "jstr option" "jstr list option" "jstr option" \<comment> \<open>id, project, parent, merge sources, mode\<close>
  | CreateArtifact jstr jstr jstr
  | CreateDigest jstr jstr "jstr list"
  | ClearPositions "jstr list"
  | MessagesLoaded "(jstr \<times> ChatMessage list) list" "page_info list"
  | MarkAllRead int
  | AgentSpawn jstr jstr "spawned_node list"

section \<open>One node\<close>

fun reduce_node :: "int \<Rightarrow> jstr \<Rightarrow> node_action \<Rightarrow> ChatNodeState \<Rightarrow> ChatNodeState" where
  "reduce_node now nodeId (StreamNode assistantId a) n = reduce_stream now assistantId a n"
| "reduce_node now nodeId (TurnNode a) n = reduce_turn now a n"
| "reduce_node now nodeId (RequestNode a) n = reduce_request now a n"
| "reduce_node now nodeId (RosterNode a) n = reduce_roster now a n"
| "reduce_node now nodeId (LabelNode a) n = reduce_label now a n"
| "reduce_node now nodeId (ComposeNode a) n = reduce_compose a n"
| "reduce_node now nodeId (SessionNode a) n = reduce_session nodeId a n"
| "reduce_node now nodeId (ViewNode a) n = reduce_view a n"
| "reduce_node now nodeId (ArtifactNode a) n = reduce_artifact a n"
| "reduce_node now nodeId (DigestNode a) n = reduce_digest now a n"

section \<open>Installing loaded messages\<close>

definition client_keys :: "ChatMessage list \<Rightarrow> jstr \<Rightarrow> jstr option" where
  "client_keys previous = foldl (\<lambda>keys m. if truthy_str (cm_clientKey m) then keys(cm_id m := cm_clientKey m) else keys) (\<lambda>_. None) previous"

definition carryClientKeys :: "ChatMessage list \<Rightarrow> ChatMessage list \<Rightarrow> ChatMessage list" where
  "carryClientKeys previous next =
     map (\<lambda>m. if truthy_str (client_keys previous (cm_id m)) \<and> \<not> truthy_str (cm_clientKey m)
              then m\<lparr>cm_clientKey := client_keys previous (cm_id m)\<rparr> else m) next"

definition last_index :: "('a \<Rightarrow> bool) \<Rightarrow> 'a list \<Rightarrow> nat option" where
  "last_index P xs = map_option (\<lambda>i. length xs - 1 - i) (find_index P (rev xs))"

definition recoverStreamingAssistant :: "ChatNodeState \<Rightarrow> ChatNodeState" where
  "recoverStreamingAssistant n =
     (if cn_status n \<noteq> NodeStreaming \<or> cn_visibleResponseComplete n = Some True then n
      else case last_index (\<lambda>m. cm_role m = AssistantRole) (cn_messages n) of None \<Rightarrow> n
         | Some i \<Rightarrow> if cm_streaming (cn_messages n ! i) = Some True then n
             else n\<lparr>cn_messages := (cn_messages n)[i := (cn_messages n ! i)\<lparr>cm_streaming := Some True\<rparr>]\<rparr>)"

fun pending_input :: "DurableAssistantBlock option \<Rightarrow> UserInputRequestState option" where
  "pending_input (Some (_, UserInputBlock _ (Some ui) _)) =
     (if ui_status ui = InPending then Some \<lparr>pu_requestId = ui_requestId ui, pu_interactionId = Some (ui_interactionId ui),
        pu_questions = ui_questions ui, pu_answers = [], pu_resolved = None, pu_interrupted = None, pu_receivedAt = None\<rparr> else None)"
| "pending_input _ = None"

definition is_input_block :: "DurableAssistantBlock \<Rightarrow> bool" where
  "is_input_block b = (case snd b of UserInputBlock _ _ _ \<Rightarrow> True | _ \<Rightarrow> False)"

definition recoverPendingUserInput :: "ChatNodeState \<Rightarrow> ChatNodeState" where
  "recoverPendingUserInput n =
     (if cn_status n \<noteq> NodeStreaming \<or> cn_pendingUserInput n \<noteq> None \<or> cn_messages n = [] then n
      else let m = last (cn_messages n)
           in if cm_role m \<noteq> AssistantRole then n
              else case pending_input (find is_input_block (rev (cloneBlocks (cm_blocks m)))) of None \<Rightarrow> n
                 | Some u \<Rightarrow> n\<lparr>cn_pendingUserInput := Some u\<rparr>)"

definition recoverRunningTurn :: "ChatNodeState \<Rightarrow> ChatNodeState" where
  "recoverRunningTurn n = recoverPendingUserInput (recoverStreamingAssistant n)"

definition install_messages :: "ChatMessage list \<Rightarrow> page_info option \<Rightarrow> ChatNodeState \<Rightarrow> ChatNodeState" where
  "install_messages loaded page prev =
     (let messages = carryClientKeys (cn_messages prev) loaded; before = Option.bind page pg_before
      in recoverRunningTurn (prev\<lparr>cn_messages := messages, cn_messagesLoaded := Some (before = None), cn_historyBefore := before,
           cn_messageCount := Some (default_to (map_option pg_total page) (length messages))\<rparr>))"

definition apply_loaded :: "page_info list \<Rightarrow> chat_nodes \<Rightarrow> jstr \<times> ChatMessage list \<Rightarrow> chat_nodes" where
  "apply_loaded pages nodes e = nodes(fst e := map_option (install_messages (snd e) (find (\<lambda>p. pg_nodeId p = fst e) pages)) (nodes (fst e)))"

definition applyTreeMessages :: "(jstr \<times> ChatMessage list) list \<Rightarrow> page_info list \<Rightarrow> chat_nodes \<Rightarrow> chat_nodes" where
  \<comment> \<open>one entry for each key of the object\<close>
  "applyTreeMessages messagesByNode pages nodes = foldl (apply_loaded pages) nodes messagesByNode"

section \<open>Nodes made and nodes marked\<close>

definition new_chat :: "int \<Rightarrow> jstr \<Rightarrow> jstr \<Rightarrow> jstr option \<Rightarrow> jstr list option \<Rightarrow> jstr option \<Rightarrow> ChatNodeState" where
  "new_chat now nodeId projectId parentNodeId mergeSources modeId = (blank_chat_node nodeId ChatKind projectId)
     \<lparr>cn_parentNodeId := parentNodeId, cn_mergeSources := mergeSources, cn_currentModeId := map_option Some modeId, cn_viewedAt := Some now\<rparr>"

definition new_artifact :: "jstr \<Rightarrow> jstr \<Rightarrow> jstr \<Rightarrow> ChatNodeState" where
  "new_artifact nodeId projectId filePath = (blank_chat_node nodeId ArtifactKind projectId)
     \<lparr>cn_artifact := Some \<lparr>af_filePath = filePath, af_content = None, af_viewMode = ViewRendered, af_extension = None,
        af_basename = None, af_size = None, af_modifiedAt = None, af_status = FileIdle, af_error = None, af_pendingRefresh = None,
        af_removed = None\<rparr>\<rparr>"

definition new_digest :: "jstr \<Rightarrow> jstr \<Rightarrow> jstr list \<Rightarrow> ChatNodeState" where
  "new_digest nodeId projectId sources = (blank_chat_node nodeId DigestKind projectId)
     \<lparr>cn_digest := Some \<lparr>di_sources = sources, di_sourceFingerprints = [], di_content = [], di_generatedAt = 0, di_viewedAt = 0,
        di_status = NodeIdle, di_error = None, di_customPrompt = None, di_generation = None\<rparr>\<rparr>"

definition isNodeUnread :: "ChatNodeState \<Rightarrow> jstr option \<Rightarrow> bool" where
  "isNodeUnread n focusedNodeId \<longleftrightarrow> cn_kind n \<noteq> DigestKind \<and> focusedNodeId \<noteq> Some (cn_nodeId n)
     \<and> default_to (cn_viewedAt n) 0 < default_to (cn_lastAssistantAt n) 0"

definition mark_read :: "int \<Rightarrow> ChatNodeState \<Rightarrow> ChatNodeState" where
  "mark_read viewedAt n = (if cn_kind n = DigestKind \<or> default_to (cn_lastAssistantAt n) 0 \<le> default_to (cn_viewedAt n) 0 then n
     else n\<lparr>cn_viewedAt := Some viewedAt\<rparr>)"

section \<open>Branches an agent spawns\<close>

definition spawned_chat :: "jstr \<Rightarrow> jstr \<Rightarrow> spawned_node \<Rightarrow> ChatNodeState" where
  "spawned_chat parentNodeId projectId s = (blank_chat_node (sp_nodeId s) ChatKind projectId)
     \<lparr>cn_chatId := Some (sp_chatId s), cn_runtimeId := sp_runtimeId s, cn_parentNodeId := Some parentNodeId,
      cn_messagesLoaded := Some True, cn_title := Some (sp_title s), cn_titleNeedsPersistence := Some True,
      cn_spawnedByAgent := Some True, cn_pendingSpawnPrompt := Some (sp_prompt s)\<rparr>"

definition spawn_tool :: "int \<Rightarrow> spawned_node list \<Rightarrow> nat \<Rightarrow> DurableToolCall" where
  "spawn_tool now created offset = \<lparr>d_id = js ''spawn-'' @ decimal_int now @ js ''-'' @ sp_nodeId (hd created),
     d_title = js ''Spawned '' @ decimal (length created) @ js '' branch'' @ (if length created = 1 then [] else js ''es''),
     d_status = js ''completed'', d_kind = Some (js ''spawn_branches''),
     d_detail = Some (join_with (js '', '') (map sp_title created)), d_inputJson = None,
     d_output = Some (join_with [10] (map (\<lambda>s. [8594, 32] @ sp_title s) created)), d_textOffset = Some offset,
     d_startedAt = None, d_endedAt = None\<rparr>"

definition note_spawn :: "int \<Rightarrow> spawned_node list \<Rightarrow> ChatMessage \<Rightarrow> ChatMessage" where
  "note_spawn now created m = (if cm_role m \<noteq> AssistantRole then m
     else let tool = spawn_tool now created (snd (nextToolBlockPlacement m))
          in appendToolBlock (m\<lparr>cm_toolCalls := cm_toolCalls m @ [tool]\<rparr>) (d_id tool))"

definition map_last :: "('a \<Rightarrow> 'a) \<Rightarrow> 'a list \<Rightarrow> 'a list" where
  "map_last f xs = (if xs = [] then [] else butlast xs @ [f (last xs)])"

definition agent_spawn :: "int \<Rightarrow> jstr \<Rightarrow> jstr \<Rightarrow> spawned_node list \<Rightarrow> chat_nodes \<Rightarrow> chat_nodes" where
  "agent_spawn now parentNodeId projectId spawned nodes =
     (let created = filter (\<lambda>s. nodes (sp_nodeId s) = None) spawned;
          copy = foldl (\<lambda>ns s. ns(sp_nodeId s := Some (spawned_chat parentNodeId projectId s))) nodes created
      in if created = [] then copy
         else copy(parentNodeId := map_option (\<lambda>p. p\<lparr>cn_messages := map_last (note_spawn now created) (cn_messages p)\<rparr>) (copy parentNodeId)))"

section \<open>The reducer\<close>

fun reduceNodes :: "int \<Rightarrow> chat_nodes \<Rightarrow> chat_action \<Rightarrow> chat_nodes" where
  "reduceNodes now nodes (OnNode nodeId a) = nodes(nodeId := map_option (reduce_node now nodeId a) (nodes nodeId))"
| "reduceNodes now nodes (CreateNode nodeId projectId parentNodeId mergeSources modeId) =
     nodes(nodeId := Some (new_chat now nodeId projectId parentNodeId mergeSources modeId))"
| "reduceNodes now nodes (CreateArtifact nodeId projectId filePath) = nodes(nodeId := Some (new_artifact nodeId projectId filePath))"
| "reduceNodes now nodes (CreateDigest nodeId projectId sources) = nodes(nodeId := Some (new_digest nodeId projectId sources))"
| "reduceNodes now nodes (ClearPositions nodeIds) =
     (\<lambda>i. if i \<in> set nodeIds then map_option (\<lambda>n. n\<lparr>cn_position := None\<rparr>) (nodes i) else nodes i)"
| "reduceNodes now nodes (MessagesLoaded messagesByNode pages) = applyTreeMessages messagesByNode pages nodes"
| "reduceNodes now nodes (MarkAllRead viewedAt) = (\<lambda>i. map_option (mark_read viewedAt) (nodes i))"
| "reduceNodes now nodes (AgentSpawn parentNodeId projectId spawned) = agent_spawn now parentNodeId projectId spawned nodes"

end
