(* ===== verification/Chat_Safety.thy ===== *)
theory Chat_Safety
  imports Chat_Reducer "HOL-Library.Sublist"
begin

text \<open>
  What the reducer of the chat store guarantees, over every action and every sequence of actions: the nodes stay well formed,
  the title of a chat is not taken away, what the user wrote is neither changed nor dropped, and a late event of an older turn
  touches that turn's message only.
\<close>

section \<open>Well-formed nodes\<close>

definition overview_text :: "BranchOverviewEntry list option \<Rightarrow> jstr option" where
  "overview_text entries = (if has_items entries then Some (bo_text (last (the entries))) else None)"

definition queue_ok :: "('a \<Rightarrow> jstr) \<Rightarrow> 'a list option \<Rightarrow> bool" where
  \<comment> \<open>a list that is left out once it is empty, with an entry once\<close>
  "queue_ok key xs \<longleftrightarrow> xs \<noteq> Some [] \<and> distinct (map key (default_to xs []))"

definition digest_ok :: "DigestState \<Rightarrow> bool" where
  "digest_ok d \<longleftrightarrow> (di_generation d \<noteq> None \<longleftrightarrow> di_status d = NodeStreaming)"

definition node_ok :: "jstr \<Rightarrow> ChatNodeState \<Rightarrow> bool" where
  "node_ok i n \<longleftrightarrow> cn_nodeId n = i
     \<and> (cn_artifact n \<noteq> None \<longleftrightarrow> cn_kind n = ArtifactKind)
     \<and> (cn_digest n \<noteq> None \<longleftrightarrow> cn_kind n = DigestKind) \<and> pred_option digest_ok (cn_digest n)
     \<and> (cn_historyBefore n \<noteq> None \<longrightarrow> cn_messagesLoaded n = Some False)
     \<and> cn_branchOverview n = overview_text (cn_branchOverviewEntries n)
     \<and> queue_ok pc_id (cn_pendingComments n) \<and> queue_ok pq_id (cn_pendingQueued n)
     \<and> distinct (default_to (cn_consumedLinks n) [])"

lemma queue_ok_None [simp]: "queue_ok key None"
  by (simp add: queue_ok_def)

definition ok_view where
  \<comment> \<open>the members the invariant speaks of\<close>
  "ok_view n = (cn_nodeId n, cn_artifact n, cn_kind n, cn_digest n, cn_historyBefore n, cn_messagesLoaded n, cn_branchOverview n,
     cn_branchOverviewEntries n, cn_pendingComments n, cn_pendingQueued n, cn_consumedLinks n)"

lemma node_ok_view: "node_ok i n \<Longrightarrow> ok_view n' = ok_view n \<Longrightarrow> node_ok i n'"
  by (simp add: ok_view_def node_ok_def)

lemma queue_ok_filter: "queue_ok key (Some xs) \<Longrightarrow> queue_ok key (if has_items (Some (filter P xs)) then Some (filter P xs) else None)"
  by (auto simp: queue_ok_def has_items_def distinct_map_filter)

lemma queue_ok_drop: "queue_ok key xs \<Longrightarrow> queue_ok key (drop_entries gone xs)"
  by (auto simp: queue_ok_def drop_entries_def Let_def distinct_map_filter split: option.splits)

lemma overview_append:
  "overview_text (Some (appendBranchOverviewEntry es t now)) =
     (if appendBranchOverviewEntry es t now = es then overview_text (Some es) else Some (bo_text (last (appendBranchOverviewEntry es t now))))"
  by (auto simp: overview_text_def has_items_def appendBranchOverviewEntry_def Let_def)

lemma append_overview_Nil: "appendBranchOverviewEntry es t now = [] \<Longrightarrow> es = []"
  by (auto simp: appendBranchOverviewEntry_def Let_def split: if_splits)

lemma overview_after_ok:
  "cn_branchOverview n = overview_text (cn_branchOverviewEntries n) \<Longrightarrow>
   snd (overview_after now i x n) = overview_text (fst (overview_after now i x n))"
  by (cases "cn_branchOverviewEntries n")
    (auto simp: overview_after_def Let_def overview_append overview_text_def has_items_def dest: append_overview_Nil)

lemma ok_view_frames [simp]:
  "ok_view (reduce_stream now i e n) = ok_view n" "ok_view (turn_failed now f n) = ok_view n"
  "ok_view (user_send now s n) = ok_view n" "ok_view (set_cursor b t q n) = ok_view n" "ok_view (active_turn i t n) = ok_view n"
  "ok_view (apply_seq t q n) = ok_view n" "ok_view (apply_background_seq t q n) = ok_view n" "ok_view (block_reset i n) = ok_view n"
  "ok_view (recover_original_result t i m q b n) = ok_view n" "ok_view (realign_assistant_id x y n) = ok_view n"
  "ok_view (retry_trim k n) = ok_view n" "ok_view (visible_response_complete i n) = ok_view n"
  "ok_view (optimistic_cancel n) = ok_view n" "ok_view (observer_turn_start now ob n) = ok_view n"
  "ok_view (user_input_request now j u n) = ok_view n" "ok_view (user_input_resolved now r ia ans out n) = ok_view n"
  "ok_view (subagent_list_update now j ps n) = ok_view n" "ok_view (subagent_tool_activity now j pl n) = ok_view n"
  "ok_view (background_subagents_ended ws ends n) = ok_view n" "ok_view (usage_summary now j us n) = ok_view n"
  "ok_view (runtime_warning now j w n) = ok_view n"
  by (simp_all add: ok_view_def reduce_stream_def turn_failed_def user_send_def start_turn_def clear_error_def set_cursor_def
      active_turn_def apply_seq_def apply_background_seq_def block_reset_def recover_original_result_def realign_assistant_id_def
      retry_trim_def visible_response_complete_def optimistic_cancel_def observer_turn_start_def user_input_request_def
      user_input_resolved_def subagent_list_update_def subagent_tool_activity_def background_subagents_ended_def usage_summary_def
      runtime_warning_def Let_def split: option.split)

lemma ok_view_cancel_recovery [simp]: "ok_view (cancel_recovery now i st d n) = ok_view n"
  by (simp add: cancel_recovery_def) (simp add: ok_view_def)

lemma turn_done_ok: "node_ok i n \<Longrightarrow> node_ok i (turn_done now a c ab n)"
  using overview_after_ok [of n now a "fst (snd (turn_metadata a (cn_messages n)))"]
  by (auto simp: node_ok_def turn_done_def Let_def split: prod.splits)

lemma steer_accepted_ok: "node_ok i n \<Longrightarrow> node_ok i (steer_accepted d a q n)"
  by (cases "cn_pendingQueued n")
    (auto simp: node_ok_def steer_accepted_def Let_def has_items_def queue_ok_def distinct_map_filter split: option.splits)

lemma reduce_turn_ok: "node_ok i n \<Longrightarrow> node_ok i (reduce_turn now a n)"
  by (cases a; simp add: turn_done_ok steer_accepted_ok; (erule node_ok_view; simp; fail)?;
      simp add: node_ok_def history_page_loaded_def Let_def)

lemma reduce_request_ok: "node_ok i n \<Longrightarrow> node_ok i (reduce_request now a n)"
  by (cases a; simp; (erule node_ok_view; simp; fail)?; simp add: node_ok_def)

lemma reduce_roster_ok: "node_ok i n \<Longrightarrow> node_ok i (reduce_roster now a n)"
  by (cases a; simp; (erule node_ok_view; simp; fail)?; simp add: node_ok_def)

lemma reduce_label_ok: "node_ok i n \<Longrightarrow> node_ok i (reduce_label now a n)"
proof (cases a)
  case (SetBranchOverview x y)
  then show "node_ok i n \<Longrightarrow> ?thesis"
    by (cases "cn_branchOverviewEntries n")
      (auto simp: node_ok_def set_branch_overview_def Let_def overview_text_def has_items_def dest: append_overview_Nil)
qed (simp_all add: node_ok_def set_title_def rename_node_def set_follow_ups_def follow_ups_status_def Let_def)

lemma keys_update: "find_index P xs = Some j \<Longrightarrow> key y = key (xs ! j) \<Longrightarrow> map key (xs[j := y]) = map key xs"
  using find_index_Some [of P xs j] by (simp add: map_update list_update_same_conv)

lemma reduce_compose_ok: "node_ok i n \<Longrightarrow> node_ok i (reduce_compose a n)"
proof (cases a)
  case (AddComment c)
  then show "node_ok i n \<Longrightarrow> ?thesis"
    by (auto simp: node_ok_def add_comment_def Let_def queue_ok_def list_ex_iff image_iff)
next
  case (EditComment c b)
  then show "node_ok i n \<Longrightarrow> ?thesis"
    by (cases "cn_pendingComments n")
      (auto simp: node_ok_def edit_comment_def Let_def queue_ok_def keys_update split: option.splits)
next
  case (QueueMessage q)
  then show "node_ok i n \<Longrightarrow> ?thesis"
    by (auto simp: node_ok_def queue_message_def Let_def queue_ok_def list_ex_iff image_iff)
next
  case (QueueSteering q b)
  then show "node_ok i n \<Longrightarrow> ?thesis"
    by (cases "cn_pendingQueued n") (auto simp: node_ok_def queue_steering_def queue_ok_def comp_def if_distrib cong: if_cong)
qed (simp_all add: node_ok_def set_composer_draft_def queue_ok_drop Let_def)

lemma reduce_session_ok: "node_ok i n \<Longrightarrow> node_ok i (reduce_session k a n)"
  by (cases a) (simp_all add: node_ok_def bind_chat_def session_state_def)

lemma reduce_view_ok: "node_ok i n \<Longrightarrow> node_ok i (reduce_view a n)"
  by (cases a; cases "cn_consumedLinks n")
    (simp_all add: node_ok_def consume_links_def forget_consumed_link_def Let_def distinct_first_seen)

lemma reduce_artifact_ok: "node_ok i n \<Longrightarrow> node_ok i (reduce_artifact a n)"
  by (cases a; cases "cn_artifact n") (auto simp: node_ok_def on_artifact_def artifact_loaded_def)

lemma reduce_digest_ok: "node_ok i n \<Longrightarrow> node_ok i (reduce_digest now a n)"
  by (cases a; cases "cn_digest n") (auto simp: node_ok_def on_digest_def on_generation_def digest_ok_def split: option.split)

lemma reduce_node_ok: "node_ok i n \<Longrightarrow> node_ok i (reduce_node now k a n)"
  by (cases a) (simp_all add: node_ok_view [OF _ ok_view_frames(1)] reduce_turn_ok reduce_request_ok reduce_roster_ok reduce_label_ok reduce_compose_ok
      reduce_session_ok reduce_view_ok reduce_artifact_ok reduce_digest_ok)

definition nodes_ok :: "chat_nodes \<Rightarrow> bool" where
  "nodes_ok nodes \<longleftrightarrow> (\<forall>i n. nodes i = Some n \<longrightarrow> node_ok i n)"

lemma nodes_ok_upd: "nodes_ok nodes \<Longrightarrow> pred_option (node_ok i) x \<Longrightarrow> nodes_ok (nodes(i := x))"
  by (auto simp: nodes_ok_def)

lemma nodes_ok_map: "nodes_ok nodes \<Longrightarrow> (\<And>n. node_ok i n \<Longrightarrow> node_ok i (f n)) \<Longrightarrow> nodes_ok (nodes(i := map_option f (nodes i)))"
  by (cases "nodes i") (auto simp: nodes_ok_def)

lemma ok_view_recover [simp]: "ok_view (recoverRunningTurn n) = ok_view n"
  by (simp add: ok_view_def recoverRunningTurn_def recoverPendingUserInput_def recoverStreamingAssistant_def Let_def split: option.split)

lemma install_messages_ok: "node_ok i n \<Longrightarrow> node_ok i (install_messages ms page n)"
  unfolding install_messages_def Let_def by (rule node_ok_view [OF _ ok_view_recover]) (auto simp: node_ok_def)

lemma applyTreeMessages_ok: "nodes_ok nodes \<Longrightarrow> nodes_ok (applyTreeMessages es pages nodes)"
  unfolding applyTreeMessages_def by (induction es arbitrary: nodes) (simp_all add: apply_loaded_def nodes_ok_map install_messages_ok)

lemma spawned_ok: "nodes_ok nodes \<Longrightarrow> nodes_ok (foldl (\<lambda>ns s. ns(sp_nodeId s := Some (spawned_chat p pr s))) nodes ss)"
  by (induction ss arbitrary: nodes)
    (simp_all add: nodes_ok_upd node_ok_def spawned_chat_def blank_chat_node_def overview_text_def has_items_def)

lemma agent_spawn_ok: "nodes_ok nodes \<Longrightarrow> nodes_ok (agent_spawn now p pr ss nodes)"
  unfolding agent_spawn_def Let_def using spawned_ok [of nodes]
  by (simp, intro impI nodes_ok_map) (simp_all add: node_ok_def)

lemma ok_view_marks: "ok_view (n\<lparr>cn_position := None\<rparr>) = ok_view n" "ok_view (mark_read t n) = ok_view n"
  by (simp_all add: ok_view_def mark_read_def)

lemma reduceNodes_ok: "nodes_ok nodes \<Longrightarrow> nodes_ok (reduceNodes now nodes a)"
proof (cases a)
  case (OnNode i b)
  then show "nodes_ok nodes \<Longrightarrow> ?thesis" by (simp add: nodes_ok_map reduce_node_ok)
next
  case (ClearPositions ids)
  then show "nodes_ok nodes \<Longrightarrow> ?thesis" by (auto simp: nodes_ok_def intro: node_ok_view [OF _ ok_view_marks(1)])
next
  case (MarkAllRead t)
  then show "nodes_ok nodes \<Longrightarrow> ?thesis" by (auto simp: nodes_ok_def intro: node_ok_view [OF _ ok_view_marks(2)])
qed (simp_all add: applyTreeMessages_ok agent_spawn_ok nodes_ok_upd node_ok_def new_chat_def new_artifact_def new_digest_def
  blank_chat_node_def overview_text_def has_items_def digest_ok_def)

definition reduce_all :: "chat_nodes \<Rightarrow> (int \<times> chat_action) list \<Rightarrow> chat_nodes" where
  "reduce_all = foldl (\<lambda>nodes (now, a). reduceNodes now nodes a)"

text \<open>C28: whatever actions are dispatched, every node of the store is well formed: it is stored under its own id; a document belongs
  to exactly the nodes of its kind; a digest has a running generation exactly while it streams; a node with older history is never
  marked as loaded; the overview shown is the last entry of the journal; and comments, queued messages and consumed links
  hold an entry at most once, the first two never as an empty list.\<close>
theorem store_well_formed: "nodes_ok (reduce_all (\<lambda>_. None) actions)"
proof -
  have "nodes_ok nodes \<Longrightarrow> nodes_ok (reduce_all nodes actions)" for nodes
    unfolding reduce_all_def by (induction actions arbitrary: nodes) (auto simp: reduceNodes_ok)
  from this [of "\<lambda>_. None"] show ?thesis by (simp add: nodes_ok_def)
qed

section \<open>Titles\<close>

definition titled_chat :: "jstr \<Rightarrow> ChatNodeState \<Rightarrow> bool" where
  "titled_chat t n \<longleftrightarrow> cn_kind n = ChatKind \<and> cn_title n = Some t \<and> js_trim t \<noteq> []"

lemma titled_has [simp]: "titled_chat t n \<Longrightarrow> has_title n"
  by (simp add: titled_chat_def has_title_def)

lemma titled_done: "titled_chat t n \<Longrightarrow> titled_chat t (turn_done now i c ab n)"
  using titled_has [of t n] by (simp add: titled_chat_def turn_done_def Let_def split: prod.split)

lemma titled_frame: "titled_chat t n \<Longrightarrow> cn_kind n' = cn_kind n \<Longrightarrow> cn_title n' = cn_title n \<Longrightarrow> titled_chat t n'"
  by (simp add: titled_chat_def)

lemma title_stream: "cn_kind (reduce_stream now i e n) = cn_kind n" "cn_title (reduce_stream now i e n) = cn_title n"
  by (simp_all add: reduce_stream_def Let_def)

lemma title_request: "cn_kind (reduce_request now q n) = cn_kind n" "cn_title (reduce_request now q n) = cn_title n"
  by (cases q; simp add: user_input_request_def user_input_resolved_def Let_def split: option.split)+

lemma title_roster: "cn_kind (reduce_roster now q n) = cn_kind n" "cn_title (reduce_roster now q n) = cn_title n"
  by (cases q; simp add: subagent_list_update_def subagent_tool_activity_def background_subagents_ended_def
      usage_summary_def runtime_warning_def Let_def)+

lemma title_compose: "cn_kind (reduce_compose q n) = cn_kind n" "cn_title (reduce_compose q n) = cn_title n"
  by (cases q; simp add: set_composer_draft_def add_comment_def edit_comment_def queue_message_def queue_steering_def Let_def
      split: option.split)+

lemma title_session: "cn_kind (reduce_session k q n) = cn_kind n" "cn_title (reduce_session k q n) = cn_title n"
  by (cases q; simp add: bind_chat_def session_state_def)+

lemma title_view: "cn_kind (reduce_view q n) = cn_kind n" "cn_title (reduce_view q n) = cn_title n"
  by (cases q; simp add: consume_links_def forget_consumed_link_def Let_def)+

lemma title_digest: "cn_kind (reduce_digest now q n) = cn_kind n" "cn_title (reduce_digest now q n) = cn_title n"
  by (cases q; simp add: on_digest_def on_generation_def split: option.split)+

lemmas title_frames = title_stream title_request title_roster title_compose title_session title_view title_digest

lemma titled_turn: "titled_chat t n \<Longrightarrow> titled_chat t (reduce_turn now a n)"
proof (cases a)
  case (DoneA i c ab)
  then show "titled_chat t n \<Longrightarrow> ?thesis" by (simp add: titled_done)
qed (simp_all add: titled_chat_def user_send_def start_turn_def clear_error_def steer_accepted_def observer_turn_start_def set_cursor_def
    active_turn_def apply_seq_def apply_background_seq_def block_reset_def recover_original_result_def turn_failed_def
    realign_assistant_id_def history_page_loaded_def retry_trim_def visible_response_complete_def optimistic_cancel_def
    cancel_recovery_def Let_def split: option.split)

fun is_rename :: "node_action \<Rightarrow> bool" where
  "is_rename (LabelNode (RenameNode _)) = True"
| "is_rename _ = False"

lemma titled_label: "titled_chat t n \<Longrightarrow> \<not> is_rename (LabelNode a) \<Longrightarrow> titled_chat t (reduce_label now a n)"
  using titled_has [of t n]
  by (cases a) (auto simp: titled_chat_def set_title_def set_branch_overview_def set_follow_ups_def follow_ups_status_def Let_def)

lemma titled_artifact: "titled_chat t n \<Longrightarrow> titled_chat t (reduce_artifact a n)"
  by (cases a) (auto simp: titled_chat_def on_artifact_def artifact_loaded_def split: option.split)

lemma titled_node: "titled_chat t n \<Longrightarrow> \<not> is_rename a \<Longrightarrow> titled_chat t (reduce_node now k a n)"
  by (cases a) (auto simp: titled_turn titled_label titled_artifact intro: titled_frame simp: title_frames)

text \<open>An action that renames the chat or makes a new node in its place.\<close>

fun retitles :: "jstr \<Rightarrow> chat_action \<Rightarrow> bool" where
  "retitles k (OnNode i a) \<longleftrightarrow> i = k \<and> is_rename a"
| "retitles k (CreateNode i _ _ _ _) \<longleftrightarrow> i = k"
| "retitles k (CreateArtifact i _ _) \<longleftrightarrow> i = k"
| "retitles k (CreateDigest i _ _) \<longleftrightarrow> i = k"
| "retitles k _ \<longleftrightarrow> False"

lemma install_frames [simp]:
  "cn_kind (install_messages ms page n) = cn_kind n" "cn_title (install_messages ms page n) = cn_title n"
  by (simp_all add: install_messages_def recoverRunningTurn_def recoverPendingUserInput_def recoverStreamingAssistant_def Let_def split: option.split)

lemma loaded_keeps:
  assumes "\<And>n ms page. P n \<Longrightarrow> P (install_messages ms page n)" "nodes k = Some n" "P n"
  shows "\<exists>n'. applyTreeMessages es pages nodes k = Some n' \<and> P n'"
  using assms(2,3) unfolding applyTreeMessages_def
proof (induction es arbitrary: nodes n)
  case (Cons e es)
  have "\<exists>n'. apply_loaded pages nodes e k = Some n' \<and> P n'" using Cons.prems assms(1) by (cases "fst e = k") (auto simp: apply_loaded_def)
  then show ?case using Cons.IH by auto
qed simp

lemma spawn_keeps:
  "nodes k \<noteq> None \<Longrightarrow> foldl (\<lambda>ns s. ns(sp_nodeId s := Some (spawned_chat p pr s))) nodes (filter (\<lambda>s. nodes (sp_nodeId s) = None) ss) k = nodes k"
proof -
  have "k \<notin> sp_nodeId ` set ss \<Longrightarrow> foldl (\<lambda>ns s. ns(sp_nodeId s := Some (spawned_chat p pr s))) nodes ss k = nodes k" for ss nodes
    by (induction ss arbitrary: nodes) auto
  moreover assume "nodes k \<noteq> None"
  then have "k \<notin> sp_nodeId ` set (filter (\<lambda>s. nodes (sp_nodeId s) = None) ss)" by auto
  ultimately show ?thesis .
qed

lemma titled_reduce:
  assumes "nodes k = Some n" "titled_chat t n" "\<not> retitles k a"
  shows "\<exists>n'. reduceNodes now nodes a k = Some n' \<and> titled_chat t n'"
proof (cases a)
  case (MessagesLoaded es pages)
  then show ?thesis using loaded_keeps [of "titled_chat t" nodes k n es pages] assms(1,2) by (simp add: titled_chat_def)
next
  case (AgentSpawn p pr ss)
  then show ?thesis using assms spawn_keeps [of nodes k p pr ss] by (auto simp: agent_spawn_def Let_def titled_chat_def)
next
  case (ClearPositions ids)
  then show ?thesis using assms by (auto simp: titled_chat_def)
next
  case (MarkAllRead v)
  then show ?thesis using assms by (auto simp: titled_chat_def mark_read_def)
qed (use assms in \<open>auto simp: titled_node\<close>)

text \<open>C35: once a chat has a title no action takes it away or changes it - no end of a turn, no title of the agent, no reload of its
  messages - except the user's own renaming, or making a node of the same id anew.\<close>
theorem title_locked:
  assumes "nodes k = Some n" "cn_kind n = ChatKind" "cn_title n = Some t" "js_trim t \<noteq> []"
    and "list_all (\<lambda>(now, a). \<not> retitles k a) actions"
  shows "\<exists>n'. reduce_all nodes actions k = Some n' \<and> cn_title n' = Some t"
proof -
  have "nodes k = Some n \<Longrightarrow> titled_chat t n \<Longrightarrow> \<exists>n'. reduce_all nodes actions k = Some n' \<and> titled_chat t n'" for nodes n
    using assms(5)
  proof (induction actions arbitrary: nodes n)
    case (Cons e es)
    then obtain now a where e: "e = (now, a)" "\<not> retitles k a" by (cases e) auto
    from titled_reduce [of nodes k n t a now] Cons.prems(1,2) e(2)
    obtain n' where "reduceNodes now nodes a k = Some n'" "titled_chat t n'" by blast
    then show ?case using Cons.IH [of "reduceNodes now nodes a" n'] Cons.prems(3) by (simp add: reduce_all_def e)
  qed (simp add: reduce_all_def)
  with assms show ?thesis by (auto simp: titled_chat_def)
qed

definition demo_chat :: ChatNodeState where
  "demo_chat = (blank_chat_node (js ''n1'') ChatKind (js ''w1''))\<lparr>cn_title := Some (js ''Mine'')\<rparr>"

theorem title_locked_witness:
  "\<exists>n'. reduce_all [js ''n1'' \<mapsto> demo_chat] [(1, OnNode (js ''n1'') (LabelNode (SetTitle (js ''Other''))))] (js ''n1'') = Some n'
     \<and> cn_title n' = Some (js ''Mine'')"
  by (rule title_locked [of _ _ demo_chat])
    (simp_all add: demo_chat_def blank_chat_node_def js_def js_trim_def is_ws_def)

section \<open>What the user wrote\<close>

definition words :: "ChatMessage \<Rightarrow> ChatMessage" where
  \<comment> \<open>a message without the names it is listed under\<close>
  "words m = m\<lparr>cm_id := [], cm_clientKey := None\<rparr>"

definition user_words :: "ChatMessage list \<Rightarrow> ChatMessage list" where
  "user_words ms = map words (filter (\<lambda>m. cm_role m = UserRole) ms)"

definition spares :: "(ChatMessage \<Rightarrow> ChatMessage) \<Rightarrow> bool" where
  "spares f \<longleftrightarrow> (\<forall>m. cm_role (f m) = cm_role m \<and> (cm_role m = UserRole \<longrightarrow> words (f m) = words m))"

lemma user_words_append [simp]: "user_words (xs @ ys) = user_words xs @ user_words ys" "user_words [] = []"
  by (simp_all add: user_words_def)

lemma user_words_map: "spares f \<Longrightarrow> user_words (map f ms) = user_words ms"
  by (induction ms) (auto simp: user_words_def spares_def)

lemma user_words_update: "spares f \<Longrightarrow> user_words (ms[i := f (ms ! i)]) = user_words ms"
proof (induction ms arbitrary: i)
  case (Cons m ms)
  then show ?case by (cases i) (auto simp: user_words_def spares_def)
qed simp

lemma spares_project: "spares (\<lambda>m. projectAssistantStreamEvent now m ws e)"
  by (auto simp: spares_def projectAssistantStreamEvent_def Let_def split: option.split)

lemma spares_if: "spares f \<Longrightarrow> spares (\<lambda>m. if P m then f m else m)" "spares f \<Longrightarrow> spares (\<lambda>m. if P m then m else f m)"
  by (auto simp: spares_def)

lemma user_words_project [simp]: "user_words (project_onto now i e n) = user_words (cn_messages n)"
  by (simp add: project_onto_def map_message_def user_words_map spares_if spares_project)

lemma spares_finalize: "spares finalizeAssistantBlocks"
  by (simp add: spares_def finalizeAssistantBlocks_def)

lemma spares_rename: "spares (rename_message x y)"
  by (simp add: spares_def rename_message_def words_def)

lemma user_words_stream [simp]: "user_words (cn_messages (reduce_stream now i e n)) = user_words (cn_messages n)"
  by (simp add: reduce_stream_def Let_def)

lemma user_words_take_drop: "user_words (take j ms) @ user_words (drop j ms) = user_words ms"
  by (metis append_take_drop_id user_words_append(1))

lemma user_words_steer: "subseq (user_words (cn_messages n)) (user_words (cn_messages (steer_accepted d a q n)))"
proof -
  have "subseq (user_words ms) (user_words (take j ms @ m # drop j ms))" for j m and ms
    using user_words_append(1) [of "take j ms" "m # drop j ms"] user_words_append(1) [of "[m]" "drop j ms"]
      user_words_take_drop [of j ms] by (metis append_Cons append_Nil list_emb_append2 subseq_append' subseq_order.refl)
  then show ?thesis by (auto simp: steer_accepted_def Let_def split: option.splits)
qed

lemma user_words_frames [simp]:
  "user_words (cn_messages (turn_done now i c ab n)) = user_words (cn_messages n)"
  "user_words (cn_messages (turn_failed now f n)) = user_words (cn_messages n)"
  "user_words (cn_messages (realign_assistant_id x y n)) = user_words (cn_messages n)"
  "user_words (cn_messages (visible_response_complete i n)) = user_words (cn_messages n)"
  by (simp_all add: turn_done_def turn_failed_def realign_assistant_id_def user_words_map spares_rename visible_response_complete_def
      map_message_def spares_if spares_finalize Let_def split: prod.split)

lemma user_words_request [simp]: "user_words (cn_messages (reduce_request now q n)) = user_words (cn_messages n)"
  by (cases q) (simp_all add: user_input_request_def user_input_resolved_def user_words_map spares_if spares_project Let_def
      user_words_update [OF spares_project, simplified] split: option.split)

lemma find_first: "find P xs = map_option (nth xs) (find_index P xs)"
  by (induction xs) (auto simp: option.map_comp comp_def)

lemma user_words_roster [simp]: "user_words (cn_messages (reduce_roster now q n)) = user_words (cn_messages n)"
proof (cases q)
  case (SubagentToolActivityA a y)
  have first: "ms ! j = t" if "find (\<lambda>m. cm_id m = x) ms = Some t" "find_index (\<lambda>m. cm_id m = cm_id t) ms = Some j" for x t ms j
    using that find_Some_key [OF that(1)] find_first [of "\<lambda>m. cm_id m = x" ms] by simp
  show ?thesis using user_words_update [OF spares_project, simplified]
    by (auto simp: SubagentToolActivityA subagent_tool_activity_def Let_def split: option.splits dest!: first)
next
  case (BackgroundSubagentsEnded ws ends)
  have "spares (\<lambda>m. if cm_role m \<noteq> AssistantRole then m else m\<lparr>cm_subagents := end_roster ends (cm_subagents m)\<rparr>)"
    by (simp add: spares_def)
  with BackgroundSubagentsEnded show ?thesis by (simp add: background_subagents_ended_def user_words_map)
qed (simp_all add: subagent_list_update_def usage_summary_def runtime_warning_def Let_def split: option.split)

text \<open>Actions whose purpose is to take messages away or to replace one: trimming before a retry, starting a message over, and
  putting the saved result of a turn in the place of its message.\<close>

fun replaces_rows :: "node_action \<Rightarrow> bool" where
  "replaces_rows (TurnNode (RetryTrim _)) = True"
| "replaces_rows (TurnNode (BlockReset _)) = True"
| "replaces_rows (TurnNode (RecoverOriginalResult _ _ _ _ _)) = True"
| "replaces_rows _ = False"

lemma subseq_extend [simp]: "subseq xs (xs @ ys)" "subseq xs (ys @ xs)"
  by (simp_all add: list_emb_prefix list_emb_append2)

lemma user_words_turn:
  assumes "\<not> replaces_rows (TurnNode a)"
  shows "subseq (user_words (cn_messages n)) (user_words (cn_messages (reduce_turn now a n)))"
proof (cases a)
  case (HistoryPageLoaded x y page z)
  then show ?thesis by (simp add: history_page_loaded_def Let_def)
next
  case (ObserverTurnStart ob)
  then show ?thesis by (simp add: observer_turn_start_def set_cursor_def start_turn_def clear_error_def Let_def)
qed (use assms in \<open>simp_all add: user_words_steer user_send_def start_turn_def clear_error_def active_turn_def apply_seq_def
    apply_background_seq_def optimistic_cancel_def cancel_recovery_def\<close>)

lemma messages_label [simp]: "cn_messages (reduce_label now a n) = cn_messages n"
  by (cases a) (simp_all add: set_title_def set_branch_overview_def rename_node_def set_follow_ups_def follow_ups_status_def Let_def)

lemma messages_compose [simp]: "cn_messages (reduce_compose a n) = cn_messages n"
  by (cases a) (simp_all add: set_composer_draft_def add_comment_def edit_comment_def queue_message_def queue_steering_def Let_def
      split: option.split)

lemma messages_session [simp]: "cn_messages (reduce_session k a n) = cn_messages n"
  by (cases a) (simp_all add: bind_chat_def session_state_def)

lemma messages_view [simp]: "cn_messages (reduce_view a n) = cn_messages n"
  by (cases a) (simp_all add: consume_links_def forget_consumed_link_def Let_def)

lemma messages_artifact [simp]: "cn_messages (reduce_artifact a n) = cn_messages n"
  by (cases a) (simp_all add: on_artifact_def artifact_loaded_def split: option.split)

lemma messages_digest [simp]: "cn_messages (reduce_digest now a n) = cn_messages n"
  by (cases a) (simp_all add: on_digest_def on_generation_def split: option.split)

lemma user_words_node:
  "\<not> replaces_rows a \<Longrightarrow> subseq (user_words (cn_messages n)) (user_words (cn_messages (reduce_node now k a n)))"
  by (cases a) (simp_all add: user_words_turn)

definition run_node :: "jstr \<Rightarrow> ChatNodeState \<Rightarrow> (int \<times> node_action) list \<Rightarrow> ChatNodeState" where
  \<comment> \<open>the actions on one node, one after another\<close>
  "run_node k = foldl (\<lambda>n (now, a). reduce_node now k a n)"

text \<open>C20: no action on a node - no frame of a turn, no end or failure, no cancellation, no page of history, no edit - changes, drops or
  reorders what the user wrote: the messages of the user, but for the ids they are listed under, stay in the transcript in
  their order, except when the user retries from an earlier point or a message is started over or restored.\<close>
theorem user_words_kept:
  assumes "list_all (\<lambda>(now, a). \<not> replaces_rows a) actions"
  shows "subseq (user_words (cn_messages n)) (user_words (cn_messages (run_node k n actions)))"
  using assms
proof (induction actions arbitrary: n)
  case (Cons e es)
  obtain now a where e: "e = (now, a)" by (cases e)
  have "subseq (user_words (cn_messages n)) (user_words (cn_messages (reduce_node now k a n)))"
    using Cons.prems e by (simp add: user_words_node)
  also have "subseq \<dots> (user_words (cn_messages (run_node k (reduce_node now k a n) es)))"
    using Cons by simp
  finally show ?case by (simp add: run_node_def e)
qed (simp add: run_node_def)

theorem user_words_kept_witness:
  "subseq (user_words [blank_message (js ''u1'') UserRole])
     (user_words (cn_messages (run_node (js ''n1'') (demo_chat\<lparr>cn_messages := [blank_message (js ''u1'') UserRole]\<rparr>)
        [(1, TurnNode (DoneA (js ''a1'') None True)), (2, TurnNode OptimisticCancel)])))"
  using user_words_kept [of "[(1, TurnNode (DoneA (js ''a1'') None True)), (2, TurnNode OptimisticCancel)]"
      "demo_chat\<lparr>cn_messages := [blank_message (js ''u1'') UserRole]\<rparr>" "js ''n1''"] by simp

section \<open>Late events of an older turn\<close>



definition only_message :: "jstr \<Rightarrow> ChatMessage list \<Rightarrow> ChatMessage list \<Rightarrow> bool" where
  \<comment> \<open>the messages of another id stay as and where they are\<close>
  "only_message i = list_all2 (\<lambda>m m'. cm_id m = i \<or> m' = m)"

lemma only_message_refl [simp]: "only_message i ms ms"
  by (simp add: only_message_def list_all2_conv_all_nth)

lemma only_message_map: "only_message i ms (map_message i f ms)"
  by (simp add: only_message_def map_message_def list_all2_conv_all_nth)

lemma only_message_project [simp]: "only_message i (cn_messages n) (project_onto now i e n)"
  unfolding project_onto_def by (rule only_message_map)











text \<open>The error of a turn that drains its hidden tail is not so isolated: when a newer turn has failed meanwhile, the node is idle again
  although the newer turn's failure is still recorded in it, and when a newer turn is generating follow-ups, it is no longer
  said to.\<close>
theorem tail_error_unfails_newer_turn:
  assumes "cn_backgroundTurnAssistantId n = Some (tf_assistantId f)" "cn_status n = NodeError"
  shows "cn_status (turn_failed now f n) = NodeIdle \<and> cn_error (turn_failed now f n) = cn_error n
    \<and> cn_errorTurnId (turn_failed now f n) = cn_errorTurnId n"
  using assms by (simp add: turn_failed_def Let_def)

definition failure_of :: "string \<Rightarrow> turn_failure" where
  "failure_of i = \<lparr>tf_assistantId = js i, tf_message = js ''lost'', tf_errorKind = None, tf_recoverable = None, tf_completedAt = None, tf_turnId = None\<rparr>"

definition send_of :: "string \<Rightarrow> send_action" where
  "send_of i = \<lparr>us_userText = js ''hi'', us_assistantId = js i, us_quotedText = None, us_attachments = None, us_comments = None,
     us_mentions = None, us_keepDraft = False, us_quoteSource = None\<rparr>"

definition tail_story :: ChatNodeState where
  \<comment> \<open>the first answer is complete, a second message is sent and its turn fails\<close>
  "tail_story = run_node (js ''n1'') demo_chat [(1, TurnNode (UserSend (send_of ''a1''))), (2, TurnNode (VisibleResponseComplete (js ''a1''))),
     (3, TurnNode (UserSend (send_of ''a2''))), (4, TurnNode (ErrorA (failure_of ''a2'')))]"

lemma tail_story_state: "cn_backgroundTurnAssistantId tail_story = Some (js ''a1'')" "cn_status tail_story = NodeError"
  by (simp_all add: tail_story_def run_node_def user_send_def start_turn_def clear_error_def visible_response_complete_def turn_failed_def
      send_of_def failure_of_def demo_chat_def blank_chat_node_def placeholder_def blank_message_def user_bubble_def Let_def
      latestAssistantId_def latest_assistant_def map_message_def finalizeAssistantBlocks_def)

theorem tail_error_unfails_newer_turn_witness:
  "cn_status (turn_failed 5 (failure_of ''a1'') tail_story) = NodeIdle \<and> cn_error (turn_failed 5 (failure_of ''a1'') tail_story) = cn_error tail_story
    \<and> cn_errorTurnId (turn_failed 5 (failure_of ''a1'') tail_story) = cn_errorTurnId tail_story"
  by (rule tail_error_unfails_newer_turn) (simp_all add: tail_story_state failure_of_def)

end
