(* ===== verification/Chat_Observer.thy ===== *)
theory Chat_Observer
  imports Chat_Safety
begin

text \<open>
  A window that follows a turn it did not start (\<^verbatim>\<open>frontend/src/state/observeChatStream.ts\<close>, the dispatch of frames in
  \<^verbatim>\<open>services/chatStreamEvents.ts\<close>, and \<^verbatim>\<open>subagentStreamActions.ts\<close>): which frames pass the replay gate, what each
  dispatches to the store, and what it tells the rest of the client. The gate reads the node's own cursor, as the bindings of
  \<^verbatim>\<open>chatStore.tsx\<close> do. Frames with no handler here (branches to spawn, saved artifacts, queue and harness notices) dispatch
  nothing to the node.
\<close>

section \<open>State and effects\<close>

record turn_watch =
  tw_assistantId :: jstr \<comment> \<open>empty before any frame named one\<close>
  tw_turnId :: jstr


datatype turn_effect =
    ObservationSettled jstr cancel_state "jstr option" \<comment> \<open>\<open>settleCancellationObservation\<close>: turn, state, detail\<close>
  | TurnEnded bool \<comment> \<open>\<open>onTurnEnd\<close>, whether without an error\<close>
  | StreamCompleted
  | ReachedTerminal

section \<open>The replay gate\<close>

definition rememberEnvelope :: "jstr option \<Rightarrow> jstr option \<Rightarrow> turn_watch \<Rightarrow> turn_watch" where
  "rememberEnvelope assistantId turnId w =
     \<lparr>tw_assistantId = (if truthy_str assistantId then the assistantId else tw_assistantId w),
      tw_turnId = (if truthy_str turnId then the turnId else tw_turnId w)\<rparr>"

definition cursor_of :: "bool \<Rightarrow> ChatNodeState \<Rightarrow> jstr \<times> int" where
  \<comment> \<open>the references \<open>lastTurnRef\<close> and \<open>lastSeqRef\<close> of a foreground or a background binding\<close>
  "cursor_of fg n =
     (if fg then (default_to (cn_lastAppliedTurnId n) [], default_to (cn_lastAppliedSeq n) (-1))
      else (default_to (cn_lastAppliedBackgroundTurnId n) [], default_to (cn_lastAppliedBackgroundSeq n) (-1)))"

definition applySeq :: "bool \<Rightarrow> turn_watch \<Rightarrow> int option \<Rightarrow> ChatNodeState \<Rightarrow> ChatNodeState option" where
  \<comment> \<open>\<open>None\<close>: the frame was applied before\<close>
  "applySeq fg w seq n = (case seq of None \<Rightarrow> Some n
     | Some q \<Rightarrow>
         if tw_turnId w = [] then Some n
         else if fst (cursor_of fg n) = tw_turnId w \<and> q \<le> snd (cursor_of fg n) then None
         else Some (reduce_turn 0 (if fg then ApplySeq (tw_turnId w) q else ApplyBackgroundSeq (tw_turnId w) q) n))"

section \<open>Handlers\<close>

definition toolState :: "int \<Rightarrow> ToolCallStreamPayload \<Rightarrow> DurableToolCall" where
  "toolState now tool = \<lparr>d_id = (if tc_toolCallId tool \<noteq> [] then tc_toolCallId tool else js ''t-'' @ decimal_int now),
     d_title = tc_title tool, d_status = tc_status tool, d_kind = tc_kind tool, d_detail = tc_detail tool,
     d_inputJson = tc_inputJson tool, d_output = tc_output tool, d_textOffset = None, d_startedAt = None, d_endedAt = None\<rparr>"

definition subagentActivityFields :: "SubagentActivityPayload \<Rightarrow> SubagentActivityPayload" where
  "subagentActivityFields d = d\<lparr>y_toolCallId := truthy_of (y_toolCallId d), y_toolKind := truthy_of (y_toolKind d),
     y_detail := truthy_of (y_detail d), y_output := truthy_of (y_output d)\<rparr>"

definition turn_started_action :: "bool \<Rightarrow> TurnStart \<Rightarrow> turn_action" where
  "turn_started_action fg d = ObserverTurnStart \<lparr>ob_turnId = ts_turnId d, ob_assistantId = ts_assistantId d,
     ob_userText = ts_userText d, ob_selfInitiated = (ts_selfInitiated d = Some True), ob_userMetadata = ts_userMetadata d,
     ob_foreground = fg\<rparr>"

definition requested_input :: "UserInputRequestPayload \<Rightarrow> UserInputRequestState" where
  "requested_input d = \<lparr>pu_requestId = ur_requestId d, pu_interactionId = ur_interactionId d, pu_questions = ur_questions d,
     pu_answers = [], pu_resolved = None, pu_interrupted = None, pu_receivedAt = None\<rparr>"

definition CLEANUP_FAILED :: jstr where
  "CLEANUP_FAILED = js ''Cancellation cleanup failed. Retry to check the original session.''"

definition NOT_PERSISTED :: jstr where
  "NOT_PERSISTED = js ''The turn finished but the backend did not confirm durable persistence.''"

definition AGENT_EXITED :: jstr where
  "AGENT_EXITED = js ''Agent process exited before completing the turn.''"

definition failure :: "turn_watch \<Rightarrow> jstr \<Rightarrow> jstr option \<Rightarrow> bool option \<Rightarrow> int option \<Rightarrow> turn_failure" where
  "failure w message code recoverable completedAt = \<lparr>tf_assistantId = tw_assistantId w, tf_message = message, tf_errorKind = code,
     tf_recoverable = recoverable, tf_completedAt = completedAt, tf_turnId = Some (tw_turnId w)\<rparr>"

definition is_cancelled :: "jstr option \<Rightarrow> bool" where
  "is_cancelled stopReason \<longleftrightarrow> stopReason = Some (js ''cancel'') \<or> stopReason = Some (js ''cancelled'')"

definition done_actions :: "turn_watch \<Rightarrow> DonePayload \<Rightarrow> node_action list" where
  "done_actions w d =
     (if tw_assistantId w = [] then []
      else if do_persisted d = Some False
        then [TurnNode (ErrorA (failure w NOT_PERSISTED (Some (js ''turn_persistence_failed'')) None None))]
      else if do_stopReason d = Some (js ''error'')
        then [TurnNode (ErrorA (failure w AGENT_EXITED (Some (js ''turn_outcome_unknown'')) None None))]
      else [TurnNode (DoneA (tw_assistantId w) (do_completedAt d) (is_cancelled (do_stopReason d)))])"

definition done_effects :: "turn_watch \<Rightarrow> DonePayload \<Rightarrow> turn_effect list" where
  "done_effects w d =
     (let failed = (do_persisted d = Some False \<or> do_stopReason d = Some (js ''error''))
      in (if failed then ObservationSettled (tw_turnId w) CancelFailed (Some CLEANUP_FAILED)
          else ObservationSettled (tw_turnId w) CancelIsSettled None)
         # (if tw_assistantId w = [] then [] else if failed then [TurnEnded False, ReachedTerminal]
            else [TurnEnded True, StreamCompleted, ReachedTerminal]))"

definition about :: "turn_watch \<Rightarrow> (jstr \<Rightarrow> node_action) \<Rightarrow> node_action list" where
  \<comment> \<open>dispatched only once the assistant message is known\<close>
  "about w f = (if tw_assistantId w \<noteq> [] then [f (tw_assistantId w)] else [])"

fun watch_actions :: "bool \<Rightarrow> int \<Rightarrow> turn_watch \<Rightarrow> ChatStreamEvent \<Rightarrow> ChatStreamPayload \<Rightarrow> node_action list" where
  "watch_actions fg now w e (TurnStarted d) = [TurnNode (turn_started_action fg d)]"
| "watch_actions fg now w e (Chunk text) = about w (\<lambda>i. StreamNode i (ChunkA text (v_observedAt e)))"
| "watch_actions fg now w e (Thought text) = about w (\<lambda>i. StreamNode i (ThoughtA text (v_observedAt e)))"
| "watch_actions fg now w e (Plan entries) = about w (\<lambda>i. StreamNode i (PlanA entries))"
| "watch_actions fg now w e (SteerAcceptedEvent d) = about w (\<lambda>i. TurnNode (SteerAcceptedA d (Some i) (v_seq e)))"
| "watch_actions fg now w e (SteeringReportEvent reports) = about w (\<lambda>i. StreamNode i (SteeringReportA reports))"
| "watch_actions fg now w e (ToolCall tool) = about w (\<lambda>i. StreamNode i (ToolCallA (toolState now tool) (v_observedAt e)))"
| "watch_actions fg now w e (ToolCallUpdate tool) = about w (\<lambda>i. StreamNode i (ToolCallUpdateA (toolState now tool) (v_observedAt e)))"
| "watch_actions fg now w e (Image d) = about w (\<lambda>i. StreamNode i (ImageBlockA d))"
| "watch_actions fg now w e (Chat_Events.Heartbeat idleMs) = [TurnNode (Chat_Turns.Heartbeat idleMs)]"
| "watch_actions fg now w e (Title title) = [LabelNode (SetTitle title)]"
| "watch_actions fg now w e (BranchOverview overview) = [LabelNode (SetBranchOverview overview (Some (tw_assistantId w)))]"
| "watch_actions fg now w e (FollowUps followUps) = [LabelNode (SetFollowUps followUps)]"
| "watch_actions fg now w e (FollowUpsStatusEvent status) = [LabelNode (FollowUpsStatusA status)]"
| "watch_actions fg now w e (SessionState state) = [SessionNode (SessionStateA state)]"
| "watch_actions fg now w e (Commands commands) = [SessionNode (SetCommands commands)]"
| "watch_actions fg now w e (PermissionResolved requestId) = [RequestNode (PermissionResolvedA (Some requestId))]"
| "watch_actions fg now w e (PermissionRequested permission) = [RequestNode (PermissionRequestA permission)]"
| "watch_actions fg now w e (UserInputRequest d) = [RequestNode (UserInputRequestA (v_assistantId e) (requested_input d))]"
| "watch_actions fg now w e (UserInputResolvedEvent d) =
     [RequestNode (UserInputResolvedA (Some (us_requestId d)) (us_interactionId d) (Some (us_answers d)) (us_outcome d))]"
| "watch_actions fg now w e (SubagentListUpdate patches) = [RosterNode (SubagentListUpdateA (truthy_of (Some (tw_assistantId w))) patches)]"
| "watch_actions fg now w e (SubagentToolActivity d) =
     [RosterNode (SubagentToolActivityA (truthy_of (Some (tw_assistantId w))) (subagentActivityFields d))]"
| "watch_actions fg now w e (ContextUsage percentage) = [RosterNode (ContextUsageA percentage)]"
| "watch_actions fg now w e (UsageSummaryEvent usage) = [RosterNode (UsageSummaryA (Some (tw_assistantId w)) usage)]"
| "watch_actions fg now w e (CancelPhaseEvent phase) = [TurnNode (CancelPhaseA phase)]"
| "watch_actions fg now w e (CompactionStart _) = [TurnNode (CompactionA True)]"
| "watch_actions fg now w e (CompactionEnd _) = [TurnNode (CompactionA False)]"
| "watch_actions fg now w e (RetryStart detail) =
     [TurnNode (RuntimeActivity (Some (tw_assistantId w)) (Some (default_to detail (js ''Reconnecting''))))]"
| "watch_actions fg now w e (RetryEnd _) = [TurnNode (RuntimeActivity (Some (tw_assistantId w)) None)]"
| "watch_actions fg now w e (Warning warning) = [RosterNode (WarningA (Some (tw_assistantId w)) warning)]"
| "watch_actions fg now w e (McpServerError serverName error) = [RosterNode (McpServerErrorA serverName error)]"
| "watch_actions fg now w e (Done d) = done_actions w d"
| "watch_actions fg now w e (Error d) =
     about w (\<lambda>i. TurnNode (ErrorA (failure w (er_message d) (er_code d) (er_recoverable d) (er_completedAt d))))"
| "watch_actions fg now w e _ = []"

fun watch_effects :: "turn_watch \<Rightarrow> ChatStreamPayload \<Rightarrow> turn_effect list" where
  "watch_effects w (Done d) = done_effects w d"
| "watch_effects w (Error d) = [ObservationSettled (tw_turnId w) CancelFailed (Some (er_message d)), TurnEnded False, ReachedTerminal]"
| "watch_effects w _ = []"

section \<open>A frame\<close>

fun envelope_ids :: "ChatStreamEvent \<Rightarrow> ChatStreamPayload \<Rightarrow> jstr option \<times> jstr option" where
  \<comment> \<open>assistant and turn of a frame; a turn start carries them as members of its payload, which are the same members\<close>
  "envelope_ids e (TurnStarted d) = (Some (ts_assistantId d), Some (ts_turnId d))"
| "envelope_ids e _ = (v_assistantId e, v_turnId e)"

definition watch_frame :: "bool \<Rightarrow> jstr \<Rightarrow> int \<Rightarrow> turn_watch \<times> ChatNodeState \<Rightarrow> ChatStreamEvent \<Rightarrow> turn_watch \<times> ChatNodeState" where
  \<comment> \<open>\<open>dispatchChatStreamEvent\<close> with the handlers of a binding, on the node \<open>k\<close>\<close>
  "watch_frame fg k now s e =
     (let (assistantId, turnId) = envelope_ids e (v_data e); w = rememberEnvelope assistantId turnId (fst s)
      in case applySeq fg w (v_seq e) (snd s) of None \<Rightarrow> (w, snd s)
         | Some n \<Rightarrow> (w, foldl (\<lambda>n a. reduce_node now k a n) n (watch_actions fg now w e (v_data e))))"

definition frame_effects :: "bool \<Rightarrow> turn_watch \<times> ChatNodeState \<Rightarrow> ChatStreamEvent \<Rightarrow> turn_effect list" where
  "frame_effects fg s e =
     (let (assistantId, turnId) = envelope_ids e (v_data e); w = rememberEnvelope assistantId turnId (fst s)
      in if applySeq fg w (v_seq e) (snd s) = None then [] else watch_effects w (v_data e))"

definition watch_all :: "bool \<Rightarrow> jstr \<Rightarrow> turn_watch \<times> ChatNodeState \<Rightarrow> (int \<times> ChatStreamEvent) list \<Rightarrow> turn_watch \<times> ChatNodeState" where
  "watch_all fg k = foldl (\<lambda>s (now, e). watch_frame fg k now s e)"

section \<open>Lemmas: frames that fold alike\<close>


















section \<open>Lemmas: the reply in the store\<close>



lemma project_id [simp]: "cm_id (projectAssistantStreamEvent now m ws e) = cm_id m"
  by (simp add: projectAssistantStreamEvent_def Let_def)






text \<open>The members of a node that decide where a frame goes.\<close>

definition route where
  "route n = (cn_projectId n, cn_backgroundTurnAssistantId n, cn_lastAppliedTurnId n, cn_lastAppliedSeq n,
     cn_lastAppliedBackgroundTurnId n, cn_lastAppliedBackgroundSeq n)"

lemma route_label [simp]: "route (reduce_label now a n) = route n"
  by (cases a) (simp_all add: route_def set_title_def set_branch_overview_def rename_node_def set_follow_ups_def follow_ups_status_def Let_def)

lemma route_session [simp]: "route (reduce_session k a n) = route n"
  by (cases a) (simp_all add: route_def bind_chat_def session_state_def)

lemma route_roster [simp]: "route (reduce_roster now a n) = route n"
  by (cases a) (simp_all add: route_def subagent_list_update_def subagent_tool_activity_def background_subagents_ended_def
      usage_summary_def runtime_warning_def Let_def)

lemma route_request [simp]: "route (reduce_request now a n) = route n"
  by (cases a) (simp_all add: route_def user_input_request_def user_input_resolved_def Let_def split: option.split)

lemma route_stream [simp]: "route (reduce_stream now i e n) = route n"
  by (simp add: route_def reduce_stream_def Let_def)

lemma route_steer [simp]: "route (steer_accepted d a q n) = route n"
  by (simp add: route_def steer_accepted_def Let_def split: option.split)



lemma gate_passes:
  assumes "tw_turnId w = t" "t \<noteq> []" "0 \<le> q" "\<not> (fst (cursor_of fg n) = t \<and> q \<le> snd (cursor_of fg n))"
  shows "\<exists>n1. applySeq fg w (Some q) n = Some n1 \<and> cn_messages n1 = cn_messages n \<and> cursor_of fg n1 = (t, q)
    \<and> cn_projectId n1 = cn_projectId n \<and> cn_backgroundTurnAssistantId n1 = cn_backgroundTurnAssistantId n"
  using assms by (cases fg; cases "cn_lastAppliedTurnId n"; cases "cn_lastAppliedBackgroundTurnId n")
    (auto simp: applySeq_def cursor_of_def apply_seq_def apply_background_seq_def)

lemma cursor_route: "route n' = route n \<Longrightarrow> cursor_of fg n' = cursor_of fg n"
  by (simp add: route_def cursor_of_def)













text \<open>The end of a turn may release the mark of a draining turn; the rest of the route stays.\<close>

lemma done_route:
  "cn_projectId (turn_done now i c ab n) = cn_projectId n" "cursor_of fg (turn_done now i c ab n) = cursor_of fg n"
  "cn_backgroundTurnAssistantId (turn_done now i c ab n) = release_tail i n"
  "cn_messages (turn_done now i c ab n) = project_onto now i (end_frame ab c) n"
  by (simp_all add: turn_done_def split_beta Let_def cursor_of_def)







fun calm :: "node_action \<Rightarrow> bool" where
  \<comment> \<open>an action that moves neither messages nor cursors\<close>
  "calm (LabelNode _) = True" | "calm (SessionNode _) = True"
| "calm (RequestNode (PermissionRequestA _)) = True" | "calm (RequestNode (PermissionResolvedA _)) = True"
| "calm (RosterNode (ContextUsageA _)) = True" | "calm (RosterNode (McpServerErrorA _ _)) = True"
| "calm (TurnNode (Chat_Turns.Heartbeat _)) = True" | "calm (TurnNode (CancelPhaseA _)) = True"
| "calm (TurnNode (CompactionA _)) = True" | "calm (TurnNode (RuntimeActivity _ _)) = True"
| "calm _ = False"

lemma calm_action:
  assumes "calm a"
  shows "route (reduce_node now k a n) = route n \<and> cn_messages (reduce_node now k a n) = cn_messages n"
proof (cases a)
  case (LabelNode x)
  then show ?thesis by (simp only: reduce_node.simps route_label messages_label)
next
  case (SessionNode x)
  then show ?thesis by (simp only: reduce_node.simps route_session messages_session)
next
  case (TurnNode x)
  then show ?thesis using assms by (cases x) (simp_all add: route_def)
next
  case (RequestNode x)
  then show ?thesis using assms by (cases x) (simp_all add: route_def)
next
  case (RosterNode x)
  then show ?thesis using assms by (cases x) (simp_all add: route_def)
qed (use assms in simp_all)





section \<open>Theorems: a window follows a turn\<close>

definition own_frame :: "jstr \<Rightarrow> ChatStreamEvent \<Rightarrow> bool" where
  "own_frame i e \<longleftrightarrow> (truthy_str (v_assistantId e) \<longrightarrow> v_assistantId e = Some i)"








section \<open>Redelivered frames\<close>

definition steady :: "node_action \<Rightarrow> bool" where
  \<comment> \<open>an action that leaves the cursors alone\<close>
  "steady a \<longleftrightarrow> (case a of TurnNode x \<Rightarrow> (case x of DoneA _ _ _ \<Rightarrow> True | ErrorA _ \<Rightarrow> True | SteerAcceptedA _ _ _ \<Rightarrow> True | _ \<Rightarrow> calm a)
    | StreamNode _ _ \<Rightarrow> True | LabelNode _ \<Rightarrow> True | SessionNode _ \<Rightarrow> True | RequestNode _ \<Rightarrow> True | RosterNode _ \<Rightarrow> True | _ \<Rightarrow> False)"

lemma cursor_failed: "cursor_of fg (turn_failed now a n) = cursor_of fg n"
  by (simp add: turn_failed_def Let_def cursor_of_def)

lemma cursor_action:
  assumes "steady a"
  shows "cursor_of fg (reduce_node now k a n) = cursor_of fg n"
proof (cases "calm a")
  case True
  then show ?thesis using cursor_route calm_action by blast
next
  case False
  show ?thesis
  proof (cases a)
    case (TurnNode x)
    with False assms show ?thesis
      by (cases x) (simp_all add: steady_def done_route cursor_failed cursor_route [OF route_steer])
  next
    case (StreamNode i x)
    then show ?thesis by (simp only: reduce_node.simps cursor_route [OF route_stream])
  next
    case (RequestNode x)
    then show ?thesis by (simp only: reduce_node.simps cursor_route [OF route_request])
  next
    case (RosterNode x)
    then show ?thesis by (simp only: reduce_node.simps cursor_route [OF route_roster])
  qed (use assms False in \<open>simp_all add: steady_def\<close>)
qed

lemma steady_foldl:
  "list_all steady as \<Longrightarrow> cursor_of fg (foldl (\<lambda>n a. reduce_node now k a n) n as) = cursor_of fg n"
  by (induction as arbitrary: n) (simp_all add: cursor_action)

lemma steady_actions:
  "\<forall>x. d \<noteq> TurnStarted x \<Longrightarrow> list_all steady (watch_actions fg now w e d)"
  by (cases d) (simp_all add: about_def done_actions_def steady_def)

lemma cursor_actions:
  "\<forall>x. v_data e \<noteq> TurnStarted x \<Longrightarrow>
    cursor_of fg (foldl (\<lambda>n a. reduce_node now k a n) n (watch_actions fg' now w e (v_data e))) = cursor_of fg n"
  by (rule steady_foldl [OF steady_actions])

definition in_log :: "jstr \<Rightarrow> jstr \<Rightarrow> ChatStreamEvent \<Rightarrow> bool" where
  \<comment> \<open>the frames of one turn after its start; numbers count from 0\<close>
  "in_log i t e \<longleftrightarrow> t \<noteq> [] \<and> v_turnId e = Some t \<and> own_frame i e \<and> (case v_seq e of None \<Rightarrow> True | Some q \<Rightarrow> 0 \<le> q)
     \<and> (case v_data e of TurnStarted _ \<Rightarrow> False | _ \<Rightarrow> True)"

definition watch_later :: "bool \<Rightarrow> jstr \<Rightarrow> jstr \<Rightarrow> jstr \<Rightarrow> ChatNodeState \<Rightarrow> int \<times> ChatStreamEvent \<Rightarrow> ChatNodeState" where
  "watch_later fg k i t n te = (if in_log i t (snd te)
     then snd (watch_frame fg k (fst te) (\<lparr>tw_assistantId = i, tw_turnId = t\<rparr>, n) (snd te)) else n)"

definition log_seq :: "jstr \<Rightarrow> jstr \<Rightarrow> int \<times> ChatStreamEvent \<Rightarrow> int option" where
  "log_seq i t te = (if in_log i t (snd te) then v_seq (snd te) else None)"

definition log_mark :: "bool \<Rightarrow> jstr \<Rightarrow> ChatNodeState \<Rightarrow> int" where
  "log_mark fg t n = (if fst (cursor_of fg n) = t then max (-1) (snd (cursor_of fg n)) else -1)"

lemma in_log_frame:
  assumes "in_log i t e"
  shows "watch_frame fg k now (\<lparr>tw_assistantId = i, tw_turnId = t\<rparr>, n) e =
    (\<lparr>tw_assistantId = i, tw_turnId = t\<rparr>,
     case applySeq fg \<lparr>tw_assistantId = i, tw_turnId = t\<rparr> (v_seq e) n of None \<Rightarrow> n
     | Some n \<Rightarrow> foldl (\<lambda>n a. reduce_node now k a n) n (watch_actions fg now \<lparr>tw_assistantId = i, tw_turnId = t\<rparr> e (v_data e)))"
proof -
  have "envelope_ids e (v_data e) = (v_assistantId e, v_turnId e)" using assms by (cases "v_data e") (simp_all add: in_log_def)
  moreover have "rememberEnvelope (v_assistantId e) (v_turnId e) \<lparr>tw_assistantId = i, tw_turnId = t\<rparr> = \<lparr>tw_assistantId = i, tw_turnId = t\<rparr>"
    using assms by (auto simp: in_log_def own_frame_def rememberEnvelope_def)
  ultimately show ?thesis by (simp add: watch_frame_def Let_def split: option.split)
qed

lemma in_log_started: "in_log i t e \<Longrightarrow> v_data e \<noteq> TurnStarted x"
  by (auto simp: in_log_def)

interpretation watched: watermarked_log "watch_later fg k i t" "log_seq i t" "log_mark fg t" for fg k i t
proof unfold_locales
  fix te q n assume a: "log_seq i t te = Some q"
  then have l: "in_log i t (snd te)" "v_seq (snd te) = Some q" by (simp_all add: log_seq_def split: if_splits)
  then have q: "t \<noteq> []" "0 \<le> q" by (simp_all add: in_log_def)
  show "watch_later fg k i t n te = n" if "q \<le> log_mark fg t n"
  proof -
    have "fst (cursor_of fg n) = t \<and> q \<le> snd (cursor_of fg n)" using that q by (simp add: log_mark_def split: if_splits)
    then show ?thesis using l q by (simp add: watch_later_def in_log_frame applySeq_def)
  qed
  show "log_mark fg t (watch_later fg k i t n te) = q" if "log_mark fg t n < q"
  proof -
    have "\<not> (fst (cursor_of fg n) = t \<and> q \<le> snd (cursor_of fg n))" using that by (simp add: log_mark_def split: if_splits)
    from gate_passes [of "\<lparr>tw_assistantId = i, tw_turnId = t\<rparr>", OF _ q this]
    obtain n1 where "applySeq fg \<lparr>tw_assistantId = i, tw_turnId = t\<rparr> (Some q) n = Some n1" "cursor_of fg n1 = (t, q)" by auto
    then show ?thesis using l q by (simp add: watch_later_def in_log_frame log_mark_def cursor_actions in_log_started)
  qed
next
  fix te n assume "log_seq i t te = None"
  then show "log_mark fg t (watch_later fg k i t n te) = log_mark fg t n"
    by (cases "in_log i t (snd te)") (simp_all add: watch_later_def log_seq_def in_log_frame applySeq_def log_mark_def cursor_actions in_log_started)
qed

text \<open>A frame of the watched turn, of any kind, whose number the window has passed.\<close>

definition passed_frame :: "jstr \<Rightarrow> jstr \<Rightarrow> (int \<times> ChatStreamEvent) list \<Rightarrow> ChatStreamEvent \<Rightarrow> bool" where
  "passed_frame i t fs e \<longleftrightarrow>
     (let (a, u) = envelope_ids e (v_data e)
      in rememberEnvelope a u \<lparr>tw_assistantId = i, tw_turnId = t\<rparr> = \<lparr>tw_assistantId = i, tw_turnId = t\<rparr>)
     \<and> (case v_seq e of None \<Rightarrow> False
         | Some q \<Rightarrow> list_ex (\<lambda>te. case v_seq (snd te) of None \<Rightarrow> False | Some p \<Rightarrow> q \<le> p) fs)"

lemma watch_all_later:
  "list_all (\<lambda>te. in_log i t (snd te)) fs \<Longrightarrow>
    watch_all fg k (\<lparr>tw_assistantId = i, tw_turnId = t\<rparr>, n) fs = (\<lparr>tw_assistantId = i, tw_turnId = t\<rparr>, foldl (watch_later fg k i t) n fs)"
proof (induction fs arbitrary: n)
  case Nil
  then show ?case by (simp add: watch_all_def)
next
  case (Cons te fs)
  have "watch_frame fg k (fst te) (\<lparr>tw_assistantId = i, tw_turnId = t\<rparr>, n) (snd te) = (\<lparr>tw_assistantId = i, tw_turnId = t\<rparr>, watch_later fg k i t n te)"
    using Cons.prems by (simp add: watch_later_def in_log_frame)
  with Cons show ?case by (simp add: watch_all_def split_beta)
qed

lemma passed_frame_still:
  assumes "passed_frame i t fs e" "list_all (\<lambda>te. in_log i t (snd te)) fs" "t \<noteq> []"
    and m: "n = foldl (watch_later fg k i t) n0 fs"
  shows "watch_frame fg k now (\<lparr>tw_assistantId = i, tw_turnId = t\<rparr>, n) e = (\<lparr>tw_assistantId = i, tw_turnId = t\<rparr>, n)"
proof -
  from assms(1) obtain q te p where q: "v_seq e = Some q" "te \<in> set fs" "v_seq (snd te) = Some p" "q \<le> p"
    by (auto simp: passed_frame_def list_ex_iff split: option.splits)
  with assms(2) have "log_seq i t te = Some p" "0 \<le> p" by (auto simp: log_seq_def list_all_iff in_log_def)
  with watched.mark_reaches [OF q(2) this(1), of fg k n0] m q(4) have "q \<le> log_mark fg t n" "0 \<le> log_mark fg t n" by simp_all
  then have "fst (cursor_of fg n) = t \<and> q \<le> snd (cursor_of fg n)" by (simp add: log_mark_def split: if_splits)
  then show ?thesis using assms(1,3) q(1) by (simp add: passed_frame_def watch_frame_def applySeq_def split_beta Let_def)
qed

text \<open>C19: 
  C31: when a connection is lost, the backend sends the frames of the running turn again. Frames of
  the turn whose numbers the window has already passed, in any order and any number of times, leave the
  chat exactly as it was: no text, tool call, request or end of turn is applied twice.
\<close>
theorem redelivered_frames_ignored:
  assumes "t \<noteq> []" "list_all (\<lambda>te. in_log i t (snd te)) fs" "list_all (\<lambda>te. passed_frame i t fs (snd te)) again"
  shows "watch_all fg k (\<lparr>tw_assistantId = i, tw_turnId = t\<rparr>, n) (fs @ again) =
    watch_all fg k (\<lparr>tw_assistantId = i, tw_turnId = t\<rparr>, n) fs"
proof -
  define m where "m = foldl (watch_later fg k i t) n fs"
  have "watch_all fg k (\<lparr>tw_assistantId = i, tw_turnId = t\<rparr>, m) again = (\<lparr>tw_assistantId = i, tw_turnId = t\<rparr>, m)"
    using assms(3)
  proof (induction again)
    case Nil
    then show ?case by (simp add: watch_all_def)
  next
    case (Cons te again)
    with passed_frame_still [OF _ assms(2,1) m_def, of "snd te" "fst te"] show ?case by (simp add: watch_all_def split_beta)
  qed
  then show ?thesis using watch_all_later [OF assms(2), of fg k n] by (simp add: watch_all_def m_def)
qed

definition seen_frame :: ChatStreamEvent where
  "seen_frame = (sample_frame 1 (Chunk (js ''Hi'')))\<lparr>v_assistantId := Some (js ''a1''), v_turnId := Some (js ''t1'')\<rparr>"

theorem redelivered_frames_ignored_witness:
  "watch_all True (js ''n1'') (\<lparr>tw_assistantId = js ''a1'', tw_turnId = js ''t1''\<rparr>, demo_chat) ([(5, seen_frame)] @ [(6, seen_frame), (7, seen_frame)]) =
   watch_all True (js ''n1'') (\<lparr>tw_assistantId = js ''a1'', tw_turnId = js ''t1''\<rparr>, demo_chat) [(5, seen_frame)]"
  by (rule redelivered_frames_ignored)
    (simp_all add: in_log_def own_frame_def passed_frame_def seen_frame_def sample_frame_def rememberEnvelope_def Let_def)

end
