(* ===== verification/Stream_Runner.thy ===== *)
theory Stream_Runner
  imports Chat_Observer
begin

text \<open>
  The runner of a turn that a window starts itself (\<^verbatim>\<open>frontend/src/state/chatStreamRunner.ts\<close>): the gate of frames, the handler of
  every frame, the walk over the text that picks titles and follow-ups out of it before it is complete, and the endings that
  come without a frame - an abort, and the saved result of a turn whose replay is gone. What the runner tells its owner is a list
  of effects; the reports to the credential and page-tool stores are left out. A window that only follows a turn is \<^verbatim>\<open>Chat_Observer\<close>.
\<close>

section \<open>State\<close>

record stream_runner =
  rn_assistantId :: jstr
  rn_turnId :: jstr
  rn_acceptedTurnId :: jstr
  rn_acceptedSeq :: int
  rn_bracketHold :: jstr
  rn_titleDispatched :: bool
  rn_completeDispatched :: bool
  rn_followUps :: "jstr option list" \<comment> \<open>an array with holes\<close>


datatype end_reason = EndDone | EndCancel | EndError

datatype runner_effect =
    RunnerCleanup
  | RunnerEnds end_reason
  | RunnerCompletes
  | DraftRejected

section \<open>Sentinels in the stream\<close>

definition RUNNER_PREFIXES :: "jstr list" where
  "RUNNER_PREFIXES = [js ''[TITLE:'', js ''[FOLLOW-UP'']"

definition couldStillBeSentinel :: "jstr \<Rightarrow> bool" where
  "couldStillBeSentinel buf \<longleftrightarrow> (let upper = to_upper buf
     in list_ex (\<lambda>p. if length upper \<le> length p then starts_with p upper else starts_with upper p) RUNNER_PREFIXES)"

definition MAX_BRACKET_HOLD :: nat where
  "MAX_BRACKET_HOLD = 4096"

definition SINGLE_INLINE_FOLLOW_UP_RE :: regex where
  "SINGLE_INLINE_FOLLOW_UP_RE = rseq [RBegin False, rlit_i ''[FOLLOW-UP'', rplus rws, RGroup 1 one_to_three, rstar rws,
     ropt (rseq [runit 47, rstar rws, runit 51]), rstar rws, runit 58, rstar rws, RGroup 2 (rplus (RSet (\<lambda>c. c \<noteq> 93))), runit 93, REnd False]"

definition SINGLE_INLINE_FOLLOW_UPS_RE :: regex where
  "SINGLE_INLINE_FOLLOW_UPS_RE = rseq [RBegin False, rlit_i ''[FOLLOW-UPS:'', rstar rws, RGroup 1 (rplus (RSet (\<lambda>c. c \<noteq> 93))), runit 93, REnd False]"

definition parseInlineFollowUpSentinel :: "jstr \<Rightarrow> (nat \<times> jstr) option" where
  "parseInlineFollowUpSentinel text = (case js_match SINGLE_INLINE_FOLLOW_UP_RE text of None \<Rightarrow> None
     | Some m \<Rightarrow> (case capture text m 1 of
         [d] \<Rightarrow> let followUp = js_trim (capture text m 2)
            in if d < 49 \<or> 51 < d \<or> followUp = [] then None else Some (d - 49, followUp)
       | _ \<Rightarrow> None))"

definition parseInlineFollowUpsSentinel :: "jstr \<Rightarrow> jstr list" where
  "parseInlineFollowUpsSentinel text = (case js_match SINGLE_INLINE_FOLLOW_UPS_RE text of None \<Rightarrow> []
     | Some m \<Rightarrow> take 3 (filter (\<lambda>s. s \<noteq> []) (map js_trim (split_on 124 (capture text m 1)))))"

definition set_slot :: "nat \<Rightarrow> jstr \<Rightarrow> jstr option list \<Rightarrow> jstr option list" where
  "set_slot i s slots = (slots @ replicate (Suc i - length slots) None)[i := Some s]"

definition slot_filled :: "jstr option list \<Rightarrow> nat \<Rightarrow> bool" where
  "slot_filled slots i \<longleftrightarrow> (case if i < length slots then slots ! i else None of None \<Rightarrow> False | Some s \<Rightarrow> js_trim s \<noteq> [])"

definition dispatchFollowUps :: "stream_runner \<Rightarrow> stream_runner \<times> node_action list" where
  "dispatchFollowUps r =
     (let followUps = take 3 (present (map (map_option js_trim) (rn_followUps r)));
          shown = (if followUps \<noteq> [] then [LabelNode (SetFollowUps followUps)] else []);
          completeSet = list_all (slot_filled (rn_followUps r)) [0, 1, 2]
      in if completeSet \<and> \<not> rn_completeDispatched r
         then (r\<lparr>rn_completeDispatched := True\<rparr>, shown @ [TurnNode (VisibleResponseComplete (rn_assistantId r))])
         else (r, shown))"

definition handleSentinelCompletion :: "stream_runner \<Rightarrow> jstr \<Rightarrow> stream_runner \<times> node_action list" where
  "handleSentinelCompletion r segment =
     (if starts_with (to_upper segment) (js ''[TITLE:'')
      then if rn_titleDispatched r then (r, [])
           else let title = js_trim (js_slice segment 7 (length segment - 1))
                in if title \<noteq> [] then (r\<lparr>rn_titleDispatched := True\<rparr>, [LabelNode (SetTitle title)]) else (r, [])
      else case parseInlineFollowUpSentinel segment of
        Some (index, followUp) \<Rightarrow> dispatchFollowUps (r\<lparr>rn_followUps := set_slot index followUp (rn_followUps r)\<rparr>)
      | None \<Rightarrow>
          let legacy = parseInlineFollowUpsSentinel segment
          in if legacy \<noteq> [] then dispatchFollowUps (r\<lparr>rn_followUps := map Some legacy\<rparr>) else (r, []))"

definition walk_char :: "stream_runner \<times> node_action list \<Rightarrow> jstr \<Rightarrow> stream_runner \<times> node_action list" where
  "walk_char s ch =
     (let r = fst s; hold = rn_bracketHold r @ ch
      in if rn_bracketHold r = [] \<and> ch \<noteq> [91] then s
         else if ch = [93] then
           (let (r', as) = handleSentinelCompletion (r\<lparr>rn_bracketHold := []\<rparr>) hold in (r', snd s @ as))
         else if \<not> couldStillBeSentinel hold \<or> MAX_BRACKET_HOLD < length hold then (r\<lparr>rn_bracketHold := []\<rparr>, snd s)
         else (r\<lparr>rn_bracketHold := hold\<rparr>, snd s))"

definition walk_chunk :: "stream_runner \<Rightarrow> jstr \<Rightarrow> stream_runner \<times> node_action list" where
  "walk_chunk r text = foldl walk_char (r, []) (code_points text)"

section \<open>Handlers\<close>



definition runner_failure :: "stream_runner \<Rightarrow> jstr \<Rightarrow> jstr option \<Rightarrow> bool option \<Rightarrow> int option \<Rightarrow> turn_failure" where
  "runner_failure r message code recoverable completedAt = \<lparr>tf_assistantId = rn_assistantId r, tf_message = message, tf_errorKind = code,
     tf_recoverable = recoverable, tf_completedAt = completedAt, tf_turnId = truthy_of (Some (rn_turnId r))\<rparr>"

definition runner_done :: "stream_runner \<Rightarrow> jstr option \<Rightarrow> bool option \<Rightarrow> int option \<Rightarrow> node_action list" where
  "runner_done r stopReason persisted completedAt =
     (if persisted = Some False
        then [TurnNode (ErrorA ((runner_failure r NOT_PERSISTED (Some (js ''turn_persistence_failed'')) None None)\<lparr>tf_turnId := Some (rn_turnId r)\<rparr>))]
      else if stopReason = Some (js ''error'')
        then [TurnNode (ErrorA ((runner_failure r AGENT_EXITED (Some (js ''turn_outcome_unknown'')) None None)\<lparr>tf_turnId := Some (rn_turnId r)\<rparr>))]
      else [TurnNode (DoneA (rn_assistantId r) completedAt (is_cancelled stopReason))])"

definition runner_done_effects :: "jstr option \<Rightarrow> bool option \<Rightarrow> runner_effect list" where
  "runner_done_effects stopReason persisted =
     (if persisted = Some False \<or> stopReason = Some (js ''error'') then [RunnerCleanup, RunnerEnds EndError]
      else [RunnerCleanup, RunnerEnds EndDone, RunnerCompletes])"


definition runner_error_effects :: "ComposerDraft option \<Rightarrow> jstr option \<Rightarrow> runner_effect list" where
  "runner_error_effects rejectedDraft code =
     (if code = Some (js ''turn_active'') \<and> rejectedDraft \<noteq> None then [DraftRejected] else []) @ [RunnerCleanup, RunnerEnds EndError]"




fun runner_effects :: "ComposerDraft option \<Rightarrow> ChatStreamPayload \<Rightarrow> runner_effect list" where
  "runner_effects draft (Done d) = runner_done_effects (do_stopReason d) (do_persisted d)"
| "runner_effects draft (Error d) = runner_error_effects draft (er_code d)"
| "runner_effects draft _ = []"




section \<open>Endings without a frame\<close>

definition runner_aborted :: "stream_runner \<Rightarrow> node_action list \<times> runner_effect list" where
  "runner_aborted r = ([TurnNode (DoneA (rn_assistantId r) None True)], [RunnerCleanup, RunnerEnds EndCancel])"

record SavedTurn =
  sv_turnId :: jstr
  sv_assistantId :: jstr
  sv_status :: jstr
  sv_stopReason :: "jstr option"
  sv_completedAt :: "int option"
  sv_lastSeq :: int
  sv_message :: "ChatMessage option" \<comment> \<open>the stored row, mapped\<close>

definition savedTurnResult :: "SavedTurn \<Rightarrow> (ChatMessage \<times> int \<times> jstr) option" where
  \<comment> \<open>the message, the time of its end, the reason\<close>
  "savedTurnResult s =
     (if \<not> (sv_status s = js ''cancelled'' \<or> sv_status s = js ''completed'' \<and> sv_stopReason s \<noteq> Some (js ''error'')) then None
      else case (sv_completedAt s, sv_message s) of
        (Some at, Some m) \<Rightarrow> if cm_role m \<noteq> AssistantRole \<or> cm_id m \<noteq> sv_assistantId s then None
          else Some (m, at, if sv_status s = js ''cancelled'' then js ''cancelled'' else default_to (sv_stopReason s) (js ''end_turn''))
      | _ \<Rightarrow> None)"

definition runner_saved_turn :: "stream_runner \<Rightarrow> SavedTurn \<Rightarrow> (stream_runner \<times> node_action list \<times> runner_effect list) option" where
  \<comment> \<open>\<open>None\<close>: \<open>onSavedTurn\<close> answers false\<close>
  "runner_saved_turn r saved = (case savedTurnResult saved of None \<Rightarrow> None
     | Some (assistant, completedAt, stopReason) \<Rightarrow>
         let r' = r\<lparr>rn_assistantId := sv_assistantId saved, rn_turnId := sv_turnId saved\<rparr>
         in Some (r', (if sv_assistantId saved \<noteq> rn_assistantId r
                then [TurnNode (RealignAssistantId (rn_assistantId r) (sv_assistantId saved)), SessionNode SpawnPromptStarted] else [])
              @ [TurnNode (RecoverOriginalResult (sv_turnId saved) (sv_assistantId saved) assistant (sv_lastSeq saved) False)]
              @ runner_done r' (Some stopReason) (Some True) (Some completedAt),
            runner_done_effects (Some stopReason) (Some True)))"

section \<open>Lemmas: the walk over the text\<close>

lemma couldStillBeSentinel_prefix:
  assumes "couldStillBeSentinel (a @ b)"
  shows "couldStillBeSentinel a"
proof -
  let ?A = "to_upper a" and ?B = "to_upper b"
  from assms obtain p where p: "p \<in> set RUNNER_PREFIXES"
    "if length (?A @ ?B) \<le> length p then starts_with p (?A @ ?B) else starts_with (?A @ ?B) p"
    by (auto simp: couldStillBeSentinel_def list_ex_iff to_upper_append Let_def)
  have "if length ?A \<le> length p then starts_with p ?A else starts_with ?A p"
  proof (cases "length (?A @ ?B) \<le> length p")
    case True
    with p(2) have "take (length ?A + length ?B) p = ?A @ ?B" by (simp add: starts_with_def)
    then have "take (length ?A) (take (length ?A + length ?B) p) = ?A" by simp
    then show ?thesis using True by (simp add: starts_with_def)
  next
    case False
    with p(2) have t: "take (length p) (?A @ ?B) = p" by (simp add: starts_with_def)
    show ?thesis
    proof (cases "length ?A \<le> length p")
      case True
      have "take (length ?A) p = take (length ?A) (take (length p) (?A @ ?B))" by (simp only: t)
      also have "\<dots> = ?A" using True by (simp add: min_def)
      finally show ?thesis using True by (simp add: starts_with_def)
    qed (use t in \<open>simp add: starts_with_def\<close>)
  qed
  with p(1) show ?thesis unfolding couldStillBeSentinel_def list_ex_iff Let_def by blast
qed

text \<open>The two units of a surrogate pair may be walked one by one.\<close>

lemma walk_pair: "91 \<noteq> h \<Longrightarrow> 93 \<noteq> h \<Longrightarrow> 91 \<noteq> l \<Longrightarrow> 93 \<noteq> l \<Longrightarrow> walk_char s [h, l] = walk_char (walk_char s [h]) [l]"
  using couldStillBeSentinel_prefix [of "rn_bracketHold (fst s) @ [h]" "[l]"]
  by (cases s) (auto simp: walk_char_def Let_def)

lemma walk_units: "foldl walk_char s (code_points u) = foldl (\<lambda>s c. walk_char s [c]) s u"
  by (induction u arbitrary: s rule: code_points.induct) (auto simp: walk_pair)

lemma walk_shift: "walk_char (r, as @ bs) ch = (fst (walk_char (r, bs) ch), as @ snd (walk_char (r, bs) ch))"
  by (auto simp: walk_char_def Let_def split: prod.split)

lemma walk_from: "foldl (\<lambda>s c. walk_char s [c]) (r, as) u =
  (fst (foldl (\<lambda>s c. walk_char s [c]) (r, []) u), as @ snd (foldl (\<lambda>s c. walk_char s [c]) (r, []) u))"
proof (induction u rule: rev_induct)
  case (snoc c u)
  then show ?case using walk_shift [of "fst (foldl (\<lambda>s c. walk_char s [c]) (r, []) u)" as "snd (foldl (\<lambda>s c. walk_char s [c]) (r, []) u)" "[c]"]
    by simp
qed simp

definition walk_texts :: "stream_runner \<Rightarrow> jstr list \<Rightarrow> stream_runner \<times> node_action list" where
  \<comment> \<open>what the walk makes of the texts of several frames\<close>
  "walk_texts r texts = foldl (\<lambda>(r, as) text. let (r', bs) = walk_chunk r text in (r', as @ bs)) (r, []) texts"

definition streamed_titles :: "node_action list \<Rightarrow> node_action list" where
  "streamed_titles as = filter (\<lambda>a. case a of LabelNode (SetTitle _) \<Rightarrow> True | _ \<Rightarrow> False) as"

definition identity_of :: "stream_runner \<Rightarrow> jstr \<times> jstr \<times> jstr \<times> int" where
  "identity_of r = (rn_assistantId r, rn_turnId r, rn_acceptedTurnId r, rn_acceptedSeq r)"

lemma follow_ups_walk:
  assumes "dispatchFollowUps r = (r', as)"
  shows "identity_of r' = identity_of r" "rn_completeDispatched r \<Longrightarrow> rn_completeDispatched r'"
    "\<not> rn_completeDispatched r' \<Longrightarrow> list_all calm as" "rn_titleDispatched r' = rn_titleDispatched r" "streamed_titles as = []"
  using assms by (auto simp: dispatchFollowUps_def Let_def identity_of_def streamed_titles_def split: if_splits)

lemma sentinel_walk:
  assumes "handleSentinelCompletion r segment = (r', as)"
  shows "identity_of r' = identity_of r" "rn_completeDispatched r \<Longrightarrow> rn_completeDispatched r'"
    "\<not> rn_completeDispatched r' \<Longrightarrow> list_all calm as" "rn_titleDispatched r \<Longrightarrow> rn_titleDispatched r'"
    "length (streamed_titles as) + (if rn_titleDispatched r then 1 else 0) = (if rn_titleDispatched r' then 1 else 0)"
proof -
  have *: "identity_of r' = identity_of r \<and> (rn_completeDispatched r \<longrightarrow> rn_completeDispatched r') \<and> (\<not> rn_completeDispatched r' \<longrightarrow> list_all calm as)
    \<and> (rn_titleDispatched r \<longrightarrow> rn_titleDispatched r')
    \<and> length (streamed_titles as) + (if rn_titleDispatched r then 1 else 0) = (if rn_titleDispatched r' then 1 else (0 :: nat))"
  proof (cases "starts_with (to_upper segment) (js ''[TITLE:'')")
    case True
    with assms show ?thesis
      by (auto simp: handleSentinelCompletion_def Let_def identity_of_def streamed_titles_def split: if_splits)
  next
    case False
    then obtain slots where "dispatchFollowUps (r\<lparr>rn_followUps := slots\<rparr>) = (r', as) \<or> r' = r \<and> as = []"
      using assms by (auto simp: handleSentinelCompletion_def Let_def split: option.splits if_splits)
    then show ?thesis
    proof
      assume d: "dispatchFollowUps (r\<lparr>rn_followUps := slots\<rparr>) = (r', as)"
      from follow_ups_walk [OF d] show ?thesis by (auto simp: identity_of_def)
    qed (simp add: streamed_titles_def)
  qed
  then show "identity_of r' = identity_of r" "rn_completeDispatched r \<Longrightarrow> rn_completeDispatched r'"
    "\<not> rn_completeDispatched r' \<Longrightarrow> list_all calm as" "rn_titleDispatched r \<Longrightarrow> rn_titleDispatched r'"
    "length (streamed_titles as) + (if rn_titleDispatched r then 1 else 0) = (if rn_titleDispatched r' then 1 else 0)"
    by simp_all
qed

lemma walk_char_cases:
  obtains hold where "walk_char (r, as) ch = (r\<lparr>rn_bracketHold := hold\<rparr>, as)"
  | segment r' bs where "handleSentinelCompletion (r\<lparr>rn_bracketHold := []\<rparr>) segment = (r', bs)" "walk_char (r, as) ch = (r', as @ bs)"
proof -
  have same: "(r, as) = (r\<lparr>rn_bracketHold := rn_bracketHold r\<rparr>, as)" by simp
  show thesis
  proof (cases "rn_bracketHold r = [] \<and> ch \<noteq> [91]")
    case True
    then show thesis using that(1) [of "rn_bracketHold r"] by (simp add: walk_char_def)
  next
    case False
    show thesis
    proof (cases "ch = [93]")
      case True
      then show thesis using False that(2) [of "rn_bracketHold r @ ch"]
        by (cases "handleSentinelCompletion (r\<lparr>rn_bracketHold := []\<rparr>) (rn_bracketHold r @ ch)") (auto simp: walk_char_def Let_def)
    next
      case c: False
      have "walk_char (r, as) ch = (r\<lparr>rn_bracketHold := (if \<not> couldStillBeSentinel (rn_bracketHold r @ ch)
          \<or> MAX_BRACKET_HOLD < length (rn_bracketHold r @ ch) then [] else rn_bracketHold r @ ch)\<rparr>, as)"
        using False c by (auto simp: walk_char_def Let_def)
      then show thesis by (rule that(1))
    qed
  qed
qed

definition walked :: "stream_runner \<Rightarrow> stream_runner \<times> node_action list \<Rightarrow> bool" where
  "walked r s \<longleftrightarrow> identity_of (fst s) = identity_of r \<and> (rn_completeDispatched r \<longrightarrow> rn_completeDispatched (fst s))
     \<and> (\<not> rn_completeDispatched (fst s) \<longrightarrow> list_all calm (snd s))
     \<and> length (streamed_titles (snd s)) + (if rn_titleDispatched r then 1 else 0) = (if rn_titleDispatched (fst s) then 1 else (0 :: nat))"

lemma walked_char:
  assumes "walked r s"
  shows "walked r (walk_char s ch)"
proof -
  obtain q as where s: "s = (q, as)" by (cases s)
  show ?thesis
  proof (rule walk_char_cases [of q as ch])
    fix hold
    assume "walk_char (q, as) ch = (q\<lparr>rn_bracketHold := hold\<rparr>, as)"
    with assms show ?thesis by (simp add: s walked_def identity_of_def)
  next
    fix segment r' bs
    assume h: "handleSentinelCompletion (q\<lparr>rn_bracketHold := []\<rparr>) segment = (r', bs)" "walk_char (q, as) ch = (r', as @ bs)"
    have i: "identity_of (q\<lparr>rn_bracketHold := []\<rparr>) = identity_of q" by (simp add: identity_of_def)
    have t: "length (streamed_titles (as @ bs)) = length (streamed_titles as) + length (streamed_titles bs)" by (simp add: streamed_titles_def)
    show ?thesis using sentinel_walk [OF h(1)] assms by (auto simp: s h(2) walked_def i t)
  qed
qed

lemma walked_chunk: "walked r (walk_chunk r text)"
proof -
  have "walked r (foldl walk_char s cs)" if "walked r s" for s cs
    using that by (induction cs arbitrary: s) (simp_all add: walked_char)
  from this [of "(r, [])"] show ?thesis by (simp add: walk_chunk_def walked_def streamed_titles_def)
qed

lemma walk_texts_concat: "walk_texts r texts = walk_chunk r (concat texts)"
proof (induction texts rule: rev_induct)
  case Nil
  then show ?case by (simp add: walk_texts_def walk_chunk_def)
next
  case (snoc t texts)
  have "walk_texts r (texts @ [t]) = (let (q, as) = walk_texts r texts; (r', bs) = walk_chunk q t in (r', as @ bs))"
    by (simp add: walk_texts_def split_beta)
  also have "\<dots> = walk_chunk r (concat texts @ t)"
    unfolding snoc.IH walk_chunk_def walk_units foldl_append
    using walk_from [of "fst (foldl (\<lambda>s c. walk_char s [c]) (r, []) (concat texts))" "snd (foldl (\<lambda>s c. walk_char s [c]) (r, []) (concat texts))" t]
    by (simp add: split_beta Let_def)
  finally show ?case by simp
qed

section \<open>Theorems: titles and follow-ups in the stream\<close>

text \<open>What the walk dispatches - titles, follow-ups, the early end of the visible answer - depends on the text alone, not on how it is
  cut into frames: not when a marker is cut, and not when a surrogate pair is. And it sets one title at most.\<close>
theorem sentinels_however_cut:
  "walk_texts r texts = walk_chunk r (concat texts) \<and> length (streamed_titles (snd (walk_texts r texts))) \<le> 1"
  using walked_chunk [of r "concat texts"] by (simp add: walk_texts_concat walked_def split: if_splits)

section \<open>Lemmas: the runner does what a window that watches does\<close>













section \<open>Theorems: a window that starts a turn\<close>



end
