(* ===== verification/Mention_Tokens.thy ===== *)
theory Mention_Tokens
  imports Chat_State Uri_Component Js_Regex
begin

text \<open>
  Mentions of nodes in what a user writes: the draft keeps ranges of its text (\<^verbatim>\<open>frontend/src/components/mentions.ts\<close>), the text
  sent to the agent has tokens with the encoded identifiers (\<^verbatim>\<open>frontend/src/lib/nodeMentionTokens.ts\<close>). The pattern of the tokens is
  the one of the source; the lemmas say where it matches, the theorems what is read back from an expanded draft.
  \<open>reanchorMentions\<close>, which nothing calls, is left out.
\<close>

section \<open>Tokens\<close>

record NodeMentionToken =
  tk_nodeId :: jstr
  tk_start :: nat
  tk_end :: nat

definition is_word_unit :: "nat \<Rightarrow> bool" where
  "is_word_unit c \<longleftrightarrow> 48 \<le> c \<and> c \<le> 57 \<or> 65 \<le> c \<and> c \<le> 90 \<or> 97 \<le> c \<and> c \<le> 122 \<or> c = 95"

definition is_hex_unit :: "nat \<Rightarrow> bool" where
  "is_hex_unit c \<longleftrightarrow> 48 \<le> c \<and> c \<le> 57 \<or> 65 \<le> c \<and> c \<le> 70 \<or> 97 \<le> c \<and> c \<le> 102"

definition mention_escape :: "nat \<Rightarrow> jstr" where
  \<comment> \<open>the replacement of the units that \<open>encodeURIComponent\<close> leaves as they are\<close>
  "mention_escape c = (if c \<in> set (js ''.!~*'' @ [39, 40, 41]) then escape_byte c else [c])"

definition encodeNodeMentionToken :: "jstr \<Rightarrow> jstr option" where
  \<comment> \<open>\<open>None\<close>: the \<open>URIError\<close> on a lone surrogate\<close>
  "encodeNodeMentionToken nodeId = map_option (\<lambda>p. js ''@node:'' @ concat (map mention_escape p)) (encodeURIComponent nodeId)"

definition ID_COMPONENT :: regex where
  "ID_COMPONENT = rplus (RAlt (RSet (\<lambda>c. is_word_unit c \<or> c = 45)) (rseq [runit 37, RSet is_hex_unit, RSet is_hex_unit]))"

definition TOKEN_PATTERN :: regex where
  "TOKEN_PATTERN = rseq [rlit ''@node:'',
     RGroup 1 (RAlt (rseq [rlit ''remote:'', ID_COMPONENT, runit 58, ID_COMPONENT, RNot (runit 58)])
                    (rseq [RNot (rlit ''remote:''), ID_COMPONENT])),
     RNot (RSet (\<lambda>c. is_word_unit c \<or> c = 37))]"

definition token_of_match :: "jstr \<Rightarrow> rresult \<Rightarrow> NodeMentionToken list" where
  "token_of_match text m =
     (let body = capture text m 1
      in case if starts_with body (js ''remote:'') then Some body else decodeURIComponent body of
           None \<Rightarrow> []
         | Some nodeId \<Rightarrow> [\<lparr>tk_nodeId = nodeId, tk_start = m_start m, tk_end = m_end m\<rparr>])"

definition readNodeMentionTokens :: "jstr \<Rightarrow> NodeMentionToken list" where
  "readNodeMentionTokens text = concat (map (token_of_match text) (match_all TOKEN_PATTERN text))"

definition is_blank :: "nat \<Rightarrow> bool" where
  "is_blank c \<longleftrightarrow> c = 32 \<or> c = 9"

fun replace_tokens :: "(jstr \<Rightarrow> jstr \<Rightarrow> jstr) \<Rightarrow> jstr \<Rightarrow> nat \<Rightarrow> NodeMentionToken list \<Rightarrow> jstr" where
  "replace_tokens f text cursor [] = drop cursor text"
| "replace_tokens f text cursor (t # ts) =
     (let e = tk_end t + length (takeWhile is_blank (drop (tk_end t) text))
      in js_slice text cursor (tk_start t) @ f (tk_nodeId t) (js_slice text (tk_end t) e) @ replace_tokens f text e ts)"

definition replaceNodeMentionTokens :: "jstr \<Rightarrow> (jstr \<Rightarrow> jstr \<Rightarrow> jstr) \<Rightarrow> jstr" where
  "replaceNodeMentionTokens text f = replace_tokens f text 0 (readNodeMentionTokens text)"

section \<open>Mentions in a draft\<close>

fun expand_from :: "jstr \<Rightarrow> nat \<Rightarrow> ComposerMention list \<Rightarrow> jstr option" where
  "expand_from value cursor [] = Some (drop cursor value)"
| "expand_from value cursor (m # ms) =
     (case if mn_kind m = ContextMention then Some (64 # mn_label m) else encodeNodeMentionToken (mn_refId m) of
        None \<Rightarrow> None
      | Some w \<Rightarrow> map_option (\<lambda>rest. js_slice value cursor (mn_start m) @ w @ rest) (expand_from value (mn_end m) ms))"

definition expandMentions :: "jstr \<Rightarrow> ComposerMention list \<Rightarrow> jstr option" where
  "expandMentions value mentions = (if mentions = [] then Some value else expand_from value 0 mentions)"

section \<open>Lemmas: payloads\<close>

definition id_unit :: "nat \<Rightarrow> bool" where
  "id_unit c \<longleftrightarrow> is_word_unit c \<or> c = 45"

fun id_payload :: "jstr \<Rightarrow> bool" where
  "id_payload [] = True"
| "id_payload (c # cs) = (if id_unit c then id_payload cs
     else c = 37 \<and> (case cs of a # b # ds \<Rightarrow> is_hex_unit a \<and> is_hex_unit b \<and> id_payload ds | _ \<Rightarrow> False))"

lemma payload_append: "id_payload p \<Longrightarrow> id_payload q \<Longrightarrow> id_payload (p @ q)"
  by (induction p rule: id_payload.induct) (auto split: if_splits list.splits)

lemma hex_digit_hex: "d < 16 \<Longrightarrow> is_hex_unit (hex_digit d)"
  by (auto simp: is_hex_unit_def hex_digit_def)

lemma id_unit_37: "\<not> id_unit 37"
  by (simp add: id_unit_def is_word_unit_def)

lemma payload_byte: "b < 256 \<Longrightarrow> id_payload (escape_byte b)"
  by (simp add: escape_byte_def id_unit_37 hex_digit_hex)

lemma payload_bytes: "list_all (\<lambda>b. b < 256) bs \<Longrightarrow> id_payload (concat (map escape_byte bs))"
  by (induction bs) (simp_all add: payload_append payload_byte)

lemma mention_escape_hex: "d < 16 \<Longrightarrow> mention_escape (hex_digit d) = [hex_digit d]" "mention_escape 37 = [37]"
  by (auto simp: mention_escape_def hex_digit_def js_def)

lemma mention_bytes: "list_all (\<lambda>b. b < 256) bs \<Longrightarrow> concat (map mention_escape (concat (map escape_byte bs))) = concat (map escape_byte bs)"
  by (induction bs) (simp_all add: escape_byte_def mention_escape_hex less_mult_imp_div_less)

lemma mention_escaped: "n \<le> 1114111 \<Longrightarrow> concat (map mention_escape (escape n)) = escape n"
  by (simp add: escape_def mention_bytes utf8_bytes)

lemma payload_escaped: "n \<le> 1114111 \<Longrightarrow> id_payload (escape n)"
  by (simp add: escape_def payload_bytes utf8_bytes)

lemma escape_ascii: "c < 128 \<Longrightarrow> escape c = escape_byte c"
  by (simp add: escape_def utf8_def)

lemma mention_unescaped:
  assumes "unescaped c"
  shows "id_payload (mention_escape c)" "decodeURIComponent (mention_escape c @ s) = prepend [c] (decodeURIComponent s)"
proof -
  have c: "c < 128" "c \<noteq> 37" using assms by (auto simp: unescaped_def js_def)
  show "id_payload (mention_escape c)"
    using assms c by (auto simp: mention_escape_def payload_byte id_unit_def is_word_unit_def unescaped_def js_def)
  show "decodeURIComponent (mention_escape c @ s) = prepend [c] (decodeURIComponent s)"
    using c decode_escape [of c s] by (simp add: mention_escape_def escape_ascii [symmetric] decode_plain utf16_def)
qed

text \<open>The payload of a token is made of the units of the pattern, and reading it back gives the identifier.\<close>

lemma mention_payload:
  "units s \<Longrightarrow> encodeURIComponent s = Some e \<Longrightarrow>
    id_payload (concat (map mention_escape e)) \<and> decodeURIComponent (concat (map mention_escape e)) = Some s"
proof (induction s arbitrary: e rule: encodeURIComponent.induct)
  case (2 c cs)
  consider "unescaped c" | "\<not> unescaped c" "\<not> low_surrogate c" "\<not> high_surrogate c"
    | d ds where "\<not> unescaped c" "\<not> low_surrogate c" "high_surrogate c" "cs = d # ds" "low_surrogate d"
    using "2.prems"(2) by (auto split: if_splits list.splits)
  then show ?case
  proof cases
    case 1
    then obtain u where u: "encodeURIComponent cs = Some u" "e = c # u" using "2.prems"(2) by (auto simp: prepend_Some)
    with "2.IH"(1) [OF 1 _ u(1)] "2.prems"(1) mention_unescaped [OF 1] show ?thesis by (simp add: payload_append)
  next
    case 2
    then obtain u where u: "encodeURIComponent cs = Some u" "e = escape c @ u" using "2.prems"(2) by (auto simp: prepend_Some)
    have "c \<le> 1114111" "\<not> (55296 \<le> c \<and> c \<le> 57343)" "utf16 c = [c]"
      using "2.prems"(1) 2 by (auto simp: low_surrogate_def high_surrogate_def utf16_def)
    with "2.IH"(2) [OF 2(1,2) _ _ u(1)] 2(3) "2.prems"(1) u(2) show ?thesis
      by (simp add: decode_escape payload_append mention_escaped payload_escaped)
  next
    case 3
    then obtain u where u: "encodeURIComponent ds = Some u" "e = escape (pair_value c d) @ u"
      using "2.prems"(2) by (auto simp: prepend_Some)
    note b = pair_value_bounds [OF 3(3,5)]
    have "id_payload (concat (map mention_escape u)) \<and> decodeURIComponent (concat (map mention_escape u)) = Some ds"
      using "2.IH"(3) [OF 3(1,2) _ 3(4,5) _ u(1)] 3 "2.prems"(1) by simp
    with b u(2) 3(4) show ?thesis by (simp add: decode_escape payload_append mention_escaped payload_escaped)
  qed
qed simp

section \<open>Lemmas: where a token matches\<close>

definition token_end :: "jstr \<Rightarrow> bool" where
  \<comment> \<open>text that cannot be taken for more of a token\<close>
  "token_end post \<longleftrightarrow> (case post of [] \<Rightarrow> True | c # _ \<Rightarrow> \<not> id_unit c \<and> c \<noteq> 37)"

definition component_unit :: regex where
  "component_unit = RAlt (RSet (\<lambda>c. is_word_unit c \<or> c = 45)) (rseq [runit 37, RSet is_hex_unit, RSet is_hex_unit])"

lemma match_set:
  "rmatch (pre @ c # cs) (RSet P) (length pre, k) = (if P c then [(Suc (length pre), k)] else [])"
  "rmatch pre (RSet P) (length pre, k) = []"
  by (simp_all add: nth_append)

lemma match_lit:
  "rmatch (pre @ s) (rlit w) (length pre, k) =
     (if starts_with s (js w) then [(length pre + length (js w), k)] else [])"
proof -
  have "rmatch (pre @ s) (rseq (map runit w)) (length pre, k) = (if starts_with s w then [(length pre + length w, k)] else [])" for w pre s
  proof (induction w arbitrary: pre s)
    case Nil
    then show ?case by (simp add: rseq_def starts_with_def)
  next
    case (Cons u w)
    show ?case
    proof (cases s)
      case Nil
      then show ?thesis by (simp add: rseq_def runit_def starts_with_def)
    next
      case (Cons c cs)
      show ?thesis using Cons.IH [of "pre @ [c]" cs] Cons
        by (auto simp: rseq_def runit_def nth_append starts_with_def)
    qed
  qed
  then show ?thesis by (simp add: rlit_def)
qed

lemma unit_step:
  "id_unit c \<Longrightarrow> rmatch (pre @ c # cs) component_unit (length pre, k) = [(Suc (length pre), k)]"
  "is_hex_unit a \<Longrightarrow> is_hex_unit b \<Longrightarrow>
    rmatch (pre @ 37 # a # b # cs) component_unit (length pre, k) = [(Suc (Suc (Suc (length pre))), k)]"
  using id_unit_37 by (auto simp: component_unit_def id_unit_def nth_append rseq_def runit_def)

lemma unit_stop: "token_end post \<Longrightarrow> rmatch (pre @ post) component_unit (length pre, k) = []"
  by (cases post) (auto simp: token_end_def component_unit_def id_unit_def nth_append rseq_def runit_def)

lemma rep_component:
  assumes "token_end post"
  shows "id_payload p \<Longrightarrow> s = pre @ p @ post \<Longrightarrow>
    \<exists>t. rep (length s) (rmatch s component_unit) 0 None True (length pre, k) = (length pre + length p, k) # t"
proof (induction p arbitrary: pre rule: id_payload.induct)
  case 1
  with unit_stop [OF assms, of pre k] show ?case by (simp add: rep.simps [of _ _ 0 None])
next
  case (2 c cs)
  show ?case
  proof (cases "id_unit c")
    case True
    with "2.IH"(1) [of "pre @ [c]"] "2.prems" obtain t where
      "rep (length s) (rmatch s component_unit) 0 None True (Suc (length pre), k) = (length pre + length (c # cs), k) # t" by auto
    with True "2.prems"(2) unit_step(1) [of c pre "cs @ post" k] show ?thesis by (simp add: rep.simps [of _ _ 0 None])
  next
    case False
    with "2.prems"(1) obtain a b ds where c: "c = 37" "cs = a # b # ds" "is_hex_unit a" "is_hex_unit b" "id_payload ds"
      by (auto split: list.splits)
    with False "2.IH"(2) [OF False c(2) refl, of "pre @ [c, a, b]"] "2.prems"(2) obtain t where
      "rep (length s) (rmatch s component_unit) 0 None True (Suc (Suc (Suc (length pre))), k) = (length pre + length (c # cs), k) # t" by auto
    with c "2.prems"(2) unit_step(2) [of a b pre "ds @ post" k] show ?thesis by (simp add: rep.simps [of _ _ 0 None])
  qed
qed

lemma match_component:
  assumes "token_end post" "id_payload p" "p \<noteq> []" "s = pre @ p @ post"
  shows "\<exists>t. rmatch s ID_COMPONENT (length pre, k) = (length pre + length p, k) # t"
proof (cases p)
  case (Cons c cs)
  show ?thesis
  proof (cases "id_unit c")
    case True
    with rep_component [OF assms(1), of cs s "pre @ [c]" k] assms Cons unit_step(1) [of c pre "cs @ post" k]
    show ?thesis by (auto simp: ID_COMPONENT_def component_unit_def [symmetric] rep.simps [of _ _ "Suc 0" None])
  next
    case False
    with assms(2) Cons obtain a b ds where c: "c = 37" "cs = a # b # ds" "is_hex_unit a" "is_hex_unit b" "id_payload ds"
      by (auto split: list.splits)
    with rep_component [OF assms(1), of ds s "pre @ [c, a, b]" k] assms Cons unit_step(2) [of a b pre "ds @ post" k]
    show ?thesis by (auto simp: ID_COMPONENT_def component_unit_def [symmetric] rep.simps [of _ _ "Suc 0" None])
  qed
qed (use assms in simp)

lemma payload_units: "id_payload p \<Longrightarrow> 58 \<notin> set p"
proof (induction p rule: id_payload.induct)
  case (2 c cs)
  then show ?case
    by (cases "id_unit c") (auto simp: id_unit_def is_word_unit_def is_hex_unit_def split: list.splits)
qed simp

lemma not_remote:
  assumes "id_payload p" "token_end post" "p \<noteq> js ''remote'' \<or> \<not> starts_with post [58]"
  shows "\<not> starts_with (p @ post) (js ''remote:'')"
proof
  assume "starts_with (p @ post) (js ''remote:'')"
  then obtain r where r: "p @ post = js ''remote'' @ 58 # r" by (auto simp: starts_with_iff js_def)
  then consider d where "js ''remote'' = p @ d" "d @ 58 # r = post" | d where "p = js ''remote'' @ d" "d @ post = 58 # r"
    by (auto simp: append_eq_append_conv2)
  then show False
  proof cases
    case 1
    show False
    proof (cases d)
      case Nil
      with 1(1) 1(2) [symmetric] assms(3) show False by (simp add: starts_with_def)
    next
      case (Cons c e)
      then have "c \<in> set (js ''remote'')" using 1 by simp
      then have "id_unit c" by (auto simp: js_def id_unit_def is_word_unit_def)
      with Cons 1(2) [symmetric] assms(2) show False by (simp add: token_end_def)
    qed
  next
    case 2
    show False
    proof (cases d)
      case Nil
      with 2 assms(3) show False by (simp add: starts_with_def)
    next
      case (Cons c e)
      with 2 payload_units [OF assms(1)] show False by simp
    qed
  qed
qed

lemma length_node: "length (js ''@node:'') = 6"
  by (simp add: js_def)

lemma match_token:
  assumes s: "s = pre @ js ''@node:'' @ p @ post"
    and p: "id_payload p" "p \<noteq> []" "token_end post" "p \<noteq> js ''remote'' \<or> \<not> starts_with post [58]"
  shows "\<exists>t. rmatch s TOKEN_PATTERN (length pre, []) =
    (length pre + 6 + length p, [(1, length pre + 6, length pre + 6 + length p)]) # t"
proof -
  let ?a = "length pre + 6"
  have pre': "length (pre @ js ''@node:'') = ?a" by (simp add: length_node)
  have lit: "rmatch s (rlit ''@node:'') (length pre, []) = [(?a, [])]"
    using match_lit [of pre "js ''@node:'' @ p @ post" "''@node:''" "[]"] by (simp add: s length_node)
  have rem: "rmatch s (rlit ''remote:'') (?a, []) = []"
    using match_lit [of "pre @ js ''@node:''" "p @ post" "''remote:''" "[]"] not_remote [OF p(1,3,4)] pre' by (simp add: s)
  from match_component [OF p(3,1,2), of s "pre @ js ''@node:''" "[]"] s pre'
  obtain t where comp: "rmatch s ID_COMPONENT (?a, []) = (?a + length p, []) # t" by auto
  have fin: "rmatch s (RNot (RSet (\<lambda>c. is_word_unit c \<or> c = 37))) (?a + length p, k) = [(?a + length p, k)]" for k
  proof (cases post)
    case Nil
    then show ?thesis by (simp add: s length_node)
  next
    case (Cons c cs)
    have "\<not> (is_word_unit c \<or> c = 37)" using p(3) Cons by (simp add: token_end_def id_unit_def)
    moreover have "s ! (?a + length p) = c" "?a + length p < length s" using Cons by (simp_all add: s nth_append length_node)
    ultimately show ?thesis by simp
  qed
  show ?thesis using lit rem comp fin by (simp add: TOKEN_PATTERN_def rseq_def)
qed

lemma no_token_at:
  assumes "j \<le> length s" "\<not> starts_with (drop j s) (js ''@node:'')"
  shows "rmatch s TOKEN_PATTERN (j, []) = []"
proof -
  have "rmatch s (rlit ''@node:'') (j, []) = []"
    using match_lit [of "take j s" "drop j s" "''@node:''" "[]"] assms by simp
  then show ?thesis by (simp add: TOKEN_PATTERN_def rseq_def)
qed

lemma skip_to:
  "i \<le> k \<Longrightarrow> k \<le> length s \<Longrightarrow> (\<And>j. i \<le> j \<Longrightarrow> j < k \<Longrightarrow> \<not> starts_with (drop j s) (js ''@node:'')) \<Longrightarrow>
    exec_from TOKEN_PATTERN s i = exec_from TOKEN_PATTERN s k"
proof (induction "k - i" arbitrary: i)
  case (Suc d)
  then have "rmatch s TOKEN_PATTERN (i, []) = []" by (intro no_token_at) simp_all
  then have "exec_from TOKEN_PATTERN s i = exec_from TOKEN_PATTERN s (Suc i)"
    using Suc.prems Suc.hyps(2) by (simp add: exec_from.simps [of _ s i])
  with Suc.hyps(1) [of "Suc i"] Suc.hyps(2) Suc.prems show ?case by simp
qed simp

definition clean :: "jstr \<Rightarrow> bool" where
  \<comment> \<open>text in which no token starts\<close>
  "clean p \<longleftrightarrow> list_all (\<lambda>j. \<not> starts_with (drop j p) (js ''@node:'')) [0..<length p]"

lemma clean_before_token:
  assumes "clean p" "j < length p"
  shows "\<not> starts_with (drop j (p @ 64 # rest)) (js ''@node:'')"
proof
  assume "starts_with (drop j (p @ 64 # rest)) (js ''@node:'')"
  then have st: "take 6 (drop j p @ 64 # rest) = js ''@node:''" using assms(2) by (simp add: starts_with_def length_node)
  show False
  proof (cases "6 \<le> length (drop j p)")
    case True
    with st have "starts_with (drop j p) (js ''@node:'')" by (simp add: starts_with_def length_node)
    with assms show False by (auto simp: clean_def list_all_iff)
  next
    case False
    let ?i = "length (drop j p)"
    have "js ''@node:'' ! ?i = take 6 (drop j p @ 64 # rest) ! ?i" using st by simp
    also have "\<dots> = 64" using False by (simp add: nth_append)
    finally have "js ''@node:'' ! ?i = 64" .
    moreover have "?i \<in> {1, 2, 3, 4, 5}" using False assms(2) by auto
    ultimately show False by (auto simp: js_def)
  qed
qed

lemma skip_plain:
  "clean p \<Longrightarrow> exec_from TOKEN_PATTERN (pre @ p @ 64 # rest) (length pre) = exec_from TOKEN_PATTERN (pre @ p @ 64 # rest) (length pre + length p)"
proof (rule skip_to)
  fix j assume "clean p" "length pre \<le> j" "j < length pre + length p"
  with clean_before_token [of p "j - length pre" rest] show "\<not> starts_with (drop j (pre @ p @ 64 # rest)) (js ''@node:'')" by simp
qed simp_all

lemma skip_tail: "clean p \<Longrightarrow> exec_from TOKEN_PATTERN (pre @ p) (length pre) = None"
proof -
  assume c: "clean p"
  have "exec_from TOKEN_PATTERN (pre @ p) (length pre) = exec_from TOKEN_PATTERN (pre @ p) (length (pre @ p))"
    by (rule skip_to) (use c in \<open>auto simp: clean_def list_all_iff\<close>)
  also have "\<dots> = None"
    using no_token_at [of "length (pre @ p)" "pre @ p"]
    by (simp add: exec_from.simps [of _ _ "length pre + length p"] exec_from.simps [of _ _ "Suc (length pre + length p)"] starts_with_def js_def)
  finally show ?thesis .
qed

section \<open>Lemmas: reading what was expanded\<close>

text \<open>A wire text as the plain texts before its tokens, the identifiers of the tokens, and the text after the last.\<close>

fun pieces_text :: "(jstr \<times> jstr) list \<Rightarrow> jstr \<Rightarrow> jstr" where
  "pieces_text [] tail = tail"
| "pieces_text ((p, nodeId) # ps) tail = p @ default_to (encodeNodeMentionToken nodeId) [] @ pieces_text ps tail"

definition mentionable :: "jstr \<Rightarrow> bool" where
  "mentionable nodeId \<longleftrightarrow> nodeId \<noteq> [] \<and> units nodeId \<and> nodeId \<noteq> js ''remote'' \<and> encodeNodeMentionToken nodeId \<noteq> None"

fun pieces_ok :: "(jstr \<times> jstr) list \<Rightarrow> jstr \<Rightarrow> bool" where
  "pieces_ok [] tail = clean tail"
| "pieces_ok ((p, nodeId) # ps) tail \<longleftrightarrow> clean p \<and> mentionable nodeId \<and> token_end (pieces_text ps tail) \<and> pieces_ok ps tail"

lemma mentionable_payload:
  assumes "mentionable nodeId"
  shows "\<exists>p. encodeNodeMentionToken nodeId = Some (js ''@node:'' @ p) \<and> id_payload p \<and> p \<noteq> [] \<and> p \<noteq> js ''remote''
    \<and> decodeURIComponent p = Some nodeId"
proof -
  from assms obtain e where e: "encodeURIComponent nodeId = Some e" "units nodeId" "nodeId \<noteq> []" "nodeId \<noteq> js ''remote''"
    by (auto simp: mentionable_def encodeNodeMentionToken_def)
  let ?p = "concat (map mention_escape e)"
  from mention_payload [OF e(2,1)] have p: "id_payload ?p" "decodeURIComponent ?p = Some nodeId" by simp_all
  have "?p \<noteq> []" using p(2) e(3) decode_Nil by (metis option.inject)
  moreover have "?p \<noteq> js ''remote''"
  proof
    assume "?p = js ''remote''"
    with p(2) have "decodeURIComponent (js ''remote'') = Some nodeId" by simp
    with e(4) show False by (simp add: js_def decode_plain)
  qed
  ultimately show ?thesis using p e(1) by (simp add: encodeNodeMentionToken_def)
qed

lemma not_remote_prefix: "id_payload p \<Longrightarrow> \<not> starts_with p (js ''remote:'')"
  using payload_units [of p] by (auto simp: starts_with_iff js_def)

lemma read_pieces:
  "pieces_ok ps tail \<Longrightarrow> length ps < f \<Longrightarrow> s = pre @ pieces_text ps tail \<Longrightarrow>
    map tk_nodeId (concat (map (token_of_match s) (match_all_fuel f TOKEN_PATTERN s (length pre)))) = map snd ps"
proof (induction ps arbitrary: f pre)
  case Nil
  then obtain g where "f = Suc g" by (cases f) auto
  with Nil skip_tail [of tail pre] show ?case by simp
next
  case (Cons q ps)
  obtain p nodeId where q: "q = (p, nodeId)" by (cases q)
  from Cons.prems(2) obtain g where f: "f = Suc g" "length ps < g" by (cases f) auto
  from Cons.prems(1) have ok: "clean p" "mentionable nodeId" "token_end (pieces_text ps tail)" "pieces_ok ps tail" by (simp_all add: q)
  from mentionable_payload [OF ok(2)] obtain w where w: "encodeNodeMentionToken nodeId = Some (js ''@node:'' @ w)" "id_payload w" "w \<noteq> []"
    "w \<noteq> js ''remote''" "decodeURIComponent w = Some nodeId" by blast
  let ?post = "pieces_text ps tail" and ?k = "length (pre @ p)"
  have s: "s = (pre @ p) @ js ''@node:'' @ w @ ?post" using Cons.prems(3) by (simp add: q w(1) default_to_def)
  from match_token [OF s w(2,3) ok(3)] w(4) obtain t where
    m: "rmatch s TOKEN_PATTERN (?k, []) = (?k + 6 + length w, [(1, ?k + 6, ?k + 6 + length w)]) # t" by auto
  let ?m = "\<lparr>m_start = ?k, m_end = ?k + 6 + length w, m_caps = [(1, ?k + 6, ?k + 6 + length w)]\<rparr>"
  have "js ''@node:'' @ w @ ?post = 64 # (js ''node:'' @ w @ ?post)" by (simp add: js_def)
  with s skip_plain [OF ok(1), of pre] have "exec_from TOKEN_PATTERN s (length pre) = exec_from TOKEN_PATTERN s ?k" by simp
  also have "\<dots> = Some ?m"
  proof -
    have "?k \<le> length s" by (simp add: s)
    with m show ?thesis by (subst exec_from.simps) simp
  qed
  finally have ex: "exec_from TOKEN_PATTERN s (length pre) = Some ?m" .
  have cap: "capture s ?m 1 = w" using s by (simp add: capture_def js_slice_def length_node)
  have tok: "map tk_nodeId (token_of_match s ?m) = [nodeId]"
    unfolding token_of_match_def cap using not_remote_prefix [OF w(2)] w(5) by simp
  have nxt: "next_index ?m = length (pre @ p @ js ''@node:'' @ w)" by (simp add: next_index_def length_node)
  have "s = (pre @ p @ js ''@node:'' @ w) @ ?post" using s by simp
  from Cons.IH [OF ok(4) f(2) this]
  have "map tk_nodeId (concat (map (token_of_match s) (match_all_fuel g TOKEN_PATTERN s (next_index ?m)))) = map snd ps"
    unfolding nxt .
  with ex tok show ?case by (simp add: f q)
qed

lemma length_pieces: "pieces_ok ps tail \<Longrightarrow> length ps \<le> length (pieces_text ps tail)"
proof (induction ps)
  case (Cons q ps)
  obtain p nodeId where q: "q = (p, nodeId)" by (cases q)
  with Cons.prems mentionable_payload [of nodeId] obtain w where "encodeNodeMentionToken nodeId = Some (js ''@node:'' @ w)" by auto
  with Cons q show ?case by (simp add: default_to_def length_node)
qed simp

lemma read_pieces_text: "pieces_ok ps tail \<Longrightarrow> map tk_nodeId (readNodeMentionTokens (pieces_text ps tail)) = map snd ps"
  using read_pieces [of ps tail "length (pieces_text ps tail) + 2" "pieces_text ps tail" "[]"] length_pieces [of ps tail]
  by (simp add: readNodeMentionTokens_def match_all_def)

text \<open>The pieces of an expanded draft: the labels of context mentions belong to the plain text.\<close>

fun draft_pieces :: "jstr \<Rightarrow> nat \<Rightarrow> jstr \<Rightarrow> ComposerMention list \<Rightarrow> (jstr \<times> jstr) list \<times> jstr" where
  "draft_pieces value cursor acc [] = ([], acc @ drop cursor value)"
| "draft_pieces value cursor acc (m # ms) =
     (let p = acc @ js_slice value cursor (mn_start m)
      in if mn_kind m = ContextMention then draft_pieces value (mn_end m) (p @ 64 # mn_label m) ms
         else let (ps, tail) = draft_pieces value (mn_end m) [] ms in ((p, mn_refId m) # ps, tail))"

lemma expand_pieces:
  "expand_from value cursor ms = Some w \<Longrightarrow> draft_pieces value cursor acc ms = (ps, tail) \<Longrightarrow> acc @ w = pieces_text ps tail"
proof (induction ms arbitrary: cursor acc w ps)
  case (Cons m ms)
  show ?case
  proof (cases "mn_kind m = ContextMention")
    case True
    with Cons.prems(1) obtain v where v: "expand_from value (mn_end m) ms = Some v"
      "w = js_slice value cursor (mn_start m) @ (64 # mn_label m) @ v" by auto
    from Cons.IH [OF v(1), of "acc @ js_slice value cursor (mn_start m) @ 64 # mn_label m" ps] Cons.prems(2) True v(2)
    show ?thesis by (simp add: Let_def)
  next
    case False
    with Cons.prems(1) obtain t v where v: "encodeNodeMentionToken (mn_refId m) = Some t" "expand_from value (mn_end m) ms = Some v"
      "w = js_slice value cursor (mn_start m) @ t @ v" by (auto split: option.splits)
    obtain qs where qs: "draft_pieces value (mn_end m) [] ms = (qs, tail)"
      "ps = (acc @ js_slice value cursor (mn_start m), mn_refId m) # qs"
      using Cons.prems(2) False by (auto simp: Let_def split: prod.splits)
    from Cons.IH [OF v(2) qs(1)] v qs(2) show ?thesis by (simp add: default_to_def)
  qed
qed simp

lemma draft_piece_ids: "map snd (fst (draft_pieces v cursor acc ms)) = map mn_refId (filter (\<lambda>m. mn_kind m = NodeMention) ms)"
  by (induction v cursor acc ms rule: draft_pieces.induct) (simp_all add: Let_def split_beta split: mention_kind.splits, metis mention_kind.exhaust)

section \<open>Theorems\<close>

text \<open>C33: the nodes a draft mentions are the nodes its wire text names, in the same order, when no token starts in the text around
  the mentions and no mention of a node runs into a letter, digit, hyphen, underscore or percent sign.\<close>
theorem mentions_roundtrip:
  assumes "expandMentions value mentions = Some wire"
    and "pieces_ok (fst (draft_pieces value 0 [] mentions)) (snd (draft_pieces value 0 [] mentions))"
  shows "map tk_nodeId (readNodeMentionTokens wire) = map mn_refId (filter (\<lambda>m. mn_kind m = NodeMention) mentions)"
proof -
  have "expand_from value 0 mentions = Some wire" using assms(1) by (cases mentions) (simp_all add: expandMentions_def)
  from expand_pieces [OF this, of "[]" "fst (draft_pieces value 0 [] mentions)" "snd (draft_pieces value 0 [] mentions)"]
  have "wire = pieces_text (fst (draft_pieces value 0 [] mentions)) (snd (draft_pieces value 0 [] mentions))" by simp
  with read_pieces_text [OF assms(2)] draft_piece_ids show ?thesis by simp
qed

definition node_mention :: "nat \<Rightarrow> nat \<Rightarrow> string \<Rightarrow> ComposerMention" where
  "node_mention a b i = \<lparr>mn_start = a, mn_end = b, mn_kind = NodeMention, mn_refId = js i, mn_label = js ''A''\<rparr>"

theorem mentions_roundtrip_witness:
  "map tk_nodeId (readNodeMentionTokens (js ''see @node:n%3A1.''))
     = map mn_refId (filter (\<lambda>m. mn_kind m = NodeMention) [node_mention 4 6 ''n:1''])"
  by (rule mentions_roundtrip [of "js ''see @A.''"])
    (simp_all add: expandMentions_def node_mention_def encodeNodeMentionToken_def js_def unescaped_def escape_def utf8_def escape_byte_def
      hex_digit_def mention_escape_def high_surrogate_def low_surrogate_def js_slice_def mentionable_def clean_def starts_with_def upt_rec
      token_end_def id_unit_def is_word_unit_def prepend_def)

text \<open>A mention that the text runs into is read back as another node: \<open>@A\<close> followed by \<open>-b\<close> sends the token of the node
  \<open>n1\<close> as one of the node \<open>n1-b\<close>.\<close>
theorem mention_absorbs_text:
  "map_option (\<lambda>wire. map tk_nodeId (readNodeMentionTokens wire)) (expandMentions (js ''@A-b'') [node_mention 0 2 ''n1'']) = Some [js ''n1-b'']"
proof -
  have "expandMentions (js ''@A-b'') [node_mention 0 2 ''n1''] = Some (js ''@node:n1-b'')"
    by (simp add: expandMentions_def node_mention_def encodeNodeMentionToken_def js_def unescaped_def js_slice_def prepend_def mention_escape_def)
  moreover have "js ''@node:n1-b'' = pieces_text [([], js ''n1-b'')] []"
    by (simp add: encodeNodeMentionToken_def js_def unescaped_def prepend_def mention_escape_def default_to_def)
  moreover have "pieces_ok [([], js ''n1-b'')] []"
    by (simp add: clean_def mentionable_def encodeNodeMentionToken_def js_def unescaped_def prepend_def mention_escape_def token_end_def)
  ultimately show ?thesis using read_pieces_text [of "[([], js ''n1-b'')]" "[]"] by simp
qed

end
