(* ===== verification/Chat_Queue.thy ===== *)
theory Chat_Queue
  imports Chat_Safety Mention_Tokens
begin

text \<open>
  The messages a user writes while an agent works: chat commands and the batches a queue is sent in
  (\<^verbatim>\<open>frontend/src/state/chatCommands.ts\<close>), the message made of a batch (\<^verbatim>\<open>queueFlush.ts\<close>, \<^verbatim>\<open>lib/commentFormat.ts\<close>,
  \<^verbatim>\<open>lib/composerAttachments.ts\<close>), and what the end of a turn does with the queue (\<open>handleTurnEnd\<close> of
  \<^verbatim>\<open>frontend/src/state/chatStore.tsx\<close>): the actions it dispatches and the message it sends. The theorems follow the queue through
  everything that can happen to a chat.
\<close>

section \<open>Commands\<close>

record ChatCommand =
  cc_name :: jstr
  cc_value :: "jstr option"

definition COMMAND_RE :: regex where
  "COMMAND_RE = rseq [RBegin False, runit 47, RGroup 1 (rplus (RSet (\<lambda>c. is_word_unit c \<or> c = 45))),
     ropt (rseq [rplus (RSet is_blank), RGroup 2 (rstar (RSet (\<lambda>c. c \<noteq> 13 \<and> c \<noteq> 10)))]), REnd False]"

definition CLAUDE_COMMANDS :: "jstr list" where
  "CLAUDE_COMMANDS = [js ''status'', js ''model'', js ''context'', js ''mcp'']"

definition COMPOSER_COMMANDS :: "jstr list" where
  "COMPOSER_COMMANDS = [js ''branch'', js ''fork'', js ''fan'']"

definition V2_COMMANDS :: "jstr list" where
  "V2_COMMANDS = [js ''compact'', js ''tools'', js ''context'', js ''effort'', js ''clear'']"

definition parseChatCommand :: "jstr \<Rightarrow> jstr option \<Rightarrow> jstr option \<Rightarrow> ChatCommand option" where
  "parseChatCommand text runtimeId engine =
     (let s = js_trim text
      in case js_match COMMAND_RE s of None \<Rightarrow> None
         | Some m \<Rightarrow>
             let name = capture s m 1;
                 command = \<lparr>cc_name = name, cc_value = truthy_of (Some (js_trim (capture s m 2)))\<rparr>
             in if runtimeId = Some (js ''claude'') \<and> name \<in> set CLAUDE_COMMANDS then Some command
                else if runtimeId \<noteq> Some (js ''kiro'') \<and> name \<noteq> js ''compact'' then None
                else if name \<in> set COMPOSER_COMMANDS then None
                else if runtimeId = Some (js ''kiro'') \<and> engine = Some (js ''v2'') \<and> name \<notin> set V2_COMMANDS then None
                else Some command)"

definition is_command :: "jstr option \<Rightarrow> jstr option \<Rightarrow> PendingQueuedMessage \<Rightarrow> bool" where
  "is_command runtimeId engine q \<longleftrightarrow> parseChatCommand (pq_value q) runtimeId engine \<noteq> None"

definition nextQueuedBatch :: "PendingQueuedMessage list \<Rightarrow> jstr option \<Rightarrow> jstr option \<Rightarrow> PendingQueuedMessage list" where
  "nextQueuedBatch queue runtimeId engine = (case queue of [] \<Rightarrow> []
     | q # _ \<Rightarrow> if is_command runtimeId engine q then [q]
         else (case find_index (is_command runtimeId engine) queue of None \<Rightarrow> queue | Some next \<Rightarrow> take next queue))"

section \<open>Combining a queue\<close>

record FlushPayload =
  fp_value :: jstr
  fp_mentions :: "ComposerMention list"
  fp_attachments :: "AttachmentRef list"

definition shift_by :: "nat \<Rightarrow> ComposerMention \<Rightarrow> ComposerMention" where
  "shift_by d m = m\<lparr>mn_start := mn_start m + d, mn_end := mn_end m + d\<rparr>"

fun flush_entries :: "bool \<Rightarrow> FlushPayload \<Rightarrow> PendingQueuedMessage list \<Rightarrow> FlushPayload" where
  "flush_entries first p [] = p"
| "flush_entries first p (q # qs) =
     (let start = (if first then fp_value p else fp_value p @ [10, 10])
      in flush_entries False
           \<lparr>fp_value = start @ pq_value q, fp_mentions = fp_mentions p @ map (shift_by (length start)) (pq_mentions q),
            fp_attachments = fp_attachments p @ pq_attachments q\<rparr> qs)"

definition buildFlushPayload :: "PendingQueuedMessage list \<Rightarrow> FlushPayload option" where
  "buildFlushPayload queue = (case queue of [] \<Rightarrow> None
     | [only] \<Rightarrow> Some \<lparr>fp_value = pq_value only, fp_mentions = pq_mentions only, fp_attachments = pq_attachments only\<rparr>
     | _ \<Rightarrow> Some (flush_entries True \<lparr>fp_value = [], fp_mentions = [], fp_attachments = []\<rparr> queue))"

section \<open>The text of a message\<close>

type_synonym quote = "jstr \<times> AnyQuoteSource option"

definition quote_part :: "quote \<Rightarrow> jstr option" where
  "quote_part q = (let trimmedQuote = js_trim (fst q)
     in if trimmedQuote = [] then None else Some (formatQuotedSelectionContext trimmedQuote (snd q)))"

definition joinMessageQuotes :: "jstr option \<Rightarrow> quote list \<Rightarrow> jstr \<Rightarrow> jstr" where
  "joinMessageQuotes commentBlock quotes userText =
     (let trimmedBlock = js_trim (default_to commentBlock []); quoted = List.map_filter quote_part quotes; trimmedText = js_trim userText
      in join_with [10, 10] ((if trimmedBlock \<noteq> [] then [trimmedBlock] else []) @ quoted
           @ (if trimmedText = [] then [] else if quoted \<noteq> [] then [js ''User'' @ [39] @ js ''s reply:'' @ [10] @ trimmedText] else [trimmedText])))"

definition joinMessageParts :: "jstr option \<Rightarrow> jstr option \<Rightarrow> jstr \<Rightarrow> AnyQuoteSource option \<Rightarrow> jstr" where
  "joinMessageParts commentBlock quoted userText quoteSource =
     joinMessageQuotes commentBlock (case truthy_of quoted of None \<Rightarrow> [] | Some t \<Rightarrow> [(t, quoteSource)]) userText"

definition appendAttachmentsSentinel :: "jstr \<Rightarrow> AttachmentRef list \<Rightarrow> jstr" where
  "appendAttachmentsSentinel input attachments =
     (if attachments = [] then input
      else input @ [10, 10] @ js ''[Attached files: '' @
        join_with (js '' | '') (map (\<lambda>a. ar_name a @ [32, 8212, 32] @ ar_absPath a) attachments) @ js '']'')"

section \<open>The end of a turn\<close>

record queued_send =
  qs_text :: jstr
  qs_rejectedDraft :: ComposerDraft
  qs_quotedText :: "jstr option"
  qs_comments :: "PendingComment list"
  qs_source :: "AnyQuoteSource option"
  qs_attachments :: "MessageAttachment list option"
  qs_displayText :: jstr

datatype end_send =
    NoSend
  | SendQueued queued_send
  | SendThrows \<comment> \<open>a mention cannot be encoded\<close>

record turn_end =
  te_unbinds :: bool
  te_actions :: "compose_action list"
  te_send :: end_send

definition quiet_end :: "bool \<Rightarrow> turn_end" where
  "quiet_end failed = \<lparr>te_unbinds = failed, te_actions = [], te_send = NoSend\<rparr>"

definition present :: "jstr option list \<Rightarrow> jstr list" where
  "present xs = List.map_filter truthy_of xs"

definition queue_quotes :: "PendingQueuedMessage list \<Rightarrow> quote list" where
  "queue_quotes queue = List.map_filter (\<lambda>q. case pq_quotedText q of None \<Rightarrow> None
     | Some t \<Rightarrow> if js_trim t \<noteq> [] then Some (t, pq_quoteSource q) else None) queue"

definition joined_or_none :: "jstr list \<Rightarrow> jstr option" where
  "joined_or_none xs = truthy_of (Some (join_with [10, 10] xs))"

definition restored_prefix :: "jstr option \<Rightarrow> quote list \<Rightarrow> jstr" where
  "restored_prefix combinedComments quotes =
     (let blocks = present (combinedComments # (if 1 < length quotes
            then map (\<lambda>q. Some (formatQuotedSelectionContext (fst q) (snd q))) quotes else []))
      in if blocks = [] then [] else join_with [10, 10] blocks @ [10, 10])"

definition queued_message :: "PendingQueuedMessage list \<Rightarrow> FlushPayload \<Rightarrow> jstr \<Rightarrow> queued_send" where
  "queued_message queue flushed expandedValue =
     (let combinedComments = joined_or_none (present (map pq_commentBlock queue));
          legacyComments = joined_or_none (present (map pq_commentBlock
            (filter (\<lambda>q. default_to (pq_comments q) [] = []) queue)));
          quotes = queue_quotes queue;
          prefix = restored_prefix combinedComments quotes
      in \<lparr>qs_text = appendAttachmentsSentinel (joinMessageQuotes combinedComments quotes expandedValue) (fp_attachments flushed),
          qs_rejectedDraft = \<lparr>cd_value = prefix @ fp_value flushed, cd_mentions = map (shift_by (length prefix)) (fp_mentions flushed),
            cd_quotedText = (case quotes of [q] \<Rightarrow> Some (fst q) | _ \<Rightarrow> None),
            cd_quoteSource = (case quotes of [q] \<Rightarrow> snd q | _ \<Rightarrow> None)\<rparr>,
          qs_quotedText = (case quotes of [q] \<Rightarrow> Some (fst q) | _ \<Rightarrow> None),
          qs_comments = concat (map (\<lambda>q. default_to (pq_comments q) []) queue),
          qs_source = (case quotes of [q] \<Rightarrow> snd q | _ \<Rightarrow> None),
          qs_attachments = (if fp_attachments flushed = [] then None
            else Some (map (\<lambda>a. \<lparr>at_name = ar_name a, at_absPath = ar_absPath a, at_relPath = None\<rparr>) (fp_attachments flushed))),
          qs_displayText = (if 1 < length quotes then joinMessageQuotes legacyComments quotes expandedValue
            else joinMessageParts legacyComments None expandedValue None)\<rparr>)"

definition end_batch :: "jstr option \<Rightarrow> ChatNodeState \<Rightarrow> PendingQueuedMessage list" where
  "end_batch agentRuntime n = nextQueuedBatch (filter (\<lambda>q. pq_steering q \<noteq> Some True) (default_to (cn_pendingQueued n) []))
     (nullish (cn_runtimeId n) agentRuntime) (Option.bind (cn_sessionState n) ss_nativeEngine)"

definition handleTurnEnd :: "jstr option \<Rightarrow> bool \<Rightarrow> ChatNodeState \<Rightarrow> turn_end" where
  \<comment> \<open>\<open>failed\<close>: the turn ended with an error\<close>
  "handleTurnEnd agentRuntime failed n =
     (if cn_status n = NodeStreaming then quiet_end False
      else let queue = end_batch agentRuntime n
      in if queue = [] then quiet_end failed
      else if failed then \<lparr>te_unbinds = True, te_actions = [MarkQueueErrored], te_send = NoSend\<rparr>
      else case buildFlushPayload queue of None \<Rightarrow> quiet_end False
      | Some flushed \<Rightarrow> \<lparr>te_unbinds = False, te_actions = map (\<lambda>q. DequeueMessage (pq_id q)) queue,
          te_send = (case expandMentions (fp_value flushed) (fp_mentions flushed) of None \<Rightarrow> SendThrows
            | Some expandedValue \<Rightarrow> SendQueued (queued_message queue flushed expandedValue))\<rparr>)"

section \<open>Lemmas: which actions touch the queue\<close>

definition queue_view where
  "queue_view n = (cn_pendingQueued n, cn_queueErrored n)"

lemma queue_stream [simp]: "queue_view (reduce_stream now i e n) = queue_view n"
  by (simp add: queue_view_def reduce_stream_def Let_def)

lemma queue_request [simp]: "queue_view (reduce_request now q n) = queue_view n"
  by (cases q) (simp_all add: queue_view_def user_input_request_def user_input_resolved_def Let_def split: option.split)

lemma queue_roster [simp]: "queue_view (reduce_roster now a n) = queue_view n"
  by (cases a) (simp_all add: queue_view_def subagent_list_update_def subagent_tool_activity_def background_subagents_ended_def
      usage_summary_def runtime_warning_def Let_def)

lemma queue_label [simp]: "queue_view (reduce_label now a n) = queue_view n"
  by (cases a) (simp_all add: queue_view_def set_title_def set_branch_overview_def rename_node_def set_follow_ups_def follow_ups_status_def Let_def)

lemma queue_session [simp]: "queue_view (reduce_session k a n) = queue_view n"
  by (cases a) (simp_all add: queue_view_def bind_chat_def session_state_def)

lemma queue_pane [simp]: "queue_view (reduce_view a n) = queue_view n"
  by (cases a) (simp_all add: queue_view_def consume_links_def forget_consumed_link_def Let_def)

lemma queue_artifact [simp]: "queue_view (reduce_artifact a n) = queue_view n"
  by (cases a) (simp_all add: queue_view_def on_artifact_def artifact_loaded_def split: option.split)

lemma queue_digest [simp]: "queue_view (reduce_digest now a n) = queue_view n"
  by (cases a) (simp_all add: queue_view_def on_digest_def on_generation_def split: option.split)

lemma queue_done [simp]: "queue_view (turn_done now i c ab n) = queue_view n"
  by (simp add: queue_view_def turn_done_def Let_def split: prod.split)

lemma queue_failed [simp]: "queue_view (turn_failed now f n) = queue_view n"
  by (simp add: queue_view_def turn_failed_def Let_def)

lemma queue_turn: "\<forall>d i q. a \<noteq> SteerAcceptedA d i q \<Longrightarrow> queue_view (reduce_turn now a n) = queue_view n"
proof (cases a)
  case (ObserverTurnStart ob)
  then show ?thesis by (simp add: queue_view_def observer_turn_start_def set_cursor_def start_turn_def clear_error_def Let_def)
next
  case (HistoryPageLoaded x y page z)
  then show ?thesis by (simp add: queue_view_def history_page_loaded_def Let_def)
qed (auto simp: queue_view_def user_send_def start_turn_def clear_error_def active_turn_def apply_seq_def
    apply_background_seq_def optimistic_cancel_def cancel_recovery_def block_reset_def recover_original_result_def
    realign_assistant_id_def retry_trim_def visible_response_complete_def set_cursor_def Let_def queue_done [unfolded queue_view_def, simplified]
    queue_failed [unfolded queue_view_def, simplified] split: option.split)

lemma errored_steer: "cn_queueErrored (steer_accepted d a q n) = cn_queueErrored n"
  by (simp add: steer_accepted_def Let_def split: option.split)




lemma errored_compose: "a \<noteq> FlushQueue \<Longrightarrow> cn_queueErrored n = Some True \<Longrightarrow> cn_queueErrored (reduce_compose a n) = Some True"
  by (cases a) (simp_all add: set_composer_draft_def add_comment_def edit_comment_def queue_message_def queue_steering_def Let_def
      split: option.split)

lemma errored_kept:
  assumes "a \<noteq> ComposeNode FlushQueue" "cn_queueErrored n = Some True"
  shows "cn_queueErrored (reduce_node now k a n) = Some True"
proof (cases a)
  case (TurnNode t)
  show ?thesis
  proof (cases "\<exists>d i q. t = SteerAcceptedA d i q")
    case True
    with TurnNode assms(2) show ?thesis by (auto simp: errored_steer)
  next
    case False
    then show ?thesis using queue_turn [of t now n] assms(2) by (simp add: TurnNode queue_view_def)
  qed
next
  case (ComposeNode c)
  with assms errored_compose show ?thesis by simp
qed (use assms(2) queue_stream queue_request queue_roster queue_label queue_session queue_pane queue_artifact queue_digest
  in \<open>simp_all only: reduce_node.simps queue_view_def prod.inject\<close>)

section \<open>Lemmas: batches\<close>

lemma nextQueuedBatch_prefix: "\<exists>k. nextQueuedBatch queue r e = take k queue \<and> (queue \<noteq> [] \<longrightarrow> 0 < k)"
proof (cases queue)
  case Nil
  then show ?thesis by (simp add: nextQueuedBatch_def)
next
  case (Cons q qs)
  show ?thesis
  proof (cases "is_command r e q")
    case True
    then show ?thesis using Cons by (auto simp: nextQueuedBatch_def intro: exI [of _ 1])
  next
    case False
    show ?thesis
    proof (cases "find_index (is_command r e) queue")
      case None
      then show ?thesis using Cons False by (auto simp: nextQueuedBatch_def intro: exI [of _ "length queue"])
    next
      case (Some k)
      then have "k \<noteq> 0" using find_index_Some [OF Some] Cons False by (cases k) auto
      moreover have "nextQueuedBatch queue r e = take k queue" unfolding nextQueuedBatch_def Some using Cons False by simp
      ultimately show ?thesis by blast
    qed
  qed
qed

text \<open>A command is sent alone; messages that are sent together hold no command.\<close>

theorem command_sent_alone:
  "nextQueuedBatch queue r e = b \<Longrightarrow> (\<exists>q. b = [q] \<and> is_command r e q) \<or> list_all (\<lambda>q. \<not> is_command r e q) b"
proof -
  assume b: "nextQueuedBatch queue r e = b"
  show ?thesis
  proof (cases queue)
    case (Cons q qs)
    show ?thesis
    proof (cases "find_index (is_command r e) queue")
      case None
      then have "list_all (\<lambda>q. \<not> is_command r e q) queue" by (simp add: find_index_None list_all_iff)
      with None b Cons show ?thesis by (auto simp: nextQueuedBatch_def split: if_splits)
    next
      case (Some k)
      have "list_all (\<lambda>q. \<not> is_command r e q) (take k queue)"
        using find_index_Some [OF Some] by (auto simp: list_all_iff in_set_conv_nth)
      with Some b Cons show ?thesis by (auto simp: nextQueuedBatch_def split: if_splits)
    qed
  qed (use b in \<open>simp add: nextQueuedBatch_def\<close>)
qed

text \<open>Taking the entries of a batch off the queue one by one leaves the rest of it.\<close>

definition queue_of :: "ChatNodeState \<Rightarrow> PendingQueuedMessage list" where
  "queue_of n = default_to (cn_pendingQueued n) []"

lemma filter_same: "length (filter P xs) = length xs \<Longrightarrow> filter P xs = xs"
  by (metis filter_id_conv length_filter_less less_irrefl)

lemma drop_entries_default: "default_to (drop_entries P xs) [] = filter (\<lambda>y. \<not> P y) (default_to xs [])"
  by (cases xs) (auto simp: drop_entries_def Let_def filter_same)

lemma dequeue_queue: "queue_of (reduce_compose (DequeueMessage i) n) = filter (\<lambda>q. pq_id q \<noteq> i) (queue_of n)"
  by (simp add: queue_of_def drop_entries_default)

lemma dequeue_batch:
  "queue_of (foldl (\<lambda>n a. reduce_compose a n) n (map (\<lambda>q. DequeueMessage (pq_id q)) b))
    = filter (\<lambda>q. pq_id q \<notin> pq_id ` set b) (queue_of n)"
proof (induction b arbitrary: n)
  case (Cons q b)
  from Cons [of "reduce_compose (DequeueMessage (pq_id q)) n"] show ?case
    by (simp add: dequeue_queue del: reduce_compose.simps)
qed simp

lemma filter_prefix:
  assumes "distinct (map f (xs @ ys))"
  shows "filter (\<lambda>q. f q \<notin> f ` set xs) (xs @ ys) = ys"
proof -
  have "filter (\<lambda>q. f q \<notin> f ` set xs) xs = []" by (simp add: filter_empty_conv)
  moreover have "filter (\<lambda>q. f q \<notin> f ` set xs) ys = ys" using assms by (auto simp: filter_id_conv)
  ultimately show ?thesis by simp
qed

lemma flush_payload_some: "queue \<noteq> [] \<Longrightarrow> \<exists>p. buildFlushPayload queue = Some p"
  by (cases queue rule: remdups_adj.cases) (simp_all add: buildFlushPayload_def)

section \<open>A run of a chat\<close>

datatype chat_event =
    Acts node_action
  | TurnEnds bool \<comment> \<open>whether with an error\<close>

definition end_sends :: "jstr option \<Rightarrow> bool \<Rightarrow> ChatNodeState \<Rightarrow> PendingQueuedMessage list" where
  "end_sends runtime failed n = (case te_send (handleTurnEnd runtime failed n) of NoSend \<Rightarrow> [] | _ \<Rightarrow> end_batch runtime n)"

fun queue_step :: "jstr option \<Rightarrow> jstr \<Rightarrow> ChatNodeState \<times> PendingQueuedMessage list \<Rightarrow> int \<times> chat_event \<Rightarrow> ChatNodeState \<times> PendingQueuedMessage list" where
  "queue_step runtime k (n, sent) (now, Acts a) = (reduce_node now k a n, sent)"
| "queue_step runtime k (n, sent) (now, TurnEnds failed) =
     (foldl (\<lambda>n a. reduce_compose a n) n (te_actions (handleTurnEnd runtime failed n)), sent @ end_sends runtime failed n)"



lemma end_split:
  assumes "list_all (\<lambda>q. pq_steering q \<noteq> Some True) (queue_of n)" "distinct (map pq_id (queue_of n))"
  shows "end_sends runtime failed n @ queue_of (fst (queue_step runtime k (n, sent) (now, TurnEnds failed))) = queue_of n"
proof -
  have fil: "filter (\<lambda>q. pq_steering q \<noteq> Some True) (queue_of n) = queue_of n" using assms(1) by (simp add: filter_id_conv list_all_iff)
  obtain j where j: "end_batch runtime n = take j (queue_of n)"
    unfolding end_batch_def queue_of_def [symmetric] fil
    using nextQueuedBatch_prefix [of "queue_of n" "nullish (cn_runtimeId n) runtime" "Option.bind (cn_sessionState n) ss_nativeEngine"] by blast
  show ?thesis
  proof (cases "cn_status n = NodeStreaming \<or> take j (queue_of n) = [] \<or> failed")
    case True
    have mark: "queue_of (reduce_compose MarkQueueErrored n) = queue_of n" by (simp add: queue_of_def)
    from True consider "cn_status n = NodeStreaming" | "cn_status n \<noteq> NodeStreaming" "take j (queue_of n) = []"
      | "cn_status n \<noteq> NodeStreaming" "take j (queue_of n) \<noteq> []" "failed" by blast
    then show ?thesis
    proof cases
      case 1
      then show ?thesis by (simp add: end_sends_def handleTurnEnd_def quiet_end_def)
    next
      case 2
      then show ?thesis by (simp add: end_sends_def handleTurnEnd_def quiet_end_def Let_def j)
    next
      case 3
      then show ?thesis by (simp add: end_sends_def handleTurnEnd_def Let_def j mark del: reduce_compose.simps)
    qed
  next
    case False
    then obtain fl where fl: "buildFlushPayload (take j (queue_of n)) = Some fl" using flush_payload_some by blast
    let ?b = "take j (queue_of n)"
    have "queue_of (foldl (\<lambda>n a. reduce_compose a n) n (map (\<lambda>q. DequeueMessage (pq_id q)) ?b)) = filter (\<lambda>q. pq_id q \<notin> pq_id ` set ?b) (queue_of n)"
      by (rule dequeue_batch)
    also have "\<dots> = drop j (queue_of n)" using filter_prefix [of pq_id ?b "drop j (queue_of n)"] assms(2) by simp
    finally show ?thesis using False fl
      by (simp add: end_sends_def handleTurnEnd_def Let_def j split: option.split)
  qed
qed



section \<open>Theorems: the queue\<close>


definition queued :: "string \<Rightarrow> string \<Rightarrow> PendingQueuedMessage" where
  "queued i v = \<lparr>pq_id = js i, pq_steering = None, pq_value = js v, pq_mentions = [], pq_attachments = [], pq_quotedText = None,
     pq_quoteSource = None, pq_commentBlock = None, pq_comments = None, pq_queuedAt = 0\<rparr>"



lemma status_compose: "cn_status (reduce_compose a n) = cn_status n"
  by (cases a) (simp_all add: set_composer_draft_def add_comment_def edit_comment_def queue_message_def queue_steering_def Let_def
      split: option.split)

lemma status_composes: "cn_status (foldl (\<lambda>n a. reduce_compose a n) n as) = cn_status n"
  by (induction as arbitrary: n) (simp_all add: status_compose del: reduce_compose.simps)

lemma end_sends_some:
  assumes "cn_status n \<noteq> NodeStreaming" "list_all (\<lambda>q. pq_steering q \<noteq> Some True) (queue_of n)" "queue_of n \<noteq> []"
  shows "end_sends runtime False n \<noteq> []"
proof -
  have fil: "filter (\<lambda>q. pq_steering q \<noteq> Some True) (queue_of n) = queue_of n" using assms(2) by (simp add: filter_id_conv list_all_iff)
  have "end_batch runtime n \<noteq> []"
    unfolding end_batch_def queue_of_def [symmetric] fil
    using nextQueuedBatch_prefix [of "queue_of n" "nullish (cn_runtimeId n) runtime" "Option.bind (cn_sessionState n) ss_nativeEngine"] assms(3)
    by (metis neq0_conv take_eq_Nil)
  moreover from this obtain fl where "buildFlushPayload (end_batch runtime n) = Some fl" using flush_payload_some by blast
  ultimately show ?thesis using assms(1) by (simp add: end_sends_def handleTurnEnd_def Let_def split: option.split)
qed

text \<open>A queue drains: in a chat at rest whose user steers nothing, as many successful ends of turns as there are messages send
  all of them, in their order.\<close>
theorem queue_drains:
  assumes "cn_status n \<noteq> NodeStreaming" "list_all (\<lambda>q. pq_steering q \<noteq> Some True) (queue_of n)" "distinct (map pq_id (queue_of n))"
    and "length (queue_of n) \<le> turns"
  shows "\<exists>n'. foldl (queue_step runtime k) (n, sent) (replicate turns (now, TurnEnds False)) = (n', sent @ queue_of n) \<and> queue_of n' = []"
  using assms
proof (induction turns arbitrary: n sent)
  case (Suc turns)
  define n1 where "n1 = fst (queue_step runtime k (n, sent) (now, TurnEnds False))"
  have step: "queue_step runtime k (n, sent) (now, TurnEnds False) = (n1, sent @ end_sends runtime False n)" by (simp add: n1_def)
  have sp: "queue_of n = end_sends runtime False n @ queue_of n1"
    using end_split [OF Suc.prems(2,3), of runtime False k sent now] by (simp add: n1_def)
  have st: "cn_status n1 = cn_status n" by (simp add: n1_def status_composes)
  have "queue_of n \<noteq> [] \<Longrightarrow> length (queue_of n1) < length (queue_of n)"
    using end_sends_some [OF Suc.prems(1,2)] arg_cong [OF sp, of length] by simp
  then have "length (queue_of n1) \<le> turns"
  proof (cases "queue_of n = []")
    case False
    assume "queue_of n \<noteq> [] \<Longrightarrow> length (queue_of n1) < length (queue_of n)"
    from this [OF False] Suc.prems(4) show ?thesis by simp
  qed (use sp in simp)
  moreover have "list_all (\<lambda>q. pq_steering q \<noteq> Some True) (queue_of n1)" "distinct (map pq_id (queue_of n1))"
    using Suc.prems(2,3) sp by (metis list_all_append, metis distinct_append map_append)
  ultimately obtain n' where n': "foldl (queue_step runtime k) (n1, sent @ end_sends runtime False n) (replicate turns (now, TurnEnds False))
      = (n', (sent @ end_sends runtime False n) @ queue_of n1)" "queue_of n' = []"
    using Suc.IH [of n1 "sent @ end_sends runtime False n"] Suc.prems(1) st by auto
  have "(sent @ end_sends runtime False n) @ queue_of n1 = sent @ queue_of n" using sp by simp
  with n' step show ?case by (simp del: queue_step.simps)
qed simp

definition demo_waiting :: ChatNodeState where
  "demo_waiting = demo_chat\<lparr>cn_pendingQueued := Some [queued ''q1'' ''one'', queued ''q2'' ''/compact'', queued ''q3'' ''three'']\<rparr>"

theorem queue_drains_witness:
  "\<exists>n'. foldl (queue_step None (js ''n1'')) (demo_waiting, []) (replicate 3 (0, TurnEnds False)) = (n', [] @ queue_of demo_waiting) \<and> queue_of n' = []"
  by (rule queue_drains) (simp_all add: demo_waiting_def queue_of_def queued_def demo_chat_def blank_chat_node_def js_def)

text \<open>Once an error has marked the queue, no action but the one that flushes it takes the mark away: not the removal of its last
  message, not a later successful turn. (Nothing in the program flushes a queue.)\<close>
theorem queue_error_sticks:
  assumes "cn_queueErrored n = Some True" "list_all (\<lambda>(now, a). a \<noteq> ComposeNode FlushQueue) actions"
  shows "cn_queueErrored (run_node k n actions) = Some True"
  using assms
proof (induction actions arbitrary: n)
  case (Cons e es)
  then show ?case by (cases e) (simp add: run_node_def errored_kept)
qed (simp add: run_node_def)

text \<open>A message is queued, the turn fails, the user takes the message back and lets a turn run well: the next message that is
  queued is shown as failed at once.\<close>
theorem queue_error_sticks_witness:
  "cn_queueErrored (run_node (js ''n1'') (run_node (js ''n1'') demo_chat [(1, ComposeNode (QueueMessage (queued ''q1'' ''one''))), (2, ComposeNode MarkQueueErrored)])
     [(3, ComposeNode (DequeueMessage (js ''q1''))), (4, TurnNode (UserSend (send_of ''a2''))), (5, TurnNode (DoneA (js ''a2'') None False)),
      (6, ComposeNode (QueueMessage (queued ''q2'' ''two'')))]) = Some True"
  by (rule queue_error_sticks)
    (simp_all add: run_node_def queue_message_def demo_chat_def blank_chat_node_def has_items_def queued_def)

section \<open>A combined message\<close>

fun in_range :: "jstr \<Rightarrow> nat \<Rightarrow> ComposerMention list \<Rightarrow> bool" where
  \<comment> \<open>the mentions of a draft lie within its text, one after another\<close>
  "in_range v cursor [] \<longleftrightarrow> cursor \<le> length v"
| "in_range v cursor (m # ms) \<longleftrightarrow> cursor \<le> mn_start m \<and> mn_start m \<le> mn_end m \<and> in_range v (mn_end m) ms"

lemma in_range_end: "in_range v cursor ms \<Longrightarrow> cursor \<le> length v"
  by (induction ms arbitrary: cursor) force+

lemma slice_mid:
  "b \<le> length v \<Longrightarrow> js_slice (pre @ v @ post) (length pre + a) (length pre + b) = js_slice v a b"
  by (simp add: js_slice_def)

text \<open>Text before and after a draft moves its mentions and nothing else.\<close>

lemma expand_within:
  assumes "\<forall>m ms. rest = m # ms \<longrightarrow> length (pre @ v) \<le> mn_start m"
  shows "in_range v cursor ms \<Longrightarrow> expand_from (pre @ v @ post) (length pre + cursor) (map (shift_by (length pre)) ms @ rest) =
    (case expand_from v cursor ms of None \<Rightarrow> None
     | Some w \<Rightarrow> map_option ((@) w) (expand_from (pre @ v @ post) (length (pre @ v)) rest))"
proof (induction ms arbitrary: cursor)
  case Nil
  then have c: "cursor \<le> length v" by simp
  show ?case
  proof (cases rest)
    case Nil
    with c show ?thesis by simp
  next
    case (Cons m ms)
    have "length (pre @ v) \<le> mn_start m" using assms Cons by blast
    then obtain d where d: "mn_start m = length (pre @ v) + d" using le_Suc_ex by blast
    have "js_slice (pre @ v @ post) (length pre + cursor) (mn_start m) = drop cursor v @ js_slice (pre @ v @ post) (length (pre @ v)) (mn_start m)"
      using c by (simp add: js_slice_def d)
    then show ?thesis using Cons by (auto simp: option.map_comp comp_def split: option.splits if_splits)
  qed
next
  case (Cons m ms)
  then have r: "cursor \<le> mn_start m" "mn_start m \<le> mn_end m" "in_range v (mn_end m) ms" by simp_all
  have e: "mn_start m \<le> length v" using in_range_end [OF r(3)] r(2) by simp
  have sh: "mn_start (shift_by (length pre) m) = length pre + mn_start m" "mn_end (shift_by (length pre) m) = length pre + mn_end m"
    "mn_kind (shift_by (length pre) m) = mn_kind m" "mn_label (shift_by (length pre) m) = mn_label m" "mn_refId (shift_by (length pre) m) = mn_refId m"
    by (simp_all add: shift_by_def)
  show ?case using Cons.IH [OF r(3)] slice_mid [OF e, of pre post cursor]
    by (auto simp: sh option.map_comp comp_def intro!: option.map_cong0 split: option.splits)
qed

lemma in_range_within:
  "in_range v cursor ms \<Longrightarrow> in_range (pre @ v @ post) (length pre + cursor) (map (shift_by (length pre)) ms)"
  by (induction ms arbitrary: cursor) (simp_all add: shift_by_def add.commute [of _ "length pre"])

lemma in_range_append:
  "in_range v cursor ms \<Longrightarrow> in_range (v @ w) (length v) rest \<Longrightarrow> in_range (v @ w) cursor (ms @ rest)"
proof (induction ms arbitrary: cursor)
  case Nil
  then show ?case by (cases rest) auto
qed simp

lemma shift_append: "mn_start (shift_by d m) = mn_start m + d"
  by (simp add: shift_by_def)

lemma expand_step:
  assumes "in_range v 0 ms" "in_range w 0 ns"
  shows "in_range (v @ sep @ w) 0 (ms @ map (shift_by (length (v @ sep))) ns)"
    and "expand_from (v @ sep @ w) 0 (ms @ map (shift_by (length (v @ sep))) ns) =
      (case (expand_from v 0 ms, expand_from w 0 ns) of (Some a, Some b) \<Rightarrow> Some (a @ sep @ b) | _ \<Rightarrow> None)"
proof -
  let ?ns = "map (shift_by (length (v @ sep))) ns"
  have s0: "map (shift_by 0) ms = ms" by (simp add: shift_by_def map_idI)
  have later: "length v + length sep \<le> mn_start m" if "?ns = m # ms'" for m ms' using that by (auto simp: shift_append)
  have w: "in_range ((v @ sep) @ w @ []) (length (v @ sep) + 0) ?ns" by (rule in_range_within [OF assms(2)])
  then have "in_range (v @ sep @ w) (length v) ?ns" using later by (cases ns) (auto simp: shift_append)
  with assms(1) show "in_range (v @ sep @ w) 0 (ms @ ?ns)" by (intro in_range_append) simp_all
  have tail: "expand_from (v @ sep @ w) (length v) ?ns = map_option ((@) sep) (expand_from w 0 ns)"
  proof -
    have a: "expand_from (v @ sep @ w) (length v) ?ns =
        (case expand_from (v @ sep @ w) (length v + length sep) ?ns of None \<Rightarrow> None | Some b \<Rightarrow> Some (sep @ b))"
    proof (cases ?ns)
      case (Cons m ms')
      from le_Suc_ex [OF later [OF Cons]] obtain d where d: "mn_start m = length v + length sep + d" by auto
      have "js_slice (v @ sep @ w) (length v) (mn_start m) = sep @ js_slice (v @ sep @ w) (length v + length sep) (mn_start m)"
        by (simp add: js_slice_def d)
      then show ?thesis using Cons by (auto split: option.splits if_splits)
    qed simp
    have "expand_from ((v @ sep) @ w @ []) (length (v @ sep) + 0) (?ns @ []) = (case expand_from w 0 ns of None \<Rightarrow> None
      | Some u \<Rightarrow> map_option ((@) u) (expand_from ((v @ sep) @ w @ []) (length ((v @ sep) @ w)) []))"
      by (rule expand_within) (use assms(2) in simp_all)
    then have b: "expand_from (v @ sep @ w) (length v + length sep) ?ns = expand_from w 0 ns"
      by (simp split: option.splits)
    show ?thesis using a b by (simp split: option.splits)
  qed
  have "\<forall>m ms'. ?ns = m # ms' \<longrightarrow> length ([] @ v) \<le> mn_start m" using later by fastforce
  from expand_within [where pre = "[]" and post = "sep @ w", OF this assms(1)] tail
  show "expand_from (v @ sep @ w) 0 (ms @ ?ns) = (case (expand_from v 0 ms, expand_from w 0 ns) of (Some a, Some b) \<Rightarrow> Some (a @ sep @ b) | _ \<Rightarrow> None)"
    by (simp add: s0 split: option.split)
qed

definition fp_expanded :: "FlushPayload \<Rightarrow> jstr option" where
  "fp_expanded p = expand_from (fp_value p) 0 (fp_mentions p)"

definition entry_ok :: "PendingQueuedMessage \<Rightarrow> bool" where
  "entry_ok q \<longleftrightarrow> in_range (pq_value q) 0 (pq_mentions q)"

lemma expandMentions_from: "expandMentions v ms = expand_from v 0 ms"
  by (simp add: expandMentions_def)

lemma join_with_Cons: "join_with sep (x # xs) = x @ concat (map (\<lambda>y. sep @ y) xs)"
proof (induction xs arbitrary: x)
  case (Cons y ys)
  from Cons [of y] show ?case by simp
qed simp

lemma blank_line: "map ((@) [10, 10]) ws = map (\<lambda>y. 10 # 10 # y) (ws :: jstr list)"
  by simp

lemma flush_later:
  "in_range (fp_value p) 0 (fp_mentions p) \<Longrightarrow> list_all entry_ok qs \<Longrightarrow>
    fp_expanded (flush_entries False p qs) =
      (case (fp_expanded p, those (map (\<lambda>q. expandMentions (pq_value q) (pq_mentions q)) qs)) of
         (Some w, Some ws) \<Rightarrow> Some (w @ concat (map (\<lambda>y. [10, 10] @ y) ws)) | _ \<Rightarrow> None)"
proof (induction qs arbitrary: p)
  case Nil
  then show ?case by (simp split: option.split)
next
  case (Cons q qs)
  let ?p = "\<lparr>fp_value = (fp_value p @ [10, 10]) @ pq_value q, fp_mentions = fp_mentions p @ map (shift_by (length (fp_value p @ [10, 10]))) (pq_mentions q),
    fp_attachments = fp_attachments p @ pq_attachments q\<rparr>"
  have q: "in_range (pq_value q) 0 (pq_mentions q)" using Cons.prems(2) by (simp add: entry_ok_def)
  note st = expand_step [OF Cons.prems(1) q, of "[10, 10]"]
  have r: "in_range (fp_value ?p) 0 (fp_mentions ?p)" using st(1) by simp
  have e: "fp_expanded ?p = (case (fp_expanded p, expandMentions (pq_value q) (pq_mentions q)) of (Some a, Some b) \<Rightarrow> Some (a @ [10, 10] @ b) | _ \<Rightarrow> None)"
    using st(2) by (simp add: fp_expanded_def expandMentions_from)
  have "flush_entries False p (q # qs) = flush_entries False ?p qs" by (simp add: Let_def)
  with Cons.IH [OF r] Cons.prems(2) e show ?case by (simp split: option.split)
qed

section \<open>Theorems: what a combined message says\<close>

text \<open>C22: messages that waited together are sent as one: the text sent, with its mentions written as tokens, is the texts that each of
  them would have been sent as, with a blank line between. In particular no mention shifts onto other text.\<close>
theorem combined_queue_says_each:
  assumes "list_all entry_ok queue" "buildFlushPayload queue = Some p"
  shows "expandMentions (fp_value p) (fp_mentions p) =
    map_option (join_with [10, 10]) (those (map (\<lambda>q. expandMentions (pq_value q) (pq_mentions q)) queue))"
proof (cases queue)
  case Nil
  with assms(2) show ?thesis by (simp add: buildFlushPayload_def)
next
  case (Cons q qs)
  show ?thesis
  proof (cases qs)
    case Nil
    with Cons assms(2) show ?thesis by (auto simp: buildFlushPayload_def split: option.split)
  next
    case (Cons q2 rest)
    let ?p = "\<lparr>fp_value = pq_value q, fp_mentions = pq_mentions q, fp_attachments = pq_attachments q\<rparr>"
    have s0: "map (shift_by 0) ms = ms" for ms by (simp add: shift_by_def map_idI)
    have p: "p = flush_entries False ?p qs" using assms(2) \<open>queue = q # qs\<close> Cons by (simp add: buildFlushPayload_def s0)
    have q: "in_range (fp_value ?p) 0 (fp_mentions ?p)" "list_all entry_ok qs" using assms(1) \<open>queue = q # qs\<close> by (simp_all add: entry_ok_def)
    have "fp_expanded p = (case (fp_expanded ?p, those (map (\<lambda>q. expandMentions (pq_value q) (pq_mentions q)) qs)) of
         (Some w, Some ws) \<Rightarrow> Some (w @ concat (map (\<lambda>y. [10, 10] @ y) ws)) | _ \<Rightarrow> None)"
      unfolding p by (rule flush_later [OF q])
    then show ?thesis using \<open>queue = q # qs\<close>
      by (simp add: fp_expanded_def expandMentions_from join_with_Cons blank_line split: option.splits)
  qed
qed

theorem combined_queue_says_each_witness:
  "expandMentions (js ''see @A'' @ [10, 10] @ js ''and @A'') [node_mention 4 6 ''n1'', node_mention 12 14 ''n1''] =
    map_option (join_with [10, 10]) (those (map (\<lambda>q. expandMentions (pq_value q) (pq_mentions q))
      [(queued ''q1'' ''see @A'')\<lparr>pq_mentions := [node_mention 4 6 ''n1'']\<rparr>, (queued ''q2'' ''and @A'')\<lparr>pq_mentions := [node_mention 4 6 ''n1'']\<rparr>]))"
  using combined_queue_says_each [of
      "[(queued ''q1'' ''see @A'')\<lparr>pq_mentions := [node_mention 4 6 ''n1'']\<rparr>, (queued ''q2'' ''and @A'')\<lparr>pq_mentions := [node_mention 4 6 ''n1'']\<rparr>]"
      "\<lparr>fp_value = js ''see @A'' @ [10, 10] @ js ''and @A'', fp_mentions = [node_mention 4 6 ''n1'', node_mention 12 14 ''n1''], fp_attachments = []\<rparr>"]
  by (simp add: entry_ok_def queued_def node_mention_def buildFlushPayload_def shift_by_def js_def Let_def)

end
