(* ===== verification/Workspace_Sync.thy ===== *)
theory Workspace_Sync
  imports Michi_Prelude
begin

text \<open>
  The queue of workspace saves (\<^verbatim>\<open>frontend/src/state/workspaceSyncQueue.ts\<close>): one save of a workspace at a time, and one waiting,
  which is the latest. A task is a value of any type; a task that throws before it returns its promise is told by \<open>throws\<close>, the
  end of a promise is an event of the model. What the queue makes happen is a log: tasks started and ended, and the
  promises of \<open>whenIdle\<close> resolved.
\<close>

section \<open>State\<close>

record 't sync_state =
  sy_inFlight :: bool
  sy_pending :: "'t option"
  sy_idleWaiters :: "nat list"

datatype 't sync_log =
    Started jstr 't
  | Ended jstr bool \<comment> \<open>whether the error handler was told\<close>
  | Idle jstr nat \<comment> \<open>a promise of \<open>whenIdle\<close> is resolved\<close>

type_synonym 't sync_queue = "(jstr \<times> 't sync_state) list"

datatype 't sync_event =
    Enqueue jstr 't
  | Settles jstr bool \<comment> \<open>the promise of the running task, whether rejected\<close>
  | WhenIdle jstr nat

section \<open>Operations\<close>

function run_sync :: "('t \<Rightarrow> bool) \<Rightarrow> jstr \<Rightarrow> 't sync_state \<Rightarrow> 't \<Rightarrow> 't sync_queue \<Rightarrow> 't sync_queue \<times> 't sync_log list" where
  \<comment> \<open>\<open>run\<close> with the \<open>finish\<close> of a task that throws; the state is the one stored for the workspace\<close>
  "run_sync throws ws st task states =
     (if \<not> throws task then (AList.update ws st states, [Started ws task])
      else case sy_pending st of
        Some next \<Rightarrow> (let (states', log) = run_sync throws ws (st\<lparr>sy_pending := None\<rparr>) next states in (states', [Started ws task, Ended ws True] @ log))
      | None \<Rightarrow> (AList.delete ws states, [Started ws task, Ended ws True] @ map (Idle ws) (sy_idleWaiters st)))"
  by pat_completeness auto
termination by (relation "measure (\<lambda>(throws, ws, st, task, states). case sy_pending st of None \<Rightarrow> 0 | Some _ \<Rightarrow> 1)") auto

declare run_sync.simps [simp del]

definition finish_sync :: "('t \<Rightarrow> bool) \<Rightarrow> jstr \<Rightarrow> 't sync_state \<Rightarrow> 't sync_queue \<Rightarrow> 't sync_queue \<times> 't sync_log list" where
  "finish_sync throws ws st states = (case sy_pending st of
      Some next \<Rightarrow> run_sync throws ws (st\<lparr>sy_pending := None\<rparr>) next states
    | None \<Rightarrow> (AList.delete ws states, map (Idle ws) (sy_idleWaiters st)))"

definition enqueue :: "('t \<Rightarrow> bool) \<Rightarrow> jstr \<Rightarrow> 't \<Rightarrow> 't sync_queue \<Rightarrow> 't sync_queue \<times> 't sync_log list" where
  "enqueue throws ws task states =
     (let existing = map_of states ws;
          fresh = default_to existing \<lparr>sy_inFlight = False, sy_pending = None, sy_idleWaiters = []\<rparr>
      in case existing of
           Some st \<Rightarrow> if sy_inFlight st then (AList.update ws (st\<lparr>sy_pending := Some task\<rparr>) states, [])
             else run_sync throws ws (fresh\<lparr>sy_inFlight := True\<rparr>) task states
         | None \<Rightarrow> run_sync throws ws (fresh\<lparr>sy_inFlight := True\<rparr>) task states)"

definition isInFlight :: "'t sync_queue \<Rightarrow> jstr \<Rightarrow> bool" where
  "isInFlight states ws \<longleftrightarrow> (case map_of states ws of None \<Rightarrow> False | Some st \<Rightarrow> sy_inFlight st)"

definition hasPending :: "'t sync_queue \<Rightarrow> jstr \<Rightarrow> bool" where
  "hasPending states ws \<longleftrightarrow> (case map_of states ws of None \<Rightarrow> False | Some st \<Rightarrow> sy_pending st \<noteq> None)"

definition whenIdle :: "jstr \<Rightarrow> nat \<Rightarrow> 't sync_queue \<Rightarrow> 't sync_queue \<times> 't sync_log list" where
  "whenIdle ws waiter states = (case map_of states ws of
      None \<Rightarrow> (states, [Idle ws waiter])
    | Some st \<Rightarrow> if \<not> sy_inFlight st then (states, [Idle ws waiter])
        else (AList.update ws (st\<lparr>sy_idleWaiters := sy_idleWaiters st @ [waiter]\<rparr>) states, []))"

definition settles :: "('t \<Rightarrow> bool) \<Rightarrow> jstr \<Rightarrow> bool \<Rightarrow> 't sync_queue \<Rightarrow> 't sync_queue \<times> 't sync_log list" where
  \<comment> \<open>the handlers on the promise of the running task; without one the event does not occur\<close>
  "settles throws ws rejected states = (case map_of states ws of None \<Rightarrow> (states, [])
     | Some st \<Rightarrow> let (states', log) = finish_sync throws ws st states in (states', Ended ws rejected # log))"

fun sync_step :: "('t \<Rightarrow> bool) \<Rightarrow> 't sync_queue \<times> 't sync_log list \<Rightarrow> 't sync_event \<Rightarrow> 't sync_queue \<times> 't sync_log list" where
  "sync_step throws (states, log) (Enqueue ws task) = (let (states', more) = enqueue throws ws task states in (states', log @ more))"
| "sync_step throws (states, log) (Settles ws rejected) = (let (states', more) = settles throws ws rejected states in (states', log @ more))"
| "sync_step throws (states, log) (WhenIdle ws waiter) = (let (states', more) = whenIdle ws waiter states in (states', log @ more))"

definition sync_run :: "('t \<Rightarrow> bool) \<Rightarrow> 't sync_event list \<Rightarrow> 't sync_queue \<times> 't sync_log list" where
  "sync_run throws = foldl (sync_step throws) ([], [])"

section \<open>What a log tells of a workspace\<close>

fun track :: "jstr \<Rightarrow> 't option option \<Rightarrow> 't sync_log \<Rightarrow> 't option option" where
  \<comment> \<open>the running task; \<open>None\<close> once a task was started beside another, or ended without one\<close>
  "track ws s (Started w t) = (if w \<noteq> ws then s else case s of Some None \<Rightarrow> Some (Some t) | _ \<Rightarrow> None)"
| "track ws s (Ended w e) = (if w \<noteq> ws then s else case s of Some (Some t) \<Rightarrow> Some None | _ \<Rightarrow> None)"
| "track ws s (Idle w n) = s"

fun note_started :: "jstr \<Rightarrow> 't option \<Rightarrow> 't sync_log \<Rightarrow> 't option" where
  "note_started ws s (Started w t) = (if w = ws then Some t else s)"
| "note_started ws s _ = s"

fun note_enqueued :: "jstr \<Rightarrow> 't option \<Rightarrow> 't sync_event \<Rightarrow> 't option" where
  "note_enqueued ws s (Enqueue w t) = (if w = ws then Some t else s)"
| "note_enqueued ws s _ = s"

definition last_started :: "jstr \<Rightarrow> 't sync_log list \<Rightarrow> 't option" where
  "last_started ws = foldl (note_started ws) None"

definition last_enqueued :: "jstr \<Rightarrow> 't sync_event list \<Rightarrow> 't option" where
  "last_enqueued ws = foldl (note_enqueued ws) None"

definition answered :: "jstr \<Rightarrow> 't sync_log list \<Rightarrow> nat list" where
  "answered ws log = List.map_filter (\<lambda>e. case e of Idle w n \<Rightarrow> if w = ws then Some n else None | _ \<Rightarrow> None) log"

definition asked :: "jstr \<Rightarrow> 't sync_event list \<Rightarrow> nat list" where
  "asked ws events = List.map_filter (\<lambda>e. case e of WhenIdle w n \<Rightarrow> if w = ws then Some n else None | _ \<Rightarrow> None) events"

section \<open>Lemmas\<close>

lemma map_filter_append: "List.map_filter f (xs @ ys) = List.map_filter f xs @ List.map_filter f ys"
  by (simp add: map_filter_def)

lemma answered_append: "answered ws (xs @ ys) = answered ws xs @ answered ws ys"
  by (simp add: answered_def map_filter_append)

lemma answered_simps:
  "answered ws [] = []" "answered ws (Started w t # log) = answered ws log" "answered ws (Ended w e # log) = answered ws log"
  "answered ws (Idle w n # log) = (if w = ws then n # answered ws log else answered ws log)"
  by (simp_all add: answered_def map_filter_simps)

lemma answered_idle: "answered ws (map (Idle w) ns) = (if w = ws then ns else [])"
  by (cases "w = ws"; induction ns) (simp_all add: answered_simps)

lemma track_idle: "foldl (track ws) s (map (Idle w) ns) = s"
  by (induction ns arbitrary: s) simp_all

lemma started_idle: "foldl (note_started ws) s (map (Idle w) ns) = s"
  by (induction ns arbitrary: s) simp_all

definition sync_inv :: "jstr \<Rightarrow> 't sync_event list \<Rightarrow> 't sync_queue \<times> 't sync_log list \<Rightarrow> bool" where
  "sync_inv ws events s \<longleftrightarrow> (case map_of (fst s) ws of
      None \<Rightarrow> foldl (track ws) (Some None) (snd s) = Some None \<and> last_started ws (snd s) = last_enqueued ws events
        \<and> answered ws (snd s) = asked ws events
    | Some st \<Rightarrow> sy_inFlight st \<and> foldl (track ws) (Some None) (snd s) = Some (last_started ws (snd s)) \<and> last_started ws (snd s) \<noteq> None
        \<and> last_enqueued ws events = (case sy_pending st of None \<Rightarrow> last_started ws (snd s) | Some t \<Rightarrow> Some t)
        \<and> answered ws (snd s) @ sy_idleWaiters st = asked ws events)"

lemma run_sync_shape:
  obtains "run_sync throws ws st t states = (AList.update ws st states, [Started ws t])"
  | "sy_pending st = None" "run_sync throws ws st t states = (AList.delete ws states, [Started ws t, Ended ws True] @ map (Idle ws) (sy_idleWaiters st))"
  | n where "sy_pending st = Some n" "run_sync throws ws st t states =
      (AList.update ws (st\<lparr>sy_pending := None\<rparr>) states, [Started ws t, Ended ws True, Started ws n])"
  | n where "sy_pending st = Some n" "run_sync throws ws st t states =
      (AList.delete ws states, [Started ws t, Ended ws True, Started ws n, Ended ws True] @ map (Idle ws) (sy_idleWaiters st))"
proof (cases "throws t")
  case True
  show ?thesis
  proof (cases "sy_pending st")
    case None
    with True that(2) show ?thesis by (simp add: run_sync.simps [of throws ws st])
  next
    case (Some n)
    with True that(3,4) [of n] show ?thesis
      by (cases "throws n") (simp_all add: run_sync.simps [of throws ws st] run_sync.simps [of throws ws "st\<lparr>sy_pending := None\<rparr>"])
  qed
qed (use that(1) in \<open>simp add: run_sync.simps [of throws ws st]\<close>)

lemma map_of_delete: "map_of (AList.delete k xs) = (map_of xs)(k := None)"
  by (rule AList.delete_conv')

lemmas sync_facts = sync_inv_def last_started_def answered_append
  answered_idle answered_simps track_idle started_idle AList.update_conv' map_of_delete

lemma run_sync_other:
  assumes "run_sync throws ws st t states = (states', log)" "w \<noteq> ws"
  shows "map_of states' w = map_of states w" "foldl (track w) s log = s" "foldl (note_started w) u log = u" "answered w log = []"
  using assms by (cases rule: run_sync_shape [of throws ws st t states]; auto simp: sync_facts)+

lemma run_sync_inv:
  assumes "run_sync throws ws st t states = (states', ls)" "sy_inFlight st"
    and "foldl (track ws) (Some None) log = Some None"
    and "last_enqueued ws events = (case sy_pending st of None \<Rightarrow> Some t | Some n \<Rightarrow> Some n)"
    and "answered ws log @ sy_idleWaiters st = asked ws events"
  shows "sync_inv ws events (states', log @ ls)"
  using assms by (cases rule: run_sync_shape [of throws ws st t states]) (auto simp: sync_facts split: option.splits)

lemma last_enqueued_snoc:
  "last_enqueued ws (events @ [Enqueue w t]) = (if w = ws then Some t else last_enqueued ws events)"
  "last_enqueued ws (events @ [Settles w r]) = last_enqueued ws events" "last_enqueued ws (events @ [WhenIdle w n]) = last_enqueued ws events"
  by (simp_all add: last_enqueued_def)

lemma asked_snoc:
  "asked ws (events @ [Enqueue w t]) = asked ws events" "asked ws (events @ [Settles w r]) = asked ws events"
  "asked ws (events @ [WhenIdle w n]) = asked ws events @ (if w = ws then [n] else [])"
  by (simp_all add: asked_def map_filter_append map_filter_simps)

lemma enqueue_inv:
  assumes "sync_inv ws events (states, log)" "enqueue throws w t states = (states', ls)"
  shows "sync_inv ws (events @ [Enqueue w t]) (states', log @ ls)"
proof (cases "\<exists>st. map_of states w = Some st \<and> sy_inFlight st")
  case True
  with assms show ?thesis by (auto simp: enqueue_def sync_facts last_enqueued_snoc asked_snoc split: option.splits)
next
  case False
  show ?thesis
  proof (cases "w = ws")
    case True
    with False assms(1) have "map_of states ws = None" by (auto simp: sync_inv_def split: option.splits)
    with True assms show ?thesis
      by (intro run_sync_inv [of throws ws "\<lparr>sy_inFlight = True, sy_pending = None, sy_idleWaiters = []\<rparr>" t states])
        (simp_all add: enqueue_def sync_inv_def last_enqueued_snoc asked_snoc)
  next
    case w: False
    have "\<exists>st. run_sync throws w st t states = (states', ls)" using False assms(2) by (auto simp: enqueue_def Let_def split: option.splits)
    then obtain st where "run_sync throws w st t states = (states', ls)" ..
    from run_sync_other [OF this not_sym [OF w]] assms(1) w show ?thesis
      by (auto simp: sync_inv_def last_started_def answered_append last_enqueued_snoc asked_snoc split: option.splits)
  qed
qed

lemma settles_inv:
  assumes "sync_inv ws events (states, log)" "settles throws w r states = (states', ls)"
  shows "sync_inv ws (events @ [Settles w r]) (states', log @ ls)"
proof (cases "map_of states w")
  case None
  with assms show ?thesis by (auto simp: settles_def sync_inv_def last_enqueued_snoc asked_snoc split: option.splits)
next
  case (Some st)
  show ?thesis
  proof (cases "sy_pending st")
    case None
    with assms Some show ?thesis
      by (cases "w = ws") (auto simp: settles_def finish_sync_def sync_facts last_enqueued_snoc asked_snoc split: option.splits)
  next
    case pend: (Some n)
    obtain ls' where run: "run_sync throws w (st\<lparr>sy_pending := None\<rparr>) n states = (states', ls')" "ls = Ended w r # ls'"
      using assms(2) Some pend by (auto simp: settles_def finish_sync_def split: prod.splits)
    show ?thesis
    proof (cases "w = ws")
      case True
      with assms(1) Some pend have i: "sy_inFlight st" "foldl (track ws) (Some None) log = Some (last_started ws log)" "last_started ws log \<noteq> None"
        "last_enqueued ws events = Some n" "answered ws log @ sy_idleWaiters st = asked ws events" by (auto simp: sync_inv_def)
      have "sync_inv ws (events @ [Settles w r]) (states', (log @ [Ended w r]) @ ls')"
        using run(1) True i
        by (intro run_sync_inv [of throws ws "st\<lparr>sy_pending := None\<rparr>" n states])
          (auto simp: last_enqueued_snoc asked_snoc answered_append answered_simps)
      then show ?thesis by (simp add: run(2))
    next
      case False
      from run_sync_other [OF run(1) not_sym [OF False]] assms(1) False show ?thesis
        by (auto simp: run(2) sync_inv_def last_started_def answered_append answered_simps last_enqueued_snoc asked_snoc split: option.splits)
    qed
  qed
qed

lemma whenIdle_inv:
  assumes "sync_inv ws events (states, log)" "whenIdle w n states = (states', ls)"
  shows "sync_inv ws (events @ [WhenIdle w n]) (states', log @ ls)"
  using assms by (cases "w = ws") (auto simp: whenIdle_def sync_facts last_enqueued_snoc asked_snoc split: option.splits if_splits)

lemma sync_run_inv: "sync_inv ws events (sync_run throws events)"
proof (induction events rule: rev_induct)
  case Nil
  then show ?case by (simp add: sync_run_def sync_inv_def last_started_def last_enqueued_def answered_def asked_def map_filter_simps)
next
  case (snoc e events)
  obtain states log where s: "sync_run throws events = (states, log)" by (cases "sync_run throws events") auto
  with snoc have i: "sync_inv ws events (states, log)" by simp
  show ?case
  proof (cases e)
    case (Enqueue w t)
    with enqueue_inv [OF i, of throws w t] s show ?thesis by (auto simp: sync_run_def split: prod.split)
  next
    case (Settles w r)
    with settles_inv [OF i, of throws w r] s show ?thesis by (auto simp: sync_run_def split: prod.split)
  next
    case (WhenIdle w n)
    with whenIdle_inv [OF i, of w n] s show ?thesis by (auto simp: sync_run_def split: prod.split)
  qed
qed

section \<open>Theorems\<close>

text \<open>Whatever is enqueued and however the saves end, a workspace has one save at a time: in the log of everything that happened, its
  tasks start and end in turn, and one is running exactly while the queue says so.\<close>
theorem one_save_at_a_time:
  "foldl (track ws) (Some None) (snd (sync_run throws events)) \<noteq> None
   \<and> (isInFlight (fst (sync_run throws events)) ws = (foldl (track ws) (Some None) (snd (sync_run throws events)) \<noteq> Some None))"
  using sync_run_inv [of ws events throws] by (auto simp: sync_inv_def isInFlight_def split: option.splits)

text \<open>C21: no save is lost for good: when the queue of a workspace is idle, the last task that was started is the last that was enqueued,
  and everybody who waited for it, in the order of asking, has been told once.\<close>
theorem latest_save_wins:
  assumes "\<not> isInFlight (fst (sync_run throws events)) ws"
  shows "last_started ws (snd (sync_run throws events)) = last_enqueued ws events
    \<and> answered ws (snd (sync_run throws events)) = asked ws events"
  using sync_run_inv [of ws events throws] assms by (auto simp: sync_inv_def isInFlight_def split: option.splits)

theorem latest_save_wins_witness:
  "last_started (js ''w'') (snd (sync_run (\<lambda>_. False) [Enqueue (js ''w'') (1 :: nat), Enqueue (js ''w'') 2, WhenIdle (js ''w'') 7,
      Enqueue (js ''w'') 3, Settles (js ''w'') True, Settles (js ''w'') False])) = last_enqueued (js ''w'') [Enqueue (js ''w'') (1 :: nat),
      Enqueue (js ''w'') 2, WhenIdle (js ''w'') 7, Enqueue (js ''w'') 3, Settles (js ''w'') True, Settles (js ''w'') False]
    \<and> answered (js ''w'') (snd (sync_run (\<lambda>_. False) [Enqueue (js ''w'') (1 :: nat), Enqueue (js ''w'') 2, WhenIdle (js ''w'') 7,
      Enqueue (js ''w'') 3, Settles (js ''w'') True, Settles (js ''w'') False])) = asked (js ''w'') [Enqueue (js ''w'') (1 :: nat),
      Enqueue (js ''w'') 2, WhenIdle (js ''w'') 7, Enqueue (js ''w'') 3, Settles (js ''w'') True, Settles (js ''w'') False]"
  by (rule latest_save_wins)
    (simp add: sync_run_def enqueue_def run_sync.simps settles_def finish_sync_def whenIdle_def isInFlight_def)

end
