(* ===== verification/Project_Reducer.thy ===== *)
theory Project_Reducer
  imports Kiro_Steering
begin

text \<open>
  The reducer of a project (\<open>reduceProject\<close> of \<^verbatim>\<open>frontend/src/state/chatReducers.ts\<close>): its trees and which of them is active, and
  its artifacts. \<open>toLowerCase\<close>, the letters and numbers of Unicode and the identifier made for a new artifact are arguments.
\<close>

section \<open>State\<close>

datatype tree_kind = NormalTree | MergeTree

record Tree =
  wt_id :: jstr
  wt_rootNodeId :: jstr
  wt_name :: "jstr option"
  wt_createdAt :: int
  wt_lastActiveAt :: int
  wt_archivedAt :: "int option"
  wt_pinnedAt :: "int option"
  wt_kind :: "tree_kind option"

datatype artifact_type = DocArtifact | FileArtifact | ImageArtifact | LinkArtifact
datatype artifact_source = UserSource | AgentSource
datatype artifact_kind = Embedded | Reference | Symlink

record ArtifactEntry =
  ae_id :: jstr
  ae_name :: jstr
  ae_filePath :: jstr
  ae_url :: "jstr option"
  ae_type :: "artifact_type option"
  ae_size :: "int option"
  ae_origin :: "(jstr \<times> jstr option) option"
  ae_pinnedAt :: "int option"
  ae_source :: artifact_source
  ae_kind :: "artifact_kind option"
  ae_createdAt :: int
  ae_updatedAt :: int

record Project =
  pr_chatIds :: "jstr list"
  pr_trees :: "Tree list"
  pr_activeTreeId :: "jstr option"
  pr_artifacts :: "ArtifactEntry list"

record context_input =
  ci_id :: "jstr option"
  ci_name :: jstr
  ci_filePath :: jstr
  ci_url :: "jstr option"
  ci_type :: "artifact_type option"
  ci_size :: "int option"
  ci_source :: "artifact_source option"
  ci_origin :: "(jstr \<times> jstr option) option"
  ci_kind :: "artifact_kind option"

datatype ProjectAction =
    CreateTree jstr jstr int "tree_kind option"
  | ArchiveTree jstr int
  | UnarchiveTree jstr int
  | PinTree jstr int
  | UnpinTree jstr
  | RenameTree jstr jstr
  | ActivateTree "jstr option"
  | TouchTree jstr int
  | UpsertContext context_input
  | UpdateContextByName context_input
  | DeleteContext jstr
  | PinContext jstr int
  | UnpinContext jstr
  | RenameContext jstr jstr

section \<open>Trees\<close>

definition on_tree :: "jstr \<Rightarrow> (Tree \<Rightarrow> Tree) \<Rightarrow> Project \<Rightarrow> Project" where
  "on_tree treeId f p = p\<lparr>pr_trees := map (\<lambda>t. if wt_id t = treeId then f t else t) (pr_trees p)\<rparr>"

definition create_tree :: "jstr \<Rightarrow> jstr \<Rightarrow> int \<Rightarrow> tree_kind option \<Rightarrow> Project \<Rightarrow> Project" where
  "create_tree treeId rootNodeId now kind p = p\<lparr>
     pr_chatIds := (if rootNodeId \<in> set (pr_chatIds p) then pr_chatIds p else pr_chatIds p @ [rootNodeId]),
     pr_trees := pr_trees p @ [\<lparr>wt_id = treeId, wt_rootNodeId = rootNodeId, wt_name = None, wt_createdAt = now, wt_lastActiveAt = now,
       wt_archivedAt = None, wt_pinnedAt = None, wt_kind = kind\<rparr>],
     pr_activeTreeId := Some treeId\<rparr>"

definition tree_archived :: "Tree \<Rightarrow> bool" where
  \<comment> \<open>whether the time is truthy\<close>
  "tree_archived t \<longleftrightarrow> wt_archivedAt t \<noteq> None \<and> wt_archivedAt t \<noteq> Some 0"

definition next_active :: "jstr \<Rightarrow> Tree list \<Rightarrow> jstr option" where
  "next_active treeId trees =
     (case sort_key (\<lambda>t. - wt_lastActiveAt t) (filter (\<lambda>t. wt_id t \<noteq> treeId \<and> \<not> tree_archived t) trees) of
        [] \<Rightarrow> None | t # _ \<Rightarrow> Some (wt_id t))"

definition archive_tree :: "jstr \<Rightarrow> int \<Rightarrow> Project \<Rightarrow> Project" where
  "archive_tree treeId now p =
     (let q = on_tree treeId (\<lambda>t. t\<lparr>wt_archivedAt := Some now\<rparr>) p
      in q\<lparr>pr_activeTreeId := (if pr_activeTreeId p = Some treeId then next_active treeId (pr_trees q) else pr_activeTreeId p)\<rparr>)"

definition activate_tree :: "jstr option \<Rightarrow> Project \<Rightarrow> Project" where
  "activate_tree treeId p =
     (if (case treeId of None \<Rightarrow> False | Some i \<Rightarrow> \<not> list_ex (\<lambda>t. wt_id t = i) (pr_trees p)) then p else p\<lparr>pr_activeTreeId := treeId\<rparr>)"

section \<open>Artifacts\<close>

definition refreshed :: "context_input \<Rightarrow> int \<Rightarrow> ArtifactEntry \<Rightarrow> ArtifactEntry" where
  "refreshed c now a = a\<lparr>ae_id := default_to (ci_id c) (ae_id a), ae_name := ci_name c, ae_filePath := ci_filePath c,
     ae_url := nullish (ci_url c) (ae_url a), ae_type := nullish (ci_type c) (ae_type a), ae_size := nullish (ci_size c) (ae_size a),
     ae_origin := nullish (ci_origin c) (ae_origin a), ae_kind := nullish (ci_kind c) (ae_kind a), ae_updatedAt := now\<rparr>"

definition new_entry :: "jstr \<Rightarrow> context_input \<Rightarrow> jstr \<Rightarrow> artifact_source \<Rightarrow> int \<Rightarrow> ArtifactEntry" where
  "new_entry newId c name source now = \<lparr>ae_id = default_to (ci_id c) newId, ae_name = name, ae_filePath = ci_filePath c, ae_url = ci_url c,
     ae_type = Some (default_to (ci_type c) (if truthy_str (ci_url c) then LinkArtifact else DocArtifact)), ae_size = ci_size c,
     ae_origin = ci_origin c, ae_pinnedAt = None, ae_source = default_to (ci_source c) source, ae_kind = ci_kind c,
     ae_createdAt = now, ae_updatedAt = now\<rparr>"

definition suffixed :: "jstr \<Rightarrow> nat \<Rightarrow> jstr" where
  "suffixed name suffix = name @ [45] @ decimal suffix"

fun free_suffix :: "nat \<Rightarrow> (jstr \<Rightarrow> jstr) \<Rightarrow> jstr set \<Rightarrow> jstr \<Rightarrow> nat \<Rightarrow> nat option" where
  \<comment> \<open>the loop over suffixes, with fuel\<close>
  "free_suffix 0 lower names name suffix = None"
| "free_suffix (Suc f) lower names name suffix =
     (if lower (suffixed name suffix) \<in> names then free_suffix f lower names name (suffix + 1) else Some suffix)"

definition free_name :: "(jstr \<Rightarrow> jstr) \<Rightarrow> ArtifactEntry list \<Rightarrow> jstr \<Rightarrow> jstr option" where
  "free_name lower artifacts name =
     (let names = set (map (\<lambda>a. lower (ae_name a)) artifacts)
      in if lower name \<notin> names then Some name
         else map_option (suffixed name) (free_suffix (length artifacts + 1) lower names name 2))"

definition upsert_context :: "(jstr \<Rightarrow> jstr) \<Rightarrow> jstr \<Rightarrow> int \<Rightarrow> context_input \<Rightarrow> Project \<Rightarrow> Project option" where
  \<comment> \<open>\<open>None\<close>: the loop over suffixes does not end\<close>
  "upsert_context lower newId now c p =
     (case (if truthy_str (ci_id c) then find_index (\<lambda>a. Some (ae_id a) = ci_id c \<or> lower (ae_name a) = lower (ci_name c)) (pr_artifacts p)
            else None) of
        Some i \<Rightarrow> Some (p\<lparr>pr_artifacts := (pr_artifacts p)[i := refreshed c now (pr_artifacts p ! i)]\<rparr>)
      | None \<Rightarrow> map_option (\<lambda>name. p\<lparr>pr_artifacts := pr_artifacts p @ [new_entry newId c name UserSource now]\<rparr>)
          (free_name lower (pr_artifacts p) (ci_name c)))"

definition update_context_by_name :: "(jstr \<Rightarrow> jstr) \<Rightarrow> jstr \<Rightarrow> int \<Rightarrow> context_input \<Rightarrow> Project \<Rightarrow> Project" where
  "update_context_by_name lower newId now c p =
     (case find_index (\<lambda>a. lower (ae_name a) = lower (ci_name c)) (pr_artifacts p) of
        Some i \<Rightarrow> p\<lparr>pr_artifacts := (pr_artifacts p)[i := refreshed c now (pr_artifacts p ! i)]\<rparr>
      | None \<Rightarrow> p\<lparr>pr_artifacts := pr_artifacts p @ [new_entry newId c (ci_name c) AgentSource now]\<rparr>)"

definition on_artifact_entry :: "jstr \<Rightarrow> (ArtifactEntry \<Rightarrow> ArtifactEntry) \<Rightarrow> Project \<Rightarrow> Project" where
  "on_artifact_entry i f p = p\<lparr>pr_artifacts := map (\<lambda>a. if ae_id a = i then f a else a) (pr_artifacts p)\<rparr>"

definition name_ok :: "(jstr \<Rightarrow> bool) \<Rightarrow> jstr \<Rightarrow> bool" where
  \<comment> \<open>the pattern \<open>^[\p{L}\p{N}_-]+$\<close> under the u flag\<close>
  "name_ok letter s \<longleftrightarrow> s \<noteq> [] \<and> list_all (\<lambda>c. letter c \<or> c = [95] \<or> c = [45]) (code_points s)"

definition rename_context :: "(jstr \<Rightarrow> jstr) \<Rightarrow> (jstr \<Rightarrow> bool) \<Rightarrow> int \<Rightarrow> jstr \<Rightarrow> jstr \<Rightarrow> Project \<Rightarrow> Project" where
  "rename_context lower letter now contextId newName p =
     (if \<not> name_ok letter newName then p
      else if list_ex (\<lambda>a. ae_id a \<noteq> contextId \<and> lower (ae_name a) = lower newName) (pr_artifacts p) then p
      else on_artifact_entry contextId (\<lambda>a. a\<lparr>ae_name := newName, ae_updatedAt := now\<rparr>) p)"

section \<open>The reducer\<close>

fun reduceProject :: "(jstr \<Rightarrow> jstr) \<Rightarrow> (jstr \<Rightarrow> bool) \<Rightarrow> jstr \<Rightarrow> int \<Rightarrow> Project \<Rightarrow> ProjectAction \<Rightarrow> Project option" where
  "reduceProject lower letter newId clock p (CreateTree treeId root now kind) = Some (create_tree treeId root now kind p)"
| "reduceProject lower letter newId clock p (ArchiveTree treeId now) = Some (archive_tree treeId now p)"
| "reduceProject lower letter newId clock p (UnarchiveTree treeId now) =
     Some (on_tree treeId (\<lambda>t. t\<lparr>wt_archivedAt := None, wt_lastActiveAt := now\<rparr>) p)"
| "reduceProject lower letter newId clock p (PinTree treeId now) = Some (on_tree treeId (\<lambda>t. t\<lparr>wt_pinnedAt := Some now\<rparr>) p)"
| "reduceProject lower letter newId clock p (UnpinTree treeId) = Some (on_tree treeId (\<lambda>t. t\<lparr>wt_pinnedAt := None\<rparr>) p)"
| "reduceProject lower letter newId clock p (RenameTree treeId name) = Some (on_tree treeId (\<lambda>t. t\<lparr>wt_name := Some name\<rparr>) p)"
| "reduceProject lower letter newId clock p (ActivateTree treeId) = Some (activate_tree treeId p)"
| "reduceProject lower letter newId clock p (TouchTree treeId now) = Some (on_tree treeId (\<lambda>t. t\<lparr>wt_lastActiveAt := now\<rparr>) p)"
| "reduceProject lower letter newId clock p (UpsertContext c) = upsert_context lower newId clock c p"
| "reduceProject lower letter newId clock p (UpdateContextByName c) = Some (update_context_by_name lower newId clock c p)"
| "reduceProject lower letter newId clock p (DeleteContext i) = Some (p\<lparr>pr_artifacts := filter (\<lambda>a. ae_id a \<noteq> i) (pr_artifacts p)\<rparr>)"
| "reduceProject lower letter newId clock p (PinContext i now) =
     Some (on_artifact_entry i (\<lambda>a. a\<lparr>ae_pinnedAt := Some now, ae_updatedAt := now\<rparr>) p)"
| "reduceProject lower letter newId clock p (UnpinContext i) =
     Some (on_artifact_entry i (\<lambda>a. a\<lparr>ae_pinnedAt := None, ae_updatedAt := clock\<rparr>) p)"
| "reduceProject lower letter newId clock p (RenameContext i newName) = Some (rename_context lower letter clock i newName p)"

section \<open>The active tree\<close>

definition active_ok :: "Project \<Rightarrow> bool" where
  "active_ok p \<longleftrightarrow> (case pr_activeTreeId p of None \<Rightarrow> True | Some i \<Rightarrow> list_ex (\<lambda>t. wt_id t = i) (pr_trees p))"

lemma on_tree_active:
  "(\<And>t. wt_id (f t) = wt_id t) \<Longrightarrow> active_ok p \<Longrightarrow> active_ok (on_tree i f p)"
  by (auto simp: active_ok_def on_tree_def list_ex_iff split: option.splits)

lemma next_active_Some:
  assumes "next_active treeId trees = Some i"
  shows "\<exists>t \<in> set trees. wt_id t = i \<and> wt_id t \<noteq> treeId \<and> \<not> tree_archived t
    \<and> (\<forall>u \<in> set trees. wt_id u \<noteq> treeId \<and> \<not> tree_archived u \<longrightarrow> wt_lastActiveAt u \<le> wt_lastActiveAt t)"
proof -
  let ?xs = "filter (\<lambda>t. wt_id t \<noteq> treeId \<and> \<not> tree_archived t) trees"
  from assms obtain t ts where s: "sort_key (\<lambda>t. - wt_lastActiveAt t) ?xs = t # ts" "i = wt_id t"
    by (auto simp: next_active_def split: list.splits)
  then have m: "set ?xs = set (t # ts)" by (metis set_sort)
  have "sorted (map (\<lambda>t. - wt_lastActiveAt t) (t # ts))" using sorted_sort_key [of "\<lambda>t. - wt_lastActiveAt t" ?xs] s(1) by simp
  then have "\<forall>u \<in> set (t # ts). wt_lastActiveAt u \<le> wt_lastActiveAt t" by auto
  moreover have "t \<in> set ?xs" using m by simp
  moreover have "u \<in> set (t # ts)" if "u \<in> set trees" "wt_id u \<noteq> treeId" "\<not> tree_archived u" for u
    using that m by auto
  ultimately show ?thesis using s(2) by auto
qed

lemma next_active_None: "next_active treeId trees = None \<longleftrightarrow> (\<forall>t \<in> set trees. wt_id t = treeId \<or> tree_archived t)"
proof -
  let ?xs = "filter (\<lambda>t. wt_id t \<noteq> treeId \<and> \<not> tree_archived t) trees"
  have "next_active treeId trees = None \<longleftrightarrow> sort_key (\<lambda>t. - wt_lastActiveAt t) ?xs = []"
    by (simp add: next_active_def split: list.split)
  also have "\<dots> \<longleftrightarrow> ?xs = []" by (simp only: set_empty [symmetric] set_sort)
  finally show ?thesis by (auto simp: filter_empty_conv)
qed

lemma active_artifacts [simp]: "active_ok (p\<lparr>pr_artifacts := as\<rparr>) = active_ok p" "active_ok (on_artifact_entry i f p) = active_ok p"
  by (simp_all add: active_ok_def on_artifact_entry_def split: option.split)

lemma reduceProject_active:
  assumes "reduceProject lower letter newId clock p a = Some q" "active_ok p"
  shows "active_ok q"
proof (cases a)
  case (ArchiveTree treeId now)
  let ?r = "on_tree treeId (\<lambda>t. t\<lparr>wt_archivedAt := Some now\<rparr>) p"
  have r: "active_ok ?r" by (rule on_tree_active) (use assms(2) in simp_all)
  show ?thesis
  proof (cases "pr_activeTreeId p = Some treeId")
    case True
    then show ?thesis using assms ArchiveTree next_active_Some [of treeId "pr_trees ?r"]
      by (auto simp: archive_tree_def Let_def active_ok_def list_ex_iff split: option.splits)
  next
    case False
    then show ?thesis using assms ArchiveTree r by (auto simp: archive_tree_def Let_def active_ok_def on_tree_def)
  qed
next
  case (CreateTree treeId root now kind)
  with assms show ?thesis by (auto simp: create_tree_def active_ok_def)
next
  case (ActivateTree treeId)
  with assms show ?thesis by (auto simp: activate_tree_def active_ok_def split: option.splits if_splits)
qed (use assms in \<open>auto simp: upsert_context_def update_context_by_name_def rename_context_def intro!: on_tree_active split: option.splits if_splits\<close>)

definition project_run :: "(jstr \<Rightarrow> jstr) \<Rightarrow> (jstr \<Rightarrow> bool) \<Rightarrow> Project \<Rightarrow> (jstr \<times> int \<times> ProjectAction) list \<Rightarrow> Project option" where
  "project_run lower letter p = foldl (\<lambda>s (newId, clock, a). Option.bind s (\<lambda>q. reduceProject lower letter newId clock q a)) (Some p)"

lemma project_run_Nil: "project_run lower letter p [] = Some p"
  by (simp add: project_run_def)

lemma project_run_snoc:
  "project_run lower letter p (as @ [(newId, clock, a)]) =
    Option.bind (project_run lower letter p as) (\<lambda>q. reduceProject lower letter newId clock q a)"
  by (simp add: project_run_def)

section \<open>Names and identifiers of artifacts\<close>











section \<open>Lemmas: the loop over suffixes\<close>

lemma free_suffix_None:
  "free_suffix f lower names name suffix = None \<Longrightarrow> \<forall>k < f. lower (suffixed name (suffix + k)) \<in> names"
proof (induction f arbitrary: suffix)
  case (Suc f)
  then have "lower (suffixed name suffix) \<in> names" "free_suffix f lower names name (suffix + 1) = None" by (auto split: if_splits)
  with Suc.IH [of "suffix + 1"] show ?case by (auto simp: less_Suc_eq_0_disj)
qed simp

text \<open>Of one more candidate than there are names one is free, when different suffixes give different names.\<close>

lemma free_suffix_enough:
  assumes "inj (\<lambda>k. lower (suffixed name k))" "finite names" "card names < f"
  shows "free_suffix f lower names name suffix \<noteq> None"
proof
  assume "free_suffix f lower names name suffix = None"
  from free_suffix_None [OF this] have sub: "(\<lambda>k. lower (suffixed name (suffix + k))) ` {..<f} \<subseteq> names" by auto
  have "inj_on (\<lambda>k. lower (suffixed name (suffix + k))) {..<f}"
  proof (rule inj_onI)
    fix x y assume "lower (suffixed name (suffix + x)) = lower (suffixed name (suffix + y))"
    with injD [OF assms(1), of "suffix + x" "suffix + y"] show "x = y" by simp
  qed
  then have "f = card ((\<lambda>k. lower (suffixed name (suffix + k))) ` {..<f})" by (simp add: card_image)
  also have "\<dots> \<le> card names" by (rule card_mono [OF assms(2) sub])
  finally show False using assms(3) by simp
qed

section \<open>Theorems\<close>

text \<open>The active tree of a project, when there is one, is a tree of the project, whatever is done with its trees and artifacts: an
  identifier of another project is refused, and the tree that takes over from an archived one is there.\<close>
theorem active_tree_exists:
  assumes "active_ok p" "project_run lower letter p actions = Some q"
  shows "active_ok q"
  using assms(2)
proof (induction actions arbitrary: q rule: rev_induct)
  case Nil
  with assms(1) show ?case by (simp add: project_run_Nil)
next
  case (snoc e actions)
  obtain newId clock a where e: "e = (newId, clock, a)" by (cases e) auto
  from snoc.prems obtain r where "project_run lower letter p actions = Some r" "reduceProject lower letter newId clock r a = Some q"
    unfolding e project_run_snoc by (cases "project_run lower letter p actions") auto
  with snoc.IH reduceProject_active show ?case by blast
qed

definition demo_tree :: "string \<Rightarrow> int \<Rightarrow> Tree" where
  "demo_tree i at = \<lparr>wt_id = js i, wt_rootNodeId = js i, wt_name = None, wt_createdAt = 0, wt_lastActiveAt = at, wt_archivedAt = None,
     wt_pinnedAt = None, wt_kind = None\<rparr>"

definition demo_entry :: "string \<Rightarrow> string \<Rightarrow> string \<Rightarrow> ArtifactEntry" where
  "demo_entry i w f = \<lparr>ae_id = js i, ae_name = js w, ae_filePath = js f, ae_url = None, ae_type = Some DocArtifact, ae_size = None, ae_origin = None,
     ae_pinnedAt = None, ae_source = UserSource, ae_kind = None, ae_createdAt = 0, ae_updatedAt = 0\<rparr>"

definition demo_project :: Project where
  "demo_project = \<lparr>pr_chatIds = [], pr_trees = [demo_tree ''t1'' 1, demo_tree ''t2'' 2], pr_activeTreeId = Some (js ''t1''),
     pr_artifacts = [demo_entry ''c1'' ''plan'' ''plan.md'', demo_entry ''c2'' ''notes'' ''notes.md'']\<rparr>"

theorem active_tree_exists_witness:
  "active_ok (archive_tree (js ''t1'') 5 demo_project)"
  by (rule active_tree_exists [of demo_project id "\<lambda>_. True" "[(js ''x'', 5, ArchiveTree (js ''t1'') 5)]"])
    (simp_all add: active_ok_def demo_project_def project_run_def demo_tree_def)

text \<open>When the active tree is archived, the most recently active of the trees that are not archived takes over, and none only when
  there is none.\<close>
theorem archive_moves_on:
  assumes "pr_activeTreeId p = Some treeId"
  shows "case pr_activeTreeId (archive_tree treeId now p) of
      None \<Rightarrow> \<forall>t \<in> set (pr_trees p). wt_id t = treeId \<or> tree_archived t
    | Some i \<Rightarrow> \<exists>t \<in> set (pr_trees p). wt_id t = i \<and> i \<noteq> treeId \<and> \<not> tree_archived t
        \<and> (\<forall>u \<in> set (pr_trees p). wt_id u \<noteq> treeId \<and> \<not> tree_archived u \<longrightarrow> wt_lastActiveAt u \<le> wt_lastActiveAt t)"
proof -
  let ?r = "map (\<lambda>t. if wt_id t = treeId then t\<lparr>wt_archivedAt := Some now\<rparr> else t) (pr_trees p)"
  have same: "filter (\<lambda>t. wt_id t \<noteq> treeId \<and> \<not> tree_archived t) ?r = filter (\<lambda>t. wt_id t \<noteq> treeId \<and> \<not> tree_archived t) (pr_trees p)"
  proof -
    have "filter (\<lambda>t. wt_id t \<noteq> treeId \<and> \<not> tree_archived t) (map (\<lambda>t. if wt_id t = treeId then t\<lparr>wt_archivedAt := Some now\<rparr> else t) ts)
        = filter (\<lambda>t. wt_id t \<noteq> treeId \<and> \<not> tree_archived t) ts" for ts by (induction ts) auto
    then show ?thesis .
  qed
  have "next_active treeId ?r = next_active treeId (pr_trees p)" unfolding next_active_def same ..
  then have "pr_activeTreeId (archive_tree treeId now p) = next_active treeId (pr_trees p)"
    using assms by (simp add: archive_tree_def Let_def on_tree_def)
  then show ?thesis using next_active_Some [of treeId "pr_trees p"] next_active_None [of treeId "pr_trees p"]
    by (auto split: option.split)
qed

theorem archive_moves_on_witness:
  "case pr_activeTreeId (archive_tree (js ''t1'') 5 demo_project) of
      None \<Rightarrow> \<forall>t \<in> set (pr_trees demo_project). wt_id t = js ''t1'' \<or> tree_archived t
    | Some i \<Rightarrow> \<exists>t \<in> set (pr_trees demo_project). wt_id t = i \<and> i \<noteq> js ''t1'' \<and> \<not> tree_archived t
        \<and> (\<forall>u \<in> set (pr_trees demo_project). wt_id u \<noteq> js ''t1'' \<and> \<not> tree_archived u \<longrightarrow> wt_lastActiveAt u \<le> wt_lastActiveAt t)"
  by (rule archive_moves_on) (simp add: demo_project_def)



definition file_input :: "string option \<Rightarrow> string \<Rightarrow> string \<Rightarrow> context_input" where
  "file_input i w f = \<lparr>ci_id = map_option js i, ci_name = js w, ci_filePath = js f, ci_url = None, ci_type = None, ci_size = None, ci_source = None,
     ci_origin = None, ci_kind = None\<rparr>"


text \<open>The loop that looks for a free suffix ends, after at most one more round than there are artifacts.\<close>
theorem upsert_ends:
  assumes "inj (\<lambda>k. lower (suffixed (ci_name c) k))"
  shows "reduceProject lower letter newId clock p (UpsertContext c) \<noteq> None"
proof -
  let ?names = "set (map (\<lambda>a. lower (ae_name a)) (pr_artifacts p))"
  have "card ?names < length (pr_artifacts p) + 1" using card_length [of "map (\<lambda>a. lower (ae_name a)) (pr_artifacts p)"] by simp
  from free_suffix_enough [OF assms _ this, of 2] show ?thesis
    by (auto simp: upsert_context_def free_name_def Let_def split: option.split)
qed

theorem upsert_ends_witness: "reduceProject id (\<lambda>_. True) (js ''c3'') 5 demo_project (UpsertContext (file_input None ''plan'' ''b.md'')) \<noteq> None"
  by (rule upsert_ends) (simp add: inj_def suffixed_def)

text \<open>Renaming an artifact to the name of one before it (the shelf does so with an update by identifier) overwrites that one: the
  first keeps its place but gets the identifier and the file of the second, and its own file is lost.\<close>
theorem rename_overwrites_other:
  "map_option (map (\<lambda>a. (ae_id a, ae_name a, ae_filePath a)) \<circ> pr_artifacts)
     (reduceProject id (\<lambda>_. True) (js ''c3'') 5 demo_project (UpsertContext (file_input (Some ''c2'') ''plan'' ''notes.md''))) =
   Some [(js ''c2'', js ''plan'', js ''notes.md''), (js ''c2'', js ''notes'', js ''notes.md'')]"
  by (simp add: demo_project_def demo_entry_def file_input_def upsert_context_def truthy_str_def refreshed_def)

text \<open>A tree that is taken out of the archive does not become active, also when no tree is.\<close>
theorem unarchived_tree_not_active:
  "pr_activeTreeId p = None \<Longrightarrow>
    map_option pr_activeTreeId (reduceProject lower letter newId clock p (UnarchiveTree treeId now)) = Some None"
  by (simp add: on_tree_def)

end
